(* ===== verification/Prelude.thy ===== *)
theory Prelude
  imports Main "HOL-Library.Word" "HOL-Library.Monad_Syntax"
begin

text \<open>
  Shared vocabulary of the development.

  The C code reports a broken precondition with \<^verbatim>\<open>assert\<close>, which aborts the process, and it
  has undefined behaviour where it touches memory outside an allocation.  Both are the value
  \<^term>\<open>None\<close>: every operation that can abort returns an option, and the do-notation of
  \<^verbatim>\<open>HOL-Library.Monad_Syntax\<close> threads it.  A theorem that an operation returns \<^term>\<open>Some x\<close>
  therefore says that no assertion of that operation fails and that no access is out of range.

  Fixed-width integers are words.  A buffer is a list of bytes; \<^verbatim>\<open>memcpy\<close> of an integer
  from or to a buffer is \<open>put_le\<close> and \<open>get_le\<close>, in the little-endian order of the machines
  the code runs on.
\<close>

unbundle bit_operations_syntax

type_synonym u8 = "8 word"
type_synonym u16 = "16 word"
type_synonym u32 = "32 word"
type_synonym u64 = "64 word"

named_theorems codec_simps \<open>encoder and decoder equations and their round trips\<close>
named_theorems size_simps \<open>lengths of encodings\<close>

subsection \<open>Assertions\<close>

definition assert_c :: "bool \<Rightarrow> unit option" where
  "assert_c b = (if b then Some () else None)"

lemma assert_c_simps [simp]:
  "assert_c True = Some ()" "assert_c False = None"
  by (simp_all add: assert_c_def)

lemma bind_assert_c [simp]:
  "Option.bind (assert_c b) f = (if b then f () else None)"
  by (simp add: assert_c_def)

lemma assert_c_eq_Some [simp]: "assert_c b = Some u \<longleftrightarrow> b"
  by (simp add: assert_c_def)

lemma bind_Some_iff:
  "Option.bind m f = Some y \<longleftrightarrow> (\<exists>x. m = Some x \<and> f x = Some y)"
  by (cases m) simp_all

subsection \<open>Integers in memory, little-endian\<close>

fun put_le :: "nat \<Rightarrow> 'a::len word \<Rightarrow> u8 list" where
  "put_le 0 w = []"
| "put_le (Suc n) w = ucast w # put_le n (drop_bit 8 w)"

fun of_le :: "u8 list \<Rightarrow> 'a::len word" where
  "of_le [] = 0"
| "of_le (b # bs) = ucast b OR push_bit 8 (of_le bs)"

definition get_le :: "nat \<Rightarrow> u8 list \<Rightarrow> ('a::len word \<times> u8 list) option" where
  "get_le n bs = (if length bs < n then None else Some (of_le (take n bs), drop n bs))"

lemma length_put_le [simp]: "length (put_le n w) = n"
  by (induction n arbitrary: w) simp_all

lemma put_le_eq_Nil [simp]: "put_le n w = [] \<longleftrightarrow> n = 0"
  by (cases n) simp_all

lemma bit_of_put_le:
  fixes w :: "'a::len word"
  assumes "LENGTH('a) \<ge> 8"
  shows "bit (of_le (put_le n w) :: 'a word) i \<longleftrightarrow> i < 8 * n \<and> bit w i"
  using assms
proof (induction n arbitrary: w i)
  case 0
  then show ?case by simp
next
  case (Suc n)
  show ?case
  proof (cases "i < 8")
    case True
    with Suc.prems show ?thesis
      by (simp add: bit_or_iff bit_push_bit_iff bit_ucast_iff)
  next
    case False
    show ?thesis
    proof (cases "i < LENGTH('a)")
      case True
      with False show ?thesis
        by (auto simp add: bit_or_iff bit_push_bit_iff bit_ucast_iff Suc.IH[OF Suc.prems]
            bit_drop_bit_eq dest: bit_imp_le_length)
    next
      case False
      then show ?thesis by (auto dest: bit_imp_le_length)
    qed
  qed
qed

lemma of_le_put_le:
  fixes w :: "'a::len word"
  assumes "LENGTH('a) \<ge> 8" and "LENGTH('a) \<le> 8 * n"
  shows "of_le (put_le n w) = w"
proof (rule bit_word_eqI)
  fix i assume "i < LENGTH('a)"
  with assms show "bit (of_le (put_le n w) :: 'a word) i \<longleftrightarrow> bit w i"
    by (simp add: bit_of_put_le)
qed

lemma get_put_le:
  fixes w :: "'a::len word"
  assumes "LENGTH('a) \<ge> 8" and "LENGTH('a) \<le> 8 * n"
  shows "get_le n (put_le n w @ rest) = Some (w, rest)"
  using of_le_put_le[OF assms, of w] by (simp add: get_le_def)

abbreviation put_u32 :: "u32 \<Rightarrow> u8 list" where "put_u32 \<equiv> put_le 4"
abbreviation put_u64 :: "u64 \<Rightarrow> u8 list" where "put_u64 \<equiv> put_le 8"
abbreviation get_u32 :: "u8 list \<Rightarrow> (u32 \<times> u8 list) option" where "get_u32 \<equiv> get_le 4"
abbreviation get_u64 :: "u8 list \<Rightarrow> (u64 \<times> u8 list) option" where "get_u64 \<equiv> get_le 8"

lemma get_put_u32 [simp, codec_simps]: "get_u32 (put_u32 w @ rest) = Some (w, rest)"
  by (rule get_put_le) simp_all

lemma get_put_u64 [simp, codec_simps]: "get_u64 (put_u64 w @ rest) = Some (w, rest)"
  by (rule get_put_le) simp_all

lemma get_put_u32_end [simp, codec_simps]: "get_u32 (put_u32 w) = Some (w, [])"
  using get_put_u32[of w "[]"] by simp

lemma get_put_u64_end [simp, codec_simps]: "get_u64 (put_u64 w) = Some (w, [])"
  using get_put_u64[of w "[]"] by simp

lemma get_le_length:
  "get_le n bs = Some (w, rest) \<Longrightarrow> length bs = n + length rest"
  by (auto simp: get_le_def split: if_splits)

subsection \<open>Reading a counted array\<close>

fun dec_n :: "nat \<Rightarrow> (u8 list \<Rightarrow> ('a \<times> u8 list) option) \<Rightarrow> u8 list
    \<Rightarrow> ('a list \<times> u8 list) option" where
  "dec_n 0 d bs = Some ([], bs)"
| "dec_n (Suc n) d bs = do {
     (x, bs) \<leftarrow> d bs;
     (xs, bs) \<leftarrow> dec_n n d bs;
     Some (x # xs, bs)
   }"

lemma dec_n_map:
  assumes "\<And>x rest. x \<in> set xs \<Longrightarrow> d (e x @ rest) = Some (x, rest)"
  shows "dec_n (length xs) d (concat (map e xs) @ rest) = Some (xs, rest)"
  using assms by (induction xs) simp_all

lemma unat_of_nat_len32: "n < 2 ^ 32 \<Longrightarrow> unat (of_nat n :: u32) = n"
  by (simp add: unat_of_nat take_bit_nat_eq_self)

subsection \<open>Blocks of memory\<close>

text \<open>
  \<open>blit dst d src s n\<close> is the destination after \<^verbatim>\<open>memcpy(dst + d, src + s, n)\<close>, and of
  \<^verbatim>\<open>memmove\<close> when both are the same block; \<open>fill dst d n v\<close> is \<^verbatim>\<open>memset\<close>.  An access outside
  one of the two blocks is \<^term>\<open>None\<close>.
\<close>

definition blit :: "'a list \<Rightarrow> nat \<Rightarrow> 'a list \<Rightarrow> nat \<Rightarrow> nat \<Rightarrow> 'a list option" where
  "blit dst d src s n =
     (if s + n \<le> length src \<and> d + n \<le> length dst
      then Some (take d dst @ take n (drop s src) @ drop (d + n) dst) else None)"

definition fill :: "'a list \<Rightarrow> nat \<Rightarrow> nat \<Rightarrow> 'a \<Rightarrow> 'a list option" where
  "fill dst d n v = blit dst d (replicate n v) 0 n"

definition peek :: "'a list \<Rightarrow> nat \<Rightarrow> 'a option" where
  "peek xs i = (if i < length xs then Some (xs ! i) else None)"

lemma peek_less [simp]: "i < length xs \<Longrightarrow> peek xs i = Some (xs ! i)"
  by (simp add: peek_def)

lemma blit_total:
  "s + n \<le> length src \<Longrightarrow> d + n \<le> length dst
    \<Longrightarrow> \<exists>r. blit dst d src s n = Some r \<and> length r = length dst
      \<and> (\<forall>i < length dst. r ! i = (if d \<le> i \<and> i < d + n then src ! (s + (i - d)) else dst ! i))"
  by (auto simp: blit_def nth_append min_absorb2 le_diff_conv2 less_diff_conv2 not_less add.commute)

lemma fill_total:
  "d + n \<le> length dst
    \<Longrightarrow> \<exists>r. fill dst d n v = Some r \<and> length r = length dst
      \<and> (\<forall>i < length dst. r ! i = (if d \<le> i \<and> i < d + n then v else dst ! i))"
  using blit_total[of 0 n "replicate n v" d dst] by (auto simp: fill_def)

lemma set_blit:
  assumes "blit dst d src s n = Some r"
  shows "set r \<subseteq> set dst \<union> set src"
proof -
  have "r = take d dst @ take n (drop s src) @ drop (d + n) dst"
    using assms by (simp add: blit_def split: if_splits)
  then show ?thesis
    using set_take_subset[of d dst] set_drop_subset[of "d + n" dst]
      set_take_subset[of n "drop s src"] set_drop_subset[of s src] by auto
qed

lemma set_fill: "fill dst d n v = Some r \<Longrightarrow> set r \<subseteq> insert v (set dst)"
  using set_blit[of dst d "replicate n v" 0 n r] by (auto simp: fill_def split: if_splits)

subsection \<open>Walking a range of iterators\<close>

text \<open>
  The two loops every algorithm over a \<^verbatim>\<open>[first, last)\<close> range of iterators is: search for the
  first element that satisfies a predicate, and apply a callback to each element (the model
  returns the arguments of the calls, in order).  Each may run forever on a bad range, so they
  are partial functions: \<^term>\<open>None\<close> is an abort, an access out of bounds, or not returning.
\<close>

partial_function (option) find_loop ::
  "('it \<Rightarrow> 'it option) \<Rightarrow> ('it \<Rightarrow> 'e option) \<Rightarrow> ('e \<Rightarrow> bool) \<Rightarrow> 'it \<Rightarrow> 'it \<Rightarrow> 'it option" where
  "find_loop nxt rd f it fin =
     (if it = fin then Some it
      else Option.bind (rd it) (\<lambda>e.
        if f e then Some it
        else Option.bind (nxt it) (\<lambda>it'. find_loop nxt rd f it' fin)))"

partial_function (option) visit_loop ::
  "('it \<Rightarrow> 'it option) \<Rightarrow> ('it \<Rightarrow> 'e option) \<Rightarrow> 'it \<Rightarrow> 'it \<Rightarrow> 'e list option" where
  "visit_loop nxt rd it fin =
     (if it = fin then Some []
      else Option.bind (rd it) (\<lambda>e.
        Option.bind (nxt it) (\<lambda>it'.
          Option.bind (visit_loop nxt rd it' fin) (\<lambda>es. Some (e # es)))))"

text \<open>
  The counted loop \<^verbatim>\<open>for(i < n){ elm = f(it); it = next(it); }\<close>: the results of the calls, and
  the iterator where it stops.
\<close>

fun pop_loop :: "('it \<Rightarrow> 'it option) \<Rightarrow> ('it \<Rightarrow> 'e option) \<Rightarrow> ('e \<Rightarrow> 'b) \<Rightarrow> nat \<Rightarrow> 'it
    \<Rightarrow> ('b list \<times> 'it) option" where
  "pop_loop nxt rd f 0 it = Some ([], it)"
| "pop_loop nxt rd f (Suc n) it = do {
     e \<leftarrow> rd it;
     it \<leftarrow> nxt it;
     (es, it) \<leftarrow> pop_loop nxt rd f n it;
     Some (f e # es, it)
   }"

subsection \<open>Request identifiers travel through 16 bits\<close>

lemma ucast16_id:
  fixes r :: u32
  assumes "r < 65536"
  shows "ucast (ucast r :: u16) = r"
proof -
  have "ucast (ucast r :: u16) = take_bit 16 r"
    by (rule bit_word_eqI) (auto simp: bit_simps)
  moreover have "unat (take_bit 16 r) = unat r"
    using assms by (simp add: unsigned_take_bit_eq take_bit_nat_eq_self word_less_nat_alt)
  ultimately show ?thesis by (simp add: word_unat_eq_iff)
qed
lemma ucast16_pos:
  fixes r :: u32
  assumes "0 < r" "r < 65536"
  shows "0 < (ucast r :: u16)"
  using assms ucast16_id[of r] by (metis unsigned_0 word_gt_0 word_neq_0_conv)

subsection \<open>The iterator that starts a range, or its end\<close>

definition first_or :: "'a \<Rightarrow> 'a list \<Rightarrow> 'a" where
  "first_or d as = (case as of [] \<Rightarrow> d | a # _ \<Rightarrow> a)"

lemma first_simps [simp]: "first_or d [] = d" "first_or d (a # as) = a"
  by (simp_all add: first_or_def)

lemma first_append: "as \<noteq> [] \<Longrightarrow> first_or d (as @ bs) = first_or d as"
  by (cases as) auto

end
