(* ===== verification/Tc_Types.thy ===== *)
theory Tc_Types
  imports Prelude
begin

text \<open>
  The data of the traffic-control service model,
  \<^verbatim>\<open>src/src/flexric/src/sm/tc_sm/ie/tc_data_ie.h\<close>: structs are records, a struct holding an
  enum tag and a union is a datatype with one constructor per tag the code handles, a pair of a
  length and a pointer is a list.  A \<^verbatim>\<open>float\<close> is only ever copied, so it is its 32-bit
  image; signed fields are words read as two's complement.  Where the code copies a whole struct
  with \<^verbatim>\<open>memcpy\<close> the padding of the x86-64 layout is a field of the record.
\<close>

subsection \<open>Filters and classifiers\<close>

record L3_filter_t =
  src_addr :: u64
  dst_addr :: u64

record L4_filter_t =
  src_port :: u32
  dst_port :: u32
  protocol :: u32

record L7_filter_t =
  l7_dummy :: u32

record tc_cls_osi_filter_t =
  flt_id :: u32
  flt_pad0 :: u32
  flt_l3 :: L3_filter_t
  flt_l4 :: L4_filter_t
  flt_l7 :: L7_filter_t
  flt_dst_queue :: u32
  flt_pad1 :: u32

record tc_cls_rr_t = cls_rr_dummy :: u32
record tc_cls_osi_t = osi_flt :: "tc_cls_osi_filter_t list"
record tc_cls_sto_t = cls_sto_dummy :: u32

datatype tc_cls_t =
    TC_CLS_RR tc_cls_rr_t
  | TC_CLS_OSI tc_cls_osi_t
  | TC_CLS_STO tc_cls_sto_t

subsection \<open>Meters, policers, shapers, queues, schedulers and pacers\<close>

record tc_mtr_t =
  time_window_ms :: u32
  bnd_flt :: u32

record tc_drp_t = dropped_pkts :: u32
record tc_mrk_t = marked_pkts :: u32

record tc_plc_t =
  plc_id :: u32
  plc_mtr :: tc_mtr_t
  plc_drp :: tc_drp_t
  plc_mrk :: tc_mrk_t
  plc_max_rate_kbps :: u32
  plc_active :: u32
  plc_dst_id :: u32
  plc_dev_id :: u32

record tc_queue_fifo_t =
  fifo_bytes :: u32
  fifo_pkts :: u32
  fifo_bytes_fwd :: u32
  fifo_pkts_fwd :: u32
  fifo_drp :: tc_drp_t
  fifo_avg_sojourn_time :: u32
  fifo_last_sojourn_time :: u64

record tc_queue_codel_t =
  codel_bytes :: u32
  codel_pkts :: u32
  codel_bytes_fwd :: u32
  codel_pkts_fwd :: u32
  codel_drp :: tc_drp_t
  codel_avg_sojourn_time :: u32
  codel_last_sojourn_time :: u64

record tc_queue_ecn_codel_t =
  ecn_bytes :: u32
  ecn_pkts :: u32
  ecn_bytes_fwd :: u32
  ecn_pkts_fwd :: u32
  ecn_mrk :: tc_mrk_t
  ecn_avg_sojourn_time :: u32
  ecn_last_sojourn_time :: u64

datatype tc_queue_u =
    TC_QUEUE_FIFO tc_queue_fifo_t
  | TC_QUEUE_CODEL tc_queue_codel_t
  | TC_QUEUE_ECN_CODEL tc_queue_ecn_codel_t

record tc_queue_t =
  q_id :: u32
  q_type :: tc_queue_u

record tc_sch_rr_t = sch_rr_dummy :: u32
record tc_sch_prio_t = q_prio :: "u32 list"

datatype tc_sch_t =
    TC_SCHED_RR tc_sch_rr_t
  | TC_SCHED_PRIO tc_sch_prio_t

record tc_shp_t =
  shp_id :: u32
  shp_active :: u32
  shp_max_rate_kbps :: u32
  shp_mtr :: tc_mtr_t

record tc_pcr_t =
  pcr_type :: u32
  pcr_id :: u32
  pcr_mtr :: tc_mtr_t

subsection \<open>The indication message\<close>

record tc_ind_msg_t =
  ind_sch :: tc_sch_t
  ind_pcr :: tc_pcr_t
  ind_cls :: tc_cls_t
  len_q :: u32
  ind_shp :: "tc_shp_t list"
  ind_plc :: "tc_plc_t list"
  ind_q :: "tc_queue_t list"
  ind_tstamp :: u64

record tc_event_trigger_t = et_ms :: u32
record tc_ind_hdr_t = ind_hdr_dummy :: u32
record tc_ctrl_hdr_t = ctrl_hdr_dummy :: u32

subsection \<open>The control message\<close>

record tc_add_cls_rr_t = add_cls_rr_dummy :: u32
record tc_add_cls_sto_t = add_cls_sto_dummy :: u32

record tc_add_cls_osi_t =
  add_l3 :: L3_filter_t
  add_l4 :: L4_filter_t
  add_l7 :: L7_filter_t
  add_dst_queue :: u32

datatype tc_add_ctrl_cls_t =
    Add_CLS_RR tc_add_cls_rr_t
  | Add_CLS_STO tc_add_cls_sto_t
  | Add_CLS_OSI tc_add_cls_osi_t

record tc_mod_cls_rr_t = mod_cls_rr_dummy :: u32
record tc_mod_cls_sto_t = mod_cls_sto_dummy :: u32
record tc_mod_cls_osi_t = mod_filter :: tc_cls_osi_filter_t

datatype tc_mod_ctrl_cls_t =
    Mod_CLS_RR tc_mod_cls_rr_t
  | Mod_CLS_STO tc_mod_cls_sto_t
  | Mod_CLS_OSI tc_mod_cls_osi_t

record tc_del_cls_rr_t = del_cls_rr_dummy :: u32
record tc_del_cls_sto_t = del_cls_sto_dummy :: u32
record tc_del_cls_osi_t = filter_id :: u32

datatype tc_del_ctrl_cls_t =
    Del_CLS_RR tc_del_cls_rr_t
  | Del_CLS_STO tc_del_cls_sto_t
  | Del_CLS_OSI tc_del_cls_osi_t

datatype tc_ctrl_cls_t =
    Cls_ADD tc_add_ctrl_cls_t
  | Cls_MOD tc_mod_ctrl_cls_t
  | Cls_DEL tc_del_ctrl_cls_t

record tc_add_ctrl_plc_t = add_plc_dummy :: u32

record tc_mod_ctrl_plc_t =
  mod_plc_id :: u32
  drop_rate_kbps :: u32
  dev_id :: u32
  dev_rate_kbps :: u32
  mod_plc_active :: u32

record tc_del_ctrl_plc_t = del_plc_id :: u32

datatype tc_ctrl_plc_t =
    Plc_ADD tc_add_ctrl_plc_t
  | Plc_MOD tc_mod_ctrl_plc_t
  | Plc_DEL tc_del_ctrl_plc_t

record tc_ctrl_queue_fifo_t = ctrl_fifo_dummy :: u32

record tc_ctrl_queue_codel_t =
  codel_target_ms :: u32
  codel_interval_ms :: u32

record tc_ctrl_queue_ecn_codel_t =
  ecn_target_ms :: u32
  ecn_interval_ms :: u32

datatype tc_ctrl_queue_u =
    Ctrl_QUEUE_FIFO tc_ctrl_queue_fifo_t
  | Ctrl_QUEUE_CODEL tc_ctrl_queue_codel_t
  | Ctrl_QUEUE_ECN_CODEL tc_ctrl_queue_ecn_codel_t

record tc_add_ctrl_queue_t = add_q_type :: tc_ctrl_queue_u

record tc_mod_ctrl_queue_t =
  mod_q_id :: u32
  mod_q_type :: tc_ctrl_queue_u

record tc_del_ctrl_queue_t =
  del_q_id :: u32
  del_q_type :: u32

datatype tc_ctrl_queue_t =
    Q_ADD tc_add_ctrl_queue_t
  | Q_MOD tc_mod_ctrl_queue_t
  | Q_DEL tc_del_ctrl_queue_t

record tc_add_ctrl_sch_t = add_sch_dummy :: u32

datatype tc_mod_ctrl_sch_t =
    Mod_SCHED_RR tc_sch_rr_t
  | Mod_SCHED_PRIO tc_sch_prio_t

record tc_del_ctrl_sch_t = del_sch_dummy :: u32

datatype tc_ctrl_sch_t =
    Sch_ADD tc_add_ctrl_sch_t
  | Sch_MOD tc_mod_ctrl_sch_t
  | Sch_DEL tc_del_ctrl_sch_t

record tc_add_ctrl_shp_t = add_shp_dummy :: u32

record tc_mod_ctrl_shp_t =
  mod_shp_id :: u32
  mod_shp_time_window_ms :: u32
  mod_shp_max_rate_kbps :: u32
  mod_shp_active :: u32

record tc_del_ctrl_shp_t = del_shp_id :: u32

datatype tc_ctrl_shp_t =
    Shp_ADD tc_add_ctrl_shp_t
  | Shp_MOD tc_mod_ctrl_shp_t
  | Shp_DEL tc_del_ctrl_shp_t

record tc_pcr_5g_bdp_t =
  drb_sz :: u32
  bdp_tstamp :: u64

record tc_pcr_dummy_t = pcr_dummy :: u32
record tc_add_ctrl_pcr_t = add_pcr_dummy :: u32

datatype tc_mod_ctrl_pcr_t =
    Mod_PCR_DUMMY tc_pcr_dummy_t
  | Mod_PCR_5G_BDP tc_pcr_5g_bdp_t

record tc_del_ctrl_pcr_t = del_pcr_dummy :: u32

datatype tc_ctrl_pcr_t =
    Pcr_ADD tc_add_ctrl_pcr_t
  | Pcr_MOD tc_mod_ctrl_pcr_t
  | Pcr_DEL tc_del_ctrl_pcr_t

datatype tc_ctrl_msg_t =
    TC_CTRL_SM_V0_CLS tc_ctrl_cls_t
  | TC_CTRL_SM_V0_PLC tc_ctrl_plc_t
  | TC_CTRL_SM_V0_QUEUE tc_ctrl_queue_t
  | TC_CTRL_SM_V0_SCH tc_ctrl_sch_t
  | TC_CTRL_SM_V0_SHP tc_ctrl_shp_t
  | TC_CTRL_SM_V0_PCR tc_ctrl_pcr_t

record tc_ctrl_out_t = ctrl_out :: u32

subsection \<open>Well-formed values\<close>

text \<open>
  The lengths of the arrays are \<^verbatim>\<open>uint32_t\<close>, and the three arrays of an indication have
  \<^verbatim>\<open>len_q\<close> elements each.
\<close>

definition wf_sch_prio :: "tc_sch_prio_t \<Rightarrow> bool" where
  "wf_sch_prio p \<longleftrightarrow> length (q_prio p) < 2 ^ 32"

fun wf_sch :: "tc_sch_t \<Rightarrow> bool" where
  "wf_sch (TC_SCHED_RR _) = True"
| "wf_sch (TC_SCHED_PRIO p) = wf_sch_prio p"

fun wf_cls :: "tc_cls_t \<Rightarrow> bool" where
  "wf_cls (TC_CLS_OSI osi) = (length (osi_flt osi) < 2 ^ 32)"
| "wf_cls _ = True"

definition wf_ind_msg :: "tc_ind_msg_t \<Rightarrow> bool" where
  "wf_ind_msg m \<longleftrightarrow> wf_sch (ind_sch m) \<and> wf_cls (ind_cls m)
     \<and> length (ind_shp m) = unat (len_q m) \<and> length (ind_plc m) = unat (len_q m)
     \<and> length (ind_q m) = unat (len_q m)"

fun wf_ctrl_msg :: "tc_ctrl_msg_t \<Rightarrow> bool" where
  "wf_ctrl_msg (TC_CTRL_SM_V0_SCH (Sch_MOD (Mod_SCHED_PRIO p))) = wf_sch_prio p"
| "wf_ctrl_msg _ = True"

end
