(* ===== verification/Tc_Enc.thy ===== *)
theory Tc_Enc
  imports Tc_Types
begin

text \<open>
  The plain encoder of the traffic-control service model,
  \<^verbatim>\<open>src/src/flexric/src/sm/tc_sm/enc/tc_enc_plain.c\<close>.  A C encoder writes at \<^verbatim>\<open>it\<close> and
  returns how many bytes it wrote; its model is the list of those bytes, whose length is the
  returned size.  The \<^verbatim>\<open>cal_*_payload\<close> functions compute, before anything is written, the
  size of the buffer that the two top-level encoders allocate; the top-level encoders abort
  when the bytes written do not fill that buffer exactly.
\<close>

subsection \<open>Structs copied as they are laid out in memory\<close>

definition L3_image :: "L3_filter_t \<Rightarrow> u8 list" where
  "L3_image l = put_u64 (src_addr l) @ put_u64 (dst_addr l)"

definition L4_image :: "L4_filter_t \<Rightarrow> u8 list" where
  "L4_image l = put_u32 (src_port l) @ put_u32 (dst_port l) @ put_u32 (protocol l)"

definition filter_image :: "tc_cls_osi_filter_t \<Rightarrow> u8 list" where
  "filter_image f = put_u32 (flt_id f) @ put_u32 (flt_pad0 f) @ L3_image (flt_l3 f)
     @ L4_image (flt_l4 f) @ put_u32 (l7_dummy (flt_l7 f))
     @ put_u32 (flt_dst_queue f) @ put_u32 (flt_pad1 f)"

definition sizeof_filter :: nat where "sizeof_filter = 48"

subsection \<open>Sizes of the indication message\<close>

fun cal_sch_payload :: "tc_sch_t \<Rightarrow> nat" where
  "cal_sch_payload (TC_SCHED_RR _) = 4"
| "cal_sch_payload (TC_SCHED_PRIO p) = 4 + 4 + 4 * length (q_prio p)"

definition cal_mtr_payload :: "tc_mtr_t \<Rightarrow> nat" where
  "cal_mtr_payload m = 4 + 4"

definition cal_pcr_payload :: "tc_pcr_t \<Rightarrow> nat" where
  "cal_pcr_payload pcr = 4 + 4 + cal_mtr_payload (pcr_mtr pcr)"

definition cal_cls_rr_payload :: "tc_cls_rr_t \<Rightarrow> nat" where
  "cal_cls_rr_payload rr = 4"

definition cal_cls_osi_payload :: "tc_cls_osi_t \<Rightarrow> nat" where
  "cal_cls_osi_payload osi = 4 + sizeof_filter * length (osi_flt osi)"

definition cal_cls_sto_payload :: "tc_cls_sto_t \<Rightarrow> nat" where
  "cal_cls_sto_payload sto = 4"

fun cal_cls_payload :: "tc_cls_t \<Rightarrow> nat" where
  "cal_cls_payload (TC_CLS_RR rr) = 4 + cal_cls_rr_payload rr"
| "cal_cls_payload (TC_CLS_OSI osi) = 4 + cal_cls_osi_payload osi"
| "cal_cls_payload (TC_CLS_STO sto) = 4 + cal_cls_sto_payload sto"

definition cal_drp_payload :: "tc_drp_t \<Rightarrow> nat" where
  "cal_drp_payload drp = 4"

definition cal_mrk_payload :: "tc_mrk_t \<Rightarrow> nat" where
  "cal_mrk_payload mrk = 4"

fun cal_q_type_payload :: "tc_queue_u \<Rightarrow> nat" where
  "cal_q_type_payload (TC_QUEUE_FIFO x) = 4 + 4 + 4 + 4 + cal_drp_payload (fifo_drp x) + 4 + 8"
| "cal_q_type_payload (TC_QUEUE_CODEL x) = 4 + 4 + 4 + 4 + cal_drp_payload (codel_drp x) + 4 + 8"
| "cal_q_type_payload (TC_QUEUE_ECN_CODEL x) =
     4 + 4 + 4 + 4 + cal_mrk_payload (ecn_mrk x) + 4 + 8"

definition cal_q_payload :: "tc_queue_t \<Rightarrow> nat" where
  "cal_q_payload x = 4 + cal_q_type_payload (q_type x)"

definition cal_shp_payload :: "tc_shp_t \<Rightarrow> nat" where
  "cal_shp_payload shp = 4 + 4 + 4 + cal_mtr_payload (shp_mtr shp)"

definition cal_plc_payload :: "tc_plc_t \<Rightarrow> nat" where
  "cal_plc_payload plc = 4 + cal_mtr_payload (plc_mtr plc) + cal_drp_payload (plc_drp plc)
     + cal_mrk_payload (plc_mrk plc) + 4 + 4 + 4 + 4"

text \<open>
  The loop over \<^verbatim>\<open>i < len_q\<close>; an index past the end of one of the three arrays is a read
  outside the allocation.
\<close>

fun cal_queues_payload :: "nat \<Rightarrow> tc_shp_t list \<Rightarrow> tc_plc_t list \<Rightarrow> tc_queue_t list \<Rightarrow> nat option" where
  "cal_queues_payload 0 shp plc qs = Some 0"
| "cal_queues_payload (Suc n) (s # shp) (p # plc) (x # qs) =
     do {
       sz \<leftarrow> cal_queues_payload n shp plc qs;
       Some (cal_q_payload x + cal_shp_payload s + cal_plc_payload p + sz)
     }"
| "cal_queues_payload (Suc n) _ _ _ = None"

definition cal_ind_msg_payload :: "tc_ind_msg_t \<Rightarrow> nat option" where
  "cal_ind_msg_payload m = do {
     sz_q_shp_plc \<leftarrow> cal_queues_payload (unat (len_q m)) (ind_shp m) (ind_plc m) (ind_q m);
     Some (cal_sch_payload (ind_sch m) + cal_pcr_payload (ind_pcr m)
       + cal_cls_payload (ind_cls m) + 4 + sz_q_shp_plc + 8)
   }"

subsection \<open>Writing the indication message\<close>

definition tc_enc_sch_rr :: "tc_sch_rr_t \<Rightarrow> u8 list" where
  "tc_enc_sch_rr rr = []"

definition tc_enc_sch_prio :: "tc_sch_prio_t \<Rightarrow> u8 list" where
  "tc_enc_sch_prio p = put_u32 (of_nat (length (q_prio p))) @ concat (map put_u32 (q_prio p))"

fun tc_enc_sch :: "tc_sch_t \<Rightarrow> u8 list" where
  "tc_enc_sch (TC_SCHED_RR rr) = put_u32 0 @ tc_enc_sch_rr rr"
| "tc_enc_sch (TC_SCHED_PRIO p) = put_u32 1 @ tc_enc_sch_prio p"

definition tc_enc_mtr :: "tc_mtr_t \<Rightarrow> u8 list" where
  "tc_enc_mtr mtr = put_u32 (bnd_flt mtr) @ put_u32 (time_window_ms mtr)"

definition tc_enc_pcr :: "tc_pcr_t \<Rightarrow> u8 list" where
  "tc_enc_pcr pcr = put_u32 (pcr_type pcr) @ put_u32 (pcr_id pcr) @ tc_enc_mtr (pcr_mtr pcr)"

definition tc_enc_cls_rr :: "tc_cls_rr_t \<Rightarrow> u8 list" where
  "tc_enc_cls_rr rr = put_u32 (cls_rr_dummy rr)"

definition tc_enc_cls_osi :: "tc_cls_osi_t \<Rightarrow> u8 list" where
  "tc_enc_cls_osi osi =
     put_u32 (of_nat (length (osi_flt osi))) @ concat (map filter_image (osi_flt osi))"

definition tc_enc_cls_sto :: "tc_cls_sto_t \<Rightarrow> u8 list" where
  "tc_enc_cls_sto sto = put_u32 (cls_sto_dummy sto)"

fun tc_enc_cls :: "tc_cls_t \<Rightarrow> u8 list" where
  "tc_enc_cls (TC_CLS_RR rr) = put_u32 0 @ tc_enc_cls_rr rr"
| "tc_enc_cls (TC_CLS_OSI osi) = put_u32 1 @ tc_enc_cls_osi osi"
| "tc_enc_cls (TC_CLS_STO sto) = put_u32 2 @ tc_enc_cls_sto sto"

definition tc_enc_shp :: "tc_shp_t \<Rightarrow> u8 list" where
  "tc_enc_shp shp = put_u32 (shp_id shp) @ put_u32 (shp_active shp)
     @ put_u32 (shp_max_rate_kbps shp) @ tc_enc_mtr (shp_mtr shp)"

definition tc_enc_drp :: "tc_drp_t \<Rightarrow> u8 list" where
  "tc_enc_drp drp = put_u32 (dropped_pkts drp)"

definition tc_enc_mrk :: "tc_mrk_t \<Rightarrow> u8 list" where
  "tc_enc_mrk mrk = put_u32 (marked_pkts mrk)"

definition tc_enc_plc :: "tc_plc_t \<Rightarrow> u8 list" where
  "tc_enc_plc plc = put_u32 (plc_id plc) @ tc_enc_mtr (plc_mtr plc)
     @ tc_enc_drp (plc_drp plc) @ tc_enc_mrk (plc_mrk plc) @ put_u32 (plc_max_rate_kbps plc)
     @ put_u32 (plc_active plc) @ put_u32 (plc_dst_id plc) @ put_u32 (plc_dev_id plc)"

definition tc_enc_q_fifo :: "tc_queue_fifo_t \<Rightarrow> u8 list" where
  "tc_enc_q_fifo x = put_u32 (fifo_bytes x) @ put_u32 (fifo_pkts x)
     @ put_u32 (fifo_bytes_fwd x) @ put_u32 (fifo_pkts_fwd x) @ tc_enc_drp (fifo_drp x)
     @ put_u32 (fifo_avg_sojourn_time x) @ put_u64 (fifo_last_sojourn_time x)"

definition tc_enc_q_codel :: "tc_queue_codel_t \<Rightarrow> u8 list" where
  "tc_enc_q_codel x = put_u32 (codel_bytes x) @ put_u32 (codel_pkts x)
     @ put_u32 (codel_bytes_fwd x) @ put_u32 (codel_pkts_fwd x) @ tc_enc_drp (codel_drp x)
     @ put_u32 (codel_avg_sojourn_time x) @ put_u64 (codel_last_sojourn_time x)"

definition tc_enc_q_ecn_codel :: "tc_queue_ecn_codel_t \<Rightarrow> u8 list" where
  "tc_enc_q_ecn_codel x = put_u32 (ecn_bytes x) @ put_u32 (ecn_pkts x)
     @ put_u32 (ecn_bytes_fwd x) @ put_u32 (ecn_pkts_fwd x) @ tc_enc_mrk (ecn_mrk x)
     @ put_u32 (ecn_avg_sojourn_time x) @ put_u64 (ecn_last_sojourn_time x)"

text \<open>The queue identifier is not written: the encoder starts with the type tag.\<close>

definition tc_enc_q :: "tc_queue_t \<Rightarrow> u8 list" where
  "tc_enc_q x = (case q_type x of
       TC_QUEUE_FIFO f \<Rightarrow> put_u32 0 @ tc_enc_q_fifo f
     | TC_QUEUE_CODEL c \<Rightarrow> put_u32 1 @ tc_enc_q_codel c
     | TC_QUEUE_ECN_CODEL e \<Rightarrow> put_u32 2 @ tc_enc_q_ecn_codel e)"

text \<open>
  \<open>enc_queues n pos sz\<close> is the loop with \<open>n\<close> iterations left, \<open>pos\<close> bytes already written in
  a buffer of \<open>sz\<close>; after each of the three writes the code asserts that the write position
  is still inside the buffer.
\<close>

fun enc_queues :: "nat \<Rightarrow> nat \<Rightarrow> nat \<Rightarrow> tc_shp_t list \<Rightarrow> tc_plc_t list \<Rightarrow> tc_queue_t list
    \<Rightarrow> u8 list option" where
  "enc_queues 0 pos sz shp plc qs = Some []"
| "enc_queues (Suc n) pos sz (s # shp) (p # plc) (x # qs) =
     (let bs = tc_enc_shp s; bp = tc_enc_plc p; bq = tc_enc_q x in
      do {
        assert_c (pos + length bs < sz);
        assert_c (pos + length bs + length bp < sz);
        assert_c (pos + length bs + length bp + length bq < sz);
        rest \<leftarrow> enc_queues n (pos + length bs + length bp + length bq) sz shp plc qs;
        Some (bs @ bp @ bq @ rest)
      })"
| "enc_queues (Suc n) pos sz _ _ _ = None"

definition tc_enc_ind_msg_plain :: "tc_ind_msg_t \<Rightarrow> u8 list option" where
  "tc_enc_ind_msg_plain m = do {
     sz \<leftarrow> cal_ind_msg_payload m;
     let b_sch = tc_enc_sch (ind_sch m);
     assert_c (length b_sch < sz);
     let b_pcr = tc_enc_pcr (ind_pcr m);
     assert_c (length b_sch + length b_pcr < sz);
     let b_cls = tc_enc_cls (ind_cls m);
     assert_c (length b_sch + length b_pcr + length b_cls < sz);
     let b_len = put_u32 (len_q m);
     let pos = length b_sch + length b_pcr + length b_cls + length b_len;
     assert_c (pos < sz);
     b_q \<leftarrow> enc_queues (unat (len_q m)) pos sz (ind_shp m) (ind_plc m) (ind_q m);
     let b_ts = put_u64 (ind_tstamp m);
     assert_c (pos + length b_q + length b_ts = sz);
     Some (b_sch @ b_pcr @ b_cls @ b_len @ b_q @ b_ts)
   }"

definition tc_enc_event_trigger_plain :: "tc_event_trigger_t \<Rightarrow> u8 list" where
  "tc_enc_event_trigger_plain et = put_u32 (et_ms et)"

definition tc_enc_ind_hdr_plain :: "tc_ind_hdr_t \<Rightarrow> u8 list" where
  "tc_enc_ind_hdr_plain h = put_u32 (ind_hdr_dummy h)"

text \<open>
  The control header is written with the size of the indication header; both structs are one
  \<^verbatim>\<open>uint32_t\<close>.
\<close>

definition tc_enc_ctrl_hdr_plain :: "tc_ctrl_hdr_t \<Rightarrow> u8 list" where
  "tc_enc_ctrl_hdr_plain h = put_u32 (ctrl_hdr_dummy h)"

end
