(* ===== verification/Tc_Dec.thy ===== *)
theory Tc_Dec
  imports Tc_Enc
begin

text \<open>
  The plain decoder of the traffic-control service model,
  \<^verbatim>\<open>src/src/flexric/src/sm/tc_sm/dec/tc_dec_plain.c\<close>, for the indication message, and its
  round trip with the encoder of \<^verbatim>\<open>Tc_Enc\<close>.  A C decoder reads at \<^verbatim>\<open>it\<close> without looking at
  the length and returns how far it moved; its model takes the bytes from \<^verbatim>\<open>it\<close> to the end of
  the message and returns the value read with the bytes left.  A read past the end, undefined
  in C, is \<^term>\<open>None\<close>, as are an unknown tag and a failed assertion.
\<close>

definition get_L3 :: "u8 list \<Rightarrow> (L3_filter_t \<times> u8 list) option" where
  "get_L3 bs = do {
     (s, bs) \<leftarrow> get_u64 bs;
     (d, bs) \<leftarrow> get_u64 bs;
     Some (\<lparr>src_addr = s, dst_addr = d\<rparr>, bs)
   }"

definition get_L4 :: "u8 list \<Rightarrow> (L4_filter_t \<times> u8 list) option" where
  "get_L4 bs = do {
     (s, bs) \<leftarrow> get_u32 bs;
     (d, bs) \<leftarrow> get_u32 bs;
     (p, bs) \<leftarrow> get_u32 bs;
     Some (\<lparr>src_port = s, dst_port = d, protocol = p\<rparr>, bs)
   }"

definition get_filter :: "u8 list \<Rightarrow> (tc_cls_osi_filter_t \<times> u8 list) option" where
  "get_filter bs = do {
     (i, bs) \<leftarrow> get_u32 bs;
     (p0, bs) \<leftarrow> get_u32 bs;
     (l3, bs) \<leftarrow> get_L3 bs;
     (l4, bs) \<leftarrow> get_L4 bs;
     (l7, bs) \<leftarrow> get_u32 bs;
     (dq, bs) \<leftarrow> get_u32 bs;
     (p1, bs) \<leftarrow> get_u32 bs;
     Some (\<lparr>flt_id = i, flt_pad0 = p0, flt_l3 = l3, flt_l4 = l4, flt_l7 = \<lparr>l7_dummy = l7\<rparr>,
            flt_dst_queue = dq, flt_pad1 = p1\<rparr>, bs)
   }"

definition tc_dec_sch_rr :: "u8 list \<Rightarrow> (tc_sch_rr_t \<times> u8 list) option" where
  "tc_dec_sch_rr bs = Some (\<lparr>sch_rr_dummy = 0\<rparr>, bs)"

definition tc_dec_sch_prio :: "u8 list \<Rightarrow> (tc_sch_prio_t \<times> u8 list) option" where
  "tc_dec_sch_prio bs = do {
     (n, bs) \<leftarrow> get_u32 bs;
     (xs, bs) \<leftarrow> dec_n (unat n) get_u32 bs;
     Some (\<lparr>q_prio = xs\<rparr>, bs)
   }"

definition tc_dec_sch :: "u8 list \<Rightarrow> (tc_sch_t \<times> u8 list) option" where
  "tc_dec_sch bs = do {
     (t, bs) \<leftarrow> get_u32 bs;
     if t = 0 then do { (rr, bs) \<leftarrow> tc_dec_sch_rr bs; Some (TC_SCHED_RR rr, bs) }
     else if t = 1 then do { (p, bs) \<leftarrow> tc_dec_sch_prio bs; Some (TC_SCHED_PRIO p, bs) }
     else None
   }"

definition tc_dec_mtr :: "u8 list \<Rightarrow> (tc_mtr_t \<times> u8 list) option" where
  "tc_dec_mtr bs = do {
     (b, bs) \<leftarrow> get_u32 bs;
     (w, bs) \<leftarrow> get_u32 bs;
     Some (\<lparr>time_window_ms = w, bnd_flt = b\<rparr>, bs)
   }"

definition tc_dec_pcr :: "u8 list \<Rightarrow> (tc_pcr_t \<times> u8 list) option" where
  "tc_dec_pcr bs = do {
     (t, bs) \<leftarrow> get_u32 bs;
     (i, bs) \<leftarrow> get_u32 bs;
     (m, bs) \<leftarrow> tc_dec_mtr bs;
     Some (\<lparr>pcr_type = t, pcr_id = i, pcr_mtr = m\<rparr>, bs)
   }"

definition tc_dec_cls_rr :: "u8 list \<Rightarrow> (tc_cls_rr_t \<times> u8 list) option" where
  "tc_dec_cls_rr bs = do { (d, bs) \<leftarrow> get_u32 bs; Some (\<lparr>cls_rr_dummy = d\<rparr>, bs) }"

definition tc_dec_cls_osi :: "u8 list \<Rightarrow> (tc_cls_osi_t \<times> u8 list) option" where
  "tc_dec_cls_osi bs = do {
     (n, bs) \<leftarrow> get_u32 bs;
     (fs, bs) \<leftarrow> dec_n (unat n) get_filter bs;
     Some (\<lparr>osi_flt = fs\<rparr>, bs)
   }"

definition tc_dec_cls_sto :: "u8 list \<Rightarrow> (tc_cls_sto_t \<times> u8 list) option" where
  "tc_dec_cls_sto bs = do { (d, bs) \<leftarrow> get_u32 bs; Some (\<lparr>cls_sto_dummy = d\<rparr>, bs) }"

definition tc_dec_cls :: "u8 list \<Rightarrow> (tc_cls_t \<times> u8 list) option" where
  "tc_dec_cls bs = do {
     (t, bs) \<leftarrow> get_u32 bs;
     if t = 0 then do { (x, bs) \<leftarrow> tc_dec_cls_rr bs; Some (TC_CLS_RR x, bs) }
     else if t = 1 then do { (x, bs) \<leftarrow> tc_dec_cls_osi bs; Some (TC_CLS_OSI x, bs) }
     else if t = 2 then do { (x, bs) \<leftarrow> tc_dec_cls_sto bs; Some (TC_CLS_STO x, bs) }
     else None
   }"

definition tc_dec_shp :: "u8 list \<Rightarrow> (tc_shp_t \<times> u8 list) option" where
  "tc_dec_shp bs = do {
     (i, bs) \<leftarrow> get_u32 bs;
     (a, bs) \<leftarrow> get_u32 bs;
     (r, bs) \<leftarrow> get_u32 bs;
     (m, bs) \<leftarrow> tc_dec_mtr bs;
     Some (\<lparr>shp_id = i, shp_active = a, shp_max_rate_kbps = r, shp_mtr = m\<rparr>, bs)
   }"

definition tc_dec_drp :: "u8 list \<Rightarrow> (tc_drp_t \<times> u8 list) option" where
  "tc_dec_drp bs = do { (d, bs) \<leftarrow> get_u32 bs; Some (\<lparr>dropped_pkts = d\<rparr>, bs) }"

definition tc_dec_mrk :: "u8 list \<Rightarrow> (tc_mrk_t \<times> u8 list) option" where
  "tc_dec_mrk bs = do { (d, bs) \<leftarrow> get_u32 bs; Some (\<lparr>marked_pkts = d\<rparr>, bs) }"

definition tc_dec_plc :: "u8 list \<Rightarrow> (tc_plc_t \<times> u8 list) option" where
  "tc_dec_plc bs = do {
     (i, bs) \<leftarrow> get_u32 bs;
     (m, bs) \<leftarrow> tc_dec_mtr bs;
     (d, bs) \<leftarrow> tc_dec_drp bs;
     (k, bs) \<leftarrow> tc_dec_mrk bs;
     (r, bs) \<leftarrow> get_u32 bs;
     (a, bs) \<leftarrow> get_u32 bs;
     (di, bs) \<leftarrow> get_u32 bs;
     (dv, bs) \<leftarrow> get_u32 bs;
     Some (\<lparr>plc_id = i, plc_mtr = m, plc_drp = d, plc_mrk = k, plc_max_rate_kbps = r,
            plc_active = a, plc_dst_id = di, plc_dev_id = dv\<rparr>, bs)
   }"

definition tc_dec_q_fifo :: "u8 list \<Rightarrow> (tc_queue_fifo_t \<times> u8 list) option" where
  "tc_dec_q_fifo bs = do {
     (b, bs) \<leftarrow> get_u32 bs;
     (p, bs) \<leftarrow> get_u32 bs;
     (bf, bs) \<leftarrow> get_u32 bs;
     (pf, bs) \<leftarrow> get_u32 bs;
     (d, bs) \<leftarrow> tc_dec_drp bs;
     (a, bs) \<leftarrow> get_u32 bs;
     (l, bs) \<leftarrow> get_u64 bs;
     Some (\<lparr>fifo_bytes = b, fifo_pkts = p, fifo_bytes_fwd = bf, fifo_pkts_fwd = pf,
            fifo_drp = d, fifo_avg_sojourn_time = a, fifo_last_sojourn_time = l\<rparr>, bs)
   }"

definition tc_dec_q_codel :: "u8 list \<Rightarrow> (tc_queue_codel_t \<times> u8 list) option" where
  "tc_dec_q_codel bs = do {
     (b, bs) \<leftarrow> get_u32 bs;
     (p, bs) \<leftarrow> get_u32 bs;
     (bf, bs) \<leftarrow> get_u32 bs;
     (pf, bs) \<leftarrow> get_u32 bs;
     (d, bs) \<leftarrow> tc_dec_drp bs;
     (a, bs) \<leftarrow> get_u32 bs;
     (l, bs) \<leftarrow> get_u64 bs;
     Some (\<lparr>codel_bytes = b, codel_pkts = p, codel_bytes_fwd = bf, codel_pkts_fwd = pf,
            codel_drp = d, codel_avg_sojourn_time = a, codel_last_sojourn_time = l\<rparr>, bs)
   }"

definition tc_dec_q_ecn_codel :: "u8 list \<Rightarrow> (tc_queue_ecn_codel_t \<times> u8 list) option" where
  "tc_dec_q_ecn_codel bs = do {
     (b, bs) \<leftarrow> get_u32 bs;
     (p, bs) \<leftarrow> get_u32 bs;
     (bf, bs) \<leftarrow> get_u32 bs;
     (pf, bs) \<leftarrow> get_u32 bs;
     (k, bs) \<leftarrow> tc_dec_mrk bs;
     (a, bs) \<leftarrow> get_u32 bs;
     (l, bs) \<leftarrow> get_u64 bs;
     Some (\<lparr>ecn_bytes = b, ecn_pkts = p, ecn_bytes_fwd = bf, ecn_pkts_fwd = pf,
            ecn_mrk = k, ecn_avg_sojourn_time = a, ecn_last_sojourn_time = l\<rparr>, bs)
   }"

text \<open>The array of queues comes from \<^verbatim>\<open>calloc\<close>: the identifier, never read, stays zero.\<close>

definition tc_dec_q :: "u8 list \<Rightarrow> (tc_queue_t \<times> u8 list) option" where
  "tc_dec_q bs = do {
     (t, bs) \<leftarrow> get_u32 bs;
     if t = 0 then do { (x, bs) \<leftarrow> tc_dec_q_fifo bs;
                        Some (\<lparr>q_id = 0, q_type = TC_QUEUE_FIFO x\<rparr>, bs) }
     else if t = 1 then do { (x, bs) \<leftarrow> tc_dec_q_codel bs;
                        Some (\<lparr>q_id = 0, q_type = TC_QUEUE_CODEL x\<rparr>, bs) }
     else if t = 2 then do { (x, bs) \<leftarrow> tc_dec_q_ecn_codel bs;
                        Some (\<lparr>q_id = 0, q_type = TC_QUEUE_ECN_CODEL x\<rparr>, bs) }
     else None
   }"

fun dec_queues :: "nat \<Rightarrow> u8 list
    \<Rightarrow> ((tc_shp_t list \<times> tc_plc_t list \<times> tc_queue_t list) \<times> u8 list) option" where
  "dec_queues 0 bs = Some (([], [], []), bs)"
| "dec_queues (Suc n) bs = do {
     (s, bs) \<leftarrow> tc_dec_shp bs;
     assert_c (bs \<noteq> []);
     (p, bs) \<leftarrow> tc_dec_plc bs;
     assert_c (bs \<noteq> []);
     (x, bs) \<leftarrow> tc_dec_q bs;
     assert_c (bs \<noteq> []);
     ((ss, ps, xs), bs) \<leftarrow> dec_queues n bs;
     Some ((s # ss, p # ps, x # xs), bs)
   }"

definition tc_dec_ind_msg_plain :: "u8 list \<Rightarrow> tc_ind_msg_t option" where
  "tc_dec_ind_msg_plain bs = do {
     (sch, bs) \<leftarrow> tc_dec_sch bs;
     assert_c (bs \<noteq> []);
     (pcr, bs) \<leftarrow> tc_dec_pcr bs;
     assert_c (bs \<noteq> []);
     (cls, bs) \<leftarrow> tc_dec_cls bs;
     assert_c (bs \<noteq> []);
     (n, bs) \<leftarrow> get_u32 bs;
     assert_c (bs \<noteq> []);
     ((ss, ps, xs), bs) \<leftarrow> dec_queues (unat n) bs;
     (ts, bs) \<leftarrow> get_u64 bs;
     assert_c (bs = []);
     Some \<lparr>ind_sch = sch, ind_pcr = pcr, ind_cls = cls, len_q = n, ind_shp = ss,
           ind_plc = ps, ind_q = xs, ind_tstamp = ts\<rparr>
   }"

definition tc_dec_event_trigger_plain :: "u8 list \<Rightarrow> tc_event_trigger_t option" where
  "tc_dec_event_trigger_plain bs = do { (m, _) \<leftarrow> get_u32 bs; Some \<lparr>et_ms = m\<rparr> }"

definition tc_dec_ind_hdr_plain :: "u8 list \<Rightarrow> tc_ind_hdr_t option" where
  "tc_dec_ind_hdr_plain bs = do {
     assert_c (length bs = 4);
     (d, _) \<leftarrow> get_u32 bs;
     Some \<lparr>ind_hdr_dummy = d\<rparr>
   }"

definition tc_dec_ctrl_hdr_plain :: "u8 list \<Rightarrow> tc_ctrl_hdr_t option" where
  "tc_dec_ctrl_hdr_plain bs = do {
     assert_c (length bs = 4);
     (d, _) \<leftarrow> get_u32 bs;
     Some \<lparr>ctrl_hdr_dummy = d\<rparr>
   }"

subsection \<open>Sizes of the encodings\<close>

lemma length_concat_const:
  "(\<And>x. length (f x) = k) \<Longrightarrow> length (concat (map f xs)) = k * length xs"
  by (induction xs) simp_all

lemma length_L3 [size_simps]: "length (L3_image l) = 16"
  by (simp add: L3_image_def)

lemma length_L4 [size_simps]: "length (L4_image l) = 12"
  by (simp add: L4_image_def)

lemma length_filter_image [size_simps]: "length (filter_image f) = sizeof_filter"
  by (simp add: filter_image_def size_simps sizeof_filter_def)

lemmas enc_size_defs = tc_enc_mtr_def tc_enc_pcr_def tc_enc_shp_def tc_enc_drp_def
  tc_enc_mrk_def tc_enc_plc_def tc_enc_q_fifo_def tc_enc_q_codel_def tc_enc_q_ecn_codel_def
  cal_mtr_payload_def cal_pcr_payload_def cal_shp_payload_def cal_drp_payload_def
  cal_mrk_payload_def cal_plc_payload_def

lemma length_enc_sch [size_simps]: "length (tc_enc_sch s) = cal_sch_payload s"
  by (cases s) (simp_all add: tc_enc_sch_rr_def tc_enc_sch_prio_def length_concat_const[of _ 4])

lemma length_enc_pcr [size_simps]: "length (tc_enc_pcr p) = cal_pcr_payload p"
  by (simp add: enc_size_defs)

lemma length_enc_cls [size_simps]: "length (tc_enc_cls c) = cal_cls_payload c"
  by (cases c) (simp_all add: tc_enc_cls_rr_def tc_enc_cls_osi_def tc_enc_cls_sto_def
      cal_cls_rr_payload_def cal_cls_osi_payload_def cal_cls_sto_payload_def
      length_concat_const[of _ sizeof_filter] size_simps)

lemma length_enc_shp [size_simps]: "length (tc_enc_shp s) = cal_shp_payload s"
  by (simp add: enc_size_defs)

lemma length_enc_plc [size_simps]: "length (tc_enc_plc p) = cal_plc_payload p"
  by (simp add: enc_size_defs)

lemma length_enc_q [size_simps]: "length (tc_enc_q x) = cal_q_payload x"
  by (simp add: tc_enc_q_def cal_q_payload_def enc_size_defs split: tc_queue_u.split)

subsection \<open>Round trips of the parts\<close>

lemma get_L3_image [codec_simps]: "get_L3 (L3_image l @ rest) = Some (l, rest)"
  by (simp add: get_L3_def L3_image_def)

lemma get_L4_image [codec_simps]: "get_L4 (L4_image l @ rest) = Some (l, rest)"
  by (simp add: get_L4_def L4_image_def)

lemma get_filter_image [codec_simps]: "get_filter (filter_image f @ rest) = Some (f, rest)"
  by (simp add: get_filter_def filter_image_def codec_simps)

text \<open>
  What a receiver sees of a value: the round-robin placeholder and the queue identifiers are not
  transmitted and arrive as zero.
\<close>

fun wire_sch :: "tc_sch_t \<Rightarrow> tc_sch_t" where
  "wire_sch (TC_SCHED_RR rr) = TC_SCHED_RR \<lparr>sch_rr_dummy = 0\<rparr>"
| "wire_sch (TC_SCHED_PRIO p) = TC_SCHED_PRIO p"

definition erase_q_id :: "tc_queue_t \<Rightarrow> tc_queue_t" where
  "erase_q_id x = x\<lparr>q_id := 0\<rparr>"

definition wire_ind_msg :: "tc_ind_msg_t \<Rightarrow> tc_ind_msg_t" where
  "wire_ind_msg m = m\<lparr>ind_sch := wire_sch (ind_sch m), ind_q := map erase_q_id (ind_q m)\<rparr>"

lemma dec_sch_enc [codec_simps]:
  "wf_sch s \<Longrightarrow> tc_dec_sch (tc_enc_sch s @ rest) = Some (wire_sch s, rest)"
  by (cases s) (auto simp: tc_dec_sch_def tc_enc_sch_rr_def tc_dec_sch_rr_def
      tc_enc_sch_prio_def tc_dec_sch_prio_def wf_sch_prio_def unat_of_nat_len32 dec_n_map)

lemma dec_mtr_enc [codec_simps]: "tc_dec_mtr (tc_enc_mtr m @ rest) = Some (m, rest)"
  by (simp add: tc_dec_mtr_def tc_enc_mtr_def)

lemma dec_pcr_enc [codec_simps]: "tc_dec_pcr (tc_enc_pcr p @ rest) = Some (p, rest)"
  by (simp add: tc_dec_pcr_def tc_enc_pcr_def codec_simps)

lemma dec_cls_enc [codec_simps]:
  "wf_cls c \<Longrightarrow> tc_dec_cls (tc_enc_cls c @ rest) = Some (c, rest)"
  by (cases c) (simp_all add: tc_dec_cls_def tc_enc_cls_rr_def tc_dec_cls_rr_def
      tc_enc_cls_sto_def tc_dec_cls_sto_def tc_enc_cls_osi_def tc_dec_cls_osi_def
      unat_of_nat_len32 dec_n_map codec_simps)

lemma dec_shp_enc [codec_simps]: "tc_dec_shp (tc_enc_shp s @ rest) = Some (s, rest)"
  by (simp add: tc_dec_shp_def tc_enc_shp_def codec_simps)

lemma dec_drp_enc [codec_simps]: "tc_dec_drp (tc_enc_drp d @ rest) = Some (d, rest)"
  by (simp add: tc_dec_drp_def tc_enc_drp_def)

lemma dec_mrk_enc [codec_simps]: "tc_dec_mrk (tc_enc_mrk d @ rest) = Some (d, rest)"
  by (simp add: tc_dec_mrk_def tc_enc_mrk_def)

lemma dec_plc_enc [codec_simps]: "tc_dec_plc (tc_enc_plc p @ rest) = Some (p, rest)"
  by (simp add: tc_dec_plc_def tc_enc_plc_def codec_simps)

lemma dec_q_fifo_enc [codec_simps]: "tc_dec_q_fifo (tc_enc_q_fifo x @ rest) = Some (x, rest)"
  by (simp add: tc_dec_q_fifo_def tc_enc_q_fifo_def codec_simps)

lemma dec_q_codel_enc [codec_simps]: "tc_dec_q_codel (tc_enc_q_codel x @ rest) = Some (x, rest)"
  by (simp add: tc_dec_q_codel_def tc_enc_q_codel_def codec_simps)

lemma dec_q_ecn_enc [codec_simps]:
  "tc_dec_q_ecn_codel (tc_enc_q_ecn_codel x @ rest) = Some (x, rest)"
  by (simp add: tc_dec_q_ecn_codel_def tc_enc_q_ecn_codel_def codec_simps)

lemma dec_q_enc [codec_simps]: "tc_dec_q (tc_enc_q x @ rest) = Some (erase_q_id x, rest)"
  by (cases x) (simp add: tc_dec_q_def tc_enc_q_def erase_q_id_def codec_simps
      split: tc_queue_u.split)

end
