(* ===== verification/Tc_Ctrl_Enc.thy ===== *)
theory Tc_Ctrl_Enc
  imports Tc_Enc
begin

text \<open>
  The control messages of the traffic-control service model: the sizes and the writers of
  \<^verbatim>\<open>src/src/flexric/src/sm/tc_sm/enc/tc_enc_plain.c\<close> for the six kinds of control message
  (classifier, policer, queue, scheduler, shaper, pacer), each with its add, modify and delete
  actions.  As in \<^verbatim>\<open>Tc_Enc\<close>, a writer is the list of the bytes it writes.
\<close>

subsection \<open>Sizes\<close>

definition cal_tc_add_ctrl_payload_cls_rr :: "tc_add_cls_rr_t \<Rightarrow> nat" where
  "cal_tc_add_ctrl_payload_cls_rr rr = 4"

definition cal_tc_add_ctrl_payload_cls_osi :: "tc_add_cls_osi_t \<Rightarrow> nat" where
  "cal_tc_add_ctrl_payload_cls_osi osi = 16 + 12 + 4 + 4"

definition cal_tc_add_ctrl_payload_cls_sto :: "tc_add_cls_sto_t \<Rightarrow> nat" where
  "cal_tc_add_ctrl_payload_cls_sto sto = 4"

fun cal_tc_add_ctrl_payload_cls :: "tc_add_ctrl_cls_t \<Rightarrow> nat" where
  "cal_tc_add_ctrl_payload_cls (Add_CLS_RR rr) = 4 + cal_tc_add_ctrl_payload_cls_rr rr"
| "cal_tc_add_ctrl_payload_cls (Add_CLS_OSI osi) = 4 + cal_tc_add_ctrl_payload_cls_osi osi"
| "cal_tc_add_ctrl_payload_cls (Add_CLS_STO sto) = 4 + cal_tc_add_ctrl_payload_cls_sto sto"

definition cal_tc_mod_ctrl_payload_cls_rr :: "tc_mod_cls_rr_t \<Rightarrow> nat" where
  "cal_tc_mod_ctrl_payload_cls_rr rr = 4"

definition cal_tc_mod_ctrl_payload_cls_osi :: "tc_mod_cls_osi_t \<Rightarrow> nat" where
  "cal_tc_mod_ctrl_payload_cls_osi osi = sizeof_filter"

definition cal_tc_mod_ctrl_payload_cls_sto :: "tc_mod_cls_sto_t \<Rightarrow> nat" where
  "cal_tc_mod_ctrl_payload_cls_sto sto = 4"

fun cal_tc_mod_ctrl_payload_cls :: "tc_mod_ctrl_cls_t \<Rightarrow> nat" where
  "cal_tc_mod_ctrl_payload_cls (Mod_CLS_RR rr) = 4 + cal_tc_mod_ctrl_payload_cls_rr rr"
| "cal_tc_mod_ctrl_payload_cls (Mod_CLS_OSI osi) = 4 + cal_tc_mod_ctrl_payload_cls_osi osi"
| "cal_tc_mod_ctrl_payload_cls (Mod_CLS_STO sto) = 4 + cal_tc_mod_ctrl_payload_cls_sto sto"

definition cal_tc_del_ctrl_payload_cls_rr :: "tc_del_cls_rr_t \<Rightarrow> nat" where
  "cal_tc_del_ctrl_payload_cls_rr rr = 4"

definition cal_tc_del_ctrl_payload_cls_osi :: "tc_del_cls_osi_t \<Rightarrow> nat" where
  "cal_tc_del_ctrl_payload_cls_osi osi = 4"

definition cal_tc_del_ctrl_payload_cls_sto :: "tc_del_cls_sto_t \<Rightarrow> nat" where
  "cal_tc_del_ctrl_payload_cls_sto sto = 4"

fun cal_tc_del_ctrl_payload_cls :: "tc_del_ctrl_cls_t \<Rightarrow> nat" where
  "cal_tc_del_ctrl_payload_cls (Del_CLS_RR rr) = 4 + cal_tc_del_ctrl_payload_cls_rr rr"
| "cal_tc_del_ctrl_payload_cls (Del_CLS_OSI osi) = 4 + cal_tc_del_ctrl_payload_cls_osi osi"
| "cal_tc_del_ctrl_payload_cls (Del_CLS_STO sto) = 4 + cal_tc_del_ctrl_payload_cls_sto sto"

fun cal_tc_ctrl_payload_cls :: "tc_ctrl_cls_t \<Rightarrow> nat" where
  "cal_tc_ctrl_payload_cls (Cls_ADD x) = 4 + cal_tc_add_ctrl_payload_cls x"
| "cal_tc_ctrl_payload_cls (Cls_DEL x) = 4 + cal_tc_del_ctrl_payload_cls x"
| "cal_tc_ctrl_payload_cls (Cls_MOD x) = 4 + cal_tc_mod_ctrl_payload_cls x"

definition cal_tc_add_ctrl_payload_plc :: "tc_add_ctrl_plc_t \<Rightarrow> nat" where
  "cal_tc_add_ctrl_payload_plc x = 4"

definition cal_tc_mod_ctrl_payload_plc :: "tc_mod_ctrl_plc_t \<Rightarrow> nat" where
  "cal_tc_mod_ctrl_payload_plc x = 4 + 4 + 4 + 4 + 4"

definition cal_tc_del_ctrl_payload_plc :: "tc_del_ctrl_plc_t \<Rightarrow> nat" where
  "cal_tc_del_ctrl_payload_plc x = 4"

fun cal_tc_ctrl_payload_plc :: "tc_ctrl_plc_t \<Rightarrow> nat" where
  "cal_tc_ctrl_payload_plc (Plc_ADD x) = 4 + cal_tc_add_ctrl_payload_plc x"
| "cal_tc_ctrl_payload_plc (Plc_DEL x) = 4 + cal_tc_del_ctrl_payload_plc x"
| "cal_tc_ctrl_payload_plc (Plc_MOD x) = 4 + cal_tc_mod_ctrl_payload_plc x"

definition cal_tc_ctrl_payload_q_fifo :: "tc_ctrl_queue_fifo_t \<Rightarrow> nat" where
  "cal_tc_ctrl_payload_q_fifo x = 4"

definition cal_tc_ctrl_payload_q_codel :: "tc_ctrl_queue_codel_t \<Rightarrow> nat" where
  "cal_tc_ctrl_payload_q_codel x = 4 + 4"

definition cal_tc_ctrl_payload_q_ecn_codel :: "tc_ctrl_queue_ecn_codel_t \<Rightarrow> nat" where
  "cal_tc_ctrl_payload_q_ecn_codel x = 4 + 4"

definition cal_tc_ctrl_payload_q_add :: "tc_add_ctrl_queue_t \<Rightarrow> nat" where
  "cal_tc_ctrl_payload_q_add x = 4 + (case add_q_type x of
       Ctrl_QUEUE_FIFO y \<Rightarrow> cal_tc_ctrl_payload_q_fifo y
     | Ctrl_QUEUE_CODEL y \<Rightarrow> cal_tc_ctrl_payload_q_codel y
     | Ctrl_QUEUE_ECN_CODEL y \<Rightarrow> cal_tc_ctrl_payload_q_ecn_codel y)"

definition cal_tc_ctrl_payload_q_mod :: "tc_mod_ctrl_queue_t \<Rightarrow> nat" where
  "cal_tc_ctrl_payload_q_mod x = 4 + 4 + (case mod_q_type x of
       Ctrl_QUEUE_FIFO y \<Rightarrow> cal_tc_ctrl_payload_q_fifo y
     | Ctrl_QUEUE_CODEL y \<Rightarrow> cal_tc_ctrl_payload_q_codel y
     | Ctrl_QUEUE_ECN_CODEL y \<Rightarrow> cal_tc_ctrl_payload_q_ecn_codel y)"

definition cal_tc_ctrl_payload_q_del :: "tc_del_ctrl_queue_t \<Rightarrow> nat" where
  "cal_tc_ctrl_payload_q_del x = 4 + 4"

fun cal_tc_ctrl_payload_q :: "tc_ctrl_queue_t \<Rightarrow> nat" where
  "cal_tc_ctrl_payload_q (Q_ADD x) = 4 + cal_tc_ctrl_payload_q_add x"
| "cal_tc_ctrl_payload_q (Q_MOD x) = 4 + cal_tc_ctrl_payload_q_mod x"
| "cal_tc_ctrl_payload_q (Q_DEL x) = 4 + cal_tc_ctrl_payload_q_del x"

definition cal_tc_ctrl_payload_sch_add :: "tc_add_ctrl_sch_t \<Rightarrow> nat" where
  "cal_tc_ctrl_payload_sch_add x = 4"

definition cal_tc_ctrl_payload_sch_mod_rr :: "tc_sch_rr_t \<Rightarrow> nat" where
  "cal_tc_ctrl_payload_sch_mod_rr x = 4"

definition cal_tc_ctrl_payload_sch_mod_prio :: "tc_sch_prio_t \<Rightarrow> nat" where
  "cal_tc_ctrl_payload_sch_mod_prio x = 4 + length (q_prio x) * 4"

fun cal_tc_ctrl_payload_sch_mod :: "tc_mod_ctrl_sch_t \<Rightarrow> nat" where
  "cal_tc_ctrl_payload_sch_mod (Mod_SCHED_RR x) = 4 + cal_tc_ctrl_payload_sch_mod_rr x"
| "cal_tc_ctrl_payload_sch_mod (Mod_SCHED_PRIO x) = 4 + cal_tc_ctrl_payload_sch_mod_prio x"

definition cal_tc_ctrl_payload_sch_del :: "tc_del_ctrl_sch_t \<Rightarrow> nat" where
  "cal_tc_ctrl_payload_sch_del x = 4"

fun cal_tc_ctrl_payload_sch :: "tc_ctrl_sch_t \<Rightarrow> nat" where
  "cal_tc_ctrl_payload_sch (Sch_ADD x) = 4 + cal_tc_ctrl_payload_sch_add x"
| "cal_tc_ctrl_payload_sch (Sch_DEL x) = 4 + cal_tc_ctrl_payload_sch_del x"
| "cal_tc_ctrl_payload_sch (Sch_MOD x) = 4 + cal_tc_ctrl_payload_sch_mod x"

definition cal_tc_ctrl_payload_shp_add :: "tc_add_ctrl_shp_t \<Rightarrow> nat" where
  "cal_tc_ctrl_payload_shp_add x = 4"

definition cal_tc_ctrl_payload_shp_mod :: "tc_mod_ctrl_shp_t \<Rightarrow> nat" where
  "cal_tc_ctrl_payload_shp_mod x = 4 + 4 + 4 + 4"

definition cal_tc_ctrl_payload_shp_del :: "tc_del_ctrl_shp_t \<Rightarrow> nat" where
  "cal_tc_ctrl_payload_shp_del x = 4"

fun cal_tc_ctrl_payload_shp :: "tc_ctrl_shp_t \<Rightarrow> nat" where
  "cal_tc_ctrl_payload_shp (Shp_ADD x) = 4 + cal_tc_ctrl_payload_shp_add x"
| "cal_tc_ctrl_payload_shp (Shp_DEL x) = 4 + cal_tc_ctrl_payload_shp_del x"
| "cal_tc_ctrl_payload_shp (Shp_MOD x) = 4 + cal_tc_ctrl_payload_shp_mod x"

definition cal_tc_ctrl_payload_pcr_add :: "tc_add_ctrl_pcr_t \<Rightarrow> nat" where
  "cal_tc_ctrl_payload_pcr_add x = 4"

definition cal_tc_ctrl_payload_pcr_mod_dummy :: "tc_pcr_dummy_t \<Rightarrow> nat" where
  "cal_tc_ctrl_payload_pcr_mod_dummy x = 4"

definition cal_tc_ctrl_payload_pcr_mod_bdp :: "tc_pcr_5g_bdp_t \<Rightarrow> nat" where
  "cal_tc_ctrl_payload_pcr_mod_bdp x = 4 + 8"

fun cal_tc_ctrl_payload_pcr_mod :: "tc_mod_ctrl_pcr_t \<Rightarrow> nat" where
  "cal_tc_ctrl_payload_pcr_mod (Mod_PCR_DUMMY x) = 4 + cal_tc_ctrl_payload_pcr_mod_dummy x"
| "cal_tc_ctrl_payload_pcr_mod (Mod_PCR_5G_BDP x) = 4 + cal_tc_ctrl_payload_pcr_mod_bdp x"

definition cal_tc_ctrl_payload_pcr_del :: "tc_del_ctrl_pcr_t \<Rightarrow> nat" where
  "cal_tc_ctrl_payload_pcr_del x = 4"

fun cal_tc_ctrl_payload_pcr :: "tc_ctrl_pcr_t \<Rightarrow> nat" where
  "cal_tc_ctrl_payload_pcr (Pcr_ADD x) = 4 + cal_tc_ctrl_payload_pcr_add x"
| "cal_tc_ctrl_payload_pcr (Pcr_DEL x) = 4 + cal_tc_ctrl_payload_pcr_del x"
| "cal_tc_ctrl_payload_pcr (Pcr_MOD x) = 4 + cal_tc_ctrl_payload_pcr_mod x"

fun cal_tc_ctrl_payload :: "tc_ctrl_msg_t \<Rightarrow> nat" where
  "cal_tc_ctrl_payload (TC_CTRL_SM_V0_CLS x) = 4 + cal_tc_ctrl_payload_cls x"
| "cal_tc_ctrl_payload (TC_CTRL_SM_V0_PLC x) = 4 + cal_tc_ctrl_payload_plc x"
| "cal_tc_ctrl_payload (TC_CTRL_SM_V0_QUEUE x) = 4 + cal_tc_ctrl_payload_q x"
| "cal_tc_ctrl_payload (TC_CTRL_SM_V0_SCH x) = 4 + cal_tc_ctrl_payload_sch x"
| "cal_tc_ctrl_payload (TC_CTRL_SM_V0_SHP x) = 4 + cal_tc_ctrl_payload_shp x"
| "cal_tc_ctrl_payload (TC_CTRL_SM_V0_PCR x) = 4 + cal_tc_ctrl_payload_pcr x"

subsection \<open>Writers\<close>

definition enc_tc_add_ctrl_payload_cls_rr :: "tc_add_cls_rr_t \<Rightarrow> u8 list" where
  "enc_tc_add_ctrl_payload_cls_rr rr = put_u32 (add_cls_rr_dummy rr)"

text \<open>The layer-7 filter is not written.\<close>

definition enc_tc_add_ctrl_payload_cls_osi :: "tc_add_cls_osi_t \<Rightarrow> u8 list" where
  "enc_tc_add_ctrl_payload_cls_osi osi =
     put_u64 (src_addr (add_l3 osi)) @ put_u64 (dst_addr (add_l3 osi))
     @ put_u32 (src_port (add_l4 osi)) @ put_u32 (dst_port (add_l4 osi))
     @ put_u32 (protocol (add_l4 osi)) @ put_u32 (add_dst_queue osi)"

definition enc_tc_add_ctrl_payload_cls_sto :: "tc_add_cls_sto_t \<Rightarrow> u8 list" where
  "enc_tc_add_ctrl_payload_cls_sto sto = put_u32 (add_cls_sto_dummy sto)"

fun enc_tc_add_ctrl_payload_cls :: "tc_add_ctrl_cls_t \<Rightarrow> u8 list" where
  "enc_tc_add_ctrl_payload_cls (Add_CLS_RR x) = put_u32 0 @ enc_tc_add_ctrl_payload_cls_rr x"
| "enc_tc_add_ctrl_payload_cls (Add_CLS_OSI x) = put_u32 1 @ enc_tc_add_ctrl_payload_cls_osi x"
| "enc_tc_add_ctrl_payload_cls (Add_CLS_STO x) = put_u32 2 @ enc_tc_add_ctrl_payload_cls_sto x"

definition enc_tc_mod_ctrl_payload_cls_rr :: "tc_mod_cls_rr_t \<Rightarrow> u8 list" where
  "enc_tc_mod_ctrl_payload_cls_rr rr = put_u32 (mod_cls_rr_dummy rr)"

definition enc_tc_mod_ctrl_payload_cls_osi :: "tc_mod_cls_osi_t \<Rightarrow> u8 list" where
  "enc_tc_mod_ctrl_payload_cls_osi osi = filter_image (mod_filter osi)"

definition enc_tc_mod_ctrl_payload_cls_sto :: "tc_mod_cls_sto_t \<Rightarrow> u8 list" where
  "enc_tc_mod_ctrl_payload_cls_sto sto = put_u32 (mod_cls_sto_dummy sto)"

fun enc_tc_mod_ctrl_payload_cls :: "tc_mod_ctrl_cls_t \<Rightarrow> u8 list" where
  "enc_tc_mod_ctrl_payload_cls (Mod_CLS_RR x) = put_u32 0 @ enc_tc_mod_ctrl_payload_cls_rr x"
| "enc_tc_mod_ctrl_payload_cls (Mod_CLS_OSI x) = put_u32 1 @ enc_tc_mod_ctrl_payload_cls_osi x"
| "enc_tc_mod_ctrl_payload_cls (Mod_CLS_STO x) = put_u32 2 @ enc_tc_mod_ctrl_payload_cls_sto x"

definition enc_tc_del_ctrl_payload_cls_rr :: "tc_del_cls_rr_t \<Rightarrow> u8 list" where
  "enc_tc_del_ctrl_payload_cls_rr rr = put_u32 (del_cls_rr_dummy rr)"

definition enc_tc_del_ctrl_payload_cls_osi :: "tc_del_cls_osi_t \<Rightarrow> u8 list" where
  "enc_tc_del_ctrl_payload_cls_osi osi = put_u32 (filter_id osi)"

definition enc_tc_del_ctrl_payload_cls_sto :: "tc_del_cls_sto_t \<Rightarrow> u8 list" where
  "enc_tc_del_ctrl_payload_cls_sto sto = put_u32 (del_cls_sto_dummy sto)"

fun enc_tc_del_ctrl_payload_cls :: "tc_del_ctrl_cls_t \<Rightarrow> u8 list" where
  "enc_tc_del_ctrl_payload_cls (Del_CLS_RR x) = put_u32 0 @ enc_tc_del_ctrl_payload_cls_rr x"
| "enc_tc_del_ctrl_payload_cls (Del_CLS_OSI x) = put_u32 1 @ enc_tc_del_ctrl_payload_cls_osi x"
| "enc_tc_del_ctrl_payload_cls (Del_CLS_STO x) = put_u32 2 @ enc_tc_del_ctrl_payload_cls_sto x"

fun enc_tc_ctrl_payload_cls :: "tc_ctrl_cls_t \<Rightarrow> u8 list" where
  "enc_tc_ctrl_payload_cls (Cls_ADD x) = put_u32 0 @ enc_tc_add_ctrl_payload_cls x"
| "enc_tc_ctrl_payload_cls (Cls_DEL x) = put_u32 1 @ enc_tc_del_ctrl_payload_cls x"
| "enc_tc_ctrl_payload_cls (Cls_MOD x) = put_u32 2 @ enc_tc_mod_ctrl_payload_cls x"

definition enc_tc_add_ctrl_payload_plc :: "tc_add_ctrl_plc_t \<Rightarrow> u8 list" where
  "enc_tc_add_ctrl_payload_plc x = put_u32 (add_plc_dummy x)"

definition enc_tc_mod_ctrl_payload_plc :: "tc_mod_ctrl_plc_t \<Rightarrow> u8 list" where
  "enc_tc_mod_ctrl_payload_plc x = put_u32 (mod_plc_id x) @ put_u32 (drop_rate_kbps x)
     @ put_u32 (dev_id x) @ put_u32 (dev_rate_kbps x) @ put_u32 (mod_plc_active x)"

definition enc_tc_del_ctrl_payload_plc :: "tc_del_ctrl_plc_t \<Rightarrow> u8 list" where
  "enc_tc_del_ctrl_payload_plc x = put_u32 (del_plc_id x)"

fun enc_tc_ctrl_payload_plc :: "tc_ctrl_plc_t \<Rightarrow> u8 list" where
  "enc_tc_ctrl_payload_plc (Plc_ADD x) = put_u32 0 @ enc_tc_add_ctrl_payload_plc x"
| "enc_tc_ctrl_payload_plc (Plc_DEL x) = put_u32 1 @ enc_tc_del_ctrl_payload_plc x"
| "enc_tc_ctrl_payload_plc (Plc_MOD x) = put_u32 2 @ enc_tc_mod_ctrl_payload_plc x"

definition enc_tc_ctrl_payload_q_fifo :: "tc_ctrl_queue_fifo_t \<Rightarrow> u8 list" where
  "enc_tc_ctrl_payload_q_fifo x = put_u32 (ctrl_fifo_dummy x)"

definition enc_tc_ctrl_payload_q_codel :: "tc_ctrl_queue_codel_t \<Rightarrow> u8 list" where
  "enc_tc_ctrl_payload_q_codel x = put_u32 (codel_target_ms x) @ put_u32 (codel_interval_ms x)"

definition enc_tc_ctrl_payload_q_ecn_codel :: "tc_ctrl_queue_ecn_codel_t \<Rightarrow> u8 list" where
  "enc_tc_ctrl_payload_q_ecn_codel x = put_u32 (ecn_target_ms x) @ put_u32 (ecn_interval_ms x)"

definition enc_tc_add_ctrl_payload_q :: "tc_add_ctrl_queue_t \<Rightarrow> u8 list" where
  "enc_tc_add_ctrl_payload_q x = (case add_q_type x of
       Ctrl_QUEUE_CODEL y \<Rightarrow> put_u32 1 @ enc_tc_ctrl_payload_q_codel y
     | Ctrl_QUEUE_FIFO y \<Rightarrow> put_u32 0 @ enc_tc_ctrl_payload_q_fifo y
     | Ctrl_QUEUE_ECN_CODEL y \<Rightarrow> put_u32 2 @ enc_tc_ctrl_payload_q_ecn_codel y)"

definition enc_tc_mod_ctrl_payload_q :: "tc_mod_ctrl_queue_t \<Rightarrow> u8 list" where
  "enc_tc_mod_ctrl_payload_q x = put_u32 (mod_q_id x) @ (case mod_q_type x of
       Ctrl_QUEUE_CODEL y \<Rightarrow> put_u32 1 @ enc_tc_ctrl_payload_q_codel y
     | Ctrl_QUEUE_FIFO y \<Rightarrow> put_u32 0 @ enc_tc_ctrl_payload_q_fifo y
     | Ctrl_QUEUE_ECN_CODEL y \<Rightarrow> put_u32 2 @ enc_tc_ctrl_payload_q_ecn_codel y)"

definition enc_tc_del_ctrl_payload_q :: "tc_del_ctrl_queue_t \<Rightarrow> u8 list" where
  "enc_tc_del_ctrl_payload_q x = put_u32 (del_q_id x) @ put_u32 (del_q_type x)"

fun enc_tc_ctrl_payload_q :: "tc_ctrl_queue_t \<Rightarrow> u8 list" where
  "enc_tc_ctrl_payload_q (Q_ADD x) = put_u32 0 @ enc_tc_add_ctrl_payload_q x"
| "enc_tc_ctrl_payload_q (Q_DEL x) = put_u32 1 @ enc_tc_del_ctrl_payload_q x"
| "enc_tc_ctrl_payload_q (Q_MOD x) = put_u32 2 @ enc_tc_mod_ctrl_payload_q x"

definition enc_tc_add_ctrl_payload_sch :: "tc_add_ctrl_sch_t \<Rightarrow> u8 list" where
  "enc_tc_add_ctrl_payload_sch x = put_u32 (add_sch_dummy x)"

definition enc_tc_mod_ctrl_payload_sch_rr :: "tc_sch_rr_t \<Rightarrow> u8 list" where
  "enc_tc_mod_ctrl_payload_sch_rr x = put_u32 (sch_rr_dummy x)"

definition enc_tc_mod_ctrl_payload_sch_prio :: "tc_sch_prio_t \<Rightarrow> u8 list" where
  "enc_tc_mod_ctrl_payload_sch_prio x =
     put_u32 (of_nat (length (q_prio x))) @ concat (map put_u32 (q_prio x))"

fun enc_tc_mod_ctrl_payload_sch :: "tc_mod_ctrl_sch_t \<Rightarrow> u8 list" where
  "enc_tc_mod_ctrl_payload_sch (Mod_SCHED_RR x) = put_u32 0 @ enc_tc_mod_ctrl_payload_sch_rr x"
| "enc_tc_mod_ctrl_payload_sch (Mod_SCHED_PRIO x) =
     put_u32 1 @ enc_tc_mod_ctrl_payload_sch_prio x"

definition enc_tc_del_ctrl_payload_sch :: "tc_del_ctrl_sch_t \<Rightarrow> u8 list" where
  "enc_tc_del_ctrl_payload_sch x = put_u32 (del_sch_dummy x)"

fun enc_tc_ctrl_payload_sch :: "tc_ctrl_sch_t \<Rightarrow> u8 list" where
  "enc_tc_ctrl_payload_sch (Sch_ADD x) = put_u32 0 @ enc_tc_add_ctrl_payload_sch x"
| "enc_tc_ctrl_payload_sch (Sch_DEL x) = put_u32 1 @ enc_tc_del_ctrl_payload_sch x"
| "enc_tc_ctrl_payload_sch (Sch_MOD x) = put_u32 2 @ enc_tc_mod_ctrl_payload_sch x"

definition enc_tc_add_ctrl_payload_shp :: "tc_add_ctrl_shp_t \<Rightarrow> u8 list" where
  "enc_tc_add_ctrl_payload_shp x = put_u32 (add_shp_dummy x)"

definition enc_tc_mod_ctrl_payload_shp :: "tc_mod_ctrl_shp_t \<Rightarrow> u8 list" where
  "enc_tc_mod_ctrl_payload_shp x = put_u32 (mod_shp_id x) @ put_u32 (mod_shp_time_window_ms x)
     @ put_u32 (mod_shp_max_rate_kbps x) @ put_u32 (mod_shp_active x)"

definition enc_tc_del_ctrl_payload_shp :: "tc_del_ctrl_shp_t \<Rightarrow> u8 list" where
  "enc_tc_del_ctrl_payload_shp x = put_u32 (del_shp_id x)"

fun enc_tc_ctrl_payload_shp :: "tc_ctrl_shp_t \<Rightarrow> u8 list" where
  "enc_tc_ctrl_payload_shp (Shp_ADD x) = put_u32 0 @ enc_tc_add_ctrl_payload_shp x"
| "enc_tc_ctrl_payload_shp (Shp_DEL x) = put_u32 1 @ enc_tc_del_ctrl_payload_shp x"
| "enc_tc_ctrl_payload_shp (Shp_MOD x) = put_u32 2 @ enc_tc_mod_ctrl_payload_shp x"

definition enc_tc_add_ctrl_payload_pcr :: "tc_add_ctrl_pcr_t \<Rightarrow> u8 list" where
  "enc_tc_add_ctrl_payload_pcr x = put_u32 (add_pcr_dummy x)"

definition enc_tc_mod_ctrl_payload_pcr_dummy :: "tc_pcr_dummy_t \<Rightarrow> u8 list" where
  "enc_tc_mod_ctrl_payload_pcr_dummy x = put_u32 (pcr_dummy x)"

definition enc_tc_mod_ctrl_payload_pcr_bdp :: "tc_pcr_5g_bdp_t \<Rightarrow> u8 list" where
  "enc_tc_mod_ctrl_payload_pcr_bdp x = put_u32 (drb_sz x) @ put_u64 (bdp_tstamp x)"

fun enc_tc_mod_ctrl_payload_pcr :: "tc_mod_ctrl_pcr_t \<Rightarrow> u8 list" where
  "enc_tc_mod_ctrl_payload_pcr (Mod_PCR_DUMMY x) =
     put_u32 0 @ enc_tc_mod_ctrl_payload_pcr_dummy x"
| "enc_tc_mod_ctrl_payload_pcr (Mod_PCR_5G_BDP x) =
     put_u32 1 @ enc_tc_mod_ctrl_payload_pcr_bdp x"

definition enc_tc_del_ctrl_payload_pcr :: "tc_del_ctrl_pcr_t \<Rightarrow> u8 list" where
  "enc_tc_del_ctrl_payload_pcr x = put_u32 (del_pcr_dummy x)"

fun enc_tc_ctrl_payload_pcr :: "tc_ctrl_pcr_t \<Rightarrow> u8 list" where
  "enc_tc_ctrl_payload_pcr (Pcr_ADD x) = put_u32 0 @ enc_tc_add_ctrl_payload_pcr x"
| "enc_tc_ctrl_payload_pcr (Pcr_DEL x) = put_u32 1 @ enc_tc_del_ctrl_payload_pcr x"
| "enc_tc_ctrl_payload_pcr (Pcr_MOD x) = put_u32 2 @ enc_tc_mod_ctrl_payload_pcr x"

fun ctrl_msg_bytes :: "tc_ctrl_msg_t \<Rightarrow> u8 list" where
  "ctrl_msg_bytes (TC_CTRL_SM_V0_CLS x) = put_u32 0 @ enc_tc_ctrl_payload_cls x"
| "ctrl_msg_bytes (TC_CTRL_SM_V0_PLC x) = put_u32 1 @ enc_tc_ctrl_payload_plc x"
| "ctrl_msg_bytes (TC_CTRL_SM_V0_QUEUE x) = put_u32 2 @ enc_tc_ctrl_payload_q x"
| "ctrl_msg_bytes (TC_CTRL_SM_V0_SCH x) = put_u32 3 @ enc_tc_ctrl_payload_sch x"
| "ctrl_msg_bytes (TC_CTRL_SM_V0_SHP x) = put_u32 4 @ enc_tc_ctrl_payload_shp x"
| "ctrl_msg_bytes (TC_CTRL_SM_V0_PCR x) = put_u32 5 @ enc_tc_ctrl_payload_pcr x"

definition tc_enc_ctrl_msg_plain :: "tc_ctrl_msg_t \<Rightarrow> u8 list option" where
  "tc_enc_ctrl_msg_plain m = do {
     let sz = cal_tc_ctrl_payload m;
     let bs = ctrl_msg_bytes m;
     assert_c (length bs = sz);
     Some bs
   }"

definition tc_enc_ctrl_out_plain :: "tc_ctrl_out_t \<Rightarrow> u8 list" where
  "tc_enc_ctrl_out_plain x = put_u32 (ctrl_out x)"

end
