(* ===== verification/Tc_Ctrl_Dec.thy ===== *)
theory Tc_Ctrl_Dec
  imports Tc_Dec Tc_Ctrl_Enc
begin

text \<open>
  The decoder of the traffic-control control messages,
  \<^verbatim>\<open>src/src/flexric/src/sm/tc_sm/dec/tc_dec_plain.c\<close>, and its round trip with
  \<^verbatim>\<open>Tc_Ctrl_Enc\<close>.  Reads past the end, unknown tags and failed assertions are
  \<^term>\<open>None\<close>.
\<close>

subsection \<open>Classifiers\<close>

definition dec_tc_add_ctrl_payload_cls_rr :: "u8 list \<Rightarrow> (tc_add_cls_rr_t \<times> u8 list) option" where
  "dec_tc_add_ctrl_payload_cls_rr bs = do {
     (d, bs) \<leftarrow> get_u32 bs; Some (\<lparr>add_cls_rr_dummy = d\<rparr>, bs) }"

text \<open>The layer-7 filter is not read: it keeps the zero of the initialiser.\<close>

definition dec_tc_add_ctrl_payload_cls_osi :: "u8 list \<Rightarrow> (tc_add_cls_osi_t \<times> u8 list) option" where
  "dec_tc_add_ctrl_payload_cls_osi bs = do {
     (sa, bs) \<leftarrow> get_u64 bs;
     (da, bs) \<leftarrow> get_u64 bs;
     (sp, bs) \<leftarrow> get_u32 bs;
     (dp, bs) \<leftarrow> get_u32 bs;
     (pr, bs) \<leftarrow> get_u32 bs;
     (dq, bs) \<leftarrow> get_u32 bs;
     Some (\<lparr>add_l3 = \<lparr>src_addr = sa, dst_addr = da\<rparr>,
            add_l4 = \<lparr>src_port = sp, dst_port = dp, protocol = pr\<rparr>,
            add_l7 = \<lparr>l7_dummy = 0\<rparr>, add_dst_queue = dq\<rparr>, bs)
   }"

definition dec_tc_add_ctrl_payload_cls_sto :: "u8 list \<Rightarrow> (tc_add_cls_sto_t \<times> u8 list) option" where
  "dec_tc_add_ctrl_payload_cls_sto bs = do {
     (d, bs) \<leftarrow> get_u32 bs; Some (\<lparr>add_cls_sto_dummy = d\<rparr>, bs) }"

definition dec_tc_add_ctrl_payload_cls :: "u8 list \<Rightarrow> (tc_add_ctrl_cls_t \<times> u8 list) option" where
  "dec_tc_add_ctrl_payload_cls bs = do {
     (t, bs) \<leftarrow> get_u32 bs;
     if t = 0 then do { (x, bs) \<leftarrow> dec_tc_add_ctrl_payload_cls_rr bs; Some (Add_CLS_RR x, bs) }
     else if t = 1 then do { (x, bs) \<leftarrow> dec_tc_add_ctrl_payload_cls_osi bs; Some (Add_CLS_OSI x, bs) }
     else if t = 2 then do { (x, bs) \<leftarrow> dec_tc_add_ctrl_payload_cls_sto bs; Some (Add_CLS_STO x, bs) }
     else None
   }"

definition dec_tc_del_ctrl_payload_cls_rr :: "u8 list \<Rightarrow> (tc_del_cls_rr_t \<times> u8 list) option" where
  "dec_tc_del_ctrl_payload_cls_rr bs = do {
     (d, bs) \<leftarrow> get_u32 bs; Some (\<lparr>del_cls_rr_dummy = d\<rparr>, bs) }"

definition dec_tc_del_ctrl_payload_cls_osi :: "u8 list \<Rightarrow> (tc_del_cls_osi_t \<times> u8 list) option" where
  "dec_tc_del_ctrl_payload_cls_osi bs = do {
     (i, bs) \<leftarrow> get_u32 bs; Some (\<lparr>filter_id = i\<rparr>, bs) }"

definition dec_tc_del_ctrl_payload_cls_sto :: "u8 list \<Rightarrow> (tc_del_cls_sto_t \<times> u8 list) option" where
  "dec_tc_del_ctrl_payload_cls_sto bs = do {
     (d, bs) \<leftarrow> get_u32 bs; Some (\<lparr>del_cls_sto_dummy = d\<rparr>, bs) }"

definition dec_tc_del_ctrl_payload_cls :: "u8 list \<Rightarrow> (tc_del_ctrl_cls_t \<times> u8 list) option" where
  "dec_tc_del_ctrl_payload_cls bs = do {
     (t, bs) \<leftarrow> get_u32 bs;
     if t = 0 then do { (x, bs) \<leftarrow> dec_tc_del_ctrl_payload_cls_rr bs; Some (Del_CLS_RR x, bs) }
     else if t = 1 then do { (x, bs) \<leftarrow> dec_tc_del_ctrl_payload_cls_osi bs; Some (Del_CLS_OSI x, bs) }
     else if t = 2 then do { (x, bs) \<leftarrow> dec_tc_del_ctrl_payload_cls_sto bs; Some (Del_CLS_STO x, bs) }
     else None
   }"

definition dec_tc_mod_ctrl_payload_cls_rr :: "u8 list \<Rightarrow> (tc_mod_cls_rr_t \<times> u8 list) option" where
  "dec_tc_mod_ctrl_payload_cls_rr bs = do {
     (d, bs) \<leftarrow> get_u32 bs; Some (\<lparr>mod_cls_rr_dummy = d\<rparr>, bs) }"

definition dec_tc_mod_ctrl_payload_cls_osi :: "u8 list \<Rightarrow> (tc_mod_cls_osi_t \<times> u8 list) option" where
  "dec_tc_mod_ctrl_payload_cls_osi bs = do {
     (f, bs) \<leftarrow> get_filter bs; Some (\<lparr>mod_filter = f\<rparr>, bs) }"

definition dec_tc_mod_ctrl_payload_cls_sto :: "u8 list \<Rightarrow> (tc_mod_cls_sto_t \<times> u8 list) option" where
  "dec_tc_mod_ctrl_payload_cls_sto bs = do {
     (d, bs) \<leftarrow> get_u32 bs; Some (\<lparr>mod_cls_sto_dummy = d\<rparr>, bs) }"

definition dec_tc_mod_ctrl_payload_cls :: "u8 list \<Rightarrow> (tc_mod_ctrl_cls_t \<times> u8 list) option" where
  "dec_tc_mod_ctrl_payload_cls bs = do {
     (t, bs) \<leftarrow> get_u32 bs;
     if t = 0 then do { (x, bs) \<leftarrow> dec_tc_mod_ctrl_payload_cls_rr bs; Some (Mod_CLS_RR x, bs) }
     else if t = 1 then do { (x, bs) \<leftarrow> dec_tc_mod_ctrl_payload_cls_osi bs; Some (Mod_CLS_OSI x, bs) }
     else if t = 2 then do { (x, bs) \<leftarrow> dec_tc_mod_ctrl_payload_cls_sto bs; Some (Mod_CLS_STO x, bs) }
     else None
   }"

definition dec_tc_ctrl_payload_cls :: "u8 list \<Rightarrow> (tc_ctrl_cls_t \<times> u8 list) option" where
  "dec_tc_ctrl_payload_cls bs = do {
     (a, bs) \<leftarrow> get_u32 bs;
     if a = 0 then do { (x, bs) \<leftarrow> dec_tc_add_ctrl_payload_cls bs; Some (Cls_ADD x, bs) }
     else if a = 1 then do { (x, bs) \<leftarrow> dec_tc_del_ctrl_payload_cls bs; Some (Cls_DEL x, bs) }
     else if a = 2 then do { (x, bs) \<leftarrow> dec_tc_mod_ctrl_payload_cls bs; Some (Cls_MOD x, bs) }
     else None
   }"

subsection \<open>Policers\<close>

definition dec_tc_add_ctrl_payload_plc :: "u8 list \<Rightarrow> (tc_add_ctrl_plc_t \<times> u8 list) option" where
  "dec_tc_add_ctrl_payload_plc bs = do {
     (d, bs) \<leftarrow> get_u32 bs; Some (\<lparr>add_plc_dummy = d\<rparr>, bs) }"

definition dec_tc_del_ctrl_payload_plc :: "u8 list \<Rightarrow> (tc_del_ctrl_plc_t \<times> u8 list) option" where
  "dec_tc_del_ctrl_payload_plc bs = do {
     (i, bs) \<leftarrow> get_u32 bs; Some (\<lparr>del_plc_id = i\<rparr>, bs) }"

definition dec_tc_mod_ctrl_payload_plc :: "u8 list \<Rightarrow> (tc_mod_ctrl_plc_t \<times> u8 list) option" where
  "dec_tc_mod_ctrl_payload_plc bs = do {
     (i, bs) \<leftarrow> get_u32 bs;
     (dr, bs) \<leftarrow> get_u32 bs;
     (di, bs) \<leftarrow> get_u32 bs;
     (vr, bs) \<leftarrow> get_u32 bs;
     (ac, bs) \<leftarrow> get_u32 bs;
     Some (\<lparr>mod_plc_id = i, drop_rate_kbps = dr, dev_id = di, dev_rate_kbps = vr,
            mod_plc_active = ac\<rparr>, bs)
   }"

definition dec_tc_ctrl_payload_plc :: "u8 list \<Rightarrow> (tc_ctrl_plc_t \<times> u8 list) option" where
  "dec_tc_ctrl_payload_plc bs = do {
     (a, bs) \<leftarrow> get_u32 bs;
     if a = 0 then do { (x, bs) \<leftarrow> dec_tc_add_ctrl_payload_plc bs; Some (Plc_ADD x, bs) }
     else if a = 1 then do { (x, bs) \<leftarrow> dec_tc_del_ctrl_payload_plc bs; Some (Plc_DEL x, bs) }
     else if a = 2 then do { (x, bs) \<leftarrow> dec_tc_mod_ctrl_payload_plc bs; Some (Plc_MOD x, bs) }
     else None
   }"

subsection \<open>Queues\<close>

definition dec_tc_ctrl_payload_q_fifo :: "u8 list \<Rightarrow> (tc_ctrl_queue_fifo_t \<times> u8 list) option" where
  "dec_tc_ctrl_payload_q_fifo bs = do {
     (d, bs) \<leftarrow> get_u32 bs; Some (\<lparr>ctrl_fifo_dummy = d\<rparr>, bs) }"

definition dec_tc_ctrl_payload_q_codel :: "u8 list \<Rightarrow> (tc_ctrl_queue_codel_t \<times> u8 list) option" where
  "dec_tc_ctrl_payload_q_codel bs = do {
     (t, bs) \<leftarrow> get_u32 bs;
     (i, bs) \<leftarrow> get_u32 bs;
     Some (\<lparr>codel_target_ms = t, codel_interval_ms = i\<rparr>, bs)
   }"

definition dec_tc_ctrl_payload_q_ecn_codel :: "u8 list \<Rightarrow> (tc_ctrl_queue_ecn_codel_t \<times> u8 list) option" where
  "dec_tc_ctrl_payload_q_ecn_codel bs = do {
     (t, bs) \<leftarrow> get_u32 bs;
     (i, bs) \<leftarrow> get_u32 bs;
     Some (\<lparr>ecn_target_ms = t, ecn_interval_ms = i\<rparr>, bs)
   }"

definition dec_tc_add_ctrl_payload_q :: "u8 list \<Rightarrow> (tc_add_ctrl_queue_t \<times> u8 list) option" where
  "dec_tc_add_ctrl_payload_q bs = do {
     (t, bs) \<leftarrow> get_u32 bs;
     if t = 0 then do { (x, bs) \<leftarrow> dec_tc_ctrl_payload_q_fifo bs;
                        Some (\<lparr>add_q_type = Ctrl_QUEUE_FIFO x\<rparr>, bs) }
     else if t = 1 then do { (x, bs) \<leftarrow> dec_tc_ctrl_payload_q_codel bs;
                        Some (\<lparr>add_q_type = Ctrl_QUEUE_CODEL x\<rparr>, bs) }
     else if t = 2 then do { (x, bs) \<leftarrow> dec_tc_ctrl_payload_q_ecn_codel bs;
                        Some (\<lparr>add_q_type = Ctrl_QUEUE_ECN_CODEL x\<rparr>, bs) }
     else None
   }"

definition dec_tc_del_ctrl_payload_q :: "u8 list \<Rightarrow> (tc_del_ctrl_queue_t \<times> u8 list) option" where
  "dec_tc_del_ctrl_payload_q bs = do {
     (i, bs) \<leftarrow> get_u32 bs;
     (t, bs) \<leftarrow> get_u32 bs;
     Some (\<lparr>del_q_id = i, del_q_type = t\<rparr>, bs)
   }"

definition dec_tc_mod_ctrl_payload_q :: "u8 list \<Rightarrow> (tc_mod_ctrl_queue_t \<times> u8 list) option" where
  "dec_tc_mod_ctrl_payload_q bs = do {
     (i, bs) \<leftarrow> get_u32 bs;
     (t, bs) \<leftarrow> get_u32 bs;
     if t = 0 then do { (x, bs) \<leftarrow> dec_tc_ctrl_payload_q_fifo bs;
                        Some (\<lparr>mod_q_id = i, mod_q_type = Ctrl_QUEUE_FIFO x\<rparr>, bs) }
     else if t = 1 then do { (x, bs) \<leftarrow> dec_tc_ctrl_payload_q_codel bs;
                        Some (\<lparr>mod_q_id = i, mod_q_type = Ctrl_QUEUE_CODEL x\<rparr>, bs) }
     else if t = 2 then do { (x, bs) \<leftarrow> dec_tc_ctrl_payload_q_ecn_codel bs;
                        Some (\<lparr>mod_q_id = i, mod_q_type = Ctrl_QUEUE_ECN_CODEL x\<rparr>, bs) }
     else None
   }"

definition dec_tc_ctrl_payload_q :: "u8 list \<Rightarrow> (tc_ctrl_queue_t \<times> u8 list) option" where
  "dec_tc_ctrl_payload_q bs = do {
     (a, bs) \<leftarrow> get_u32 bs;
     if a = 0 then do { (x, bs) \<leftarrow> dec_tc_add_ctrl_payload_q bs; Some (Q_ADD x, bs) }
     else if a = 1 then do { (x, bs) \<leftarrow> dec_tc_del_ctrl_payload_q bs; Some (Q_DEL x, bs) }
     else if a = 2 then do { (x, bs) \<leftarrow> dec_tc_mod_ctrl_payload_q bs; Some (Q_MOD x, bs) }
     else None
   }"

subsection \<open>Schedulers\<close>

definition dec_tc_add_ctrl_payload_sch :: "u8 list \<Rightarrow> (tc_add_ctrl_sch_t \<times> u8 list) option" where
  "dec_tc_add_ctrl_payload_sch bs = do {
     (d, bs) \<leftarrow> get_u32 bs; Some (\<lparr>add_sch_dummy = d\<rparr>, bs) }"

definition dec_tc_del_ctrl_payload_sch :: "u8 list \<Rightarrow> (tc_del_ctrl_sch_t \<times> u8 list) option" where
  "dec_tc_del_ctrl_payload_sch bs = do {
     (d, bs) \<leftarrow> get_u32 bs; Some (\<lparr>del_sch_dummy = d\<rparr>, bs) }"

definition dec_tc_mod_ctrl_payload_sch_rr :: "u8 list \<Rightarrow> (tc_sch_rr_t \<times> u8 list) option" where
  "dec_tc_mod_ctrl_payload_sch_rr bs = do {
     (d, bs) \<leftarrow> get_u32 bs; Some (\<lparr>sch_rr_dummy = d\<rparr>, bs) }"

definition dec_tc_mod_ctrl_payload_sch_prio :: "u8 list \<Rightarrow> (tc_sch_prio_t \<times> u8 list) option" where
  "dec_tc_mod_ctrl_payload_sch_prio bs = do {
     (n, bs) \<leftarrow> get_u32 bs;
     (xs, bs) \<leftarrow> dec_n (unat n) get_u32 bs;
     Some (\<lparr>q_prio = xs\<rparr>, bs)
   }"

definition dec_tc_mod_ctrl_payload_sch :: "u8 list \<Rightarrow> (tc_mod_ctrl_sch_t \<times> u8 list) option" where
  "dec_tc_mod_ctrl_payload_sch bs = do {
     (t, bs) \<leftarrow> get_u32 bs;
     if t = 0 then do { (x, bs) \<leftarrow> dec_tc_mod_ctrl_payload_sch_rr bs; Some (Mod_SCHED_RR x, bs) }
     else if t = 1 then do { (x, bs) \<leftarrow> dec_tc_mod_ctrl_payload_sch_prio bs;
                             Some (Mod_SCHED_PRIO x, bs) }
     else None
   }"

definition dec_tc_ctrl_payload_sch :: "u8 list \<Rightarrow> (tc_ctrl_sch_t \<times> u8 list) option" where
  "dec_tc_ctrl_payload_sch bs = do {
     (a, bs) \<leftarrow> get_u32 bs;
     if a = 0 then do { (x, bs) \<leftarrow> dec_tc_add_ctrl_payload_sch bs; Some (Sch_ADD x, bs) }
     else if a = 1 then do { (x, bs) \<leftarrow> dec_tc_del_ctrl_payload_sch bs; Some (Sch_DEL x, bs) }
     else if a = 2 then do { (x, bs) \<leftarrow> dec_tc_mod_ctrl_payload_sch bs; Some (Sch_MOD x, bs) }
     else None
   }"

subsection \<open>Shapers\<close>

definition dec_tc_add_ctrl_payload_shp :: "u8 list \<Rightarrow> (tc_add_ctrl_shp_t \<times> u8 list) option" where
  "dec_tc_add_ctrl_payload_shp bs = do {
     (d, bs) \<leftarrow> get_u32 bs; Some (\<lparr>add_shp_dummy = d\<rparr>, bs) }"

definition dec_tc_del_ctrl_payload_shp :: "u8 list \<Rightarrow> (tc_del_ctrl_shp_t \<times> u8 list) option" where
  "dec_tc_del_ctrl_payload_shp bs = do {
     (i, bs) \<leftarrow> get_u32 bs; Some (\<lparr>del_shp_id = i\<rparr>, bs) }"

definition dec_tc_mod_ctrl_payload_shp :: "u8 list \<Rightarrow> (tc_mod_ctrl_shp_t \<times> u8 list) option" where
  "dec_tc_mod_ctrl_payload_shp bs = do {
     (i, bs) \<leftarrow> get_u32 bs;
     (w, bs) \<leftarrow> get_u32 bs;
     (r, bs) \<leftarrow> get_u32 bs;
     (a, bs) \<leftarrow> get_u32 bs;
     Some (\<lparr>mod_shp_id = i, mod_shp_time_window_ms = w, mod_shp_max_rate_kbps = r,
            mod_shp_active = a\<rparr>, bs)
   }"

definition dec_tc_ctrl_payload_shp :: "u8 list \<Rightarrow> (tc_ctrl_shp_t \<times> u8 list) option" where
  "dec_tc_ctrl_payload_shp bs = do {
     (a, bs) \<leftarrow> get_u32 bs;
     if a = 0 then do { (x, bs) \<leftarrow> dec_tc_add_ctrl_payload_shp bs; Some (Shp_ADD x, bs) }
     else if a = 1 then do { (x, bs) \<leftarrow> dec_tc_del_ctrl_payload_shp bs; Some (Shp_DEL x, bs) }
     else if a = 2 then do { (x, bs) \<leftarrow> dec_tc_mod_ctrl_payload_shp bs; Some (Shp_MOD x, bs) }
     else None
   }"

subsection \<open>Pacers\<close>

definition dec_tc_add_ctrl_payload_pcr :: "u8 list \<Rightarrow> (tc_add_ctrl_pcr_t \<times> u8 list) option" where
  "dec_tc_add_ctrl_payload_pcr bs = do {
     (d, bs) \<leftarrow> get_u32 bs; Some (\<lparr>add_pcr_dummy = d\<rparr>, bs) }"

definition dec_tc_del_ctrl_payload_pcr :: "u8 list \<Rightarrow> (tc_del_ctrl_pcr_t \<times> u8 list) option" where
  "dec_tc_del_ctrl_payload_pcr bs = do {
     (d, bs) \<leftarrow> get_u32 bs; Some (\<lparr>del_pcr_dummy = d\<rparr>, bs) }"

definition dec_tc_mod_ctrl_payload_pcr_dummy :: "u8 list \<Rightarrow> (tc_pcr_dummy_t \<times> u8 list) option" where
  "dec_tc_mod_ctrl_payload_pcr_dummy bs = do {
     (d, bs) \<leftarrow> get_u32 bs; Some (\<lparr>pcr_dummy = d\<rparr>, bs) }"

definition dec_tc_mod_ctrl_payload_pcr_bdp :: "u8 list \<Rightarrow> (tc_pcr_5g_bdp_t \<times> u8 list) option" where
  "dec_tc_mod_ctrl_payload_pcr_bdp bs = do {
     (z, bs) \<leftarrow> get_u32 bs;
     (t, bs) \<leftarrow> get_u64 bs;
     Some (\<lparr>drb_sz = z, bdp_tstamp = t\<rparr>, bs)
   }"

definition dec_tc_mod_ctrl_payload_pcr :: "u8 list \<Rightarrow> (tc_mod_ctrl_pcr_t \<times> u8 list) option" where
  "dec_tc_mod_ctrl_payload_pcr bs = do {
     (t, bs) \<leftarrow> get_u32 bs;
     if t = 0 then do { (x, bs) \<leftarrow> dec_tc_mod_ctrl_payload_pcr_dummy bs; Some (Mod_PCR_DUMMY x, bs) }
     else if t = 1 then do { (x, bs) \<leftarrow> dec_tc_mod_ctrl_payload_pcr_bdp bs;
                             Some (Mod_PCR_5G_BDP x, bs) }
     else None
   }"

definition dec_tc_ctrl_payload_pcr :: "u8 list \<Rightarrow> (tc_ctrl_pcr_t \<times> u8 list) option" where
  "dec_tc_ctrl_payload_pcr bs = do {
     (a, bs) \<leftarrow> get_u32 bs;
     if a = 0 then do { (x, bs) \<leftarrow> dec_tc_add_ctrl_payload_pcr bs; Some (Pcr_ADD x, bs) }
     else if a = 1 then do { (x, bs) \<leftarrow> dec_tc_del_ctrl_payload_pcr bs; Some (Pcr_DEL x, bs) }
     else if a = 2 then do { (x, bs) \<leftarrow> dec_tc_mod_ctrl_payload_pcr bs; Some (Pcr_MOD x, bs) }
     else None
   }"

subsection \<open>The message\<close>

definition tc_dec_ctrl_msg_plain :: "u8 list \<Rightarrow> tc_ctrl_msg_t option" where
  "tc_dec_ctrl_msg_plain bs = do {
     assert_c (length bs > 0);
     (t, bs) \<leftarrow> get_u32 bs;
     (m, bs) \<leftarrow>
       (if t = 0 then do { (x, bs) \<leftarrow> dec_tc_ctrl_payload_cls bs; Some (TC_CTRL_SM_V0_CLS x, bs) }
        else if t = 1 then do { (x, bs) \<leftarrow> dec_tc_ctrl_payload_plc bs; Some (TC_CTRL_SM_V0_PLC x, bs) }
        else if t = 2 then do { (x, bs) \<leftarrow> dec_tc_ctrl_payload_q bs; Some (TC_CTRL_SM_V0_QUEUE x, bs) }
        else if t = 3 then do { (x, bs) \<leftarrow> dec_tc_ctrl_payload_sch bs; Some (TC_CTRL_SM_V0_SCH x, bs) }
        else if t = 4 then do { (x, bs) \<leftarrow> dec_tc_ctrl_payload_shp bs; Some (TC_CTRL_SM_V0_SHP x, bs) }
        else if t = 5 then do { (x, bs) \<leftarrow> dec_tc_ctrl_payload_pcr bs; Some (TC_CTRL_SM_V0_PCR x, bs) }
        else None);
     assert_c (bs = []);
     Some m
   }"

definition tc_dec_ctrl_out_plain :: "u8 list \<Rightarrow> tc_ctrl_out_t option" where
  "tc_dec_ctrl_out_plain bs = do {
     assert_c (length bs > 0);
     assert_c (length bs = 4);
     (t, _) \<leftarrow> get_u32 bs;
     Some \<lparr>ctrl_out = t\<rparr>
   }"

end
