(* ===== verification/Tc_Codec.thy ===== *)
theory Tc_Codec
  imports Tc_Dec Tc_Ctrl_Dec
begin

text \<open>
  The codec of the traffic-control service model as a whole: the encoders fill exactly the
  buffers they size, none of their assertions fails, and the decoders invert them up to the
  fields that are not transmitted.  The one exception is the command that adds an OSI
  classifier, which the encoder can never send.
\<close>

subsection \<open>The arrays of an indication\<close>

lemma cal_queues_payload_total:
  "length shp = n \<Longrightarrow> length plc = n \<Longrightarrow> length qs = n
    \<Longrightarrow> \<exists>sz. cal_queues_payload n shp plc qs = Some sz"
  by (induction n shp plc qs rule: cal_queues_payload.induct) (auto simp: Suc_length_conv)

lemma enc_queues_fits:
  "cal_queues_payload n shp plc qs = Some qsz \<Longrightarrow> pos + qsz < sz
    \<Longrightarrow> \<exists>bs. enc_queues n pos sz shp plc qs = Some bs \<and> length bs = qsz"
proof (induction n shp plc qs arbitrary: pos qsz rule: cal_queues_payload.induct)
  case (2 n s shp p plc x qs)
  from "2.prems" obtain r where r: "cal_queues_payload n shp plc qs = Some r"
    and qsz: "qsz = cal_q_payload x + cal_shp_payload s + cal_plc_payload p + r"
    by (auto simp: bind_Some_iff)
  let ?pos = "pos + length (tc_enc_shp s) + length (tc_enc_plc p) + length (tc_enc_q x)"
  have lt: "?pos + r < sz"
    using "2.prems"(2) qsz by (simp add: size_simps)
  then obtain bs where "enc_queues n ?pos sz shp plc qs = Some bs" "length bs = r"
    using "2.IH"[OF r] by blast
  with lt show ?case
    by (simp add: Let_def qsz size_simps)
qed auto

lemma dec_queues_enc:
  "enc_queues n pos sz shp plc qs = Some bs \<Longrightarrow> rest \<noteq> [] \<Longrightarrow> length shp = n
    \<Longrightarrow> length plc = n \<Longrightarrow> length qs = n
    \<Longrightarrow> dec_queues n (bs @ rest) = Some ((shp, plc, map erase_q_id qs), rest)"
proof (induction n pos sz shp plc qs arbitrary: bs rule: enc_queues.induct)
  case (2 n pos sz s shp p plc x qs)
  have ne: "tc_enc_plc p \<noteq> []" "tc_enc_q x \<noteq> []"
    using length_enc_plc[of p] length_enc_q[of x]
    by (auto simp: cal_plc_payload_def cal_q_payload_def)
  from "2.prems" obtain b where b: "enc_queues n (pos + length (tc_enc_shp s) +
      length (tc_enc_plc p) + length (tc_enc_q x)) sz shp plc qs = Some b"
    and bs: "bs = tc_enc_shp s @ tc_enc_plc p @ tc_enc_q x @ b"
    by (auto simp: Let_def bind_Some_iff split: if_splits)
  have "dec_queues n (b @ rest) = Some ((shp, plc, map erase_q_id qs), rest)"
    using "2.IH"[OF refl refl refl _ _ _ b] "2.prems" bs
    by (auto simp: Let_def split: if_splits)
  with ne "2.prems"(2) show ?case
    by (simp add: bs codec_simps)
qed auto

subsection \<open>The indication message\<close>

lemma tc_enc_ind_msg_fits:
  assumes "wf_ind_msg m"
  obtains b_q sz where
    "enc_queues (unat (len_q m)) (cal_sch_payload (ind_sch m) + cal_pcr_payload (ind_pcr m)
        + cal_cls_payload (ind_cls m) + 4) sz (ind_shp m) (ind_plc m) (ind_q m) = Some b_q"
    "cal_ind_msg_payload m = Some sz"
    "tc_enc_ind_msg_plain m = Some (tc_enc_sch (ind_sch m) @ tc_enc_pcr (ind_pcr m)
        @ tc_enc_cls (ind_cls m) @ put_u32 (len_q m) @ b_q @ put_u64 (ind_tstamp m))"
    "sz = cal_sch_payload (ind_sch m) + cal_pcr_payload (ind_pcr m)
        + cal_cls_payload (ind_cls m) + 4 + length b_q + 8"
proof -
  let ?pos = "cal_sch_payload (ind_sch m) + cal_pcr_payload (ind_pcr m)
    + cal_cls_payload (ind_cls m) + 4"
  from assms obtain q where
    q: "cal_queues_payload (unat (len_q m)) (ind_shp m) (ind_plc m) (ind_q m) = Some q"
    using cal_queues_payload_total unfolding wf_ind_msg_def by blast
  obtain b where
    b: "enc_queues (unat (len_q m)) ?pos (?pos + q + 8) (ind_shp m) (ind_plc m) (ind_q m) = Some b"
    "length b = q"
    using enc_queues_fits[OF q, of ?pos "?pos + q + 8"] by auto
  show ?thesis
    by (rule that[of "?pos + q + 8" b]) (use b q in \<open>simp_all add: cal_ind_msg_payload_def
        tc_enc_ind_msg_plain_def size_simps\<close>)
qed

text \<open>
  C6: for every indication whose three arrays have the length it declares, the encoder
  succeeds (no assertion of it fails), fills the buffer it sized to the byte, and the decoder
  returns the message, but for the round-robin placeholder and the queue identifiers.
\<close>
theorem tc_ind_msg_roundtrip:
  assumes "wf_ind_msg m"
  shows "\<exists>bs. tc_enc_ind_msg_plain m = Some bs
    \<and> cal_ind_msg_payload m = Some (length bs)
    \<and> tc_dec_ind_msg_plain bs = Some (wire_ind_msg m)"
proof -
  obtain b sz where b: "enc_queues (unat (len_q m)) (cal_sch_payload (ind_sch m)
        + cal_pcr_payload (ind_pcr m) + cal_cls_payload (ind_cls m) + 4) sz
        (ind_shp m) (ind_plc m) (ind_q m) = Some b"
    and sz: "cal_ind_msg_payload m = Some sz"
    and enc: "tc_enc_ind_msg_plain m = Some (tc_enc_sch (ind_sch m) @ tc_enc_pcr (ind_pcr m)
        @ tc_enc_cls (ind_cls m) @ put_u32 (len_q m) @ b @ put_u64 (ind_tstamp m))"
    and len: "sz = cal_sch_payload (ind_sch m) + cal_pcr_payload (ind_pcr m)
        + cal_cls_payload (ind_cls m) + 4 + length b + 8"
    by (rule tc_enc_ind_msg_fits[OF assms])
  have ne: "put_u64 (ind_tstamp m) \<noteq> []" "tc_enc_pcr (ind_pcr m) \<noteq> []"
      "put_u32 (len_q m) \<noteq> []" "tc_enc_cls (ind_cls m) \<noteq> []"
    by (cases "ind_cls m"; simp add: tc_enc_pcr_def)+
  have wf: "wf_sch (ind_sch m)" "wf_cls (ind_cls m)" "length (ind_shp m) = unat (len_q m)"
      "length (ind_plc m) = unat (len_q m)" "length (ind_q m) = unat (len_q m)"
    using assms by (simp_all add: wf_ind_msg_def)
  have "dec_queues (unat (len_q m)) (b @ put_u64 (ind_tstamp m))
      = Some ((ind_shp m, ind_plc m, map erase_q_id (ind_q m)), put_u64 (ind_tstamp m))"
    using dec_queues_enc[OF b ne(1)] wf by simp
  then have "tc_dec_ind_msg_plain (tc_enc_sch (ind_sch m) @ tc_enc_pcr (ind_pcr m)
        @ tc_enc_cls (ind_cls m) @ put_u32 (len_q m) @ b @ put_u64 (ind_tstamp m))
      = Some (wire_ind_msg m)"
    using ne wf by (simp add: tc_dec_ind_msg_plain_def codec_simps wire_ind_msg_def)
  with enc sz len show ?thesis by (simp add: size_simps)
qed

definition sample_ind :: tc_ind_msg_t where
  "sample_ind = \<lparr>ind_sch = TC_SCHED_PRIO \<lparr>q_prio = [7, 9]\<rparr>,
     ind_pcr = \<lparr>pcr_type = 1, pcr_id = 2, pcr_mtr = \<lparr>time_window_ms = 100, bnd_flt = 5\<rparr>\<rparr>,
     ind_cls = TC_CLS_RR \<lparr>cls_rr_dummy = 3\<rparr>, len_q = 1,
     ind_shp = [\<lparr>shp_id = 1, shp_active = 1, shp_max_rate_kbps = 500,
                 shp_mtr = \<lparr>time_window_ms = 10, bnd_flt = 6\<rparr>\<rparr>],
     ind_plc = [\<lparr>plc_id = 4, plc_mtr = \<lparr>time_window_ms = 10, bnd_flt = 6\<rparr>,
                 plc_drp = \<lparr>dropped_pkts = 8\<rparr>, plc_mrk = \<lparr>marked_pkts = 9\<rparr>,
                 plc_max_rate_kbps = 1000, plc_active = 0, plc_dst_id = 1, plc_dev_id = 2\<rparr>],
     ind_q = [\<lparr>q_id = 12, q_type = TC_QUEUE_CODEL
                 \<lparr>codel_bytes = 1, codel_pkts = 2, codel_bytes_fwd = 3, codel_pkts_fwd = 4,
                  codel_drp = \<lparr>dropped_pkts = 5\<rparr>, codel_avg_sojourn_time = 6,
                  codel_last_sojourn_time = 7\<rparr>\<rparr>],
     ind_tstamp = 99\<rparr>"

theorem tc_ind_msg_roundtrip_witness:
  "\<exists>bs. tc_enc_ind_msg_plain sample_ind = Some bs
    \<and> cal_ind_msg_payload sample_ind = Some (length bs)
    \<and> tc_dec_ind_msg_plain bs = Some (wire_ind_msg sample_ind)"
  by (rule tc_ind_msg_roundtrip) (simp add: wf_ind_msg_def sample_ind_def wf_sch_prio_def)

subsection \<open>Control messages\<close>

lemmas cal_ctrl_defs =
  cal_tc_add_ctrl_payload_cls_rr_def cal_tc_add_ctrl_payload_cls_osi_def
  cal_tc_add_ctrl_payload_cls_sto_def cal_tc_mod_ctrl_payload_cls_rr_def
  cal_tc_mod_ctrl_payload_cls_osi_def cal_tc_mod_ctrl_payload_cls_sto_def
  cal_tc_del_ctrl_payload_cls_rr_def cal_tc_del_ctrl_payload_cls_osi_def
  cal_tc_del_ctrl_payload_cls_sto_def cal_tc_add_ctrl_payload_plc_def
  cal_tc_mod_ctrl_payload_plc_def cal_tc_del_ctrl_payload_plc_def cal_tc_ctrl_payload_q_fifo_def
  cal_tc_ctrl_payload_q_codel_def cal_tc_ctrl_payload_q_ecn_codel_def
  cal_tc_ctrl_payload_q_add_def cal_tc_ctrl_payload_q_mod_def cal_tc_ctrl_payload_q_del_def
  cal_tc_ctrl_payload_sch_add_def cal_tc_ctrl_payload_sch_mod_rr_def
  cal_tc_ctrl_payload_sch_mod_prio_def cal_tc_ctrl_payload_sch_del_def
  cal_tc_ctrl_payload_shp_add_def cal_tc_ctrl_payload_shp_mod_def
  cal_tc_ctrl_payload_shp_del_def cal_tc_ctrl_payload_pcr_add_def
  cal_tc_ctrl_payload_pcr_mod_dummy_def cal_tc_ctrl_payload_pcr_mod_bdp_def
  cal_tc_ctrl_payload_pcr_del_def

lemmas enc_ctrl_defs =
  enc_tc_add_ctrl_payload_cls_rr_def enc_tc_add_ctrl_payload_cls_osi_def
  enc_tc_add_ctrl_payload_cls_sto_def enc_tc_mod_ctrl_payload_cls_rr_def
  enc_tc_mod_ctrl_payload_cls_osi_def enc_tc_mod_ctrl_payload_cls_sto_def
  enc_tc_del_ctrl_payload_cls_rr_def enc_tc_del_ctrl_payload_cls_osi_def
  enc_tc_del_ctrl_payload_cls_sto_def enc_tc_add_ctrl_payload_plc_def
  enc_tc_mod_ctrl_payload_plc_def enc_tc_del_ctrl_payload_plc_def enc_tc_ctrl_payload_q_fifo_def
  enc_tc_ctrl_payload_q_codel_def enc_tc_ctrl_payload_q_ecn_codel_def
  enc_tc_add_ctrl_payload_q_def enc_tc_mod_ctrl_payload_q_def enc_tc_del_ctrl_payload_q_def
  enc_tc_add_ctrl_payload_sch_def enc_tc_mod_ctrl_payload_sch_rr_def
  enc_tc_mod_ctrl_payload_sch_prio_def enc_tc_del_ctrl_payload_sch_def
  enc_tc_add_ctrl_payload_shp_def enc_tc_mod_ctrl_payload_shp_def
  enc_tc_del_ctrl_payload_shp_def enc_tc_add_ctrl_payload_pcr_def
  enc_tc_mod_ctrl_payload_pcr_dummy_def enc_tc_mod_ctrl_payload_pcr_bdp_def
  enc_tc_del_ctrl_payload_pcr_def

lemmas dec_ctrl_defs =
  dec_tc_add_ctrl_payload_cls_rr_def dec_tc_add_ctrl_payload_cls_osi_def
  dec_tc_add_ctrl_payload_cls_sto_def dec_tc_add_ctrl_payload_cls_def
  dec_tc_del_ctrl_payload_cls_rr_def dec_tc_del_ctrl_payload_cls_osi_def
  dec_tc_del_ctrl_payload_cls_sto_def dec_tc_del_ctrl_payload_cls_def
  dec_tc_mod_ctrl_payload_cls_rr_def dec_tc_mod_ctrl_payload_cls_osi_def
  dec_tc_mod_ctrl_payload_cls_sto_def dec_tc_mod_ctrl_payload_cls_def
  dec_tc_ctrl_payload_cls_def dec_tc_add_ctrl_payload_plc_def dec_tc_del_ctrl_payload_plc_def
  dec_tc_mod_ctrl_payload_plc_def dec_tc_ctrl_payload_plc_def dec_tc_ctrl_payload_q_fifo_def
  dec_tc_ctrl_payload_q_codel_def dec_tc_ctrl_payload_q_ecn_codel_def
  dec_tc_add_ctrl_payload_q_def dec_tc_del_ctrl_payload_q_def dec_tc_mod_ctrl_payload_q_def
  dec_tc_ctrl_payload_q_def dec_tc_add_ctrl_payload_sch_def dec_tc_del_ctrl_payload_sch_def
  dec_tc_mod_ctrl_payload_sch_rr_def dec_tc_mod_ctrl_payload_sch_prio_def
  dec_tc_mod_ctrl_payload_sch_def dec_tc_ctrl_payload_sch_def dec_tc_add_ctrl_payload_shp_def
  dec_tc_del_ctrl_payload_shp_def dec_tc_mod_ctrl_payload_shp_def dec_tc_ctrl_payload_shp_def
  dec_tc_add_ctrl_payload_pcr_def dec_tc_del_ctrl_payload_pcr_def
  dec_tc_mod_ctrl_payload_pcr_dummy_def dec_tc_mod_ctrl_payload_pcr_bdp_def
  dec_tc_mod_ctrl_payload_pcr_def dec_tc_ctrl_payload_pcr_def

fun adds_osi :: "tc_ctrl_msg_t \<Rightarrow> bool" where
  "adds_osi (TC_CTRL_SM_V0_CLS (Cls_ADD (Add_CLS_OSI _))) = True"
| "adds_osi _ = False"

lemma length_ctrl_cls [size_simps]:
  "\<not> adds_osi (TC_CTRL_SM_V0_CLS x)
    \<Longrightarrow> length (enc_tc_ctrl_payload_cls x) = cal_tc_ctrl_payload_cls x"
proof (cases x)
  case (Cls_ADD y)
  then show "\<not> adds_osi (TC_CTRL_SM_V0_CLS x) \<Longrightarrow> ?thesis"
    by (cases y) (simp_all add: enc_ctrl_defs cal_ctrl_defs)
next
  case (Cls_MOD y)
  then show ?thesis
    by (cases y) (simp_all add: enc_ctrl_defs cal_ctrl_defs size_simps)
next
  case (Cls_DEL y)
  then show ?thesis
    by (cases y) (simp_all add: enc_ctrl_defs cal_ctrl_defs)
qed

lemma length_ctrl_plc [size_simps]:
  "length (enc_tc_ctrl_payload_plc x) = cal_tc_ctrl_payload_plc x"
  by (cases x) (simp_all add: enc_ctrl_defs cal_ctrl_defs)

lemma length_ctrl_q [size_simps]:
  "length (enc_tc_ctrl_payload_q x) = cal_tc_ctrl_payload_q x"
  by (cases x) (simp_all add: enc_ctrl_defs cal_ctrl_defs split: tc_ctrl_queue_u.split)

lemma length_ctrl_sch_mod [size_simps]:
  "length (enc_tc_mod_ctrl_payload_sch x) = cal_tc_ctrl_payload_sch_mod x"
  by (cases x) (simp_all add: enc_ctrl_defs cal_ctrl_defs length_concat_const[of _ 4])

lemma length_ctrl_sch [size_simps]:
  "length (enc_tc_ctrl_payload_sch x) = cal_tc_ctrl_payload_sch x"
  by (cases x) (simp_all add: enc_ctrl_defs cal_ctrl_defs size_simps)

lemma length_ctrl_shp [size_simps]:
  "length (enc_tc_ctrl_payload_shp x) = cal_tc_ctrl_payload_shp x"
  by (cases x) (simp_all add: enc_ctrl_defs cal_ctrl_defs)

lemma length_ctrl_pcr_mod [size_simps]:
  "length (enc_tc_mod_ctrl_payload_pcr x) = cal_tc_ctrl_payload_pcr_mod x"
  by (cases x) (simp_all add: enc_ctrl_defs cal_ctrl_defs)

lemma length_ctrl_pcr [size_simps]:
  "length (enc_tc_ctrl_payload_pcr x) = cal_tc_ctrl_payload_pcr x"
  by (cases x) (simp_all add: enc_ctrl_defs cal_ctrl_defs size_simps)

lemma length_ctrl_msg_bytes:
  "\<not> adds_osi m \<Longrightarrow> length (ctrl_msg_bytes m) = cal_tc_ctrl_payload m"
  by (cases m) (simp_all add: size_simps)

lemma dec_ctrl_cls_enc [codec_simps]:
  "\<not> adds_osi (TC_CTRL_SM_V0_CLS x)
    \<Longrightarrow> dec_tc_ctrl_payload_cls (enc_tc_ctrl_payload_cls x @ rest) = Some (x, rest)"
proof (cases x)
  case (Cls_ADD y)
  then show "\<not> adds_osi (TC_CTRL_SM_V0_CLS x) \<Longrightarrow> ?thesis"
    by (cases y) (simp_all add: enc_ctrl_defs dec_ctrl_defs)
next
  case (Cls_MOD y)
  then show ?thesis
    by (cases y) (simp_all add: enc_ctrl_defs dec_ctrl_defs codec_simps)
next
  case (Cls_DEL y)
  then show ?thesis
    by (cases y) (simp_all add: enc_ctrl_defs dec_ctrl_defs)
qed

lemma dec_ctrl_plc_enc [codec_simps]:
  "dec_tc_ctrl_payload_plc (enc_tc_ctrl_payload_plc x @ rest) = Some (x, rest)"
  by (cases x) (simp_all add: enc_ctrl_defs dec_ctrl_defs)

lemma dec_ctrl_q_add_enc [codec_simps]:
  "dec_tc_add_ctrl_payload_q (enc_tc_add_ctrl_payload_q x @ rest) = Some (x, rest)"
  by (cases x) (simp add: enc_ctrl_defs dec_ctrl_defs split: tc_ctrl_queue_u.split)

lemma dec_ctrl_q_mod_enc [codec_simps]:
  "dec_tc_mod_ctrl_payload_q (enc_tc_mod_ctrl_payload_q x @ rest) = Some (x, rest)"
  by (cases x) (simp add: enc_ctrl_defs dec_ctrl_defs split: tc_ctrl_queue_u.split)

lemma dec_ctrl_q_del_enc [codec_simps]:
  "dec_tc_del_ctrl_payload_q (enc_tc_del_ctrl_payload_q x @ rest) = Some (x, rest)"
  by (simp add: enc_ctrl_defs dec_ctrl_defs)

lemma dec_ctrl_q_enc [codec_simps]:
  "dec_tc_ctrl_payload_q (enc_tc_ctrl_payload_q x @ rest) = Some (x, rest)"
  by (cases x) (simp_all add: dec_tc_ctrl_payload_q_def codec_simps)

lemma dec_ctrl_sch_mod_enc [codec_simps]:
  "wf_ctrl_msg (TC_CTRL_SM_V0_SCH (Sch_MOD x)) \<Longrightarrow>
    dec_tc_mod_ctrl_payload_sch (enc_tc_mod_ctrl_payload_sch x @ rest) = Some (x, rest)"
  by (cases x) (simp_all add: enc_ctrl_defs dec_ctrl_defs wf_sch_prio_def unat_of_nat_len32
      dec_n_map)

lemma dec_ctrl_sch_enc [codec_simps]:
  "wf_ctrl_msg (TC_CTRL_SM_V0_SCH x) \<Longrightarrow>
    dec_tc_ctrl_payload_sch (enc_tc_ctrl_payload_sch x @ rest) = Some (x, rest)"
  by (cases x) (simp_all add: dec_tc_ctrl_payload_sch_def dec_ctrl_sch_mod_enc
      enc_tc_add_ctrl_payload_sch_def dec_tc_add_ctrl_payload_sch_def
      enc_tc_del_ctrl_payload_sch_def dec_tc_del_ctrl_payload_sch_def)

lemma dec_ctrl_shp_enc [codec_simps]:
  "dec_tc_ctrl_payload_shp (enc_tc_ctrl_payload_shp x @ rest) = Some (x, rest)"
  by (cases x) (simp_all add: enc_ctrl_defs dec_ctrl_defs)

lemma dec_ctrl_pcr_mod_enc [codec_simps]:
  "dec_tc_mod_ctrl_payload_pcr (enc_tc_mod_ctrl_payload_pcr x @ rest) = Some (x, rest)"
  by (cases x) (simp_all add: enc_ctrl_defs dec_ctrl_defs)

lemma dec_ctrl_pcr_enc [codec_simps]:
  "dec_tc_ctrl_payload_pcr (enc_tc_ctrl_payload_pcr x @ rest) = Some (x, rest)"
  by (cases x) (simp_all add: dec_tc_ctrl_payload_pcr_def dec_ctrl_pcr_mod_enc
      enc_tc_add_ctrl_payload_pcr_def dec_tc_add_ctrl_payload_pcr_def
      enc_tc_del_ctrl_payload_pcr_def dec_tc_del_ctrl_payload_pcr_def)

lemma dec_ctrl_msg_bytes:
  "wf_ctrl_msg m \<Longrightarrow> \<not> adds_osi m \<Longrightarrow> tc_dec_ctrl_msg_plain (ctrl_msg_bytes m) = Some m"
  by (cases m) (simp_all add: tc_dec_ctrl_msg_plain_def
      dec_ctrl_cls_enc[where rest = "[]", simplified]
      dec_ctrl_plc_enc[where rest = "[]", simplified]
      dec_ctrl_q_enc[where rest = "[]", simplified]
      dec_ctrl_sch_enc[where rest = "[]", simplified]
      dec_ctrl_shp_enc[where rest = "[]", simplified]
      dec_ctrl_pcr_enc[where rest = "[]", simplified])

text \<open>
  C12: every control message, the one that adds an OSI classifier excepted, is encoded into
  exactly the buffer its size function computes, without a failed assertion, and decoded back
  to itself.
\<close>
theorem tc_ctrl_msg_roundtrip:
  assumes "wf_ctrl_msg m" and "\<not> adds_osi m"
  shows "\<exists>bs. tc_enc_ctrl_msg_plain m = Some bs \<and> length bs = cal_tc_ctrl_payload m
    \<and> tc_dec_ctrl_msg_plain bs = Some m"
  using assms by (simp add: tc_enc_ctrl_msg_plain_def length_ctrl_msg_bytes dec_ctrl_msg_bytes)

theorem tc_ctrl_msg_roundtrip_witness:
  "\<exists>bs. tc_enc_ctrl_msg_plain (TC_CTRL_SM_V0_SCH (Sch_MOD (Mod_SCHED_PRIO \<lparr>q_prio = [3, 1, 2]\<rparr>)))
      = Some bs
    \<and> length bs = cal_tc_ctrl_payload
        (TC_CTRL_SM_V0_SCH (Sch_MOD (Mod_SCHED_PRIO \<lparr>q_prio = [3, 1, 2]\<rparr>)))
    \<and> tc_dec_ctrl_msg_plain bs
      = Some (TC_CTRL_SM_V0_SCH (Sch_MOD (Mod_SCHED_PRIO \<lparr>q_prio = [3, 1, 2]\<rparr>)))"
  by (rule tc_ctrl_msg_roundtrip) (simp_all add: wf_sch_prio_def)

text \<open>
  the encoder cannot send the command that adds an OSI classifier.  Its size function counts
  the layer-7 filter, its writer does not write it, and the final assertion aborts the process
  on every such message.
\<close>
theorem tc_ctrl_add_osi_aborts:
  "tc_enc_ctrl_msg_plain (TC_CTRL_SM_V0_CLS (Cls_ADD (Add_CLS_OSI x))) = None
   \<and> cal_tc_ctrl_payload (TC_CTRL_SM_V0_CLS (Cls_ADD (Add_CLS_OSI x)))
     = length (ctrl_msg_bytes (TC_CTRL_SM_V0_CLS (Cls_ADD (Add_CLS_OSI x)))) + 4"
  by (simp add: tc_enc_ctrl_msg_plain_def enc_ctrl_defs cal_ctrl_defs)

end
