(* ===== verification/Slice_Types.thy ===== *)
theory Slice_Types
  imports Prelude
begin

text \<open>
  The data of the slicing service model, \<^verbatim>\<open>src/src/flexric/src/sm/slice_sm/ie/slice_data_ie.h\<close>.
  Structs are records, a struct of an enum tag and a union is a datatype, a counted array is a
  list.  A string is a length and a pointer, which may be null and whose block may be longer than
  the length (the decoder adds a terminator): the pointer is the block from there on, if any.  A
  \<^verbatim>\<open>float\<close> is its 32-bit image.
\<close>

subsection \<open>Strings\<close>

type_synonym mem = "u8 list option"

text \<open>The \<open>n\<close> bytes at a pointer; reading outside of the block is \<^term>\<open>None\<close>.\<close>

definition mem_read :: "mem \<Rightarrow> nat \<Rightarrow> u8 list option" where
  "mem_read p n = (case p of
     None \<Rightarrow> if n = 0 then Some [] else None
   | Some bs \<Rightarrow> if n \<le> length bs then Some (take n bs) else None)"

lemma mem_read_length: "mem_read p n = Some bs \<Longrightarrow> length bs = n"
  by (auto simp: mem_read_def split: option.splits if_splits)

subsection \<open>Slices\<close>

record static_slice_t =
  pos_low :: u32
  pos_high :: u32

record nvs_rate_t =
  mbps_required :: u32
  mbps_reference :: u32

record nvs_capacity_t =
  pct_reserved :: u32

datatype nvs_slice_t =
    SLICE_SM_NVS_V0_RATE nvs_rate_t
  | SLICE_SM_NVS_V0_CAPACITY nvs_capacity_t

record scn19_on_demand_t =
  od_pct_reserved :: u32
  od_log_delta :: u32
  od_tau :: u32

datatype scn19_slice_t =
    SLICE_SCN19_SM_V0_DYNAMIC nvs_rate_t
  | SLICE_SCN19_SM_V0_FIXED static_slice_t
  | SLICE_SCN19_SM_V0_ON_DEMAND scn19_on_demand_t

record edf_slice_t =
  deadline :: u32
  guaranteed_prbs :: u32
  max_replenish :: u32
  edf_over :: "u32 list"

datatype slice_params_t =
    SLICE_ALG_SM_V0_NONE
  | SLICE_ALG_SM_V0_STATIC static_slice_t
  | SLICE_ALG_SM_V0_NVS nvs_slice_t
  | SLICE_ALG_SM_V0_SCN19 scn19_slice_t
  | SLICE_ALG_SM_V0_EDF edf_slice_t

record fr_slice_t =
  fr_id :: u32
  len_label :: u32
  fr_label :: mem
  len_sched :: u32
  fr_sched :: mem
  fr_params :: slice_params_t

record ul_dl_slice_conf_t =
  ud_slices :: "fr_slice_t list"
  len_sched_name :: u32
  ud_sched_name :: mem

record slice_conf_t =
  sc_dl :: ul_dl_slice_conf_t
  sc_ul :: ul_dl_slice_conf_t

record ue_slice_assoc_t =
  dl_id :: u32
  ul_id :: u32
  assoc_rnti :: u16

record ue_slice_conf_t =
  ue_ues :: "ue_slice_assoc_t list"

record slice_ind_msg_t =
  si_slice_conf :: slice_conf_t
  si_ue_slice_conf :: ue_slice_conf_t
  si_tstamp :: u64

subsection \<open>Control\<close>

record del_slice_conf_t =
  del_dl :: "u32 list"
  del_ul :: "u32 list"

datatype slice_ctrl_msg_t =
    SLICE_CTRL_SM_V0_ADD slice_conf_t
  | SLICE_CTRL_SM_V0_DEL del_slice_conf_t
  | SLICE_CTRL_SM_V0_UE_SLICE_ASSOC ue_slice_conf_t

datatype slice_ctrl_out_e = SLICE_CTRL_OUT_OK | SLICE_CTRL_OUT_ERROR

record slice_ctrl_out_t =
  out_ans :: slice_ctrl_out_e
  len_diag :: u32
  out_diagnostic :: mem

record slice_event_trigger_t = slice_ms :: u32
record slice_ind_hdr_t = slice_ind_dummy :: u32
record slice_ctrl_hdr_t = slice_ctrl_dummy :: u32
record slice_func_def_t = supported_alg :: "u32 list"

end
