(* ===== verification/Slice_Enc.thy ===== *)
theory Slice_Enc
  imports Slice_Types
begin

text \<open>
  The plain encoder of the slicing service model,
  \<^verbatim>\<open>src/src/flexric/src/sm/slice_sm/enc/slice_enc_plain.c\<close>: the size functions \<^verbatim>\<open>cal_*\<close>, the writers
  \<^verbatim>\<open>fill_*\<close>, and the functions that allocate the buffer.  The model of a writer is the list of the
  bytes it writes.  Some writers assert \<^verbatim>\<open>it < end\<close>: \<open>room\<close> is the number of bytes from \<^verbatim>\<open>it\<close> to
  \<^verbatim>\<open>end\<close>, zero beyond.
\<close>

definition slice_enc_event_trigger_plain :: "slice_event_trigger_t \<Rightarrow> u8 list" where
  "slice_enc_event_trigger_plain ev = put_u32 (slice_ms ev)"

definition slice_enc_ind_hdr_plain :: "slice_ind_hdr_t \<Rightarrow> u8 list" where
  "slice_enc_ind_hdr_plain h = put_u32 (slice_ind_dummy h)"

subsection \<open>Sizes\<close>

definition cal_static :: "static_slice_t \<Rightarrow> nat" where
  "cal_static sta = 4 + 4"

fun cal_nvs :: "nvs_slice_t \<Rightarrow> nat" where
  "cal_nvs (SLICE_SM_NVS_V0_RATE r) = 4 + 4 + 4"
| "cal_nvs (SLICE_SM_NVS_V0_CAPACITY c) = 4 + 4"

fun cal_scn19 :: "scn19_slice_t \<Rightarrow> nat" where
  "cal_scn19 (SLICE_SCN19_SM_V0_DYNAMIC r) = 4 + 4 + 4"
| "cal_scn19 (SLICE_SCN19_SM_V0_FIXED s) = 4 + 4 + 4"
| "cal_scn19 (SLICE_SCN19_SM_V0_ON_DEMAND d) = 4 + 4 + 4 + 4"

definition cal_edf :: "edf_slice_t \<Rightarrow> nat" where
  "cal_edf edf = 4 + 4 + 4 + 4 + 4 * length (edf_over edf)"

fun cal_params :: "slice_params_t \<Rightarrow> nat option" where
  "cal_params (SLICE_ALG_SM_V0_STATIC s) = Some (4 + cal_static s)"
| "cal_params (SLICE_ALG_SM_V0_NVS n) = Some (4 + cal_nvs n)"
| "cal_params (SLICE_ALG_SM_V0_SCN19 s) = Some (4 + cal_scn19 s)"
| "cal_params (SLICE_ALG_SM_V0_EDF e) = Some (4 + cal_edf e)"
| "cal_params SLICE_ALG_SM_V0_NONE = None"

fun cal_slc :: "fr_slice_t list \<Rightarrow> nat option" where
  "cal_slc [] = Some 0"
| "cal_slc (s # ss) = do {
     sz_par \<leftarrow> cal_params (fr_params s);
     total \<leftarrow> cal_slc ss;
     Some (4 + 4 + unat (len_label s) + 4 + unat (len_sched s) + sz_par + total)
   }"

definition cal_ul_dl :: "ul_dl_slice_conf_t \<Rightarrow> nat option" where
  "cal_ul_dl slc = do {
     sz_slice \<leftarrow> cal_slc (ud_slices slc);
     Some (4 + unat (len_sched_name slc) + 4 + sz_slice)
   }"

definition cal_slice_conf :: "slice_conf_t \<Rightarrow> nat option" where
  "cal_slice_conf slc = do {
     ul \<leftarrow> cal_ul_dl (sc_ul slc);
     dl \<leftarrow> cal_ul_dl (sc_dl slc);
     Some (ul + dl)
   }"

definition cal_ue_slice_assoc :: "ue_slice_assoc_t \<Rightarrow> nat" where
  "cal_ue_slice_assoc a = 4 + 4 + 2"

definition cal_ue_slice_conf :: "ue_slice_conf_t \<Rightarrow> nat" where
  "cal_ue_slice_conf slc = 4 + sum_list (map cal_ue_slice_assoc (ue_ues slc))"

definition cal_slice_ind_msg_payload :: "slice_ind_msg_t \<Rightarrow> nat option" where
  "cal_slice_ind_msg_payload m = do {
     sz_conf \<leftarrow> cal_slice_conf (si_slice_conf m);
     Some (sz_conf + cal_ue_slice_conf (si_ue_slice_conf m) + 8)
   }"

subsection \<open>Writing slices\<close>

definition enc_static :: "nat \<Rightarrow> static_slice_t \<Rightarrow> u8 list option" where
  "enc_static room sta = do {
     assert_c (0 < room);
     Some (put_u32 (pos_high sta) @ put_u32 (pos_low sta))
   }"

definition enc_rate :: "nvs_rate_t \<Rightarrow> u8 list" where
  "enc_rate nvs = put_u32 (mbps_reference nvs) @ put_u32 (mbps_required nvs)"

definition enc_capacity :: "nvs_capacity_t \<Rightarrow> u8 list" where
  "enc_capacity nvs = put_u32 (pct_reserved nvs)"

fun enc_nvs :: "nvs_slice_t \<Rightarrow> u8 list" where
  "enc_nvs (SLICE_SM_NVS_V0_RATE r) = put_u32 0 @ enc_rate r"
| "enc_nvs (SLICE_SM_NVS_V0_CAPACITY c) = put_u32 1 @ enc_capacity c"

definition enc_on_demand :: "scn19_on_demand_t \<Rightarrow> u8 list" where
  "enc_on_demand d = put_u32 (od_log_delta d) @ put_u32 (od_pct_reserved d) @ put_u32 (od_tau d)"

fun enc_scn19 :: "nat \<Rightarrow> scn19_slice_t \<Rightarrow> u8 list option" where
  "enc_scn19 room (SLICE_SCN19_SM_V0_DYNAMIC r) = Some (put_u32 0 @ enc_rate r)"
| "enc_scn19 room (SLICE_SCN19_SM_V0_FIXED s) = do {
     b \<leftarrow> enc_static (room - 4) s;
     Some (put_u32 1 @ b)
   }"
| "enc_scn19 room (SLICE_SCN19_SM_V0_ON_DEMAND d) = Some (put_u32 2 @ enc_on_demand d)"

definition enc_edf :: "edf_slice_t \<Rightarrow> u8 list" where
  "enc_edf e = put_u32 (deadline e) @ put_u32 (guaranteed_prbs e) @ put_u32 (max_replenish e)
     @ put_u32 (of_nat (length (edf_over e))) @ concat (map put_u32 (edf_over e))"

fun enc_params :: "nat \<Rightarrow> slice_params_t \<Rightarrow> u8 list option" where
  "enc_params room (SLICE_ALG_SM_V0_STATIC s) = do {
     b \<leftarrow> enc_static (room - 4) s;
     Some (put_u32 1 @ b)
   }"
| "enc_params room (SLICE_ALG_SM_V0_NVS n) = Some (put_u32 2 @ enc_nvs n)"
| "enc_params room (SLICE_ALG_SM_V0_SCN19 s) = do {
     b \<leftarrow> enc_scn19 (room - 4) s;
     Some (put_u32 3 @ b)
   }"
| "enc_params room (SLICE_ALG_SM_V0_EDF e) = Some (put_u32 4 @ enc_edf e)"
| "enc_params room SLICE_ALG_SM_V0_NONE = None"

definition enc_slice :: "nat \<Rightarrow> fr_slice_t \<Rightarrow> u8 list option" where
  "enc_slice room s = do {
     assert_c (0 < room);
     lbl \<leftarrow> mem_read (fr_label s) (unat (len_label s));
     sch \<leftarrow> mem_read (fr_sched s) (unat (len_sched s));
     let b = put_u32 (fr_id s) @ put_u32 (len_label s) @ lbl @ put_u32 (len_sched s) @ sch;
     p \<leftarrow> enc_params (room - length b) (fr_params s);
     Some (b @ p)
   }"

fun enc_slices :: "nat \<Rightarrow> fr_slice_t list \<Rightarrow> u8 list option" where
  "enc_slices room [] = Some []"
| "enc_slices room (s # ss) = do {
     b \<leftarrow> enc_slice room s;
     bs \<leftarrow> enc_slices (room - length b) ss;
     Some (b @ bs)
   }"

definition enc_ul_dl_slice_conf :: "nat \<Rightarrow> ul_dl_slice_conf_t \<Rightarrow> u8 list option" where
  "enc_ul_dl_slice_conf room c = do {
     nm \<leftarrow> mem_read (ud_sched_name c) (unat (len_sched_name c));
     let b = put_u32 (len_sched_name c) @ nm @ put_u32 (of_nat (length (ud_slices c)));
     bs \<leftarrow> enc_slices (room - length b) (ud_slices c);
     Some (b @ bs)
   }"

definition enc_slice_conf :: "nat \<Rightarrow> slice_conf_t \<Rightarrow> u8 list option" where
  "enc_slice_conf room c = do {
     dl \<leftarrow> enc_ul_dl_slice_conf room (sc_dl c);
     ul \<leftarrow> enc_ul_dl_slice_conf (room - length dl) (sc_ul c);
     Some (dl @ ul)
   }"

subsection \<open>Writing the associations of the users\<close>

definition enc_ue_slice_assoc :: "nat \<Rightarrow> ue_slice_assoc_t \<Rightarrow> u8 list option" where
  "enc_ue_slice_assoc room a = do {
     assert_c (0 < room);
     Some (put_u32 (dl_id a) @ put_u32 (ul_id a) @ put_le 2 (assoc_rnti a))
   }"

fun enc_ues :: "nat \<Rightarrow> ue_slice_assoc_t list \<Rightarrow> u8 list option" where
  "enc_ues room [] = Some []"
| "enc_ues room (a # as) = do {
     b \<leftarrow> enc_ue_slice_assoc room a;
     bs \<leftarrow> enc_ues (room - length b) as;
     Some (b @ bs)
   }"

definition enc_ue_slice_conf :: "nat \<Rightarrow> ue_slice_conf_t \<Rightarrow> u8 list option" where
  "enc_ue_slice_conf room c = do {
     bs \<leftarrow> enc_ues (room - 4) (ue_ues c);
     Some (put_u32 (of_nat (length (ue_ues c))) @ bs)
   }"

subsection \<open>Messages\<close>

definition slice_enc_ind_msg_plain :: "slice_ind_msg_t \<Rightarrow> u8 list option" where
  "slice_enc_ind_msg_plain m = do {
     sz \<leftarrow> cal_slice_ind_msg_payload m;
     b1 \<leftarrow> enc_slice_conf sz (si_slice_conf m);
     b2 \<leftarrow> enc_ue_slice_conf (sz - length b1) (si_ue_slice_conf m);
     let b = b1 @ b2 @ put_u64 (si_tstamp m);
     assert_c (length b = sz);
     Some b
   }"

definition slice_enc_ctrl_hdr_plain :: "slice_ctrl_hdr_t \<Rightarrow> u8 list" where
  "slice_enc_ctrl_hdr_plain h = put_u32 (slice_ctrl_dummy h)"

definition cal_del_slice :: "del_slice_conf_t \<Rightarrow> nat" where
  "cal_del_slice del = 4 + length (del_dl del) * 4 + 4 + length (del_ul del) * 4"

fun cal_slice_ctrl_msg_payload :: "slice_ctrl_msg_t \<Rightarrow> nat option" where
  "cal_slice_ctrl_msg_payload (SLICE_CTRL_SM_V0_ADD c) = do { sz \<leftarrow> cal_slice_conf c; Some (4 + sz) }"
| "cal_slice_ctrl_msg_payload (SLICE_CTRL_SM_V0_DEL d) = Some (4 + cal_del_slice d)"
| "cal_slice_ctrl_msg_payload (SLICE_CTRL_SM_V0_UE_SLICE_ASSOC u) = Some (4 + cal_ue_slice_conf u)"

definition enc_del_slice_conf :: "del_slice_conf_t \<Rightarrow> u8 list" where
  "enc_del_slice_conf d = put_u32 (of_nat (length (del_dl d))) @ concat (map put_u32 (del_dl d))
     @ put_u32 (of_nat (length (del_ul d))) @ concat (map put_u32 (del_ul d))"

fun enc_slice_ctrl_msg :: "nat \<Rightarrow> slice_ctrl_msg_t \<Rightarrow> u8 list option" where
  "enc_slice_ctrl_msg room (SLICE_CTRL_SM_V0_ADD c) = do {
     b \<leftarrow> enc_slice_conf (room - 4) c;
     Some (put_u32 0 @ b)
   }"
| "enc_slice_ctrl_msg room (SLICE_CTRL_SM_V0_DEL d) = Some (put_u32 1 @ enc_del_slice_conf d)"
| "enc_slice_ctrl_msg room (SLICE_CTRL_SM_V0_UE_SLICE_ASSOC u) = do {
     b \<leftarrow> enc_ue_slice_conf (room - 4) u;
     Some (put_u32 2 @ b)
   }"

definition slice_enc_ctrl_msg_plain :: "slice_ctrl_msg_t \<Rightarrow> u8 list option" where
  "slice_enc_ctrl_msg_plain m = do {
     sz \<leftarrow> cal_slice_ctrl_msg_payload m;
     b \<leftarrow> enc_slice_ctrl_msg sz m;
     assert_c (length b = sz);
     Some b
   }"

text \<open>The answer itself is not written.\<close>

definition slice_enc_ctrl_out_plain :: "slice_ctrl_out_t \<Rightarrow> u8 list option" where
  "slice_enc_ctrl_out_plain c = do {
     d \<leftarrow> mem_read (out_diagnostic c) (unat (len_diag c));
     let b = put_u32 (len_diag c) @ d;
     assert_c (length b = 4 + unat (len_diag c));
     Some b
   }"

end
