(* ===== verification/Slice_Dec.thy ===== *)
theory Slice_Dec
  imports Slice_Types
begin

text \<open>
  The plain decoder of the slicing service model,
  \<^verbatim>\<open>src/src/flexric/src/sm/slice_sm/dec/slice_dec_plain.c\<close>.  A reader takes the bytes from \<^verbatim>\<open>it\<close> to the
  end of the message and returns what it read with the bytes left; no reader looks at the length,
  and a read past the end, undefined in C, is \<^term>\<open>None\<close>, like an unknown tag.
\<close>

text \<open>
  A string of \<open>n\<close> bytes: no block when it is empty, else one with a terminator.  The size of the block
  is a 32-bit sum, zero for a string of 2^32 - 1 bytes, which then overflows it.
\<close>

definition get_str :: "u32 \<Rightarrow> u8 list \<Rightarrow> (mem \<times> u8 list) option" where
  "get_str n bs = (if n = 0 then Some (None, bs)
     else do {
       let block = replicate (unat (n + 1)) 0;
       block \<leftarrow> blit block 0 bs 0 (unat n);
       Some (Some block, drop (unat n) bs)
     })"

definition slice_dec_event_trigger_plain :: "u8 list \<Rightarrow> slice_event_trigger_t option" where
  "slice_dec_event_trigger_plain bs = do { (ms, bs) \<leftarrow> get_u32 bs; Some \<lparr>slice_ms = ms\<rparr> }"

definition slice_dec_ind_hdr_plain :: "u8 list \<Rightarrow> slice_ind_hdr_t option" where
  "slice_dec_ind_hdr_plain bs = do {
     assert_c (length bs = 4);
     (d, bs) \<leftarrow> get_u32 bs;
     Some \<lparr>slice_ind_dummy = d\<rparr>
   }"

definition dec_static :: "u8 list \<Rightarrow> (static_slice_t \<times> u8 list) option" where
  "dec_static bs = do {
     (h, bs) \<leftarrow> get_u32 bs;
     (l, bs) \<leftarrow> get_u32 bs;
     Some (\<lparr>pos_low = l, pos_high = h\<rparr>, bs)
   }"

definition dec_rate :: "u8 list \<Rightarrow> (nvs_rate_t \<times> u8 list) option" where
  "dec_rate bs = do {
     (r, bs) \<leftarrow> get_u32 bs;
     (q, bs) \<leftarrow> get_u32 bs;
     Some (\<lparr>mbps_required = q, mbps_reference = r\<rparr>, bs)
   }"

definition dec_capacity :: "u8 list \<Rightarrow> (nvs_capacity_t \<times> u8 list) option" where
  "dec_capacity bs = do { (p, bs) \<leftarrow> get_u32 bs; Some (\<lparr>pct_reserved = p\<rparr>, bs) }"

definition dec_nvs :: "u8 list \<Rightarrow> (nvs_slice_t \<times> u8 list) option" where
  "dec_nvs bs = do {
     (conf, bs) \<leftarrow> get_u32 bs;
     if conf = 0 then do { (r, bs) \<leftarrow> dec_rate bs; Some (SLICE_SM_NVS_V0_RATE r, bs) }
     else if conf = 1 then do { (c, bs) \<leftarrow> dec_capacity bs; Some (SLICE_SM_NVS_V0_CAPACITY c, bs) }
     else None
   }"

definition dec_on_demand :: "u8 list \<Rightarrow> (scn19_on_demand_t \<times> u8 list) option" where
  "dec_on_demand bs = do {
     (l, bs) \<leftarrow> get_u32 bs;
     (p, bs) \<leftarrow> get_u32 bs;
     (t, bs) \<leftarrow> get_u32 bs;
     Some (\<lparr>od_pct_reserved = p, od_log_delta = l, od_tau = t\<rparr>, bs)
   }"

definition dec_scn19 :: "u8 list \<Rightarrow> (scn19_slice_t \<times> u8 list) option" where
  "dec_scn19 bs = do {
     (conf, bs) \<leftarrow> get_u32 bs;
     if conf = 0 then do { (r, bs) \<leftarrow> dec_rate bs; Some (SLICE_SCN19_SM_V0_DYNAMIC r, bs) }
     else if conf = 1 then do { (s, bs) \<leftarrow> dec_static bs; Some (SLICE_SCN19_SM_V0_FIXED s, bs) }
     else if conf = 2 then do { (d, bs) \<leftarrow> dec_on_demand bs; Some (SLICE_SCN19_SM_V0_ON_DEMAND d, bs) }
     else None
   }"

definition dec_edf :: "u8 list \<Rightarrow> (edf_slice_t \<times> u8 list) option" where
  "dec_edf bs = do {
     (d, bs) \<leftarrow> get_u32 bs;
     (g, bs) \<leftarrow> get_u32 bs;
     (m, bs) \<leftarrow> get_u32 bs;
     (n, bs) \<leftarrow> get_u32 bs;
     (xs, bs) \<leftarrow> dec_n (unat n) get_u32 bs;
     Some (\<lparr>deadline = d, guaranteed_prbs = g, max_replenish = m, edf_over = xs\<rparr>, bs)
   }"

definition dec_params :: "u8 list \<Rightarrow> (slice_params_t \<times> u8 list) option" where
  "dec_params bs = do {
     (t, bs) \<leftarrow> get_u32 bs;
     if t = 1 then do { (s, bs) \<leftarrow> dec_static bs; Some (SLICE_ALG_SM_V0_STATIC s, bs) }
     else if t = 2 then do { (n, bs) \<leftarrow> dec_nvs bs; Some (SLICE_ALG_SM_V0_NVS n, bs) }
     else if t = 3 then do { (s, bs) \<leftarrow> dec_scn19 bs; Some (SLICE_ALG_SM_V0_SCN19 s, bs) }
     else if t = 4 then do { (e, bs) \<leftarrow> dec_edf bs; Some (SLICE_ALG_SM_V0_EDF e, bs) }
     else None
   }"

definition dec_slice :: "u8 list \<Rightarrow> (fr_slice_t \<times> u8 list) option" where
  "dec_slice bs = do {
     (i, bs) \<leftarrow> get_u32 bs;
     (ll, bs) \<leftarrow> get_u32 bs;
     (lbl, bs) \<leftarrow> get_str ll bs;
     (ls, bs) \<leftarrow> get_u32 bs;
     (sch, bs) \<leftarrow> get_str ls bs;
     (p, bs) \<leftarrow> dec_params bs;
     Some (\<lparr>fr_id = i, len_label = ll, fr_label = lbl, len_sched = ls, fr_sched = sch, fr_params = p\<rparr>, bs)
   }"

definition dec_ul_dl_slice_conf :: "u8 list \<Rightarrow> (ul_dl_slice_conf_t \<times> u8 list) option" where
  "dec_ul_dl_slice_conf bs = do {
     (ln, bs) \<leftarrow> get_u32 bs;
     (nm, bs) \<leftarrow> get_str ln bs;
     (n, bs) \<leftarrow> get_u32 bs;
     (ss, bs) \<leftarrow> dec_n (unat n) dec_slice bs;
     Some (\<lparr>ud_slices = ss, len_sched_name = ln, ud_sched_name = nm\<rparr>, bs)
   }"

definition dec_slice_conf :: "u8 list \<Rightarrow> (slice_conf_t \<times> u8 list) option" where
  "dec_slice_conf bs = do {
     (dl, bs) \<leftarrow> dec_ul_dl_slice_conf bs;
     (ul, bs) \<leftarrow> dec_ul_dl_slice_conf bs;
     Some (\<lparr>sc_dl = dl, sc_ul = ul\<rparr>, bs)
   }"

definition dec_ue_slice_assoc :: "u8 list \<Rightarrow> (ue_slice_assoc_t \<times> u8 list) option" where
  "dec_ue_slice_assoc bs = do {
     (d, bs) \<leftarrow> get_u32 bs;
     (u, bs) \<leftarrow> get_u32 bs;
     (r, bs) \<leftarrow> get_le 2 bs;
     Some (\<lparr>dl_id = d, ul_id = u, assoc_rnti = r\<rparr>, bs)
   }"

definition dec_ue_slice_conf :: "u8 list \<Rightarrow> (ue_slice_conf_t \<times> u8 list) option" where
  "dec_ue_slice_conf bs = do {
     (n, bs) \<leftarrow> get_u32 bs;
     (xs, bs) \<leftarrow> dec_n (unat n) dec_ue_slice_assoc bs;
     Some (\<lparr>ue_ues = xs\<rparr>, bs)
   }"

definition slice_dec_ind_msg_plain :: "u8 list \<Rightarrow> slice_ind_msg_t option" where
  "slice_dec_ind_msg_plain bs = do {
     (c, bs) \<leftarrow> dec_slice_conf bs;
     (u, bs) \<leftarrow> dec_ue_slice_conf bs;
     (t, bs) \<leftarrow> get_u64 bs;
     assert_c (bs = []);
     Some \<lparr>si_slice_conf = c, si_ue_slice_conf = u, si_tstamp = t\<rparr>
   }"

definition slice_dec_ctrl_hdr_plain :: "u8 list \<Rightarrow> slice_ctrl_hdr_t option" where
  "slice_dec_ctrl_hdr_plain bs = do {
     assert_c (length bs = 4);
     (d, bs) \<leftarrow> get_u32 bs;
     Some \<lparr>slice_ctrl_dummy = d\<rparr>
   }"

definition dec_del_slice :: "u8 list \<Rightarrow> (del_slice_conf_t \<times> u8 list) option" where
  "dec_del_slice bs = do {
     (n, bs) \<leftarrow> get_u32 bs;
     (dl, bs) \<leftarrow> dec_n (unat n) get_u32 bs;
     (k, bs) \<leftarrow> get_u32 bs;
     (ul, bs) \<leftarrow> dec_n (unat k) get_u32 bs;
     Some (\<lparr>del_dl = dl, del_ul = ul\<rparr>, bs)
   }"

definition slice_dec_ctrl_msg_plain :: "u8 list \<Rightarrow> slice_ctrl_msg_t option" where
  "slice_dec_ctrl_msg_plain bs = do {
     (t, bs) \<leftarrow> get_u32 bs;
     (m, bs) \<leftarrow>
       (if t = 0 then do { (c, bs) \<leftarrow> dec_slice_conf bs; Some (SLICE_CTRL_SM_V0_ADD c, bs) }
        else if t = 1 then do { (d, bs) \<leftarrow> dec_del_slice bs; Some (SLICE_CTRL_SM_V0_DEL d, bs) }
        else if t = 2 then do { (u, bs) \<leftarrow> dec_ue_slice_conf bs; Some (SLICE_CTRL_SM_V0_UE_SLICE_ASSOC u, bs) }
        else None);
     assert_c (bs = []);
     Some m
   }"

text \<open>The answer stays at the zero of the initialiser, which is \<^verbatim>\<open>SLICE_CTRL_OUT_OK\<close>; the block of the
  diagnostic has no terminator.\<close>

definition slice_dec_ctrl_out_plain :: "u8 list \<Rightarrow> slice_ctrl_out_t option" where
  "slice_dec_ctrl_out_plain bs = do {
     (n, bs) \<leftarrow> get_u32 bs;
     d \<leftarrow> (if unat n > 0 then if length bs < unat n then None else Some (Some (take (unat n) bs))
          else Some None);
     Some \<lparr>out_ans = SLICE_CTRL_OUT_OK, len_diag = n, out_diagnostic = d\<rparr>
   }"

end
