(* ===== verification/Slice_Data.thy ===== *)
theory Slice_Data
  imports Slice_Types
begin

text \<open>
  Comparing and copying the data of the slicing service model,
  \<^verbatim>\<open>src/src/flexric/src/sm/slice_sm/ie/slice_data_ie.c\<close>, with all assertions in them.  Every copy
  ends by asserting that it equals its source.
\<close>

subsection \<open>Comparing floats and memory\<close>

text \<open>The operator \<^verbatim>\<open>==\<close> on the images of two binary32 numbers: a NaN equals nothing, the two zeros are
  equal.\<close>

definition float_nan :: "u32 \<Rightarrow> bool" where
  "float_nan x \<longleftrightarrow> x AND 0x7F800000 = 0x7F800000 \<and> x AND 0x007FFFFF \<noteq> 0"

definition float_eq :: "u32 \<Rightarrow> u32 \<Rightarrow> bool" where
  "float_eq x y \<longleftrightarrow> \<not> float_nan x \<and> \<not> float_nan y
     \<and> (x = y \<or> x AND 0x7FFFFFFF = 0 \<and> y AND 0x7FFFFFFF = 0)"

definition mem_eq :: "mem \<Rightarrow> mem \<Rightarrow> nat \<Rightarrow> bool option" where
  "mem_eq p q n = do {
     a \<leftarrow> mem_read p n;
     b \<leftarrow> mem_read q n;
     Some (a = b)
   }"

subsection \<open>Equality\<close>

definition eq_slice_ind_hdr :: "slice_ind_hdr_t \<Rightarrow> slice_ind_hdr_t \<Rightarrow> bool" where
  "eq_slice_ind_hdr m0 m1 \<longleftrightarrow> slice_ind_dummy m0 = slice_ind_dummy m1"

definition eq_static_slice :: "static_slice_t \<Rightarrow> static_slice_t \<Rightarrow> bool" where
  "eq_static_slice m0 m1 \<longleftrightarrow> pos_high m0 = pos_high m1 \<and> pos_low m0 = pos_low m1"

definition eq_nvs_rate :: "nvs_rate_t \<Rightarrow> nvs_rate_t \<Rightarrow> bool" where
  "eq_nvs_rate m0 m1 \<longleftrightarrow> float_eq (mbps_reference m0) (mbps_reference m1)
     \<and> float_eq (mbps_required m0) (mbps_required m1)"

definition eq_nvs_cap :: "nvs_capacity_t \<Rightarrow> nvs_capacity_t \<Rightarrow> bool" where
  "eq_nvs_cap m0 m1 \<longleftrightarrow> float_eq (pct_reserved m0) (pct_reserved m1)"

fun eq_nvs_slice :: "nvs_slice_t \<Rightarrow> nvs_slice_t \<Rightarrow> bool" where
  "eq_nvs_slice (SLICE_SM_NVS_V0_RATE a) (SLICE_SM_NVS_V0_RATE b) = eq_nvs_rate a b"
| "eq_nvs_slice (SLICE_SM_NVS_V0_CAPACITY a) (SLICE_SM_NVS_V0_CAPACITY b) = eq_nvs_cap a b"
| "eq_nvs_slice _ _ = False"

definition eq_scn19_on_demand :: "scn19_on_demand_t \<Rightarrow> scn19_on_demand_t \<Rightarrow> bool" where
  "eq_scn19_on_demand m0 m1 \<longleftrightarrow> float_eq (od_log_delta m0) (od_log_delta m1)
     \<and> float_eq (od_pct_reserved m0) (od_pct_reserved m1) \<and> od_tau m0 = od_tau m1"

fun eq_scn19_slice :: "scn19_slice_t \<Rightarrow> scn19_slice_t \<Rightarrow> bool" where
  "eq_scn19_slice (SLICE_SCN19_SM_V0_DYNAMIC a) (SLICE_SCN19_SM_V0_DYNAMIC b) = eq_nvs_rate a b"
| "eq_scn19_slice (SLICE_SCN19_SM_V0_FIXED a) (SLICE_SCN19_SM_V0_FIXED b) = eq_static_slice a b"
| "eq_scn19_slice (SLICE_SCN19_SM_V0_ON_DEMAND a) (SLICE_SCN19_SM_V0_ON_DEMAND b) = eq_scn19_on_demand a b"
| "eq_scn19_slice _ _ = False"

definition eq_edf_slice :: "edf_slice_t \<Rightarrow> edf_slice_t \<Rightarrow> bool option" where
  "eq_edf_slice m0 m1 = do {
     assert_c (length (edf_over m0) = length (edf_over m1));
     assert_c (edf_over m0 = edf_over m1);
     Some (deadline m0 = deadline m1 \<and> guaranteed_prbs m0 = guaranteed_prbs m1
       \<and> max_replenish m0 = max_replenish m1 \<and> length (edf_over m0) = length (edf_over m1))
   }"

text \<open>Different types are different; parameters of the same type must be equal.\<close>

definition must_hold :: "bool \<Rightarrow> bool option" where
  "must_hold ret = do { assert_c ret; Some ret }"

fun eq_slice_params :: "slice_params_t \<Rightarrow> slice_params_t \<Rightarrow> bool option" where
  "eq_slice_params (SLICE_ALG_SM_V0_STATIC a) (SLICE_ALG_SM_V0_STATIC b) = must_hold (eq_static_slice a b)"
| "eq_slice_params (SLICE_ALG_SM_V0_NVS a) (SLICE_ALG_SM_V0_NVS b) = must_hold (eq_nvs_slice a b)"
| "eq_slice_params (SLICE_ALG_SM_V0_SCN19 a) (SLICE_ALG_SM_V0_SCN19 b) = must_hold (eq_scn19_slice a b)"
| "eq_slice_params (SLICE_ALG_SM_V0_EDF a) (SLICE_ALG_SM_V0_EDF b) = do { ret \<leftarrow> eq_edf_slice a b; must_hold ret }"
| "eq_slice_params SLICE_ALG_SM_V0_NONE SLICE_ALG_SM_V0_NONE = must_hold False"
| "eq_slice_params _ _ = Some False"

definition eq_slice :: "fr_slice_t \<Rightarrow> fr_slice_t \<Rightarrow> bool option" where
  "eq_slice m0 m1 =
     (if fr_id m0 \<noteq> fr_id m1 then Some False
      else if len_label m0 \<noteq> len_label m1 then Some False
      else do {
        same \<leftarrow> mem_eq (fr_label m0) (fr_label m1) (unat (len_label m0));
        if \<not> same then Some False
        else if len_sched m0 \<noteq> len_sched m1 then Some False
        else eq_slice_params (fr_params m0) (fr_params m1)
      })"

text \<open>The comparison of the two pointers makes a difference only where one of them is null.\<close>

definition eq_sched_name :: "mem \<Rightarrow> mem \<Rightarrow> nat \<Rightarrow> bool option" where
  "eq_sched_name m0 m1 n =
     (if m0 = None \<and> m1 = None then Some True
      else if m0 = None \<or> m1 = None then Some False
      else mem_eq m0 m1 n)"

fun eq_slices :: "fr_slice_t list \<Rightarrow> fr_slice_t list \<Rightarrow> bool option" where
  "eq_slices (a # as) (b # bs) = do {
     same \<leftarrow> eq_slice a b;
     assert_c same;
     eq_slices as bs
   }"
| "eq_slices _ _ = Some True"

definition eq_ul_dl_slice_conf :: "ul_dl_slice_conf_t \<Rightarrow> ul_dl_slice_conf_t \<Rightarrow> bool option" where
  "eq_ul_dl_slice_conf m0 m1 =
     (if len_sched_name m0 \<noteq> len_sched_name m1 then Some False
      else do {
        same \<leftarrow> eq_sched_name (ud_sched_name m0) (ud_sched_name m1) (unat (len_sched_name m0));
        if \<not> same then Some False
        else if length (ud_slices m0) \<noteq> length (ud_slices m1) then Some False
        else eq_slices (ud_slices m0) (ud_slices m1)
      })"

definition eq_slice_conf :: "slice_conf_t \<Rightarrow> slice_conf_t \<Rightarrow> bool option" where
  "eq_slice_conf m0 m1 = do {
     same \<leftarrow> eq_ul_dl_slice_conf (sc_ul m0) (sc_ul m1);
     if same then eq_ul_dl_slice_conf (sc_dl m0) (sc_dl m1) else Some False
   }"

definition eq_ue_slice_assoc :: "ue_slice_assoc_t \<Rightarrow> ue_slice_assoc_t \<Rightarrow> bool" where
  "eq_ue_slice_assoc m0 m1 \<longleftrightarrow> dl_id m0 = dl_id m1 \<and> assoc_rnti m0 = assoc_rnti m1 \<and> ul_id m0 = ul_id m1"

definition eq_ue_slice_conf :: "ue_slice_conf_t \<Rightarrow> ue_slice_conf_t \<Rightarrow> bool" where
  "eq_ue_slice_conf m0 m1 \<longleftrightarrow> length (ue_ues m0) = length (ue_ues m1)
     \<and> list_all2 eq_ue_slice_assoc (ue_ues m0) (ue_ues m1)"

definition eq_slice_ind_msg :: "slice_ind_msg_t \<Rightarrow> slice_ind_msg_t \<Rightarrow> bool option" where
  "eq_slice_ind_msg m0 m1 = do {
     same \<leftarrow> eq_slice_conf (si_slice_conf m0) (si_slice_conf m1);
     Some (same \<and> eq_ue_slice_conf (si_ue_slice_conf m0) (si_ue_slice_conf m1)
       \<and> si_tstamp m0 = si_tstamp m1)
   }"

subsection \<open>Copying\<close>

definition cp_slice_ind_hdr :: "slice_ind_hdr_t \<Rightarrow> slice_ind_hdr_t" where
  "cp_slice_ind_hdr src = \<lparr>slice_ind_dummy = slice_ind_dummy src\<rparr>"

text \<open>A string is copied without its terminator.\<close>

definition cp_str :: "mem \<Rightarrow> u32 \<Rightarrow> mem option" where
  "cp_str p len = (if len > 0 then do { bs \<leftarrow> mem_read p (unat len); Some (Some bs) } else Some None)"

fun cp_scn19_slice :: "scn19_slice_t \<Rightarrow> scn19_slice_t" where
  "cp_scn19_slice (SLICE_SCN19_SM_V0_DYNAMIC r) = SLICE_SCN19_SM_V0_DYNAMIC
     \<lparr>mbps_required = mbps_required r, mbps_reference = mbps_reference r\<rparr>"
| "cp_scn19_slice (SLICE_SCN19_SM_V0_FIXED s) = SLICE_SCN19_SM_V0_FIXED
     \<lparr>pos_low = pos_low s, pos_high = pos_high s\<rparr>"
| "cp_scn19_slice (SLICE_SCN19_SM_V0_ON_DEMAND d) = SLICE_SCN19_SM_V0_ON_DEMAND
     \<lparr>od_pct_reserved = od_pct_reserved d, od_log_delta = od_log_delta d, od_tau = od_tau d\<rparr>"

fun cp_params :: "slice_params_t \<Rightarrow> slice_params_t option" where
  "cp_params (SLICE_ALG_SM_V0_STATIC s) = Some (SLICE_ALG_SM_V0_STATIC
     \<lparr>pos_low = pos_low s, pos_high = pos_high s\<rparr>)"
| "cp_params (SLICE_ALG_SM_V0_NVS (SLICE_SM_NVS_V0_RATE r)) = Some (SLICE_ALG_SM_V0_NVS (SLICE_SM_NVS_V0_RATE
     \<lparr>mbps_required = mbps_required r, mbps_reference = mbps_reference r\<rparr>))"
| "cp_params (SLICE_ALG_SM_V0_NVS (SLICE_SM_NVS_V0_CAPACITY c)) = Some (SLICE_ALG_SM_V0_NVS
     (SLICE_SM_NVS_V0_CAPACITY \<lparr>pct_reserved = pct_reserved c\<rparr>))"
| "cp_params (SLICE_ALG_SM_V0_SCN19 s) = Some (SLICE_ALG_SM_V0_SCN19 (cp_scn19_slice s))"
| "cp_params (SLICE_ALG_SM_V0_EDF e) = Some (SLICE_ALG_SM_V0_EDF \<lparr>deadline = deadline e,
     guaranteed_prbs = guaranteed_prbs e, max_replenish = max_replenish e, edf_over = edf_over e\<rparr>)"
| "cp_params SLICE_ALG_SM_V0_NONE = None"

definition cp_slice_params :: "slice_params_t \<Rightarrow> slice_params_t option" where
  "cp_slice_params src = do {
     dst \<leftarrow> cp_params src;
     same \<leftarrow> eq_slice_params dst src;
     assert_c same;
     Some dst
   }"

definition cpy_slice :: "fr_slice_t \<Rightarrow> fr_slice_t option" where
  "cpy_slice src = do {
     lbl \<leftarrow> cp_str (fr_label src) (len_label src);
     sch \<leftarrow> cp_str (fr_sched src) (len_sched src);
     par \<leftarrow> cp_slice_params (fr_params src);
     let dst = \<lparr>fr_id = fr_id src, len_label = len_label src, fr_label = lbl, len_sched = len_sched src,
       fr_sched = sch, fr_params = par\<rparr>;
     same \<leftarrow> eq_slice src dst;
     assert_c same;
     Some dst
   }"

fun cpy_slices :: "fr_slice_t list \<Rightarrow> fr_slice_t list option" where
  "cpy_slices [] = Some []"
| "cpy_slices (s # ss) = do { d \<leftarrow> cpy_slice s; ds \<leftarrow> cpy_slices ss; Some (d # ds) }"

definition cpy_ul_dl_slice_conf :: "ul_dl_slice_conf_t \<Rightarrow> ul_dl_slice_conf_t option" where
  "cpy_ul_dl_slice_conf src = do {
     nm \<leftarrow> cp_str (ud_sched_name src) (len_sched_name src);
     ss \<leftarrow> cpy_slices (ud_slices src);
     let dst = \<lparr>ud_slices = ss, len_sched_name = len_sched_name src, ud_sched_name = nm\<rparr>;
     same \<leftarrow> eq_ul_dl_slice_conf src dst;
     assert_c same;
     Some dst
   }"

definition cp_slice_conf :: "slice_conf_t \<Rightarrow> slice_conf_t option" where
  "cp_slice_conf src = do {
     dl \<leftarrow> cpy_ul_dl_slice_conf (sc_dl src);
     ul \<leftarrow> cpy_ul_dl_slice_conf (sc_ul src);
     let dst = \<lparr>sc_dl = dl, sc_ul = ul\<rparr>;
     same \<leftarrow> eq_slice_conf src dst;
     assert_c same;
     Some dst
   }"

definition cp_ue_slice_assoc :: "ue_slice_assoc_t \<Rightarrow> ue_slice_assoc_t" where
  "cp_ue_slice_assoc src = \<lparr>dl_id = dl_id src, ul_id = ul_id src, assoc_rnti = assoc_rnti src\<rparr>"

definition cp_ue_slice_conf :: "ue_slice_conf_t \<Rightarrow> ue_slice_conf_t" where
  "cp_ue_slice_conf src = \<lparr>ue_ues = map cp_ue_slice_assoc (ue_ues src)\<rparr>"

definition cp_slice_ind_msg :: "slice_ind_msg_t \<Rightarrow> slice_ind_msg_t option" where
  "cp_slice_ind_msg src = do {
     c \<leftarrow> cp_slice_conf (si_slice_conf src);
     let out = \<lparr>si_slice_conf = c, si_ue_slice_conf = cp_ue_slice_conf (si_ue_slice_conf src),
       si_tstamp = si_tstamp src\<rparr>;
     same \<leftarrow> eq_slice_ind_msg src out;
     assert_c same;
     Some out
   }"

subsection \<open>Control messages and the function definition\<close>

definition eq_slice_ctrl_hdr :: "slice_ctrl_hdr_t \<Rightarrow> slice_ctrl_hdr_t \<Rightarrow> bool" where
  "eq_slice_ctrl_hdr m0 m1 \<longleftrightarrow> slice_ctrl_dummy m0 = slice_ctrl_dummy m1"

definition cp_slice_ctrl_hdr :: "slice_ctrl_hdr_t \<Rightarrow> slice_ctrl_hdr_t" where
  "cp_slice_ctrl_hdr src = \<lparr>slice_ctrl_dummy = slice_ctrl_dummy src\<rparr>"

definition cp_del_slice :: "del_slice_conf_t \<Rightarrow> del_slice_conf_t" where
  "cp_del_slice src = \<lparr>del_dl = del_dl src, del_ul = del_ul src\<rparr>"

fun cp_slice_ctrl_msg :: "slice_ctrl_msg_t \<Rightarrow> slice_ctrl_msg_t option" where
  "cp_slice_ctrl_msg (SLICE_CTRL_SM_V0_ADD c) = do { d \<leftarrow> cp_slice_conf c; Some (SLICE_CTRL_SM_V0_ADD d) }"
| "cp_slice_ctrl_msg (SLICE_CTRL_SM_V0_DEL d) = Some (SLICE_CTRL_SM_V0_DEL (cp_del_slice d))"
| "cp_slice_ctrl_msg (SLICE_CTRL_SM_V0_UE_SLICE_ASSOC u) =
     Some (SLICE_CTRL_SM_V0_UE_SLICE_ASSOC (cp_ue_slice_conf u))"

definition eq_del_slice :: "del_slice_conf_t \<Rightarrow> del_slice_conf_t \<Rightarrow> bool" where
  "eq_del_slice m0 m1 \<longleftrightarrow> length (del_dl m0) = length (del_dl m1) \<and> del_dl m0 = del_dl m1
     \<and> length (del_ul m0) = length (del_ul m1) \<and> del_ul m0 = del_ul m1"

text \<open>The types are not compared: the union of the second message is read with the type of the first.
  Where they differ this reads a member that was not written, which the model leaves open as
  \<^term>\<open>None\<close>.\<close>

fun eq_slice_ctrl_msg :: "slice_ctrl_msg_t \<Rightarrow> slice_ctrl_msg_t \<Rightarrow> bool option" where
  "eq_slice_ctrl_msg (SLICE_CTRL_SM_V0_ADD a) (SLICE_CTRL_SM_V0_ADD b) = eq_slice_conf a b"
| "eq_slice_ctrl_msg (SLICE_CTRL_SM_V0_DEL a) (SLICE_CTRL_SM_V0_DEL b) = Some (eq_del_slice a b)"
| "eq_slice_ctrl_msg (SLICE_CTRL_SM_V0_UE_SLICE_ASSOC a) (SLICE_CTRL_SM_V0_UE_SLICE_ASSOC b) =
     Some (eq_ue_slice_conf a b)"
| "eq_slice_ctrl_msg _ _ = None"

text \<open>The designated initialiser sets the length only: the answer is \<^verbatim>\<open>SLICE_CTRL_OUT_OK\<close>.\<close>

definition cp_slice_ctrl_out :: "slice_ctrl_out_t \<Rightarrow> slice_ctrl_out_t option" where
  "cp_slice_ctrl_out src = do {
     d \<leftarrow> cp_str (out_diagnostic src) (len_diag src);
     Some \<lparr>out_ans = SLICE_CTRL_OUT_OK, len_diag = len_diag src, out_diagnostic = d\<rparr>
   }"

definition eq_slice_ctrl_out :: "slice_ctrl_out_t \<Rightarrow> slice_ctrl_out_t \<Rightarrow> bool option" where
  "eq_slice_ctrl_out m0 m1 =
     (if len_diag m0 \<noteq> len_diag m1 then Some False
      else if len_diag m0 > 0 then mem_eq (out_diagnostic m0) (out_diagnostic m1) (unat (len_diag m0))
      else Some True)"

definition cp_slice_func_def :: "slice_func_def_t \<Rightarrow> slice_func_def_t" where
  "cp_slice_func_def src = \<lparr>supported_alg = supported_alg src\<rparr>"

definition eq_slice_func_def :: "slice_func_def_t \<Rightarrow> slice_func_def_t \<Rightarrow> bool" where
  "eq_slice_func_def m0 m1 \<longleftrightarrow> length (supported_alg m0) = length (supported_alg m1)
     \<and> supported_alg m0 = supported_alg m1"

end
