(* ===== verification/Slice_Codec.thy ===== *)
theory Slice_Codec
  imports Slice_Enc Slice_Dec Slice_Data
begin

text \<open>
  The slicing service model as a whole: its encoders fill exactly the buffers they size, its decoders
  invert them up to the terminators of strings, and its copies are equal to their sources, unless a
  float is not a number.
\<close>

subsection \<open>What can be sent\<close>

definition wf_str :: "mem \<Rightarrow> u32 \<Rightarrow> bool" where
  "wf_str p n \<longleftrightarrow> mem_read p (unat n) \<noteq> None"

fun wf_params :: "slice_params_t \<Rightarrow> bool" where
  "wf_params SLICE_ALG_SM_V0_NONE = False"
| "wf_params (SLICE_ALG_SM_V0_EDF e) = (length (edf_over e) < 2 ^ 32)"
| "wf_params _ = True"

definition wf_slice :: "fr_slice_t \<Rightarrow> bool" where
  "wf_slice s \<longleftrightarrow> wf_str (fr_label s) (len_label s) \<and> wf_str (fr_sched s) (len_sched s) \<and> wf_params (fr_params s)"

definition wf_ul_dl :: "ul_dl_slice_conf_t \<Rightarrow> bool" where
  "wf_ul_dl c \<longleftrightarrow> wf_str (ud_sched_name c) (len_sched_name c) \<and> length (ud_slices c) < 2 ^ 32
     \<and> list_all wf_slice (ud_slices c)"

definition wf_slice_conf :: "slice_conf_t \<Rightarrow> bool" where
  "wf_slice_conf c \<longleftrightarrow> wf_ul_dl (sc_dl c) \<and> wf_ul_dl (sc_ul c)"

definition wf_ue_conf :: "ue_slice_conf_t \<Rightarrow> bool" where
  "wf_ue_conf c \<longleftrightarrow> length (ue_ues c) < 2 ^ 32"

definition wf_slice_ind :: "slice_ind_msg_t \<Rightarrow> bool" where
  "wf_slice_ind m \<longleftrightarrow> wf_slice_conf (si_slice_conf m) \<and> wf_ue_conf (si_ue_slice_conf m)"

fun wf_slice_ctrl :: "slice_ctrl_msg_t \<Rightarrow> bool" where
  "wf_slice_ctrl (SLICE_CTRL_SM_V0_ADD c) = wf_slice_conf c"
| "wf_slice_ctrl (SLICE_CTRL_SM_V0_DEL d) = (length (del_dl d) < 2 ^ 32 \<and> length (del_ul d) < 2 ^ 32)"
| "wf_slice_ctrl (SLICE_CTRL_SM_V0_UE_SLICE_ASSOC u) = wf_ue_conf u"

text \<open>The decoder has no block for a string of 2^32 - 1 bytes (\<open>long_string_overflows\<close> below).\<close>

definition short_slice :: "fr_slice_t \<Rightarrow> bool" where
  "short_slice s \<longleftrightarrow> len_label s \<noteq> - 1 \<and> len_sched s \<noteq> - 1"

definition short_ul_dl :: "ul_dl_slice_conf_t \<Rightarrow> bool" where
  "short_ul_dl c \<longleftrightarrow> len_sched_name c \<noteq> - 1 \<and> list_all short_slice (ud_slices c)"

definition short_slice_conf :: "slice_conf_t \<Rightarrow> bool" where
  "short_slice_conf c \<longleftrightarrow> short_ul_dl (sc_dl c) \<and> short_ul_dl (sc_ul c)"

fun short_slice_ctrl :: "slice_ctrl_msg_t \<Rightarrow> bool" where
  "short_slice_ctrl (SLICE_CTRL_SM_V0_ADD c) = short_slice_conf c"
| "short_slice_ctrl m = True"

text \<open>What arrives: the strings in blocks of their own, with a terminator.\<close>

definition wire_str :: "u32 \<Rightarrow> mem \<Rightarrow> mem" where
  "wire_str n p = (if n = 0 then None else map_option (\<lambda>bs. take (unat n) bs @ [0]) p)"

definition wire_slice :: "fr_slice_t \<Rightarrow> fr_slice_t" where
  "wire_slice s = s\<lparr>fr_label := wire_str (len_label s) (fr_label s), fr_sched := wire_str (len_sched s) (fr_sched s)\<rparr>"

definition wire_ul_dl :: "ul_dl_slice_conf_t \<Rightarrow> ul_dl_slice_conf_t" where
  "wire_ul_dl c = c\<lparr>ud_slices := map wire_slice (ud_slices c),
     ud_sched_name := wire_str (len_sched_name c) (ud_sched_name c)\<rparr>"

definition wire_slice_conf :: "slice_conf_t \<Rightarrow> slice_conf_t" where
  "wire_slice_conf c = \<lparr>sc_dl = wire_ul_dl (sc_dl c), sc_ul = wire_ul_dl (sc_ul c)\<rparr>"

definition wire_slice_ind :: "slice_ind_msg_t \<Rightarrow> slice_ind_msg_t" where
  "wire_slice_ind m = m\<lparr>si_slice_conf := wire_slice_conf (si_slice_conf m)\<rparr>"

fun wire_slice_ctrl :: "slice_ctrl_msg_t \<Rightarrow> slice_ctrl_msg_t" where
  "wire_slice_ctrl (SLICE_CTRL_SM_V0_ADD c) = SLICE_CTRL_SM_V0_ADD (wire_slice_conf c)"
| "wire_slice_ctrl m = m"

subsection \<open>The writers fill what the size functions count\<close>

lemma length_concat_u32: "length (concat (map put_u32 xs)) = 4 * length xs"
  by (induction xs) simp_all

lemma length_enc_nvs [size_simps]: "length (enc_nvs n) = cal_nvs n"
  by (cases n) (simp_all add: enc_rate_def enc_capacity_def)

lemma length_enc_edf [size_simps]: "length (enc_edf e) = cal_edf e"
  by (simp add: enc_edf_def cal_edf_def length_concat_u32)

lemma enc_scn19_fits: "cal_scn19 s \<le> room \<Longrightarrow> \<exists>b. enc_scn19 room s = Some b \<and> length b = cal_scn19 s"
  by (cases s) (simp_all add: enc_static_def enc_rate_def enc_on_demand_def)

lemma enc_params_fits:
  assumes "cal_params p = Some n" "n \<le> room"
  shows "\<exists>b. enc_params room p = Some b \<and> length b = n"
proof (cases p)
  case (SLICE_ALG_SM_V0_SCN19 s)
  with assms have "cal_scn19 s \<le> room - 4" "n = 4 + cal_scn19 s" by auto
  with SLICE_ALG_SM_V0_SCN19 show ?thesis using enc_scn19_fits[of s "room - 4"] by auto
qed (use assms in \<open>auto simp: enc_static_def cal_static_def size_simps\<close>)

lemma cal_params_total: "wf_params p \<Longrightarrow> \<exists>n. cal_params p = Some n"
  by (cases p) simp_all

lemma enc_slice_fits:
  assumes "wf_slice s" "cal_params (fr_params s) = Some n"
    and "4 + 4 + unat (len_label s) + 4 + unat (len_sched s) + n \<le> room"
  shows "\<exists>b. enc_slice room s = Some b \<and> length b = 4 + 4 + unat (len_label s) + 4 + unat (len_sched s) + n"
proof -
  obtain lbl sch where r: "mem_read (fr_label s) (unat (len_label s)) = Some lbl"
    "mem_read (fr_sched s) (unat (len_sched s)) = Some sch"
    using assms(1) by (auto simp: wf_slice_def wf_str_def)
  have "n \<le> room - (12 + unat (len_label s) + unat (len_sched s))" using assms(3) by simp
  from enc_params_fits[OF assms(2) this] r assms(3) show ?thesis
    by (auto simp: enc_slice_def mem_read_length[OF r(1)] mem_read_length[OF r(2)] Let_def add_ac)
qed

lemma enc_slices_fits:
  "list_all wf_slice ss \<Longrightarrow> \<exists>n. cal_slc ss = Some n \<and> (\<forall>room \<ge> n. \<exists>b. enc_slices room ss = Some b \<and> length b = n)"
proof (induction ss)
  case (Cons s ss)
  then obtain n p where n: "cal_slc ss = Some n" "\<forall>room \<ge> n. \<exists>b. enc_slices room ss = Some b \<and> length b = n"
    and p: "cal_params (fr_params s) = Some p" "wf_slice s"
    using cal_params_total[of "fr_params s"] unfolding wf_slice_def list.pred_inject by blast
  let ?k = "4 + 4 + unat (len_label s) + 4 + unat (len_sched s) + p"
  have "\<exists>b. enc_slices room (s # ss) = Some b \<and> length b = ?k + n" if "?k + n \<le> room" for room
  proof -
    have le: "?k \<le> room" "n \<le> room - ?k" using that by linarith+
    obtain b where b: "enc_slice room s = Some b" "length b = ?k"
      using enc_slice_fits[OF p(2,1) le(1)] by blast
    moreover obtain bs where "enc_slices (room - ?k) ss = Some bs" "length bs = n"
      using n(2) le(2) by blast
    ultimately show ?thesis by (simp add: add_ac)
  qed
  with n(1) p(1) show ?case by (intro exI[of _ "?k + n"]) simp
qed simp

lemma enc_ul_dl_fits:
  assumes "wf_ul_dl c"
  shows "\<exists>n. cal_ul_dl c = Some n \<and> (\<forall>room \<ge> n. \<exists>b. enc_ul_dl_slice_conf room c = Some b \<and> length b = n)"
proof -
  obtain n where n: "cal_slc (ud_slices c) = Some n"
    "\<forall>room \<ge> n. \<exists>b. enc_slices room (ud_slices c) = Some b \<and> length b = n"
    using enc_slices_fits assms unfolding wf_ul_dl_def by blast
  obtain nm where nm: "mem_read (ud_sched_name c) (unat (len_sched_name c)) = Some nm"
    using assms by (auto simp: wf_ul_dl_def wf_str_def)
  let ?k = "8 + unat (len_sched_name c) + n"
  have "\<exists>b. enc_ul_dl_slice_conf room c = Some b \<and> length b = ?k" if "?k \<le> room" for room
  proof -
    have "n \<le> room - (8 + unat (len_sched_name c))" using that by simp
    then obtain bs where "enc_slices (room - (8 + unat (len_sched_name c))) (ud_slices c) = Some bs" "length bs = n"
      using n(2) by blast
    then show ?thesis
      by (simp add: enc_ul_dl_slice_conf_def nm mem_read_length[OF nm] Let_def)
  qed
  with n(1) show ?thesis by (intro exI[of _ ?k]) (simp add: cal_ul_dl_def)
qed

lemma enc_slice_conf_fits:
  assumes "wf_slice_conf c"
  shows "\<exists>n. cal_slice_conf c = Some n \<and> (\<forall>room \<ge> n. \<exists>b. enc_slice_conf room c = Some b \<and> length b = n)"
proof -
  obtain d where d: "cal_ul_dl (sc_dl c) = Some d"
    "\<forall>room \<ge> d. \<exists>b. enc_ul_dl_slice_conf room (sc_dl c) = Some b \<and> length b = d"
    using enc_ul_dl_fits assms unfolding wf_slice_conf_def by blast
  obtain u where u: "cal_ul_dl (sc_ul c) = Some u"
    "\<forall>room \<ge> u. \<exists>b. enc_ul_dl_slice_conf room (sc_ul c) = Some b \<and> length b = u"
    using enc_ul_dl_fits assms unfolding wf_slice_conf_def by blast
  have "\<exists>b. enc_slice_conf room c = Some b \<and> length b = u + d" if "u + d \<le> room" for room
  proof -
    have le: "d \<le> room" "u \<le> room - d" using that by linarith+
    obtain b where "enc_ul_dl_slice_conf room (sc_dl c) = Some b" "length b = d"
      using d(2) le(1) by blast
    moreover obtain b' where "enc_ul_dl_slice_conf (room - d) (sc_ul c) = Some b'" "length b' = u"
      using u(2) le(2) by blast
    ultimately show ?thesis by (simp add: enc_slice_conf_def)
  qed
  with d(1) u(1) show ?thesis by (intro exI[of _ "u + d"]) (simp add: cal_slice_conf_def)
qed

lemma enc_ues_fits: "10 * length us \<le> room \<Longrightarrow> \<exists>b. enc_ues room us = Some b \<and> length b = 10 * length us"
proof (induction us arbitrary: room)
  case (Cons a us)
  have "10 * length us \<le> room - 10" using Cons.prems by simp
  from Cons.IH[OF this] Cons.prems show ?case by (auto simp: enc_ue_slice_assoc_def)
qed simp

lemma cal_ue_conf_eq: "cal_ue_slice_conf c = 4 + 10 * length (ue_ues c)"
proof -
  have "sum_list (map cal_ue_slice_assoc us) = 10 * length us" for us
    by (induction us) (simp_all add: cal_ue_slice_assoc_def)
  then show ?thesis by (simp add: cal_ue_slice_conf_def)
qed

lemma enc_ue_conf_fits:
  "cal_ue_slice_conf c \<le> room \<Longrightarrow> \<exists>b. enc_ue_slice_conf room c = Some b \<and> length b = cal_ue_slice_conf c"
proof -
  assume "cal_ue_slice_conf c \<le> room"
  then have "10 * length (ue_ues c) \<le> room - 4" by (simp add: cal_ue_conf_eq)
  from enc_ues_fits[OF this] show ?thesis by (auto simp: enc_ue_slice_conf_def cal_ue_conf_eq)
qed

subsection \<open>The decoders invert the writers\<close>

lemma get_put_u16 [codec_simps]: "get_le 2 (put_le 2 (w :: u16) @ rest) = Some (w, rest)"
  by (rule get_put_le) simp_all

lemma get_str_short:
  assumes "n \<noteq> 0" "n \<noteq> - 1" "unat n \<le> length bs"
  shows "get_str n bs = Some (Some (take (unat n) bs @ [0]), drop (unat n) bs)"
proof -
  have "unat (n + 1) = Suc (unat n)"
    using assms(2) by (metis add.commute add_eq_0_iff2 unatSuc)
  then show ?thesis
    using assms(1,3) by (simp add: get_str_def blit_def drop_replicate Suc_diff_le del: replicate.simps)
      (simp add: replicate_Suc)
qed

lemma long_string_overflows: "get_str (- 1) bs = None"
proof -
  have "0 < unat (- 1 :: u32)" by (simp add: unat_gt_0)
  then show ?thesis by (simp add: get_str_def blit_def)
qed

lemma get_str_read:
  assumes "mem_read p (unat n) = Some bs" "n \<noteq> - 1"
  shows "get_str n (bs @ rest) = Some (wire_str n p, rest)"
proof (cases "n = 0")
  case True
  then show ?thesis using assms(1) by (auto simp: mem_read_def get_str_def wire_str_def split: option.splits)
next
  case False
  then have "0 < unat n" by (simp add: unat_gt_0)
  then obtain b where b: "p = Some b" "bs = take (unat n) b" "unat n \<le> length b"
    using assms(1) by (auto simp: mem_read_def split: option.splits if_splits)
  then show ?thesis using get_str_short[of n "bs @ rest"] False assms(2) by (simp add: wire_str_def)
qed

lemma dec_static_enc: "enc_static room s = Some b \<Longrightarrow> dec_static (b @ rest) = Some (s, rest)"
  by (auto simp: enc_static_def dec_static_def split: if_splits)

lemma dec_rate_enc [codec_simps]: "dec_rate (enc_rate r @ rest) = Some (r, rest)"
  by (simp add: enc_rate_def dec_rate_def)

lemma dec_capacity_enc [codec_simps]: "dec_capacity (enc_capacity c @ rest) = Some (c, rest)"
  by (simp add: enc_capacity_def dec_capacity_def)

lemma dec_nvs_enc [codec_simps]: "dec_nvs (enc_nvs n @ rest) = Some (n, rest)"
  by (cases n) (simp_all add: dec_nvs_def codec_simps)

lemma dec_on_demand_enc [codec_simps]: "dec_on_demand (enc_on_demand d @ rest) = Some (d, rest)"
  by (simp add: enc_on_demand_def dec_on_demand_def)

lemma dec_scn19_enc: "enc_scn19 room s = Some b \<Longrightarrow> dec_scn19 (b @ rest) = Some (s, rest)"
  by (cases s) (auto simp: dec_scn19_def codec_simps dec_static_enc split: Option.bind_split_asm)

lemma dec_edf_enc [codec_simps]:
  "length (edf_over e) < 2 ^ 32 \<Longrightarrow> dec_edf (enc_edf e @ rest) = Some (e, rest)"
  by (simp add: enc_edf_def dec_edf_def unat_of_nat_len32 dec_n_map)

lemma dec_params_enc:
  "enc_params room p = Some b \<Longrightarrow> wf_params p \<Longrightarrow> dec_params (b @ rest) = Some (p, rest)"
  by (cases p) (auto simp: dec_params_def codec_simps dec_static_enc dec_scn19_enc split: Option.bind_split_asm)

lemma dec_slice_enc:
  assumes "enc_slice room s = Some b" "wf_params (fr_params s)" "short_slice s"
  shows "dec_slice (b @ rest) = Some (wire_slice s, rest)"
proof -
  obtain lbl sch p r where m: "mem_read (fr_label s) (unat (len_label s)) = Some lbl"
    "mem_read (fr_sched s) (unat (len_sched s)) = Some sch" "enc_params r (fr_params s) = Some p"
    "b = put_u32 (fr_id s) @ put_u32 (len_label s) @ lbl @ put_u32 (len_sched s) @ sch @ p"
    using assms(1) by (auto simp: enc_slice_def Let_def bind_Some_iff split: if_splits)
  then show ?thesis
    using assms(2,3) by (simp add: dec_slice_def get_str_read dec_params_enc wire_slice_def short_slice_def)
qed

lemma dec_slices_enc:
  "enc_slices room ss = Some b \<Longrightarrow> list_all (\<lambda>s. wf_params (fr_params s)) ss \<Longrightarrow> list_all short_slice ss
    \<Longrightarrow> dec_n (length ss) dec_slice (b @ rest) = Some (map wire_slice ss, rest)"
proof (induction ss arbitrary: room b)
  case (Cons s ss)
  then show ?case by (auto simp: bind_Some_iff dec_slice_enc)
qed simp

lemma dec_ul_dl_enc:
  assumes "enc_ul_dl_slice_conf room c = Some b" "wf_ul_dl c" "short_ul_dl c"
  shows "dec_ul_dl_slice_conf (b @ rest) = Some (wire_ul_dl c, rest)"
proof -
  obtain nm bs r where m: "mem_read (ud_sched_name c) (unat (len_sched_name c)) = Some nm"
    "enc_slices r (ud_slices c) = Some bs"
    "b = put_u32 (len_sched_name c) @ nm @ put_u32 (of_nat (length (ud_slices c))) @ bs"
    using assms(1) by (auto simp: enc_ul_dl_slice_conf_def Let_def bind_Some_iff)
  have "list_all (\<lambda>s. wf_params (fr_params s)) (ud_slices c)"
    "list_all short_slice (ud_slices c)"
    using assms(2,3) by (auto simp: wf_ul_dl_def wf_slice_def short_ul_dl_def list_all_iff)
  from dec_slices_enc[OF m(2) this] m assms(2,3) show ?thesis
    by (simp add: short_ul_dl_def dec_ul_dl_slice_conf_def get_str_read wf_ul_dl_def wire_ul_dl_def unat_of_nat_len32)
qed

lemma dec_slice_conf_enc:
  assumes "enc_slice_conf room c = Some b" "wf_slice_conf c" "short_slice_conf c"
  shows "dec_slice_conf (b @ rest) = Some (wire_slice_conf c, rest)"
  using assms
  by (auto simp: enc_slice_conf_def bind_Some_iff dec_slice_conf_def wf_slice_conf_def wire_slice_conf_def
      short_slice_conf_def dec_ul_dl_enc)

lemma dec_ues_enc:
  "enc_ues room us = Some b \<Longrightarrow> dec_n (length us) dec_ue_slice_assoc (b @ rest) = Some (us, rest)"
proof (induction us arbitrary: room b)
  case (Cons a us)
  then show ?case
    by (auto simp: bind_Some_iff enc_ue_slice_assoc_def dec_ue_slice_assoc_def get_put_u16 split: if_splits)
qed simp

lemma dec_ue_conf_enc:
  "enc_ue_slice_conf room c = Some b \<Longrightarrow> wf_ue_conf c \<Longrightarrow> dec_ue_slice_conf (b @ rest) = Some (c, rest)"
  by (auto simp: enc_ue_slice_conf_def dec_ue_slice_conf_def bind_Some_iff wf_ue_conf_def
      unat_of_nat_len32 dec_ues_enc)

subsection \<open>Round trips\<close>

text \<open>
  C13: for every slicing indication whose strings are as long as they say, and shorter than 2^32 - 1
  bytes, and whose slices all have an algorithm, the encoder succeeds (no assertion of it fails), fills the buffer it sized to the byte,
  and the decoder returns the message, its strings in blocks of their own with a terminator.
\<close>
theorem slice_ind_msg_roundtrip:
  assumes "wf_slice_ind m" "short_slice_conf (si_slice_conf m)"
  shows "\<exists>bs. slice_enc_ind_msg_plain m = Some bs \<and> cal_slice_ind_msg_payload m = Some (length bs)
    \<and> slice_dec_ind_msg_plain bs = Some (wire_slice_ind m)"
proof -
  obtain n where n: "cal_slice_conf (si_slice_conf m) = Some n"
    "\<forall>room \<ge> n. \<exists>b. enc_slice_conf room (si_slice_conf m) = Some b \<and> length b = n"
    using enc_slice_conf_fits assms unfolding wf_slice_ind_def by blast
  let ?u = "cal_ue_slice_conf (si_ue_slice_conf m)"
  obtain b1 where b1: "enc_slice_conf (n + ?u + 8) (si_slice_conf m) = Some b1" "length b1 = n"
    using n(2) by (meson le_add1 order_trans)
  obtain b2 where b2: "enc_ue_slice_conf (?u + 8) (si_ue_slice_conf m) = Some b2" "length b2 = ?u"
    using enc_ue_conf_fits[of "si_ue_slice_conf m" "?u + 8"] by auto
  let ?bs = "b1 @ b2 @ put_u64 (si_tstamp m)"
  have "slice_enc_ind_msg_plain m = Some ?bs"
    using n(1) b1 b2 by (simp add: slice_enc_ind_msg_plain_def cal_slice_ind_msg_payload_def Let_def)
  moreover have "slice_dec_ind_msg_plain ?bs = Some (wire_slice_ind m)"
    using dec_slice_conf_enc[OF b1(1)] dec_ue_conf_enc[OF b2(1)] assms
    by (simp add: slice_dec_ind_msg_plain_def wf_slice_ind_def wire_slice_ind_def)
  ultimately show ?thesis
    using n(1) b1(2) b2(2) by (simp add: cal_slice_ind_msg_payload_def)
qed

definition sample_slice_ind :: slice_ind_msg_t where
  "sample_slice_ind = \<lparr>
     si_slice_conf = \<lparr>
       sc_dl = \<lparr>ud_slices = [
           \<lparr>fr_id = 1, len_label = 2, fr_label = Some [65, 66, 0], len_sched = 0, fr_sched = None,
            fr_params = SLICE_ALG_SM_V0_NVS (SLICE_SM_NVS_V0_RATE \<lparr>mbps_required = 0x41200000, mbps_reference = 0x42C80000\<rparr>)\<rparr>,
           \<lparr>fr_id = 2, len_label = 0, fr_label = None, len_sched = 1, fr_sched = Some [82],
            fr_params = SLICE_ALG_SM_V0_EDF \<lparr>deadline = 10, guaranteed_prbs = 20, max_replenish = 30, edf_over = [1, 2]\<rparr>\<rparr>],
         len_sched_name = 3, ud_sched_name = Some [78, 86, 83]\<rparr>,
       sc_ul = \<lparr>ud_slices = [], len_sched_name = 0, ud_sched_name = None\<rparr>\<rparr>,
     si_ue_slice_conf = \<lparr>ue_ues = [\<lparr>dl_id = 1, ul_id = 0, assoc_rnti = 17921\<rparr>]\<rparr>,
     si_tstamp = 77\<rparr>"

lemma sample_slice_ind_wf: "wf_slice_ind sample_slice_ind"
  by (simp add: wf_slice_ind_def wf_slice_conf_def wf_ul_dl_def wf_slice_def wf_str_def wf_ue_conf_def
      mem_read_def sample_slice_ind_def)

lemma sample_slice_ind_short: "short_slice_conf (si_slice_conf sample_slice_ind)"
  by (simp add: short_slice_conf_def short_ul_dl_def short_slice_def sample_slice_ind_def)

theorem slice_ind_msg_roundtrip_witness:
  "\<exists>bs. slice_enc_ind_msg_plain sample_slice_ind = Some bs
    \<and> slice_dec_ind_msg_plain bs = Some (wire_slice_ind sample_slice_ind)"
  using slice_ind_msg_roundtrip[OF sample_slice_ind_wf sample_slice_ind_short] by blast

text \<open>
  C14: every slicing control message (adding or changing slices, deleting them, moving users), its strings
  as long as they say and shorter than 2^32 - 1 bytes, is encoded into exactly the buffer its size function computes, without a failed assertion, and decoded back, its
  strings with a terminator.
\<close>
theorem slice_ctrl_msg_roundtrip:
  assumes "wf_slice_ctrl m" "short_slice_ctrl m"
  shows "\<exists>bs. slice_enc_ctrl_msg_plain m = Some bs \<and> cal_slice_ctrl_msg_payload m = Some (length bs)
    \<and> slice_dec_ctrl_msg_plain bs = Some (wire_slice_ctrl m)"
proof (cases m)
  case (SLICE_CTRL_SM_V0_ADD c)
  then have wf: "wf_slice_conf c" "short_slice_conf c" using assms by simp_all
  obtain n where n: "cal_slice_conf c = Some n" "\<forall>room \<ge> n. \<exists>b. enc_slice_conf room c = Some b \<and> length b = n"
    using enc_slice_conf_fits[OF wf(1)] by blast
  then obtain b where b: "enc_slice_conf n c = Some b" "length b = n" by blast
  show ?thesis
    using SLICE_CTRL_SM_V0_ADD n(1) b dec_slice_conf_enc[OF b(1) wf, of "[]"]
    by (simp add: slice_enc_ctrl_msg_plain_def slice_dec_ctrl_msg_plain_def)
next
  case (SLICE_CTRL_SM_V0_DEL d)
  then have d: "length (del_dl d) < 2 ^ 32" "length (del_ul d) < 2 ^ 32" using assms by simp_all
  have "dec_del_slice (enc_del_slice_conf d) = Some (d, [])"
    using d dec_n_map[of "del_ul d" get_u32 put_u32 "[]"]
    by (simp add: enc_del_slice_conf_def dec_del_slice_def unat_of_nat_len32 dec_n_map)
  then show ?thesis
    using SLICE_CTRL_SM_V0_DEL
    by (simp add: slice_enc_ctrl_msg_plain_def slice_dec_ctrl_msg_plain_def enc_del_slice_conf_def
        cal_del_slice_def length_concat_u32)
next
  case (SLICE_CTRL_SM_V0_UE_SLICE_ASSOC u)
  then have wf: "wf_ue_conf u" using assms by simp
  obtain b where b: "enc_ue_slice_conf (cal_ue_slice_conf u) u = Some b" "length b = cal_ue_slice_conf u"
    using enc_ue_conf_fits[of u "cal_ue_slice_conf u"] by auto
  show ?thesis
    using SLICE_CTRL_SM_V0_UE_SLICE_ASSOC b dec_ue_conf_enc[OF b(1) wf, of "[]"]
    by (simp add: slice_enc_ctrl_msg_plain_def slice_dec_ctrl_msg_plain_def)
qed

theorem slice_ctrl_msg_roundtrip_witness:
  "\<exists>bs. slice_enc_ctrl_msg_plain (SLICE_CTRL_SM_V0_ADD (si_slice_conf sample_slice_ind)) = Some bs
    \<and> slice_dec_ctrl_msg_plain bs = Some (SLICE_CTRL_SM_V0_ADD (wire_slice_conf (si_slice_conf sample_slice_ind)))"
  using slice_ctrl_msg_roundtrip[of "SLICE_CTRL_SM_V0_ADD (si_slice_conf sample_slice_ind)"] sample_slice_ind_wf
    sample_slice_ind_short
  by (auto simp: wf_slice_ind_def)

end
