(* ===== verification/Slice_Copy.thy ===== *)
theory Slice_Copy
  imports Slice_Codec
begin

text \<open>
  Exactly when a slicing message can be copied: the assertions with which the copies compare
  themselves to their sources hold unless a float is not a number (which equals nothing), or a
  scheduler name of length zero has a block all the same.  And what the codec of the control outcome
  loses.
\<close>

subsection \<open>What a copy keeps\<close>

definition trim_str :: "u32 \<Rightarrow> mem \<Rightarrow> mem" where
  "trim_str n p = (if n = 0 then None else map_option (take (unat n)) p)"

definition trim_slice :: "fr_slice_t \<Rightarrow> fr_slice_t" where
  "trim_slice s = s\<lparr>fr_label := trim_str (len_label s) (fr_label s), fr_sched := trim_str (len_sched s) (fr_sched s)\<rparr>"

definition trim_ul_dl :: "ul_dl_slice_conf_t \<Rightarrow> ul_dl_slice_conf_t" where
  "trim_ul_dl c = c\<lparr>ud_slices := map trim_slice (ud_slices c),
     ud_sched_name := trim_str (len_sched_name c) (ud_sched_name c)\<rparr>"

definition trim_slice_conf :: "slice_conf_t \<Rightarrow> slice_conf_t" where
  "trim_slice_conf c = \<lparr>sc_dl = trim_ul_dl (sc_dl c), sc_ul = trim_ul_dl (sc_ul c)\<rparr>"

definition trim_slice_ind :: "slice_ind_msg_t \<Rightarrow> slice_ind_msg_t" where
  "trim_slice_ind m = m\<lparr>si_slice_conf := trim_slice_conf (si_slice_conf m)\<rparr>"

subsection \<open>What makes a copy fail\<close>

fun numbers_params :: "slice_params_t \<Rightarrow> bool" where
  "numbers_params (SLICE_ALG_SM_V0_NVS (SLICE_SM_NVS_V0_RATE r)) =
     (\<not> float_nan (mbps_required r) \<and> \<not> float_nan (mbps_reference r))"
| "numbers_params (SLICE_ALG_SM_V0_NVS (SLICE_SM_NVS_V0_CAPACITY c)) = (\<not> float_nan (pct_reserved c))"
| "numbers_params (SLICE_ALG_SM_V0_SCN19 (SLICE_SCN19_SM_V0_DYNAMIC r)) =
     (\<not> float_nan (mbps_required r) \<and> \<not> float_nan (mbps_reference r))"
| "numbers_params (SLICE_ALG_SM_V0_SCN19 (SLICE_SCN19_SM_V0_ON_DEMAND d)) =
     (\<not> float_nan (od_log_delta d) \<and> \<not> float_nan (od_pct_reserved d))"
| "numbers_params _ = True"

definition copyable_ul_dl :: "ul_dl_slice_conf_t \<Rightarrow> bool" where
  "copyable_ul_dl c \<longleftrightarrow> list_all (\<lambda>s. numbers_params (fr_params s)) (ud_slices c)
     \<and> \<not> (len_sched_name c = 0 \<and> ud_sched_name c \<noteq> None)"

definition copyable :: "slice_conf_t \<Rightarrow> bool" where
  "copyable c \<longleftrightarrow> copyable_ul_dl (sc_dl c) \<and> copyable_ul_dl (sc_ul c)"

subsection \<open>Each copy\<close>

lemma float_eq_refl: "float_eq x x \<longleftrightarrow> \<not> float_nan x"
  by (simp add: float_eq_def)

lemma cp_scn19_same: "cp_scn19_slice s = s"
  by (cases s) simp_all

lemma cp_params_same: "wf_params p \<Longrightarrow> cp_params p = Some p"
  by (cases p rule: cp_params.cases) (simp_all add: cp_scn19_same)

lemma eq_params_same:
  "wf_params p \<Longrightarrow> eq_slice_params p p = (if numbers_params p then Some True else None)"
  by (cases p rule: numbers_params.cases)
    (auto simp: must_hold_def eq_static_slice_def eq_nvs_rate_def eq_nvs_cap_def eq_scn19_on_demand_def
      eq_edf_slice_def float_eq_refl)

lemma cp_slice_params_eq:
  "wf_params p \<Longrightarrow> cp_slice_params p = (if numbers_params p then Some p else None)"
  by (simp add: cp_slice_params_def cp_params_same eq_params_same)

lemma cp_str_eq: "wf_str p n \<Longrightarrow> cp_str p n = Some (trim_str n p)"
  using unat_gt_0[of n]
  by (auto simp: wf_str_def cp_str_def trim_str_def mem_read_def word_gt_0 split: option.splits if_splits)

lemma mem_eq_trim: "wf_str p n \<Longrightarrow> mem_eq p (trim_str n p) (unat n) = Some True"
  using unat_gt_0[of n]
  by (auto simp: wf_str_def mem_eq_def trim_str_def mem_read_def split: option.splits if_splits)

lemma eq_slice_trim:
  assumes "wf_slice s"
  shows "eq_slice s (trim_slice s) = (if numbers_params (fr_params s) then Some True else None)"
  using assms by (simp add: eq_slice_def trim_slice_def wf_slice_def mem_eq_trim eq_params_same)

lemma cpy_slice_eq:
  assumes "wf_slice s"
  shows "cpy_slice s = (if numbers_params (fr_params s) then Some (trim_slice s) else None)"
proof -
  have "\<lparr>fr_id = fr_id s, len_label = len_label s, fr_label = trim_str (len_label s) (fr_label s),
      len_sched = len_sched s, fr_sched = trim_str (len_sched s) (fr_sched s), fr_params = fr_params s\<rparr>
    = trim_slice s" by (simp add: trim_slice_def)
  then show ?thesis
    using assms eq_slice_trim[OF assms]
    by (simp add: cpy_slice_def wf_slice_def cp_str_eq cp_slice_params_eq Let_def)
qed

lemma cpy_slices_eq:
  "list_all wf_slice ss \<Longrightarrow> cpy_slices ss =
    (if list_all (\<lambda>s. numbers_params (fr_params s)) ss then Some (map trim_slice ss) else None)"
  by (induction ss) (simp_all add: cpy_slice_eq)

lemma eq_slices_trim:
  "list_all wf_slice ss \<Longrightarrow> list_all (\<lambda>s. numbers_params (fr_params s)) ss
    \<Longrightarrow> eq_slices ss (map trim_slice ss) = Some True"
  by (induction ss) (simp_all add: eq_slice_trim)

lemma eq_sched_name_trim:
  assumes "wf_str p n"
  shows "eq_sched_name p (trim_str n p) (unat n) = Some (\<not> (n = 0 \<and> p \<noteq> None))"
proof (cases "n = 0")
  case False
  then obtain bs where "p = Some bs"
    using assms unat_gt_0[of n] by (cases p) (auto simp: wf_str_def mem_read_def)
  then show ?thesis
    using False mem_eq_trim[OF assms] by (simp add: eq_sched_name_def trim_str_def)
qed (simp add: eq_sched_name_def trim_str_def)

lemma eq_ul_dl_trim:
  assumes "wf_ul_dl c" "copyable_ul_dl c"
  shows "eq_ul_dl_slice_conf c (trim_ul_dl c) = Some True"
  using assms eq_sched_name_trim[of "ud_sched_name c" "len_sched_name c"]
  by (simp add: eq_ul_dl_slice_conf_def trim_ul_dl_def wf_ul_dl_def copyable_ul_dl_def eq_slices_trim)

lemma cpy_ul_dl_eq:
  assumes "wf_ul_dl c"
  shows "cpy_ul_dl_slice_conf c = (if copyable_ul_dl c then Some (trim_ul_dl c) else None)"
proof -
  have dst: "\<lparr>ud_slices = map trim_slice (ud_slices c), len_sched_name = len_sched_name c,
      ud_sched_name = trim_str (len_sched_name c) (ud_sched_name c)\<rparr> = trim_ul_dl c"
    by (simp add: trim_ul_dl_def)
  show ?thesis
  proof (cases "copyable_ul_dl c")
    case True
    then show ?thesis
      using assms eq_ul_dl_trim[OF assms True] dst
      by (simp add: cpy_ul_dl_slice_conf_def wf_ul_dl_def cp_str_eq cpy_slices_eq copyable_ul_dl_def Let_def)
  next
    case False
    then show ?thesis
      using assms dst eq_sched_name_trim[of "ud_sched_name c" "len_sched_name c"]
      by (auto simp: cpy_ul_dl_slice_conf_def wf_ul_dl_def cp_str_eq cpy_slices_eq copyable_ul_dl_def Let_def
          eq_ul_dl_slice_conf_def trim_ul_dl_def)
  qed
qed

lemma eq_conf_trim: "wf_slice_conf c \<Longrightarrow> copyable c \<Longrightarrow> eq_slice_conf c (trim_slice_conf c) = Some True"
  by (simp add: eq_slice_conf_def trim_slice_conf_def wf_slice_conf_def copyable_def eq_ul_dl_trim)

lemma cp_slice_conf_eq:
  assumes "wf_slice_conf c"
  shows "cp_slice_conf c = (if copyable c then Some (trim_slice_conf c) else None)"
  using assms eq_conf_trim[OF assms]
  by (auto simp: cp_slice_conf_def wf_slice_conf_def cpy_ul_dl_eq copyable_def Let_def
      trim_slice_conf_def[symmetric])

lemma cp_ue_conf_eq: "cp_ue_slice_conf c = c"
proof -
  have "cp_ue_slice_assoc = id" by (rule ext) (simp add: cp_ue_slice_assoc_def)
  then show ?thesis by (simp add: cp_ue_slice_conf_def)
qed

lemma eq_ue_conf_refl: "eq_ue_slice_conf c c"
  by (simp add: eq_ue_slice_conf_def eq_ue_slice_assoc_def list_all2_same)

text \<open>
  C15: a slicing indication whose strings are as long as they say and whose slices all have an algorithm
  can be copied exactly when all its floats are numbers and no scheduler name of length zero has a
  block; the copy is then equal to it, field by field and for \<^verbatim>\<open>eq_slice_ind_msg\<close>, its strings cut to
  their length.  Otherwise an assertion of the copy aborts.
\<close>
theorem slice_ind_msg_copy:
  assumes "wf_slice_ind m"
  shows "cp_slice_ind_msg m = (if copyable (si_slice_conf m) then Some (trim_slice_ind m) else None)
    \<and> (copyable (si_slice_conf m) \<longrightarrow> eq_slice_ind_msg m (trim_slice_ind m) = Some True)"
proof -
  have eq: "eq_slice_ind_msg m (trim_slice_ind m) = Some True" if "copyable (si_slice_conf m)"
    using assms eq_conf_trim[OF _ that] eq_ue_conf_refl[of "si_ue_slice_conf m"]
    by (simp add: eq_slice_ind_msg_def trim_slice_ind_def wf_slice_ind_def)
  moreover have "\<lparr>si_slice_conf = trim_slice_conf (si_slice_conf m), si_ue_slice_conf = si_ue_slice_conf m,
      si_tstamp = si_tstamp m\<rparr> = trim_slice_ind m"
    by (simp add: trim_slice_ind_def)
  ultimately show ?thesis
    using assms by (simp add: cp_slice_ind_msg_def wf_slice_ind_def cp_slice_conf_eq cp_ue_conf_eq Let_def)
qed

theorem slice_ind_msg_copy_witness:
  "copyable (si_slice_conf sample_slice_ind) \<and> cp_slice_ind_msg sample_slice_ind = Some (trim_slice_ind sample_slice_ind)
    \<and> eq_slice_ind_msg sample_slice_ind (trim_slice_ind sample_slice_ind) = Some True"
proof -
  have "copyable (si_slice_conf sample_slice_ind)"
    by (simp add: copyable_def copyable_ul_dl_def sample_slice_ind_def float_nan_def)
  with slice_ind_msg_copy[OF sample_slice_ind_wf] show ?thesis by simp
qed

text \<open>A rate that is not a number.\<close>

theorem slice_nan_aborts:
  "cp_slice_params (SLICE_ALG_SM_V0_NVS (SLICE_SM_NVS_V0_RATE \<lparr>mbps_required = 0x7FC00000, mbps_reference = 0\<rparr>)) = None"
  using cp_slice_params_eq[of "SLICE_ALG_SM_V0_NVS (SLICE_SM_NVS_V0_RATE \<lparr>mbps_required = 0x7FC00000, mbps_reference = 0\<rparr>)"]
  by (simp add: float_nan_def)

text \<open>The comparison aborts when the two parameters are of one type and differ.\<close>

theorem slice_compare_aborts:
  assumes "pos_low a \<noteq> pos_low b"
  shows "eq_slice_params (SLICE_ALG_SM_V0_STATIC a) (SLICE_ALG_SM_V0_STATIC b) = None"
  using assms by (simp add: must_hold_def eq_static_slice_def)

text \<open>
  The outcome of a control request is sent without its answer: whatever it was, what arrives says
  \<^verbatim>\<open>SLICE_CTRL_OUT_OK\<close>, and so does a copy.
\<close>
theorem slice_ctrl_out_answer_lost:
  assumes "wf_str (out_diagnostic c) (len_diag c)"
  shows "\<exists>bs c'. slice_enc_ctrl_out_plain c = Some bs \<and> slice_dec_ctrl_out_plain bs = Some c'
    \<and> out_ans c' = SLICE_CTRL_OUT_OK \<and> len_diag c' = len_diag c
    \<and> mem_eq (out_diagnostic c) (out_diagnostic c') (unat (len_diag c)) = Some True
    \<and> (\<exists>d. cp_slice_ctrl_out c = Some d \<and> out_ans d = SLICE_CTRL_OUT_OK)"
proof -
  obtain d where d: "mem_read (out_diagnostic c) (unat (len_diag c)) = Some d"
    using assms by (auto simp: wf_str_def)
  show ?thesis
    using d mem_read_length[OF d] cp_str_eq[OF assms]
    by (auto simp: slice_enc_ctrl_out_plain_def slice_dec_ctrl_out_plain_def cp_slice_ctrl_out_def mem_eq_def
        Let_def mem_read_def split: option.splits if_splits)
qed

end
