(* ===== verification/Seq_Iface.thy ===== *)
theory Seq_Iface
  imports Prelude
begin

text \<open>
  The contract behind \<^verbatim>\<open>src/src/flexric/src/util/alg_ds/ds/seq_container/seq_generic.h\<close>: the
  generic macros dispatch on the type of the container, and every algorithm written with them
  relies on the same laws.  \<open>seq_container\<close> has the iteration laws, \<open>seq_queue\<close> adds pushing
  at the back and erasing from the front.  The containers interpret them.
\<close>

locale seq_container =
  fixes inv :: "'s \<Rightarrow> bool"
    and elems :: "'s \<Rightarrow> 'e list"
    and iter :: "'s \<Rightarrow> nat \<Rightarrow> 'it"
    and front :: "'s \<Rightarrow> 'it"
    and last_it :: "'s \<Rightarrow> 'it"
    and nxt :: "'s \<Rightarrow> 'it \<Rightarrow> 'it option"
    and rd :: "'s \<Rightarrow> 'it \<Rightarrow> 'e option"
  assumes front_iter: "inv s \<Longrightarrow> front s = iter s 0"
    and last_iter: "inv s \<Longrightarrow> last_it s = iter s (length (elems s))"
    and iter_inj: "inv s \<Longrightarrow> i \<le> length (elems s) \<Longrightarrow> j \<le> length (elems s)
      \<Longrightarrow> iter s i = iter s j \<longleftrightarrow> i = j"
    and nxt_iter: "inv s \<Longrightarrow> i < length (elems s) \<Longrightarrow> nxt s (iter s i) = Some (iter s (Suc i))"
    and rd_iter: "inv s \<Longrightarrow> i < length (elems s) \<Longrightarrow> rd s (iter s i) = Some (elems s ! i)"
begin

lemma find_loop_from:
  assumes "inv s"
  shows "i \<le> length (elems s) \<Longrightarrow>
    find_loop (nxt s) (rd s) f (iter s i) (last_it s)
      = Some (iter s (i + length (takeWhile (\<lambda>e. \<not> f e) (drop i (elems s)))))"
proof (induction "length (elems s) - i" arbitrary: i)
  case 0
  with assms show ?case
    by (subst find_loop.simps) (simp add: last_iter)
next
  case (Suc d)
  then have lt: "i < length (elems s)" by simp
  have "drop i (elems s) = elems s ! i # drop (Suc i) (elems s)"
    using lt by (simp add: Cons_nth_drop_Suc)
  moreover have "iter s i \<noteq> last_it s"
    using assms lt by (simp add: last_iter iter_inj)
  moreover have "find_loop (nxt s) (rd s) f (iter s (Suc i)) (last_it s)
      = Some (iter s (Suc i + length (takeWhile (\<lambda>e. \<not> f e) (drop (Suc i) (elems s)))))"
    using Suc lt by simp
  ultimately show ?case
    using assms lt by (subst find_loop.simps) (simp add: rd_iter nxt_iter)
qed

lemma find_loop_all:
  assumes "inv s"
  shows "find_loop (nxt s) (rd s) f (front s) (last_it s)
    = Some (iter s (length (takeWhile (\<lambda>e. \<not> f e) (elems s))))"
  using find_loop_from[OF assms, of 0 f] assms by (simp add: front_iter)

lemma visit_loop_from:
  assumes "inv s"
  shows "i \<le> length (elems s) \<Longrightarrow>
    visit_loop (nxt s) (rd s) (iter s i) (last_it s) = Some (drop i (elems s))"
proof (induction "length (elems s) - i" arbitrary: i)
  case 0
  with assms show ?case
    by (subst visit_loop.simps) (simp add: last_iter)
next
  case (Suc d)
  then have lt: "i < length (elems s)" by simp
  moreover have "iter s i \<noteq> last_it s"
    using assms lt by (simp add: last_iter iter_inj)
  moreover have "visit_loop (nxt s) (rd s) (iter s (Suc i)) (last_it s)
      = Some (drop (Suc i) (elems s))"
    using Suc lt by simp
  ultimately show ?case
    using assms by (subst visit_loop.simps) (simp add: rd_iter nxt_iter Cons_nth_drop_Suc)
qed

lemma visit_loop_all:
  assumes "inv s"
  shows "visit_loop (nxt s) (rd s) (front s) (last_it s) = Some (elems s)"
  using visit_loop_from[OF assms, of 0] assms by (simp add: front_iter)

lemma pop_loop_from:
  assumes "inv s"
  shows "i + n \<le> length (elems s) \<Longrightarrow>
    pop_loop (nxt s) (rd s) f n (iter s i) = Some (map f (take n (drop i (elems s))), iter s (i + n))"
proof (induction n arbitrary: i)
  case (Suc n)
  then have "drop i (elems s) = elems s ! i # drop (Suc i) (elems s)"
    by (simp add: Cons_nth_drop_Suc)
  with Suc assms show ?case by (simp add: nxt_iter rd_iter)
qed simp

end

locale seq_queue = seq_container inv elems iter front last_it nxt rd
  for inv :: "'s \<Rightarrow> bool"
    and elems :: "'s \<Rightarrow> 'e list"
    and iter :: "'s \<Rightarrow> nat \<Rightarrow> 'it"
    and front :: "'s \<Rightarrow> 'it"
    and last_it :: "'s \<Rightarrow> 'it"
    and nxt :: "'s \<Rightarrow> 'it \<Rightarrow> 'it option"
    and rd :: "'s \<Rightarrow> 'it \<Rightarrow> 'e option" +
  fixes room :: "'s \<Rightarrow> 'e \<Rightarrow> bool"
    and push :: "'s \<Rightarrow> 'e \<Rightarrow> 's option"
    and erase :: "'s \<Rightarrow> 'it \<Rightarrow> 'it \<Rightarrow> 's option"
  assumes push_ok: "inv s \<Longrightarrow> room s e
      \<Longrightarrow> \<exists>s'. push s e = Some s' \<and> inv s' \<and> elems s' = elems s @ [e]"
    and erase_ok: "inv s \<Longrightarrow> n \<le> length (elems s)
      \<Longrightarrow> \<exists>s'. erase s (front s) (iter s n) = Some s' \<and> inv s' \<and> elems s' = drop n (elems s)"

begin

lemma take_front:
  assumes "inv s" "n \<le> length (elems s)"
  obtains s' where "pop_loop (nxt s) (rd s) f n (front s) = Some (map f (take n (elems s)), iter s n)"
    and "erase s (front s) (iter s n) = Some s'" "inv s'" "elems s' = drop n (elems s)"
  using pop_loop_from[OF assms(1), of 0 n f] erase_ok[OF assms] assms by (auto simp: front_iter)

end

end
