(* ===== verification/Seq_Ring.thy ===== *)
theory Seq_Ring
  imports Seq_Iface
begin

text \<open>
  The growing ring buffer of
  \<^verbatim>\<open>src/src/flexric/src/util/alg_ds/ds/seq_container/seq_ring.c\<close>.  A slot is the
  \<^verbatim>\<open>elt_size\<close> bytes at one multiple of \<^verbatim>\<open>elt_size\<close> in \<^verbatim>\<open>array\<close>; an iterator, a pointer into
  \<^verbatim>\<open>array\<close>, is the index of its slot.  \<^verbatim>\<open>head\<close> and \<^verbatim>\<open>tail\<close> count pushes and erasures, are never
  reduced, and wrap around at \<^verbatim>\<open>2^32\<close>; a \<^verbatim>\<open>size_t\<close> is a natural number.  The abstraction
  \<open>ring_elems\<close> is the list of slots from \<^verbatim>\<open>tail\<close> to \<^verbatim>\<open>head\<close>.
\<close>

record seq_ring_t =
  r_elt_size :: nat
  r_array :: "u8 list list"
  r_cap :: nat
  r_head :: u32
  r_tail :: u32

definition mask_ring :: "u32 \<Rightarrow> u32 \<Rightarrow> u32" where
  "mask_ring cap val = val AND (cap - 1)"

abbreviation ring_pos :: "seq_ring_t \<Rightarrow> u32 \<Rightarrow> nat" where
  "ring_pos r v \<equiv> unat (mask_ring (of_nat (r_cap r)) v)"

definition seq_ring_size :: "seq_ring_t \<Rightarrow> nat" where
  "seq_ring_size r = unat (r_head r - r_tail r)"

definition full :: "seq_ring_t \<Rightarrow> bool" where
  "full r \<longleftrightarrow> seq_ring_size r = r_cap r - 1"

definition zero_slot :: "nat \<Rightarrow> u8 list" where
  "zero_slot n = replicate n 0"

definition seq_ring_init :: "nat \<Rightarrow> seq_ring_t" where
  "seq_ring_init sz = \<lparr>r_elt_size = sz, r_array = replicate 32 (zero_slot sz), r_cap = 32,
     r_head = 0, r_tail = 0\<rparr>"

definition enlarge_buffer :: "seq_ring_t \<Rightarrow> seq_ring_t option" where
  "enlarge_buffer r = do {
     assert_c (full r);
     let tmp = replicate (r_cap r * 2) (zero_slot (r_elt_size r));
     let head_pos = ring_pos r (r_head r);
     let tail_pos = ring_pos r (r_tail r);
     tmp \<leftarrow> (if head_pos > tail_pos
       then blit tmp 0 (r_array r) tail_pos (head_pos - tail_pos)
       else do {
         tmp \<leftarrow> blit tmp 0 (r_array r) tail_pos (r_cap r - tail_pos);
         blit tmp (r_cap r - tail_pos) (r_array r) 0 head_pos
       });
     let c = r_cap r * 2;
     Some (r\<lparr>r_cap := c, r_array := tmp, r_tail := 0, r_head := of_nat (c div 2 - 1)\<rparr>)
   }"

definition seq_ring_push_back :: "seq_ring_t \<Rightarrow> u8 list \<Rightarrow> nat \<Rightarrow> seq_ring_t option" where
  "seq_ring_push_back r data len = do {
     assert_c (len = r_elt_size r);
     r \<leftarrow> (if full r then enlarge_buffer r else Some r);
     let pos = ring_pos r (r_head r);
     assert_c (r_elt_size r \<le> length data \<and> pos < length (r_array r));
     Some (r\<lparr>r_array := (r_array r)[pos := take (r_elt_size r) data], r_head := r_head r + 1\<rparr>)
   }"

definition seq_ring_front :: "seq_ring_t \<Rightarrow> nat" where
  "seq_ring_front r = ring_pos r (r_tail r)"

definition seq_ring_next :: "seq_ring_t \<Rightarrow> nat \<Rightarrow> nat" where
  "seq_ring_next r it =
     (let pos = of_nat it :: u32 in if unat (pos + 1) = r_cap r then 0 else it + 1)"

definition seq_ring_end :: "seq_ring_t \<Rightarrow> nat" where
  "seq_ring_end r = ring_pos r (r_head r)"

definition seq_ring_at :: "seq_ring_t \<Rightarrow> u32 \<Rightarrow> nat" where
  "seq_ring_at r pos = ring_pos r (r_tail r + pos)"

definition seq_ring_erase :: "seq_ring_t \<Rightarrow> nat \<Rightarrow> nat \<Rightarrow> seq_ring_t option" where
  "seq_ring_erase r it_start it_end = do {
     assert_c (it_start = ring_pos r (r_tail r));
     if it_start = it_end then Some r
     else do {
       let start_pos = (of_nat it_start :: u32);
       let end_pos = (of_nat it_end :: u32);
       assert_c (unat end_pos \<le> r_cap r);
       assert_c (end_pos \<noteq> start_pos);
       r \<leftarrow> (if end_pos > start_pos
         then do {
           a \<leftarrow> fill (r_array r) it_start (unat (end_pos - start_pos)) (zero_slot (r_elt_size r));
           Some (r\<lparr>r_array := a, r_tail := r_tail r + (end_pos - start_pos)\<rparr>)
         }
         else do {
           assert_c (end_pos < start_pos);
           a \<leftarrow> fill (r_array r) it_start (r_cap r - unat start_pos) (zero_slot (r_elt_size r));
           a \<leftarrow> fill a 0 (unat end_pos) (zero_slot (r_elt_size r));
           Some (r\<lparr>r_array := a,
                   r_tail := r_tail r + of_nat (r_cap r - unat start_pos + unat end_pos)\<rparr>)
         });
       assert_c (mask_ring (of_nat (r_cap r)) (r_tail r) = end_pos);
       Some r
     }
   }"

definition seq_ring_dist :: "seq_ring_t \<Rightarrow> nat \<Rightarrow> nat \<Rightarrow> u32" where
  "seq_ring_dist r first fin =
     (let last_pos = of_nat fin :: u32; first_pos = of_nat first :: u32 in
      if last_pos > first_pos then last_pos - first_pos
      else of_nat (r_cap r - unat first_pos + unat last_pos))"

definition seq_ring_equal :: "nat \<Rightarrow> nat \<Rightarrow> bool" where
  "seq_ring_equal it_1 it_2 \<longleftrightarrow> it_1 = it_2"

text \<open>The elements passed to the callback of \<^verbatim>\<open>seq_ring_free\<close>, in order.\<close>

definition seq_ring_free :: "seq_ring_t \<Rightarrow> u8 list list option" where
  "seq_ring_free r = visit_loop (\<lambda>it. Some (seq_ring_next r it)) (peek (r_array r))
     (seq_ring_front r) (seq_ring_end r)"

definition find_if_ring :: "seq_ring_t \<Rightarrow> nat \<Rightarrow> nat \<Rightarrow> 'v \<Rightarrow> ('v \<Rightarrow> u8 list \<Rightarrow> bool) \<Rightarrow> nat option" where
  "find_if_ring r start_it end_it value f =
     find_loop (\<lambda>it. Some (seq_ring_next r it)) (peek (r_array r)) (f value) start_it end_it"

subsection \<open>Invariant and abstraction\<close>

definition ring_iter :: "seq_ring_t \<Rightarrow> nat \<Rightarrow> nat" where
  "ring_iter r i = (unat (r_tail r) + i) mod r_cap r"

definition ring_elems :: "seq_ring_t \<Rightarrow> u8 list list" where
  "ring_elems r = map (\<lambda>i. r_array r ! ring_iter r i) [0..<seq_ring_size r]"

definition pow2_cap :: "nat \<Rightarrow> bool" where
  "pow2_cap c \<longleftrightarrow> (\<exists>k. 5 \<le> k \<and> k \<le> 31 \<and> c = 2 ^ k)"

definition ring_inv :: "seq_ring_t \<Rightarrow> bool" where
  "ring_inv r \<longleftrightarrow> pow2_cap (r_cap r) \<and> length (r_array r) = r_cap r
     \<and> (\<forall>s \<in> set (r_array r). length s = r_elt_size r) \<and> seq_ring_size r < r_cap r"

lemma pow2_capD:
  assumes "pow2_cap c"
  shows "32 \<le> c" "c \<le> 2 ^ 31" "c dvd 2 ^ 32"
proof -
  from assms obtain k where k: "5 \<le> k" "k \<le> 31" "c = 2 ^ k"
    by (auto simp: pow2_cap_def)
  show "32 \<le> c" using power_increasing[OF k(1), of "2::nat"] k(3) by simp
  show "c \<le> 2 ^ 31" using power_increasing[OF k(2), of "2::nat"] k(3) by simp
  show "c dvd 2 ^ 32" using le_imp_power_dvd[of k 32 "2::nat"] k by simp
qed

lemma pow2_cap_double:
  assumes "pow2_cap c" "c < 2 ^ 31"
  shows "pow2_cap (c * 2)"
proof -
  from assms(1) obtain k where k: "5 \<le> k" "k \<le> 31" "c = 2 ^ k"
    by (auto simp: pow2_cap_def)
  with assms(2) have "k < 31"
    by (metis nat_power_less_imp_less zero_less_numeral)
  with k show ?thesis
    unfolding pow2_cap_def by (intro exI[of _ "Suc k"]) simp
qed

lemma unat_mask_ring:
  assumes "pow2_cap c"
  shows "unat (mask_ring (of_nat c) v) = unat v mod c"
proof -
  from assms obtain k where k: "5 \<le> k" "k \<le> 31" "c = 2 ^ k"
    by (auto simp: pow2_cap_def)
  have "mask_ring (of_nat c) v = take_bit k v"
    by (simp add: mask_ring_def k(3) take_bit_eq_mask mask_eq_exp_minus_1)
  then show ?thesis
    by (simp only: unsigned_take_bit_eq) (simp add: take_bit_eq_mod k(3))
qed

lemma unat_add_mod_cap:
  fixes v :: u32
  assumes "pow2_cap c"
  shows "unat (v + of_nat i) mod c = (unat v + i) mod c"
proof -
  have "unat (v + of_nat i) = (unat v + i) mod 2 ^ 32"
    by (simp add: unat_word_ariths unat_of_nat take_bit_eq_mod mod_simps)
  then show ?thesis
    using mod_mod_cancel[OF pow2_capD(3)[OF assms], of "unat v + i"] by simp
qed

lemma ring_pos_mod:
  "pow2_cap (r_cap r) \<Longrightarrow> ring_pos r v = unat v mod r_cap r"
  by (rule unat_mask_ring)

lemma head_tail_size:
  "unat (r_head r) mod c = (unat (r_tail r) + seq_ring_size r) mod c" if "pow2_cap c"
  using unat_add_mod_cap[OF that, of "r_tail r" "seq_ring_size r"]
  by (simp add: seq_ring_size_def)

lemma length_ring_elems [simp]: "length (ring_elems r) = seq_ring_size r"
  by (simp add: ring_elems_def)

lemma nth_ring_elems: "i < seq_ring_size r \<Longrightarrow> ring_elems r ! i = r_array r ! ring_iter r i"
  by (simp add: ring_elems_def)

lemma ring_iter_less: "ring_inv r \<Longrightarrow> ring_iter r i < r_cap r"
  using pow2_capD(1) by (fastforce simp: ring_inv_def ring_iter_def)

lemma ring_iter_inj:
  assumes "i < r_cap r" "j < r_cap r"
  shows "ring_iter r i = ring_iter r j \<longleftrightarrow> i = j"
proof -
  have "i = j" if "i \<le> j" "j < r_cap r" "(unat (r_tail r) + i) mod r_cap r
      = (unat (r_tail r) + j) mod r_cap r" for i j
  proof -
    have "r_cap r dvd (unat (r_tail r) + j) - (unat (r_tail r) + i)"
      using that mod_eq_dvd_iff_nat[of "unat (r_tail r) + i" "unat (r_tail r) + j" "r_cap r"]
      by simp
    then show "i = j" using that by (auto dest: dvd_imp_le)
  qed
  from this[of i j] this[of j i] assms show ?thesis
    by (cases "i \<le> j") (auto simp: ring_iter_def)
qed

lemma ring_inv_iter_defs:
  assumes "ring_inv r"
  shows "seq_ring_front r = ring_iter r 0" "seq_ring_end r = ring_iter r (seq_ring_size r)"
    "seq_ring_at r (of_nat i) = ring_iter r i"
  using assms head_tail_size[of "r_cap r" r]
  by (auto simp: ring_inv_def ring_iter_def seq_ring_front_def seq_ring_end_def
      seq_ring_at_def ring_pos_mod unat_add_mod_cap)

lemma unat_of_nat_cap:
  "ring_inv r \<Longrightarrow> i \<le> r_cap r \<Longrightarrow> unat (of_nat i :: u32) = i"
  using pow2_capD(2)[of "r_cap r"] by (intro unat_of_nat_len32) (simp add: ring_inv_def)

lemma seq_ring_next_iter:
  assumes "ring_inv r"
  shows "seq_ring_next r (ring_iter r i) = ring_iter r (Suc i)"
proof -
  note lt = ring_iter_less[OF assms, of i]
  have "(of_nat (ring_iter r i) + 1 :: u32) = of_nat (ring_iter r i + 1)" by simp
  moreover have "unat (of_nat (ring_iter r i + 1) :: u32) = ring_iter r i + 1"
    using lt by (intro unat_of_nat_cap[OF assms]) simp
  ultimately have "unat (of_nat (ring_iter r i) + 1 :: u32) = ring_iter r i + 1"
    by (simp add: ac_simps)
  moreover have "ring_iter r (Suc i) = (ring_iter r i + 1) mod r_cap r"
    by (simp add: ring_iter_def mod_simps)
  ultimately show ?thesis
    using lt by (simp add: seq_ring_next_def Let_def)
qed

subsection \<open>Initialisation, growing and pushing\<close>

lemma ring_init_inv: "ring_inv (seq_ring_init n)"
  unfolding ring_inv_def pow2_cap_def
  by (auto simp: seq_ring_init_def seq_ring_size_def zero_slot_def intro!: exI[of _ 5])

lemma ring_init_elems: "ring_elems (seq_ring_init n) = []"
  by (simp add: ring_elems_def seq_ring_init_def seq_ring_size_def)

lemma length_ring_slot:
  "ring_inv r \<Longrightarrow> i < r_cap r \<Longrightarrow> length (r_array r ! i) = r_elt_size r"
  by (simp add: ring_inv_def)

lemma enlarge_copy:
  assumes inv: "ring_inv r" and full: "full r"
  defines "hp \<equiv> ring_pos r (r_head r)" and "tp \<equiv> ring_pos r (r_tail r)"
  defines "tmp \<equiv> replicate (r_cap r * 2) (zero_slot (r_elt_size r))"
  shows "\<exists>a. (if hp > tp then blit tmp 0 (r_array r) tp (hp - tp)
       else do { t \<leftarrow> blit tmp 0 (r_array r) tp (r_cap r - tp);
                 blit t (r_cap r - tp) (r_array r) 0 hp }) = Some a
     \<and> a = ring_elems r @ replicate (r_cap r + 1) (zero_slot (r_elt_size r))"
proof -
  have cap: "pow2_cap (r_cap r)" "length (r_array r) = r_cap r" "32 \<le> r_cap r"
    using inv pow2_capD(1) by (auto simp: ring_inv_def)
  have sz: "seq_ring_size r = r_cap r - 1" using full by (simp add: full_def)
  have tp: "tp = ring_iter r 0" and hp: "hp = (tp + (r_cap r - 1)) mod r_cap r"
    using cap head_tail_size[OF cap(1), of r] sz
      mod_add_left_eq[of "unat (r_tail r)" "r_cap r" "r_cap r - 1"]
    by (simp_all add: tp_def hp_def ring_pos_mod ring_iter_def mod_simps)
  have tpl: "tp < r_cap r" using ring_iter_less[OF inv] tp by simp
  have el: "ring_elems r = take (r_cap r - 1) (drop tp (r_array r) @ take tp (r_array r))"
  proof (rule nth_equalityI)
    fix i assume "i < length (ring_elems r)"
    then have i: "i < r_cap r - 1" by (simp add: sz)
    have "ring_iter r i = (tp + i) mod r_cap r"
      by (simp add: tp ring_iter_def mod_simps)
    also have "\<dots> = (if tp + i < r_cap r then tp + i else tp + i - r_cap r)"
      using tpl i by (simp add: mod_if)
    finally show "ring_elems r ! i
        = take (r_cap r - 1) (drop tp (r_array r) @ take tp (r_array r)) ! i"
      using i tpl cap by (auto simp: nth_ring_elems sz nth_append add.commute)
  qed (use cap sz tpl in simp)
  show ?thesis
  proof (cases "tp = 0")
    case True
    then have "hp = r_cap r - 1" using hp cap(3) by simp
    with True cap show ?thesis
      by (simp add: el blit_def tmp_def)
  next
    case False
    then have "hp = tp - 1"
      using hp tpl by (simp add: mod_if)
    moreover have "take (r_cap r - 1) (drop tp (r_array r) @ take tp (r_array r))
        = drop tp (r_array r) @ take (tp - 1) (r_array r)"
      using False tpl cap by simp
    ultimately show ?thesis
      using False cap tpl by (auto simp add: el blit_def tmp_def min_absorb2)
  qed
qed

lemma enlarge_buffer_ok:
  assumes inv: "ring_inv r" and full: "full r" and small: "r_cap r < 2 ^ 31"
  shows "\<exists>r'. enlarge_buffer r = Some r' \<and> ring_inv r' \<and> ring_elems r' = ring_elems r
    \<and> r_elt_size r' = r_elt_size r \<and> \<not> full r' \<and> r_cap r' = 2 * r_cap r"
proof -
  let ?a = "ring_elems r @ replicate (r_cap r + 1) (zero_slot (r_elt_size r))"
  define r' where "r' = r\<lparr>r_cap := r_cap r * 2, r_array := ?a, r_tail := 0, r_head := of_nat (r_cap r - 1)\<rparr>"
  have cap: "pow2_cap (r_cap r)" "32 \<le> r_cap r"
    using inv pow2_capD(1) by (auto simp: ring_inv_def)
  have sz: "seq_ring_size r = r_cap r - 1" using full by (simp add: full_def)
  have enl: "enlarge_buffer r = Some r'"
    using enlarge_copy[OF inv full] full by (auto simp: enlarge_buffer_def Let_def r'_def)
  have sz': "seq_ring_size r' = r_cap r - 1"
    using unat_of_nat_cap[OF inv, of "r_cap r - 1"] by (simp add: r'_def seq_ring_size_def)
  have el: "ring_elems r' = ring_elems r"
  proof (rule nth_equalityI)
    fix i assume "i < length (ring_elems r')"
    then show "ring_elems r' ! i = ring_elems r ! i"
      using sz' by (simp add: nth_ring_elems sz) (simp add: ring_iter_def r'_def sz nth_append nth_ring_elems)
  qed (simp add: sz sz')
  have "length s = r_elt_size r" if "s \<in> set (ring_elems r)" for s
    using that ring_iter_less[OF inv] length_ring_slot[OF inv]
    by (auto simp: ring_elems_def)
  then have "ring_inv r'"
    unfolding ring_inv_def using pow2_cap_double[OF cap(1) small] cap sz sz'
    by (auto simp: r'_def zero_slot_def)
  moreover have "\<not> full r'"
    using sz' cap by (simp add: full_def r'_def)
  ultimately show ?thesis using enl el by (auto simp: r'_def)
qed

lemma push_no_enlarge:
  assumes inv: "ring_inv r" and nfull: "\<not> full r" and data: "length data = r_elt_size r"
  defines "r' \<equiv> r\<lparr>r_array := (r_array r)[ring_pos r (r_head r) := data], r_head := r_head r + 1\<rparr>"
  shows "ring_inv r' \<and> ring_elems r' = ring_elems r @ [data]"
proof -
  have cap: "pow2_cap (r_cap r)" "length (r_array r) = r_cap r" "seq_ring_size r < r_cap r - 1"
    "r_cap r \<le> 2 ^ 31"
    using inv nfull pow2_capD(2) by (auto simp: ring_inv_def full_def)
  have pos: "ring_pos r (r_head r) = ring_iter r (seq_ring_size r)"
    using ring_inv_iter_defs(2)[OF inv] by (simp add: seq_ring_end_def)
  have sz: "seq_ring_size r' = Suc (seq_ring_size r)"
  proof -
    have "r_head r + 1 - r_tail r = of_nat (Suc (seq_ring_size r))"
      by (simp add: seq_ring_size_def)
    moreover have "unat (of_nat (Suc (seq_ring_size r)) :: u32) = Suc (seq_ring_size r)"
      using cap by (intro unat_of_nat_len32) auto
    ultimately show ?thesis
      unfolding seq_ring_size_def[of r'] by (simp add: r'_def del: of_nat_Suc)
  qed
  have el: "ring_elems r' = ring_elems r @ [data]"
  proof (rule nth_equalityI)
    fix i assume "i < length (ring_elems r')"
    then have i: "i < Suc (seq_ring_size r)" by (simp add: sz)
    have "ring_iter r i = ring_iter r (seq_ring_size r) \<longleftrightarrow> i = seq_ring_size r"
      using i cap by (intro ring_iter_inj) auto
    moreover have "ring_iter r' i = ring_iter r i"
      by (simp add: r'_def ring_iter_def)
    ultimately show "ring_elems r' ! i = (ring_elems r @ [data]) ! i"
      using i ring_iter_less[OF inv] cap sz
      by (auto simp: nth_ring_elems nth_append pos) (auto simp: r'_def pos nth_list_update)
  qed (simp add: sz)
  have "ring_inv r'"
    using inv data cap sz set_update_subset_insert[of "r_array r" "ring_pos r (r_head r)" data]
    unfolding ring_inv_def by (auto simp: r'_def)
  with el show ?thesis by simp
qed

definition ring_room :: "seq_ring_t \<Rightarrow> u8 list \<Rightarrow> bool" where
  "ring_room r data \<longleftrightarrow> length data = r_elt_size r \<and> seq_ring_size r < 2 ^ 31 - 1"

lemma push_back_ok:
  assumes inv: "ring_inv r" and room: "ring_room r data"
  shows "\<exists>r'. seq_ring_push_back r data (length data) = Some r' \<and> ring_inv r'
    \<and> ring_elems r' = ring_elems r @ [data] \<and> r_elt_size r' = r_elt_size r"
proof -
  obtain r1 where r1: "(if full r then enlarge_buffer r else Some r) = Some r1" "ring_inv r1"
    "ring_elems r1 = ring_elems r" "r_elt_size r1 = r_elt_size r" "\<not> full r1"
  proof (cases "full r")
    case True
    then have "r_cap r < 2 ^ 31"
      using room by (auto simp: full_def ring_room_def)
    from enlarge_buffer_ok[OF inv True this] True that show ?thesis by auto
  qed (use inv that in auto)
  have "length data = r_elt_size r1" using room r1 by (simp add: ring_room_def)
  note push = push_no_enlarge[OF r1(2,5) this]
  have "ring_pos r1 (r_head r1) < length (r_array r1)"
    using r1(2) ring_inv_iter_defs(2)[OF r1(2)] ring_iter_less[OF r1(2)]
    by (simp add: seq_ring_end_def ring_inv_def)
  then show ?thesis
    using room r1 push by (auto simp: seq_ring_push_back_def ring_room_def Let_def)
qed

subsection \<open>Erasing and searching\<close>

lemma ring_skip_tail:
  assumes inv: "ring_inv r" and n: "n \<le> seq_ring_size r"
    and len: "length a = r_cap r" "\<forall>s \<in> set a. length s = r_elt_size r"
    and keep: "\<And>i. n \<le> i \<Longrightarrow> i < seq_ring_size r \<Longrightarrow> a ! ring_iter r i = r_array r ! ring_iter r i"
  defines "r' \<equiv> r\<lparr>r_array := a, r_tail := r_tail r + of_nat n\<rparr>"
  shows "ring_inv r' \<and> ring_elems r' = drop n (ring_elems r)"
proof -
  have cap: "pow2_cap (r_cap r)" using inv by (simp add: ring_inv_def)
  have n32: "unat (of_nat n :: u32) = n"
    using n inv by (intro unat_of_nat_cap[OF inv]) (simp add: ring_inv_def)
  have "r_head r - (r_tail r + of_nat n) = (r_head r - r_tail r) - of_nat n" by simp
  also have "unat \<dots> = seq_ring_size r - n"
    using n n32 by (subst unat_sub) (simp_all add: seq_ring_size_def word_le_nat_alt)
  finally have sz: "seq_ring_size r' = seq_ring_size r - n"
    by (simp add: r'_def seq_ring_size_def)
  have it: "ring_iter r' i = ring_iter r (n + i)" for i
    using mod_add_left_eq[of "unat (r_tail r + of_nat n)" "r_cap r" i]
      mod_add_left_eq[of "unat (r_tail r) + n" "r_cap r" i] unat_add_mod_cap[OF cap]
    by (simp add: ring_iter_def r'_def add.assoc)
  have "ring_elems r' = drop n (ring_elems r)"
    by (rule nth_equalityI) (use sz n keep in \<open>auto simp: nth_ring_elems it\<close>,
        simp add: r'_def keep)
  moreover have "ring_inv r'"
    using inv sz len by (auto simp: ring_inv_def r'_def)
  ultimately show ?thesis by simp
qed

lemma erase_ok:
  assumes inv: "ring_inv r" and n: "n \<le> seq_ring_size r"
  shows "\<exists>r'. seq_ring_erase r (seq_ring_front r) (ring_iter r n) = Some r' \<and> ring_inv r'
    \<and> ring_elems r' = drop n (ring_elems r) \<and> r_elt_size r' = r_elt_size r"
proof (cases "n = 0")
  case True
  then show ?thesis
    using inv ring_inv_iter_defs(1)[OF inv]
    by (auto simp: seq_ring_erase_def seq_ring_front_def)
next
  case False
  have cap: "pow2_cap (r_cap r)" "length (r_array r) = r_cap r" "n < r_cap r"
    using inv n by (auto simp: ring_inv_def)
  let ?s = "ring_iter r 0" and ?e = "ring_iter r n" and ?z = "zero_slot (r_elt_size r)"
  have lt: "?s < r_cap r" "?e < r_cap r" using ring_iter_less[OF inv] by auto
  have u: "unat (of_nat ?s :: u32) = ?s" "unat (of_nat ?e :: u32) = ?e"
    using lt unat_of_nat_cap[OF inv] by auto
  have ne: "?s \<noteq> ?e" using ring_iter_inj[of 0 r n] cap False by simp
  have un: "unat (of_nat n :: u32) = n" using unat_of_nat_cap[OF inv] cap by simp
  have e: "?e = (?s + n) mod r_cap r" by (simp add: ring_iter_def mod_simps)
  have iter: "ring_iter r i = (if ?s + i < r_cap r then ?s + i else ?s + i - r_cap r)"
    if "i < r_cap r" for i
  proof -
    have "ring_iter r i = (?s + i) mod r_cap r" by (simp add: ring_iter_def mod_simps)
    then show ?thesis using that lt by (simp add: mod_if)
  qed
  have szc: "seq_ring_size r < r_cap r" using inv by (simp add: ring_inv_def)
  have fin: "mask_ring (of_nat (r_cap r)) (r_tail r + of_nat n) = (of_nat ?e :: u32)"
    by (rule word_unat_eq_iff[THEN iffD2])
      (simp add: unat_mask_ring[OF cap(1)] unat_add_mod_cap[OF cap(1)] u(2), simp add: ring_iter_def)
  have slots: "\<forall>s \<in> set (r_array r). length s = r_elt_size r" using inv by (simp add: ring_inv_def)
  have front: "?s = ring_pos r (r_tail r)" using ring_inv_iter_defs(1)[OF inv]
    by (simp add: seq_ring_front_def)
  have ne32: "(of_nat ?e :: u32) \<noteq> of_nat ?s" using u ne by (metis)
  show ?thesis
  proof (cases "?s < ?e")
    case True
    then have d: "?e - ?s = n" using iter[OF cap(3)] lt cap(3) by (simp split: if_splits)
    have d32: "(of_nat ?e :: u32) - of_nat ?s = of_nat n" "(of_nat ?s :: u32) < of_nat ?e"
      using True d u by (simp_all add: word_less_nat_alt of_nat_diff[symmetric])
    obtain a where a: "fill (r_array r) ?s n ?z = Some a" "length a = r_cap r"
      "\<forall>i < r_cap r. a ! i = (if ?s \<le> i \<and> i < ?s + n then ?z else r_array r ! i)"
    proof -
      have "?s + n \<le> length (r_array r)" using lt d cap True by simp
      from fill_total[OF this, of ?z] cap that show ?thesis by auto
    qed
    have "ring_inv (r\<lparr>r_array := a, r_tail := r_tail r + of_nat n\<rparr>)
      \<and> ring_elems (r\<lparr>r_array := a, r_tail := r_tail r + of_nat n\<rparr>) = drop n (ring_elems r)"
    proof (rule ring_skip_tail[OF inv n])
      show "length a = r_cap r" by (rule a(2))
      show "\<forall>s\<in>set a. length s = r_elt_size r"
        using set_fill[OF a(1)] slots by (auto simp: zero_slot_def)
      show "a ! ring_iter r i = r_array r ! ring_iter r i" if "n \<le> i" "i < seq_ring_size r" for i
        using a(3) iter[of i] that szc lt ring_iter_less[OF inv, of i] d by auto
    qed
    then show ?thesis
      using front[symmetric] ne ne32 d32 un a(1) fin lt u
      by (simp add: seq_ring_erase_def seq_ring_front_def Let_def)
  next
    case False
    with ne have lt': "?e < ?s" by simp
    then have d: "r_cap r - ?s + ?e = n" using iter[OF cap(3)] lt by (auto split: if_splits)
    have d32: "\<not> (of_nat ?s :: u32) < of_nat ?e" "(of_nat ?e :: u32) < of_nat ?s"
      using lt' u by (simp_all add: word_less_nat_alt)
    obtain a where a: "fill (r_array r) ?s (r_cap r - ?s) ?z = Some a" "length a = r_cap r"
      "\<forall>i < r_cap r. a ! i = (if ?s \<le> i \<and> i < ?s + (r_cap r - ?s) then ?z else r_array r ! i)"
    proof -
      have "?s + (r_cap r - ?s) \<le> length (r_array r)" using lt cap by simp
      from fill_total[OF this, of ?z] cap that show ?thesis by auto
    qed
    obtain b where b: "fill a 0 ?e ?z = Some b" "length b = r_cap r"
      "\<forall>i < r_cap r. b ! i = (if 0 \<le> i \<and> i < 0 + ?e then ?z else a ! i)"
    proof -
      have "0 + ?e \<le> length a" using lt a(2) by simp
      from fill_total[OF this, of ?z] a(2) that show ?thesis by auto
    qed
    have "ring_inv (r\<lparr>r_array := b, r_tail := r_tail r + of_nat n\<rparr>)
      \<and> ring_elems (r\<lparr>r_array := b, r_tail := r_tail r + of_nat n\<rparr>) = drop n (ring_elems r)"
    proof (rule ring_skip_tail[OF inv n])
      show "length b = r_cap r" by (rule b(2))
      show "\<forall>s\<in>set b. length s = r_elt_size r"
        using set_fill[OF b(1)] set_fill[OF a(1)] slots
        by (metis insertE length_replicate subset_iff zero_slot_def)
      show "b ! ring_iter r i = r_array r ! ring_iter r i" if "n \<le> i" "i < seq_ring_size r" for i
        using a(3) b(3) iter[of i] that szc lt ring_iter_less[OF inv, of i] d by auto
    qed
    then show ?thesis
      using front[symmetric] ne ne32 d32 d un a(1) b(1) fin lt u
      by (simp add: seq_ring_erase_def seq_ring_front_def Let_def)
  qed
qed

interpretation ring: seq_queue ring_inv ring_elems ring_iter seq_ring_front seq_ring_end
  "\<lambda>r it. Some (seq_ring_next r it)" "\<lambda>r. peek (r_array r)" ring_room
  "\<lambda>r e. seq_ring_push_back r e (length e)" seq_ring_erase
proof unfold_locales
  show "seq_ring_front s = ring_iter s 0" if "ring_inv s" for s
    using ring_inv_iter_defs(1)[OF that] .
  show "seq_ring_end s = ring_iter s (length (ring_elems s))" if "ring_inv s" for s
    using ring_inv_iter_defs(2)[OF that] by simp
  show "ring_iter s i = ring_iter s j \<longleftrightarrow> i = j"
    if "ring_inv s" "i \<le> length (ring_elems s)" "j \<le> length (ring_elems s)" for s i j
    using that by (intro ring_iter_inj) (auto simp: ring_inv_def)
  show "Some (seq_ring_next s (ring_iter s i)) = Some (ring_iter s (Suc i))"
    if "ring_inv s" for s i
    using seq_ring_next_iter[OF that] by simp
  show "peek (r_array s) (ring_iter s i) = Some (ring_elems s ! i)"
    if "ring_inv s" "i < length (ring_elems s)" for s i
    using that ring_iter_less[OF that(1)] by (simp add: nth_ring_elems ring_inv_def)
  show "\<exists>s'. seq_ring_push_back s e (length e) = Some s' \<and> ring_inv s'
      \<and> ring_elems s' = ring_elems s @ [e]" if "ring_inv s" "ring_room s e" for s e
    using push_back_ok[OF that] by auto
  show "\<exists>s'. seq_ring_erase s (seq_ring_front s) (ring_iter s n) = Some s' \<and> ring_inv s'
      \<and> ring_elems s' = drop n (ring_elems s)"
    if "ring_inv s" "n \<le> length (ring_elems s)" for s n
    using erase_ok[of s n] that by auto
qed

end
