(* ===== verification/Tsn_Queue.thy ===== *)
theory Tsn_Queue
  imports Seq_Ring
begin

text \<open>
  The thread-safe queues over the ring buffer:
  \<^verbatim>\<open>src/src/flexric/src/util/alg_ds/ds/tsn_queue/tsn_queue.c\<close>, whose consumers wait, and
  \<^verbatim>\<open>src/src/flexric/src/util/alg_ds/ds/tsq/tsq.c\<close>, whose consumers do not.  Every operation
  holds the mutex of the queue from its first access to its last, so an execution of several
  threads is a sequence of operations; a consumer that finds the queue empty gives the mutex
  back in \<^verbatim>\<open>pthread_cond_wait\<close> and takes the same critical section again when it wakes up.
\<close>

record tsnq_t =
  tq_r :: seq_ring_t
  stop_token :: bool
  stopped :: bool

datatype 'b pop_result = Pop_wait | Pop_null | Pop_elm 'b

definition init_tsnq :: "nat \<Rightarrow> tsnq_t option" where
  "init_tsnq elm_sz = do {
     assert_c (elm_sz > 0);
     Some \<lparr>tq_r = seq_ring_init elm_sz, stop_token = False, stopped = False\<rparr>
   }"

definition push_tsnq :: "tsnq_t \<Rightarrow> u8 list \<Rightarrow> nat \<Rightarrow> tsnq_t option" where
  "push_tsnq q val sz = do {
     r \<leftarrow> seq_ring_push_back (tq_r q) val sz;
     Some (q\<lparr>tq_r := r\<rparr>)
   }"

text \<open>\<open>rc\<close> is the result of the last \<^verbatim>\<open>pthread_cond_wait\<close>, zero before the first.\<close>

definition wait_and_pop_tsnq :: "int \<Rightarrow> tsnq_t \<Rightarrow> (u8 list \<Rightarrow> 'b) \<Rightarrow> (tsnq_t \<times> 'b pop_result) option" where
  "wait_and_pop_tsnq rc q f =
     (if seq_ring_size (tq_r q) = 0 \<and> rc = 0 \<and> \<not> stop_token q then Some (q, Pop_wait)
      else if stop_token q then Some (q\<lparr>stopped := True\<rparr>, Pop_null)
      else do {
        assert_c (rc = 0);
        let it = seq_ring_front (tq_r q);
        e \<leftarrow> peek (r_array (tq_r q)) it;
        let elm = f e;
        assert_c (it \<noteq> seq_ring_end (tq_r q));
        let n = seq_ring_next (tq_r q) it;
        r \<leftarrow> seq_ring_erase (tq_r q) it n;
        Some (q\<lparr>tq_r := r\<rparr>, Pop_elm elm)
      })"

text \<open>
  \<^verbatim>\<open>pop_tsnq_10\<close> and \<^verbatim>\<open>pop_tsnq_100\<close> are the same code with another count.  The callback is run
  on every element; only the result of the last call is returned.  \<open>pop_tsnq\<close> gives the
  results of all calls.
\<close>

definition pop_tsnq :: "nat \<Rightarrow> tsnq_t \<Rightarrow> (u8 list \<Rightarrow> 'b) \<Rightarrow> (tsnq_t \<times> 'b list pop_result) option" where
  "pop_tsnq n q f =
     (if stop_token q then Some (q\<lparr>stopped := True\<rparr>, Pop_null)
      else do {
        assert_c (seq_ring_size (tq_r q) \<ge> n);
        let it = seq_ring_front (tq_r q);
        assert_c (it \<noteq> seq_ring_end (tq_r q));
        (elms, fin) \<leftarrow> pop_loop (\<lambda>it. Some (seq_ring_next (tq_r q) it)) (peek (r_array (tq_r q))) f n it;
        r \<leftarrow> seq_ring_erase (tq_r q) it fin;
        Some (q\<lparr>tq_r := r\<rparr>, Pop_elm elms)
      })"

definition last_elm :: "(tsnq_t \<times> 'b list pop_result) option \<Rightarrow> (tsnq_t \<times> 'b pop_result) option" where
  "last_elm x = map_option (\<lambda>(q, p). (q, case p of Pop_elm es \<Rightarrow> Pop_elm (last es)
     | Pop_null \<Rightarrow> Pop_null | Pop_wait \<Rightarrow> Pop_wait)) x"

definition pop_tsnq_10 :: "tsnq_t \<Rightarrow> (u8 list \<Rightarrow> 'b) \<Rightarrow> (tsnq_t \<times> 'b pop_result) option" where
  "pop_tsnq_10 q f = last_elm (pop_tsnq 10 q f)"

definition pop_tsnq_100 :: "tsnq_t \<Rightarrow> (u8 list \<Rightarrow> 'b) \<Rightarrow> (tsnq_t \<times> 'b pop_result) option" where
  "pop_tsnq_100 q f = last_elm (pop_tsnq 100 q f)"

definition size_tsnq :: "tsnq_t \<Rightarrow> nat" where
  "size_tsnq q = seq_ring_size (tq_r q)"

text \<open>
  \<^verbatim>\<open>free_tsnq\<close> raises the stop token, then polls until a consumer has confirmed, then frees the
  elements left in the ring.  \<open>free_tsnq_release\<close> is \<^term>\<open>None\<close> while it is still polling.
\<close>

definition free_tsnq_stop :: "tsnq_t \<Rightarrow> tsnq_t" where
  "free_tsnq_stop q = q\<lparr>stop_token := True\<rparr>"

definition free_tsnq_release :: "tsnq_t \<Rightarrow> u8 list list option" where
  "free_tsnq_release q = (if stopped q then seq_ring_free (tq_r q) else None)"

definition push_tsq :: "seq_ring_t \<Rightarrow> u8 list \<Rightarrow> nat \<Rightarrow> seq_ring_t option" where
  "push_tsq r val sz = do { assert_c (sz > 0); seq_ring_push_back r val sz }"

definition pop_tsq :: "seq_ring_t \<Rightarrow> nat \<Rightarrow> (seq_ring_t \<times> u8 list) option" where
  "pop_tsq r elm_sz = do {
     assert_c (r_elt_size r = elm_sz);
     assert_c (seq_ring_size r \<noteq> 0);
     let it = seq_ring_front r;
     val \<leftarrow> peek (r_array r) it;
     assert_c (it \<noteq> seq_ring_end r);
     let n = seq_ring_next r it;
     r \<leftarrow> seq_ring_erase r it n;
     Some (r, val)
   }"

subsection \<open>Executions\<close>

datatype tsnq_call = Push "u8 list" | Pop | Pop_10 | Pop_100 | Stop

text \<open>One operation of some thread, with the elements it takes from the queue.\<close>

inductive tsnq_step :: "tsnq_t \<Rightarrow> tsnq_call \<Rightarrow> u8 list list \<Rightarrow> tsnq_t \<Rightarrow> bool" where
  push: "push_tsnq q v (length v) = Some q' \<Longrightarrow> tsnq_step q (Push v) [] q'"
| pop: "wait_and_pop_tsnq 0 q id = Some (q', Pop_elm e) \<Longrightarrow> tsnq_step q Pop [e] q'"
| wait: "wait_and_pop_tsnq 0 q id = Some (q', Pop_wait) \<Longrightarrow> tsnq_step q Pop [] q'"
| null: "wait_and_pop_tsnq 0 q id = Some (q', Pop_null) \<Longrightarrow> tsnq_step q Pop [] q'"
| pop_10: "pop_tsnq 10 q id = Some (q', Pop_elm es) \<Longrightarrow> tsnq_step q Pop_10 es q'"
| null_10: "pop_tsnq 10 q id = Some (q', Pop_null) \<Longrightarrow> tsnq_step q Pop_10 [] q'"
| pop_100: "pop_tsnq 100 q id = Some (q', Pop_elm es) \<Longrightarrow> tsnq_step q Pop_100 es q'"
| null_100: "pop_tsnq 100 q id = Some (q', Pop_null) \<Longrightarrow> tsnq_step q Pop_100 [] q'"
| stop: "tsnq_step q Stop [] (free_tsnq_stop q)"

inductive_cases tsnq_pushE: "tsnq_step q (Push v) es q'"

inductive tsnq_run :: "tsnq_t \<Rightarrow> tsnq_call list \<Rightarrow> u8 list list \<Rightarrow> tsnq_t \<Rightarrow> bool" where
  nil: "tsnq_run q [] [] q"
| snoc: "tsnq_run q cs out q' \<Longrightarrow> tsnq_step q' c es q'' \<Longrightarrow> tsnq_run q (cs @ [c]) (out @ es) q''"

fun pushed :: "tsnq_call list \<Rightarrow> u8 list list" where
  "pushed [] = []"
| "pushed (Push v # cs) = v # pushed cs"
| "pushed (_ # cs) = pushed cs"

lemma pushed_append [simp]: "pushed (cs @ ds) = pushed cs @ pushed ds"
  by (induction cs rule: pushed.induct) simp_all

definition tsnq_inv :: "tsnq_t \<Rightarrow> bool" where
  "tsnq_inv q \<longleftrightarrow> ring_inv (tq_r q)"

definition contents :: "tsnq_t \<Rightarrow> u8 list list" where
  "contents q = ring_elems (tq_r q)"

subsection \<open>Each operation\<close>

lemma push_tsnq_room:
  assumes "push_tsnq q v (length v) = Some q'" "tsnq_inv q" "length (contents q) < 2 ^ 31 - 1"
  shows "tsnq_inv q' \<and> contents q' = contents q @ [v] \<and> stop_token q' = stop_token q"
proof -
  have "ring_room (tq_r q) v"
    using assms by (auto simp: push_tsnq_def seq_ring_push_back_def bind_Some_iff ring_room_def
        contents_def split: if_splits)
  with ring.push_ok[of "tq_r q" v] assms show ?thesis
    by (auto simp: push_tsnq_def tsnq_inv_def contents_def bind_Some_iff)
qed

lemma pop_front:
  assumes "ring_inv r" "ring_elems r = e # es"
  obtains r' where "peek (r_array r) (seq_ring_front r) = Some e"
    "seq_ring_front r \<noteq> seq_ring_end r"
    "seq_ring_erase r (seq_ring_front r) (seq_ring_next r (seq_ring_front r)) = Some r'"
    "ring_inv r'" "ring_elems r' = es"
proof -
  have l: "0 < length (ring_elems r)" "1 \<le> length (ring_elems r)" using assms(2) by auto
  obtain r' where r': "seq_ring_erase r (seq_ring_front r) (ring_iter r 1) = Some r'"
    "ring_inv r'" "ring_elems r' = drop 1 (ring_elems r)"
    using ring.erase_ok[OF assms(1) l(2)] by blast
  show ?thesis
  proof (rule that[of r'])
    show "peek (r_array r) (seq_ring_front r) = Some e"
      using ring.rd_iter[OF assms(1) l(1)] assms by (simp add: ring.front_iter)
    show "seq_ring_front r \<noteq> seq_ring_end r"
      using ring.iter_inj[OF assms(1), of 0 "length (ring_elems r)"] assms
      by (simp add: ring.front_iter ring.last_iter del: length_ring_elems)
    show "seq_ring_erase r (seq_ring_front r) (seq_ring_next r (seq_ring_front r)) = Some r'"
      using ring.nxt_iter[OF assms(1) l(1)] r'(1) assms by (simp add: ring.front_iter)
  qed (use r' assms in simp_all)
qed

lemma size_contents: "seq_ring_size (tq_r q) = length (contents q)"
  by (simp add: contents_def)

lemma wait_and_pop_elm:
  assumes "tsnq_inv q" "contents q = e # es" "\<not> stop_token q"
  shows "\<exists>q'. wait_and_pop_tsnq 0 q f = Some (q', Pop_elm (f e)) \<and> tsnq_inv q'
    \<and> contents q' = es \<and> stop_token q' = stop_token q \<and> stopped q' = stopped q"
proof -
  have inv: "ring_inv (tq_r q)" "ring_elems (tq_r q) = e # es"
    using assms by (simp_all add: tsnq_inv_def contents_def)
  obtain r' where "peek (r_array (tq_r q)) (seq_ring_front (tq_r q)) = Some e"
    "seq_ring_front (tq_r q) \<noteq> seq_ring_end (tq_r q)"
    "seq_ring_erase (tq_r q) (seq_ring_front (tq_r q))
       (seq_ring_next (tq_r q) (seq_ring_front (tq_r q))) = Some r'"
    "ring_inv r'" "ring_elems r' = es"
    by (rule pop_front[OF inv])
  then show ?thesis
    using assms length_ring_elems[of "tq_r q"]
    by (auto simp: wait_and_pop_tsnq_def tsnq_inv_def contents_def Let_def)
qed

lemma wait_and_pop_cases:
  assumes "tsnq_inv q"
  shows "wait_and_pop_tsnq 0 q f =
    (if stop_token q then Some (q\<lparr>stopped := True\<rparr>, Pop_null)
     else if contents q = [] then Some (q, Pop_wait)
     else wait_and_pop_tsnq 0 q f)"
  by (simp add: wait_and_pop_tsnq_def size_contents)

lemma pop_tsnq_elms:
  assumes "tsnq_inv q" "\<not> stop_token q" "0 < n" "n \<le> length (contents q)"
  shows "\<exists>q'. pop_tsnq n q f = Some (q', Pop_elm (map f (take n (contents q)))) \<and> tsnq_inv q'
    \<and> contents q' = drop n (contents q) \<and> stop_token q' = stop_token q \<and> stopped q' = stopped q"
proof -
  have inv: "ring_inv (tq_r q)" "n \<le> length (ring_elems (tq_r q))"
    using assms by (simp_all add: tsnq_inv_def contents_def)
  obtain r' where r': "pop_loop (\<lambda>it. Some (seq_ring_next (tq_r q) it)) (peek (r_array (tq_r q))) f n
      (seq_ring_front (tq_r q)) = Some (map f (take n (ring_elems (tq_r q))), ring_iter (tq_r q) n)"
    "seq_ring_erase (tq_r q) (seq_ring_front (tq_r q)) (ring_iter (tq_r q) n) = Some r'"
    "ring_inv r'" "ring_elems r' = drop n (ring_elems (tq_r q))"
    by (rule ring.take_front[OF inv, of f])
  have "seq_ring_front (tq_r q) \<noteq> seq_ring_end (tq_r q)"
    using ring.iter_inj[OF inv(1), of 0 "length (ring_elems (tq_r q))"] inv assms(3)
    by (auto simp: ring.front_iter ring.last_iter simp del: length_ring_elems)
  with r' inv assms show ?thesis
    by (auto simp: pop_tsnq_def tsnq_inv_def contents_def Let_def)
qed

lemma step_conserves:
  assumes "tsnq_step q c es q'" "tsnq_inv q" "length (contents q) + length (pushed [c]) < 2 ^ 31"
  shows "tsnq_inv q' \<and> contents q @ pushed [c] = es @ contents q'"
  using assms
proof (induction rule: tsnq_step.induct)
  case (push q v q')
  then show ?case using push_tsnq_room[of q v q'] by simp
next
  case (pop q q' e)
  then obtain x xs where c: "contents q = x # xs" "\<not> stop_token q"
    using wait_and_pop_cases[of q id] by (cases "contents q") (auto split: if_splits)
  with wait_and_pop_elm[OF pop(2) c, of id] pop show ?case by auto
next
  case (wait q q')
  then have "contents q = [] \<and> \<not> stop_token q \<or> contents q \<noteq> [] \<and> \<not> stop_token q"
    using wait_and_pop_cases[of q id] by (auto split: if_splits)
  with wait wait_and_pop_cases[of q id] wait_and_pop_elm[of q _ _ id] show ?case
    by (cases "contents q") fastforce+
next
  case (null q q')
  then have "q' = q\<lparr>stopped := True\<rparr>"
    using wait_and_pop_cases[of q id] wait_and_pop_elm[of q _ _ id]
    by (cases "contents q") (fastforce split: if_splits)+
  with null show ?case by (simp add: tsnq_inv_def contents_def)
next
  case (pop_10 q q' es)
  then have "\<not> stop_token q" "10 \<le> length (contents q)"
    by (auto simp: pop_tsnq_def size_contents split: if_splits)
  with pop_tsnq_elms[of q 10 id] pop_10 show ?case by auto
next
  case (pop_100 q q' es)
  then have "\<not> stop_token q" "100 \<le> length (contents q)"
    by (auto simp: pop_tsnq_def size_contents split: if_splits)
  with pop_tsnq_elms[of q 100 id] pop_100 show ?case by auto
qed (auto simp: pop_tsnq_def tsnq_inv_def contents_def free_tsnq_stop_def bind_Some_iff Let_def
    split: if_splits prod.splits)

lemma run_conserves:
  assumes "tsnq_run q cs out q'" "tsnq_inv q" "length (contents q) + length (pushed cs) < 2 ^ 31"
  shows "tsnq_inv q' \<and> contents q @ pushed cs = out @ contents q'"
  using assms
proof (induction rule: tsnq_run.induct)
  case (snoc q cs out q' c es q'')
  then have 1: "tsnq_inv q'" "contents q @ pushed cs = out @ contents q'" by auto
  then have "length (contents q) + length (pushed cs) = length out + length (contents q')"
    by (metis length_append)
  with snoc step_conserves[of q' c es q''] 1
  have "tsnq_inv q'' \<and> contents q' @ pushed [c] = es @ contents q''" by simp
  with 1 show ?case by simp (metis append.assoc)
qed simp

lemma init_tsnq_inv:
  "init_tsnq n = Some q \<Longrightarrow> tsnq_inv q \<and> contents q = [] \<and> \<not> stop_token q"
  by (auto simp: init_tsnq_def tsnq_inv_def contents_def ring_init_inv ring_init_elems
      split: if_splits)

subsection \<open>The queue as a whole\<close>

text \<open>
  C9: for every interleaving of producers and consumers of a fresh queue (below 2^31 pushes), the
  elements taken out followed by the elements still in it are exactly the elements pushed, in
  the order in which they were pushed, across growth of the buffer and wrap-around of its
  counters; and what \<^verbatim>\<open>free_tsnq\<close> frees once the consumers have stopped is exactly the rest, so
  every element is taken or freed exactly once.
\<close>
theorem tsnq_fifo:
  assumes "init_tsnq n = Some q" and "tsnq_run q cs out q'" and "length (pushed cs) < 2 ^ 31"
  shows "pushed cs = out @ contents q'
    \<and> (stopped q' \<longrightarrow> free_tsnq_release q' = Some (drop (length out) (pushed cs)))"
proof -
  have "tsnq_inv q'" "pushed cs = out @ contents q'"
    using run_conserves[OF assms(2)] init_tsnq_inv[OF assms(1)] assms(3) by auto
  moreover have "free_tsnq_release q' = (if stopped q' then Some (contents q') else None)"
    using ring.visit_loop_all[of "tq_r q'"] \<open>tsnq_inv q'\<close>
    by (simp add: free_tsnq_release_def seq_ring_free_def tsnq_inv_def contents_def)
  ultimately show ?thesis by simp
qed

definition q0 :: tsnq_t where
  "q0 = \<lparr>tq_r = seq_ring_init 1, stop_token = False, stopped = False\<rparr>"

lemma run_sample:
  "\<exists>q'. tsnq_run q0 [Push [5], Push [7], Pop, Stop, Pop] [[5]] q' \<and> stopped q'"
proof -
  have inv: "tsnq_inv q0" "contents q0 = []" "\<not> stop_token q0" "r_elt_size (tq_r q0) = 1"
    by (simp_all add: q0_def tsnq_inv_def contents_def ring_init_inv ring_init_elems)
      (simp add: seq_ring_init_def)
  have room: "ring_room (tq_r q) [x]" if "r_elt_size (tq_r q) = 1" "length (contents q) < 2" for q x
    using that by (simp add: ring_room_def size_contents)
  have push: "\<exists>q'. push_tsnq q [x] (length [x]) = Some q' \<and> tsnq_inv q' \<and> contents q' = contents q @ [[x]]
      \<and> stop_token q' = stop_token q \<and> r_elt_size (tq_r q') = 1"
    if "tsnq_inv q" "r_elt_size (tq_r q) = 1" "length (contents q) < 2" for q x
    using push_back_ok[OF _ room[OF that(2,3)], of x] that
    by (auto simp: push_tsnq_def tsnq_inv_def contents_def)
  obtain q1 where q1: "push_tsnq q0 [5] (length [5::u8]) = Some q1" "tsnq_inv q1"
    "contents q1 = [[5]]" "\<not> stop_token q1" "r_elt_size (tq_r q1) = 1"
    using push[of q0 5] inv by auto
  obtain q2 where q2: "push_tsnq q1 [7] (length [7::u8]) = Some q2" "tsnq_inv q2"
    "contents q2 = [[5], [7]]" "\<not> stop_token q2"
    using push[of q1 7] q1 by auto
  obtain q3 where q3: "wait_and_pop_tsnq 0 q2 id = Some (q3, Pop_elm [5])"
    using wait_and_pop_elm[OF q2(2,3,4), of id] by auto
  have q5: "wait_and_pop_tsnq 0 (free_tsnq_stop q3) id
      = Some ((free_tsnq_stop q3)\<lparr>stopped := True\<rparr>, Pop_null)"
    by (simp add: wait_and_pop_tsnq_def free_tsnq_stop_def)
  have "tsnq_run q0 ((((([] @ [Push [5]]) @ [Push [7]]) @ [Pop]) @ [Stop]) @ [Pop])
      ((((([] @ []) @ []) @ [[5]]) @ []) @ []) ((free_tsnq_stop q3)\<lparr>stopped := True\<rparr>)"
    by (intro tsnq_run.intros) (use q1(1) q2(1) q3 q5 in \<open>auto intro: tsnq_step.intros tsnq_run.nil\<close>)
  then show ?thesis by fastforce
qed

theorem tsnq_fifo_witness:
  "\<exists>q'. tsnq_run q0 [Push [5], Push [7], Pop, Stop, Pop] [[5]] q' \<and> contents q' = [[7]]
    \<and> free_tsnq_release q' = Some [[7]]"
proof -
  obtain q' where q': "tsnq_run q0 [Push [5], Push [7], Pop, Stop, Pop] [[5]] q'" "stopped q'"
    using run_sample by blast
  have "init_tsnq 1 = Some q0" by (simp add: init_tsnq_def q0_def)
  from tsnq_fifo[OF this q'(1)] q' show ?thesis by auto
qed

text \<open>
  C34: while the queue is not being shut down and holds an element, a consumer neither waits nor
  fails: it gets the callback's result on the oldest element, and exactly that element leaves
  the queue.
\<close>
theorem tsnq_pop_progress:
  assumes "tsnq_inv q" and "contents q = e # es" and "\<not> stop_token q"
  shows "\<exists>q'. wait_and_pop_tsnq 0 q f = Some (q', Pop_elm (f e)) \<and> tsnq_inv q' \<and> contents q' = es"
  using wait_and_pop_elm[OF assms, of f] by blast

theorem tsnq_pop_progress_witness:
  "\<exists>q q'. contents q = [[9]] \<and> wait_and_pop_tsnq 0 q length = Some (q', Pop_elm 1) \<and> contents q' = []"
proof -
  obtain r where r: "ring_inv r" "ring_elems r = [[9]]"
    using ring.push_ok[of "seq_ring_init 1" "[9]"]
      ring_init_inv[of 1] ring_init_elems[of 1]
    by (fastforce simp: ring_room_def seq_ring_size_def seq_ring_init_def)
  let ?q = "\<lparr>tq_r = r, stop_token = False, stopped = False\<rparr>"
  have "tsnq_inv ?q" "contents ?q = [[9]]" "\<not> stop_token ?q"
    using r by (simp_all add: tsnq_inv_def contents_def)
  from tsnq_pop_progress[OF this, of length] this(2) show ?thesis by fastforce
qed

end
