(* ===== verification/Seq_Arr.thy ===== *)
theory Seq_Arr
  imports Seq_Iface
begin

text \<open>
  The growing array of \<^verbatim>\<open>src/src/flexric/src/util/alg_ds/ds/seq_container/seq_arr.c\<close>, byte by
  byte: \<^verbatim>\<open>data\<close> is the allocation, an iterator is an offset in it, and every access outside the
  allocation is \<^term>\<open>None\<close>.  The bytes that \<^verbatim>\<open>realloc\<close> adds are indeterminate: they are the
  argument \<open>g\<close>, on which no result depends.  The occupancy test of \<^verbatim>\<open>maybe_shrink\<close>, a
  comparison of single-precision floats, is exact below \<open>2^24\<close> elements, the bound of the
  invariant.
\<close>

record seq_arr_t =
  a_data :: "u8 list"
  a_size :: nat
  a_elt_size :: nat
  a_cap :: nat

definition MIN_SIZE :: nat where "MIN_SIZE = 8"

definition maybe_expand :: "u8 \<Rightarrow> seq_arr_t \<Rightarrow> seq_arr_t" where
  "maybe_expand g arr =
     (if a_size arr + 1 = a_cap arr
      then arr\<lparr>a_data := take (2 * a_cap arr * a_elt_size arr) (a_data arr)
                 @ replicate (2 * a_cap arr * a_elt_size arr - length (a_data arr)) g,
               a_cap := a_cap arr * 2\<rparr>
      else arr)"

text \<open>The new block comes from \<^verbatim>\<open>calloc(tmp.cap, tmp.cap)\<close>.\<close>

definition maybe_shrink :: "seq_arr_t \<Rightarrow> seq_arr_t option" where
  "maybe_shrink arr =
     (if a_size arr > MIN_SIZE \<and> 4 * a_size arr < a_cap arr
      then do {
        assert_c (a_cap arr > MIN_SIZE);
        let c = a_cap arr div 2;
        let tmp = replicate (c * c) 0;
        assert_c (a_size arr \<le> c);
        tmp \<leftarrow> blit tmp 0 (a_data arr) 0 (a_size arr * a_elt_size arr);
        Some (arr\<lparr>a_data := tmp, a_cap := c\<rparr>)
      }
      else Some arr)"

definition seq_arr_init :: "nat \<Rightarrow> seq_arr_t" where
  "seq_arr_init sz = \<lparr>a_data = replicate (MIN_SIZE * sz) 0, a_size = 0, a_elt_size = sz,
     a_cap = MIN_SIZE\<rparr>"

definition seq_arr_push_back :: "u8 \<Rightarrow> seq_arr_t \<Rightarrow> u8 list \<Rightarrow> nat \<Rightarrow> seq_arr_t option" where
  "seq_arr_push_back g arr data len = do {
     assert_c (len = a_elt_size arr);
     let arr = maybe_expand g arr;
     let offset = a_size arr * a_elt_size arr;
     d \<leftarrow> blit (a_data arr) offset data 0 (a_elt_size arr);
     Some (arr\<lparr>a_data := d, a_size := a_size arr + 1\<rparr>)
   }"

definition seq_arr_size :: "seq_arr_t \<Rightarrow> nat" where
  "seq_arr_size arr = a_size arr"

definition seq_arr_front :: "seq_arr_t \<Rightarrow> nat" where
  "seq_arr_front arr = 0"

definition seq_arr_next :: "seq_arr_t \<Rightarrow> nat \<Rightarrow> nat" where
  "seq_arr_next arr it = it + a_elt_size arr"

definition seq_arr_end :: "seq_arr_t \<Rightarrow> nat" where
  "seq_arr_end arr = a_size arr * a_elt_size arr"

definition seq_arr_at :: "seq_arr_t \<Rightarrow> nat \<Rightarrow> nat option" where
  "seq_arr_at arr pos = do { assert_c (pos < a_size arr); Some (pos * a_elt_size arr) }"

text \<open>
  The distance divides a \<^verbatim>\<open>ptrdiff_t\<close> by the \<^verbatim>\<open>size_t\<close> of an element, without a sign, and reads the
  quotient as signed.  Where the end is before the start, the assertion fails only for elements of one
  byte.
\<close>

definition seq_arr_dist :: "seq_arr_t \<Rightarrow> nat \<Rightarrow> nat \<Rightarrow> int option" where
  "seq_arr_dist arr first fin = do {
     assert_c (a_elt_size arr \<noteq> 0);
     let pos = sint ((of_int (int fin - int first) :: 64 word) div of_nat (a_elt_size arr));
     assert_c (pos > -1);
     Some pos
   }"

definition seq_arr_equal :: "nat \<Rightarrow> nat \<Rightarrow> bool" where
  "seq_arr_equal it_1 it_2 \<longleftrightarrow> it_1 = it_2"

text \<open>The two byte counts are \<^verbatim>\<open>int\<close>: a distance is cut to 32 bits and read as signed.\<close>

definition int_of_dist :: "int \<Rightarrow> int" where
  "int_of_dist d = sint (of_int d :: u32)"

definition seq_arr_erase :: "seq_arr_t \<Rightarrow> nat \<Rightarrow> nat \<Rightarrow> seq_arr_t option" where
  "seq_arr_erase arr start_it end_it = do {
     assert_c (end_it \<ge> start_it);
     if start_it = end_it then Some arr
     else do {
       let num_bytes_move = int_of_dist (int (seq_arr_end arr) - int end_it);
       assert_c (num_bytes_move > -1);
       d \<leftarrow> blit (a_data arr) start_it (a_data arr) end_it (nat num_bytes_move);
       let num_bytes_erase = int_of_dist (int end_it - int start_it);
       let num_elm_erase = num_bytes_erase div int (a_elt_size arr);
       assert_c (num_elm_erase > 0);
       let arr = arr\<lparr>a_data := d, a_size := a_size arr - nat num_elm_erase\<rparr>;
       d \<leftarrow> fill d (seq_arr_end arr) (nat num_bytes_erase) 0;
       maybe_shrink (arr\<lparr>a_data := d\<rparr>)
     }
   }"

definition arr_rd :: "seq_arr_t \<Rightarrow> nat \<Rightarrow> u8 list option" where
  "arr_rd arr it = (if it + a_elt_size arr \<le> length (a_data arr)
     then Some (take (a_elt_size arr) (drop it (a_data arr))) else None)"

text \<open>The elements passed to the callback of \<^verbatim>\<open>seq_arr_free\<close>, and of \<^verbatim>\<open>for_each_arr\<close>.\<close>

definition seq_arr_free :: "seq_arr_t \<Rightarrow> u8 list list option" where
  "seq_arr_free arr = visit_loop (\<lambda>it. Some (seq_arr_next arr it)) (arr_rd arr)
     (seq_arr_front arr) (seq_arr_end arr)"

definition for_each_arr :: "seq_arr_t \<Rightarrow> nat \<Rightarrow> nat \<Rightarrow> u8 list list option" where
  "for_each_arr arr start_it end_it =
     visit_loop (\<lambda>it. Some (it + a_elt_size arr)) (arr_rd arr) start_it end_it"

definition find_if_arr :: "seq_arr_t \<Rightarrow> nat \<Rightarrow> nat \<Rightarrow> 'v \<Rightarrow> ('v \<Rightarrow> u8 list \<Rightarrow> bool) \<Rightarrow> nat option" where
  "find_if_arr arr start_it end_it value f =
     find_loop (\<lambda>it. Some (seq_arr_next arr it)) (arr_rd arr) (f value) start_it end_it"

subsection \<open>Invariant and abstraction\<close>

definition arr_iter :: "seq_arr_t \<Rightarrow> nat \<Rightarrow> nat" where
  "arr_iter arr i = i * a_elt_size arr"

text \<open>The elements of a block of bytes, and of the array.\<close>

fun chunks :: "nat \<Rightarrow> nat \<Rightarrow> u8 list \<Rightarrow> u8 list list" where
  "chunks 0 w bs = []"
| "chunks (Suc n) w bs = take w bs # chunks n w (drop w bs)"

definition arr_elems :: "seq_arr_t \<Rightarrow> u8 list list" where
  "arr_elems arr = chunks (a_size arr) (a_elt_size arr) (a_data arr)"

text \<open>
  Elements are at most 32 bytes: above that, \<^verbatim>\<open>maybe_shrink\<close> may allocate less than it copies.
\<close>

definition arr_inv :: "seq_arr_t \<Rightarrow> bool" where
  "arr_inv arr \<longleftrightarrow> 0 < a_elt_size arr \<and> a_elt_size arr \<le> 32
     \<and> (\<exists>k. a_cap arr = 8 * 2 ^ k) \<and> a_size arr < a_cap arr
     \<and> a_cap arr * a_elt_size arr \<le> length (a_data arr) \<and> a_size arr < 2 ^ 24"

lemma length_chunks [simp]: "length (chunks n w bs) = n"
  by (induction n w bs rule: chunks.induct) simp_all

lemma nth_chunks: "i < n \<Longrightarrow> chunks n w bs ! i = take w (drop (i * w) bs)"
proof (induction n w bs arbitrary: i rule: chunks.induct)
  case (2 n w bs)
  then show ?case by (cases i) (simp_all add: add.commute)
qed simp

lemma take_drop_nth_eq:
  assumes "\<And>k. k < w \<Longrightarrow> xs ! (s + k) = ys ! (t + k)"
    and "s + w \<le> length xs" and "t + w \<le> length ys"
  shows "take w (drop s xs) = take w (drop t ys)"
  by (rule nth_equalityI) (use assms in auto)

lemma chunk_bound: "i < n \<Longrightarrow> i * w + w \<le> n * (w::nat)"
  using mult_le_mono1[of "Suc i" n w] by simp

lemma length_arr_elems [simp]: "length (arr_elems arr) = a_size arr"
  by (simp add: arr_elems_def)

lemma nth_arr_elems:
  "i < a_size arr \<Longrightarrow> arr_elems arr ! i
     = take (a_elt_size arr) (drop (i * a_elt_size arr) (a_data arr))"
  by (simp add: arr_elems_def nth_chunks)

lemma arr_elem_in:
  assumes "arr_inv arr" "i < a_size arr"
  shows "i * a_elt_size arr + a_elt_size arr \<le> length (a_data arr)"
proof -
  have "i * a_elt_size arr + a_elt_size arr \<le> a_cap arr * a_elt_size arr"
    using assms by (intro chunk_bound) (simp add: arr_inv_def)
  then show ?thesis using assms(1) by (simp add: arr_inv_def)
qed

lemma arr_bytes_fit:
  assumes "arr_inv arr"
  shows "a_size arr * a_elt_size arr \<le> length (a_data arr)"
proof -
  have "a_size arr * a_elt_size arr \<le> a_cap arr * a_elt_size arr"
    using assms by (intro mult_le_mono1) (simp add: arr_inv_def)
  then show ?thesis using assms unfolding arr_inv_def by linarith
qed

text \<open>Two arrays with the same bytes below the size have the same elements.\<close>

lemma arr_elems_cong:
  assumes "a_size a = a_size b" "a_elt_size a = a_elt_size b"
    and "take (a_size a * a_elt_size a) (a_data a) = take (a_size a * a_elt_size a) (a_data b)"
  shows "arr_elems a = arr_elems b"
proof (rule nth_equalityI)
  fix i assume "i < length (arr_elems a)"
  then have i: "i < a_size a" by simp
  let ?w = "a_elt_size a" and ?n = "a_size a * a_elt_size a"
  have cut: "take ?w (drop (i * ?w) (a_data x)) = take ?w (drop (i * ?w) (take ?n (a_data x)))" for x
    using chunk_bound[OF i, of ?w] by (simp add: drop_take min_absorb1)
  from cut[of a] cut[of b] assms show "arr_elems a ! i = arr_elems b ! i"
    using i by (simp add: nth_arr_elems)
qed (use assms in simp)

subsection \<open>Initialisation, growing and pushing\<close>

lemma arr_init_inv: "0 < n \<Longrightarrow> n \<le> 32 \<Longrightarrow> arr_inv (seq_arr_init n)"
  by (simp add: arr_inv_def seq_arr_init_def MIN_SIZE_def exI[of _ 0])

lemma arr_init_elems: "arr_elems (seq_arr_init n) = []"
  by (simp add: arr_elems_def seq_arr_init_def)

lemma maybe_expand_ok:
  assumes inv: "arr_inv arr"
  shows "arr_inv (maybe_expand g arr) \<and> arr_elems (maybe_expand g arr) = arr_elems arr
    \<and> a_size (maybe_expand g arr) = a_size arr \<and> a_elt_size (maybe_expand g arr) = a_elt_size arr
    \<and> a_size arr + 1 < a_cap (maybe_expand g arr)"
proof (cases "a_size arr + 1 = a_cap arr")
  case True
  have used: "a_size arr * a_elt_size arr \<le> 2 * a_cap arr * a_elt_size arr"
    "a_size arr * a_elt_size arr \<le> length (a_data arr)"
    using True arr_bytes_fit[OF inv] by (auto intro!: mult_le_mono1)
  have el: "arr_elems (maybe_expand g arr) = arr_elems arr"
    by (rule arr_elems_cong) (use True used in \<open>simp_all add: maybe_expand_def min_absorb1\<close>)
  obtain k where "a_cap arr = 8 * 2 ^ k" using inv by (auto simp: arr_inv_def)
  then have "a_cap arr * 2 = 8 * 2 ^ Suc k" by simp
  then have "\<exists>k. a_cap arr * 2 = 8 * 2 ^ k" by blast
  then have "arr_inv (maybe_expand g arr)"
    using inv True by (auto simp: arr_inv_def maybe_expand_def)
  with el True show ?thesis using inv by (simp add: maybe_expand_def arr_inv_def)
next
  case False
  then show ?thesis using inv by (simp add: maybe_expand_def arr_inv_def)
qed

definition arr_room :: "seq_arr_t \<Rightarrow> u8 list \<Rightarrow> bool" where
  "arr_room arr e \<longleftrightarrow> length e = a_elt_size arr \<and> a_size arr + 1 < 2 ^ 24"

lemma arr_push_ok:
  assumes inv: "arr_inv arr" and room: "arr_room arr e"
  shows "\<exists>arr'. seq_arr_push_back g arr e (length e) = Some arr' \<and> arr_inv arr'
    \<and> arr_elems arr' = arr_elems arr @ [e] \<and> a_elt_size arr' = a_elt_size arr"
proof -
  let ?b = "maybe_expand g arr" and ?w = "a_elt_size arr" and ?n = "a_size arr"
  have b: "arr_inv ?b" "arr_elems ?b = arr_elems arr" "a_size ?b = ?n" "a_elt_size ?b = ?w"
    "?n + 1 < a_cap ?b"
    using maybe_expand_ok[OF inv] by auto
  have len: "length e = ?w" using room by (simp add: arr_room_def)
  have fits: "?n * ?w + ?w \<le> length (a_data ?b)"
  proof -
    have "Suc ?n * ?w \<le> a_cap ?b * ?w" using b(5) by (intro mult_le_mono1) simp
    then show ?thesis using b(1,4) by (simp add: arr_inv_def)
  qed
  define d where "d = take (?n * ?w) (a_data ?b) @ e @ drop (?n * ?w + ?w) (a_data ?b)"
  have blit: "blit (a_data ?b) (?n * ?w) e 0 ?w = Some d"
    using fits len by (simp add: blit_def d_def)
  define arr' where "arr' = ?b\<lparr>a_data := d, a_size := ?n + 1\<rparr>"
  have push: "seq_arr_push_back g arr e (length e) = Some arr'"
    using blit b len by (simp add: seq_arr_push_back_def Let_def arr'_def)
  have "arr_elems arr' = arr_elems ?b @ [e]"
  proof (rule nth_equalityI)
    fix i assume "i < length (arr_elems arr')"
    then have i: "i < Suc ?n" by (simp add: arr'_def)
    have old: "take ?w (drop (i * ?w) d) = take ?w (drop (i * ?w) (a_data ?b))" if "i < ?n"
    proof (rule take_drop_nth_eq)
      show "i * ?w + ?w \<le> length d" "i * ?w + ?w \<le> length (a_data ?b)"
        using chunk_bound[OF that, of ?w] fits len by (simp_all add: d_def)
      show "d ! (i * ?w + k) = a_data ?b ! (i * ?w + k)" if "k < ?w" for k
        using chunk_bound[OF \<open>i < ?n\<close>, of ?w] fits that by (simp add: d_def nth_append)
    qed
    have new: "take ?w (drop (?n * ?w) d) = e"
      using fits len by (simp add: d_def)
    show "arr_elems arr' ! i = (arr_elems ?b @ [e]) ! i"
      using i old new b(1,3-5) by (cases "i < ?n")
        (auto simp: nth_arr_elems arr'_def nth_append less_Suc_eq)
  qed (simp add: arr'_def b)
  moreover have "length d = length (a_data ?b)" using fits len by (simp add: d_def)
  ultimately show ?thesis
    using push b room by (auto simp: arr_inv_def arr'_def arr_room_def)
qed

subsection \<open>Shrinking and erasing\<close>

lemma maybe_shrink_ok:
  assumes inv: "arr_inv arr"
  shows "\<exists>arr'. maybe_shrink arr = Some arr' \<and> arr_inv arr' \<and> arr_elems arr' = arr_elems arr
    \<and> a_elt_size arr' = a_elt_size arr"
proof (cases "a_size arr > MIN_SIZE \<and> 4 * a_size arr < a_cap arr")
  case True
  obtain k where k: "a_cap arr = 8 * 2 ^ k" using inv by (auto simp: arr_inv_def)
  have "3 \<le> k"
  proof (rule ccontr)
    assume "\<not> 3 \<le> k"
    then have "k = 0 \<or> k = 1 \<or> k = 2" by auto
    then have "a_cap arr \<le> 32" using k by auto
    with True show False by (simp add: MIN_SIZE_def)
  qed
  then obtain j where j: "k = Suc j" "2 \<le> j" by (cases k) auto
  define c where "c = a_cap arr div 2"
  have c: "c = 8 * 2 ^ j" using k j by (simp add: c_def)
  have c32: "32 \<le> c" using power_increasing[OF j(2), of "2::nat"] by (simp add: c)
  let ?w = "a_elt_size arr" and ?n = "a_size arr"
  have m1: "c * ?w \<le> c * c" using inv c32 by (intro mult_le_mono2) (simp add: arr_inv_def)
  have n: "?n < c" using True unfolding c_def by linarith
  then have m2: "?n * ?w \<le> c * ?w" by (intro mult_le_mono1) simp
  note fit = le_trans[OF m2 m1] m1
  have fit': "?n * ?w \<le> length (a_data arr)"
    by (rule arr_bytes_fit[OF inv])
  define d where "d = take (?n * ?w) (a_data arr) @ replicate (c * c - ?n * ?w) 0"
  have blit: "blit (replicate (c * c) 0) 0 (a_data arr) 0 (?n * ?w) = Some d"
    using fit fit' by (simp add: blit_def d_def)
  have el: "arr_elems (arr\<lparr>a_data := d, a_cap := c\<rparr>) = arr_elems arr"
    by (rule arr_elems_cong) (use fit' in \<open>simp_all add: d_def\<close>)
  have "arr_inv (arr\<lparr>a_data := d, a_cap := c\<rparr>)"
    using inv c fit fit' n by (auto simp: arr_inv_def d_def)
  moreover have "maybe_shrink arr = Some (arr\<lparr>a_data := d, a_cap := c\<rparr>)"
    using True blit n by (simp add: maybe_shrink_def Let_def c_def[symmetric])
  ultimately show ?thesis using el by auto
next
  case False
  then show ?thesis using inv by (auto simp: maybe_shrink_def)
qed

lemma int_of_dist_small:
  assumes "0 \<le> d" "d < 2 ^ 31"
  shows "int_of_dist d = d"
  using assms by (simp add: int_of_dist_def signed_of_int signed_take_bit_int_eq_self)

lemma arr_bytes_small: "arr_inv arr \<Longrightarrow> a_size arr * a_elt_size arr < 2 ^ 31"
  using mult_le_mono[of "a_size arr" "2 ^ 24" "a_elt_size arr" 32] by (simp add: arr_inv_def)

lemma arr_erase_ok:
  assumes inv: "arr_inv arr" and ij: "i \<le> j" "j \<le> a_size arr"
  shows "\<exists>arr'. seq_arr_erase arr (arr_iter arr i) (arr_iter arr j) = Some arr' \<and> arr_inv arr'
    \<and> arr_elems arr' = take i (arr_elems arr) @ drop j (arr_elems arr)
    \<and> a_elt_size arr' = a_elt_size arr"
proof (cases "i = j")
  case True
  then show ?thesis using inv by (simp add: seq_arr_erase_def)
next
  case False
  let ?w = "a_elt_size arr" and ?n = "a_size arr"
  have w: "0 < ?w" using inv by (simp add: arr_inv_def)
  have lt: "i < j" using False ij by simp
  have bytes: "i * ?w < j * ?w" "j * ?w \<le> ?n * ?w" "?n * ?w < 2 ^ 31"
    using lt ij w arr_bytes_small[OF inv] by simp_all
  have alloc: "?n * ?w \<le> length (a_data arr)"
    by (rule arr_bytes_fit[OF inv])
  define mv where "mv = ?n * ?w - j * ?w"
  have move: "int_of_dist (int (?n * ?w) - int (j * ?w)) = int mv"
    using int_of_dist_small[of "int mv"] bytes by (simp add: mv_def of_nat_diff)
  have er: "int_of_dist (int (j * ?w) - int (i * ?w)) = int ((j - i) * ?w)"
  proof -
    have "(j - i) * ?w \<le> ?n * ?w" using ij by (intro mult_le_mono1) simp
    then have "(j - i) * ?w < 2 ^ 31" using bytes(3) by (rule le_less_trans)
    then have "int ((j - i) * ?w) < 2 ^ 31"
      by (simp only: of_nat_less_numeral_power_cancel_iff)
    moreover have "int (j * ?w) - int (i * ?w) = int ((j - i) * ?w)"
      using bytes(1) by (simp add: diff_mult_distrib of_nat_diff)
    ultimately show ?thesis using int_of_dist_small[of "int ((j - i) * ?w)"] by simp
  qed
  have num: "nat (int ((j - i) * ?w) div int ?w) = j - i"
    using w by (metis div_mult_self_is_m nat_int of_nat_div)
  have num0: "int ((j - i) * ?w) div int ?w > 0"
    using w lt by (metis div_mult_self_is_m of_nat_0_less_iff of_nat_div zero_less_diff)
  define d where "d = take (i * ?w) (a_data arr) @ take mv (drop (j * ?w) (a_data arr))
    @ drop (i * ?w + mv) (a_data arr)"
  have le1: "i * ?w + mv \<le> ?n * ?w" using bytes unfolding mv_def by linarith
  have jm: "j * ?w + mv = ?n * ?w" using bytes by (simp add: mv_def)
  have blit: "blit (a_data arr) (i * ?w) (a_data arr) (j * ?w) mv = Some d"
    using alloc le1 jm by (simp add: blit_def d_def)
  have ld: "length d = length (a_data arr)"
    using le1 jm alloc by (simp add: d_def)
  have m: "mv = (?n - j) * ?w" by (simp add: mv_def diff_mult_distrib)
  have rest: "(?n - (j - i)) * ?w = i * ?w + mv" "i * ?w + mv + (j - i) * ?w = ?n * ?w"
    using ij lt by (auto simp add: m add_mult_distrib[symmetric] add.commute)
  have "(?n - (j - i)) * ?w + (j - i) * ?w \<le> length d"
    using rest ld alloc by simp
  from fill_total[OF this, of 0] obtain d2 where d2:
    "fill d ((?n - (j - i)) * ?w) ((j - i) * ?w) 0 = Some d2" "length d2 = length d"
    "\<forall>k < length d. d2 ! k = (if (?n - (j - i)) * ?w \<le> k
       \<and> k < (?n - (j - i)) * ?w + (j - i) * ?w then 0 else d ! k)" by blast
  define arr1 where "arr1 = arr\<lparr>a_size := ?n - (j - i), a_data := d2\<rparr>"
  have er_def: "seq_arr_erase arr (arr_iter arr i) (arr_iter arr j) = maybe_shrink arr1"
    using bytes move er num num0 blit d2(1) lt
    by (simp add: seq_arr_erase_def arr_iter_def seq_arr_end_def Let_def arr1_def
        del: of_nat_mult of_nat_diff)
  have inv1: "arr_inv arr1"
    using inv lt ij ld d2(2) by (auto simp: arr_inv_def arr1_def)
  have "arr_elems arr1 = take i (arr_elems arr) @ drop j (arr_elems arr)"
  proof (rule nth_equalityI)
    fix x assume "x < length (arr_elems arr1)"
    then have x: "x < ?n - (j - i)" by (simp add: arr1_def)
    define y where "y = (if x < i then x else x + (j - i))"
    have y: "y < ?n" using x lt ij by (auto simp: y_def)
    have le: "x * ?w + ?w \<le> i * ?w + mv" using chunk_bound[OF x, of ?w] rest by simp
    have "take ?w (drop (x * ?w) d2) = take ?w (drop (y * ?w) (a_data arr))"
    proof (rule take_drop_nth_eq)
      show "x * ?w + ?w \<le> length d2" using le rest ld d2(2) alloc by simp
      show "y * ?w + ?w \<le> length (a_data arr)" using chunk_bound[OF y, of ?w] alloc by simp
      fix k assume k: "k < ?w"
      have "d2 ! (x * ?w + k) = d ! (x * ?w + k)"
        using d2(3) le k rest ld alloc by simp
      also have "\<dots> = a_data arr ! (y * ?w + k)"
      proof (cases "x < i")
        case True
        then have "x * ?w + ?w \<le> i * ?w" by (rule chunk_bound)
        then have "x * ?w + k < i * ?w" "x * ?w + k < length (a_data arr)"
          using k bytes(1,2) alloc by linarith+
        then show ?thesis using True by (simp add: d_def nth_append y_def)
      next
        case False
        then have ge: "i * ?w \<le> x * ?w" by simp
        have lt_mv: "(x * ?w + k) - i * ?w < mv" using le k ge by linarith
        have "j * ?w + (x * ?w + k - i * ?w) = y * ?w + k"
        proof -
          have "y * ?w = x * ?w + (j * ?w - i * ?w)"
            using False by (simp add: y_def add_mult_distrib diff_mult_distrib)
          then show ?thesis using ge bytes(1) by linarith
        qed
        moreover have "d ! (x * ?w + k) = take mv (drop (j * ?w) (a_data arr)) ! (x * ?w + k - i * ?w)"
        proof -
          have "i * ?w \<le> length (a_data arr)" using bytes(1,2) alloc by linarith
          moreover have "\<not> x * ?w + k < i * ?w" using ge by linarith
          moreover have "mv \<le> length (drop (j * ?w) (a_data arr))" using jm alloc by simp
          ultimately show ?thesis
            unfolding d_def using lt_mv by (simp only: nth_append length_take min_absorb2 if_True if_False)
        qed
        ultimately show ?thesis using lt_mv jm alloc by simp
      qed
      finally show "d2 ! (x * ?w + k) = a_data arr ! (y * ?w + k)" .
    qed
    then show "arr_elems arr1 ! x = (take i (arr_elems arr) @ drop j (arr_elems arr)) ! x"
      using x y lt ij by (auto simp: nth_arr_elems arr1_def nth_append y_def add.commute)
  qed (use lt ij in \<open>simp add: arr1_def\<close>)
  with maybe_shrink_ok[OF inv1] er_def show ?thesis by (simp add: arr1_def)
qed

interpretation arr: seq_queue arr_inv arr_elems arr_iter seq_arr_front seq_arr_end
  "\<lambda>a it. Some (seq_arr_next a it)" arr_rd arr_room
  "\<lambda>a e. seq_arr_push_back g a e (length e)" seq_arr_erase for g
proof unfold_locales
  show "arr_iter s i = arr_iter s j \<longleftrightarrow> i = j" if "arr_inv s" for s i j
    using that by (simp add: arr_iter_def arr_inv_def)
  show "arr_rd s (arr_iter s i) = Some (arr_elems s ! i)"
    if "arr_inv s" "i < length (arr_elems s)" for s i
    using that arr_elem_in[OF that(1), of i] by (simp add: arr_rd_def arr_iter_def nth_arr_elems)
  show "\<exists>s'. seq_arr_push_back g s e (length e) = Some s' \<and> arr_inv s'
      \<and> arr_elems s' = arr_elems s @ [e]" if "arr_inv s" "arr_room s e" for s e
    using arr_push_ok[OF that] by blast
  show "\<exists>s'. seq_arr_erase s (seq_arr_front s) (arr_iter s n) = Some s' \<and> arr_inv s'
      \<and> arr_elems s' = drop n (arr_elems s)" if "arr_inv s" "n \<le> length (arr_elems s)" for s n
    using arr_erase_ok[of s 0 n] that by (auto simp: arr_iter_def seq_arr_front_def)
qed (auto simp: arr_iter_def seq_arr_front_def seq_arr_end_def seq_arr_next_def)

subsection \<open>Properties\<close>

text \<open>
  C32: on an array of elements of at most 32 bytes, erasing the range from element \<open>i\<close> to
  element \<open>j\<close> stays inside the allocation, removes exactly those elements, and keeps the
  invariant, whether or not the array shrinks.
\<close>
theorem seq_arr_erase_removes_range:
  assumes "arr_inv arr" and "i \<le> j" and "j \<le> seq_arr_size arr"
  shows "\<exists>arr'. seq_arr_erase arr (arr_iter arr i) (arr_iter arr j) = Some arr' \<and> arr_inv arr'
    \<and> arr_elems arr' = take i (arr_elems arr) @ drop j (arr_elems arr)"
  using arr_erase_ok[OF assms(1,2)] assms(3) by (auto simp: seq_arr_size_def)

definition sample_arr :: seq_arr_t where
  "sample_arr = \<lparr>a_data = [1,2, 3,4, 5,6, 0,0, 0,0, 0,0, 0,0, 0,0], a_size = 3, a_elt_size = 2,
     a_cap = 8\<rparr>"

lemma sample_arr_facts:
  "arr_inv sample_arr" "arr_room sample_arr [9,9]"
  "arr_elems sample_arr = [[1,2], [3,4], [5,6]]" "seq_arr_size sample_arr = 3"
  "arr_iter sample_arr (Suc 0) = 2" "arr_iter sample_arr 2 = 4"
  by (simp_all add: arr_inv_def arr_room_def sample_arr_def arr_elems_def seq_arr_size_def
      arr_iter_def exI[of _ 0] numeral_3_eq_3)

theorem seq_arr_erase_removes_range_witness:
  "\<exists>arr'. seq_arr_erase sample_arr 2 4 = Some arr' \<and> arr_elems arr' = [[1,2], [5,6]]"
  using seq_arr_erase_removes_range[of sample_arr "Suc 0" 2] by (auto simp: sample_arr_facts)

text \<open>
  C33: pushing on such an array appends the element, whatever the bytes that \<^verbatim>\<open>realloc\<close> adds,
  and a linear search then stops at the first element that satisfies the predicate.
\<close>
theorem seq_arr_push_find:
  assumes "arr_inv arr" and "arr_room arr e"
  shows "\<exists>arr'. seq_arr_push_back g arr e (length e) = Some arr' \<and> arr_inv arr'
    \<and> seq_arr_free arr' = Some (arr_elems arr @ [e])
    \<and> find_if_arr arr' (seq_arr_front arr') (seq_arr_end arr') v f
      = Some (arr_iter arr' (length (takeWhile (\<lambda>x. \<not> f v x) (arr_elems arr @ [e]))))"
proof -
  obtain arr' where "seq_arr_push_back g arr e (length e) = Some arr'" "arr_inv arr'"
    "arr_elems arr' = arr_elems arr @ [e]"
    using arr.push_ok[OF assms] by blast
  then show ?thesis
    using arr.visit_loop_all[of arr'] arr.find_loop_all[of arr' "f v"]
    by (auto simp: seq_arr_free_def find_if_arr_def)
qed

theorem seq_arr_push_find_witness:
  "\<exists>arr'. seq_arr_push_back 170 sample_arr [9,9] 2 = Some arr'
    \<and> seq_arr_free arr' = Some [[1,2], [3,4], [5,6], [9,9]]"
  using seq_arr_push_find[OF sample_arr_facts(1,2), of 170 "0::nat" "\<lambda>_ _. True"]
  by (auto simp: sample_arr_facts numeral_2_eq_2)

text \<open>
  with larger elements the array can overflow its heap block.  When an erasure leaves \<open>n\<close>
  elements, more than eight and less than a quarter of the capacity, that need more bytes than
  the square of half the capacity, \<^verbatim>\<open>maybe_shrink\<close> copies past the end of the block it
  allocated as \<^verbatim>\<open>calloc(tmp.cap, tmp.cap)\<close>.
\<close>
theorem seq_arr_shrink_overflow:
  assumes "8 < n" and "4 * n < a_cap arr" and "a_size arr = n"
    and "(a_cap arr div 2) * (a_cap arr div 2) < n * a_elt_size arr"
  shows "maybe_shrink arr = None"
  using assms by (simp add: maybe_shrink_def MIN_SIZE_def blit_def Let_def)

theorem seq_arr_shrink_overflow_witness:
  "maybe_shrink \<lparr>a_data = replicate (64 * 128) 7, a_size = 15, a_elt_size = 128, a_cap = 64\<rparr> = None"
  by (rule seq_arr_shrink_overflow[of 15]) simp_all

end
