(* ===== verification/Bimap.thy ===== *)
theory Bimap
  imports Compare "HOL-Library.Multiset"
begin

text \<open>
  The bidirectional map \<^verbatim>\<open>src/src/flexric/src/util/alg_ds/ds/assoc_container/bimap.c\<close>: two
  ordered containers, one per direction, each storing the key of the other as its value.

  The containers are red-black trees (\<^verbatim>\<open>assoc_rb_tree.c\<close>).  Here such a tree is its in-order
  sequence of entries, which is what its iterators, its searches and its insertions show: a new
  key goes to the left of the first key it compares 1 with.  The theories of the tree itself
  (\<open>Rb_Heap\<close> to \<open>Rb_Properties\<close>) show that it refines this sequence.  Of several equal keys an
  extraction takes the first, where the tree takes one that depends on its shape, so the lemmas
  keep the keys distinct.
\<close>

subsection \<open>Ordered containers as their in-order sequence\<close>

type_synonym ('k, 'v) entries = "('k \<times> 'v) list"

fun entries_insert :: "('k \<Rightarrow> 'k \<Rightarrow> int) \<Rightarrow> 'k \<Rightarrow> 'v \<Rightarrow> ('k, 'v) entries \<Rightarrow> ('k, 'v) entries" where
  "entries_insert cmp k v [] = [(k, v)]"
| "entries_insert cmp k v ((x, w) # t) =
     (if cmp k x = 1 then (k, v) # (x, w) # t else (x, w) # entries_insert cmp k v t)"

fun entries_extract :: "('k \<Rightarrow> 'k \<Rightarrow> int) \<Rightarrow> 'k \<Rightarrow> ('k, 'v) entries
    \<Rightarrow> ('v \<times> ('k, 'v) entries) option" where
  "entries_extract cmp k [] = None"
| "entries_extract cmp k ((x, w) # t) =
     (if cmp k x = 0 then Some (w, t)
      else do { (v, t') \<leftarrow> entries_extract cmp k t; Some (v, (x, w) # t') })"

text \<open>\<open>entries_find_if f t\<close> is the first entry whose key satisfies \<open>f\<close>, none at the end.\<close>

fun entries_find_if :: "('k \<Rightarrow> bool) \<Rightarrow> ('k, 'v) entries \<Rightarrow> ('k \<times> 'v) option" where
  "entries_find_if f [] = None"
| "entries_find_if f ((x, w) # t) = (if f x then Some (x, w) else entries_find_if f t)"

subsection \<open>The bidirectional map\<close>

record ('a, 'b) bi_map_t =
  bm_left :: "('a, 'b) entries"
  bm_right :: "('b, 'a) entries"
  bm_cmp1 :: "'a \<Rightarrow> 'a \<Rightarrow> int"
  bm_cmp2 :: "'b \<Rightarrow> 'b \<Rightarrow> int"

definition bi_map_init :: "('a \<Rightarrow> 'a \<Rightarrow> int) \<Rightarrow> ('b \<Rightarrow> 'b \<Rightarrow> int) \<Rightarrow> ('a, 'b) bi_map_t" where
  "bi_map_init cmp1 cmp2 = \<lparr>bm_left = [], bm_right = [], bm_cmp1 = cmp1, bm_cmp2 = cmp2\<rparr>"

definition bi_map_insert :: "('a, 'b) bi_map_t \<Rightarrow> 'a \<Rightarrow> 'b \<Rightarrow> ('a, 'b) bi_map_t option" where
  "bi_map_insert m key1 key2 = do {
     let val1 = key2;
     assert_c (bm_cmp2 m key2 val1 = 0);
     let m = m\<lparr>bm_left := entries_insert (bm_cmp1 m) key1 val1 (bm_left m)\<rparr>;
     let val2 = key1;
     assert_c (bm_cmp1 m key1 val2 = 0);
     Some (m\<lparr>bm_right := entries_insert (bm_cmp2 m) key2 val2 (bm_right m)\<rparr>)
   }"

definition bi_map_extract_left :: "('a, 'b) bi_map_t \<Rightarrow> 'a \<Rightarrow> ('b \<times> ('a, 'b) bi_map_t) option" where
  "bi_map_extract_left m key1 = do {
     (key2, l) \<leftarrow> entries_extract (bm_cmp1 m) key1 (bm_left m);
     (key3, r) \<leftarrow> entries_extract (bm_cmp2 m) key2 (bm_right m);
     assert_c (bm_cmp1 m key1 key3 = 0);
     assert_c (length l = length r);
     Some (key2, m\<lparr>bm_left := l, bm_right := r\<rparr>)
   }"

text \<open>
  The extraction asserts that the tree has a callback that frees; every initialisation of a map
  passes one.
\<close>

definition bi_map_extract_right :: "('a, 'b) bi_map_t \<Rightarrow> 'b \<Rightarrow> ('a \<times> ('a, 'b) bi_map_t) option" where
  "bi_map_extract_right m key2 = do {
     (key1, r) \<leftarrow> entries_extract (bm_cmp2 m) key2 (bm_right m);
     (key3, l) \<leftarrow> entries_extract (bm_cmp1 m) key1 (bm_left m);
     assert_c (bm_cmp2 m key2 key3 = 0);
     assert_c (length l = length r);
     Some (key1, m\<lparr>bm_left := l, bm_right := r\<rparr>)
   }"

definition bi_map_size :: "('a, 'b) bi_map_t \<Rightarrow> nat option" where
  "bi_map_size m = do {
     let c = length (bm_left m);
     assert_c (c = length (bm_right m));
     Some c
   }"

subsection \<open>Laws\<close>

definition keys_distinct :: "('k \<Rightarrow> 'k \<Rightarrow> int) \<Rightarrow> ('k, 'v) entries \<Rightarrow> bool" where
  "keys_distinct cmp t \<longleftrightarrow> sorted_wrt (\<lambda>x y. cmp x y \<noteq> 0) (map fst t)"

definition bi_map_inv :: "('a, 'b) bi_map_t \<Rightarrow> bool" where
  "bi_map_inv m \<longleftrightarrow> mset (map prod.swap (bm_left m)) = mset (bm_right m)
     \<and> keys_distinct (bm_cmp1 m) (bm_left m) \<and> keys_distinct (bm_cmp2 m) (bm_right m)"

lemma mset_entries_insert: "mset (entries_insert cmp k v t) = add_mset (k, v) (mset t)"
  by (induction t rule: entries_insert.induct) auto

lemma set_entries_insert [simp]: "set (entries_insert cmp k v t) = insert (k, v) (set t)"
  by (induction t rule: entries_insert.induct) auto

lemma entries_find_if_Some:
  "entries_find_if f t = Some (x, w) \<Longrightarrow> (x, w) \<in> set t \<and> f x"
  by (induction t) (auto split: if_splits prod.splits)

lemma entries_find_if_None: "entries_find_if f t = None \<longleftrightarrow> (\<forall>(x, w) \<in> set t. \<not> f x)"
  by (induction f t rule: entries_find_if.induct) auto

context comparator
begin

lemma keys_distinct_insert:
  "keys_distinct cmp t \<Longrightarrow> \<forall>(x, w) \<in> set t. cmp k x \<noteq> 0
    \<Longrightarrow> keys_distinct cmp (entries_insert cmp k v t)"
proof (induction t)
  case (Cons e t)
  then show ?case
    using cmp_sym0 by (cases e) (fastforce simp: keys_distinct_def)
qed (simp add: keys_distinct_def)

lemma entries_extract_in:
  assumes "(x, w) \<in> set t" "cmp k x = 0" "keys_distinct cmp t"
  shows "\<exists>t'. entries_extract cmp k t = Some (w, t') \<and> mset t = add_mset (x, w) (mset t')
    \<and> keys_distinct cmp t'"
  using assms
proof (induction t)
  case (Cons e t)
  obtain y u where e: "e = (y, u)" by (cases e)
  show ?case
  proof (cases "cmp k y = 0")
    case True
    have "(x, w) = (y, u)"
    proof (rule ccontr)
      assume "(x, w) \<noteq> (y, u)"
      then have "(x, w) \<in> set t" using Cons.prems(1) e by auto
      then have "cmp y x \<noteq> 0" using Cons.prems(3) e by (force simp: keys_distinct_def)
      moreover have "cmp y x = 0"
        using cmp_trans0[of y k x] True cmp_sym0 Cons.prems(2) by blast
      ultimately show False by simp
    qed
    then show ?thesis using True e Cons.prems(3) by (simp add: keys_distinct_def)
  next
    case False
    then have in_t: "(x, w) \<in> set t" using Cons.prems e by auto
    then obtain t' where t': "entries_extract cmp k t = Some (w, t')"
      "mset t = add_mset (x, w) (mset t')" "keys_distinct cmp t'"
      using Cons e by (auto simp: keys_distinct_def)
    have "set t' \<subseteq> set t" using t'(2) by (metis mset_eq_setD set_mset_add_mset_insert
        set_mset_mset subset_insertI)
    then have "keys_distinct cmp (e # t')"
      using Cons.prems(3) t'(3) by (force simp: keys_distinct_def)
    with False t' e show ?thesis by simp
  qed
qed simp

lemma entries_extract_absent:
  "\<forall>(x, w) \<in> set t. cmp k x \<noteq> 0 \<Longrightarrow> entries_extract cmp k t = None"
  by (induction t) auto

lemma entries_find_unique:
  assumes "(x, w) \<in> set t" "keys_distinct cmp t" "\<And>y. f y \<longleftrightarrow> cmp x y = 0"
  shows "entries_find_if f t = Some (x, w)"
  using assms(1,2)
proof (induction t)
  case (Cons e t)
  obtain y u where e: "e = (y, u)" by (cases e)
  show ?case
  proof (cases "e = (x, w)")
    case True
    then show ?thesis using assms(3) cmp_self by simp
  next
    case False
    then have "(x, w) \<in> set t" using Cons.prems by auto
    moreover from this have "cmp y x \<noteq> 0" using Cons.prems(2) e by (force simp: keys_distinct_def)
    ultimately show ?thesis using Cons e assms(3) cmp_sym0 by (auto simp: keys_distinct_def)
  qed
qed simp

end

text \<open>The pairs of a bidirectional map, and its contract under two comparators.\<close>

definition bm_pairs :: "('a, 'b) bi_map_t \<Rightarrow> ('a \<times> 'b) multiset" where
  "bm_pairs m = mset (bm_left m)"

lemma right_pairs:
  assumes "bi_map_inv m"
  shows "(b, a) \<in> set (bm_right m) \<longleftrightarrow> (a, b) \<in># bm_pairs m"
proof -
  have "set (bm_right m) = prod.swap ` set (bm_left m)"
    using assms unfolding bi_map_inv_def by (metis set_map set_mset_mset)
  then show ?thesis by (force simp: bm_pairs_def)
qed

definition bm_ok :: "('a \<Rightarrow> 'a \<Rightarrow> int) \<Rightarrow> ('b \<Rightarrow> 'b \<Rightarrow> int) \<Rightarrow> ('a, 'b) bi_map_t \<Rightarrow> bool" where
  "bm_ok cmp1 cmp2 m \<longleftrightarrow> bi_map_inv m \<and> bm_cmp1 m = cmp1 \<and> bm_cmp2 m = cmp2"

locale bimap_cmps = c1: comparator cmp1 + c2: comparator cmp2
  for cmp1 :: "'a \<Rightarrow> 'a \<Rightarrow> int" and cmp2 :: "'b \<Rightarrow> 'b \<Rightarrow> int"
begin

lemma ok_init: "bm_ok cmp1 cmp2 (bi_map_init cmp1 cmp2)" "bm_pairs (bi_map_init cmp1 cmp2) = {#}"
  by (simp_all add: bm_ok_def bi_map_init_def bi_map_inv_def keys_distinct_def bm_pairs_def)

lemma ok_insert:
  assumes "bm_ok cmp1 cmp2 m" and "\<And>a b. (a, b) \<in># bm_pairs m \<Longrightarrow> cmp1 k1 a \<noteq> 0 \<and> cmp2 k2 b \<noteq> 0"
  shows "\<exists>m'. bi_map_insert m k1 k2 = Some m' \<and> bm_ok cmp1 cmp2 m' \<and> bm_pairs m' = add_mset (k1, k2) (bm_pairs m)"
proof -
  have right: "\<forall>(x, w) \<in> set (bm_right m). cmp2 k2 x \<noteq> 0"
    using assms right_pairs[of m] by (auto simp: bm_ok_def)
  have left: "\<forall>(x, w) \<in> set (bm_left m). cmp1 k1 x \<noteq> 0"
    using assms(2) by (auto simp: bm_pairs_def)
  have "keys_distinct cmp1 (entries_insert cmp1 k1 k2 (bm_left m))"
    "keys_distinct cmp2 (entries_insert cmp2 k2 k1 (bm_right m))"
    using assms(1) left right c1.keys_distinct_insert c2.keys_distinct_insert
    by (auto simp: bm_ok_def bi_map_inv_def)
  then show ?thesis
    using assms(1) by (simp add: bi_map_insert_def bm_ok_def bi_map_inv_def bm_pairs_def
        c1.cmp_self c2.cmp_self mset_entries_insert)
qed

lemma ok_extract_right:
  assumes "bm_ok cmp1 cmp2 m" and "(k1, k2') \<in># bm_pairs m" and "cmp2 k2 k2' = 0"
  shows "\<exists>m'. bi_map_extract_right m k2 = Some (k1, m') \<and> bm_ok cmp1 cmp2 m'
    \<and> bm_pairs m = add_mset (k1, k2') (bm_pairs m')"
proof -
  have inv: "bi_map_inv m" "bm_cmp1 m = cmp1" "bm_cmp2 m = cmp2" using assms(1) by (auto simp: bm_ok_def)
  have "(k2', k1) \<in> set (bm_right m)" using right_pairs[OF inv(1)] assms(2) by blast
  then obtain r where r: "entries_extract cmp2 k2 (bm_right m) = Some (k1, r)"
    "mset (bm_right m) = add_mset (k2', k1) (mset r)" "keys_distinct cmp2 r"
    using c2.entries_extract_in[of k2' k1 "bm_right m" k2] assms(3) inv by (auto simp: bi_map_inv_def)
  obtain l where l: "entries_extract cmp1 k1 (bm_left m) = Some (k2', l)"
    "mset (bm_left m) = add_mset (k1, k2') (mset l)" "keys_distinct cmp1 l"
    using c1.entries_extract_in[of k1 k2' "bm_left m" k1] assms(2) inv c1.cmp_self
    by (auto simp: bi_map_inv_def bm_pairs_def)
  have sw: "mset (map prod.swap l) = mset r"
    using inv(1) l(2) r(2) by (simp add: bi_map_inv_def)
  then have "length l = length r" by (metis length_map size_mset)
  then show ?thesis
    using r l sw inv assms(3)
    by (simp add: bi_map_extract_right_def bm_ok_def bi_map_inv_def bm_pairs_def)
qed

lemma ok_extract_left:
  assumes "bm_ok cmp1 cmp2 m" and "(k1', k2) \<in># bm_pairs m" and "cmp1 k1 k1' = 0"
  shows "\<exists>m'. bi_map_extract_left m k1 = Some (k2, m') \<and> bm_ok cmp1 cmp2 m'
    \<and> bm_pairs m = add_mset (k1', k2) (bm_pairs m')"
proof -
  have inv: "bi_map_inv m" "bm_cmp1 m = cmp1" "bm_cmp2 m = cmp2" using assms(1) by (auto simp: bm_ok_def)
  obtain l where l: "entries_extract cmp1 k1 (bm_left m) = Some (k2, l)"
    "mset (bm_left m) = add_mset (k1', k2) (mset l)" "keys_distinct cmp1 l"
    using c1.entries_extract_in[of k1' k2 "bm_left m" k1] assms(2,3) inv
    by (auto simp: bi_map_inv_def bm_pairs_def)
  have "(k2, k1') \<in> set (bm_right m)" using right_pairs[OF inv(1)] assms(2) by blast
  then obtain r where r: "entries_extract cmp2 k2 (bm_right m) = Some (k1', r)"
    "mset (bm_right m) = add_mset (k2, k1') (mset r)" "keys_distinct cmp2 r"
    using c2.entries_extract_in[of k2 k1' "bm_right m" k2] inv c2.cmp_self
    by (auto simp: bi_map_inv_def)
  have sw: "mset (map prod.swap l) = mset r"
    using inv(1) l(2) r(2) by (simp add: bi_map_inv_def)
  then have "length l = length r" by (metis length_map size_mset)
  then show ?thesis
    using r l sw inv assms(3)
    by (simp add: bi_map_extract_left_def bm_ok_def bi_map_inv_def bm_pairs_def)
qed

lemma left_keys_unique:
  assumes "bm_ok cmp1 cmp2 m" "(a, b) \<in># bm_pairs m" "(a', b') \<in># bm_pairs m" "cmp1 a a' = 0"
  shows "a = a' \<and> b = b'"
proof -
  have d: "keys_distinct cmp1 (bm_left m)" using assms(1) by (auto simp: bm_ok_def bi_map_inv_def)
  have in1: "(a, b) \<in> set (bm_left m)" "(a', b') \<in> set (bm_left m)"
    using assms by (auto simp: bm_pairs_def)
  have "entries_find_if (\<lambda>y. cmp1 a y = 0) (bm_left m) = Some (a, b)"
    using c1.entries_find_unique[OF in1(1) d] by simp
  moreover have "entries_find_if (\<lambda>y. cmp1 a y = 0) (bm_left m) = Some (a', b')"
    using c1.entries_find_unique[OF in1(2) d] c1.cmp_cong[OF assms(4)] by simp
  ultimately show ?thesis by simp
qed

lemma find_left:
  assumes "bm_ok cmp1 cmp2 m" "(a, b) \<in># bm_pairs m" "\<And>y. f y \<longleftrightarrow> cmp1 a y = 0"
  shows "entries_find_if f (bm_left m) = Some (a, b)"
  using assms by (intro c1.entries_find_unique) (auto simp: bm_ok_def bi_map_inv_def bm_pairs_def)

lemma find_right:
  assumes "bm_ok cmp1 cmp2 m" "(a, b) \<in># bm_pairs m" "\<And>y. f y \<longleftrightarrow> cmp2 b y = 0"
  shows "entries_find_if f (bm_right m) = Some (b, a)"
proof (rule c2.entries_find_unique)
  show "(b, a) \<in> set (bm_right m)" using assms right_pairs[of m b a] by (auto simp: bm_ok_def)
  show "keys_distinct cmp2 (bm_right m)" using assms(1) by (auto simp: bm_ok_def bi_map_inv_def)
qed (rule assms(3))

end

end
