(* ===== verification/Rb_Heap.thy ===== *)
theory Rb_Heap
  imports Bimap
begin

text \<open>
  The red-black tree \<^verbatim>\<open>src/src/flexric/src/util/alg_ds/ds/assoc_container/assoc_rb_tree.c\<close> over an
  explicit heap of nodes.

  An address is a natural number, 0 the null pointer; reading or writing an address without a
  node (null, or freed) is \<open>None\<close>.  The leaf of the tree is the node \<open>rb_dummy\<close>, whose key and
  value are null and whose parent the deletion overwrites.  The address that \<^verbatim>\<open>malloc\<close> returns is
  an argument of the operations that allocate.  The loops are partial functions; that they end is
  proved in \<open>Rb_Insert\<close>, \<open>Rb_Delete\<close> and \<open>Rb_Iter\<close>.
\<close>

type_synonym addr = nat

datatype assoc_color_e = ASSOC_BLACK | ASSOC_RED

record ('k, 'v) assoc_node_t =
  an_key :: "'k option"
  an_value :: "'v option"
  an_parent :: addr
  an_left :: addr
  an_right :: addr
  an_color :: assoc_color_e

record ('k, 'v) assoc_rb_tree_t =
  rb_heap :: "addr \<Rightarrow> ('k, 'v) assoc_node_t option"
  rb_root :: addr
  rb_dummy :: addr
  rb_comp :: "'k \<Rightarrow> 'k \<Rightarrow> int"
  rb_size :: nat

subsection \<open>Access to the heap\<close>

definition rb_upd :: "('k, 'v) assoc_rb_tree_t \<Rightarrow> addr
    \<Rightarrow> (('k, 'v) assoc_node_t \<Rightarrow> ('k, 'v) assoc_node_t) \<Rightarrow> ('k, 'v) assoc_rb_tree_t option" where
  "rb_upd s a f = do {
     n \<leftarrow> rb_heap s a;
     Some (s\<lparr>rb_heap := (rb_heap s)(a \<mapsto> f n)\<rparr>)
   }"

definition rb_parent :: "('k, 'v) assoc_rb_tree_t \<Rightarrow> addr \<Rightarrow> addr option" where
  "rb_parent s a = do { n \<leftarrow> rb_heap s a; Some (an_parent n) }"

definition init_node :: "'k option \<Rightarrow> 'v option \<Rightarrow> ('k, 'v) assoc_node_t" where
  "init_node key value = \<lparr>an_key = key, an_value = value, an_parent = 0, an_left = 0, an_right = 0,
     an_color = ASSOC_RED\<rparr>"

definition assoc_rb_tree_init :: "addr \<Rightarrow> ('k \<Rightarrow> 'k \<Rightarrow> int) \<Rightarrow> ('k, 'v) assoc_rb_tree_t" where
  "assoc_rb_tree_init new comp_func = \<lparr>rb_heap = [new \<mapsto> (init_node None None)\<lparr>an_color := ASSOC_BLACK\<rparr>],
     rb_root = new, rb_dummy = new, rb_comp = comp_func, rb_size = 0\<rparr>"

definition create_node_rb_tree :: "('k, 'v) assoc_rb_tree_t \<Rightarrow> 'k \<Rightarrow> 'v \<Rightarrow> ('k, 'v) assoc_node_t" where
  "create_node_rb_tree s key value = (init_node (Some key) (Some value))
     \<lparr>an_parent := rb_dummy s, an_left := rb_dummy s, an_right := rb_dummy s\<rparr>"

subsection \<open>Rotations\<close>

text \<open>The node \<open>x\<close> hangs from \<open>p\<close> (or is the root): hang \<open>y\<close> there instead.\<close>

definition replace_child :: "('k, 'v) assoc_rb_tree_t \<Rightarrow> addr \<Rightarrow> addr \<Rightarrow> addr
    \<Rightarrow> ('k, 'v) assoc_rb_tree_t option" where
  "replace_child s p x y =
     (if p = rb_dummy s then Some (s\<lparr>rb_root := y\<rparr>)
      else do {
        pn \<leftarrow> rb_heap s p;
        if x = an_left pn then rb_upd s p (\<lambda>n. n\<lparr>an_left := y\<rparr>)
        else rb_upd s p (\<lambda>n. n\<lparr>an_right := y\<rparr>)
      })"

definition left_rotate :: "('k, 'v) assoc_rb_tree_t \<Rightarrow> addr \<Rightarrow> ('k, 'v) assoc_rb_tree_t option" where
  "left_rotate s x = do {
     xn \<leftarrow> rb_heap s x;
     assert_c (an_right xn \<noteq> rb_dummy s);
     let y = an_right xn;
     yn \<leftarrow> rb_heap s y;
     s \<leftarrow> rb_upd s x (\<lambda>n. n\<lparr>an_right := an_left yn\<rparr>);
     s \<leftarrow> (if an_left yn \<noteq> rb_dummy s then rb_upd s (an_left yn) (\<lambda>n. n\<lparr>an_parent := x\<rparr>) else Some s);
     s \<leftarrow> rb_upd s y (\<lambda>n. n\<lparr>an_parent := an_parent xn\<rparr>);
     s \<leftarrow> replace_child s (an_parent xn) x y;
     s \<leftarrow> rb_upd s y (\<lambda>n. n\<lparr>an_left := x\<rparr>);
     rb_upd s x (\<lambda>n. n\<lparr>an_parent := y\<rparr>)
   }"

definition right_rotate :: "('k, 'v) assoc_rb_tree_t \<Rightarrow> addr \<Rightarrow> ('k, 'v) assoc_rb_tree_t option" where
  "right_rotate s x = do {
     xn \<leftarrow> rb_heap s x;
     assert_c (an_left xn \<noteq> rb_dummy s);
     let y = an_left xn;
     yn \<leftarrow> rb_heap s y;
     s \<leftarrow> rb_upd s x (\<lambda>n. n\<lparr>an_left := an_right yn\<rparr>);
     s \<leftarrow> (if an_right yn \<noteq> rb_dummy s then rb_upd s (an_right yn) (\<lambda>n. n\<lparr>an_parent := x\<rparr>) else Some s);
     s \<leftarrow> rb_upd s y (\<lambda>n. n\<lparr>an_parent := an_parent xn\<rparr>);
     s \<leftarrow> replace_child s (an_parent xn) x y;
     s \<leftarrow> rb_upd s y (\<lambda>n. n\<lparr>an_right := x\<rparr>);
     rb_upd s x (\<lambda>n. n\<lparr>an_parent := y\<rparr>)
   }"

abbreviation set_color :: "('k, 'v) assoc_rb_tree_t \<Rightarrow> addr \<Rightarrow> assoc_color_e
    \<Rightarrow> ('k, 'v) assoc_rb_tree_t option" where
  "set_color s a c \<equiv> rb_upd s a (\<lambda>n. n\<lparr>an_color := c\<rparr>)"

subsection \<open>Insertion\<close>

partial_function (option) insert_fixup_loop :: "('k, 'v) assoc_rb_tree_t \<Rightarrow> addr
    \<Rightarrow> ('k, 'v) assoc_rb_tree_t option" where
  "insert_fixup_loop s z = do {
     zn \<leftarrow> rb_heap s z;
     let parent = an_parent zn;
     pn \<leftarrow> rb_heap s parent;
     if an_color pn = ASSOC_RED then do {
       let grand_parent = an_parent pn;
       gn \<leftarrow> rb_heap s grand_parent;
       if parent = an_left gn then do {
         let uncle = an_right gn;
         un \<leftarrow> rb_heap s uncle;
         if an_color un = ASSOC_RED then do {
           s \<leftarrow> set_color s parent ASSOC_BLACK;
           s \<leftarrow> set_color s uncle ASSOC_BLACK;
           s \<leftarrow> set_color s grand_parent ASSOC_RED;
           insert_fixup_loop s grand_parent
         } else do {
           (s, z, parent) \<leftarrow> (if z = an_right pn then do {
               let z = parent;
               s \<leftarrow> left_rotate s z;
               zn \<leftarrow> rb_heap s z;
               Some (s, z, an_parent zn)
             } else Some (s, z, parent));
           s \<leftarrow> set_color s parent ASSOC_BLACK;
           s \<leftarrow> set_color s grand_parent ASSOC_RED;
           s \<leftarrow> right_rotate s grand_parent;
           insert_fixup_loop s z
         }
       } else do {
         let uncle = an_left gn;
         un \<leftarrow> rb_heap s uncle;
         if an_color un = ASSOC_RED then do {
           s \<leftarrow> set_color s parent ASSOC_BLACK;
           s \<leftarrow> set_color s uncle ASSOC_BLACK;
           s \<leftarrow> set_color s grand_parent ASSOC_RED;
           insert_fixup_loop s grand_parent
         } else do {
           (s, z, parent) \<leftarrow> (if z = an_left pn then do {
               let z = parent;
               s \<leftarrow> right_rotate s z;
               zn \<leftarrow> rb_heap s z;
               Some (s, z, an_parent zn)
             } else Some (s, z, parent));
           s \<leftarrow> set_color s parent ASSOC_BLACK;
           s \<leftarrow> set_color s grand_parent ASSOC_RED;
           s \<leftarrow> left_rotate s grand_parent;
           insert_fixup_loop s z
         }
       }
     } else Some s
   }"

definition insert_fixup :: "('k, 'v) assoc_rb_tree_t \<Rightarrow> addr \<Rightarrow> ('k, 'v) assoc_rb_tree_t option" where
  "insert_fixup s z = do {
     s \<leftarrow> insert_fixup_loop s z;
     set_color s (rb_root s) ASSOC_BLACK
   }"

text \<open>The leaf to insert at: the last node on the way down.\<close>

partial_function (option) find_leaf :: "('k, 'v) assoc_rb_tree_t \<Rightarrow> 'k \<Rightarrow> addr \<Rightarrow> addr \<Rightarrow> addr option" where
  "find_leaf s key x y =
     (if x \<noteq> rb_dummy s then do {
        xn \<leftarrow> rb_heap s x;
        xkey \<leftarrow> an_key xn;
        if rb_comp s key xkey = 1 then find_leaf s key (an_left xn) x else find_leaf s key (an_right xn) x
      } else Some y)"

definition assoc_rb_tree_insert :: "addr \<Rightarrow> ('k, 'v) assoc_rb_tree_t \<Rightarrow> 'k \<Rightarrow> 'v
    \<Rightarrow> ('k, 'v) assoc_rb_tree_t option" where
  "assoc_rb_tree_insert z s key value = do {
     let s = s\<lparr>rb_heap := (rb_heap s)(z \<mapsto> create_node_rb_tree s key value)\<rparr>;
     assert_c (z \<noteq> rb_dummy s);
     y \<leftarrow> find_leaf s key (rb_root s) (rb_dummy s);
     s \<leftarrow> rb_upd s z (\<lambda>n. n\<lparr>an_parent := y\<rparr>);
     s \<leftarrow> (if y = rb_dummy s then Some (s\<lparr>rb_root := z\<rparr>)
       else do {
         yn \<leftarrow> rb_heap s y;
         ykey \<leftarrow> an_key yn;
         if rb_comp s key ykey = 1 then rb_upd s y (\<lambda>n. n\<lparr>an_left := z\<rparr>)
         else rb_upd s y (\<lambda>n. n\<lparr>an_right := z\<rparr>)
       });
     s \<leftarrow> insert_fixup s z;
     Some (s\<lparr>rb_size := rb_size s + 1\<rparr>)
   }"

subsection \<open>Extraction\<close>

text \<open>
  The repair moves up from \<open>x\<close>, which lacks a black node.  Case 1 is a red sibling; the rest
  returns the node to go on with, the parent of \<open>x\<close> or the root.
\<close>

definition delete_left_case1 :: "('k, 'v) assoc_rb_tree_t \<Rightarrow> addr
    \<Rightarrow> (('k, 'v) assoc_rb_tree_t \<times> addr) option" where
  "delete_left_case1 s x = do {
     p \<leftarrow> rb_parent s x;
     pn \<leftarrow> rb_heap s p;
     let w = an_right pn;
     wn \<leftarrow> rb_heap s w;
     if an_color wn = ASSOC_RED then do {
       s \<leftarrow> set_color s w ASSOC_BLACK;
       s \<leftarrow> set_color s p ASSOC_RED;
       s \<leftarrow> left_rotate s p;
       p \<leftarrow> rb_parent s x;
       pn \<leftarrow> rb_heap s p;
       Some (s, an_right pn)
     } else Some (s, w)
   }"

definition delete_left_rest :: "('k, 'v) assoc_rb_tree_t \<Rightarrow> addr \<Rightarrow> addr
    \<Rightarrow> (('k, 'v) assoc_rb_tree_t \<times> addr) option" where
  "delete_left_rest s x w = do {
     wn \<leftarrow> rb_heap s w;
     assert_c (an_color wn = ASSOC_BLACK);
     ln \<leftarrow> rb_heap s (an_left wn);
     rn \<leftarrow> rb_heap s (an_right wn);
     if an_color ln = ASSOC_BLACK \<and> an_color rn = ASSOC_BLACK then do {
       s \<leftarrow> set_color s w ASSOC_RED;
       p \<leftarrow> rb_parent s x;
       Some (s, p)
     } else do {
       (s, w) \<leftarrow> (if an_color rn = ASSOC_BLACK then do {
           assert_c (an_color wn = ASSOC_BLACK);
           assert_c (an_color ln = ASSOC_RED);
           s \<leftarrow> set_color s (an_left wn) ASSOC_BLACK;
           s \<leftarrow> set_color s w ASSOC_RED;
           s \<leftarrow> right_rotate s w;
           p \<leftarrow> rb_parent s x;
           pn \<leftarrow> rb_heap s p;
           Some (s, an_right pn)
         } else Some (s, w));
       wn \<leftarrow> rb_heap s w;
       assert_c (an_color wn = ASSOC_BLACK);
       rn \<leftarrow> rb_heap s (an_right wn);
       assert_c (an_color rn = ASSOC_RED);
       p \<leftarrow> rb_parent s x;
       pn \<leftarrow> rb_heap s p;
       s \<leftarrow> set_color s w (an_color pn);
       s \<leftarrow> set_color s p ASSOC_BLACK;
       s \<leftarrow> set_color s (an_right wn) ASSOC_BLACK;
       s \<leftarrow> left_rotate s p;
       Some (s, rb_root s)
     }
   }"

definition delete_right_case1 :: "('k, 'v) assoc_rb_tree_t \<Rightarrow> addr
    \<Rightarrow> (('k, 'v) assoc_rb_tree_t \<times> addr) option" where
  "delete_right_case1 s x = do {
     p \<leftarrow> rb_parent s x;
     pn \<leftarrow> rb_heap s p;
     let w = an_left pn;
     wn \<leftarrow> rb_heap s w;
     if an_color wn = ASSOC_RED then do {
       s \<leftarrow> set_color s w ASSOC_BLACK;
       s \<leftarrow> set_color s p ASSOC_RED;
       s \<leftarrow> right_rotate s p;
       p \<leftarrow> rb_parent s x;
       pn \<leftarrow> rb_heap s p;
       Some (s, an_left pn)
     } else Some (s, w)
   }"

definition delete_right_rest :: "('k, 'v) assoc_rb_tree_t \<Rightarrow> addr \<Rightarrow> addr
    \<Rightarrow> (('k, 'v) assoc_rb_tree_t \<times> addr) option" where
  "delete_right_rest s x w = do {
     wn \<leftarrow> rb_heap s w;
     assert_c (an_color wn = ASSOC_BLACK);
     ln \<leftarrow> rb_heap s (an_left wn);
     rn \<leftarrow> rb_heap s (an_right wn);
     if an_color ln = ASSOC_BLACK \<and> an_color rn = ASSOC_BLACK then do {
       s \<leftarrow> set_color s w ASSOC_RED;
       p \<leftarrow> rb_parent s x;
       Some (s, p)
     } else do {
       (s, w) \<leftarrow> (if an_color ln = ASSOC_BLACK then do {
           assert_c (an_color wn = ASSOC_BLACK);
           assert_c (an_color rn = ASSOC_RED);
           s \<leftarrow> set_color s (an_right wn) ASSOC_BLACK;
           s \<leftarrow> set_color s w ASSOC_RED;
           s \<leftarrow> left_rotate s w;
           p \<leftarrow> rb_parent s x;
           pn \<leftarrow> rb_heap s p;
           Some (s, an_left pn)
         } else Some (s, w));
       wn \<leftarrow> rb_heap s w;
       assert_c (an_color wn = ASSOC_BLACK);
       ln \<leftarrow> rb_heap s (an_left wn);
       assert_c (an_color ln = ASSOC_RED);
       p \<leftarrow> rb_parent s x;
       pn \<leftarrow> rb_heap s p;
       s \<leftarrow> set_color s w (an_color pn);
       s \<leftarrow> set_color s p ASSOC_BLACK;
       s \<leftarrow> set_color s (an_left wn) ASSOC_BLACK;
       s \<leftarrow> right_rotate s p;
       Some (s, rb_root s)
     }
   }"

partial_function (option) delete_fixup_loop :: "('k, 'v) assoc_rb_tree_t \<Rightarrow> addr
    \<Rightarrow> (('k, 'v) assoc_rb_tree_t \<times> addr) option" where
  "delete_fixup_loop s x = do {
     xn \<leftarrow> rb_heap s x;
     if x \<noteq> rb_root s \<and> an_color xn = ASSOC_BLACK then do {
       pn \<leftarrow> rb_heap s (an_parent xn);
       (s, x) \<leftarrow> (if x = an_left pn
         then do { (s, w) \<leftarrow> delete_left_case1 s x; delete_left_rest s x w }
         else do { (s, w) \<leftarrow> delete_right_case1 s x; delete_right_rest s x w });
       delete_fixup_loop s x
     } else Some (s, x)
   }"

definition delete_fixup :: "('k, 'v) assoc_rb_tree_t \<Rightarrow> addr \<Rightarrow> ('k, 'v) assoc_rb_tree_t option" where
  "delete_fixup s x = do {
     (s, x) \<leftarrow> delete_fixup_loop s x;
     set_color s x ASSOC_BLACK
   }"

definition transplant :: "('k, 'v) assoc_rb_tree_t \<Rightarrow> addr \<Rightarrow> addr \<Rightarrow> ('k, 'v) assoc_rb_tree_t option" where
  "transplant s u v = do {
     assert_c (u \<noteq> rb_dummy s);
     un \<leftarrow> rb_heap s u;
     s \<leftarrow> replace_child s (an_parent un) u v;
     un \<leftarrow> rb_heap s u;
     rb_upd s v (\<lambda>n. n\<lparr>an_parent := an_parent un\<rparr>)
   }"

partial_function (option) leftmost :: "('k, 'v) assoc_rb_tree_t \<Rightarrow> addr \<Rightarrow> addr option" where
  "leftmost s x = do {
     xn \<leftarrow> rb_heap s x;
     if an_left xn \<noteq> rb_dummy s then leftmost s (an_left xn) else Some x
   }"

definition minimum :: "('k, 'v) assoc_rb_tree_t \<Rightarrow> addr \<Rightarrow> addr option" where
  "minimum s x = (if x = rb_dummy s then Some (rb_dummy s) else leftmost s x)"

partial_function (option) find_rb_tree :: "('k, 'v) assoc_rb_tree_t \<Rightarrow> addr \<Rightarrow> 'k \<Rightarrow> addr option" where
  "find_rb_tree s node key =
     (if node \<noteq> rb_dummy s then do {
        n \<leftarrow> rb_heap s node;
        nkey \<leftarrow> an_key n;
        let rc = rb_comp s key nkey;
        if rc = 1 then find_rb_tree s (an_left n) key
        else if rc = -1 then find_rb_tree s (an_right n) key
        else do { assert_c (rc = 0); Some node }
      } else Some node)"

definition assoc_rb_tree_extract_node :: "('k, 'v) assoc_rb_tree_t \<Rightarrow> addr
    \<Rightarrow> ('k, 'v) assoc_rb_tree_t option" where
  "assoc_rb_tree_extract_node s z = do {
     assert_c (z \<noteq> rb_dummy s);
     zn \<leftarrow> rb_heap s z;
     (s, x, original_color) \<leftarrow>
       (if an_left zn = rb_dummy s then do {
          s \<leftarrow> transplant s z (an_right zn);
          Some (s, an_right zn, an_color zn)
        } else if an_right zn = rb_dummy s then do {
          s \<leftarrow> transplant s z (an_left zn);
          Some (s, an_left zn, an_color zn)
        } else do {
          y \<leftarrow> minimum s (an_right zn);
          yn \<leftarrow> rb_heap s y;
          let original_color = an_color yn;
          let x = an_right yn;
          s \<leftarrow> (if an_parent yn = z then rb_upd s x (\<lambda>n. n\<lparr>an_parent := y\<rparr>)
            else do {
              s \<leftarrow> transplant s y (an_right yn);
              zn \<leftarrow> rb_heap s z;
              s \<leftarrow> rb_upd s y (\<lambda>n. n\<lparr>an_right := an_right zn\<rparr>);
              rb_upd s (an_right zn) (\<lambda>n. n\<lparr>an_parent := y\<rparr>)
            });
          s \<leftarrow> transplant s z y;
          zn \<leftarrow> rb_heap s z;
          s \<leftarrow> rb_upd s y (\<lambda>n. n\<lparr>an_left := an_left zn\<rparr>);
          s \<leftarrow> rb_upd s (an_left zn) (\<lambda>n. n\<lparr>an_parent := y\<rparr>);
          s \<leftarrow> set_color s y (an_color zn);
          Some (s, x, original_color)
        });
     if original_color = ASSOC_BLACK then delete_fixup s x else Some s
   }"

text \<open>Freeing a node takes it off the heap.\<close>

definition free_node_rb_tree :: "('k, 'v) assoc_rb_tree_t \<Rightarrow> addr \<Rightarrow> ('k, 'v) assoc_rb_tree_t option" where
  "free_node_rb_tree s a = do { n \<leftarrow> rb_heap s a; Some (s\<lparr>rb_heap := (rb_heap s)(a := None)\<rparr>) }"

definition assoc_rb_tree_extract :: "('k, 'v) assoc_rb_tree_t \<Rightarrow> 'k
    \<Rightarrow> ('v option \<times> ('k, 'v) assoc_rb_tree_t) option" where
  "assoc_rb_tree_extract s key = do {
     z \<leftarrow> find_rb_tree s (rb_root s) key;
     assert_c (z \<noteq> rb_dummy s);
     s \<leftarrow> assoc_rb_tree_extract_node s z;
     zn \<leftarrow> rb_heap s z;
     s \<leftarrow> free_node_rb_tree s z;
     assert_c (rb_size s \<noteq> 0);
     Some (an_value zn, s\<lparr>rb_size := rb_size s - 1\<rparr>)
   }"

definition assoc_rb_tree_free_it :: "('k, 'v) assoc_rb_tree_t \<Rightarrow> addr \<Rightarrow> ('k, 'v) assoc_rb_tree_t option" where
  "assoc_rb_tree_free_it s z = do {
     assert_c (z \<noteq> rb_dummy s);
     s \<leftarrow> assoc_rb_tree_extract_node s z;
     s \<leftarrow> free_node_rb_tree s z;
     assert_c (rb_size s \<noteq> 0);
     Some (s\<lparr>rb_size := rb_size s - 1\<rparr>)
   }"

subsection \<open>Iterators\<close>

definition assoc_rb_tree_front :: "('k, 'v) assoc_rb_tree_t \<Rightarrow> addr option" where
  "assoc_rb_tree_front s = minimum s (rb_root s)"

partial_function (option) climb :: "('k, 'v) assoc_rb_tree_t \<Rightarrow> addr \<Rightarrow> addr \<Rightarrow> addr option" where
  "climb s node p =
     (if p \<noteq> rb_dummy s then do {
        pn \<leftarrow> rb_heap s p;
        if an_left pn \<noteq> node then climb s p (an_parent pn) else Some p
      } else Some p)"

definition assoc_rb_tree_next :: "('k, 'v) assoc_rb_tree_t \<Rightarrow> addr \<Rightarrow> addr option" where
  "assoc_rb_tree_next s node = do {
     assert_c (node \<noteq> rb_dummy s);
     n \<leftarrow> rb_heap s node;
     if an_right n \<noteq> rb_dummy s then minimum s (an_right n)
     else climb s node (an_parent n)
   }"

definition assoc_rb_tree_end :: "('k, 'v) assoc_rb_tree_t \<Rightarrow> addr" where
  "assoc_rb_tree_end s = rb_dummy s"

definition assoc_rb_tree_key :: "('k, 'v) assoc_rb_tree_t \<Rightarrow> addr \<Rightarrow> 'k option" where
  "assoc_rb_tree_key s it = do { assert_c (it \<noteq> rb_dummy s); n \<leftarrow> rb_heap s it; an_key n }"

definition assoc_rb_tree_value :: "('k, 'v) assoc_rb_tree_t \<Rightarrow> addr \<Rightarrow> 'v option" where
  "assoc_rb_tree_value s it = do { assert_c (it \<noteq> rb_dummy s); n \<leftarrow> rb_heap s it; an_value n }"

definition assoc_rb_tree_size :: "('k, 'v) assoc_rb_tree_t \<Rightarrow> nat" where
  "assoc_rb_tree_size s = rb_size s"

text \<open>The search for a key that satisfies \<open>f\<close> (\<^verbatim>\<open>alg/find.c\<close>): the end when there is none.\<close>

partial_function (option) find_if_rb_tree :: "('k, 'v) assoc_rb_tree_t \<Rightarrow> addr \<Rightarrow> addr \<Rightarrow> ('k \<Rightarrow> bool)
    \<Rightarrow> addr option" where
  "find_if_rb_tree s start_it end_it f =
     (if start_it \<noteq> end_it then do {
        key \<leftarrow> assoc_rb_tree_key s start_it;
        if f key then Some start_it
        else do { start_it \<leftarrow> assoc_rb_tree_next s start_it; find_if_rb_tree s start_it end_it f }
      } else Some start_it)"

subsection \<open>Freeing the tree\<close>

text \<open>The list is the keys and values that the callback receives, in the order of its calls.\<close>

partial_function (option) depth_first_search_free :: "('k, 'v) assoc_rb_tree_t \<Rightarrow> addr
    \<Rightarrow> (('k, 'v) assoc_rb_tree_t \<times> ('k option \<times> 'v option) list) option" where
  "depth_first_search_free s node =
     (if node \<noteq> rb_dummy s then do {
        n \<leftarrow> rb_heap s node;
        (s, ls) \<leftarrow> depth_first_search_free s (an_left n);
        n \<leftarrow> rb_heap s node;
        (s, rs) \<leftarrow> depth_first_search_free s (an_right n);
        n \<leftarrow> rb_heap s node;
        s \<leftarrow> free_node_rb_tree s node;
        Some (s, ls @ rs @ [(an_key n, an_value n)])
      } else Some (s, []))"

definition assoc_rb_tree_free :: "('k, 'v) assoc_rb_tree_t
    \<Rightarrow> (('k, 'v) assoc_rb_tree_t \<times> ('k option \<times> 'v option) list) option" where
  "assoc_rb_tree_free s = do {
     (s, calls) \<leftarrow> depth_first_search_free s (rb_root s);
     s \<leftarrow> free_node_rb_tree s (rb_dummy s);
     Some (s, calls)
   }"

end
