(* ===== verification/Rb_Rep.thy ===== *)
theory Rb_Rep
  imports Rb_Heap
begin

text \<open>
  What the heap of a red-black tree holds: a tree whose nodes carry their addresses, seen from
  a place in it.  A place is the subtree below it and the frames on the way up to the root.  The
  rotations and the painting of nodes are shown here to do to that tree what their names say.
\<close>

subsection \<open>Trees with addresses\<close>

datatype ('k, 'v) rbt = E | T assoc_color_e "('k, 'v) rbt" addr 'k 'v "('k, 'v) rbt"

datatype ('k, 'v) frame = FL assoc_color_e addr 'k 'v "('k, 'v) rbt" | FR assoc_color_e "('k, 'v) rbt" addr 'k 'v

type_synonym ('k, 'v) ctxt = "('k, 'v) frame list"

fun ad :: "addr \<Rightarrow> ('k, 'v) rbt \<Rightarrow> addr" where
  "ad d E = d"
| "ad d (T c l a k v r) = a"

fun addrs :: "('k, 'v) rbt \<Rightarrow> addr list" where
  "addrs E = []"
| "addrs (T c l a k v r) = addrs l @ a # addrs r"

fun inorder :: "('k, 'v) rbt \<Rightarrow> ('k, 'v) entries" where
  "inorder E = []"
| "inorder (T c l a k v r) = inorder l @ (k, v) # inorder r"

fun tcol :: "('k, 'v) rbt \<Rightarrow> assoc_color_e" where
  "tcol E = ASSOC_BLACK"
| "tcol (T c l a k v r) = c"

fun cpar :: "addr \<Rightarrow> ('k, 'v) ctxt \<Rightarrow> addr" where
  "cpar d [] = d"
| "cpar d (FL c a k v r # C) = a"
| "cpar d (FR c l a k v # C) = a"

fun caddrs :: "('k, 'v) ctxt \<Rightarrow> addr list" where
  "caddrs [] = []"
| "caddrs (FL c a k v r # C) = a # addrs r @ caddrs C"
| "caddrs (FR c l a k v # C) = a # addrs l @ caddrs C"

fun plug :: "('k, 'v) ctxt \<Rightarrow> ('k, 'v) rbt \<Rightarrow> ('k, 'v) rbt" where
  "plug [] t = t"
| "plug (FL c a k v r # C) t = plug C (T c t a k v r)"
| "plug (FR c l a k v # C) t = plug C (T c l a k v t)"

definition node :: "'k \<Rightarrow> 'v \<Rightarrow> addr \<Rightarrow> addr \<Rightarrow> addr \<Rightarrow> assoc_color_e \<Rightarrow> ('k, 'v) assoc_node_t" where
  "node k v p l r c = \<lparr>an_key = Some k, an_value = Some v, an_parent = p, an_left = l, an_right = r, an_color = c\<rparr>"

lemma node_sel [simp]:
  "an_key (node k v p l r c) = Some k" "an_value (node k v p l r c) = Some v"
  "an_parent (node k v p l r c) = p" "an_left (node k v p l r c) = l"
  "an_right (node k v p l r c) = r" "an_color (node k v p l r c) = c"
  by (simp_all add: node_def)

lemma node_upd [simp]:
  "node k v p l r c\<lparr>an_parent := p'\<rparr> = node k v p' l r c"
  "node k v p l r c\<lparr>an_left := l'\<rparr> = node k v p l' r c"
  "node k v p l r c\<lparr>an_right := r'\<rparr> = node k v p l r' c"
  "node k v p l r c\<lparr>an_color := c'\<rparr> = node k v p l r c'"
  by (simp_all add: node_def)

lemma node_eq [simp]:
  "node k v p l r c = node k' v' p' l' r' c' \<longleftrightarrow> k = k' \<and> v = v' \<and> p = p' \<and> l = l' \<and> r = r' \<and> c = c'"
  by (auto simp: node_def)

subsection \<open>Representation\<close>

type_synonym ('k, 'v) rheap = "addr \<Rightarrow> ('k, 'v) assoc_node_t option"

fun rep :: "('k, 'v) rheap \<Rightarrow> addr \<Rightarrow> addr \<Rightarrow> ('k, 'v) rbt \<Rightarrow> bool" where
  "rep h d p E \<longleftrightarrow> True"
| "rep h d p (T c l a k v r) \<longleftrightarrow> h a = Some (node k v p (ad d l) (ad d r) c) \<and> rep h d a l \<and> rep h d a r"

text \<open>\<open>crep h d root C x\<close>: the frames \<open>C\<close>, whose hole is filled with the node \<open>x\<close>.\<close>

fun crep :: "('k, 'v) rheap \<Rightarrow> addr \<Rightarrow> addr \<Rightarrow> ('k, 'v) ctxt \<Rightarrow> addr \<Rightarrow> bool" where
  "crep h d root [] x \<longleftrightarrow> root = x"
| "crep h d root (FL c a k v r # C) x \<longleftrightarrow> h a = Some (node k v (cpar d C) x (ad d r) c)
     \<and> rep h d a r \<and> crep h d root C a"
| "crep h d root (FR c l a k v # C) x \<longleftrightarrow> h a = Some (node k v (cpar d C) (ad d l) x c)
     \<and> rep h d a l \<and> crep h d root C a"

lemma rep_upd [simp]: "a \<notin> set (addrs t) \<Longrightarrow> rep (h(a := x)) d p t = rep h d p t"
  by (induction t arbitrary: p) auto

lemma crep_upd [simp]: "a \<notin> set (caddrs C) \<Longrightarrow> crep (h(a := x)) d root C y = crep h d root C y"
  by (induction C arbitrary: y rule: caddrs.induct) auto

lemma ad_notin: "d \<notin> set (addrs t) \<Longrightarrow> a \<noteq> d \<Longrightarrow> a \<notin> set (addrs t) \<Longrightarrow> ad d t \<noteq> a"
  by (cases t) auto

lemma ad_in: "ad d t = d \<or> ad d t \<in> set (addrs t)"
  by (cases t) auto

lemma ad_dummy [simp]: "d \<notin> set (addrs t) \<Longrightarrow> ad d t = d \<longleftrightarrow> t = E"
  by (cases t) auto

definition dummy_ok :: "('k, 'v) assoc_rb_tree_t \<Rightarrow> bool" where
  "dummy_ok s \<longleftrightarrow> (\<exists>n. rb_heap s (rb_dummy s) = Some n \<and> an_color n = ASSOC_BLACK)"

text \<open>The tree \<open>plug C t\<close> is in the heap, seen from \<open>t\<close>.\<close>

definition at :: "('k, 'v) assoc_rb_tree_t \<Rightarrow> ('k, 'v) ctxt \<Rightarrow> ('k, 'v) rbt \<Rightarrow> bool" where
  "at s C t \<longleftrightarrow> crep (rb_heap s) (rb_dummy s) (rb_root s) C (ad (rb_dummy s) t)
     \<and> rep (rb_heap s) (rb_dummy s) (cpar (rb_dummy s) C) t
     \<and> distinct (rb_dummy s # caddrs C @ addrs t) \<and> dummy_ok s"

text \<open>Only nodes in \<open>A\<close>, and the root pointer, change.\<close>

definition frame :: "addr set \<Rightarrow> ('k, 'v) assoc_rb_tree_t \<Rightarrow> ('k, 'v) assoc_rb_tree_t \<Rightarrow> bool" where
  "frame A s s' \<longleftrightarrow> rb_dummy s' = rb_dummy s \<and> rb_comp s' = rb_comp s \<and> rb_size s' = rb_size s
     \<and> (\<forall>a. a \<notin> A \<longrightarrow> rb_heap s' a = rb_heap s a)"

lemma frame_refl [simp]: "frame A s s"
  by (simp add: frame_def)

lemma frame_trans: "frame A s t \<Longrightarrow> frame B t u \<Longrightarrow> A \<subseteq> D \<Longrightarrow> B \<subseteq> D \<Longrightarrow> frame D s u"
  by (fastforce simp: frame_def)

lemma at_FL: "at s (FL c a k v r # C) t \<longleftrightarrow> at s C (T c t a k v r)"
  by (auto simp: at_def)

lemma at_FR: "at s (FR c l a k v # C) t \<longleftrightarrow> at s C (T c l a k v t)"
  by (auto simp: at_def)

lemma at_heap:
  "at s C (T c l a k v r) \<Longrightarrow> rb_heap s a = Some (node k v (cpar (rb_dummy s) C) (ad (rb_dummy s) l) (ad (rb_dummy s) r) c)"
  by (simp add: at_def)

lemma set_color_at:
  assumes "at s C (T c l a k v r)"
  shows "\<exists>s'. set_color s a c' = Some s' \<and> at s' C (T c' l a k v r) \<and> frame {a} s s' \<and> rb_root s' = rb_root s"
  using assms by (auto simp: at_def rb_upd_def frame_def dummy_ok_def)

lemmas heap_defs = at_def rb_upd_def replace_child_def frame_def dummy_ok_def

lemma left_rotate_at:
  assumes "at s C (T c1 l x k v (T c2 m y k' v' r))"
  shows "\<exists>s'. left_rotate s x = Some s' \<and> at s' C (T c2 (T c1 l x k v m) y k' v' r)
    \<and> frame (set (caddrs C @ addrs (T c1 l x k v (T c2 m y k' v' r)))) s s'"
proof (cases C)
  case Nil
  then show ?thesis using assms by (cases m) (auto simp: left_rotate_def heap_defs)
next
  case (Cons f D)
  show ?thesis
  proof (cases f)
    case (FL c a u w t)
    then show ?thesis using assms Cons by (cases m) (auto simp: left_rotate_def heap_defs)
  next
    case (FR c t a u w)
    then have "ad (rb_dummy s) t \<noteq> x" using assms Cons by (intro ad_notin) (auto simp: at_def)
    then show ?thesis using assms Cons FR by (cases m) (auto simp: left_rotate_def heap_defs)
  qed
qed

lemma right_rotate_at:
  assumes "at s C (T c1 (T c2 l y k' v' m) x k v r)"
  shows "\<exists>s'. right_rotate s x = Some s' \<and> at s' C (T c2 l y k' v' (T c1 m x k v r))
    \<and> frame (set (caddrs C @ addrs (T c1 (T c2 l y k' v' m) x k v r))) s s'"
proof (cases C)
  case Nil
  then show ?thesis using assms by (cases m) (auto simp: right_rotate_def heap_defs)
next
  case (Cons f D)
  show ?thesis
  proof (cases f)
    case (FL c a u w t)
    then show ?thesis using assms Cons by (cases m) (auto simp: right_rotate_def heap_defs)
  next
    case (FR c t a u w)
    then have "ad (rb_dummy s) t \<noteq> x" using assms Cons by (intro ad_notin) (auto simp: at_def)
    then show ?thesis using assms Cons FR by (cases m) (auto simp: right_rotate_def heap_defs)
  qed
qed

lemma set_color_left:
  assumes "at s C (T c (T c1 l1 a1 k1 v1 r1) a k v r)"
  shows "\<exists>s'. set_color s a1 c' = Some s' \<and> at s' C (T c (T c' l1 a1 k1 v1 r1) a k v r) \<and> frame {a1} s s'"
  using set_color_at[of s "FL c a k v r # C" c1 l1 a1 k1 v1 r1 c'] assms by (auto simp: at_FL)

lemma set_color_right:
  assumes "at s C (T c l a k v (T c1 l1 a1 k1 v1 r1))"
  shows "\<exists>s'. set_color s a1 c' = Some s' \<and> at s' C (T c l a k v (T c' l1 a1 k1 v1 r1)) \<and> frame {a1} s s'"
  using set_color_at[of s "FR c l a k v # C" c1 l1 a1 k1 v1 r1 c'] assms by (auto simp: at_FR)

lemma at_color:
  assumes "at s C t"
  shows "\<exists>n. rb_heap s (ad (rb_dummy s) t) = Some n \<and> an_color n = tcol t"
  using assms by (cases t) (auto simp: at_def dummy_ok_def)

text \<open>The parts of a place: its root, and what is left and right of it.\<close>

lemma at_plug: "at s [] (plug C t) \<longleftrightarrow> at s C t"
  by (induction C t rule: plug.induct) (simp_all add: at_FL at_FR)

lemma at_left: "at s C (T c l a k v r) \<Longrightarrow> at s (FL c a k v r # C) l"
  by (simp add: at_FL)

lemma at_right: "at s C (T c l a k v r) \<Longrightarrow> at s (FR c l a k v # C) r"
  by (simp add: at_FR)

lemma set_addrs_plug [simp]: "set (addrs (plug C t)) = set (caddrs C) \<union> set (addrs t)"
  by (induction C t rule: plug.induct) auto

lemma inorder_plug_cong: "inorder t = inorder t' \<Longrightarrow> inorder (plug C t) = inorder (plug C t')"
  by (induction C arbitrary: t t' rule: caddrs.induct) simp_all

lemma at_root: "at s C t \<Longrightarrow> C = [] \<Longrightarrow> rb_root s = ad (rb_dummy s) t"
  by (simp add: at_def)

subsection \<open>Balance\<close>

text \<open>\<open>hgt t n\<close>: every path of \<open>t\<close> has \<open>n\<close> black nodes; \<open>chgt C n\<close>: so has the whole tree when the
  hole of \<open>C\<close> holds a tree with \<open>n\<close>.  \<open>redok\<close> and \<open>cok\<close>: no red node has a red child, in a tree and
  in the frames around a tree with root colour \<open>c\<close>.\<close>

fun hgt :: "('k, 'v) rbt \<Rightarrow> nat \<Rightarrow> bool" where
  "hgt E n \<longleftrightarrow> n = 0"
| "hgt (T c l a k v r) n \<longleftrightarrow> (if c = ASSOC_RED then hgt l n \<and> hgt r n
     else n \<noteq> 0 \<and> hgt l (n - 1) \<and> hgt r (n - 1))"

fun redok :: "('k, 'v) rbt \<Rightarrow> bool" where
  "redok E \<longleftrightarrow> True"
| "redok (T c l a k v r) \<longleftrightarrow> redok l \<and> redok r
     \<and> (c = ASSOC_RED \<longrightarrow> tcol l = ASSOC_BLACK \<and> tcol r = ASSOC_BLACK)"

fun chgt :: "('k, 'v) ctxt \<Rightarrow> nat \<Rightarrow> bool" where
  "chgt [] n \<longleftrightarrow> True"
| "chgt (FL c a k v r # C) n \<longleftrightarrow> hgt r n \<and> chgt C (if c = ASSOC_RED then n else Suc n)"
| "chgt (FR c l a k v # C) n \<longleftrightarrow> hgt l n \<and> chgt C (if c = ASSOC_RED then n else Suc n)"

fun cok :: "('k, 'v) ctxt \<Rightarrow> assoc_color_e \<Rightarrow> bool" where
  "cok [] c \<longleftrightarrow> True"
| "cok (FL fc a k v r # C) c \<longleftrightarrow> redok r \<and> (fc = ASSOC_RED \<longrightarrow> c = ASSOC_BLACK \<and> tcol r = ASSOC_BLACK) \<and> cok C fc"
| "cok (FR fc l a k v # C) c \<longleftrightarrow> redok l \<and> (fc = ASSOC_RED \<longrightarrow> c = ASSOC_BLACK \<and> tcol l = ASSOC_BLACK) \<and> cok C fc"

text \<open>The root is black, where the frames reach it.\<close>

fun croot :: "('k, 'v) ctxt \<Rightarrow> bool" where
  "croot [] \<longleftrightarrow> True"
| "croot [FL c a k v r] \<longleftrightarrow> c = ASSOC_BLACK"
| "croot [FR c l a k v] \<longleftrightarrow> c = ASSOC_BLACK"
| "croot (f # g # C) \<longleftrightarrow> croot (g # C)"

definition rbt_ok :: "('k, 'v) rbt \<Rightarrow> bool" where
  "rbt_ok t \<longleftrightarrow> (\<exists>n. hgt t n) \<and> redok t \<and> tcol t = ASSOC_BLACK"

lemma hgt_plug: "hgt t n \<Longrightarrow> chgt C n \<Longrightarrow> \<exists>m. hgt (plug C t) m"
  by (induction C n arbitrary: t rule: chgt.induct) (auto split: if_splits)

lemma redok_plug: "redok t \<Longrightarrow> cok C (tcol t) \<Longrightarrow> redok (plug C t)"
  by (induction C t rule: plug.induct) auto

lemma plug_hgt: "hgt (plug C t) m \<Longrightarrow> \<exists>n. hgt t n \<and> chgt C n"
proof (induction C arbitrary: t m)
  case (Cons f C)
  show ?case
  proof (cases f)
    case (FL c a k v r)
    from Cons.IH[of "T c t a k v r" m] Cons.prems FL
    obtain n where "hgt (T c t a k v r) n" "chgt C n" by auto
    then show ?thesis using FL by (cases c) (auto intro!: exI[of _ "if c = ASSOC_RED then n else n - 1"])
  next
    case (FR c l a k v)
    from Cons.IH[of "T c l a k v t" m] Cons.prems FR
    obtain n where "hgt (T c l a k v t) n" "chgt C n" by auto
    then show ?thesis using FR by (cases c) (auto intro!: exI[of _ "if c = ASSOC_RED then n else n - 1"])
  qed
qed auto

lemma plug_redok: "redok (plug C t) \<Longrightarrow> redok t \<and> cok C (tcol t)"
  by (induction C t rule: plug.induct) auto

lemma plug_root: "tcol (plug C t) = ASSOC_BLACK \<Longrightarrow> croot C"
proof (induction C arbitrary: t rule: croot.induct)
  case (4 f g C)
  then show ?case by (cases f) auto
qed auto

lemma not_red [simp]: "c \<noteq> ASSOC_RED \<longleftrightarrow> c = ASSOC_BLACK" "c \<noteq> ASSOC_BLACK \<longleftrightarrow> c = ASSOC_RED"
  by (cases c; simp)+

end
