(* ===== verification/Rb_Insert.thy ===== *)
theory Rb_Insert
  imports Rb_Rep
begin

text \<open>
  Insertion into the red-black tree: each round of the repair loop on the heap as a step on the
  tree, its invariant and its end, and the insertion as that of the in-order sequence.
\<close>

subsection \<open>One round of the repair\<close>

text \<open>
  The red node \<open>z\<close> below a red parent \<open>p\<close> and a black grandparent \<open>g\<close>.  With a red uncle the
  colours move up and the loop goes on at \<open>g\<close>.
\<close>

definition addrs_at :: "('k, 'v) ctxt \<Rightarrow> ('k, 'v) rbt \<Rightarrow> addr set" where
  "addrs_at C t = set (caddrs C) \<union> set (addrs t)"

lemma frame_at: "frame A s t \<Longrightarrow> A \<subseteq> B \<Longrightarrow> frame B s t"
  by (auto simp: frame_def)

lemma frame_step: "frame A s t \<Longrightarrow> frame B t u \<Longrightarrow> frame (A \<union> B) s u"
  by (auto simp: frame_def)

lemma flip_colors:
  assumes "at s D (T gc (T pc l p kp vp r) g kg vg (T uc ul u ku vu ur))"
  shows "\<exists>s1 s2 s3. set_color s p ASSOC_BLACK = Some s1 \<and> set_color s1 u ASSOC_BLACK = Some s2
    \<and> set_color s2 g ASSOC_RED = Some s3
    \<and> at s3 D (T ASSOC_RED (T ASSOC_BLACK l p kp vp r) g kg vg (T ASSOC_BLACK ul u ku vu ur))
    \<and> frame {p, u, g} s s3"
proof -
  obtain s1 where 1: "set_color s p ASSOC_BLACK = Some s1" "frame {p} s s1"
    "at s1 D (T gc (T ASSOC_BLACK l p kp vp r) g kg vg (T uc ul u ku vu ur))"
    using set_color_left[OF assms] by blast
  obtain s2 where 2: "set_color s1 u ASSOC_BLACK = Some s2" "frame {u} s1 s2"
    "at s2 D (T gc (T ASSOC_BLACK l p kp vp r) g kg vg (T ASSOC_BLACK ul u ku vu ur))"
    using set_color_right[OF 1(3)] by blast
  obtain s3 where 3: "set_color s2 g ASSOC_RED = Some s3" "frame {g} s2 s3"
    "at s3 D (T ASSOC_RED (T ASSOC_BLACK l p kp vp r) g kg vg (T ASSOC_BLACK ul u ku vu ur))"
    using set_color_at[OF 2(3)] by blast
  have "frame {p, u, g} s s3" using frame_step[OF frame_step[OF 1(2) 2(2)] 3(2)] by (simp add: insert_commute)
  with 1 2 3 show ?thesis by blast
qed

lemma flip_colors_mirror:
  assumes "at s D (T gc (T uc ul u ku vu ur) g kg vg (T pc l p kp vp r))"
  shows "\<exists>s1 s2 s3. set_color s p ASSOC_BLACK = Some s1 \<and> set_color s1 u ASSOC_BLACK = Some s2
    \<and> set_color s2 g ASSOC_RED = Some s3
    \<and> at s3 D (T ASSOC_RED (T ASSOC_BLACK ul u ku vu ur) g kg vg (T ASSOC_BLACK l p kp vp r))
    \<and> frame {p, u, g} s s3"
proof -
  obtain s1 where 1: "set_color s p ASSOC_BLACK = Some s1" "frame {p} s s1"
    "at s1 D (T gc (T uc ul u ku vu ur) g kg vg (T ASSOC_BLACK l p kp vp r))"
    using set_color_right[OF assms] by blast
  obtain s2 where 2: "set_color s1 u ASSOC_BLACK = Some s2" "frame {u} s1 s2"
    "at s2 D (T gc (T ASSOC_BLACK ul u ku vu ur) g kg vg (T ASSOC_BLACK l p kp vp r))"
    using set_color_left[OF 1(3)] by blast
  obtain s3 where 3: "set_color s2 g ASSOC_RED = Some s3" "frame {g} s2 s3"
    "at s3 D (T ASSOC_RED (T ASSOC_BLACK ul u ku vu ur) g kg vg (T ASSOC_BLACK l p kp vp r))"
    using set_color_at[OF 2(3)] by blast
  have "frame {p, u, g} s s3" using frame_step[OF frame_step[OF 1(2) 2(2)] 3(2)] by (simp add: insert_commute)
  with 1 2 3 show ?thesis by blast
qed

text \<open>The last step of the repair: \<open>p\<close> black, \<open>g\<close> red and rotated down.\<close>

lemma lift_left:
  assumes "at s D (T gc (T pc l p kp vp r) g kg vg u)"
  shows "\<exists>s1 s2 s3. set_color s p ASSOC_BLACK = Some s1 \<and> set_color s1 g ASSOC_RED = Some s2
    \<and> right_rotate s2 g = Some s3 \<and> at s3 D (T ASSOC_BLACK l p kp vp (T ASSOC_RED r g kg vg u))
    \<and> frame (addrs_at D (T gc (T pc l p kp vp r) g kg vg u)) s s3"
proof -
  obtain s1 where 1: "set_color s p ASSOC_BLACK = Some s1" "frame {p} s s1"
    "at s1 D (T gc (T ASSOC_BLACK l p kp vp r) g kg vg u)"
    using set_color_left[OF assms] by blast
  obtain s2 where 2: "set_color s1 g ASSOC_RED = Some s2" "frame {g} s1 s2"
    "at s2 D (T ASSOC_RED (T ASSOC_BLACK l p kp vp r) g kg vg u)"
    using set_color_at[OF 1(3)] by blast
  obtain s3 where 3: "right_rotate s2 g = Some s3" "at s3 D (T ASSOC_BLACK l p kp vp (T ASSOC_RED r g kg vg u))"
    "frame (addrs_at D (T gc (T pc l p kp vp r) g kg vg u)) s2 s3"
    using right_rotate_at[OF 2(3)] by (auto simp: addrs_at_def)
  have "frame (addrs_at D (T gc (T pc l p kp vp r) g kg vg u)) s s3"
    by (rule frame_at[OF frame_step[OF frame_step[OF 1(2) 2(2)] 3(3)]]) (auto simp: addrs_at_def)
  with 1 2 3 show ?thesis by blast
qed

lemma lift_right:
  assumes "at s D (T gc u g kg vg (T pc l p kp vp r))"
  shows "\<exists>s1 s2 s3. set_color s p ASSOC_BLACK = Some s1 \<and> set_color s1 g ASSOC_RED = Some s2
    \<and> left_rotate s2 g = Some s3 \<and> at s3 D (T ASSOC_BLACK (T ASSOC_RED u g kg vg l) p kp vp r)
    \<and> frame (addrs_at D (T gc u g kg vg (T pc l p kp vp r))) s s3"
proof -
  obtain s1 where 1: "set_color s p ASSOC_BLACK = Some s1" "frame {p} s s1"
    "at s1 D (T gc u g kg vg (T ASSOC_BLACK l p kp vp r))"
    using set_color_right[OF assms] by blast
  obtain s2 where 2: "set_color s1 g ASSOC_RED = Some s2" "frame {g} s1 s2"
    "at s2 D (T ASSOC_RED u g kg vg (T ASSOC_BLACK l p kp vp r))"
    using set_color_at[OF 1(3)] by blast
  obtain s3 where 3: "left_rotate s2 g = Some s3" "at s3 D (T ASSOC_BLACK (T ASSOC_RED u g kg vg l) p kp vp r)"
    "frame (addrs_at D (T gc u g kg vg (T pc l p kp vp r))) s2 s3"
    using left_rotate_at[OF 2(3)] by (auto simp: addrs_at_def)
  have "frame (addrs_at D (T gc u g kg vg (T pc l p kp vp r))) s s3"
    by (rule frame_at[OF frame_step[OF frame_step[OF 1(2) 2(2)] 3(3)]]) (auto simp: addrs_at_def)
  with 1 2 3 show ?thesis by blast
qed

lemma at_node_left:
  "at s C (T c (T c1 l1 a1 k1 v1 r1) a k v r) \<Longrightarrow>
    rb_heap s a1 = Some (node k1 v1 a (ad (rb_dummy s) l1) (ad (rb_dummy s) r1) c1)"
  by (simp add: at_def)

lemma at_node_right:
  "at s C (T c l a k v (T c1 l1 a1 k1 v1 r1)) \<Longrightarrow>
    rb_heap s a1 = Some (node k1 v1 a (ad (rb_dummy s) l1) (ad (rb_dummy s) r1) c1)"
  by (simp add: at_def)

lemma fixup_red_uncle:
  assumes "at s D (T gc (T ASSOC_RED l p kp vp r) g kg vg (T ASSOC_RED ul u ku vu ur))"
    and "rb_heap s z = Some zn" "an_parent zn = p"
  shows "\<exists>s'. insert_fixup_loop s z = insert_fixup_loop s' g
    \<and> at s' D (T ASSOC_RED (T ASSOC_BLACK l p kp vp r) g kg vg (T ASSOC_BLACK ul u ku vu ur))
    \<and> frame {p, u, g} s s'"
proof -
  note h = at_heap[OF assms(1)] at_node_left[OF assms(1)] at_node_right[OF assms(1)]
  show ?thesis
    using flip_colors[OF assms(1)] by (subst insert_fixup_loop.simps) (auto simp: h assms(2,3) Let_def)
qed

lemma fixup_red_uncle_mirror:
  assumes "at s D (T gc (T ASSOC_RED ul u ku vu ur) g kg vg (T ASSOC_RED l p kp vp r))"
    and "rb_heap s z = Some zn" "an_parent zn = p"
  shows "\<exists>s'. insert_fixup_loop s z = insert_fixup_loop s' g
    \<and> at s' D (T ASSOC_RED (T ASSOC_BLACK ul u ku vu ur) g kg vg (T ASSOC_BLACK l p kp vp r))
    \<and> frame {p, u, g} s s'"
proof -
  note h = at_heap[OF assms(1)] at_node_left[OF assms(1)] at_node_right[OF assms(1)]
  have "p \<noteq> u" using assms(1) by (auto simp: at_def)
  then show ?thesis
    using flip_colors_mirror[OF assms(1)] by (subst insert_fixup_loop.simps) (auto simp: h assms(2,3) Let_def)
qed

text \<open>With a black uncle the rotations end the repair; a node on the inner side is first rotated outwards.\<close>

lemma fixup_outer:
  assumes "at s D (T gc (T ASSOC_RED (T zc zl z kz vz zr) p kp vp r) g kg vg u)" "tcol u = ASSOC_BLACK"
  shows "\<exists>s'. insert_fixup_loop s z = insert_fixup_loop s' z
    \<and> at s' D (T ASSOC_BLACK (T zc zl z kz vz zr) p kp vp (T ASSOC_RED r g kg vg u))
    \<and> frame (addrs_at D (T gc (T ASSOC_RED (T zc zl z kz vz zr) p kp vp r) g kg vg u)) s s'"
proof -
  note h = at_heap[OF assms(1)] at_node_left[OF assms(1)] at_node_left[OF at_left[OF assms(1)]]
  obtain un where un: "rb_heap s (ad (rb_dummy s) u) = Some un" "an_color un = ASSOC_BLACK"
    using at_color[OF at_right[OF assms(1)]] assms(2) by auto
  have "ad (rb_dummy s) r \<noteq> z" using assms(1) by (intro ad_notin) (auto simp: at_def)
  then show ?thesis
    using lift_left[OF assms(1)] un by (subst insert_fixup_loop.simps) (auto simp: h Let_def)
qed

lemma fixup_outer_mirror:
  assumes "at s D (T gc u g kg vg (T ASSOC_RED l p kp vp (T zc zl z kz vz zr)))" "tcol u = ASSOC_BLACK"
  shows "\<exists>s'. insert_fixup_loop s z = insert_fixup_loop s' z
    \<and> at s' D (T ASSOC_BLACK (T ASSOC_RED u g kg vg l) p kp vp (T zc zl z kz vz zr))
    \<and> frame (addrs_at D (T gc u g kg vg (T ASSOC_RED l p kp vp (T zc zl z kz vz zr)))) s s'"
proof -
  note h = at_heap[OF assms(1)] at_node_right[OF assms(1)] at_node_right[OF at_right[OF assms(1)]]
  obtain un where un: "rb_heap s (ad (rb_dummy s) u) = Some un" "an_color un = ASSOC_BLACK"
    using at_color[OF at_left[OF assms(1)]] assms(2) by auto
  have "ad (rb_dummy s) l \<noteq> z" "ad (rb_dummy s) u \<noteq> p" using assms(1) ad_in[of "rb_dummy s" l] ad_in[of "rb_dummy s" u] by (auto simp: at_def)
  then show ?thesis
    using lift_right[OF assms(1)] un by (subst insert_fixup_loop.simps) (auto simp: h Let_def)
qed

lemma fixup_inner:
  assumes "at s D (T gc (T ASSOC_RED l p kp vp (T zc zl z kz vz zr)) g kg vg u)" "tcol u = ASSOC_BLACK"
  shows "\<exists>s'. insert_fixup_loop s z = insert_fixup_loop s' p
    \<and> at s' D (T ASSOC_BLACK (T ASSOC_RED l p kp vp zl) z kz vz (T ASSOC_RED zr g kg vg u))
    \<and> frame (addrs_at D (T gc (T ASSOC_RED l p kp vp (T zc zl z kz vz zr)) g kg vg u)) s s'"
proof -
  let ?t = "T gc (T ASSOC_RED l p kp vp (T zc zl z kz vz zr)) g kg vg u"
  note h = at_heap[OF assms(1)] at_node_left[OF assms(1)] at_node_right[OF at_left[OF assms(1)]]
  obtain un where un: "rb_heap s (ad (rb_dummy s) u) = Some un" "an_color un = ASSOC_BLACK"
    using at_color[OF at_right[OF assms(1)]] assms(2) by auto
  obtain s1 where 1: "left_rotate s p = Some s1" "frame (addrs_at D ?t) s s1"
    "at s1 D (T gc (T zc (T ASSOC_RED l p kp vp zl) z kz vz zr) g kg vg u)"
    using left_rotate_at[OF at_left[OF assms(1)]] by (auto simp: addrs_at_def at_FL insert_commute Un_ac)
  have p: "rb_heap s1 p = Some (node kp vp z (ad (rb_dummy s1) l) (ad (rb_dummy s1) zl) ASSOC_RED)"
    by (rule at_node_left[OF at_left[OF 1(3)]])
  obtain s2 s3 s4 where 2: "set_color s1 z ASSOC_BLACK = Some s2" "set_color s2 g ASSOC_RED = Some s3"
    "right_rotate s3 g = Some s4" "at s4 D (T ASSOC_BLACK (T ASSOC_RED l p kp vp zl) z kz vz (T ASSOC_RED zr g kg vg u))"
    "frame (addrs_at D (T gc (T zc (T ASSOC_RED l p kp vp zl) z kz vz zr) g kg vg u)) s1 s4"
    using lift_left[OF 1(3)] by blast
  have "frame (addrs_at D ?t) s s4"
    by (rule frame_at[OF frame_step[OF 1(2) 2(5)]]) (auto simp: addrs_at_def)
  then show ?thesis
    using 1(1) 2(1-4) un by (subst insert_fixup_loop.simps) (auto simp: h p Let_def)
qed

lemma fixup_inner_mirror:
  assumes "at s D (T gc u g kg vg (T ASSOC_RED (T zc zl z kz vz zr) p kp vp r))" "tcol u = ASSOC_BLACK"
  shows "\<exists>s'. insert_fixup_loop s z = insert_fixup_loop s' p
    \<and> at s' D (T ASSOC_BLACK (T ASSOC_RED u g kg vg zl) z kz vz (T ASSOC_RED zr p kp vp r))
    \<and> frame (addrs_at D (T gc u g kg vg (T ASSOC_RED (T zc zl z kz vz zr) p kp vp r))) s s'"
proof -
  let ?t = "T gc u g kg vg (T ASSOC_RED (T zc zl z kz vz zr) p kp vp r)"
  note h = at_heap[OF assms(1)] at_node_right[OF assms(1)] at_node_left[OF at_right[OF assms(1)]]
  obtain un where un: "rb_heap s (ad (rb_dummy s) u) = Some un" "an_color un = ASSOC_BLACK"
    using at_color[OF at_left[OF assms(1)]] assms(2) by auto
  obtain s1 where 1: "right_rotate s p = Some s1" "frame (addrs_at D ?t) s s1"
    "at s1 D (T gc u g kg vg (T zc zl z kz vz (T ASSOC_RED zr p kp vp r)))"
    using right_rotate_at[OF at_right[OF assms(1)]] by (auto simp: addrs_at_def at_FR insert_commute Un_ac)
  have p: "rb_heap s1 p = Some (node kp vp z (ad (rb_dummy s1) zr) (ad (rb_dummy s1) r) ASSOC_RED)"
    by (rule at_node_right[OF at_right[OF 1(3)]])
  obtain s2 s3 s4 where 2: "set_color s1 z ASSOC_BLACK = Some s2" "set_color s2 g ASSOC_RED = Some s3"
    "left_rotate s3 g = Some s4" "at s4 D (T ASSOC_BLACK (T ASSOC_RED u g kg vg zl) z kz vz (T ASSOC_RED zr p kp vp r))"
    "frame (addrs_at D (T gc u g kg vg (T zc zl z kz vz (T ASSOC_RED zr p kp vp r)))) s1 s4"
    using lift_right[OF 1(3)] by blast
  have "frame (addrs_at D ?t) s s4"
    by (rule frame_at[OF frame_step[OF 1(2) 2(5)]]) (auto simp: addrs_at_def)
  moreover have "ad (rb_dummy s) u \<noteq> p" using assms(1) ad_in[of "rb_dummy s" u] by (auto simp: at_def)
  ultimately show ?thesis
    using 1(1) 2(1-4) un by (subst insert_fixup_loop.simps) (auto simp: h p Let_def)
qed

subsection \<open>The repair\<close>

definition repaired :: "('k, 'v) assoc_rb_tree_t \<Rightarrow> ('k, 'v) ctxt \<Rightarrow> ('k, 'v) rbt
    \<Rightarrow> ('k, 'v) assoc_rb_tree_t \<Rightarrow> bool" where
  "repaired s C t s' \<longleftrightarrow> (\<exists>t'. at s' [] t' \<and> (\<exists>m. hgt t' m) \<and> redok t' \<and> inorder t' = inorder (plug C t)
     \<and> addrs_at [] t' = addrs_at C t \<and> frame (addrs_at C t) s s')"

lemma repaired_done:
  assumes "at s C t" "hgt t n" "chgt C n" "redok t" "cok C (tcol t)"
  shows "repaired s C t s"
  using hgt_plug[OF assms(2,3)] redok_plug[OF assms(4,5)] assms(1)
  unfolding repaired_def by (intro exI[of _ "plug C t"]) (auto simp: at_plug addrs_at_def)

lemma repaired_step:
  assumes "repaired s1 C1 t1 s'" "frame (addrs_at C t) s s1" "addrs_at C1 t1 = addrs_at C t"
    and "inorder (plug C1 t1) = inorder (plug C t)"
  shows "repaired s C t s'"
  using assms frame_step[of "addrs_at C t" s s1 "addrs_at C t" s'] by (auto simp: repaired_def)

lemma loop_ends:
  assumes "at s C (T c l z k v r)" "cok C ASSOC_RED"
  shows "insert_fixup_loop s z = Some s"
proof -
  have "\<exists>n. rb_heap s (cpar (rb_dummy s) C) = Some n \<and> an_color n = ASSOC_BLACK"
  proof (cases C)
    case Nil
    then show ?thesis using assms(1) by (auto simp: at_def dummy_ok_def)
  next
    case (Cons f D)
    then show ?thesis using assms by (cases f) (auto simp: at_def)
  qed
  then show ?thesis
    using at_heap[OF assms(1)] by (subst insert_fixup_loop.simps) (auto simp: Let_def)
qed

lemma croot_Cons: "croot (f # C) \<Longrightarrow> croot C"
  by (cases C; cases f) auto

text \<open>One round of the invariant: the loop goes on with a shorter way to the root.\<close>

definition round_ok :: "('k, 'v) assoc_rb_tree_t \<Rightarrow> ('k, 'v) ctxt \<Rightarrow> ('k, 'v) rbt \<Rightarrow> addr \<Rightarrow> bool" where
  "round_ok s C t z \<longleftrightarrow> (\<exists>s' C' l' z' k' v' r' n'. insert_fixup_loop s z = insert_fixup_loop s' z'
     \<and> at s' C' (T ASSOC_RED l' z' k' v' r') \<and> hgt l' n' \<and> hgt r' n' \<and> chgt C' n'
     \<and> redok (T ASSOC_RED l' z' k' v' r') \<and> cok C' ASSOC_BLACK \<and> croot C' \<and> length C' < length C
     \<and> frame (addrs_at C t) s s' \<and> addrs_at C' (T ASSOC_RED l' z' k' v' r') = addrs_at C t
     \<and> inorder (plug C' (T ASSOC_RED l' z' k' v' r')) = inorder (plug C t))"

lemma round_LL:
  assumes "at s (FL ASSOC_RED p kp vp b # FL ASSOC_BLACK g kg vg u # D) (T ASSOC_RED l z k v r)" "hgt l n" "hgt r n"
    and "chgt (FL ASSOC_RED p kp vp b # FL ASSOC_BLACK g kg vg u # D) n" "redok (T ASSOC_RED l z k v r)"
    and "cok (FL ASSOC_RED p kp vp b # FL ASSOC_BLACK g kg vg u # D) ASSOC_BLACK" "croot (FL ASSOC_BLACK g kg vg u # D)"
  shows "round_ok s (FL ASSOC_RED p kp vp b # FL ASSOC_BLACK g kg vg u # D) (T ASSOC_RED l z k v r) z"
proof -
  have top: "at s D (T ASSOC_BLACK (T ASSOC_RED (T ASSOC_RED l z k v r) p kp vp b) g kg vg u)" using assms(1) by (simp add: at_FL at_FR)
  have D: "croot D" using assms(7) by (rule croot_Cons)
  show ?thesis
  proof (cases "tcol u")
    case ASSOC_RED
    then obtain ul ua ku vu ur where u: "u = T ASSOC_RED ul ua ku vu ur" by (cases u) auto
    have "\<exists>zn. rb_heap s z = Some zn \<and> an_parent zn = p" using at_heap[OF assms(1)] by simp
    with fixup_red_uncle[OF top[unfolded u]] obtain s' where s': "insert_fixup_loop s z = insert_fixup_loop s' g"
      "at s' D (T ASSOC_RED (T ASSOC_BLACK (T ASSOC_RED l z k v r) p kp vp b) g kg vg (T ASSOC_BLACK ul ua ku vu ur))" "frame {p, ua, g} s s'" by blast
    have "frame (addrs_at (FL ASSOC_RED p kp vp b # FL ASSOC_BLACK g kg vg u # D) (T ASSOC_RED l z k v r)) s s'"
      by (rule frame_at[OF s'(3)]) (auto simp: addrs_at_def u)
    then show ?thesis
      unfolding round_ok_def using s'(1,2) assms(2-6) D
      by (intro exI[of _ s'] exI[of _ D] exI[of _ "T ASSOC_BLACK (T ASSOC_RED l z k v r) p kp vp b"] exI[of _ g] exI[of _ kg] exI[of _ vg]
          exI[of _ "T ASSOC_BLACK ul ua ku vu ur"] exI[of _ "Suc n"]) (auto simp: u addrs_at_def intro!: inorder_plug_cong)
  next
    case ASSOC_BLACK
    from fixup_outer[OF top this] obtain s' where s': "insert_fixup_loop s z = insert_fixup_loop s' z"
      "at s' (FL ASSOC_BLACK p kp vp (T ASSOC_RED b g kg vg u) # D) (T ASSOC_RED l z k v r)" "frame (addrs_at D (T ASSOC_BLACK (T ASSOC_RED (T ASSOC_RED l z k v r) p kp vp b) g kg vg u)) s s'"
      by (auto simp: at_FL at_FR)
    have "frame (addrs_at (FL ASSOC_RED p kp vp b # FL ASSOC_BLACK g kg vg u # D) (T ASSOC_RED l z k v r)) s s'"
      by (rule frame_at[OF s'(3)]) (auto simp: addrs_at_def)
    then show ?thesis
      unfolding round_ok_def using s'(1,2) assms(2-6) D ASSOC_BLACK
      by (intro exI[of _ s'] exI[of _ "FL ASSOC_BLACK p kp vp (T ASSOC_RED b g kg vg u) # D"] exI[of _ l] exI[of _ z] exI[of _ k] exI[of _ v]
          exI[of _ r] exI[of _ n]) (auto simp: addrs_at_def intro!: inorder_plug_cong elim: croot.elims)
  qed
qed

lemma round_LR:
  assumes "at s (FL ASSOC_RED p kp vp b # FR ASSOC_BLACK u g kg vg # D) (T ASSOC_RED l z k v r)" "hgt l n" "hgt r n"
    and "chgt (FL ASSOC_RED p kp vp b # FR ASSOC_BLACK u g kg vg # D) n" "redok (T ASSOC_RED l z k v r)"
    and "cok (FL ASSOC_RED p kp vp b # FR ASSOC_BLACK u g kg vg # D) ASSOC_BLACK" "croot (FR ASSOC_BLACK u g kg vg # D)"
  shows "round_ok s (FL ASSOC_RED p kp vp b # FR ASSOC_BLACK u g kg vg # D) (T ASSOC_RED l z k v r) z"
proof -
  have top: "at s D (T ASSOC_BLACK u g kg vg (T ASSOC_RED (T ASSOC_RED l z k v r) p kp vp b))" using assms(1) by (simp add: at_FL at_FR)
  have D: "croot D" using assms(7) by (rule croot_Cons)
  show ?thesis
  proof (cases "tcol u")
    case ASSOC_RED
    then obtain ul ua ku vu ur where u: "u = T ASSOC_RED ul ua ku vu ur" by (cases u) auto
    have "\<exists>zn. rb_heap s z = Some zn \<and> an_parent zn = p" using at_heap[OF assms(1)] by simp
    with fixup_red_uncle_mirror[OF top[unfolded u]] obtain s' where s': "insert_fixup_loop s z = insert_fixup_loop s' g"
      "at s' D (T ASSOC_RED (T ASSOC_BLACK ul ua ku vu ur) g kg vg (T ASSOC_BLACK (T ASSOC_RED l z k v r) p kp vp b))" "frame {p, ua, g} s s'" by blast
    have "frame (addrs_at (FL ASSOC_RED p kp vp b # FR ASSOC_BLACK u g kg vg # D) (T ASSOC_RED l z k v r)) s s'"
      by (rule frame_at[OF s'(3)]) (auto simp: addrs_at_def u)
    then show ?thesis
      unfolding round_ok_def using s'(1,2) assms(2-6) D
      by (intro exI[of _ s'] exI[of _ D] exI[of _ "T ASSOC_BLACK ul ua ku vu ur"] exI[of _ g] exI[of _ kg] exI[of _ vg]
          exI[of _ "T ASSOC_BLACK (T ASSOC_RED l z k v r) p kp vp b"] exI[of _ "Suc n"]) (auto simp: u addrs_at_def intro!: inorder_plug_cong)
  next
    case ASSOC_BLACK
    from fixup_inner_mirror[OF top this] obtain s' where s': "insert_fixup_loop s z = insert_fixup_loop s' p"
      "at s' (FR ASSOC_BLACK (T ASSOC_RED u g kg vg l) z k v # D) (T ASSOC_RED r p kp vp b)" "frame (addrs_at D (T ASSOC_BLACK u g kg vg (T ASSOC_RED (T ASSOC_RED l z k v r) p kp vp b))) s s'"
      by (auto simp: at_FL at_FR)
    have "frame (addrs_at (FL ASSOC_RED p kp vp b # FR ASSOC_BLACK u g kg vg # D) (T ASSOC_RED l z k v r)) s s'"
      by (rule frame_at[OF s'(3)]) (auto simp: addrs_at_def)
    then show ?thesis
      unfolding round_ok_def using s'(1,2) assms(2-6) D ASSOC_BLACK
      by (intro exI[of _ s'] exI[of _ "FR ASSOC_BLACK (T ASSOC_RED u g kg vg l) z k v # D"] exI[of _ r] exI[of _ p] exI[of _ kp] exI[of _ vp]
          exI[of _ b] exI[of _ n]) (auto simp: addrs_at_def intro!: inorder_plug_cong elim: croot.elims)
  qed
qed

lemma round_RL:
  assumes "at s (FR ASSOC_RED b p kp vp # FL ASSOC_BLACK g kg vg u # D) (T ASSOC_RED l z k v r)" "hgt l n" "hgt r n"
    and "chgt (FR ASSOC_RED b p kp vp # FL ASSOC_BLACK g kg vg u # D) n" "redok (T ASSOC_RED l z k v r)"
    and "cok (FR ASSOC_RED b p kp vp # FL ASSOC_BLACK g kg vg u # D) ASSOC_BLACK" "croot (FL ASSOC_BLACK g kg vg u # D)"
  shows "round_ok s (FR ASSOC_RED b p kp vp # FL ASSOC_BLACK g kg vg u # D) (T ASSOC_RED l z k v r) z"
proof -
  have top: "at s D (T ASSOC_BLACK (T ASSOC_RED b p kp vp (T ASSOC_RED l z k v r)) g kg vg u)" using assms(1) by (simp add: at_FL at_FR)
  have D: "croot D" using assms(7) by (rule croot_Cons)
  show ?thesis
  proof (cases "tcol u")
    case ASSOC_RED
    then obtain ul ua ku vu ur where u: "u = T ASSOC_RED ul ua ku vu ur" by (cases u) auto
    have "\<exists>zn. rb_heap s z = Some zn \<and> an_parent zn = p" using at_heap[OF assms(1)] by simp
    with fixup_red_uncle[OF top[unfolded u]] obtain s' where s': "insert_fixup_loop s z = insert_fixup_loop s' g"
      "at s' D (T ASSOC_RED (T ASSOC_BLACK b p kp vp (T ASSOC_RED l z k v r)) g kg vg (T ASSOC_BLACK ul ua ku vu ur))" "frame {p, ua, g} s s'" by blast
    have "frame (addrs_at (FR ASSOC_RED b p kp vp # FL ASSOC_BLACK g kg vg u # D) (T ASSOC_RED l z k v r)) s s'"
      by (rule frame_at[OF s'(3)]) (auto simp: addrs_at_def u)
    then show ?thesis
      unfolding round_ok_def using s'(1,2) assms(2-6) D
      by (intro exI[of _ s'] exI[of _ D] exI[of _ "T ASSOC_BLACK b p kp vp (T ASSOC_RED l z k v r)"] exI[of _ g] exI[of _ kg] exI[of _ vg]
          exI[of _ "T ASSOC_BLACK ul ua ku vu ur"] exI[of _ "Suc n"]) (auto simp: u addrs_at_def intro!: inorder_plug_cong)
  next
    case ASSOC_BLACK
    from fixup_inner[OF top this] obtain s' where s': "insert_fixup_loop s z = insert_fixup_loop s' p"
      "at s' (FL ASSOC_BLACK z k v (T ASSOC_RED r g kg vg u) # D) (T ASSOC_RED b p kp vp l)" "frame (addrs_at D (T ASSOC_BLACK (T ASSOC_RED b p kp vp (T ASSOC_RED l z k v r)) g kg vg u)) s s'"
      by (auto simp: at_FL at_FR)
    have "frame (addrs_at (FR ASSOC_RED b p kp vp # FL ASSOC_BLACK g kg vg u # D) (T ASSOC_RED l z k v r)) s s'"
      by (rule frame_at[OF s'(3)]) (auto simp: addrs_at_def)
    then show ?thesis
      unfolding round_ok_def using s'(1,2) assms(2-6) D ASSOC_BLACK
      by (intro exI[of _ s'] exI[of _ "FL ASSOC_BLACK z k v (T ASSOC_RED r g kg vg u) # D"] exI[of _ b] exI[of _ p] exI[of _ kp] exI[of _ vp]
          exI[of _ l] exI[of _ n]) (auto simp: addrs_at_def intro!: inorder_plug_cong elim: croot.elims)
  qed
qed

lemma round_RR:
  assumes "at s (FR ASSOC_RED b p kp vp # FR ASSOC_BLACK u g kg vg # D) (T ASSOC_RED l z k v r)" "hgt l n" "hgt r n"
    and "chgt (FR ASSOC_RED b p kp vp # FR ASSOC_BLACK u g kg vg # D) n" "redok (T ASSOC_RED l z k v r)"
    and "cok (FR ASSOC_RED b p kp vp # FR ASSOC_BLACK u g kg vg # D) ASSOC_BLACK" "croot (FR ASSOC_BLACK u g kg vg # D)"
  shows "round_ok s (FR ASSOC_RED b p kp vp # FR ASSOC_BLACK u g kg vg # D) (T ASSOC_RED l z k v r) z"
proof -
  have top: "at s D (T ASSOC_BLACK u g kg vg (T ASSOC_RED b p kp vp (T ASSOC_RED l z k v r)))" using assms(1) by (simp add: at_FL at_FR)
  have D: "croot D" using assms(7) by (rule croot_Cons)
  show ?thesis
  proof (cases "tcol u")
    case ASSOC_RED
    then obtain ul ua ku vu ur where u: "u = T ASSOC_RED ul ua ku vu ur" by (cases u) auto
    have "\<exists>zn. rb_heap s z = Some zn \<and> an_parent zn = p" using at_heap[OF assms(1)] by simp
    with fixup_red_uncle_mirror[OF top[unfolded u]] obtain s' where s': "insert_fixup_loop s z = insert_fixup_loop s' g"
      "at s' D (T ASSOC_RED (T ASSOC_BLACK ul ua ku vu ur) g kg vg (T ASSOC_BLACK b p kp vp (T ASSOC_RED l z k v r)))" "frame {p, ua, g} s s'" by blast
    have "frame (addrs_at (FR ASSOC_RED b p kp vp # FR ASSOC_BLACK u g kg vg # D) (T ASSOC_RED l z k v r)) s s'"
      by (rule frame_at[OF s'(3)]) (auto simp: addrs_at_def u)
    then show ?thesis
      unfolding round_ok_def using s'(1,2) assms(2-6) D
      by (intro exI[of _ s'] exI[of _ D] exI[of _ "T ASSOC_BLACK ul ua ku vu ur"] exI[of _ g] exI[of _ kg] exI[of _ vg]
          exI[of _ "T ASSOC_BLACK b p kp vp (T ASSOC_RED l z k v r)"] exI[of _ "Suc n"]) (auto simp: u addrs_at_def intro!: inorder_plug_cong)
  next
    case ASSOC_BLACK
    from fixup_outer_mirror[OF top this] obtain s' where s': "insert_fixup_loop s z = insert_fixup_loop s' z"
      "at s' (FR ASSOC_BLACK (T ASSOC_RED u g kg vg b) p kp vp # D) (T ASSOC_RED l z k v r)" "frame (addrs_at D (T ASSOC_BLACK u g kg vg (T ASSOC_RED b p kp vp (T ASSOC_RED l z k v r)))) s s'"
      by (auto simp: at_FL at_FR)
    have "frame (addrs_at (FR ASSOC_RED b p kp vp # FR ASSOC_BLACK u g kg vg # D) (T ASSOC_RED l z k v r)) s s'"
      by (rule frame_at[OF s'(3)]) (auto simp: addrs_at_def)
    then show ?thesis
      unfolding round_ok_def using s'(1,2) assms(2-6) D ASSOC_BLACK
      by (intro exI[of _ s'] exI[of _ "FR ASSOC_BLACK (T ASSOC_RED u g kg vg b) p kp vp # D"] exI[of _ l] exI[of _ z] exI[of _ k] exI[of _ v]
          exI[of _ r] exI[of _ n]) (auto simp: addrs_at_def intro!: inorder_plug_cong elim: croot.elims)
  qed
qed

lemma insert_fixup_loop_ok:
  assumes "at s C (T ASSOC_RED l z k v r)" "hgt l n" "hgt r n" "chgt C n" "redok (T ASSOC_RED l z k v r)"
    and "cok C ASSOC_BLACK" "croot C"
  shows "\<exists>s'. insert_fixup_loop s z = Some s' \<and> repaired s C (T ASSOC_RED l z k v r) s'"
  using assms
proof (induction "length C" arbitrary: s C l z k v r n rule: less_induct)
  case less
  let ?t = "T ASSOC_RED l z k v r"
  show ?case
  proof (cases "cok C ASSOC_RED")
    case True
    then have "insert_fixup_loop s z = Some s" using loop_ends[OF less.prems(1)] by blast
    then show ?thesis using repaired_done[OF less.prems(1), of n] less.prems True by auto
  next
    case False
    then obtain f B where C: "C = f # B" by (cases C) auto
    with less.prems(6,7) False obtain g D where B: "B = g # D" by (cases B; cases f) auto
    have "round_ok s C ?t z"
      using less.prems False croot_Cons[of f "g # D"] round_LL[of s] round_LR[of s] round_RL[of s] round_RR[of s]
      unfolding C B by (cases f; cases g; simp)
    then obtain s1 C1 l1 z1 k1 v1 r1 n1 where r: "insert_fixup_loop s z = insert_fixup_loop s1 z1"
      "at s1 C1 (T ASSOC_RED l1 z1 k1 v1 r1)" "hgt l1 n1" "hgt r1 n1" "chgt C1 n1"
      "redok (T ASSOC_RED l1 z1 k1 v1 r1)" "cok C1 ASSOC_BLACK" "croot C1" "length C1 < length C"
      "frame (addrs_at C ?t) s s1" "addrs_at C1 (T ASSOC_RED l1 z1 k1 v1 r1) = addrs_at C ?t"
      "inorder (plug C1 (T ASSOC_RED l1 z1 k1 v1 r1)) = inorder (plug C ?t)"
      unfolding round_ok_def by blast
    obtain s' where "insert_fixup_loop s1 z1 = Some s'" "repaired s1 C1 (T ASSOC_RED l1 z1 k1 v1 r1) s'"
      using less.hyps[OF r(9) r(2-8)] by blast
    then show ?thesis using r(1) repaired_step[OF _ r(10-12)] by auto
  qed
qed

lemma insert_fixup_ok:
  assumes "at s C (T ASSOC_RED E z k v E)" "chgt C 0" "cok C ASSOC_BLACK" "croot C"
  shows "\<exists>s' t'. insert_fixup s z = Some s' \<and> at s' [] t' \<and> rbt_ok t'
    \<and> inorder t' = inorder (plug C (T ASSOC_RED E z k v E))
    \<and> addrs_at [] t' = addrs_at C (T ASSOC_RED E z k v E) \<and> frame (addrs_at C (T ASSOC_RED E z k v E)) s s'"
proof -
  let ?A = "addrs_at C (T ASSOC_RED E z k v E)"
  obtain s1 t1 m where 1: "insert_fixup_loop s z = Some s1" "at s1 [] t1" "hgt t1 m" "redok t1"
    "inorder t1 = inorder (plug C (T ASSOC_RED E z k v E))" "addrs_at [] t1 = ?A" "frame ?A s s1"
    using insert_fixup_loop_ok[OF assms(1) _ _ assms(2) _ assms(3,4)] by (auto simp: repaired_def)
  have "z \<in> addrs_at [] t1" using 1(6) by (simp add: addrs_at_def)
  then obtain c l a u w r where t1: "t1 = T c l a u w r" by (cases t1) (auto simp: addrs_at_def)
  have root: "rb_root s1 = a" using at_root[OF 1(2)] t1 by simp
  obtain s' where s': "set_color s1 a ASSOC_BLACK = Some s'" "at s' [] (T ASSOC_BLACK l a u w r)" "frame {a} s1 s'"
    using set_color_at[OF 1(2)[unfolded t1]] by blast
  have "frame ?A s s'"
    by (rule frame_at[OF frame_step[OF 1(7) s'(3)]]) (use 1(6) in \<open>auto simp: t1 addrs_at_def\<close>)
  moreover have "\<exists>n. hgt (T ASSOC_BLACK l a u w r) n"
    using 1(3) by (cases c) (auto simp: t1 intro: exI[of _ "Suc m"] exI[of _ m])
  ultimately show ?thesis
    using 1 s' root unfolding rbt_ok_def
    by (intro exI[of _ s'] exI[of _ "T ASSOC_BLACK l a u w r"]) (auto simp: insert_fixup_def t1 addrs_at_def)
qed

subsection \<open>The way down\<close>

text \<open>The tree is ordered: no key compares 1 with one on its left.\<close>

definition keys_ordered :: "('k \<Rightarrow> 'k \<Rightarrow> int) \<Rightarrow> ('k, 'v) entries \<Rightarrow> bool" where
  "keys_ordered cmp t \<longleftrightarrow> sorted_wrt (\<lambda>x y. cmp (fst y) (fst x) \<noteq> 1) t"

lemma entries_insert_before:
  "cmp k x = 1 \<Longrightarrow> entries_insert cmp k v (a @ (x, w) # b) = entries_insert cmp k v a @ (x, w) # b"
  by (induction a) auto

lemma entries_insert_after:
  "\<forall>(x, w) \<in> set a. cmp k x \<noteq> 1 \<Longrightarrow> entries_insert cmp k v (a @ b) = a @ entries_insert cmp k v b"
  by (induction a) auto

context comparator
begin

lemma not_before:
  assumes "keys_ordered cmp (a @ (x, w) # b)" "cmp k x \<noteq> 1"
  shows "\<forall>(y, u) \<in> set a. cmp k y \<noteq> 1"
proof clarify
  fix y u assume "(y, u) \<in> set a" "cmp k y = 1"
  then have "cmp x y \<noteq> 1" using assms(1) by (auto simp: keys_ordered_def sorted_wrt_append)
  then have "cmp y x = 1 \<or> cmp y x = 0" using cmp_flip[of x y] cmp_range[of x y] by auto
  then have "cmp k x = 1"
    using cmp_less_trans[OF \<open>cmp k y = 1\<close>, of x] cmp_cong_right[of y x k] \<open>cmp k y = 1\<close> by auto
  then show False using assms(2) by simp
qed

lemma keys_ordered_insert:
  "keys_ordered cmp t \<Longrightarrow> keys_ordered cmp (entries_insert cmp k v t)"
proof (induction t)
  case (Cons e t)
  obtain x w where e: "e = (x, w)" by (cases e)
  show ?case
  proof (cases "cmp k x = 1")
    case True
    then have xk: "cmp x k \<noteq> 1" using cmp_flip[of k x] by simp
    have "cmp y k \<noteq> 1" if "(y, u) \<in> set t" for y u
    proof
      assume "cmp y k = 1"
      then have "cmp y x = 1" using cmp_less_trans[of y k x] True by simp
      then show False using Cons.prems that e by (auto simp: keys_ordered_def)
    qed
    then show ?thesis using Cons.prems True e xk by (auto simp: keys_ordered_def)
  next
    case False
    then show ?thesis using Cons e by (auto simp: keys_ordered_def)
  qed
qed (simp add: keys_ordered_def)

end

fun spot :: "('k \<Rightarrow> 'k \<Rightarrow> int) \<Rightarrow> 'k \<Rightarrow> ('k, 'v) ctxt \<Rightarrow> bool" where
  "spot cmp key [] \<longleftrightarrow> True"
| "spot cmp key (FL c a k v r # C) \<longleftrightarrow> cmp key k = 1 \<and> spot cmp key C"
| "spot cmp key (FR c l a k v # C) \<longleftrightarrow> cmp key k \<noteq> 1 \<and> spot cmp key C"

lemma find_leaf_ok:
  assumes "at s C t" "spot (rb_comp s) key C"
  shows "\<exists>C'. find_leaf s key (ad (rb_dummy s) t) (cpar (rb_dummy s) C) = Some (cpar (rb_dummy s) C')
    \<and> at s C' E \<and> plug C' E = plug C t \<and> spot (rb_comp s) key C'"
  using assms
proof (induction t arbitrary: C)
  case E
  then show ?case by (intro exI[of _ C]) (simp add: find_leaf.simps)
next
  case (T c l a k v r)
  have a: "a \<noteq> rb_dummy s" using T.prems(1) by (auto simp: at_def)
  note h = at_heap[OF T.prems(1)]
  show ?case
  proof (cases "rb_comp s key k = 1")
    case True
    with T.IH(1)[OF at_left[OF T.prems(1)]] T.prems(2) a h show ?thesis
      by (subst find_leaf.simps) simp
  next
    case False
    with T.IH(2)[OF at_right[OF T.prems(1)]] T.prems(2) a h show ?thesis
      by (subst find_leaf.simps) simp
  qed
qed

lemma inorder_plug: "\<exists>xs ys. \<forall>t. inorder (plug C t) = xs @ inorder t @ ys"
proof (induction C)
  case (Cons f C)
  then obtain xs ys where IH: "inorder (plug C t) = xs @ inorder t @ ys" for t by blast
  show ?case
  proof (cases f)
    case (FL c a k v r)
    then show ?thesis using IH by (intro exI[of _ xs] exI[of _ "(k, v) # inorder r @ ys"]) simp
  next
    case (FR c l a k v)
    then show ?thesis using IH by (intro exI[of _ "xs @ inorder l @ [(k, v)]"] exI[of _ ys]) simp
  qed
qed (auto intro: exI[of _ "[]"])

lemma keys_ordered_part: "keys_ordered cmp (xs @ t @ ys) \<Longrightarrow> keys_ordered cmp t"
  by (simp add: keys_ordered_def sorted_wrt_append)

lemma keys_ordered_plug: "keys_ordered cmp (inorder (plug C t)) \<Longrightarrow> keys_ordered cmp (inorder t)"
  using inorder_plug[of C] keys_ordered_part by metis

context comparator
begin

lemma inorder_spot:
  assumes "spot cmp k C" "keys_ordered cmp (inorder (plug C t))" "inorder t' = entries_insert cmp k v (inorder t)"
  shows "inorder (plug C t') = entries_insert cmp k v (inorder (plug C t))"
  using assms
proof (induction C arbitrary: t t')
  case (Cons f C)
  show ?case
  proof (cases f)
    case (FL c a x w r)
    then show ?thesis
      using Cons.prems Cons.IH[of "T c t a x w r" "T c t' a x w r"]
        entries_insert_before[of cmp k x v "inorder t" w "inorder r"] by simp
  next
    case (FR c l a x w)
    have "keys_ordered cmp (inorder (T c l a x w t))"
      using Cons.prems(2) keys_ordered_plug FR by fastforce
    then have "\<forall>(y, u) \<in> set (inorder l @ [(x, w)]). cmp k y \<noteq> 1"
      using not_before[of "inorder l" x w] Cons.prems(1) FR by auto
    then have "inorder (T c l a x w t') = entries_insert cmp k v (inorder (T c l a x w t))"
      using entries_insert_after[of "inorder l @ [(x, w)]" cmp k v "inorder t"] Cons.prems(3) by simp
    then show ?thesis using Cons.prems Cons.IH[of "T c l a x w t" "T c l a x w t'"] FR by simp
  qed
qed simp

end

subsection \<open>The insertion\<close>

definition rb_tree :: "('k, 'v) assoc_rb_tree_t \<Rightarrow> ('k, 'v) rbt \<Rightarrow> bool" where
  "rb_tree s t \<longleftrightarrow> at s [] t \<and> rbt_ok t \<and> keys_ordered (rb_comp s) (inorder t)
     \<and> rb_size s = length (inorder t)"

lemma rep_in_heap: "rep h d p t \<Longrightarrow> a \<in> set (addrs t) \<Longrightarrow> h a \<noteq> None"
  by (induction t arbitrary: p) auto

lemma at_in_heap: "at s [] t \<Longrightarrow> a \<in> set (addrs t) \<or> a = rb_dummy s \<Longrightarrow> rb_heap s a \<noteq> None"
  using rep_in_heap by (fastforce simp: at_def dummy_ok_def)

lemma hang_leaf:
  assumes "at s C E" "rb_heap s z = Some (node k v (rb_dummy s) (rb_dummy s) (rb_dummy s) ASSOC_RED)"
    and "z \<noteq> rb_dummy s" "z \<notin> set (caddrs C)" "spot (rb_comp s) k C"
  shows "\<exists>s1 s2. rb_upd s z (\<lambda>n. n\<lparr>an_parent := cpar (rb_dummy s) C\<rparr>) = Some s1
    \<and> (if cpar (rb_dummy s) C = rb_dummy s1 then Some (s1\<lparr>rb_root := z\<rparr>)
      else do {
        yn \<leftarrow> rb_heap s1 (cpar (rb_dummy s) C);
        ykey \<leftarrow> an_key yn;
        if rb_comp s1 k ykey = 1 then rb_upd s1 (cpar (rb_dummy s) C) (\<lambda>n. n\<lparr>an_left := z\<rparr>)
        else rb_upd s1 (cpar (rb_dummy s) C) (\<lambda>n. n\<lparr>an_right := z\<rparr>)
      }) = Some s2 \<and> at s2 C (T ASSOC_RED E z k v E) \<and> frame (insert z (set (caddrs C))) s s2"
proof (cases C)
  case Nil
  then show ?thesis using assms by (auto simp: heap_defs)
next
  case (Cons f D)
  show ?thesis
  proof (cases f)
    case (FL c a x w t)
    then show ?thesis using assms Cons by (auto simp: heap_defs)
  next
    case (FR c t a x w)
    then show ?thesis using assms Cons by (auto simp: heap_defs)
  qed
qed

lemma rbt_ok_hole:
  assumes "rbt_ok (plug C E)"
  shows "chgt C 0" "cok C ASSOC_BLACK" "croot C"
  using assms plug_hgt[of C E] plug_redok[of C E] plug_root[of C E] by (auto simp: rbt_ok_def)

lemma assoc_rb_tree_insert_ok:
  assumes "comparator (rb_comp s)" "rb_tree s t" "rb_heap s z = None"
  shows "\<exists>s' t'. assoc_rb_tree_insert z s k v = Some s' \<and> rb_tree s' t'
    \<and> inorder t' = entries_insert (rb_comp s) k v (inorder t) \<and> rb_comp s' = rb_comp s
    \<and> rb_dummy s' = rb_dummy s \<and> set (addrs t') = insert z (set (addrs t))
    \<and> (\<forall>a. a \<notin> insert z (set (addrs t)) \<longrightarrow> rb_heap s' a = rb_heap s a)"
proof -
  let ?d = "rb_dummy s"
  let ?s0 = "s\<lparr>rb_heap := (rb_heap s)(z \<mapsto> create_node_rb_tree s k v)\<rparr>"
  have t: "at s [] t" "rbt_ok t" "keys_ordered (rb_comp s) (inorder t)" "rb_size s = length (inorder t)"
    using assms(2) by (auto simp: rb_tree_def)
  have z: "z \<notin> set (addrs t)" "z \<noteq> ?d" using at_in_heap[OF t(1), of z] assms(3) by blast+
  have "at ?s0 [] t" using t(1) z by (simp add: at_def dummy_ok_def)
  from find_leaf_ok[OF this, of k] obtain C where C: "find_leaf ?s0 k (ad ?d t) ?d = Some (cpar ?d C)"
    "at ?s0 C E" "plug C E = t" "spot (rb_comp s) k C" by auto
  have addrs: "set (caddrs C) = set (addrs t)" using set_addrs_plug[of C E] C(3) by simp
  have hang: "rb_heap ?s0 z = Some (node k v (rb_dummy ?s0) (rb_dummy ?s0) (rb_dummy ?s0) ASSOC_RED)"
    "z \<noteq> rb_dummy ?s0" "z \<notin> set (caddrs C)" "spot (rb_comp ?s0) k C"
    using z C(4) addrs by (simp_all add: create_node_rb_tree_def init_node_def node_def)
  have d0: "rb_dummy ?s0 = ?d" by simp
  obtain s1 s2 where s2: "rb_upd ?s0 z (\<lambda>n. n\<lparr>an_parent := cpar ?d C\<rparr>) = Some s1"
    "(if cpar ?d C = rb_dummy s1 then Some (s1\<lparr>rb_root := z\<rparr>)
      else do {
        yn \<leftarrow> rb_heap s1 (cpar ?d C);
        ykey \<leftarrow> an_key yn;
        if rb_comp s1 k ykey = 1 then rb_upd s1 (cpar ?d C) (\<lambda>n. n\<lparr>an_left := z\<rparr>)
        else rb_upd s1 (cpar ?d C) (\<lambda>n. n\<lparr>an_right := z\<rparr>)
      }) = Some s2" "at s2 C (T ASSOC_RED E z k v E)" "frame (insert z (set (caddrs C))) ?s0 s2"
    using hang_leaf[OF C(2) hang, unfolded d0] by blast
  note ok = rbt_ok_hole[OF t(2)[folded C(3)]]
  obtain s3 t' where s3: "insert_fixup s2 z = Some s3" "at s3 [] t'" "rbt_ok t'"
    "inorder t' = inorder (plug C (T ASSOC_RED E z k v E))"
    "addrs_at [] t' = addrs_at C (T ASSOC_RED E z k v E)" "frame (addrs_at C (T ASSOC_RED E z k v E)) s2 s3"
    using insert_fixup_ok[OF s2(3) ok] by blast
  have ord: "inorder t' = entries_insert (rb_comp s) k v (inorder t)"
    unfolding s3(4) C(3)[symmetric]
    by (rule comparator.inorder_spot[OF assms(1) C(4)]) (use t(3) C(3) in simp_all)
  have root: "rb_root s = ad ?d t" using at_root[OF t(1)] by simp
  have fr: "frame (insert z (set (addrs t))) ?s0 s3"
    by (rule frame_at[OF frame_step[OF s2(4) s3(6)]]) (auto simp: addrs addrs_at_def)
  let ?s = "s3\<lparr>rb_size := rb_size s3 + 1\<rparr>"
  have ins: "assoc_rb_tree_insert z s k v = Some ?s"
    using C(1) s2(1,2) s3(1) z(2) root by (simp add: assoc_rb_tree_insert_def Let_def)
  have len: "length (entries_insert (rb_comp s) k v (inorder t)) = Suc (length (inorder t))"
    using mset_entries_insert[of "rb_comp s" k v "inorder t"] by (metis size_add_mset size_mset)
  have "rb_tree ?s t'"
    using s3(2,3) fr t(4) len comparator.keys_ordered_insert[OF assms(1) t(3)] ord
    by (auto simp: rb_tree_def at_def dummy_ok_def frame_def)
  then show ?thesis
    using ins ord fr s3(5) addrs by (auto simp: frame_def addrs_at_def)
qed

end
