(* ===== verification/Rb_Delete.thy ===== *)
theory Rb_Delete
  imports Rb_Insert
begin

text \<open>
  Extraction from the red-black tree: the repair of a missing black node, the removal of a node
  with one and with two children, and the extraction as that of the in-order sequence.
\<close>

subsection \<open>The cases of the repair\<close>

text \<open>The subtree \<open>t\<close> knows its parent, even when it is the leaf.\<close>

definition placed :: "('k, 'v) assoc_rb_tree_t \<Rightarrow> ('k, 'v) ctxt \<Rightarrow> ('k, 'v) rbt \<Rightarrow> bool" where
  "placed s C t \<longleftrightarrow> at s C t \<and> rb_parent s (ad (rb_dummy s) t) = Some (cpar (rb_dummy s) C)"

lemma placed_at: "placed s C t \<Longrightarrow> at s C t"
  by (simp add: placed_def)

lemma placed_T [simp]: "placed s C (T c l a k v r) \<longleftrightarrow> at s C (T c l a k v r)"
  by (auto simp: placed_def rb_parent_def at_def)

lemma frame_dummy: "frame A s s' \<Longrightarrow> rb_dummy s \<notin> A \<Longrightarrow> rb_heap s' (rb_dummy s) = rb_heap s (rb_dummy s)
    \<and> rb_dummy s' = rb_dummy s"
  by (simp add: frame_def)

lemma placed_frame:
  assumes "placed s (f # C) t" "frame A s s'" "rb_dummy s \<notin> A" "at s' (g # D) t" "cpar (rb_dummy s) (g # D) = cpar (rb_dummy s) (f # C)"
  shows "placed s' (g # D) t"
proof (cases t)
  case E
  then show ?thesis using assms frame_dummy[OF assms(2,3)] by (auto simp: placed_def rb_parent_def)
next
  case (T c l a k v r)
  then show ?thesis using assms(4) by (simp only: placed_T)
qed

lemma dummy_notin: "at s C t \<Longrightarrow> rb_dummy s \<notin> addrs_at C t"
  by (auto simp: at_def addrs_at_def)

lemma case1_left:
  assumes "placed s (FL pc p kp vp (T ASSOC_RED wl w kw vw wr) # D) t"
  shows "\<exists>s'. delete_left_case1 s (ad (rb_dummy s) t) = Some (s', ad (rb_dummy s) wl)
    \<and> placed s' (FL ASSOC_RED p kp vp wl # FL ASSOC_BLACK w kw vw wr # D) t
    \<and> frame (addrs_at D (T pc t p kp vp (T ASSOC_RED wl w kw vw wr))) s s'"
proof -
  let ?t = "T pc t p kp vp (T ASSOC_RED wl w kw vw wr)"
  have at: "at s D ?t" using assms by (simp add: placed_def at_FL)
  note h = at_heap[OF at] at_node_right[OF at]
  obtain s1 where 1: "set_color s w ASSOC_BLACK = Some s1" "frame {w} s s1"
    "at s1 D (T pc t p kp vp (T ASSOC_BLACK wl w kw vw wr))"
    using set_color_right[OF at] by blast
  obtain s2 where 2: "set_color s1 p ASSOC_RED = Some s2" "frame {p} s1 s2"
    "at s2 D (T ASSOC_RED t p kp vp (T ASSOC_BLACK wl w kw vw wr))"
    using set_color_at[OF 1(3)] by blast
  obtain s3 where 3: "left_rotate s2 p = Some s3" "at s3 D (T ASSOC_BLACK (T ASSOC_RED t p kp vp wl) w kw vw wr)"
    "frame (addrs_at D ?t) s2 s3"
    using left_rotate_at[OF 2(3)] by (auto simp: addrs_at_def)
  have fr: "frame (addrs_at D ?t) s s3"
    by (rule frame_at[OF frame_step[OF frame_step[OF 1(2) 2(2)] 3(3)]]) (auto simp: addrs_at_def)
  have d: "rb_dummy s3 = rb_dummy s" using fr by (simp add: frame_def)
  have pl: "placed s3 (FL ASSOC_RED p kp vp wl # FL ASSOC_BLACK w kw vw wr # D) t"
    by (rule placed_frame[OF assms fr dummy_notin[OF at]]) (use 3(2) in \<open>simp_all add: at_FL\<close>)
  have "rb_parent s (ad (rb_dummy s) t) = Some p" "rb_parent s3 (ad (rb_dummy s) t) = Some p"
    using assms pl d by (simp_all add: placed_def)
  moreover have "rb_heap s3 p = Some (node kp vp w (ad (rb_dummy s) t) (ad (rb_dummy s) wl) ASSOC_RED)"
    using at_node_left[OF 3(2)] d by simp
  ultimately show ?thesis
    using 1 2 3 h pl fr by (auto simp: delete_left_case1_def Let_def)
qed

lemma case1_left_black:
  assumes "placed s (FL pc p kp vp (T ASSOC_BLACK wl w kw vw wr) # D) t"
  shows "delete_left_case1 s (ad (rb_dummy s) t) = Some (s, w)"
proof -
  have at: "at s D (T pc t p kp vp (T ASSOC_BLACK wl w kw vw wr))" using assms by (simp add: placed_def at_FL)
  show ?thesis
    using at_heap[OF at] at_node_right[OF at] assms by (auto simp: delete_left_case1_def placed_def Let_def)
qed

lemma rest_left_2:
  assumes "placed s (FL pc p kp vp (T ASSOC_BLACK wl w kw vw wr) # D) t" "tcol wl = ASSOC_BLACK" "tcol wr = ASSOC_BLACK"
  shows "\<exists>s'. delete_left_rest s (ad (rb_dummy s) t) w = Some (s', p)
    \<and> at s' D (T pc t p kp vp (T ASSOC_RED wl w kw vw wr)) \<and> frame {w} s s'"
proof -
  have at: "at s D (T pc t p kp vp (T ASSOC_BLACK wl w kw vw wr))" using assms by (simp add: placed_def at_FL)
  obtain s' where s': "set_color s w ASSOC_RED = Some s'" "frame {w} s s'"
    "at s' D (T pc t p kp vp (T ASSOC_RED wl w kw vw wr))"
    using set_color_right[OF at] by blast
  have w: "rb_dummy s \<noteq> w" using at by (auto simp: at_def)
  have d: "rb_dummy s' = rb_dummy s" using s'(2) by (simp add: frame_def)
  have "placed s' (FL pc p kp vp (T ASSOC_RED wl w kw vw wr) # D) t"
    by (rule placed_frame[OF assms(1) s'(2)]) (use s'(3) w in \<open>simp_all add: at_FL\<close>)
  then have "rb_parent s' (ad (rb_dummy s) t) = Some p" by (simp add: placed_def d)
  moreover obtain ln rn where "rb_heap s (ad (rb_dummy s) wl) = Some ln" "an_color ln = ASSOC_BLACK"
    "rb_heap s (ad (rb_dummy s) wr) = Some rn" "an_color rn = ASSOC_BLACK"
    using at_color[OF at_left[OF at_right[OF at]]] at_color[OF at_right[OF at_right[OF at]]] assms(2,3) by auto
  ultimately show ?thesis
    using at_node_right[OF at] s' by (auto simp: delete_left_rest_def Let_def)
qed

lemma case4_left:
  assumes "at s D (T pc t p kp vp (T wc wl w kw vw (T rc rl ra kr vr rr)))"
  shows "\<exists>s1 s2 s3 s4. set_color s w pc = Some s1 \<and> set_color s1 p ASSOC_BLACK = Some s2
    \<and> set_color s2 ra ASSOC_BLACK = Some s3 \<and> left_rotate s3 p = Some s4
    \<and> at s4 D (T pc (T ASSOC_BLACK t p kp vp wl) w kw vw (T ASSOC_BLACK rl ra kr vr rr))
    \<and> frame (addrs_at D (T pc t p kp vp (T wc wl w kw vw (T rc rl ra kr vr rr)))) s s4"
proof -
  let ?A = "addrs_at D (T pc t p kp vp (T wc wl w kw vw (T rc rl ra kr vr rr)))"
  obtain s1 where 1: "set_color s w pc = Some s1" "frame {w} s s1"
    "at s1 D (T pc t p kp vp (T pc wl w kw vw (T rc rl ra kr vr rr)))"
    using set_color_right[OF assms] by blast
  obtain s2 where 2: "set_color s1 p ASSOC_BLACK = Some s2" "frame {p} s1 s2"
    "at s2 D (T ASSOC_BLACK t p kp vp (T pc wl w kw vw (T rc rl ra kr vr rr)))"
    using set_color_at[OF 1(3)] by blast
  obtain s3 where 3: "set_color s2 ra ASSOC_BLACK = Some s3" "frame {ra} s2 s3"
    "at s3 D (T ASSOC_BLACK t p kp vp (T pc wl w kw vw (T ASSOC_BLACK rl ra kr vr rr)))"
    using set_color_right[OF at_right[OF 2(3)]] by (auto simp: at_FR)
  obtain s4 where 4: "left_rotate s3 p = Some s4" "frame ?A s3 s4"
    "at s4 D (T pc (T ASSOC_BLACK t p kp vp wl) w kw vw (T ASSOC_BLACK rl ra kr vr rr))"
    using left_rotate_at[OF 3(3)] by (auto simp: addrs_at_def)
  have "frame ?A s s4"
    by (rule frame_at[OF frame_step[OF frame_step[OF frame_step[OF 1(2) 2(2)] 3(2)] 4(2)]]) (auto simp: addrs_at_def)
  with 1 2 3 4 show ?thesis by blast
qed

lemma rest_left_4:
  assumes "placed s (FL pc p kp vp (T ASSOC_BLACK wl w kw vw (T ASSOC_RED rl ra kr vr rr)) # D) t"
  shows "\<exists>s'. delete_left_rest s (ad (rb_dummy s) t) w = Some (s', rb_root s')
    \<and> at s' D (T pc (T ASSOC_BLACK t p kp vp wl) w kw vw (T ASSOC_BLACK rl ra kr vr rr))
    \<and> frame (addrs_at D (T pc t p kp vp (T ASSOC_BLACK wl w kw vw (T ASSOC_RED rl ra kr vr rr)))) s s'"
proof -
  have at: "at s D (T pc t p kp vp (T ASSOC_BLACK wl w kw vw (T ASSOC_RED rl ra kr vr rr)))"
    using assms by (simp add: placed_def at_FL)
  note h = at_heap[OF at] at_node_right[OF at] at_node_right[OF at_right[OF at]]
  obtain ln where "rb_heap s (ad (rb_dummy s) wl) = Some ln"
    using at_color[OF at_left[OF at_right[OF at]]] by auto
  moreover have "rb_parent s (ad (rb_dummy s) t) = Some p" using assms by (simp add: placed_def)
  ultimately show ?thesis
    using h case4_left[OF at] by (auto simp: delete_left_rest_def Let_def)
qed

lemma rest_left_3:
  assumes "placed s (FL pc p kp vp (T ASSOC_BLACK (T ASSOC_RED l1 x1 k1 v1 r1) w kw vw wr) # D) t" "tcol wr = ASSOC_BLACK"
  shows "\<exists>s'. delete_left_rest s (ad (rb_dummy s) t) w = Some (s', rb_root s')
    \<and> at s' D (T pc (T ASSOC_BLACK t p kp vp l1) x1 k1 v1 (T ASSOC_BLACK r1 w kw vw wr))
    \<and> frame (addrs_at D (T pc t p kp vp (T ASSOC_BLACK (T ASSOC_RED l1 x1 k1 v1 r1) w kw vw wr))) s s'"
proof -
  let ?t = "T pc t p kp vp (T ASSOC_BLACK (T ASSOC_RED l1 x1 k1 v1 r1) w kw vw wr)"
  let ?d = "rb_dummy s"
  have at: "at s D ?t" using assms by (simp add: placed_def at_FL)
  note h = at_node_right[OF at] at_node_left[OF at_right[OF at]]
  obtain rn where rn: "rb_heap s (ad ?d wr) = Some rn" "an_color rn = ASSOC_BLACK"
    using at_color[OF at_right[OF at_right[OF at]]] assms(2) by auto
  obtain s1 where 1: "set_color s x1 ASSOC_BLACK = Some s1" "frame {x1} s s1"
    "at s1 (FR pc t p kp vp # D) (T ASSOC_BLACK (T ASSOC_BLACK l1 x1 k1 v1 r1) w kw vw wr)"
    using set_color_left[OF at_right[OF at]] by blast
  obtain s2 where 2: "set_color s1 w ASSOC_RED = Some s2" "frame {w} s1 s2"
    "at s2 (FR pc t p kp vp # D) (T ASSOC_RED (T ASSOC_BLACK l1 x1 k1 v1 r1) w kw vw wr)"
    using set_color_at[OF 1(3)] by blast
  obtain s3 where 3: "right_rotate s2 w = Some s3" "frame (addrs_at D ?t) s2 s3"
    "at s3 (FR pc t p kp vp # D) (T ASSOC_BLACK l1 x1 k1 v1 (T ASSOC_RED r1 w kw vw wr))"
    using right_rotate_at[OF 2(3)] by (auto simp: addrs_at_def insert_commute Un_ac)
  have fr: "frame (addrs_at D ?t) s s3"
    by (rule frame_at[OF frame_step[OF frame_step[OF 1(2) 2(2)] 3(2)]]) (auto simp: addrs_at_def)
  have d: "rb_dummy s3 = ?d" using fr by (simp add: frame_def)
  have at3: "at s3 D (T pc t p kp vp (T ASSOC_BLACK l1 x1 k1 v1 (T ASSOC_RED r1 w kw vw wr)))"
    using 3(3) by (simp add: at_FR)
  have pl: "placed s3 (FL pc p kp vp (T ASSOC_BLACK l1 x1 k1 v1 (T ASSOC_RED r1 w kw vw wr)) # D) t"
    by (rule placed_frame[OF assms(1) fr dummy_notin[OF at]]) (use at3 in \<open>simp_all add: at_FL\<close>)
  have par: "rb_parent s3 (ad ?d t) = Some p" using pl d by (simp add: placed_def)
  note h3 = at_heap[OF at3, unfolded d] at_node_right[OF at3, unfolded d] at_node_right[OF at_right[OF at3], unfolded d]
  obtain s4 s5 s6 s7 where 4: "set_color s3 x1 pc = Some s4" "set_color s4 p ASSOC_BLACK = Some s5"
    "set_color s5 w ASSOC_BLACK = Some s6" "left_rotate s6 p = Some s7"
    "at s7 D (T pc (T ASSOC_BLACK t p kp vp l1) x1 k1 v1 (T ASSOC_BLACK r1 w kw vw wr))"
    "frame (addrs_at D (T pc t p kp vp (T ASSOC_BLACK l1 x1 k1 v1 (T ASSOC_RED r1 w kw vw wr)))) s3 s7"
    using case4_left[OF at3] by blast
  have "frame (addrs_at D ?t) s s7"
    by (rule frame_at[OF frame_step[OF fr 4(6)]]) (auto simp: addrs_at_def)
  then show ?thesis
    using h rn 1(1) 2(1) 3(1) par h3 4(1-5) by (auto simp: delete_left_rest_def Let_def)
qed

text \<open>The mirror images.\<close>

lemma case1_right:
  assumes "placed s (FR pc (T ASSOC_RED wr w kw vw wl) p kp vp # D) t"
  shows "\<exists>s'. delete_right_case1 s (ad (rb_dummy s) t) = Some (s', ad (rb_dummy s) wl)
    \<and> placed s' (FR ASSOC_RED wl p kp vp # FR ASSOC_BLACK wr w kw vw # D) t
    \<and> frame (addrs_at D (T pc (T ASSOC_RED wr w kw vw wl) p kp vp t)) s s'"
proof -
  let ?t = "T pc (T ASSOC_RED wr w kw vw wl) p kp vp t"
  have at: "at s D ?t" using assms by (simp add: placed_def at_FR)
  note h = at_heap[OF at] at_node_left[OF at]
  obtain s1 where 1: "set_color s w ASSOC_BLACK = Some s1" "frame {w} s s1"
    "at s1 D (T pc (T ASSOC_BLACK wr w kw vw wl) p kp vp t)"
    using set_color_left[OF at] by blast
  obtain s2 where 2: "set_color s1 p ASSOC_RED = Some s2" "frame {p} s1 s2"
    "at s2 D (T ASSOC_RED (T ASSOC_BLACK wr w kw vw wl) p kp vp t)"
    using set_color_at[OF 1(3)] by blast
  obtain s3 where 3: "right_rotate s2 p = Some s3" "at s3 D (T ASSOC_BLACK wr w kw vw (T ASSOC_RED wl p kp vp t))"
    "frame (addrs_at D ?t) s2 s3"
    using right_rotate_at[OF 2(3)] by (auto simp: addrs_at_def)
  have fr: "frame (addrs_at D ?t) s s3"
    by (rule frame_at[OF frame_step[OF frame_step[OF 1(2) 2(2)] 3(3)]]) (auto simp: addrs_at_def)
  have d: "rb_dummy s3 = rb_dummy s" using fr by (simp add: frame_def)
  have pl: "placed s3 (FR ASSOC_RED wl p kp vp # FR ASSOC_BLACK wr w kw vw # D) t"
    by (rule placed_frame[OF assms fr dummy_notin[OF at]]) (use 3(2) in \<open>simp_all add: at_FR\<close>)
  have "rb_parent s (ad (rb_dummy s) t) = Some p" "rb_parent s3 (ad (rb_dummy s) t) = Some p"
    using assms pl d by (simp_all add: placed_def)
  moreover have "rb_heap s3 p = Some (node kp vp w (ad (rb_dummy s) wl) (ad (rb_dummy s) t) ASSOC_RED)"
    using at_node_right[OF 3(2)] d by simp
  ultimately show ?thesis
    using 1 2 3 h pl fr by (auto simp: delete_right_case1_def Let_def)
qed

lemma case1_right_black:
  assumes "placed s (FR pc (T ASSOC_BLACK wr w kw vw wl) p kp vp # D) t"
  shows "delete_right_case1 s (ad (rb_dummy s) t) = Some (s, w)"
proof -
  have at: "at s D (T pc (T ASSOC_BLACK wr w kw vw wl) p kp vp t)" using assms by (simp add: placed_def at_FR)
  show ?thesis
    using at_heap[OF at] at_node_left[OF at] assms by (auto simp: delete_right_case1_def placed_def Let_def)
qed

lemma rest_right_2:
  assumes "placed s (FR pc (T ASSOC_BLACK wr w kw vw wl) p kp vp # D) t" "tcol wl = ASSOC_BLACK" "tcol wr = ASSOC_BLACK"
  shows "\<exists>s'. delete_right_rest s (ad (rb_dummy s) t) w = Some (s', p)
    \<and> at s' D (T pc (T ASSOC_RED wr w kw vw wl) p kp vp t) \<and> frame {w} s s'"
proof -
  have at: "at s D (T pc (T ASSOC_BLACK wr w kw vw wl) p kp vp t)" using assms by (simp add: placed_def at_FR)
  obtain s' where s': "set_color s w ASSOC_RED = Some s'" "frame {w} s s'"
    "at s' D (T pc (T ASSOC_RED wr w kw vw wl) p kp vp t)"
    using set_color_left[OF at] by blast
  have w: "rb_dummy s \<noteq> w" using at by (auto simp: at_def)
  have d: "rb_dummy s' = rb_dummy s" using s'(2) by (simp add: frame_def)
  have "placed s' (FR pc (T ASSOC_RED wr w kw vw wl) p kp vp # D) t"
    by (rule placed_frame[OF assms(1) s'(2)]) (use s'(3) w in \<open>simp_all add: at_FR\<close>)
  then have "rb_parent s' (ad (rb_dummy s) t) = Some p" by (simp add: placed_def d)
  moreover obtain ln rn where "rb_heap s (ad (rb_dummy s) wl) = Some ln" "an_color ln = ASSOC_BLACK"
    "rb_heap s (ad (rb_dummy s) wr) = Some rn" "an_color rn = ASSOC_BLACK"
    using at_color[OF at_right[OF at_left[OF at]]] at_color[OF at_left[OF at_left[OF at]]] assms(2,3) by auto
  ultimately show ?thesis
    using at_node_left[OF at] s' by (auto simp: delete_right_rest_def Let_def)
qed

lemma case4_right:
  assumes "at s D (T pc (T wc (T rc rr ra kr vr rl) w kw vw wl) p kp vp t)"
  shows "\<exists>s1 s2 s3 s4. set_color s w pc = Some s1 \<and> set_color s1 p ASSOC_BLACK = Some s2
    \<and> set_color s2 ra ASSOC_BLACK = Some s3 \<and> right_rotate s3 p = Some s4
    \<and> at s4 D (T pc (T ASSOC_BLACK rr ra kr vr rl) w kw vw (T ASSOC_BLACK wl p kp vp t))
    \<and> frame (addrs_at D (T pc (T wc (T rc rr ra kr vr rl) w kw vw wl) p kp vp t)) s s4"
proof -
  let ?A = "addrs_at D (T pc (T wc (T rc rr ra kr vr rl) w kw vw wl) p kp vp t)"
  obtain s1 where 1: "set_color s w pc = Some s1" "frame {w} s s1"
    "at s1 D (T pc (T pc (T rc rr ra kr vr rl) w kw vw wl) p kp vp t)"
    using set_color_left[OF assms] by blast
  obtain s2 where 2: "set_color s1 p ASSOC_BLACK = Some s2" "frame {p} s1 s2"
    "at s2 D (T ASSOC_BLACK (T pc (T rc rr ra kr vr rl) w kw vw wl) p kp vp t)"
    using set_color_at[OF 1(3)] by blast
  obtain s3 where 3: "set_color s2 ra ASSOC_BLACK = Some s3" "frame {ra} s2 s3"
    "at s3 D (T ASSOC_BLACK (T pc (T ASSOC_BLACK rr ra kr vr rl) w kw vw wl) p kp vp t)"
    using set_color_left[OF at_left[OF 2(3)]] by (auto simp: at_FL)
  obtain s4 where 4: "right_rotate s3 p = Some s4" "frame ?A s3 s4"
    "at s4 D (T pc (T ASSOC_BLACK rr ra kr vr rl) w kw vw (T ASSOC_BLACK wl p kp vp t))"
    using right_rotate_at[OF 3(3)] by (auto simp: addrs_at_def)
  have "frame ?A s s4"
    by (rule frame_at[OF frame_step[OF frame_step[OF frame_step[OF 1(2) 2(2)] 3(2)] 4(2)]]) (auto simp: addrs_at_def)
  with 1 2 3 4 show ?thesis by blast
qed

lemma rest_right_4:
  assumes "placed s (FR pc (T ASSOC_BLACK (T ASSOC_RED rr ra kr vr rl) w kw vw wl) p kp vp # D) t"
  shows "\<exists>s'. delete_right_rest s (ad (rb_dummy s) t) w = Some (s', rb_root s')
    \<and> at s' D (T pc (T ASSOC_BLACK rr ra kr vr rl) w kw vw (T ASSOC_BLACK wl p kp vp t))
    \<and> frame (addrs_at D (T pc (T ASSOC_BLACK (T ASSOC_RED rr ra kr vr rl) w kw vw wl) p kp vp t)) s s'"
proof -
  have at: "at s D (T pc (T ASSOC_BLACK (T ASSOC_RED rr ra kr vr rl) w kw vw wl) p kp vp t)"
    using assms by (simp add: placed_def at_FR)
  note h = at_heap[OF at] at_node_left[OF at] at_node_left[OF at_left[OF at]]
  obtain ln where "rb_heap s (ad (rb_dummy s) wl) = Some ln"
    using at_color[OF at_right[OF at_left[OF at]]] by auto
  moreover have "rb_parent s (ad (rb_dummy s) t) = Some p" using assms by (simp add: placed_def)
  ultimately show ?thesis
    using h case4_right[OF at] by (auto simp: delete_right_rest_def Let_def)
qed

lemma rest_right_3:
  assumes "placed s (FR pc (T ASSOC_BLACK wr w kw vw (T ASSOC_RED r1 x1 k1 v1 l1)) p kp vp # D) t" "tcol wr = ASSOC_BLACK"
  shows "\<exists>s'. delete_right_rest s (ad (rb_dummy s) t) w = Some (s', rb_root s')
    \<and> at s' D (T pc (T ASSOC_BLACK wr w kw vw r1) x1 k1 v1 (T ASSOC_BLACK l1 p kp vp t))
    \<and> frame (addrs_at D (T pc (T ASSOC_BLACK wr w kw vw (T ASSOC_RED r1 x1 k1 v1 l1)) p kp vp t)) s s'"
proof -
  let ?t = "T pc (T ASSOC_BLACK wr w kw vw (T ASSOC_RED r1 x1 k1 v1 l1)) p kp vp t"
  let ?d = "rb_dummy s"
  have at: "at s D ?t" using assms by (simp add: placed_def at_FR)
  note h = at_node_left[OF at] at_node_right[OF at_left[OF at]]
  obtain rn where rn: "rb_heap s (ad ?d wr) = Some rn" "an_color rn = ASSOC_BLACK"
    using at_color[OF at_left[OF at_left[OF at]]] assms(2) by auto
  obtain s1 where 1: "set_color s x1 ASSOC_BLACK = Some s1" "frame {x1} s s1"
    "at s1 (FL pc p kp vp t # D) (T ASSOC_BLACK wr w kw vw (T ASSOC_BLACK r1 x1 k1 v1 l1))"
    using set_color_right[OF at_left[OF at]] by blast
  obtain s2 where 2: "set_color s1 w ASSOC_RED = Some s2" "frame {w} s1 s2"
    "at s2 (FL pc p kp vp t # D) (T ASSOC_RED wr w kw vw (T ASSOC_BLACK r1 x1 k1 v1 l1))"
    using set_color_at[OF 1(3)] by blast
  obtain s3 where 3: "left_rotate s2 w = Some s3" "frame (addrs_at D ?t) s2 s3"
    "at s3 (FL pc p kp vp t # D) (T ASSOC_BLACK (T ASSOC_RED wr w kw vw r1) x1 k1 v1 l1)"
    using left_rotate_at[OF 2(3)] by (auto simp: addrs_at_def insert_commute Un_ac)
  have fr: "frame (addrs_at D ?t) s s3"
    by (rule frame_at[OF frame_step[OF frame_step[OF 1(2) 2(2)] 3(2)]]) (auto simp: addrs_at_def)
  have d: "rb_dummy s3 = ?d" using fr by (simp add: frame_def)
  have at3: "at s3 D (T pc (T ASSOC_BLACK (T ASSOC_RED wr w kw vw r1) x1 k1 v1 l1) p kp vp t)"
    using 3(3) by (simp add: at_FL)
  have pl: "placed s3 (FR pc (T ASSOC_BLACK (T ASSOC_RED wr w kw vw r1) x1 k1 v1 l1) p kp vp # D) t"
    by (rule placed_frame[OF assms(1) fr dummy_notin[OF at]]) (use at3 in \<open>simp_all add: at_FR\<close>)
  have par: "rb_parent s3 (ad ?d t) = Some p" using pl d by (simp add: placed_def)
  note h3 = at_heap[OF at3, unfolded d] at_node_left[OF at3, unfolded d] at_node_left[OF at_left[OF at3], unfolded d]
  obtain s4 s5 s6 s7 where 4: "set_color s3 x1 pc = Some s4" "set_color s4 p ASSOC_BLACK = Some s5"
    "set_color s5 w ASSOC_BLACK = Some s6" "right_rotate s6 p = Some s7"
    "at s7 D (T pc (T ASSOC_BLACK wr w kw vw r1) x1 k1 v1 (T ASSOC_BLACK l1 p kp vp t))"
    "frame (addrs_at D (T pc (T ASSOC_BLACK (T ASSOC_RED wr w kw vw r1) x1 k1 v1 l1) p kp vp t)) s3 s7"
    using case4_right[OF at3] by blast
  have "frame (addrs_at D ?t) s s7"
    by (rule frame_at[OF frame_step[OF fr 4(6)]]) (auto simp: addrs_at_def)
  then show ?thesis
    using h rn 1(1) 2(1) 3(1) par h3 4(1-5) by (auto simp: delete_right_rest_def Let_def)
qed

subsection \<open>The repair\<close>

text \<open>A tree that is well coloured once its root is painted black.\<close>

fun redok2 :: "('k, 'v) rbt \<Rightarrow> bool" where
  "redok2 E \<longleftrightarrow> True"
| "redok2 (T c l a k v r) \<longleftrightarrow> redok l \<and> redok r"

lemma redok_redok2: "redok t \<Longrightarrow> redok2 t"
  by (cases t) auto

lemma redok2_black: "redok2 t \<Longrightarrow> tcol t = ASSOC_BLACK \<Longrightarrow> redok t"
  by (cases t) auto

text \<open>\<open>lacking s C t n\<close>: the tree is balanced but for a black node that \<open>t\<close> lacks.\<close>

definition lacking :: "('k, 'v) assoc_rb_tree_t \<Rightarrow> ('k, 'v) ctxt \<Rightarrow> ('k, 'v) rbt \<Rightarrow> nat \<Rightarrow> bool" where
  "lacking s C t n \<longleftrightarrow> placed s C t \<and> hgt t n \<and> chgt C (Suc n) \<and> redok2 t \<and> cok C ASSOC_BLACK \<and> croot C"

definition kept :: "('k, 'v) assoc_rb_tree_t \<Rightarrow> ('k, 'v) ctxt \<Rightarrow> ('k, 'v) rbt
    \<Rightarrow> ('k, 'v) assoc_rb_tree_t \<Rightarrow> ('k, 'v) ctxt \<Rightarrow> ('k, 'v) rbt \<Rightarrow> bool" where
  "kept s C t s' C' t' \<longleftrightarrow> frame (addrs_at C t) s s' \<and> addrs_at C' t' = addrs_at C t
     \<and> inorder (plug C' t') = inorder (plug C t)"

lemma kept_trans: "kept s C t s1 C1 t1 \<Longrightarrow> kept s1 C1 t1 s' C' t' \<Longrightarrow> kept s C t s' C' t'"
  unfolding kept_def using frame_step[of "addrs_at C t" s s1 "addrs_at C t" s'] by auto

lemma kept_dummy: "kept s C t s' C' t' \<Longrightarrow> rb_dummy s' = rb_dummy s"
  by (simp add: kept_def frame_def)

text \<open>The repair is complete: the whole tree is balanced.\<close>

lemma complete:
  assumes "at s D (T c l a k v r)" "hgt (T c l a k v r) m" "chgt D m" "redok (T c l a k v r)" "cok D c"
  shows "\<exists>n. at s [] (plug D (T c l a k v r)) \<and> rb_root s = ad (rb_dummy s) (plug D (T c l a k v r))
    \<and> placed s [] (plug D (T c l a k v r)) \<and> hgt (plug D (T c l a k v r)) n \<and> redok2 (plug D (T c l a k v r))"
proof -
  let ?t = "T c l a k v r"
  have at: "at s [] (plug D ?t)" using assms(1) by (simp add: at_plug)
  have "a \<in> set (addrs (plug D ?t))" by simp
  then obtain c' l' a' k' v' r' where "plug D ?t = T c' l' a' k' v' r'" by (cases "plug D ?t") auto
  then have "placed s [] (plug D ?t)" using at by (metis placed_T)
  then show ?thesis
    using at at_root[OF at] hgt_plug[OF assms(2,3)] redok_redok2[OF redok_plug[OF assms(4)]] assms(5) by auto
qed

lemma cok_black: "cok C c \<Longrightarrow> cok C ASSOC_BLACK"
  by (cases "(C, c)" rule: cok.cases) auto

lemma croot_black [simp]:
  "croot (FL ASSOC_BLACK a k v r # D) = croot D" "croot (FR ASSOC_BLACK l a k v # D) = croot D"
  by (cases D; simp)+

lemma rest_left_round:
  assumes "lacking s (FL pc p kp vp (T ASSOC_BLACK wl w kw vw wr) # D) t n" "tcol t = ASSOC_BLACK"
  shows "\<exists>s' C' t' n'. delete_left_rest s (ad (rb_dummy s) t) w = Some (s', ad (rb_dummy s') t')
    \<and> placed s' C' t' \<and> hgt t' n' \<and> redok2 t' \<and> (C' = [] \<or> C' = D \<and> tcol t' = pc \<and> lacking s' D t' n')
    \<and> kept s (FL pc p kp vp (T ASSOC_BLACK wl w kw vw wr) # D) t s' C' t'"
proof -
  let ?C = "FL pc p kp vp (T ASSOC_BLACK wl w kw vw wr) # D"
  have pl: "placed s ?C t" and t: "hgt t n" "redok t" and C: "chgt ?C (Suc n)" "cok ?C ASSOC_BLACK" "croot ?C"
    using assms redok2_black by (auto simp: lacking_def)
  show ?thesis
  proof (cases "tcol wr")
    case ASSOC_RED
    then obtain rl ra kr vr rr where wr: "wr = T ASSOC_RED rl ra kr vr rr" by (cases wr) auto
    let ?t = "T pc (T ASSOC_BLACK t p kp vp wl) w kw vw (T ASSOC_BLACK rl ra kr vr rr)"
    from rest_left_4[OF pl[unfolded wr]] obtain s' where s': "delete_left_rest s (ad (rb_dummy s) t) w = Some (s', rb_root s')"
      "at s' D ?t" "frame (addrs_at D (T pc t p kp vp (T ASSOC_BLACK wl w kw vw wr))) s s'" unfolding wr by blast
    have "\<exists>m. at s' [] (plug D ?t) \<and> rb_root s' = ad (rb_dummy s') (plug D ?t)
      \<and> placed s' [] (plug D ?t) \<and> hgt (plug D ?t) m \<and> redok2 (plug D ?t)"
      by (rule complete[OF s'(2), of "if pc = ASSOC_RED then Suc n else Suc (Suc n)"])
        (use t C wr assms(2) in \<open>auto split: if_splits\<close>)
    moreover have "kept s ?C t s' [] (plug D ?t)"
      using s'(3) by (auto simp: kept_def addrs_at_def wr intro!: inorder_plug_cong elim!: frame_at)
    ultimately show ?thesis using s'(1) by (intro exI[of _ s'] exI[of _ "[]"] exI[of _ "plug D ?t"]) auto
  next
    case far: ASSOC_BLACK
    show ?thesis
    proof (cases "tcol wl")
      case ASSOC_RED
      then obtain l1 x1 k1 v1 r1 where wl: "wl = T ASSOC_RED l1 x1 k1 v1 r1" by (cases wl) auto
      let ?t = "T pc (T ASSOC_BLACK t p kp vp l1) x1 k1 v1 (T ASSOC_BLACK r1 w kw vw wr)"
      from rest_left_3[OF pl[unfolded wl] far] obtain s' where s': "delete_left_rest s (ad (rb_dummy s) t) w = Some (s', rb_root s')"
        "at s' D ?t" "frame (addrs_at D (T pc t p kp vp (T ASSOC_BLACK wl w kw vw wr))) s s'" unfolding wl by blast
      have "\<exists>m. at s' [] (plug D ?t) \<and> rb_root s' = ad (rb_dummy s') (plug D ?t)
        \<and> placed s' [] (plug D ?t) \<and> hgt (plug D ?t) m \<and> redok2 (plug D ?t)"
        by (rule complete[OF s'(2), of "if pc = ASSOC_RED then Suc n else Suc (Suc n)"])
          (use t C wl far assms(2) in \<open>auto split: if_splits\<close>)
      moreover have "kept s ?C t s' [] (plug D ?t)"
        using s'(3) by (auto simp: kept_def addrs_at_def wl intro!: inorder_plug_cong elim!: frame_at)
      ultimately show ?thesis using s'(1) by (intro exI[of _ s'] exI[of _ "[]"] exI[of _ "plug D ?t"]) auto
    next
      case ASSOC_BLACK
      let ?t = "T pc t p kp vp (T ASSOC_RED wl w kw vw wr)"
      from rest_left_2[OF pl ASSOC_BLACK far] obtain s' where s': "delete_left_rest s (ad (rb_dummy s) t) w = Some (s', p)"
        "at s' D ?t" "frame {w} s s'" by blast
      have "lacking s' D ?t (if pc = ASSOC_RED then n else Suc n)"
        using s'(2) t C far ASSOC_BLACK croot_Cons by (auto simp: lacking_def split: if_splits intro: cok_black)
      moreover have "kept s ?C t s' D ?t"
        using s'(3) by (auto simp: kept_def addrs_at_def intro!: inorder_plug_cong elim!: frame_at)
      ultimately show ?thesis
        using s'(1) by (intro exI[of _ s'] exI[of _ D] exI[of _ ?t] exI[of _ "if pc = ASSOC_RED then n else Suc n"])
          (auto simp: lacking_def)
    qed
  qed
qed

lemma rest_right_round:
  assumes "lacking s (FR pc (T ASSOC_BLACK wr w kw vw wl) p kp vp # D) t n" "tcol t = ASSOC_BLACK"
  shows "\<exists>s' C' t' n'. delete_right_rest s (ad (rb_dummy s) t) w = Some (s', ad (rb_dummy s') t')
    \<and> placed s' C' t' \<and> hgt t' n' \<and> redok2 t' \<and> (C' = [] \<or> C' = D \<and> tcol t' = pc \<and> lacking s' D t' n')
    \<and> kept s (FR pc (T ASSOC_BLACK wr w kw vw wl) p kp vp # D) t s' C' t'"
proof -
  let ?C = "FR pc (T ASSOC_BLACK wr w kw vw wl) p kp vp # D"
  have pl: "placed s ?C t" and t: "hgt t n" "redok t" and C: "chgt ?C (Suc n)" "cok ?C ASSOC_BLACK" "croot ?C"
    using assms redok2_black by (auto simp: lacking_def)
  show ?thesis
  proof (cases "tcol wr")
    case ASSOC_RED
    then obtain rl ra kr vr rr where wr: "wr = T ASSOC_RED rr ra kr vr rl" by (cases wr) auto
    let ?t = "T pc (T ASSOC_BLACK rr ra kr vr rl) w kw vw (T ASSOC_BLACK wl p kp vp t)"
    from rest_right_4[OF pl[unfolded wr]] obtain s' where s': "delete_right_rest s (ad (rb_dummy s) t) w = Some (s', rb_root s')"
      "at s' D ?t" "frame (addrs_at D (T pc (T ASSOC_BLACK wr w kw vw wl) p kp vp t)) s s'" unfolding wr by blast
    have "\<exists>m. at s' [] (plug D ?t) \<and> rb_root s' = ad (rb_dummy s') (plug D ?t)
      \<and> placed s' [] (plug D ?t) \<and> hgt (plug D ?t) m \<and> redok2 (plug D ?t)"
      by (rule complete[OF s'(2), of "if pc = ASSOC_RED then Suc n else Suc (Suc n)"])
        (use t C wr assms(2) in \<open>auto split: if_splits\<close>)
    moreover have "kept s ?C t s' [] (plug D ?t)"
      using s'(3) by (auto simp: kept_def addrs_at_def wr intro!: inorder_plug_cong elim!: frame_at)
    ultimately show ?thesis using s'(1) by (intro exI[of _ s'] exI[of _ "[]"] exI[of _ "plug D ?t"]) auto
  next
    case far: ASSOC_BLACK
    show ?thesis
    proof (cases "tcol wl")
      case ASSOC_RED
      then obtain l1 x1 k1 v1 r1 where wl: "wl = T ASSOC_RED r1 x1 k1 v1 l1" by (cases wl) auto
      let ?t = "T pc (T ASSOC_BLACK wr w kw vw r1) x1 k1 v1 (T ASSOC_BLACK l1 p kp vp t)"
      from rest_right_3[OF pl[unfolded wl] far] obtain s' where s': "delete_right_rest s (ad (rb_dummy s) t) w = Some (s', rb_root s')"
        "at s' D ?t" "frame (addrs_at D (T pc (T ASSOC_BLACK wr w kw vw wl) p kp vp t)) s s'" unfolding wl by blast
      have "\<exists>m. at s' [] (plug D ?t) \<and> rb_root s' = ad (rb_dummy s') (plug D ?t)
        \<and> placed s' [] (plug D ?t) \<and> hgt (plug D ?t) m \<and> redok2 (plug D ?t)"
        by (rule complete[OF s'(2), of "if pc = ASSOC_RED then Suc n else Suc (Suc n)"])
          (use t C wl far assms(2) in \<open>auto split: if_splits\<close>)
      moreover have "kept s ?C t s' [] (plug D ?t)"
        using s'(3) by (auto simp: kept_def addrs_at_def wl intro!: inorder_plug_cong elim!: frame_at)
      ultimately show ?thesis using s'(1) by (intro exI[of _ s'] exI[of _ "[]"] exI[of _ "plug D ?t"]) auto
    next
      case ASSOC_BLACK
      let ?t = "T pc (T ASSOC_RED wr w kw vw wl) p kp vp t"
      from rest_right_2[OF pl ASSOC_BLACK far] obtain s' where s': "delete_right_rest s (ad (rb_dummy s) t) w = Some (s', p)"
        "at s' D ?t" "frame {w} s s'" by blast
      have "lacking s' D ?t (if pc = ASSOC_RED then n else Suc n)"
        using s'(2) t C far ASSOC_BLACK croot_Cons by (auto simp: lacking_def split: if_splits intro: cok_black)
      moreover have "kept s ?C t s' D ?t"
        using s'(3) by (auto simp: kept_def addrs_at_def intro!: inorder_plug_cong elim!: frame_at)
      ultimately show ?thesis
        using s'(1) by (intro exI[of _ s'] exI[of _ D] exI[of _ ?t] exI[of _ "if pc = ASSOC_RED then n else Suc n"])
          (auto simp: lacking_def)
    qed
  qed
qed

lemma round_left:
  assumes "lacking s (FL pc p kp vp w # D) t n" "tcol t = ASSOC_BLACK"
  shows "\<exists>s' C' t' n'. (do { (s1, w) \<leftarrow> delete_left_case1 s (ad (rb_dummy s) t); delete_left_rest s1 (ad (rb_dummy s) t) w })
      = Some (s', ad (rb_dummy s') t')
    \<and> placed s' C' t' \<and> hgt t' n' \<and> redok2 t'
    \<and> (C' = [] \<or> tcol t' = ASSOC_RED \<and> lacking s' C' t' n' \<or> C' = D \<and> lacking s' C' t' n')
    \<and> kept s (FL pc p kp vp w # D) t s' C' t'"
proof -
  have inv: "placed s (FL pc p kp vp w # D) t" "hgt t n" "redok t" "chgt (FL pc p kp vp w # D) (Suc n)"
    "cok (FL pc p kp vp w # D) ASSOC_BLACK" "croot (FL pc p kp vp w # D)"
    using assms redok2_black by (auto simp: lacking_def)
  then have "w \<noteq> E" by auto
  then obtain wc wl wa kw vw wr where w: "w = T wc wl wa kw vw wr" by (cases w) auto
  show ?thesis
  proof (cases wc)
    case ASSOC_BLACK
    note c1 = case1_left_black[OF inv(1)[unfolded w ASSOC_BLACK]]
    from rest_left_round[OF assms(1)[unfolded w ASSOC_BLACK] assms(2)] show ?thesis
      unfolding w ASSOC_BLACK c1 by auto
  next
    case ASSOC_RED
    obtain s1 where 1: "delete_left_case1 s (ad (rb_dummy s) t) = Some (s1, ad (rb_dummy s) wl)"
      "placed s1 (FL ASSOC_RED p kp vp wl # FL ASSOC_BLACK wa kw vw wr # D) t"
      "frame (addrs_at D (T pc t p kp vp (T ASSOC_RED wl wa kw vw wr))) s s1"
      using case1_left[OF inv(1)[unfolded w ASSOC_RED]] by blast
    have d: "rb_dummy s1 = rb_dummy s" using 1(3) by (simp add: frame_def)
    have pc: "pc = ASSOC_BLACK" using inv(5) w ASSOC_RED by (cases pc) auto
    have "wl \<noteq> E" "tcol wl = ASSOC_BLACK" using inv(4,5) w ASSOC_RED by auto
    then obtain l1 a1 k1 v1 r1 where wl: "wl = T ASSOC_BLACK l1 a1 k1 v1 r1" by (cases wl) auto
    have "lacking s1 (FL ASSOC_RED p kp vp wl # FL ASSOC_BLACK wa kw vw wr # D) t n"
      using 1(2) inv w ASSOC_RED pc croot_Cons[OF inv(6)] by (auto simp: lacking_def wl redok_redok2)
    from rest_left_round[OF this[unfolded wl] assms(2)]
    obtain s' C' t' n' where r: "delete_left_rest s1 (ad (rb_dummy s) t) a1 = Some (s', ad (rb_dummy s') t')"
      "placed s' C' t'" "hgt t' n'" "redok2 t'"
      "C' = [] \<or> C' = FL ASSOC_BLACK wa kw vw wr # D \<and> tcol t' = ASSOC_RED \<and> lacking s' (FL ASSOC_BLACK wa kw vw wr # D) t' n'"
      "kept s1 (FL ASSOC_RED p kp vp wl # FL ASSOC_BLACK wa kw vw wr # D) t s' C' t'"
      unfolding wl d by blast
    have "kept s (FL pc p kp vp w # D) t s1 (FL ASSOC_RED p kp vp wl # FL ASSOC_BLACK wa kw vw wr # D) t"
      using 1(3) by (auto simp: kept_def addrs_at_def w intro!: inorder_plug_cong elim!: frame_at)
    then show ?thesis using kept_trans[OF _ r(6)] 1(1) r(1-5) wl by (intro exI[of _ s'] exI[of _ C'] exI[of _ t'] exI[of _ n']) auto
  qed
qed

lemma round_right:
  assumes "lacking s (FR pc w p kp vp # D) t n" "tcol t = ASSOC_BLACK"
  shows "\<exists>s' C' t' n'. (do { (s1, w) \<leftarrow> delete_right_case1 s (ad (rb_dummy s) t); delete_right_rest s1 (ad (rb_dummy s) t) w })
      = Some (s', ad (rb_dummy s') t')
    \<and> placed s' C' t' \<and> hgt t' n' \<and> redok2 t'
    \<and> (C' = [] \<or> tcol t' = ASSOC_RED \<and> lacking s' C' t' n' \<or> C' = D \<and> lacking s' C' t' n')
    \<and> kept s (FR pc w p kp vp # D) t s' C' t'"
proof -
  have inv: "placed s (FR pc w p kp vp # D) t" "hgt t n" "redok t" "chgt (FR pc w p kp vp # D) (Suc n)"
    "cok (FR pc w p kp vp # D) ASSOC_BLACK" "croot (FR pc w p kp vp # D)"
    using assms redok2_black by (auto simp: lacking_def)
  then have "w \<noteq> E" by auto
  then obtain wc wl wa kw vw wr where w: "w = T wc wr wa kw vw wl" by (cases w) auto
  show ?thesis
  proof (cases wc)
    case ASSOC_BLACK
    note c1 = case1_right_black[OF inv(1)[unfolded w ASSOC_BLACK]]
    from rest_right_round[OF assms(1)[unfolded w ASSOC_BLACK] assms(2)] show ?thesis
      unfolding w ASSOC_BLACK c1 by auto
  next
    case ASSOC_RED
    obtain s1 where 1: "delete_right_case1 s (ad (rb_dummy s) t) = Some (s1, ad (rb_dummy s) wl)"
      "placed s1 (FR ASSOC_RED wl p kp vp # FR ASSOC_BLACK wr wa kw vw # D) t"
      "frame (addrs_at D (T pc (T ASSOC_RED wr wa kw vw wl) p kp vp t)) s s1"
      using case1_right[OF inv(1)[unfolded w ASSOC_RED]] by blast
    have d: "rb_dummy s1 = rb_dummy s" using 1(3) by (simp add: frame_def)
    have pc: "pc = ASSOC_BLACK" using inv(5) w ASSOC_RED by (cases pc) auto
    have "wl \<noteq> E" "tcol wl = ASSOC_BLACK" using inv(4,5) w ASSOC_RED by auto
    then obtain l1 a1 k1 v1 r1 where wl: "wl = T ASSOC_BLACK r1 a1 k1 v1 l1" by (cases wl) auto
    have "lacking s1 (FR ASSOC_RED wl p kp vp # FR ASSOC_BLACK wr wa kw vw # D) t n"
      using 1(2) inv w ASSOC_RED pc croot_Cons[OF inv(6)] by (auto simp: lacking_def wl redok_redok2)
    from rest_right_round[OF this[unfolded wl] assms(2)]
    obtain s' C' t' n' where r: "delete_right_rest s1 (ad (rb_dummy s) t) a1 = Some (s', ad (rb_dummy s') t')"
      "placed s' C' t'" "hgt t' n'" "redok2 t'"
      "C' = [] \<or> C' = FR ASSOC_BLACK wr wa kw vw # D \<and> tcol t' = ASSOC_RED \<and> lacking s' (FR ASSOC_BLACK wr wa kw vw # D) t' n'"
      "kept s1 (FR ASSOC_RED wl p kp vp # FR ASSOC_BLACK wr wa kw vw # D) t s' C' t'"
      unfolding wl d by blast
    have "kept s (FR pc w p kp vp # D) t s1 (FR ASSOC_RED wl p kp vp # FR ASSOC_BLACK wr wa kw vw # D) t"
      using 1(3) by (auto simp: kept_def addrs_at_def w intro!: inorder_plug_cong elim!: frame_at)
    then show ?thesis using kept_trans[OF _ r(6)] 1(1) r(1-5) wl by (intro exI[of _ s'] exI[of _ C'] exI[of _ t'] exI[of _ n']) auto
  qed
qed

lemma crep_root: "crep h d r (f # C) x \<Longrightarrow> r \<in> set (caddrs (f # C))"
proof (induction C arbitrary: f x)
  case Nil
  then show ?case by (cases f) auto
next
  case (Cons g C)
  then show ?case by (cases f) fastforce+
qed

lemma plug_root_black: "croot C \<Longrightarrow> C = [] \<longrightarrow> tcol t = ASSOC_BLACK \<Longrightarrow> tcol (plug C t) = ASSOC_BLACK"
proof (induction C arbitrary: t)
  case (Cons f C)
  show ?case
  proof (cases f)
    case (FL c a k v r)
    then show ?thesis using Cons.prems(1) croot_Cons[OF Cons.prems(1)] Cons.IH[of "T c t a k v r"] by (cases C) auto
  next
    case (FR c l a k v)
    then show ?thesis using Cons.prems(1) croot_Cons[OF Cons.prems(1)] Cons.IH[of "T c l a k v t"] by (cases C) auto
  qed
qed auto

lemma loop_stops:
  assumes "placed s C t" "C = [] \<or> tcol t = ASSOC_RED"
  shows "delete_fixup_loop s (ad (rb_dummy s) t) = Some (s, ad (rb_dummy s) t)"
  using assms at_color[OF placed_at[OF assms(1)]] at_root[OF placed_at[OF assms(1)]]
  by (subst delete_fixup_loop.simps) auto

lemma delete_fixup_loop_ok:
  assumes "placed s C t" "hgt t n" "redok2 t" "C = [] \<or> lacking s C t n"
  shows "\<exists>s' C' t' n'. delete_fixup_loop s (ad (rb_dummy s) t) = Some (s', ad (rb_dummy s') t')
    \<and> placed s' C' t' \<and> hgt t' n' \<and> redok2 t' \<and> (C' = [] \<or> tcol t' = ASSOC_RED \<and> lacking s' C' t' n')
    \<and> kept s C t s' C' t'"
  using assms
proof (induction "length C" arbitrary: s C t n rule: less_induct)
  case less
  show ?case
  proof (cases "C = [] \<or> tcol t = ASSOC_RED")
    case True
    then show ?thesis
      using less.prems loop_stops[OF less.prems(1) True]
      by (intro exI[of _ s] exI[of _ C] exI[of _ t] exI[of _ n]) (auto simp: kept_def)
  next
    case False
    then obtain f D where C: "C = f # D" by (cases C) auto
    have lack: "lacking s (f # D) t n" and black: "tcol t = ASSOC_BLACK" using less.prems(4) False C by auto
    let ?d = "rb_dummy s"
    have at: "at s (f # D) t" using lack by (simp add: lacking_def placed_def)
    obtain xn where xn: "rb_heap s (ad ?d t) = Some xn" "an_color xn = ASSOC_BLACK"
      using at_color[OF at] black by auto
    have par: "an_parent xn = cpar ?d (f # D)" using lack xn by (auto simp: lacking_def placed_def rb_parent_def)
    have root: "ad ?d t \<noteq> rb_root s"
    proof -
      have "rb_root s \<in> set (caddrs (f # D))"
        using at crep_root by (auto simp only: at_def)
      then show ?thesis using at ad_in[of ?d t] by (auto simp: at_def)
    qed
    have "\<exists>s' C' t' n'. delete_fixup_loop s (ad ?d t) = delete_fixup_loop s' (ad (rb_dummy s') t')
      \<and> placed s' C' t' \<and> hgt t' n' \<and> redok2 t'
      \<and> (C' = [] \<or> tcol t' = ASSOC_RED \<and> lacking s' C' t' n' \<or> C' = D \<and> lacking s' C' t' n')
      \<and> kept s (f # D) t s' C' t'"
    proof (cases f)
      case (FL c a k v r)
      then have h: "rb_heap s a = Some (node k v (cpar ?d D) (ad ?d t) (ad ?d r) c)" using at by (simp add: at_def)
      from round_left[OF lack[unfolded FL] black] obtain s' C' t' n' where r:
        "(do { (s1, w) \<leftarrow> delete_left_case1 s (ad ?d t); delete_left_rest s1 (ad ?d t) w })
          = Some (s', ad (rb_dummy s') t')"
        "placed s' C' t'" "hgt t' n'" "redok2 t'"
        "C' = [] \<or> tcol t' = ASSOC_RED \<and> lacking s' C' t' n' \<or> C' = D \<and> lacking s' C' t' n'"
        "kept s (FL c a k v r # D) t s' C' t'" by blast
      have "delete_fixup_loop s (ad ?d t) = delete_fixup_loop s' (ad (rb_dummy s') t')"
        using r(1) xn par root FL h by (subst delete_fixup_loop.simps) simp
      then show ?thesis
        unfolding FL by (intro exI[of _ s'] exI[of _ C'] exI[of _ t'] exI[of _ n'] conjI r(2-6))
    next
      case (FR c l a k v)
      then have h: "rb_heap s a = Some (node k v (cpar ?d D) (ad ?d l) (ad ?d t) c)" using at by (simp add: at_def)
      have "hgt l (Suc n)" using lack FR by (simp add: lacking_def)
      then have "l \<noteq> E" by auto
      then have "ad ?d l \<in> set (addrs l)" by (cases l) auto
      then have "ad ?d t \<noteq> ad ?d l" using at ad_in[of ?d t] FR by (auto simp: at_def)
      from round_right[OF lack[unfolded FR] black] obtain s' C' t' n' where r:
        "(do { (s1, w) \<leftarrow> delete_right_case1 s (ad ?d t); delete_right_rest s1 (ad ?d t) w })
          = Some (s', ad (rb_dummy s') t')"
        "placed s' C' t'" "hgt t' n'" "redok2 t'"
        "C' = [] \<or> tcol t' = ASSOC_RED \<and> lacking s' C' t' n' \<or> C' = D \<and> lacking s' C' t' n'"
        "kept s (FR c l a k v # D) t s' C' t'" by blast
      have "delete_fixup_loop s (ad ?d t) = delete_fixup_loop s' (ad (rb_dummy s') t')"
        using r(1) xn par root FR h \<open>ad ?d t \<noteq> ad ?d l\<close> by (subst delete_fixup_loop.simps) simp
      then show ?thesis
        unfolding FR by (intro exI[of _ s'] exI[of _ C'] exI[of _ t'] exI[of _ n'] conjI r(2-6))
    qed
    then obtain s1 C1 t1 n1 where r: "delete_fixup_loop s (ad ?d t) = delete_fixup_loop s1 (ad (rb_dummy s1) t1)"
      "placed s1 C1 t1" "hgt t1 n1" "redok2 t1"
      "C1 = [] \<or> tcol t1 = ASSOC_RED \<and> lacking s1 C1 t1 n1 \<or> C1 = D \<and> lacking s1 C1 t1 n1"
      "kept s C t s1 C1 t1" unfolding C by blast
    show ?thesis
    proof (cases "C1 = [] \<or> tcol t1 = ASSOC_RED")
      case True
      then show ?thesis using r loop_stops[OF r(2) True] by auto
    next
      case False
      then have "C1 = D" "lacking s1 D t1 n1" using r(5) by auto
      with less.hyps[of D s1 t1 n1] r C obtain s' C' t' n' where l:
        "delete_fixup_loop s1 (ad (rb_dummy s1) t1) = Some (s', ad (rb_dummy s') t')"
        "placed s' C' t'" "hgt t' n'" "redok2 t'" "C' = [] \<or> tcol t' = ASSOC_RED \<and> lacking s' C' t' n'"
        "kept s1 C1 t1 s' C' t'" by auto
      show ?thesis
        unfolding r(1) by (intro exI[of _ s'] exI[of _ C'] exI[of _ t'] exI[of _ n'] conjI l(1-5) kept_trans[OF r(6) l(6)])
    qed
  qed
qed

text \<open>Painting the node that the loop stops at completes the repair.\<close>

lemma delete_fixup_ok:
  assumes "lacking s C t n"
  shows "\<exists>s' t'. delete_fixup s (ad (rb_dummy s) t) = Some s' \<and> at s' [] t' \<and> rbt_ok t'
    \<and> kept s C t s' [] t'"
proof -
  obtain s1 C1 t1 n1 where 1: "delete_fixup_loop s (ad (rb_dummy s) t) = Some (s1, ad (rb_dummy s1) t1)"
    "placed s1 C1 t1" "hgt t1 n1" "redok2 t1" "C1 = [] \<or> tcol t1 = ASSOC_RED \<and> lacking s1 C1 t1 n1"
    "kept s C t s1 C1 t1"
    using delete_fixup_loop_ok[of s C t n] assms by (auto simp: lacking_def)
  show ?thesis
  proof (cases t1)
    case E
    then have C1: "C1 = []" using 1(5) by auto
    have at1: "at s1 [] E" using 1(2) E C1 by (simp add: placed_def)
    then obtain dn where dn: "rb_heap s1 (rb_dummy s1) = Some dn" "an_color dn = ASSOC_BLACK"
      by (auto simp: at_def dummy_ok_def)
    then have "set_color s1 (rb_dummy s1) ASSOC_BLACK = Some s1"
      by (cases dn) (simp add: rb_upd_def fun_upd_idem)
    moreover have "rbt_ok E" by (simp add: rbt_ok_def)
    moreover have "kept s C t s1 [] E" using 1(6) E C1 by simp
    ultimately show ?thesis using 1(1) E at1 by (auto simp: delete_fixup_def)
  next
    case (T c l a k v r)
    then obtain s' where s': "set_color s1 a ASSOC_BLACK = Some s'" "at s' C1 (T ASSOC_BLACK l a k v r)" "frame {a} s1 s'"
      using 1(2) set_color_at by (fastforce simp: placed_def)
    let ?t = "plug C1 (T ASSOC_BLACK l a k v r)"
    have "frame (addrs_at C1 t1) s1 s'" by (rule frame_at[OF s'(3)]) (simp add: addrs_at_def T)
    then have "kept s1 C1 t1 s' [] ?t"
      by (auto simp: kept_def addrs_at_def T intro!: inorder_plug_cong)
    then have kept: "kept s C t s' [] ?t" by (rule kept_trans[OF 1(6)])
    have "rbt_ok ?t"
    proof (cases "C1 = []")
      case True
      have "hgt (T ASSOC_BLACK l a k v r) (if c = ASSOC_RED then Suc n1 else n1)"
        using 1(3) T by (auto split: if_splits)
      then show ?thesis using True 1(4) T by (auto simp: rbt_ok_def)
    next
      case False
      then have red: "c = ASSOC_RED" and lack: "lacking s1 C1 t1 n1" using 1(5) T by auto
      have "hgt (T ASSOC_BLACK l a k v r) (Suc n1)" using 1(3) T red by auto
      moreover have "redok (T ASSOC_BLACK l a k v r)" using 1(4) T by simp
      moreover have "chgt C1 (Suc n1)" "cok C1 ASSOC_BLACK" "croot C1" using lack by (auto simp: lacking_def)
      ultimately show ?thesis
        using hgt_plug[of "T ASSOC_BLACK l a k v r" "Suc n1" C1] redok_plug[of "T ASSOC_BLACK l a k v r" C1]
          plug_root_black[of C1 "T ASSOC_BLACK l a k v r"]
        by (simp add: rbt_ok_def)
    qed
    moreover have "at s' [] ?t" using s'(2) by (simp add: at_plug)
    ultimately show ?thesis using 1(1) s'(1) kept T by (auto simp: delete_fixup_def)
  qed
qed

end
