(* ===== verification/Rb_Extract.thy ===== *)
theory Rb_Extract
  imports Rb_Delete
begin

text \<open>
  Extraction from the red-black tree: the removal of a node with one and with two children, the
  search, and the extraction of a key as that of the in-order sequence.
\<close>

subsection \<open>Taking a node out\<close>

lemma at_append: "at s (A @ C) t \<longleftrightarrow> at s C (plug A t)"
  by (induction A t rule: plug.induct) (simp_all add: at_FL at_FR)

lemma plug_append: "plug (A @ C) t = plug C (plug A t)"
  by (induction A t rule: plug.induct) simp_all

lemma caddrs_append [simp]: "caddrs (A @ C) = caddrs A @ caddrs C"
  by (induction A rule: caddrs.induct) simp_all

text \<open>\<open>u\<close> hangs from the frames, \<open>t\<close> is a tree with another parent, and takes its place.\<close>

lemma transplant_at:
  assumes "crep (rb_heap s) (rb_dummy s) (rb_root s) C u" "rb_heap s u = Some (node k v (cpar (rb_dummy s) C) ul ur c)"
    and "rep (rb_heap s) (rb_dummy s) u t" "distinct (rb_dummy s # u # caddrs C @ addrs t)" "dummy_ok s"
  shows "\<exists>s'. transplant s u (ad (rb_dummy s) t) = Some s' \<and> placed s' C t
    \<and> frame {rb_dummy s, cpar (rb_dummy s) C, ad (rb_dummy s) t} s s'"
proof (cases C)
  case Nil
  then show ?thesis using assms by (cases t) (auto simp: transplant_def placed_def rb_parent_def addrs_at_def heap_defs)
next
  case (Cons f D)
  show ?thesis
  proof (cases f)
    case (FL c a x w r)
    then show ?thesis using assms Cons
      by (cases t) (auto simp: transplant_def placed_def rb_parent_def addrs_at_def heap_defs)
  next
    case (FR c l a x w)
    then have "ad (rb_dummy s) l \<noteq> u" using assms(4) Cons by (intro ad_notin) auto
    then show ?thesis using assms Cons FR
      by (cases t) (auto simp: transplant_def placed_def rb_parent_def addrs_at_def heap_defs)
  qed
qed

lemma transplant_right:
  assumes "at s C (T c E u k v t)"
  shows "\<exists>s'. transplant s u (ad (rb_dummy s) t) = Some s' \<and> placed s' C t
    \<and> frame {rb_dummy s, cpar (rb_dummy s) C, ad (rb_dummy s) t} s s'"
  by (rule transplant_at[of s C u k v]) (use assms in \<open>auto simp: at_def\<close>)

lemma transplant_left:
  assumes "at s C (T c t u k v E)"
  shows "\<exists>s'. transplant s u (ad (rb_dummy s) t) = Some s' \<and> placed s' C t
    \<and> frame {rb_dummy s, cpar (rb_dummy s) C, ad (rb_dummy s) t} s s'"
  by (rule transplant_at[of s C u k v]) (use assms in \<open>auto simp: at_def\<close>)

text \<open>The leftmost node of a tree.\<close>

lemma leftmost_ok:
  assumes "at s C r" "r \<noteq> E"
  shows "\<exists>A c y k v t. leftmost s (ad (rb_dummy s) r) = Some y \<and> r = plug A (T c E y k v t)
    \<and> (\<exists>ys. \<forall>u. inorder (plug A u) = inorder u @ ys)"
  using assms
proof (induction r arbitrary: C)
  case (T c l a k v r)
  note h = at_heap[OF T.prems(1)]
  show ?case
  proof (cases "l = E")
    case True
    then show ?thesis using h by (intro exI[of _ "[]"]) (auto simp: leftmost.simps)
  next
    case False
    then obtain A c' y k' v' t ys where IH: "leftmost s (ad (rb_dummy s) l) = Some y" "l = plug A (T c' E y k' v' t)"
      "\<And>u. inorder (plug A u) = inorder u @ ys"
      using T.IH(1)[OF at_left[OF T.prems(1)]] by blast
    have "ad (rb_dummy s) l \<noteq> rb_dummy s" using T.prems(1) False by (auto simp: at_def)
    then have "leftmost s a = Some y" using h IH(1) by (subst leftmost.simps) simp
    then show ?thesis
      using IH by (intro exI[of _ "A @ [FL c a k v r]"]) (auto simp: plug_append intro!: exI[of _ "ys @ (k, v) # inorder r"])
  qed
qed simp

lemma minimum_ok:
  assumes "at s C r" "r \<noteq> E"
  shows "minimum s (ad (rb_dummy s) r) = leftmost s (ad (rb_dummy s) r)"
  using assms by (cases r) (auto simp: minimum_def at_def)

subsection \<open>Balance after a removal\<close>

text \<open>Without a node that had at most one child the tree is balanced, or lacks a black node.\<close>

lemma removed:
  assumes "placed s C t" "l = E \<and> r = t \<or> l = t \<and> r = E"
    and "hgt (T c l a k v r) m" "redok (T c l a k v r)" "chgt C m" "cok C c" "croot C" "C = [] \<longrightarrow> c = ASSOC_BLACK"
  shows "if c = ASSOC_BLACK then \<exists>n. lacking s C t n else rbt_ok (plug C t)"
proof (cases c)
  case ASSOC_BLACK
  have "hgt t (m - 1)" "Suc (m - 1) = m" using assms(2,3) ASSOC_BLACK by auto
  then show ?thesis
    using assms ASSOC_BLACK by (auto simp: lacking_def intro!: exI[of _ "m - 1"] redok_redok2)
next
  case ASSOC_RED
  then have "hgt t m" "redok t" "tcol t = ASSOC_BLACK" using assms(2-4) by auto
  then show ?thesis
    using hgt_plug[of t m C] redok_plug[of t C] plug_root_black[of C t] cok_black[OF assms(6)] assms ASSOC_RED
    by (auto simp: rbt_ok_def)
qed

lemma removed_ends:
  assumes "if c = ASSOC_BLACK then \<exists>n. lacking s C t n else rbt_ok (plug C t)" "at s C t"
  shows "\<exists>s' t'. (if c = ASSOC_BLACK then delete_fixup s (ad (rb_dummy s) t) else Some s) = Some s'
    \<and> at s' [] t' \<and> rbt_ok t' \<and> kept s C t s' [] t'"
proof (cases c)
  case ASSOC_BLACK
  then show ?thesis using assms(1) delete_fixup_ok by auto
next
  case ASSOC_RED
  then show ?thesis
    using assms by (intro exI[of _ s] exI[of _ "plug C t"]) (auto simp: kept_def at_plug addrs_at_def)
qed

text \<open>The balance does not depend on what a node holds.\<close>

lemma swap_FR:
  "chgt (A @ FR c l a k v # D) n \<longleftrightarrow> chgt (A @ FR c l a' k' v' # D) n"
  "cok (A @ FR c l a k v # D) b \<longleftrightarrow> cok (A @ FR c l a' k' v' # D) b"
  "croot (A @ FR c l a k v # D) \<longleftrightarrow> croot (A @ FR c l a' k' v' # D)"
proof -
  show "chgt (A @ FR c l a k v # D) n \<longleftrightarrow> chgt (A @ FR c l a' k' v' # D) n"
    by (induction A n rule: chgt.induct) simp_all
  show "cok (A @ FR c l a k v # D) b \<longleftrightarrow> cok (A @ FR c l a' k' v' # D) b"
    by (induction A b rule: cok.induct) simp_all
  show "croot (A @ FR c l a k v # D) \<longleftrightarrow> croot (A @ FR c l a' k' v' # D)"
  proof (induction A)
    case Nil
    then show ?case by (cases D) auto
  next
    case (Cons f A)
    then show ?case by (cases A; cases f) auto
  qed
qed

subsection \<open>A node with two children\<close>

text \<open>The successor \<open>y\<close> has the right subtree \<open>R\<close> of \<open>z\<close>, and is yet to take its place.\<close>

definition loose :: "('k, 'v) assoc_rb_tree_t \<Rightarrow> ('k, 'v) ctxt \<Rightarrow> assoc_color_e \<Rightarrow> ('k, 'v) rbt \<Rightarrow> addr \<Rightarrow> 'k \<Rightarrow> 'v
    \<Rightarrow> addr \<Rightarrow> 'k \<Rightarrow> 'v \<Rightarrow> ('k, 'v) rbt \<Rightarrow> bool" where
  "loose s D c l z k v y k' v' R \<longleftrightarrow> crep (rb_heap s) (rb_dummy s) (rb_root s) D z
     \<and> (\<exists>zr. rb_heap s z = Some (node k v (cpar (rb_dummy s) D) (ad (rb_dummy s) l) zr c))
     \<and> rep (rb_heap s) (rb_dummy s) z l
     \<and> (\<exists>p yl yc. rb_heap s y = Some (node k' v' p yl (ad (rb_dummy s) R) yc))
     \<and> rep (rb_heap s) (rb_dummy s) y R
     \<and> distinct (rb_dummy s # z # y # caddrs D @ addrs l @ addrs R) \<and> dummy_ok s"

lemma loose_child:
  assumes "at s D (T c l z k v (T c' E y k' v' R))"
  shows "\<exists>s'. rb_upd s (ad (rb_dummy s) R) (\<lambda>n. n\<lparr>an_parent := y\<rparr>) = Some s'
    \<and> loose s' D c l z k v y k' v' R \<and> rb_parent s' (ad (rb_dummy s) R) = Some y
    \<and> frame (insert (rb_dummy s) (set (addrs R))) s s'"
  using assms by (cases R) (auto simp: loose_def rb_parent_def heap_defs)

lemma loose_deep:
  assumes "at s D (T c l z k v R)" "R \<noteq> E" "rb_heap s y = Some yn" "an_key yn = Some k'" "an_value yn = Some v'"
    and "y \<notin> addrs_at D (T c l z k v R)" "y \<noteq> rb_dummy s"
  shows "\<exists>s1 s2. rb_upd s y (\<lambda>n. n\<lparr>an_right := ad (rb_dummy s) R\<rparr>) = Some s1
    \<and> rb_upd s1 (ad (rb_dummy s) R) (\<lambda>n. n\<lparr>an_parent := y\<rparr>) = Some s2
    \<and> loose s2 D c l z k v y k' v' R \<and> frame (insert y (set (addrs R))) s s2"
proof -
  obtain p yl yr yc where "yn = node k' v' p yl yr yc" using assms(4,5) by (cases yn) (auto simp: node_def)
  then show ?thesis
    using assms by (cases R) (auto simp: loose_def addrs_at_def heap_defs)
qed

definition splice_node :: "('k, 'v) assoc_rb_tree_t \<Rightarrow> addr \<Rightarrow> addr \<Rightarrow> ('k, 'v) assoc_rb_tree_t option" where
  "splice_node s z y = do {
     s \<leftarrow> transplant s z y;
     zn \<leftarrow> rb_heap s z;
     s \<leftarrow> rb_upd s y (\<lambda>n. n\<lparr>an_left := an_left zn\<rparr>);
     s \<leftarrow> rb_upd s (an_left zn) (\<lambda>n. n\<lparr>an_parent := y\<rparr>);
     set_color s y (an_color zn)
   }"

lemma splice_node_ok:
  assumes "loose s D c l z k v y k' v' R" "l \<noteq> E"
  shows "\<exists>s'. splice_node s z y = Some s' \<and> at s' D (T c l y k' v' R) \<and> frame (insert y (addrs_at D l)) s s'"
proof (cases D)
  case Nil
  then show ?thesis using assms
    by (cases l) (auto simp: splice_node_def loose_def transplant_def addrs_at_def heap_defs)
next
  case (Cons f B)
  show ?thesis
  proof (cases f)
    case (FL c' a x w r)
    then show ?thesis using assms Cons
      by (cases l) (auto simp: splice_node_def loose_def transplant_def addrs_at_def heap_defs)
  next
    case (FR c' t a x w)
    then have "ad (rb_dummy s) t \<noteq> z" using assms(1) Cons by (intro ad_notin) (auto simp: loose_def)
    then show ?thesis using assms Cons FR
      by (cases l) (auto simp: splice_node_def loose_def transplant_def addrs_at_def heap_defs)
  qed
qed

definition detach :: "('k, 'v) assoc_rb_tree_t \<Rightarrow> addr \<Rightarrow> addr \<Rightarrow> ('k, 'v) assoc_node_t
    \<Rightarrow> ('k, 'v) assoc_rb_tree_t option" where
  "detach s z y yn = (if an_parent yn = z then rb_upd s (an_right yn) (\<lambda>n. n\<lparr>an_parent := y\<rparr>)
     else do {
       s \<leftarrow> transplant s y (an_right yn);
       zn \<leftarrow> rb_heap s z;
       s \<leftarrow> rb_upd s y (\<lambda>n. n\<lparr>an_right := an_right zn\<rparr>);
       rb_upd s (an_right zn) (\<lambda>n. n\<lparr>an_parent := y\<rparr>)
     })"

lemma extract_node_two:
  assumes "z \<noteq> rb_dummy s" "rb_heap s z = Some zn" "an_left zn \<noteq> rb_dummy s" "an_right zn \<noteq> rb_dummy s"
    and "minimum s (an_right zn) = Some y" "rb_heap s y = Some yn"
  shows "assoc_rb_tree_extract_node s z = do {
    s1 \<leftarrow> detach s z y yn;
    s2 \<leftarrow> splice_node s1 z y;
    if an_color yn = ASSOC_BLACK then delete_fixup s2 (an_right yn) else Some s2
  }"
  using assms by (simp add: assoc_rb_tree_extract_node_def detach_def splice_node_def Let_def)

lemma cpar_append: "A \<noteq> [] \<Longrightarrow> cpar d (A @ C) = cpar d A"
  by (cases A rule: caddrs.cases) auto

lemma cpar_in: "A \<noteq> [] \<Longrightarrow> cpar d A \<in> set (caddrs A)"
  by (cases A rule: caddrs.cases) auto

lemma plug_neq_E: "A \<noteq> [] \<Longrightarrow> plug A t \<noteq> E"
  by (metis cpar_in empty_iff list.set(1) set_addrs_plug addrs.simps(1) Un_iff)

lemma detach_ok:
  assumes "at s (A @ FR c l z k v # C) (T cy E y k' v' t)" "rb_heap s y = Some yn"
  shows "\<exists>s'. detach s z y yn = Some s' \<and> loose s' C c l z k v y k' v' (plug A t)
    \<and> (t = E \<longrightarrow> rb_parent s' (rb_dummy s') = Some (cpar (rb_dummy s) (A @ FR c l y k' v' # C)))
    \<and> frame (insert (rb_dummy s) (insert y (addrs_at (A @ C) t))) s s'"
proof -
  have yn: "yn = node k' v' (cpar (rb_dummy s) (A @ FR c l z k v # C)) (rb_dummy s) (ad (rb_dummy s) t) cy"
    using at_heap[OF assms(1)] assms(2) by simp
  show ?thesis
  proof (cases "A = []")
    case True
    have "at s C (T c l z k v (T cy E y k' v' t))" using assms(1) True by (simp add: at_FR)
    from loose_child[OF this] obtain s' where s': "rb_upd s (ad (rb_dummy s) t) (\<lambda>n. n\<lparr>an_parent := y\<rparr>) = Some s'"
      "loose s' C c l z k v y k' v' t" "rb_parent s' (ad (rb_dummy s) t) = Some y"
      "frame (insert (rb_dummy s) (set (addrs t))) s s'" by blast
    have "rb_dummy s' = rb_dummy s" using s'(4) by (simp add: frame_def)
    moreover have "frame (insert (rb_dummy s) (insert y (addrs_at (A @ C) t))) s s'"
      by (rule frame_at[OF s'(4)]) (auto simp: addrs_at_def)
    ultimately show ?thesis using s' True by (auto simp: detach_def yn)
  next
    case False
    have z: "cpar (rb_dummy s) (A @ FR c l z k v # C) \<noteq> z"
      using assms(1) cpar_in[OF False, of "rb_dummy s"] by (auto simp: cpar_append[OF False] at_def)
    obtain s1 where 1: "transplant s y (ad (rb_dummy s) t) = Some s1" "placed s1 (A @ FR c l z k v # C) t"
      "frame {rb_dummy s, cpar (rb_dummy s) A, ad (rb_dummy s) t} s s1"
      using transplant_right[OF assms(1)] by (auto simp: cpar_append[OF False])
    have touched: "{rb_dummy s, cpar (rb_dummy s) A, ad (rb_dummy s) t} \<subseteq> insert (rb_dummy s) (addrs_at A t)"
      using cpar_in[OF False] ad_in[of "rb_dummy s" t] by (auto simp: addrs_at_def)
    have y: "y \<notin> addrs_at (A @ FR c l z k v # C) t" "y \<noteq> rb_dummy s"
      using assms(1) by (auto simp: at_def addrs_at_def)
    have y1: "rb_heap s1 y = Some yn" "rb_dummy s1 = rb_dummy s" using frame_at[OF 1(3) touched] y assms(2) by (auto simp: frame_def addrs_at_def)
    have at1: "at s1 C (T c l z k v (plug A t))" using placed_at[OF 1(2)] by (simp add: at_append at_FR)
    have h1: "rb_heap s1 z = Some (node k v (cpar (rb_dummy s1) C) (ad (rb_dummy s1) l) (ad (rb_dummy s1) (plug A t)) c)"
      by (rule at_heap[OF at1])
    obtain s2 s3 where 2: "rb_upd s1 y (\<lambda>n. n\<lparr>an_right := ad (rb_dummy s1) (plug A t)\<rparr>) = Some s2"
      "rb_upd s2 (ad (rb_dummy s1) (plug A t)) (\<lambda>n. n\<lparr>an_parent := y\<rparr>) = Some s3"
      "loose s3 C c l z k v y k' v' (plug A t)" "frame (insert y (set (addrs (plug A t)))) s1 s3"
      using loose_deep[OF at1 plug_neq_E[OF False] y1(1), of k' v'] y y1(2) by (auto simp: yn addrs_at_def)
    have "detach s z y yn = Some s3" using z 1(1) h1 2(1,2) by (simp add: detach_def yn)
    moreover have "t = E \<longrightarrow> rb_parent s3 (rb_dummy s3) = Some (cpar (rb_dummy s) (A @ FR c l y k' v' # C))"
    proof
      assume "t = E"
      then have "rb_parent s1 (rb_dummy s1) = Some (cpar (rb_dummy s1) A)"
        using 1(2) by (simp add: placed_def cpar_append[OF False])
      moreover have "rb_dummy s1 \<notin> insert y (set (addrs (plug A t)))"
        using placed_at[OF 1(2)] y y1(2) by (auto simp: at_def)
      ultimately show "rb_parent s3 (rb_dummy s3) = Some (cpar (rb_dummy s) (A @ FR c l y k' v' # C))"
        using 2(4) y1(2) by (simp add: frame_def rb_parent_def cpar_append[OF False])
    qed
    moreover have "frame (insert (rb_dummy s) (insert y (addrs_at (A @ C) t))) s s3"
      by (rule frame_at[OF frame_step[OF frame_at[OF 1(3) touched] 2(4)]]) (auto simp: addrs_at_def)
    ultimately show ?thesis using 2(3) by blast
  qed
qed

subsection \<open>The removal of a node\<close>

definition around :: "('k, 'v) ctxt \<Rightarrow> ('k, 'v) rbt \<Rightarrow> ('k, 'v) rbt \<Rightarrow> addr set" where
  "around C l r = set (caddrs C) \<union> set (addrs l) \<union> set (addrs r)"

definition taken :: "('k, 'v) assoc_rb_tree_t \<Rightarrow> ('k, 'v) ctxt \<Rightarrow> ('k, 'v) rbt \<Rightarrow> ('k, 'v) rbt
    \<Rightarrow> ('k, 'v) assoc_rb_tree_t \<Rightarrow> ('k, 'v) rbt \<Rightarrow> bool" where
  "taken s C l r s' t' \<longleftrightarrow> at s' [] t' \<and> rbt_ok t' \<and> set (addrs t') = around C l r
     \<and> (\<forall>xs ys. (\<forall>u. inorder (plug C u) = xs @ inorder u @ ys) \<longrightarrow> inorder t' = xs @ inorder l @ inorder r @ ys)
     \<and> frame (insert (rb_dummy s) (around C l r)) s s'"

lemma rbt_ok_place:
  assumes "rbt_ok (plug C (T c l a k v r))"
  shows "\<exists>m. hgt (T c l a k v r) m \<and> chgt C m" "redok (T c l a k v r)" "cok C c" "croot C" "C = [] \<longrightarrow> c = ASSOC_BLACK"
proof -
  let ?t = "T c l a k v r"
  have ok: "redok (plug C ?t)" "tcol (plug C ?t) = ASSOC_BLACK" using assms by (auto simp: rbt_ok_def)
  show "\<exists>m. hgt ?t m \<and> chgt C m" using assms plug_hgt unfolding rbt_ok_def by blast
  show "redok ?t" "cok C c" using plug_redok[OF ok(1)] by auto
  show "croot C" by (rule plug_root[OF ok(2)])
  show "C = [] \<longrightarrow> c = ASSOC_BLACK" using ok(2) by auto
qed

lemma extract_node_one:
  assumes "at s C (T c l z k v r)" "rbt_ok (plug C (T c l z k v r))" "l = E \<or> r = E"
  shows "\<exists>s' t'. assoc_rb_tree_extract_node s z = Some s' \<and> taken s C l r s' t'"
proof -
  let ?d = "rb_dummy s"
  define t where "t = (if l = E then r else l)"
  have z: "z \<noteq> ?d" and d: "?d \<notin> set (addrs l)" "?d \<notin> set (addrs r)" using assms(1) by (auto simp: at_def)
  obtain s1 where 1: "transplant s z (ad ?d t) = Some s1" "placed s1 C t"
    "frame {?d, cpar ?d C, ad ?d t} s s1"
    using transplant_right[of s C c z k v r] transplant_left[of s C c l z k v] assms(1,3) t_def by (cases "l = E") auto
  have dd: "rb_dummy s1 = ?d" using 1(3) by (simp add: frame_def)
  from rbt_ok_place[OF assms(2)] obtain m where "hgt (T c l z k v r) m" "chgt C m" "redok (T c l z k v r)"
    "cok C c" "croot C" "C = [] \<longrightarrow> c = ASSOC_BLACK" by blast
  note inv = this
  have lr: "l = E \<and> r = t \<or> l = t \<and> r = E" using assms(3) t_def by auto
  have "if c = ASSOC_BLACK then \<exists>n. lacking s1 C t n else rbt_ok (plug C t)"
    by (rule removed[OF 1(2) lr inv(1,3,2,4-6)])
  then obtain s' t' where 2: "(if c = ASSOC_BLACK then delete_fixup s1 (ad ?d t) else Some s1) = Some s'"
    "at s' [] t'" "rbt_ok t'" "kept s1 C t s' [] t'"
    using removed_ends[OF _ placed_at[OF 1(2)]] unfolding dd by blast
  have ar: "around C l r = addrs_at C t" using assms(3) by (auto simp: around_def addrs_at_def t_def)
  have "frame (insert ?d (addrs_at C t)) s s1"
  proof (rule frame_at[OF 1(3)])
    show "{?d, cpar ?d C, ad ?d t} \<subseteq> insert ?d (addrs_at C t)"
      using ad_in[of ?d t] cpar_in[of C ?d] by (cases "C = []") (auto simp: addrs_at_def)
  qed
  then have "frame (insert ?d (around C l r)) s s'"
    using frame_step[of _ s s1 _ s'] 2(4) by (fastforce simp: kept_def ar intro: frame_at)
  moreover have "inorder l @ inorder r = inorder t" using assms(3) by (auto simp: t_def)
  ultimately have "taken s C l r s' t'"
    using 2 unfolding taken_def ar by (simp add: kept_def addrs_at_def)
  moreover have "assoc_rb_tree_extract_node s z = Some s'"
    using at_heap[OF assms(1)] 1(1) 2(1) z d assms(3) by (cases "l = E") (auto simp: assoc_rb_tree_extract_node_def t_def)
  ultimately show ?thesis by blast
qed

lemma extract_node_both:
  assumes "at s C (T c l z k v r)" "rbt_ok (plug C (T c l z k v r))" "l \<noteq> E" "r \<noteq> E"
  shows "\<exists>s' t'. assoc_rb_tree_extract_node s z = Some s' \<and> taken s C l r s' t'"
proof -
  let ?d = "rb_dummy s"
  have z: "z \<noteq> ?d" "ad ?d l \<noteq> ?d" "ad ?d r \<noteq> ?d" using assms(1,3,4) by (auto simp: at_def)
  note h = at_heap[OF assms(1)]
  obtain A cy y ky vy t bs where m: "minimum s (ad ?d r) = Some y" "r = plug A (T cy E y ky vy t)"
    "\<And>u. inorder (plug A u) = inorder u @ bs"
    using leftmost_ok[OF at_right[OF assms(1)] assms(4)] minimum_ok[OF at_right[OF assms(1)] assms(4)] by metis
  let ?C = "A @ FR c l y ky vy # C"
  have at: "at s (A @ FR c l z k v # C) (T cy E y ky vy t)" using assms(1) m(2) by (simp add: at_append at_FR)
  obtain yn where yn: "rb_heap s y = Some yn" "an_color yn = cy" "an_right yn = ad ?d t" using at_heap[OF at] by simp
  obtain s1 where 1: "detach s z y yn = Some s1" "loose s1 C c l z k v y ky vy (plug A t)"
    "t = E \<longrightarrow> rb_parent s1 (rb_dummy s1) = Some (cpar ?d ?C)" "frame (insert ?d (insert y (addrs_at (A @ C) t))) s s1"
    using detach_ok[OF at yn(1)] by blast
  obtain s2 where 2: "splice_node s1 z y = Some s2" "at s2 C (T c l y ky vy (plug A t))" "frame (insert y (addrs_at C l)) s1 s2"
    using splice_node_ok[OF 1(2) assms(3)] by blast
  have d: "rb_dummy s1 = ?d" "rb_dummy s2 = ?d" using 1(4) 2(3) by (auto simp: frame_def)
  have at2: "at s2 ?C t" using 2(2) by (simp add: at_append at_FR)
  have pl: "placed s2 ?C t"
  proof (cases t)
    case E
    have "?d \<notin> insert y (addrs_at C l)" using at2 d by (auto simp: at_def addrs_at_def)
    then show ?thesis using at2 E 1(3) 2(3) d by (auto simp: placed_def rb_parent_def frame_def)
  next
    case (T c l a k v r)
    then show ?thesis using at2 by (simp only: placed_T)
  qed
  have ok: "rbt_ok (plug (A @ FR c l z k v # C) (T cy E y ky vy t))" using assms(2) m(2) by (simp add: plug_append)
  from rbt_ok_place[OF ok] obtain m' where "hgt (T cy E y ky vy t) m'" "chgt ?C m'" "redok (T cy E y ky vy t)"
    "cok ?C cy" "croot ?C" using swap_FR[THEN iffD1] by meson
  note inv = this
  have "if cy = ASSOC_BLACK then \<exists>n. lacking s2 ?C t n else rbt_ok (plug ?C t)"
    by (rule removed[OF pl _ inv(1,3,2,4,5)]) simp_all
  then obtain s' t' where 3: "(if cy = ASSOC_BLACK then delete_fixup s2 (ad ?d t) else Some s2) = Some s'"
    "at s' [] t'" "rbt_ok t'" "kept s2 ?C t s' [] t'"
    using removed_ends[OF _ at2] unfolding d by blast
  have ar: "around C l r = addrs_at ?C t" using m(2) by (auto simp: around_def addrs_at_def)
  have f1: "frame (insert ?d (around C l r)) s s1" "frame (insert ?d (around C l r)) s1 s2"
    by (rule frame_at[OF 1(4)] frame_at[OF 2(3)]; auto simp: ar addrs_at_def)+
  have "frame (insert ?d (around C l r)) s2 s'" using 3(4) by (auto simp: kept_def ar intro: frame_at)
  then have fr: "frame (insert ?d (around C l r)) s s'" using frame_step[OF frame_step[OF f1]] by fastforce
  have "taken s C l r s' t'"
    using 3 fr m unfolding taken_def ar by (simp add: kept_def addrs_at_def plug_append)
  moreover have "assoc_rb_tree_extract_node s z = Some s'"
    using extract_node_two[OF z(1) h _ _ _ yn(1)] z m(1) 1(1) 2(1) 3(1) yn by (simp split: if_splits)
  ultimately show ?thesis by blast
qed

lemma extract_node_ok:
  assumes "at s C (T c l z k v r)" "rbt_ok (plug C (T c l z k v r))"
  shows "\<exists>s' t'. assoc_rb_tree_extract_node s z = Some s' \<and> taken s C l r s' t'"
  using extract_node_one[OF assms] extract_node_both[OF assms] by blast

subsection \<open>The search\<close>

context comparator
begin

lemma find_spot:
  assumes "at s C t" "rb_comp s = cmp" "keys_ordered cmp (inorder t)"
  shows "if \<exists>(x, w) \<in> set (inorder t). cmp key x = 0
    then \<exists>C' c l a k v r. find_rb_tree s (ad (rb_dummy s) t) key = Some a \<and> at s C' (T c l a k v r)
      \<and> plug C' (T c l a k v r) = plug C t \<and> cmp key k = 0
    else find_rb_tree s (ad (rb_dummy s) t) key = Some (rb_dummy s)"
  using assms
proof (induction t arbitrary: C)
  case E
  then show ?case by (simp add: find_rb_tree.simps)
next
  case (T c l a k v r)
  have a: "a \<noteq> rb_dummy s" using T.prems(1) by (auto simp: at_def)
  note h = at_heap[OF T.prems(1)]
  have ord: "keys_ordered cmp (inorder l)" "keys_ordered cmp (inorder r)"
    "\<forall>(y, u) \<in> set (inorder r). cmp y k \<noteq> 1" "\<forall>(y, u) \<in> set (inorder l). cmp k y \<noteq> 1"
    using T.prems(3) by (auto simp: keys_ordered_def sorted_wrt_append)
  consider "cmp key k = 1" | "cmp key k = -1" | "cmp key k = 0" using cmp_range[of key k] by auto
  then show ?case
  proof cases
    case 1
    have "\<forall>(y, u) \<in> set (inorder r). cmp key y \<noteq> 0"
    proof clarify
      fix y u assume "(y, u) \<in> set (inorder r)" "cmp key y = 0"
      then show False using ord(3) cmp_cong[of key y k] 1 by auto
    qed
    then have ex: "(\<exists>(x, w) \<in> set (inorder (T c l a k v r)). cmp key x = 0) \<longleftrightarrow> (\<exists>(x, w) \<in> set (inorder l). cmp key x = 0)"
      using 1 by auto
    have step: "find_rb_tree s (ad (rb_dummy s) (T c l a k v r)) key = find_rb_tree s (ad (rb_dummy s) l) key"
      using a h T.prems(2) 1 by (subst find_rb_tree.simps) (simp add: Let_def)
    have pl: "plug C (T c l a k v r) = plug (FL c a k v r # C) l" by simp
    show ?thesis
      unfolding ex step pl by (rule T.IH(1)[OF at_left[OF T.prems(1)] T.prems(2) ord(1)])
  next
    case 2
    have "\<forall>(y, u) \<in> set (inorder l). cmp key y \<noteq> 0"
    proof clarify
      fix y u assume "(y, u) \<in> set (inorder l)" "cmp key y = 0"
      then show False using ord(4) cmp_cong_right[of key y k] cmp_flip[of k key] 2 by auto
    qed
    then have ex: "(\<exists>(x, w) \<in> set (inorder (T c l a k v r)). cmp key x = 0) \<longleftrightarrow> (\<exists>(x, w) \<in> set (inorder r). cmp key x = 0)"
      using 2 by auto
    have step: "find_rb_tree s (ad (rb_dummy s) (T c l a k v r)) key = find_rb_tree s (ad (rb_dummy s) r) key"
      using a h T.prems(2) 2 by (subst find_rb_tree.simps) (simp add: Let_def)
    have pl: "plug C (T c l a k v r) = plug (FR c l a k v # C) r" by simp
    show ?thesis
      unfolding ex step pl by (rule T.IH(2)[OF at_right[OF T.prems(1)] T.prems(2) ord(2)])
  next
    case 3
    then have "find_rb_tree s (ad (rb_dummy s) (T c l a k v r)) key = Some a"
      using a h T.prems(2) by (simp add: find_rb_tree.simps Let_def)
    with T.prems(1) 3 have "\<exists>C' c' l' a' k' v' r'. find_rb_tree s (ad (rb_dummy s) (T c l a k v r)) key = Some a'
      \<and> at s C' (T c' l' a' k' v' r') \<and> plug C' (T c' l' a' k' v' r') = plug C (T c l a k v r) \<and> cmp key k' = 0" by blast
    then show ?thesis using 3 by simp
  qed
qed

end

lemma entries_extract_at:
  "\<forall>(y, u) \<in> set xs. cmp k y \<noteq> 0 \<Longrightarrow> cmp k x = 0 \<Longrightarrow> entries_extract cmp k (xs @ (x, w) # ys) = Some (w, xs @ ys)"
  by (induction xs) auto

text \<open>A tree on the heap after the removal of the node \<open>z\<close>, which is then freed.\<close>

definition freed :: "('k, 'v) assoc_rb_tree_t \<Rightarrow> ('k, 'v) rbt \<Rightarrow> ('k, 'v) assoc_rb_tree_t \<Rightarrow> ('k, 'v) rbt \<Rightarrow> bool" where
  "freed s t s' t' \<longleftrightarrow> rb_comp s' = rb_comp s \<and> rb_dummy s' = rb_dummy s
     \<and> (\<exists>z \<in> set (addrs t). set (addrs t') = set (addrs t) - {z} \<and> rb_heap s' z = None)
     \<and> (\<forall>a. a \<noteq> rb_dummy s \<longrightarrow> a \<notin> set (addrs t) \<longrightarrow> rb_heap s' a = rb_heap s a)"

lemma remove_ok:
  assumes "rb_tree s (plug C (T c l z k v r))" "inorder (plug C (T c l z k v r)) = xs @ (k, v) # ys"
    and "\<And>u. inorder (plug C u) = as @ inorder u @ bs" "as @ inorder l = xs" "inorder r @ bs = ys"
  shows "\<exists>s1 s2 t'. assoc_rb_tree_extract_node s z = Some s1 \<and> rb_heap s1 z = rb_heap s z
    \<and> free_node_rb_tree s1 z = Some s2 \<and> rb_size s2 \<noteq> 0
    \<and> rb_tree (s2\<lparr>rb_size := rb_size s2 - 1\<rparr>) t' \<and> inorder t' = xs @ ys
    \<and> freed s (plug C (T c l z k v r)) (s2\<lparr>rb_size := rb_size s2 - 1\<rparr>) t'"
proof -
  let ?t = "plug C (T c l z k v r)" and ?d = "rb_dummy s"
  have t: "at s [] ?t" "rbt_ok ?t" "keys_ordered (rb_comp s) (inorder ?t)" "rb_size s = length (inorder ?t)"
    using assms(1) by (auto simp: rb_tree_def)
  have at: "at s C (T c l z k v r)" using t(1) by (simp add: at_plug)
  obtain s1 t' where 1: "assoc_rb_tree_extract_node s z = Some s1" "taken s C l r s1 t'"
    using extract_node_ok[OF at t(2)] by blast
  have z: "z \<notin> insert ?d (around C l r)" using at by (auto simp: at_def around_def)
  have s1: "at s1 [] t'" "rbt_ok t'" "set (addrs t') = around C l r" "inorder t' = xs @ ys"
    "frame (insert ?d (around C l r)) s s1"
    using 1(2) assms(3-5) by (auto simp: taken_def)
  have h: "rb_heap s1 z = rb_heap s z" using s1(5) z by (simp add: frame_def)
  let ?s2 = "s1\<lparr>rb_heap := (rb_heap s1)(z := None)\<rparr>"
  let ?s3 = "?s2\<lparr>rb_size := rb_size ?s2 - 1\<rparr>"
  have z1: "z \<notin> set (addrs t')" "rb_dummy s1 \<noteq> z" using z s1(3,5) by (auto simp: frame_def)
  have f: "free_node_rb_tree s1 z = Some ?s2" using h at_heap[OF at] by (simp add: free_node_rb_tree_def)
  have "at ?s3 [] t'" using s1(1) z1 by (simp add: at_def dummy_ok_def)
  then have "rb_tree ?s3 t'"
    using s1(2,4,5) t(3,4) assms(2) by (auto simp: rb_tree_def frame_def keys_ordered_def sorted_wrt_append)
  moreover have "freed s ?t ?s3 t'"
    using s1(3,5) z by (auto simp: freed_def frame_def around_def)
  ultimately show ?thesis
    using 1(1) h f s1(4,5) t(4) assms(2)
    by (intro exI[of _ s1] exI[of _ ?s2] exI[of _ t']) (auto simp: frame_def)
qed

lemma inorder_at: "\<exists>as bs. (\<forall>u. inorder (plug C u) = as @ inorder u @ bs)
    \<and> inorder (plug C (T c l z k v r)) = (as @ inorder l) @ (k, v) # (inorder r @ bs)"
proof -
  obtain as bs where ab: "\<forall>u. inorder (plug C u) = as @ inorder u @ bs" using inorder_plug[of C] by blast
  then show ?thesis by (intro exI[of _ as] exI[of _ bs]) simp
qed

lemma assoc_rb_tree_free_it_ok:
  assumes "rb_tree s t" "t = plug C (T c l z k v r)"
  shows "\<exists>s' t' xs ys. assoc_rb_tree_free_it s z = Some s' \<and> inorder t = xs @ (k, v) # ys
    \<and> rb_tree s' t' \<and> inorder t' = xs @ ys \<and> freed s t s' t'"
proof -
  obtain as bs where ab: "\<And>u. inorder (plug C u) = as @ inorder u @ bs"
    "inorder t = (as @ inorder l) @ (k, v) # (inorder r @ bs)" using inorder_at[of C c l z k v r] unfolding assms(2) by blast
  have z: "z \<noteq> rb_dummy s" using assms set_addrs_plug[of C "T c l z k v r"] by (auto simp: rb_tree_def at_def)
  obtain s1 s2 t' where r: "assoc_rb_tree_extract_node s z = Some s1" "free_node_rb_tree s1 z = Some s2" "rb_size s2 \<noteq> 0"
    "rb_tree (s2\<lparr>rb_size := rb_size s2 - 1\<rparr>) t'" "inorder t' = (as @ inorder l) @ (inorder r @ bs)"
    "freed s t (s2\<lparr>rb_size := rb_size s2 - 1\<rparr>) t'"
    using remove_ok[OF assms(1)[unfolded assms(2)] ab(2)[unfolded assms(2)] ab(1) refl refl] unfolding assms(2) by blast
  have "assoc_rb_tree_free_it s z = Some (s2\<lparr>rb_size := rb_size s2 - 1\<rparr>)"
    using r(1-3) z by (simp add: assoc_rb_tree_free_it_def)
  then show ?thesis using r(4-6) ab(2) by blast
qed

lemma entries_extract_hit: "entries_extract cmp k t = Some (v, es) \<Longrightarrow> \<exists>(x, w) \<in> set t. cmp k x = 0"
  by (induction t arbitrary: es) (auto split: if_splits bind_splits)

lemma entries_extract_miss: "entries_extract cmp k t = None \<Longrightarrow> \<not> (\<exists>(x, w) \<in> set t. cmp k x = 0)"
  by (induction t) (auto split: if_splits bind_splits)

context comparator
begin

lemma extract_hit:
  assumes "rb_comp s = cmp" "rb_tree s t" "keys_distinct cmp (inorder t)" "entries_extract cmp key (inorder t) = Some (v, es)"
  shows "\<exists>s' t'. assoc_rb_tree_extract s key = Some (Some v, s') \<and> rb_tree s' t' \<and> inorder t' = es \<and> freed s t s' t'"
proof -
  let ?d = "rb_dummy s"
  have t: "at s [] t" "keys_ordered cmp (inorder t)" using assms(1,2) by (auto simp: rb_tree_def)
  have root: "rb_root s = ad ?d t" using at_root[OF t(1)] by simp
  from find_spot[OF t(1) assms(1) t(2), of key] entries_extract_hit[OF assms(4)]
  obtain C c l z k u r where f: "find_rb_tree s (ad ?d t) key = Some z" "at s C (T c l z k u r)"
    "t = plug C (T c l z k u r)" "cmp key k = 0" by auto
  obtain as bs where ab: "\<And>u. inorder (plug C u) = as @ inorder u @ bs"
    "inorder (plug C (T c l z k u r)) = (as @ inorder l) @ (k, u) # (inorder r @ bs)"
    using inorder_at[of C c l z k u r] by blast
  have z: "z \<noteq> ?d" using f(2) by (auto simp: at_def)
  have "cmp key y \<noteq> 0" if "(y, w) \<in> set (as @ inorder l)" for y w
  proof
    assume "cmp key y = 0"
    then have "cmp y k = 0" using f(4) cmp_trans0 cmp_sym0 by blast
    moreover have "cmp y k \<noteq> 0" using assms(3) that by (force simp: f(3) ab(2) keys_distinct_def sorted_wrt_append)
    ultimately show False by simp
  qed
  then have "entries_extract cmp key (inorder t) = Some (u, (as @ inorder l) @ (inorder r @ bs))"
    unfolding f(3) ab(2) by (intro entries_extract_at f(4)) auto
  then have es: "v = u" "es = (as @ inorder l) @ (inorder r @ bs)" using assms(4) by auto
  obtain s1 s2 t' where r: "assoc_rb_tree_extract_node s z = Some s1" "rb_heap s1 z = rb_heap s z"
    "free_node_rb_tree s1 z = Some s2" "rb_size s2 \<noteq> 0" "rb_tree (s2\<lparr>rb_size := rb_size s2 - 1\<rparr>) t'"
    "inorder t' = es" "freed s t (s2\<lparr>rb_size := rb_size s2 - 1\<rparr>) t'"
    using remove_ok[OF assms(2)[unfolded f(3)] ab(2,1) refl refl] unfolding f(3) es by blast
  have "assoc_rb_tree_extract s key = Some (Some v, s2\<lparr>rb_size := rb_size s2 - 1\<rparr>)"
    using f(1) z r(1-4) at_heap[OF f(2)] es(1) by (simp add: assoc_rb_tree_extract_def root)
  then show ?thesis using r(5-7) by blast
qed

lemma extract_miss:
  assumes "rb_comp s = cmp" "rb_tree s t" "entries_extract cmp key (inorder t) = None"
  shows "assoc_rb_tree_extract s key = None"
proof -
  have t: "at s [] t" "keys_ordered cmp (inorder t)" using assms(1,2) by (auto simp: rb_tree_def)
  then show ?thesis
    using find_spot[OF t(1) assms(1) t(2), of key] entries_extract_miss[OF assms(3)] at_root[OF t(1)]
    by (simp add: assoc_rb_tree_extract_def)
qed

end

end
