(* ===== verification/Rb_Iter.thy ===== *)
theory Rb_Iter
  imports Rb_Extract
begin

text \<open>
  Walking a red-black tree: the iterators visit the nodes in order and end, the search finds what
  it finds on the in-order sequence, and the tree is freed node by node.
\<close>

subsection \<open>Iterators\<close>

text \<open>The addresses after the hole, in order.\<close>

fun following :: "('k, 'v) ctxt \<Rightarrow> addr list" where
  "following [] = []"
| "following (FL c a k v r # C) = a # addrs r @ following C"
| "following (FR c l a k v # C) = following C"

fun preceding :: "('k, 'v) ctxt \<Rightarrow> addr list" where
  "preceding [] = []"
| "preceding (FL c a k v r # C) = preceding C"
| "preceding (FR c l a k v # C) = preceding C @ addrs l @ [a]"

lemma addrs_plug: "addrs (plug C t) = preceding C @ addrs t @ following C"
  by (induction C t rule: plug.induct) simp_all

lemma leftmost_first:
  assumes "at s C r" "r \<noteq> E"
  shows "leftmost s (ad (rb_dummy s) r) = Some (first_or (rb_dummy s) (addrs r))"
  using assms
proof (induction r arbitrary: C)
  case (T c l a k v r)
  note h = at_heap[OF T.prems(1)]
  show ?case
  proof (cases "l = E")
    case True
    then show ?thesis using h by (simp add: leftmost.simps)
  next
    case False
    then have "ad (rb_dummy s) l \<noteq> rb_dummy s" "addrs l \<noteq> []" using T.prems(1) by (auto simp: at_def elim: addrs.elims)
    then show ?thesis
      using T.IH(1)[OF at_left[OF T.prems(1)] False] h by (subst leftmost.simps) (simp add: first_append)
  qed
qed simp

lemma minimum_first:
  assumes "at s C r"
  shows "minimum s (ad (rb_dummy s) r) = Some (first_or (rb_dummy s) (addrs r))"
  using minimum_ok[OF assms] leftmost_first[OF assms] by (cases "r = E") (auto simp: minimum_def)

lemma front_first: "at s [] t \<Longrightarrow> assoc_rb_tree_front s = Some (first_or (rb_dummy s) (addrs t))"
  using minimum_first[of s "[]" t] at_root[of s "[]" t] by (simp add: assoc_rb_tree_front_def)

lemma climb_following:
  assumes "at s C t" "t \<noteq> E"
  shows "climb s (ad (rb_dummy s) t) (cpar (rb_dummy s) C) = Some (first_or (rb_dummy s) (following C))"
  using assms
proof (induction C arbitrary: t)
  case Nil
  then show ?case by (simp add: climb.simps)
next
  case (Cons f C)
  show ?case
  proof (cases f)
    case (FL c a k v r)
    have at: "at s C (T c t a k v r)" using Cons.prems(1) FL by (simp add: at_FL)
    then have "a \<noteq> rb_dummy s" by (auto simp: at_def)
    then show ?thesis using FL at_heap[OF at] by (simp add: climb.simps)
  next
    case (FR c l a k v)
    have at: "at s C (T c l a k v t)" using Cons.prems(1) FR by (simp add: at_FR)
    then have "a \<noteq> rb_dummy s" "ad (rb_dummy s) l \<noteq> ad (rb_dummy s) t"
      using Cons.prems(2) ad_in[of "rb_dummy s" l] by (cases t; auto simp: at_def)+
    then show ?thesis
      using FR at_heap[OF at] Cons.IH[OF at] by (subst climb.simps) simp
  qed
qed

lemma next_first:
  assumes "at s C (T c l a k v r)"
  shows "assoc_rb_tree_next s a = Some (first_or (rb_dummy s) (addrs r @ following C))"
proof -
  have a: "a \<noteq> rb_dummy s" "r \<noteq> E \<longrightarrow> ad (rb_dummy s) r \<noteq> rb_dummy s" using assms by (auto simp: at_def)
  show ?thesis
  proof (cases "r = E")
    case True
    then show ?thesis using climb_following[OF assms] at_heap[OF assms] a by (simp add: assoc_rb_tree_next_def)
  next
    case False
    then have "addrs r \<noteq> []" by (cases r) auto
    then show ?thesis
      using minimum_first[OF at_right[OF assms]] at_heap[OF assms] a False
      by (simp add: assoc_rb_tree_next_def first_append)
  qed
qed

fun nodes :: "('k, 'v) rbt \<Rightarrow> (addr \<times> 'k \<times> 'v) list" where
  "nodes E = []"
| "nodes (T c l a k v r) = nodes l @ (a, k, v) # nodes r"

lemma inorder_nodes: "inorder t = map snd (nodes t)"
  by (induction t) simp_all

lemma addrs_nodes: "addrs t = map fst (nodes t)"
  by (induction t) simp_all

lemma following_append: "following (C @ D) = following C @ following D"
  by (induction C rule: following.induct) simp_all

text \<open>Every node is at some place of the tree.\<close>

lemma place_of:
  assumes "nodes t = xs @ (a, k, v) # ys"
  shows "\<exists>C c l r. t = plug C (T c l a k v r) \<and> map fst ys = addrs r @ following C"
  using assms
proof (induction t arbitrary: xs ys)
  case (T c l b k' v' r)
  from T.prems consider "(b, k', v') = (a, k, v)" "nodes r = ys"
    | zs where "nodes l = xs @ (a, k, v) # zs" "ys = zs @ (b, k', v') # nodes r"
    | zs where "nodes r = zs @ (a, k, v) # ys"
    by (auto simp: append_eq_append_conv2 Cons_eq_append_conv append_eq_Cons_conv)
  then show ?case
  proof cases
    case 1
    then show ?thesis by (intro exI[of _ "[]"]) (auto simp: addrs_nodes)
  next
    case 2
    from T.IH(1)[OF 2(1)] obtain C c' l' r' where "l = plug C (T c' l' a k v r')" "map fst zs = addrs r' @ following C" by blast
    then show ?thesis
      using 2(2) by (intro exI[of _ "C @ [FL c b k' v' r]"]) (auto simp: plug_append following_append addrs_nodes[symmetric])
  next
    case 3
    from T.IH(2)[OF 3] obtain C c' l' r' where "r = plug C (T c' l' a k v r')" "map fst ys = addrs r' @ following C" by blast
    then show ?thesis
      by (intro exI[of _ "C @ [FR c l b k' v']"]) (auto simp: plug_append following_append)
  qed
qed simp

lemma node_of:
  assumes "at s [] t" "nodes t = xs @ (a, k, v) # ys"
  shows "assoc_rb_tree_key s a = Some k" "assoc_rb_tree_value s a = Some v"
    "assoc_rb_tree_next s a = Some (first_or (rb_dummy s) (map fst ys))" "a \<noteq> rb_dummy s"
proof -
  obtain C c l r where t: "t = plug C (T c l a k v r)" "map fst ys = addrs r @ following C"
    using place_of[OF assms(2)] by blast
  have at: "at s C (T c l a k v r)" using assms(1) t(1) by (simp add: at_plug)
  show a: "a \<noteq> rb_dummy s" using at by (auto simp: at_def)
  show "assoc_rb_tree_next s a = Some (first_or (rb_dummy s) (map fst ys))" using next_first[OF at] t(2) by simp
  show "assoc_rb_tree_key s a = Some k" "assoc_rb_tree_value s a = Some v"
    using at_heap[OF at] a by (simp_all add: assoc_rb_tree_key_def assoc_rb_tree_value_def)
qed

text \<open>What a search from a node shows, of the entries from there on.\<close>

definition shows_entry :: "('k, 'v) assoc_rb_tree_t \<Rightarrow> addr \<Rightarrow> ('k \<times> 'v) option \<Rightarrow> bool" where
  "shows_entry s it e = (case e of
     None \<Rightarrow> it = assoc_rb_tree_end s
   | Some (k, v) \<Rightarrow> it \<noteq> assoc_rb_tree_end s \<and> assoc_rb_tree_key s it = Some k \<and> assoc_rb_tree_value s it = Some v)"

lemma find_if_from:
  assumes "at s [] t" "nodes t = xs @ ys"
  shows "\<exists>it. find_if_rb_tree s (first_or (rb_dummy s) (map fst ys)) (rb_dummy s) f = Some it
    \<and> shows_entry s it (entries_find_if f (map snd ys))"
  using assms(2)
proof (induction ys arbitrary: xs)
  case Nil
  then show ?case by (simp add: find_if_rb_tree.simps shows_entry_def assoc_rb_tree_end_def)
next
  case (Cons y ys)
  obtain a k v where y: "y = (a, k, v)" by (cases y)
  note n = node_of[OF assms(1) Cons.prems[unfolded y]]
  from Cons.IH[of "xs @ [y]"] Cons.prems obtain it where
    IH: "find_if_rb_tree s (first_or (rb_dummy s) (map fst ys)) (rb_dummy s) f = Some it"
      "shows_entry s it (entries_find_if f (map snd ys))" by auto
  show ?case
  proof (cases "f k")
    case True
    then show ?thesis using n y by (simp add: find_if_rb_tree.simps shows_entry_def assoc_rb_tree_end_def)
  next
    case False
    then show ?thesis using n y IH by (subst find_if_rb_tree.simps) simp
  qed
qed

lemma find_if_ok:
  assumes "at s [] t"
  shows "\<exists>start it. assoc_rb_tree_front s = Some start
    \<and> find_if_rb_tree s start (assoc_rb_tree_end s) f = Some it \<and> shows_entry s it (entries_find_if f (inorder t))"
  using find_if_from[OF assms, of "[]" "nodes t" f] front_first[OF assms]
  by (simp add: addrs_nodes inorder_nodes assoc_rb_tree_end_def)

subsection \<open>Freeing\<close>

lemma rep_cong: "(\<And>a. a \<in> set (addrs t) \<Longrightarrow> h' a = h a) \<Longrightarrow> rep h' d p t = rep h d p t"
  by (induction t arbitrary: p) auto

fun postorder :: "('k, 'v) rbt \<Rightarrow> ('k option \<times> 'v option) list" where
  "postorder E = []"
| "postorder (T c l a k v r) = postorder l @ postorder r @ [(Some k, Some v)]"

lemma mset_postorder: "mset (postorder t) = image_mset (map_prod Some Some) (mset (inorder t))"
  by (induction t) auto

lemma free_all:
  assumes "rep (rb_heap s) (rb_dummy s) p t" "distinct (addrs t)" "rb_dummy s \<notin> set (addrs t)"
  shows "\<exists>s'. depth_first_search_free s (ad (rb_dummy s) t) = Some (s', postorder t) \<and> rb_dummy s' = rb_dummy s
    \<and> rb_heap s' = (\<lambda>a. if a \<in> set (addrs t) then None else rb_heap s a)"
  using assms
proof (induction t arbitrary: s p)
  case E
  then show ?case by (auto simp: depth_first_search_free.simps)
next
  case (T c l a k v r)
  let ?d = "rb_dummy s"
  have n: "rb_heap s a = Some (node k v p (ad ?d l) (ad ?d r) c)" using T.prems(1) by simp
  obtain s1 where 1: "depth_first_search_free s (ad ?d l) = Some (s1, postorder l)" "rb_dummy s1 = ?d"
    "rb_heap s1 = (\<lambda>x. if x \<in> set (addrs l) then None else rb_heap s x)"
    using T.IH(1)[of s a] T.prems by auto
  have "rep (rb_heap s1) ?d a r = rep (rb_heap s) ?d a r" using T.prems(2) by (intro rep_cong) (auto simp: 1(3))
  then obtain s2 where 2: "depth_first_search_free s1 (ad ?d r) = Some (s2, postorder r)" "rb_dummy s2 = ?d"
    "rb_heap s2 = (\<lambda>x. if x \<in> set (addrs r) then None else rb_heap s1 x)"
    using T.IH(2)[of s1 a] T.prems 1(2) by auto
  have "a \<noteq> ?d" "a \<notin> set (addrs l)" "a \<notin> set (addrs r)" using T.prems by auto
  then show ?case
    using n 1 2 by (subst depth_first_search_free.simps) (auto simp: free_node_rb_tree_def fun_eq_iff)
qed

lemma assoc_rb_tree_free_ok:
  assumes "at s [] t"
  shows "\<exists>s' calls. assoc_rb_tree_free s = Some (s', calls)
    \<and> mset calls = image_mset (map_prod Some Some) (mset (inorder t))
    \<and> rb_heap s' = (\<lambda>a. if a \<in> insert (rb_dummy s) (set (addrs t)) then None else rb_heap s a)"
proof -
  have a: "rep (rb_heap s) (rb_dummy s) (rb_dummy s) t" "distinct (addrs t)" "rb_dummy s \<notin> set (addrs t)"
    using assms by (auto simp: at_def)
  obtain n where n: "rb_heap s (rb_dummy s) = Some n" using assms by (auto simp: at_def dummy_ok_def)
  obtain s1 where "depth_first_search_free s (rb_root s) = Some (s1, postorder t)" "rb_dummy s1 = rb_dummy s"
    "rb_heap s1 = (\<lambda>a. if a \<in> set (addrs t) then None else rb_heap s a)"
    using free_all[OF a] at_root[OF assms] by auto
  then show ?thesis
    using n a(3) by (auto simp: assoc_rb_tree_free_def free_node_rb_tree_def mset_postorder)
qed

end
