(* ===== verification/Rb_Properties.thy ===== *)
theory Rb_Properties
  imports Rb_Iter
begin

text \<open>
  The contract of the red-black tree, and a tree with four keys as its witness.  The abstract
  container is the in-order sequence with the operations of \<open>Bimap\<close>.
\<close>

lemma rb_tree_init:
  "new \<noteq> 0 \<Longrightarrow> rb_tree (assoc_rb_tree_init new cmp) E"
  by (auto simp: rb_tree_def at_def assoc_rb_tree_init_def init_node_def dummy_ok_def rbt_ok_def keys_ordered_def)

text \<open>The sample: 20 at the root, 10 on its left, 30 with the red 40 on its right.\<close>

definition sample_rbt :: "(u16, u32) rbt" where
  "sample_rbt = T ASSOC_BLACK (T ASSOC_BLACK E 3 10 100 E) 2 20 200
     (T ASSOC_BLACK E 4 30 300 (T ASSOC_RED E 5 40 400 E))"

definition sample_rb_tree :: "(u16, u32) assoc_rb_tree_t" where
  "sample_rb_tree = \<lparr>rb_heap = [
       1 \<mapsto> (init_node None None)\<lparr>an_color := ASSOC_BLACK\<rparr>,
       2 \<mapsto> node 20 200 1 3 4 ASSOC_BLACK,
       3 \<mapsto> node 10 100 2 1 1 ASSOC_BLACK,
       4 \<mapsto> node 30 300 2 1 5 ASSOC_BLACK,
       5 \<mapsto> node 40 400 4 1 1 ASSOC_RED],
     rb_root = 2, rb_dummy = 1, rb_comp = cmp_uint16_wrapper, rb_size = 4\<rparr>"

lemma sample_tree: "rb_tree sample_rb_tree sample_rbt"
proof -
  have "hgt sample_rbt 2" by (simp add: sample_rbt_def)
  then have "rbt_ok sample_rbt" by (auto simp: rbt_ok_def sample_rbt_def)
  then show ?thesis
    by (simp add: rb_tree_def at_def dummy_ok_def keys_ordered_def sample_rb_tree_def sample_rbt_def
        init_node_def cmp_uint16_wrapper_def)
qed

lemma sample_comp: "comparator (rb_comp sample_rb_tree)"
  by (simp add: sample_rb_tree_def uint16_cmp.comparator_axioms)

lemma sample_inorder: "inorder sample_rbt = [(10, 100), (20, 200), (30, 300), (40, 400)]"
  by (simp add: sample_rbt_def)

lemma sample_distinct: "keys_distinct (rb_comp sample_rb_tree) (inorder sample_rbt)"
  by (simp add: keys_distinct_def sample_inorder sample_rb_tree_def cmp_uint16_wrapper_def)

text \<open>
  C8: Inserting into a red-black tree never fails, not even for a key that is already there: with
  the node at a free address the result is a red-black tree again (ordered, balanced, no red node
  below a red one, parents and the leaf as the code keeps them), its entries in order are those of
  the insertion into the ordered sequence, and no memory but the tree's own nodes changes.
\<close>

theorem rb_insert_refines:
  assumes "comparator (rb_comp s)" "rb_tree s t" "rb_heap s z = None"
  shows "\<exists>s' t'. assoc_rb_tree_insert z s k v = Some s' \<and> rb_tree s' t'
    \<and> inorder t' = entries_insert (rb_comp s) k v (inorder t)
    \<and> set (addrs t') = insert z (set (addrs t)) \<and> rb_dummy s' = rb_dummy s \<and> rb_comp s' = rb_comp s
    \<and> (\<forall>a. a \<notin> insert z (set (addrs t)) \<longrightarrow> rb_heap s' a = rb_heap s a)"
  using assoc_rb_tree_insert_ok[OF assms] by blast

theorem rb_insert_refines_witness:
  "\<exists>s' t'. assoc_rb_tree_insert 6 sample_rb_tree 25 250 = Some s' \<and> rb_tree s' t'
    \<and> inorder t' = [(10, 100), (20, 200), (25, 250), (30, 300), (40, 400)] \<and> rb_size s' = 5"
proof -
  have "rb_heap sample_rb_tree 6 = None" by (simp add: sample_rb_tree_def)
  from rb_insert_refines[OF sample_comp sample_tree this, of 25 250]
  obtain s' t' where "assoc_rb_tree_insert 6 sample_rb_tree 25 250 = Some s'" "rb_tree s' t'"
    "inorder t' = entries_insert (rb_comp sample_rb_tree) 25 250 (inorder sample_rbt)" by blast
  moreover have "entries_insert (rb_comp sample_rb_tree) 25 250 (inorder sample_rbt)
      = [(10, 100), (20, 200), (25, 250), (30, 300), (40, 400)]"
    by (simp add: sample_inorder sample_rb_tree_def cmp_uint16_wrapper_def)
  ultimately show ?thesis by (auto simp: rb_tree_def)
qed

text \<open>
  C7: Extracting a key refines the extraction from the ordered sequence: when the keys are
  distinct, the tree and the sequence agree on whether the key is there, on its value and on what
  is left; the tree stays a red-black tree, one of its nodes is freed and no memory but the tree's
  nodes and its leaf changes.  Without the key the extraction aborts.
\<close>

theorem rb_extract_refines:
  assumes "comparator (rb_comp s)" "rb_tree s t" "keys_distinct (rb_comp s) (inorder t)"
  shows "case entries_extract (rb_comp s) key (inorder t) of
      None \<Rightarrow> assoc_rb_tree_extract s key = None
    | Some (v, es) \<Rightarrow> (\<exists>s' t'. assoc_rb_tree_extract s key = Some (Some v, s') \<and> rb_tree s' t'
        \<and> inorder t' = es \<and> freed s t s' t')"
  using comparator.extract_hit[OF assms(1) refl assms(2,3)] comparator.extract_miss[OF assms(1) refl assms(2)]
  by (auto split: option.split)

theorem rb_extract_refines_witness:
  "(\<exists>s' t'. assoc_rb_tree_extract sample_rb_tree 10 = Some (Some 100, s') \<and> rb_tree s' t'
      \<and> inorder t' = [(20, 200), (30, 300), (40, 400)] \<and> freed sample_rb_tree sample_rbt s' t')
    \<and> assoc_rb_tree_extract sample_rb_tree 15 = None"
proof -
  have e: "entries_extract (rb_comp sample_rb_tree) 10 (inorder sample_rbt) = Some (100, [(20, 200), (30, 300), (40, 400)])"
    "entries_extract (rb_comp sample_rb_tree) 15 (inorder sample_rbt) = None"
    by (simp_all add: sample_inorder sample_rb_tree_def cmp_uint16_wrapper_def)
  note r = rb_extract_refines[OF sample_comp sample_tree sample_distinct]
  show ?thesis using r[of 10] r[of 15] by (simp add: e)
qed

text \<open>
  The loop of a search over a red-black tree, from its front by its iterators, ends on every
  tree for every predicate: at the first entry in order whose key satisfies the predicate, whose
  key and value the iterator then gives, or at the end when there is none.
\<close>

theorem rb_search_ends:
  assumes "rb_tree s t"
  shows "\<exists>start it. assoc_rb_tree_front s = Some start
    \<and> find_if_rb_tree s start (assoc_rb_tree_end s) f = Some it
    \<and> shows_entry s it (entries_find_if f (inorder t))"
  using find_if_ok assms by (auto simp: rb_tree_def)

theorem rb_search_ends_witness:
  "\<exists>start it. assoc_rb_tree_front sample_rb_tree = Some start
    \<and> find_if_rb_tree sample_rb_tree start (assoc_rb_tree_end sample_rb_tree) (\<lambda>k. 15 < k) = Some it
    \<and> assoc_rb_tree_key sample_rb_tree it = Some 20 \<and> assoc_rb_tree_value sample_rb_tree it = Some 200"
  using rb_search_ends[OF sample_tree, of "\<lambda>k. 15 < k"] by (auto simp: sample_inorder shows_entry_def)

text \<open>
  C30: Freeing a red-black tree frees each of its nodes and its leaf exactly once, never reads a
  freed node, hands every key with its value to the callback exactly once, and leaves all other
  memory as it is.
\<close>

theorem rb_free_frees_all:
  assumes "rb_tree s t"
  shows "\<exists>s' calls. assoc_rb_tree_free s = Some (s', calls)
    \<and> mset calls = image_mset (map_prod Some Some) (mset (inorder t))
    \<and> rb_heap s' = (\<lambda>a. if a \<in> insert (rb_dummy s) (set (addrs t)) then None else rb_heap s a)"
  using assoc_rb_tree_free_ok assms by (auto simp: rb_tree_def)

theorem rb_free_frees_all_witness:
  "\<exists>s' calls. assoc_rb_tree_free sample_rb_tree = Some (s', calls)
    \<and> mset calls = {#(Some 10, Some 100), (Some 20, Some 200), (Some 30, Some 300), (Some 40, Some 400)#}
    \<and> rb_heap s' 2 = None \<and> rb_heap s' 5 = None"
  using rb_free_frees_all[OF sample_tree] by (auto simp: sample_inorder sample_rbt_def)

end
