(* ===== verification/Assoc_Reg.thy ===== *)
theory Assoc_Reg
  imports Seq_Iface
begin

text \<open>
  The registry \<^verbatim>\<open>src/src/flexric/src/util/alg_ds/ds/assoc_container/assoc_reg.c\<close>, with its binary
  search \<^verbatim>\<open>alg/lower_bound.c\<close> and the algorithms \<^verbatim>\<open>find_reg\<close> and \<^verbatim>\<open>for_each_reg\<close>: an array of buckets
  in the order of their keys, which grow with every insertion.  Erased buckets stay, without a
  value, until the array is compacted.

  An iterator is the index of a bucket, a bucket that \<^verbatim>\<open>calloc\<close> or \<^verbatim>\<open>memset\<close> cleared is \<open>bucket0\<close>.  The
  size fields count objects in memory and are natural numbers; \<^verbatim>\<open>key_id\<close>, which only counts, keeps
  its 64 bits, and the keys their 32.
\<close>

record 'v registry_bucket_t =
  b_key :: u32
  b_has_value :: bool
  b_val :: "'v option"

record 'v assoc_reg_t =
  rg_arr :: "'v registry_bucket_t list"
  rg_sz :: nat
  rg_cap :: nat
  rg_occ_bucket :: nat
  rg_elm_sz :: nat
  rg_key_id :: u64

definition REG_MIN_SIZE :: nat where "REG_MIN_SIZE = 16"

definition bucket0 :: "'v registry_bucket_t" where
  "bucket0 = \<lparr>b_key = 0, b_has_value = False, b_val = None\<rparr>"

definition dec_size :: "nat \<Rightarrow> nat" where
  "dec_size n = (if n = 0 then 2 ^ 64 - 1 else n - 1)"

definition iterator_in_ds :: "'v assoc_reg_t \<Rightarrow> nat \<Rightarrow> bool" where
  "iterator_in_ds reg it \<longleftrightarrow> it < rg_occ_bucket reg"

subsection \<open>Growing, compacting, shrinking\<close>

partial_function (option) copy_if_loop :: "('b \<Rightarrow> bool) \<Rightarrow> 'b list \<Rightarrow> nat \<Rightarrow> nat \<Rightarrow> 'b list \<Rightarrow> nat
    \<Rightarrow> ('b list \<times> nat) option" where
  "copy_if_loop fp src n i out i_out =
     (if i < n then do {
        b \<leftarrow> peek src i;
        (out, i_out) \<leftarrow> (if fp b then do { assert_c (i_out < length out); Some (out[i_out := b], i_out + 1) }
           else Some (out, i_out));
        copy_if_loop fp src n (i + 1) out i_out
      } else Some (out, i_out))"

definition copy_if :: "'b list \<Rightarrow> nat \<Rightarrow> 'b list \<Rightarrow> ('b \<Rightarrow> bool) \<Rightarrow> ('b list \<times> nat) option" where
  "copy_if it_start n_memb it_output fp = copy_if_loop fp it_start n_memb 0 it_output 0"

partial_function (option) partition_loop :: "('b \<Rightarrow> bool) \<Rightarrow> nat \<Rightarrow> nat \<Rightarrow> nat \<Rightarrow> 'b list
    \<Rightarrow> ('b list \<times> nat) option" where
  "partition_loop fp n i j a =
     (if i < n then do {
        b \<leftarrow> peek a i;
        if fp b then partition_loop fp n (i + 1) (j + 1) (a[j := b])
        else partition_loop fp n (i + 1) j a
      } else Some (a, j))"

definition partition_reg :: "'b list \<Rightarrow> nat \<Rightarrow> ('b \<Rightarrow> bool) \<Rightarrow> ('b list \<times> nat) option" where
  "partition_reg it_start n_memb fp = partition_loop fp n_memb 0 0 it_start"

definition shrink_if_necessary :: "'v assoc_reg_t \<Rightarrow> 'v assoc_reg_t option" where
  "shrink_if_necessary reg =
     (if rg_cap reg = REG_MIN_SIZE \<or> rg_sz reg * 4 > rg_cap reg then Some reg
      else do {
        (arr, idx) \<leftarrow> partition_reg (rg_arr reg) (rg_occ_bucket reg) b_has_value;
        assert_c (idx \<le> rg_occ_bucket reg);
        arr \<leftarrow> fill arr idx (rg_cap reg - idx) bucket0;
        let tmp = replicate (rg_cap reg div 2) bucket0;
        tmp \<leftarrow> blit tmp 0 arr 0 idx;
        Some (reg\<lparr>rg_arr := tmp, rg_occ_bucket := idx, rg_cap := rg_cap reg div 2\<rparr>)
      })"

definition compact_if_necessary :: "'v assoc_reg_t \<Rightarrow> 'v assoc_reg_t option" where
  "compact_if_necessary reg =
     (if rg_sz reg * 2 > rg_occ_bucket reg then Some reg
      else do {
        (arr, idx) \<leftarrow> partition_reg (rg_arr reg) (rg_occ_bucket reg) b_has_value;
        assert_c (idx \<le> rg_occ_bucket reg);
        arr \<leftarrow> fill arr idx (rg_cap reg - idx) bucket0;
        Some (reg\<lparr>rg_arr := arr, rg_occ_bucket := idx\<rparr>)
      })"

definition expand_if_neccesary :: "'v assoc_reg_t \<Rightarrow> 'v assoc_reg_t option" where
  "expand_if_neccesary reg =
     (if rg_occ_bucket reg < rg_cap reg - 1 then Some reg
      else do {
        let tmp_arr = replicate (rg_cap reg * 2) bucket0;
        (tmp_arr, out_idx) \<leftarrow> copy_if (rg_arr reg) (rg_occ_bucket reg) tmp_arr b_has_value;
        Some (reg\<lparr>rg_arr := tmp_arr, rg_occ_bucket := out_idx, rg_cap := rg_cap reg * 2\<rparr>)
      })"

subsection \<open>Operations\<close>

definition assoc_reg_init :: "nat \<Rightarrow> 'v assoc_reg_t" where
  "assoc_reg_init elm_sz = \<lparr>rg_arr = replicate REG_MIN_SIZE bucket0, rg_sz = 0, rg_cap = REG_MIN_SIZE,
     rg_occ_bucket = 0, rg_elm_sz = elm_sz, rg_key_id = 1\<rparr>"

definition assoc_reg_push_back :: "'v assoc_reg_t \<Rightarrow> 'v \<Rightarrow> nat \<Rightarrow> (u32 \<times> 'v assoc_reg_t) option" where
  "assoc_reg_push_back reg val elm_sz = do {
     assert_c (elm_sz = rg_elm_sz reg);
     reg \<leftarrow> expand_if_neccesary reg;
     let b = rg_occ_bucket reg;
     let key = ucast (rg_key_id reg);
     assert_c (b < length (rg_arr reg));
     let reg = reg\<lparr>rg_arr := (rg_arr reg)[b := \<lparr>b_key = key, b_has_value = True, b_val = Some val\<rparr>]\<rparr>;
     assert_c (rg_key_id reg \<noteq> - 1);
     Some (key, reg\<lparr>rg_key_id := rg_key_id reg + 1, rg_occ_bucket := b + 1, rg_sz := rg_sz reg + 1\<rparr>)
   }"

definition assoc_reg_key :: "'v assoc_reg_t \<Rightarrow> nat \<Rightarrow> u32 option" where
  "assoc_reg_key reg it = do {
     assert_c (iterator_in_ds reg it);
     b \<leftarrow> peek (rg_arr reg) it;
     assert_c (b_has_value b);
     Some (b_key b)
   }"

definition assoc_reg_value :: "'v assoc_reg_t \<Rightarrow> nat \<Rightarrow> 'v option" where
  "assoc_reg_value reg it = do {
     assert_c (iterator_in_ds reg it);
     b \<leftarrow> peek (rg_arr reg) it;
     assert_c (b_has_value b);
     b_val b
   }"

definition assoc_reg_size :: "'v assoc_reg_t \<Rightarrow> nat" where
  "assoc_reg_size reg = rg_sz reg"

definition assoc_reg_end :: "'v assoc_reg_t \<Rightarrow> nat" where
  "assoc_reg_end reg = rg_occ_bucket reg"

text \<open>From \<open>idx\<close> on, the first bucket with a value, \<open>fin\<close> when there is none before it.\<close>

partial_function (option) skip_empty :: "'v registry_bucket_t list \<Rightarrow> nat \<Rightarrow> nat \<Rightarrow> nat option" where
  "skip_empty a fin b =
     (if b \<noteq> fin then do {
        n \<leftarrow> peek a b;
        if b_has_value n then Some b else skip_empty a fin (b + 1)
      } else Some b)"

definition assoc_reg_front :: "'v assoc_reg_t \<Rightarrow> nat option" where
  "assoc_reg_front reg =
     (if rg_occ_bucket reg = 0 then Some 0 else skip_empty (rg_arr reg) (rg_occ_bucket reg) 0)"

definition assoc_reg_next :: "'v assoc_reg_t \<Rightarrow> nat \<Rightarrow> nat option" where
  "assoc_reg_next reg it = do {
     b \<leftarrow> peek (rg_arr reg) it;
     assert_c (b_has_value b);
     assert_c (iterator_in_ds reg it);
     skip_empty (rg_arr reg) (assoc_reg_end reg) (it + 1)
   }"

text \<open>The list holds the values that the callback frees, in order.\<close>

partial_function (option) erase_loop :: "'v assoc_reg_t \<Rightarrow> nat \<Rightarrow> nat \<Rightarrow> ('v assoc_reg_t \<times> 'v option list) option" where
  "erase_loop reg start_it end_it =
     (if start_it \<noteq> end_it then do {
        let b = start_it;
        start_it \<leftarrow> assoc_reg_next reg start_it;
        bn \<leftarrow> peek (rg_arr reg) b;
        let reg = reg\<lparr>rg_arr := (rg_arr reg)[b := bn\<lparr>b_has_value := False\<rparr>], rg_sz := dec_size (rg_sz reg)\<rparr>;
        (reg, freed) \<leftarrow> erase_loop reg start_it end_it;
        Some (reg, b_val bn # freed)
      } else Some (reg, []))"

definition assoc_reg_erase :: "'v assoc_reg_t \<Rightarrow> nat \<Rightarrow> nat \<Rightarrow> ('v assoc_reg_t \<times> 'v option list) option" where
  "assoc_reg_erase reg start_it end_it =
     (if start_it = end_it then Some (reg, [])
      else do {
        assert_c (iterator_in_ds reg start_it);
        (reg, freed) \<leftarrow> erase_loop reg start_it end_it;
        reg \<leftarrow> compact_if_necessary reg;
        reg \<leftarrow> shrink_if_necessary reg;
        Some (reg, freed)
      })"

partial_function (option) remove_if_loop :: "('v option \<Rightarrow> bool) \<Rightarrow> 'v assoc_reg_t \<Rightarrow> nat
    \<Rightarrow> ('v assoc_reg_t \<times> u32 list) option" where
  "remove_if_loop f reg i =
     (if i < rg_occ_bucket reg then do {
        b \<leftarrow> peek (rg_arr reg) i;
        if b_has_value b \<and> f (b_val b) then do {
          let reg = reg\<lparr>rg_arr := (rg_arr reg)[i := b\<lparr>b_has_value := False\<rparr>], rg_sz := dec_size (rg_sz reg)\<rparr>;
          (reg, arr) \<leftarrow> remove_if_loop f reg (i + 1);
          Some (reg, b_key b # arr)
        } else remove_if_loop f reg (i + 1)
      } else Some (reg, []))"

definition remove_if_range_reg :: "'v assoc_reg_t \<Rightarrow> ('v option \<Rightarrow> bool) \<Rightarrow> ('v assoc_reg_t \<times> u32 list) option" where
  "remove_if_range_reg reg f = do {
     (reg, arr) \<leftarrow> remove_if_loop f reg 0;
     reg \<leftarrow> compact_if_necessary reg;
     reg \<leftarrow> shrink_if_necessary reg;
     Some (reg, arr)
   }"

text \<open>The assertions that the code's own test suite makes after each operation.\<close>

definition test_invariants_registry_hold :: "'v assoc_reg_t \<Rightarrow> bool" where
  "test_invariants_registry_hold reg \<longleftrightarrow> rg_cap reg \<ge> rg_occ_bucket reg \<and> rg_cap reg \<ge> rg_sz reg
     \<and> sorted_wrt (<) (-1 # map (\<lambda>b. uint (b_key b)) (take (rg_occ_bucket reg) (rg_arr reg)))
     \<and> length (filter b_has_value (take (rg_occ_bucket reg) (rg_arr reg))) = rg_sz reg"

subsection \<open>Search\<close>

text \<open>
  The length that is left is an \<^verbatim>\<open>int\<close>: a range of 2^31 buckets or more starts with a negative one (or
  with its low 32 bits), and the loop does not look at it.
\<close>

partial_function (option) lower_bound_loop :: "'v registry_bucket_t list \<Rightarrow> nat \<Rightarrow> u32 \<Rightarrow> nat \<Rightarrow> int \<Rightarrow> nat option" where
  "lower_bound_loop a start_it key lower len =
     (if len > 0 then do {
        let half = len div 2;
        let idx = lower + nat half;
        b \<leftarrow> peek a (start_it + idx);
        if b_key b < key then lower_bound_loop a start_it key (idx + 1) (len - half - 1)
        else lower_bound_loop a start_it key lower half
      } else Some lower)"

definition lower_bound_reg :: "'v assoc_reg_t \<Rightarrow> nat \<Rightarrow> nat \<Rightarrow> u32 \<Rightarrow> nat option" where
  "lower_bound_reg reg start_it end_it key =
     (if start_it = end_it then Some end_it
      else do {
        let sz = end_it - start_it;
        assert_c (start_it \<le> end_it \<and> sz < rg_cap reg);
        let len = sint (of_nat sz :: u32);
        lower \<leftarrow> lower_bound_loop (rg_arr reg) start_it key 0 len;
        Some (start_it + lower)
      })"

definition find_reg :: "'v assoc_reg_t \<Rightarrow> nat \<Rightarrow> nat \<Rightarrow> u32 \<Rightarrow> nat option" where
  "find_reg reg start_it end_it key = do {
     assert_c (key > 0);
     if start_it = end_it then Some end_it
     else do {
       it \<leftarrow> lower_bound_reg reg start_it end_it key;
       assert_c (it \<le> end_it);
       if it = end_it then Some end_it
       else do {
         b \<leftarrow> peek (rg_arr reg) it;
         if \<not> b_has_value b \<or> b_key b \<noteq> key then Some end_it else Some it
       }
     }
   }"

text \<open>The callback gets the bucket and may change the value in it.\<close>

partial_function (option) for_each_loop :: "('v option \<Rightarrow> 'v option) \<Rightarrow> 'v assoc_reg_t \<Rightarrow> nat \<Rightarrow> nat
    \<Rightarrow> 'v assoc_reg_t option" where
  "for_each_loop f reg start_it end_it =
     (if start_it \<noteq> end_it then do {
        b \<leftarrow> peek (rg_arr reg) start_it;
        let reg = (if b_has_value b then reg\<lparr>rg_arr := (rg_arr reg)[start_it := b\<lparr>b_val := f (b_val b)\<rparr>]\<rparr> else reg);
        for_each_loop f reg (start_it + 1) end_it
      } else Some reg)"

definition for_each_reg :: "'v assoc_reg_t \<Rightarrow> nat \<Rightarrow> nat \<Rightarrow> ('v option \<Rightarrow> 'v option) \<Rightarrow> 'v assoc_reg_t option" where
  "for_each_reg reg start_it end_it f = do {
     assert_c (start_it < rg_cap reg);
     for_each_loop f reg start_it end_it
   }"

end
