(* ===== verification/Reg_Laws.thy ===== *)
theory Reg_Laws
  imports Assoc_Reg
begin

text \<open>
  Laws of the registry: what its iterators visit, the binary search as a linear one, and each
  operation on the entries that are alive.
\<close>

subsection \<open>Filtering in place\<close>

lemma copy_if_loop_ok:
  assumes "i \<le> n" "n \<le> length src" "k + length (filter fp (take (n - i) (drop i src))) \<le> length out"
  shows "\<exists>out'. copy_if_loop fp src n i out k = Some (out', k + length (filter fp (take (n - i) (drop i src))))
    \<and> length out' = length out
    \<and> take (k + length (filter fp (take (n - i) (drop i src)))) out' = take k out @ filter fp (take (n - i) (drop i src))"
  using assms
proof (induction "n - i" arbitrary: i k out)
  case 0
  then show ?case by (simp add: copy_if_loop.simps)
next
  case (Suc d)
  then have lt: "i < n" "i < length src" by auto
  have s: "take (n - i) (drop i src) = src ! i # take (n - Suc i) (drop (Suc i) src)"
    using lt by (simp add: Cons_nth_drop_Suc[symmetric] take_Cons' Suc_diff_Suc[symmetric])
  show ?case
  proof (cases "fp (src ! i)")
    case True
    have k: "k < length out" using Suc.prems(3) s True by simp
    from Suc.hyps(1)[of "Suc i" "Suc k" "out[k := src ! i]"] Suc.hyps(2) Suc.prems lt s True
    show ?thesis using lt k by (subst copy_if_loop.simps) (simp add: take_Suc_conv_app_nth)
  next
    case False
    from Suc.hyps(1)[of "Suc i" k out] Suc.hyps(2) Suc.prems lt s False
    show ?thesis using lt by (subst copy_if_loop.simps) simp
  qed
qed

lemma copy_if_ok:
  assumes "n \<le> length src" "length (filter fp (take n src)) \<le> length out"
  shows "\<exists>out'. copy_if src n out fp = Some (out', length (filter fp (take n src))) \<and> length out' = length out
    \<and> take (length (filter fp (take n src))) out' = filter fp (take n src)"
  using copy_if_loop_ok[of 0 n src 0 fp out] assms by (simp add: copy_if_def)

lemma partition_loop_ok:
  assumes "j \<le> i" "i \<le> n" "n \<le> length a"
  shows "\<exists>a'. partition_loop fp n i j a = Some (a', j + length (filter fp (take (n - i) (drop i a))))
    \<and> length a' = length a
    \<and> take (j + length (filter fp (take (n - i) (drop i a)))) a' = take j a @ filter fp (take (n - i) (drop i a))"
  using assms
proof (induction "n - i" arbitrary: i j a)
  case 0
  then show ?case by (simp add: partition_loop.simps)
next
  case (Suc d)
  then have lt: "i < n" "i < length a" by auto
  have s: "take (n - i) (drop i a) = a ! i # take (n - Suc i) (drop (Suc i) a)"
    using lt by (simp add: Cons_nth_drop_Suc[symmetric] take_Cons' Suc_diff_Suc[symmetric])
  show ?case
  proof (cases "fp (a ! i)")
    case True
    have k: "j < length a" using Suc.prems lt by simp
    have "drop (Suc i) (a[j := a ! i]) = drop (Suc i) a" using Suc.prems by simp
    with Suc.hyps(1)[of "Suc i" "Suc j" "a[j := a ! i]"] Suc.hyps(2) Suc.prems lt s True
    show ?thesis using lt k by (subst partition_loop.simps) (simp add: take_Suc_conv_app_nth)
  next
    case False
    from Suc.hyps(1)[of "Suc i" j a] Suc.hyps(2) Suc.prems lt s False
    show ?thesis using lt by (subst partition_loop.simps) simp
  qed
qed

lemma partition_reg_ok:
  assumes "n \<le> length a"
  shows "\<exists>a'. partition_reg a n fp = Some (a', length (filter fp (take n a))) \<and> length a' = length a
    \<and> take (length (filter fp (take n a))) a' = filter fp (take n a)"
  using partition_loop_ok[of 0 0 n a fp] assms by (simp add: partition_reg_def)

subsection \<open>The buckets that are alive\<close>

definition alive :: "'v assoc_reg_t \<Rightarrow> 'v registry_bucket_t list" where
  "alive reg = filter b_has_value (take (rg_occ_bucket reg) (rg_arr reg))"

definition entry_of :: "'v registry_bucket_t \<Rightarrow> u32 \<times> 'v" where
  "entry_of b = (b_key b, the (b_val b))"

definition reg_entries :: "'v assoc_reg_t \<Rightarrow> (u32 \<times> 'v) list" where
  "reg_entries reg = map entry_of (alive reg)"

text \<open>The shape of the array, with room for one more bucket, and its keys.\<close>

definition reg_keys :: "'v assoc_reg_t \<Rightarrow> u32 list" where
  "reg_keys reg = map b_key (take (rg_occ_bucket reg) (rg_arr reg))"

definition reg_inv :: "'v assoc_reg_t \<Rightarrow> bool" where
  "reg_inv reg \<longleftrightarrow> length (rg_arr reg) = rg_cap reg \<and> (\<exists>k. rg_cap reg = REG_MIN_SIZE * 2 ^ k)
     \<and> rg_occ_bucket reg < rg_cap reg \<and> rg_sz reg = length (alive reg)
     \<and> sorted_wrt (<) (reg_keys reg)
     \<and> (\<forall>key \<in> set (reg_keys reg). 0 < key \<and> unat key < unat (rg_key_id reg))
     \<and> (\<forall>b \<in> set (alive reg). b_val b \<noteq> None) \<and> 0 < rg_key_id reg \<and> unat (rg_key_id reg) \<le> 2 ^ 32"

lemma reg_inv_init: "reg_inv (assoc_reg_init elm_sz)" "alive (assoc_reg_init elm_sz) = []"
  by (auto simp: reg_inv_def assoc_reg_init_def alive_def reg_keys_def REG_MIN_SIZE_def intro: exI[of _ 0])

text \<open>A registry that holds just the living buckets.\<close>

lemma repacked:
  assumes "reg_inv reg" "length a = c" "take (length (alive reg)) a = alive reg" "c = REG_MIN_SIZE * 2 ^ k"
    and "length (alive reg) < c"
  shows "reg_inv (reg\<lparr>rg_arr := a, rg_occ_bucket := length (alive reg), rg_cap := c\<rparr>)"
    "alive (reg\<lparr>rg_arr := a, rg_occ_bucket := length (alive reg), rg_cap := c\<rparr>) = alive reg"
proof -
  let ?r = "reg\<lparr>rg_arr := a, rg_occ_bucket := length (alive reg), rg_cap := c\<rparr>"
  show l: "alive ?r = alive reg" using assms(3) by (simp add: alive_def)
  have "reg_keys ?r = map b_key (alive reg)" using assms(3) by (simp add: reg_keys_def)
  moreover have "sorted_wrt (<) (map b_key (alive reg))" "set (map b_key (alive reg)) \<subseteq> set (reg_keys reg)"
    using assms(1) sorted_wrt_filter[of "\<lambda>x y. b_key x < b_key y" _ b_has_value]
    by (auto simp: reg_inv_def reg_keys_def alive_def sorted_wrt_map)
  ultimately show "reg_inv ?r" using assms l unfolding reg_inv_def by auto
qed

lemma alive_le: "length (alive reg) \<le> rg_occ_bucket reg"
  using length_filter_le[of b_has_value "take (rg_occ_bucket reg) (rg_arr reg)"] by (auto simp: alive_def)

lemma cap_pow: "reg_inv reg \<Longrightarrow> \<exists>k. rg_cap reg = REG_MIN_SIZE * 2 ^ k \<and> 16 \<le> rg_cap reg"
  by (auto simp: reg_inv_def REG_MIN_SIZE_def)

lemma expand_ok:
  assumes "reg_inv reg"
  shows "\<exists>r. expand_if_neccesary reg = Some r \<and> reg_inv r \<and> alive r = alive reg \<and> rg_occ_bucket r < rg_cap r - 1
    \<and> rg_key_id r = rg_key_id reg \<and> rg_elm_sz r = rg_elm_sz reg"
proof (cases "rg_occ_bucket reg < rg_cap reg - 1")
  case True
  then show ?thesis using assms by (simp add: expand_if_neccesary_def)
next
  case False
  obtain k where k: "rg_cap reg = REG_MIN_SIZE * 2 ^ k" "16 \<le> rg_cap reg" using cap_pow[OF assms] by blast
  have inv: "length (rg_arr reg) = rg_cap reg" "rg_occ_bucket reg < rg_cap reg" using assms by (auto simp: reg_inv_def)
  note lv = alive_def[of reg]
  obtain a where a: "copy_if (rg_arr reg) (rg_occ_bucket reg) (replicate (rg_cap reg * 2) bucket0) b_has_value
      = Some (a, length (alive reg))" "length a = rg_cap reg * 2" "take (length (alive reg)) a = alive reg"
    using copy_if_ok[of "rg_occ_bucket reg" "rg_arr reg" b_has_value "replicate (rg_cap reg * 2) bucket0"]
      inv alive_le[of reg] unfolding lv by auto
  have "rg_cap reg * 2 = REG_MIN_SIZE * 2 ^ Suc k" using k by simp
  from repacked[OF assms a(2,3) this] alive_le[of reg] inv
  have "reg_inv (reg\<lparr>rg_arr := a, rg_occ_bucket := length (alive reg), rg_cap := rg_cap reg * 2\<rparr>)"
    "alive (reg\<lparr>rg_arr := a, rg_occ_bucket := length (alive reg), rg_cap := rg_cap reg * 2\<rparr>) = alive reg" by auto
  then show ?thesis using False a(1) alive_le[of reg] inv k by (auto simp: expand_if_neccesary_def)
qed

lemma packed:
  assumes "reg_inv reg"
  shows "\<exists>a a'. partition_reg (rg_arr reg) (rg_occ_bucket reg) b_has_value = Some (a, length (alive reg))
    \<and> fill a (length (alive reg)) (rg_cap reg - length (alive reg)) bucket0 = Some a' \<and> length a' = rg_cap reg
    \<and> take (length (alive reg)) a' = alive reg"
proof -
  have inv: "length (rg_arr reg) = rg_cap reg" "rg_occ_bucket reg < rg_cap reg" using assms by (auto simp: reg_inv_def)
  obtain a where a: "partition_reg (rg_arr reg) (rg_occ_bucket reg) b_has_value = Some (a, length (alive reg))"
    "length a = rg_cap reg" "take (length (alive reg)) a = alive reg"
    using partition_reg_ok[of "rg_occ_bucket reg" "rg_arr reg" b_has_value] inv unfolding alive_def by auto
  moreover have "length (alive reg) \<le> rg_cap reg" using alive_le[of reg] inv by simp
  ultimately show ?thesis
    by (intro exI[of _ a] exI[of _ "alive reg @ replicate (rg_cap reg - length (alive reg)) bucket0"])
      (simp add: fill_def blit_def)
qed

lemma compact_ok:
  assumes "reg_inv reg"
  shows "\<exists>r. compact_if_necessary reg = Some r \<and> reg_inv r \<and> alive r = alive reg
    \<and> rg_key_id r = rg_key_id reg \<and> rg_elm_sz r = rg_elm_sz reg"
proof (cases "rg_sz reg * 2 > rg_occ_bucket reg")
  case True
  then show ?thesis using assms by (simp add: compact_if_necessary_def)
next
  case False
  obtain k where k: "rg_cap reg = REG_MIN_SIZE * 2 ^ k" using cap_pow[OF assms] by blast
  obtain a a' where a: "partition_reg (rg_arr reg) (rg_occ_bucket reg) b_has_value = Some (a, length (alive reg))"
    "fill a (length (alive reg)) (rg_cap reg - length (alive reg)) bucket0 = Some a'" "length a' = rg_cap reg"
    "take (length (alive reg)) a' = alive reg" using packed[OF assms] by blast
  have lt: "length (alive reg) < rg_cap reg" using assms alive_le[of reg] by (simp add: reg_inv_def)
  have eq: "reg\<lparr>rg_arr := a', rg_occ_bucket := length (alive reg), rg_cap := rg_cap reg\<rparr>
      = reg\<lparr>rg_arr := a', rg_occ_bucket := length (alive reg)\<rparr>" by (cases reg) simp
  note r = repacked[OF assms a(3,4) k lt, unfolded eq]
  then show ?thesis using False a r alive_le[of reg] by (simp add: compact_if_necessary_def)
qed

lemma shrink_ok:
  assumes "reg_inv reg"
  shows "\<exists>r. shrink_if_necessary reg = Some r \<and> reg_inv r \<and> alive r = alive reg
    \<and> rg_key_id r = rg_key_id reg \<and> rg_elm_sz r = rg_elm_sz reg"
proof (cases "rg_cap reg = REG_MIN_SIZE \<or> rg_sz reg * 4 > rg_cap reg")
  case True
  then show ?thesis using assms by (simp add: shrink_if_necessary_def)
next
  case False
  obtain k where k: "rg_cap reg = REG_MIN_SIZE * 2 ^ k" using cap_pow[OF assms] by blast
  with False obtain k' where k': "k = Suc k'" by (cases k) auto
  obtain a a' where a: "partition_reg (rg_arr reg) (rg_occ_bucket reg) b_has_value = Some (a, length (alive reg))"
    "fill a (length (alive reg)) (rg_cap reg - length (alive reg)) bucket0 = Some a'" "length a' = rg_cap reg"
    "take (length (alive reg)) a' = alive reg" using packed[OF assms] by blast
  have c: "rg_cap reg div 2 = REG_MIN_SIZE * 2 ^ k'" using k k' by simp
  have le: "length (alive reg) * 4 \<le> rg_cap reg" using False assms by (simp add: reg_inv_def)
  have lt: "length (alive reg) < rg_cap reg div 2" proof -
    define p :: nat where "p = 2 ^ k'"
    have "0 < p" "rg_cap reg = 32 * p" "rg_cap reg div 2 = 16 * p" using k k' by (simp_all add: p_def REG_MIN_SIZE_def)
    with le show ?thesis by linarith
  qed
  let ?t = "take (length (alive reg)) a' @ drop (length (alive reg)) (replicate (rg_cap reg div 2) bucket0)"
  have t: "blit (replicate (rg_cap reg div 2) bucket0) 0 a' 0 (length (alive reg)) = Some ?t"
    using a(3) lt by (simp add: blit_def)
  have len: "length ?t = rg_cap reg div 2" and tk: "take (length (alive reg)) ?t = alive reg"
    using a(3,4) lt by (simp_all add: min_absorb2)
  note r = repacked[OF assms len tk c lt]
  show ?thesis using False a(1,2) t r alive_le[of reg] by (auto simp: shrink_if_necessary_def Let_def)
qed

subsection \<open>Insertion\<close>

lemma unat_key: "unat (i :: u64) < 2 ^ 32 \<Longrightarrow> unat (ucast i :: u32) = unat i"
  by (simp add: unsigned_ucast_eq take_bit_nat_eq_self)

lemma push_alive:
  assumes "reg_inv reg" "rg_key_id reg \<noteq> - 1" "elm_sz = rg_elm_sz reg"
  shows "\<exists>e r. assoc_reg_push_back reg v elm_sz = Some (ucast (rg_key_id reg), r)
    \<and> reg_inv e \<and> rg_key_id e = rg_key_id reg \<and> alive e = alive reg \<and> rg_cap r = rg_cap e
    \<and> length (rg_arr r) = rg_cap e \<and> rg_sz r = rg_sz e + 1 \<and> rg_occ_bucket r < rg_cap e
    \<and> alive r = alive e @ [\<lparr>b_key = ucast (rg_key_id reg), b_has_value = True, b_val = Some v\<rparr>]
    \<and> reg_keys r = reg_keys e @ [ucast (rg_key_id reg)]
    \<and> rg_key_id r = rg_key_id reg + 1 \<and> rg_elm_sz r = rg_elm_sz reg"
proof -
  obtain e where e: "expand_if_neccesary reg = Some e" "reg_inv e" "alive e = alive reg" "rg_occ_bucket e < rg_cap e - 1"
    "rg_key_id e = rg_key_id reg" "rg_elm_sz e = rg_elm_sz reg" using expand_ok[OF assms(1)] by blast
  let ?b = "\<lparr>b_key = ucast (rg_key_id reg), b_has_value = True, b_val = Some v\<rparr>"
  let ?r = "e\<lparr>rg_arr := (rg_arr e)[rg_occ_bucket e := ?b], rg_key_id := rg_key_id e + 1,
    rg_occ_bucket := rg_occ_bucket e + 1, rg_sz := rg_sz e + 1\<rparr>"
  have inv: "length (rg_arr e) = rg_cap e" "rg_occ_bucket e < length (rg_arr e)" using e(2) by (auto simp: reg_inv_def)
  have tk: "take (Suc (rg_occ_bucket e)) ((rg_arr e)[rg_occ_bucket e := ?b]) = take (rg_occ_bucket e) (rg_arr e) @ [?b]"
    using inv(2) by (simp add: take_Suc_conv_app_nth)
  have "alive ?r = alive e @ [?b]" "reg_keys ?r = reg_keys e @ [ucast (rg_key_id reg)]"
    using tk by (simp_all add: alive_def reg_keys_def)
  moreover have "assoc_reg_push_back reg v elm_sz = Some (ucast (rg_key_id reg), ?r)"
    using e(1,5,6) inv assms(2,3) by (simp add: assoc_reg_push_back_def Let_def)
  ultimately show ?thesis using e inv by (intro exI[of _ e] exI[of _ ?r]) simp
qed

lemma push_ok:
  assumes "reg_inv reg" "unat (rg_key_id reg) < 2 ^ 32" "elm_sz = rg_elm_sz reg"
  shows "\<exists>r. assoc_reg_push_back reg v elm_sz = Some (ucast (rg_key_id reg), r) \<and> reg_inv r
    \<and> alive r = alive reg @ [\<lparr>b_key = ucast (rg_key_id reg), b_has_value = True, b_val = Some v\<rparr>]
    \<and> rg_key_id r = rg_key_id reg + 1 \<and> rg_elm_sz r = rg_elm_sz reg"
proof -
  have "rg_key_id reg \<noteq> - 1" using assms(2) by (auto simp: unsigned_minus_1_eq_mask mask_eq_exp_minus_1)
  from push_alive[OF assms(1) this assms(3), of v] obtain e r where
    r: "assoc_reg_push_back reg v elm_sz = Some (ucast (rg_key_id reg), r)" "alive e = alive reg"
      "alive r = alive e @ [\<lparr>b_key = ucast (rg_key_id reg), b_has_value = True, b_val = Some v\<rparr>]"
      "rg_key_id r = rg_key_id reg + 1" "rg_elm_sz r = rg_elm_sz reg"
    and e: "reg_inv e" "rg_key_id e = rg_key_id reg" "rg_cap r = rg_cap e" "length (rg_arr r) = rg_cap e"
      "rg_sz r = rg_sz e + 1" "rg_occ_bucket r < rg_cap e" "reg_keys r = reg_keys e @ [ucast (rg_key_id reg)]" by blast
  have kid: "unat (rg_key_id reg + 1) = unat (rg_key_id reg) + 1"
    using assms(2) by (simp add: unat_word_ariths)
  have k32: "unat (ucast (rg_key_id reg) :: u32) = unat (rg_key_id reg)" by (rule unat_key[OF assms(2)])
  have pos: "0 < unat (rg_key_id reg)" using assms(1) by (simp add: reg_inv_def word_less_nat_alt)
  have "reg_inv r"
    unfolding reg_inv_def r(3,4) e(3-5,7)
    using e(1,2,6) assms(2) kid k32 pos
    by (auto simp: reg_inv_def sorted_wrt_append word_less_nat_alt)
  then show ?thesis using r by auto
qed

subsection \<open>Iterators\<close>

definition live_idx :: "'v assoc_reg_t \<Rightarrow> nat list" where
  "live_idx reg = filter (\<lambda>i. b_has_value (rg_arr reg ! i)) [0..<rg_occ_bucket reg]"

definition reg_iter :: "'v assoc_reg_t \<Rightarrow> nat \<Rightarrow> nat" where
  "reg_iter reg i = first_or (rg_occ_bucket reg) (drop i (live_idx reg))"

lemma alive_idx:
  assumes "reg_inv reg"
  shows "alive reg = map (\<lambda>i. rg_arr reg ! i) (live_idx reg)"
proof -
  have "rg_occ_bucket reg \<le> length (rg_arr reg)" using assms by (simp add: reg_inv_def)
  then have "take (rg_occ_bucket reg) (rg_arr reg) = map (\<lambda>i. rg_arr reg ! i) [0..<rg_occ_bucket reg]"
    by (intro nth_equalityI) auto
  then show ?thesis by (simp add: alive_def live_idx_def filter_map o_def)
qed

lemma length_alive: "reg_inv reg \<Longrightarrow> length (alive reg) = length (live_idx reg)"
  by (simp add: alive_idx)

lemma live_idx_sorted: "sorted_wrt (<) (live_idx reg)"
  by (simp add: live_idx_def sorted_wrt_filter)

lemma live_idx_set: "i \<in> set (live_idx reg) \<longleftrightarrow> i < rg_occ_bucket reg \<and> b_has_value (rg_arr reg ! i)"
  by (auto simp: live_idx_def)

text \<open>After an index of the list come those that are greater.\<close>

lemma live_idx_tail:
  assumes "live_idx reg = xs @ a # ys"
  shows "ys = filter (\<lambda>i. b_has_value (rg_arr reg ! i)) [Suc a..<rg_occ_bucket reg]"
proof -
  have a: "a < rg_occ_bucket reg" "b_has_value (rg_arr reg ! a)" using assms live_idx_set[of a reg] by auto
  let ?f = "filter (\<lambda>i. b_has_value (rg_arr reg ! i))"
  have "[0..<rg_occ_bucket reg] = [0..<a] @ a # [Suc a..<rg_occ_bucket reg]"
    using a(1) upt_add_eq_append[of 0 a "rg_occ_bucket reg - a"] by (simp add: upt_conv_Cons)
  then have "xs @ a # ys = ?f [0..<a] @ a # ?f [Suc a..<rg_occ_bucket reg]"
    using assms a(2) by (simp add: live_idx_def)
  moreover have "a \<notin> set xs" "a \<notin> set ys" using live_idx_sorted[of reg] assms by (auto simp: sorted_wrt_append)
  ultimately show ?thesis using append_Cons_eq_iff[of a xs ys "?f [0..<a]"] by simp
qed

lemma skip_empty_ok:
  assumes "b \<le> fin" "fin \<le> length a"
  shows "skip_empty a fin b = Some (first_or fin (filter (\<lambda>i. b_has_value (a ! i)) [b..<fin]))"
  using assms
proof (induction "fin - b" arbitrary: b)
  case 0
  then show ?case by (simp add: skip_empty.simps)
next
  case (Suc d)
  then show ?case by (subst skip_empty.simps) (auto simp: upt_conv_Cons)
qed

lemma front_ok:
  assumes "reg_inv reg"
  shows "assoc_reg_front reg = Some (reg_iter reg 0)"
  using assms skip_empty_ok[of 0 "rg_occ_bucket reg" "rg_arr reg"]
  by (auto simp: assoc_reg_front_def reg_iter_def live_idx_def reg_inv_def)

lemma next_of:
  assumes "reg_inv reg" "live_idx reg = xs @ a # ys"
  shows "assoc_reg_next reg a = Some (first_or (rg_occ_bucket reg) ys)"
proof -
  have a: "a < rg_occ_bucket reg" "b_has_value (rg_arr reg ! a)" using assms(2) live_idx_set[of a reg] by auto
  have o: "rg_occ_bucket reg < length (rg_arr reg)" using assms(1) by (simp add: reg_inv_def)
  show ?thesis
    using a o skip_empty_ok[of "Suc a" "rg_occ_bucket reg" "rg_arr reg"] live_idx_tail[OF assms(2)]
    by (simp add: assoc_reg_next_def iterator_in_ds_def assoc_reg_end_def)
qed

lemma iter_idx: "i < length (live_idx reg) \<Longrightarrow> reg_iter reg i = live_idx reg ! i"
  by (simp add: reg_iter_def Cons_nth_drop_Suc[symmetric])

lemma iter_end: "length (live_idx reg) \<le> i \<Longrightarrow> reg_iter reg i = rg_occ_bucket reg"
  by (simp add: reg_iter_def)

text \<open>The key and the value that an iterator gives.\<close>

definition reg_entry :: "'v assoc_reg_t \<Rightarrow> nat \<Rightarrow> (u32 \<times> 'v) option" where
  "reg_entry reg it = do { k \<leftarrow> assoc_reg_key reg it; v \<leftarrow> assoc_reg_value reg it; Some (k, v) }"

lemma entry_at:
  assumes "reg_inv reg" "i < length (alive reg)"
  shows "reg_entry reg (reg_iter reg i) = Some (reg_entries reg ! i)"
proof -
  have l: "i < length (live_idx reg)" using assms by (simp add: length_alive)
  have o: "rg_occ_bucket reg < length (rg_arr reg)" using assms(1) by (simp add: reg_inv_def)
  have "live_idx reg ! i \<in> set (live_idx reg)" using l by simp
  then have b: "live_idx reg ! i < rg_occ_bucket reg" "b_has_value (rg_arr reg ! (live_idx reg ! i))"
    by (auto simp: live_idx_set)
  have "alive reg ! i \<in> set (alive reg)" using assms(2) by simp
  then have "b_val (alive reg ! i) \<noteq> None" using assms(1) unfolding reg_inv_def by blast
  moreover have al: "alive reg ! i = rg_arr reg ! (live_idx reg ! i)" using l by (simp add: alive_idx[OF assms(1)])
  ultimately obtain v where v: "b_val (rg_arr reg ! (live_idx reg ! i)) = Some v" by auto
  have "reg_entries reg ! i = (b_key (rg_arr reg ! (live_idx reg ! i)), v)"
    using assms(2) v by (simp add: reg_entries_def entry_of_def al)
  then show ?thesis
    using b o v by (simp add: reg_entry_def assoc_reg_key_def assoc_reg_value_def iterator_in_ds_def iter_idx[OF l])
qed

lemma iter_inj_reg:
  assumes "i \<le> length (live_idx reg)" "j \<le> length (live_idx reg)"
  shows "reg_iter reg i = reg_iter reg j \<longleftrightarrow> i = j"
proof -
  have d: "distinct (live_idx reg)" by (simp add: live_idx_def)
  have lt: "live_idx reg ! k < rg_occ_bucket reg" if "k < length (live_idx reg)" for k
    using live_idx_set[of "live_idx reg ! k" reg] that by simp
  show ?thesis
  proof (cases "i = length (live_idx reg) \<or> j = length (live_idx reg)")
    case True
    then show ?thesis using lt[of i] lt[of j] assms
      by (cases "i = j") (auto simp: iter_end iter_idx le_less)
  next
    case False
    then show ?thesis using assms d by (simp add: iter_idx nth_eq_iff_index_eq le_less)
  qed
qed

interpretation registry: seq_container reg_inv reg_entries reg_iter "\<lambda>reg. reg_iter reg 0" assoc_reg_end
  assoc_reg_next reg_entry
proof
  fix reg :: "'v assoc_reg_t" and i j
  assume inv: "reg_inv reg"
  have len: "length (reg_entries reg) = length (live_idx reg)" using inv by (simp add: reg_entries_def length_alive)
  show "assoc_reg_end reg = reg_iter reg (length (reg_entries reg))"
    using len by (simp add: assoc_reg_end_def iter_end)
  show "reg_iter reg i = reg_iter reg j \<longleftrightarrow> i = j" if "i \<le> length (reg_entries reg)" "j \<le> length (reg_entries reg)"
    using iter_inj_reg[of i reg j] that len by simp
  show "assoc_reg_next reg (reg_iter reg i) = Some (reg_iter reg (Suc i))" if "i < length (reg_entries reg)"
  proof -
    have "live_idx reg = take i (live_idx reg) @ live_idx reg ! i # drop (Suc i) (live_idx reg)"
      using that len by (simp add: id_take_nth_drop)
    from next_of[OF inv this] show ?thesis using that len iter_idx[of i reg] by (simp add: reg_iter_def[of reg "Suc i"])
  qed
  show "reg_entry reg (reg_iter reg i) = Some (reg_entries reg ! i)" if "i < length (reg_entries reg)"
    using entry_at[OF inv, of i] that by (simp add: reg_entries_def)
qed (rule refl)

subsection \<open>Binary search\<close>

lemma lower_bound_step:
  "lower_bound_loop a start key lower (int len) =
     (if len > 0 then do {
        let half = len div 2;
        let idx = lower + half;
        b \<leftarrow> peek a (start + idx);
        if b_key b < key then lower_bound_loop a start key (idx + 1) (int (len - half - 1))
        else lower_bound_loop a start key lower (int half)
      } else Some lower)"
proof -
  obtain h where h: "len div 2 = h" by blast
  have i: "int len div 2 = int h" unfolding h[symmetric] by simp
  have "int len - int h - 1 = int (len - h - 1)" if "0 < len"
  proof -
    have "Suc h \<le> len" using that h by simp
    then show ?thesis by simp
  qed
  then show ?thesis unfolding h by (subst lower_bound_loop.simps) (simp only: Let_def i nat_int of_nat_0_less_iff cong: if_cong)
qed

lemma lower_bound_loop_ok:
  assumes "lower + len \<le> n" "start + n \<le> length a"
    and "\<And>i j. i < j \<Longrightarrow> j < n \<Longrightarrow> b_key (a ! (start + i)) < b_key (a ! (start + j))"
  shows "\<exists>m. lower_bound_loop a start key lower (int len) = Some m \<and> lower \<le> m \<and> m \<le> lower + len
    \<and> (\<forall>i. lower \<le> i \<longrightarrow> i < m \<longrightarrow> b_key (a ! (start + i)) < key)
    \<and> (\<forall>i. m \<le> i \<longrightarrow> i < lower + len \<longrightarrow> \<not> b_key (a ! (start + i)) < key)"
  using assms(1)
proof (induction len arbitrary: lower rule: less_induct)
  case (less len)
  show ?case
  proof (cases "len = 0")
    case True
    then show ?thesis by (subst lower_bound_step) simp
  next
    case False
    define h where "h = len div 2"
    have h: "h < len" using False by (simp add: h_def)
    have rd: "peek a (start + (lower + h)) = Some (a ! (start + (lower + h)))"
      using less.prems assms(2) h by simp
    let ?k = "b_key (a ! (start + (lower + h)))"
    show ?thesis
    proof (cases "?k < key")
      case True
      from less.IH[of "len - h - 1" "Suc (lower + h)"] h less.prems obtain m where
        m: "lower_bound_loop a start key (Suc (lower + h)) (int (len - h - 1)) = Some m" "Suc (lower + h) \<le> m" "m \<le> lower + len"
          "\<forall>i. Suc (lower + h) \<le> i \<longrightarrow> i < m \<longrightarrow> b_key (a ! (start + i)) < key"
          "\<forall>i. m \<le> i \<longrightarrow> i < lower + len \<longrightarrow> \<not> b_key (a ! (start + i)) < key" by auto
      have "b_key (a ! (start + i)) < key" if "lower \<le> i" "i < m" for i
      proof (cases "i < lower + h")
        case True
        then have "b_key (a ! (start + i)) < ?k" using assms(3)[of i "lower + h"] less.prems h by simp
        then show ?thesis using \<open>?k < key\<close> by (rule order.strict_trans)
      next
        case False
        then show ?thesis using m(4) that \<open>?k < key\<close> by (cases "i = lower + h") auto
      qed
      then show ?thesis using m rd True False by (subst lower_bound_step) (simp add: h_def[symmetric] Let_def)
    next
      case ge: False
      from less.IH[of h lower] h less.prems obtain m where
        m: "lower_bound_loop a start key lower (int h) = Some m" "lower \<le> m" "m \<le> lower + h"
          "\<forall>i. lower \<le> i \<longrightarrow> i < m \<longrightarrow> b_key (a ! (start + i)) < key"
          "\<forall>i. m \<le> i \<longrightarrow> i < lower + h \<longrightarrow> \<not> b_key (a ! (start + i)) < key" by auto
      have "\<not> b_key (a ! (start + i)) < key" if "m \<le> i" "i < lower + len" for i
      proof (cases "i \<le> lower + h")
        case True
        then show ?thesis using m(5) that ge by (cases "i = lower + h") auto
      next
        case False
        then have "?k < b_key (a ! (start + i))" using assms(3)[of "lower + h" i] less.prems that by simp
        then show ?thesis using ge by auto
      qed
      then show ?thesis using m rd ge False h by (subst lower_bound_step) (simp add: h_def[symmetric] Let_def)
    qed
  qed
qed

lemma int_length: "n < 2 ^ 31 \<Longrightarrow> sint (of_nat n :: u32) = int n"
  by (subst signed_of_nat) (simp add: signed_take_bit_int_eq_self)

text \<open>The keys tell the buckets apart, so that there are fewer buckets than keys handed out.\<close>

lemma few_buckets:
  assumes "reg_inv reg"
  shows "rg_occ_bucket reg < unat (rg_key_id reg)"
proof -
  let ?ks = "reg_keys reg"
  have s: "sorted_wrt (<) ?ks" "\<forall>k \<in> set ?ks. 0 < k \<and> unat k < unat (rg_key_id reg)" "0 < rg_key_id reg"
    and l: "length ?ks = rg_occ_bucket reg"
    using assms by (auto simp: reg_inv_def reg_keys_def)
  have "distinct ?ks" using s(1) by (simp add: strict_sorted_iff)
  then have "rg_occ_bucket reg = card (unat ` set ?ks)"
    using l distinct_card[of ?ks] by (simp add: card_image inj_on_def unsigned_word_eqI)
  also have "\<dots> \<le> card {1..<unat (rg_key_id reg)}"
    by (rule card_mono) (use s(2) in \<open>auto simp: word_less_nat_alt Suc_le_eq\<close>)
  finally show ?thesis using s(3) by (simp add: word_less_nat_alt)
qed

lemma keys_less:
  assumes "reg_inv reg" "i < j" "j < rg_occ_bucket reg"
  shows "b_key (rg_arr reg ! i) < b_key (rg_arr reg ! j)"
proof -
  have "sorted_wrt (<) (reg_keys reg)" "rg_occ_bucket reg < length (rg_arr reg)" using assms(1) by (auto simp: reg_inv_def)
  then show ?thesis using assms(2,3) sorted_wrt_iff_nth_less[of "(<)" "reg_keys reg"] by (simp add: reg_keys_def)
qed

text \<open>The binary search finds what the walk over the living buckets finds.\<close>

lemma entries_keys: "reg_inv reg \<Longrightarrow> i < length (live_idx reg)
    \<Longrightarrow> fst (reg_entries reg ! i) = b_key (rg_arr reg ! (live_idx reg ! i))"
  by (simp add: reg_entries_def entry_of_def alive_idx)

lemma find_reg_hit:
  assumes "reg_inv reg" "i < length (live_idx reg)" "fst (reg_entries reg ! i) = key" "rg_occ_bucket reg < 2 ^ 31"
  shows "find_reg reg (reg_iter reg 0) (assoc_reg_end reg) key = Some (reg_iter reg i)"
proof -
  let ?n = "rg_occ_bucket reg" and ?s = "reg_iter reg 0" and ?x = "live_idx reg ! i"
  have o: "?n < rg_cap reg" "length (rg_arr reg) = rg_cap reg" using assms(1) by (auto simp: reg_inv_def)
  have x: "?x < ?n" "b_has_value (rg_arr reg ! ?x)" "b_key (rg_arr reg ! ?x) = key"
    using assms live_idx_set[of ?x reg] entries_keys[OF assms(1,2)] by auto
  have s: "?s = live_idx reg ! 0" using assms(2) by (intro iter_idx) auto
  have "?s \<le> ?x"
    using live_idx_sorted[of reg] assms(2) unfolding s sorted_wrt_iff_nth_less by (cases "i = 0") (auto intro: less_imp_le)
  then obtain y where y: "?x = ?s + y" using le_iff_add by blast
  have lt: "?s < ?n" "?s + (?n - ?s) \<le> length (rg_arr reg)" using x(1) y o by auto
  have "reg_keys reg ! ?x = key" "?x < length (reg_keys reg)" using x o by (simp_all add: reg_keys_def)
  then have "key \<in> set (reg_keys reg)" by (metis nth_mem)
  then have pos: "0 < key" using assms(1) by (auto simp: reg_inv_def)
  have len: "sint (of_nat (?n - ?s) :: u32) = int (?n - ?s)" using assms(4) by (intro int_length) simp
  have "\<exists>m. lower_bound_loop (rg_arr reg) ?s key 0 (int (?n - ?s)) = Some m \<and> 0 \<le> m \<and> m \<le> 0 + (?n - ?s)
    \<and> (\<forall>i. 0 \<le> i \<longrightarrow> i < m \<longrightarrow> b_key (rg_arr reg ! (?s + i)) < key)
    \<and> (\<forall>i. m \<le> i \<longrightarrow> i < 0 + (?n - ?s) \<longrightarrow> \<not> b_key (rg_arr reg ! (?s + i)) < key)"
    by (rule lower_bound_loop_ok[where n = "?n - ?s"]) (use lt keys_less[OF assms(1)] in auto)
  then obtain m where m: "lower_bound_loop (rg_arr reg) ?s key 0 (int (?n - ?s)) = Some m" "m \<le> ?n - ?s"
    "\<And>i. i < m \<Longrightarrow> b_key (rg_arr reg ! (?s + i)) < key"
    "\<And>i. m \<le> i \<Longrightarrow> i < ?n - ?s \<Longrightarrow> \<not> b_key (rg_arr reg ! (?s + i)) < key" by auto
  have "y = m"
  proof (rule linorder_cases[of y m])
    assume "y < m"
    then show ?thesis using m(3)[of y] x(3) y by auto
  next
    assume "m < y"
    then show ?thesis using m(4)[of m] keys_less[OF assms(1), of "?s + m" ?x] x y by auto
  qed
  then show ?thesis
    using m(1) x y lt o pos iter_idx[OF assms(2)] len
    by (simp add: find_reg_def lower_bound_reg_def assoc_reg_end_def Let_def)
qed

lemma find_reg_miss:
  assumes "reg_inv reg" "key \<notin> fst ` set (reg_entries reg)" "0 < key" "rg_occ_bucket reg < 2 ^ 31"
  shows "find_reg reg (reg_iter reg 0) (assoc_reg_end reg) key = Some (assoc_reg_end reg)"
proof (cases "reg_iter reg 0 = assoc_reg_end reg")
  case True
  then show ?thesis using assms(3) by (simp add: find_reg_def)
next
  case False
  let ?n = "rg_occ_bucket reg" and ?s = "reg_iter reg 0"
  have o: "?n < rg_cap reg" "length (rg_arr reg) = rg_cap reg" using assms(1) by (auto simp: reg_inv_def)
  have "live_idx reg \<noteq> []" using False iter_end[of reg 0] by (auto simp: assoc_reg_end_def)
  then have "?s \<in> set (live_idx reg)" by (cases "live_idx reg") (auto simp: reg_iter_def)
  then have s: "?s < ?n" by (simp add: live_idx_set)
  have len: "sint (of_nat (?n - ?s) :: u32) = int (?n - ?s)" using assms(4) by (intro int_length) simp
  have "\<exists>m. lower_bound_loop (rg_arr reg) ?s key 0 (int (?n - ?s)) = Some m \<and> 0 \<le> m \<and> m \<le> 0 + (?n - ?s)
    \<and> (\<forall>i. 0 \<le> i \<longrightarrow> i < m \<longrightarrow> b_key (rg_arr reg ! (?s + i)) < key)
    \<and> (\<forall>i. m \<le> i \<longrightarrow> i < 0 + (?n - ?s) \<longrightarrow> \<not> b_key (rg_arr reg ! (?s + i)) < key)"
    by (rule lower_bound_loop_ok[where n = "?n - ?s"]) (use s o keys_less[OF assms(1)] in auto)
  then obtain m where m: "lower_bound_loop (rg_arr reg) ?s key 0 (int (?n - ?s)) = Some m" "m \<le> ?n - ?s" by auto
  have dead: "\<not> b_has_value (rg_arr reg ! i) \<or> b_key (rg_arr reg ! i) \<noteq> key" if "i < ?n" for i
  proof (rule ccontr)
    assume h: "\<not> ?thesis"
    then have "rg_arr reg ! i \<in> set (alive reg)" using that by (auto simp: alive_idx[OF assms(1)] live_idx_set)
    then show False using h assms(2) by (force simp: reg_entries_def entry_of_def)
  qed
  show ?thesis
    using m s o assms(3) False dead[of "?s + m"] len
    by (auto simp: find_reg_def lower_bound_reg_def assoc_reg_end_def Let_def)
qed

lemma entries_distinct:
  assumes "reg_inv reg" "i < j" "j < length (live_idx reg)"
  shows "fst (reg_entries reg ! i) < fst (reg_entries reg ! j)"
proof -
  have "live_idx reg ! j < rg_occ_bucket reg" using assms(3) live_idx_set[of "live_idx reg ! j" reg] by simp
  moreover have "live_idx reg ! i < live_idx reg ! j"
    using live_idx_sorted[of reg] assms(2,3) by (simp add: sorted_wrt_iff_nth_less)
  ultimately show ?thesis using keys_less[OF assms(1)] assms entries_keys[OF assms(1)] by simp
qed

lemma find_reg_linear:
  assumes "reg_inv reg" "0 < key" "rg_occ_bucket reg < 2 ^ 31"
  shows "find_reg reg (reg_iter reg 0) (assoc_reg_end reg) key
    = find_loop (assoc_reg_next reg) (reg_entry reg) (\<lambda>(k, v). k = key) (reg_iter reg 0) (assoc_reg_end reg)"
proof -
  let ?es = "reg_entries reg"
  let ?i = "length (takeWhile (\<lambda>e. \<not> (case e of (k, v) \<Rightarrow> k = key)) ?es)"
  have len: "length ?es = length (live_idx reg)" using assms(1) by (simp add: reg_entries_def length_alive)
  have r: "find_loop (assoc_reg_next reg) (reg_entry reg) (\<lambda>(k, v). k = key) (reg_iter reg 0) (assoc_reg_end reg)
      = Some (reg_iter reg ?i)" by (rule registry.find_loop_all[OF assms(1)])
  show ?thesis
  proof (cases "key \<in> fst ` set ?es")
    case True
    then have "takeWhile (\<lambda>e. \<not> (case e of (k, v) \<Rightarrow> k = key)) ?es \<noteq> ?es"
      unfolding takeWhile_eq_all_conv by auto
    then have "?i \<noteq> length ?es" using takeWhile_eq_take[of _ ?es] by (metis take_all order_refl)
    then have "?i < length ?es" using length_takeWhile_le[of _ ?es] by (simp add: le_neq_implies_less)
    moreover from this have "fst (?es ! ?i) = key" using nth_length_takeWhile by (fastforce simp: case_prod_beta)
    ultimately show ?thesis using find_reg_hit[OF assms(1), of ?i] r len assms(3) by simp
  next
    case False
    then have tw: "takeWhile (\<lambda>e. \<not> (case e of (k, v) \<Rightarrow> k = key)) ?es = ?es"
      unfolding takeWhile_eq_all_conv by force
    show ?thesis using find_reg_miss[OF assms(1) False assms(2,3)] r[unfolded tw] len iter_end[of reg "length ?es"]
      by (simp add: assoc_reg_end_def)
  qed
qed

subsection \<open>Erasing\<close>

definition entry_idx :: "'v assoc_reg_t \<Rightarrow> nat \<Rightarrow> u32 \<times> 'v" where
  "entry_idx reg i = entry_of (rg_arr reg ! i)"

lemma reg_entries_idx: "reg_inv reg \<Longrightarrow> reg_entries reg = map (entry_idx reg) (live_idx reg)"
  by (simp add: reg_entries_def alive_idx entry_idx_def)

lemma live_val:
  assumes "reg_inv reg" "i \<in> set (live_idx reg)"
  shows "b_val (rg_arr reg ! i) = Some (snd (entry_idx reg i))"
proof -
  have "rg_arr reg ! i \<in> set (alive reg)" using assms by (auto simp: alive_idx)
  then have "b_val (rg_arr reg ! i) \<noteq> None" using assms(1) unfolding reg_inv_def by blast
  then show ?thesis by (auto simp: entry_idx_def entry_of_def)
qed

definition unmark :: "'v assoc_reg_t \<Rightarrow> nat \<Rightarrow> 'v assoc_reg_t" where
  "unmark reg i = reg\<lparr>rg_arr := (rg_arr reg)[i := (rg_arr reg ! i)\<lparr>b_has_value := False\<rparr>], rg_sz := dec_size (rg_sz reg)\<rparr>"

lemma unmark_ok:
  assumes "reg_inv reg" "live_idx reg = xs @ i # ys"
  shows "reg_inv (unmark reg i)" "live_idx (unmark reg i) = xs @ ys"
    "\<And>j. j \<in> set (xs @ ys) \<Longrightarrow> entry_idx (unmark reg i) j = entry_idx reg j"
proof -
  let ?r = "unmark reg i"
  have i: "i < rg_occ_bucket reg" "b_has_value (rg_arr reg ! i)" using assms(2) live_idx_set[of i reg] by auto
  have o: "rg_occ_bucket reg < length (rg_arr reg)" using assms(1) by (simp add: reg_inv_def)
  have ni: "i \<notin> set xs" "i \<notin> set ys" using live_idx_sorted[of reg] assms(2) by (auto simp: sorted_wrt_append)
  have "live_idx ?r = filter (\<lambda>j. j \<noteq> i) (live_idx reg)"
    unfolding live_idx_def filter_filter unmark_def using o i by (intro filter_cong) (auto simp: nth_list_update)
  also have "\<dots> = xs @ ys" using ni by (simp add: assms(2) filter_id_conv) (metis (mono_tags, lifting) filter_True)
  finally show l: "live_idx ?r = xs @ ys" .
  show e: "entry_idx ?r j = entry_idx reg j" if "j \<in> set (xs @ ys)" for j
  proof -
    have "i \<noteq> j" using that ni by auto
    then show ?thesis by (simp add: entry_idx_def unmark_def)
  qed
  have keys: "reg_keys ?r = reg_keys reg"
    using o i by (intro nth_equalityI) (auto simp: reg_keys_def unmark_def nth_list_update)
  have al: "alive ?r = map (\<lambda>i. rg_arr ?r ! i) (xs @ ys)"
  proof -
    have "rg_occ_bucket ?r \<le> length (rg_arr ?r)" using o by (simp add: unmark_def)
    then have "take (rg_occ_bucket ?r) (rg_arr ?r) = map (\<lambda>i. rg_arr ?r ! i) [0..<rg_occ_bucket ?r]"
      by (intro nth_equalityI) auto
    then have "alive ?r = map (\<lambda>i. rg_arr ?r ! i) (live_idx ?r)" by (simp add: alive_def live_idx_def filter_map o_def)
    then show ?thesis by (simp add: l)
  qed
  have "rg_arr ?r ! j = rg_arr reg ! j" if "j \<in> set (xs @ ys)" for j
  proof -
    have "i \<noteq> j" using that ni by auto
    then show ?thesis by (simp add: unmark_def)
  qed
  then have al': "alive ?r = map (\<lambda>i. rg_arr reg ! i) (xs @ ys)" unfolding al by (intro map_cong) auto
  have sub: "set (alive ?r) \<subseteq> set (alive reg)" using assms by (auto simp: al' alive_idx)
  have "rg_sz reg = length (xs @ i # ys)" using assms alive_idx[OF assms(1)] by (simp add: reg_inv_def)
  moreover have "rg_sz ?r = dec_size (rg_sz reg)" by (simp add: unmark_def)
  ultimately have sz: "rg_sz ?r = length (alive ?r)" by (simp add: al' dec_size_def)
  show "reg_inv ?r"
    using assms(1) sub sz unfolding reg_inv_def keys by (auto simp: unmark_def)
qed

lemma erase_loop_ok:
  assumes "reg_inv reg" "live_idx reg = xs @ ys @ zs"
  shows "\<exists>r. erase_loop reg (first_or (rg_occ_bucket reg) (ys @ zs)) (first_or (rg_occ_bucket reg) zs)
      = Some (r, map (\<lambda>i. Some (snd (entry_idx reg i))) ys)
    \<and> reg_inv r \<and> reg_entries r = map (entry_idx reg) (xs @ zs)
    \<and> rg_key_id r = rg_key_id reg \<and> rg_elm_sz r = rg_elm_sz reg"
  using assms
proof (induction ys arbitrary: reg)
  case Nil
  then show ?case by (simp add: erase_loop.simps reg_entries_idx)
next
  case (Cons i ys)
  let ?r = "unmark reg i"
  have l: "live_idx reg = xs @ i # (ys @ zs)" using Cons.prems(2) by simp
  have i: "i < rg_occ_bucket reg" using l live_idx_set[of i reg] by auto
  have o: "rg_occ_bucket reg < length (rg_arr reg)" using Cons.prems(1) by (simp add: reg_inv_def)
  have "i \<noteq> first_or (rg_occ_bucket reg) zs"
    using live_idx_sorted[of reg] i l by (cases zs) (auto simp: sorted_wrt_append)
  moreover note next_of[OF Cons.prems(1) l] unmark_ok[OF Cons.prems(1) l]
  moreover have "rg_occ_bucket ?r = rg_occ_bucket reg" "rg_key_id ?r = rg_key_id reg" "rg_elm_sz ?r = rg_elm_sz reg"
    by (simp_all add: unmark_def)
  moreover from calculation obtain r where
    "erase_loop ?r (first_or (rg_occ_bucket reg) (ys @ zs)) (first_or (rg_occ_bucket reg) zs)
      = Some (r, map (\<lambda>i. Some (snd (entry_idx ?r i))) ys)"
    "reg_inv r" "reg_entries r = map (entry_idx ?r) (xs @ zs)"
    "rg_key_id r = rg_key_id ?r" "rg_elm_sz r = rg_elm_sz ?r"
    using Cons.IH[of ?r] by auto
  moreover have "b_val (rg_arr reg ! i) = Some (snd (entry_idx reg i))"
    using live_val[OF Cons.prems(1)] l by simp
  ultimately show ?case
    using i o by (subst erase_loop.simps) (simp add: Let_def unmark_def[symmetric])
qed

lemma reg_erase_ok:
  assumes "reg_inv reg" "i \<le> j" "j \<le> length (reg_entries reg)"
  shows "\<exists>r. assoc_reg_erase reg (reg_iter reg i) (reg_iter reg j)
      = Some (r, map (\<lambda>(k, v). Some v) (take (j - i) (drop i (reg_entries reg))))
    \<and> reg_inv r \<and> reg_entries r = take i (reg_entries reg) @ drop j (reg_entries reg)
    \<and> rg_key_id r = rg_key_id reg \<and> rg_elm_sz r = rg_elm_sz reg"
proof (cases "i = j")
  case True
  then show ?thesis using assms(1) by (simp add: assoc_reg_erase_def)
next
  case False
  let ?l = "live_idx reg"
  have len: "j \<le> length ?l" using assms by (simp add: reg_entries_def length_alive)
  have lt: "i < length ?l" using len assms(2) False by simp
  have "drop i ?l = take (j - i) (drop i ?l) @ drop j ?l"
    using assms(2) by (metis append_take_drop_id drop_drop le_add_diff_inverse2)
  then have split: "?l = take i ?l @ take (j - i) (drop i ?l) @ drop j ?l" by (metis append_take_drop_id)
  obtain r where r: "erase_loop reg (reg_iter reg i) (reg_iter reg j)
      = Some (r, map (\<lambda>i. Some (snd (entry_idx reg i))) (take (j - i) (drop i ?l)))"
    "reg_inv r" "reg_entries r = map (entry_idx reg) (take i ?l @ drop j ?l)"
    "rg_key_id r = rg_key_id reg" "rg_elm_sz r = rg_elm_sz reg"
    using erase_loop_ok[OF assms(1) split] \<open>drop i ?l = _\<close> unfolding reg_iter_def by auto
  obtain r1 where r1: "compact_if_necessary r = Some r1" "reg_inv r1" "alive r1 = alive r"
    "rg_key_id r1 = rg_key_id r" "rg_elm_sz r1 = rg_elm_sz r" using compact_ok[OF r(2)] by blast
  obtain r2 where r2: "shrink_if_necessary r1 = Some r2" "reg_inv r2" "alive r2 = alive r1"
    "rg_key_id r2 = rg_key_id r1" "rg_elm_sz r2 = rg_elm_sz r1" using shrink_ok[OF r1(2)] by blast
  have "reg_iter reg i \<noteq> reg_iter reg j" using iter_inj_reg[of i reg j] False lt len by simp
  moreover have "iterator_in_ds reg (reg_iter reg i)"
    using iter_idx[OF lt] live_idx_set[of "?l ! i" reg] lt by (simp add: iterator_in_ds_def)
  moreover have "reg_entries r2 = take i (reg_entries reg) @ drop j (reg_entries reg)"
    using r(3) r1(3) r2(3) by (simp add: reg_entries_def[of r2] reg_entries_def[of r] reg_entries_idx[OF assms(1)] take_map drop_map)
  moreover have "map (\<lambda>i. Some (snd (entry_idx reg i))) (take (j - i) (drop i ?l))
      = map (\<lambda>(k, v). Some v) (take (j - i) (drop i (reg_entries reg)))"
    by (simp add: reg_entries_idx[OF assms(1)] take_map drop_map case_prod_beta)
  ultimately show ?thesis using r r1 r2 by (simp add: assoc_reg_erase_def)
qed

subsection \<open>Removing what satisfies a predicate\<close>

lemma remove_if_loop_ok:
  assumes "reg_inv reg" "live_idx reg = xs @ ys" "\<forall>j \<in> set xs. j < i" "\<forall>j \<in> set ys. i \<le> j" "i \<le> rg_occ_bucket reg"
  shows "\<exists>r. remove_if_loop f reg i = Some (r, map fst (filter (\<lambda>(k, v). f (Some v)) (map (entry_idx reg) ys)))
    \<and> reg_inv r \<and> reg_entries r = map (entry_idx reg) xs @ filter (\<lambda>(k, v). \<not> f (Some v)) (map (entry_idx reg) ys)
    \<and> rg_key_id r = rg_key_id reg \<and> rg_elm_sz r = rg_elm_sz reg"
  using assms
proof (induction "rg_occ_bucket reg - i" arbitrary: reg i xs ys)
  case 0
  have "ys = []"
  proof (rule ccontr)
    assume "ys \<noteq> []"
    then have "hd ys \<in> set (live_idx reg)" "i \<le> hd ys" using 0 by auto
    then show False using 0(1,6) live_idx_set[of "hd ys" reg] by simp
  qed
  then show ?case using 0 by (simp add: remove_if_loop.simps reg_entries_idx)
next
  case (Suc d)
  have lt: "i < rg_occ_bucket reg" and o: "rg_occ_bucket reg < length (rg_arr reg)"
    using Suc.hyps(2) Suc.prems(1) by (auto simp: reg_inv_def)
  have d: "d = rg_occ_bucket reg - Suc i" using Suc.hyps(2) by simp
  show ?case
  proof (cases "b_has_value (rg_arr reg ! i)")
    case False
    then have ni: "i \<notin> set ys" using Suc.prems(2) live_idx_set[of i reg] by auto
    have "\<forall>j \<in> set ys. Suc i \<le> j"
    proof
      fix j assume "j \<in> set ys"
      then show "Suc i \<le> j" using Suc.prems(4) ni by (cases "i = j") (auto simp: Suc_le_eq)
    qed
    moreover have "\<forall>j \<in> set xs. j < Suc i" using Suc.prems(3) by auto
    ultimately show ?thesis
      using Suc.hyps(1)[OF d Suc.prems(1,2)] lt o False by (subst remove_if_loop.simps) simp
  next
    case True
    then have "i \<in> set ys" using lt live_idx_set[of i reg] Suc.prems(2,3) by auto
    moreover have sorted: "sorted_wrt (<) ys" using live_idx_sorted[of reg] Suc.prems(2) by (simp add: sorted_wrt_append)
    ultimately obtain zs where ys: "ys = i # zs" using Suc.prems(4) by (cases ys) fastforce+
    have zs: "\<forall>j \<in> set zs. Suc i \<le> j" using sorted ys by auto
    have v: "b_val (rg_arr reg ! i) = Some (snd (entry_idx reg i))" "b_key (rg_arr reg ! i) = fst (entry_idx reg i)"
      using live_val[OF Suc.prems(1), of i] Suc.prems(2) ys by (auto simp: entry_idx_def entry_of_def)
    show ?thesis
    proof (cases "f (Some (snd (entry_idx reg i)))")
      case False
      have "live_idx reg = (xs @ [i]) @ zs" "\<forall>j \<in> set (xs @ [i]). j < Suc i" using Suc.prems(2,3) ys by auto
      from Suc.hyps(1)[OF d Suc.prems(1) this zs] lt False
      show ?thesis using o True v ys by (subst remove_if_loop.simps) (auto simp: case_prod_beta)
    next
      case hit: True
      let ?r = "unmark reg i"
      note u = unmark_ok[OF Suc.prems(1) Suc.prems(2)[unfolded ys]]
      have same: "rg_occ_bucket ?r = rg_occ_bucket reg" "rg_key_id ?r = rg_key_id reg" "rg_elm_sz ?r = rg_elm_sz reg"
        by (simp_all add: unmark_def)
      have e: "map (entry_idx ?r) xs = map (entry_idx reg) xs" "map (entry_idx ?r) zs = map (entry_idx reg) zs"
        using u(3) by auto
      have "\<forall>j \<in> set xs. j < Suc i" using Suc.prems(3) by auto
      from Suc.hyps(1)[of ?r "Suc i", OF _ u(1,2) this zs] d lt
      obtain r where r: "remove_if_loop f ?r (Suc i) = Some (r, map fst (filter (\<lambda>(k, v). f (Some v)) (map (entry_idx reg) zs)))"
        "reg_inv r" "reg_entries r = map (entry_idx reg) xs @ filter (\<lambda>(k, v). \<not> f (Some v)) (map (entry_idx reg) zs)"
        "rg_key_id r = rg_key_id reg" "rg_elm_sz r = rg_elm_sz reg"
        unfolding e same by auto
      have "remove_if_loop f reg i = Some (r, fst (entry_idx reg i) # map fst (filter (\<lambda>(k, v). f (Some v)) (map (entry_idx reg) zs)))"
        using lt o True v hit r(1) by (subst remove_if_loop.simps) (simp add: Let_def unmark_def[symmetric])
      then show ?thesis using r hit ys by (auto simp: case_prod_beta)
    qed
  qed
qed

lemma remove_if_ok:
  assumes "reg_inv reg"
  shows "\<exists>r. remove_if_range_reg reg f = Some (r, map fst (filter (\<lambda>(k, v). f (Some v)) (reg_entries reg)))
    \<and> reg_inv r \<and> reg_entries r = filter (\<lambda>(k, v). \<not> f (Some v)) (reg_entries reg)
    \<and> rg_key_id r = rg_key_id reg \<and> rg_elm_sz r = rg_elm_sz reg"
proof -
  obtain r where r: "remove_if_loop f reg 0 = Some (r, map fst (filter (\<lambda>(k, v). f (Some v)) (reg_entries reg)))"
    "reg_inv r" "reg_entries r = filter (\<lambda>(k, v). \<not> f (Some v)) (reg_entries reg)"
    "rg_key_id r = rg_key_id reg" "rg_elm_sz r = rg_elm_sz reg"
    using remove_if_loop_ok[OF assms, of "[]" "live_idx reg" 0 f] by (auto simp: reg_entries_idx[OF assms])
  obtain r1 where r1: "compact_if_necessary r = Some r1" "reg_inv r1" "alive r1 = alive r"
    "rg_key_id r1 = rg_key_id r" "rg_elm_sz r1 = rg_elm_sz r" using compact_ok[OF r(2)] by blast
  obtain r2 where r2: "shrink_if_necessary r1 = Some r2" "reg_inv r2" "alive r2 = alive r1"
    "rg_key_id r2 = rg_key_id r1" "rg_elm_sz r2 = rg_elm_sz r1" using shrink_ok[OF r1(2)] by blast
  show ?thesis
    using r r1 r2 by (simp add: remove_if_range_reg_def reg_entries_def[of r2] reg_entries_def[of r])
qed

subsection \<open>Visiting\<close>

definition change_val :: "('v option \<Rightarrow> 'v option) \<Rightarrow> 'v registry_bucket_t \<Rightarrow> 'v registry_bucket_t" where
  "change_val f b = (if b_has_value b then b\<lparr>b_val := f (b_val b)\<rparr> else b)"

lemma for_each_loop_ok:
  assumes "i \<le> fin" "fin \<le> length (rg_arr reg)"
  shows "for_each_loop f reg i fin = Some (reg\<lparr>rg_arr := take i (rg_arr reg)
    @ map (change_val f) (take (fin - i) (drop i (rg_arr reg))) @ drop fin (rg_arr reg)\<rparr>)"
  using assms
proof (induction "fin - i" arbitrary: i reg)
  case 0
  then show ?case by (simp add: for_each_loop.simps)
next
  case (Suc d)
  let ?a = "rg_arr reg"
  let ?r = "reg\<lparr>rg_arr := ?a[i := change_val f (?a ! i)]\<rparr>"
  have lt: "i < fin" "i < length ?a" using Suc by auto
  have step: "for_each_loop f reg i fin = for_each_loop f ?r (Suc i) fin"
    using lt by (subst for_each_loop.simps) (cases "b_has_value (?a ! i)"; simp add: change_val_def Let_def)
  have "drop i ?a = ?a ! i # drop (Suc i) ?a" using lt by (simp add: Cons_nth_drop_Suc)
  then have t: "take (fin - i) (drop i ?a) = ?a ! i # take (fin - Suc i) (drop (Suc i) ?a)"
    using lt by (simp add: take_Cons' Suc_diff_Suc[symmetric])
  have "for_each_loop f ?r (Suc i) fin = Some (?r\<lparr>rg_arr := take (Suc i) (rg_arr ?r)
    @ map (change_val f) (take (fin - Suc i) (drop (Suc i) (rg_arr ?r))) @ drop fin (rg_arr ?r)\<rparr>)"
    using Suc.hyps(1)[of "Suc i" ?r] Suc.hyps(2) Suc.prems lt by simp
  then show ?case using lt by (simp add: step t take_Suc_conv_app_nth)
qed

lemma for_each_ok:
  assumes "reg_inv reg"
  shows "\<exists>r. for_each_reg reg (reg_iter reg 0) (assoc_reg_end reg) (map_option g) = Some r
    \<and> reg_inv r \<and> reg_entries r = map (\<lambda>(k, v). (k, g v)) (reg_entries reg)
    \<and> rg_key_id r = rg_key_id reg \<and> rg_elm_sz r = rg_elm_sz reg"
proof -
  let ?s = "reg_iter reg 0" and ?n = "rg_occ_bucket reg" and ?a = "rg_arr reg"
  let ?f = "change_val (map_option g)"
  have o: "?n < rg_cap reg" "length ?a = rg_cap reg" using assms by (auto simp: reg_inv_def)
  have s: "?s \<le> ?n" "\<forall>i < ?s. \<not> b_has_value (?a ! i)"
  proof -
    show "?s \<le> ?n" using live_idx_set[of ?s reg] by (cases "live_idx reg") (auto simp: reg_iter_def)
    show "\<forall>i < ?s. \<not> b_has_value (?a ! i)"
    proof clarify
      fix i assume i: "i < ?s" "b_has_value (?a ! i)"
      then have "i \<in> set (live_idx reg)" using \<open>?s \<le> ?n\<close> by (simp add: live_idx_set)
      then show False using i live_idx_sorted[of reg] by (cases "live_idx reg") (auto simp: reg_iter_def)
    qed
  qed
  let ?r = "reg\<lparr>rg_arr := take ?s ?a @ map ?f (take (?n - ?s) (drop ?s ?a)) @ drop ?n ?a\<rparr>"
  have run: "for_each_reg reg ?s (assoc_reg_end reg) (map_option g) = Some ?r"
    using for_each_loop_ok[of ?s ?n reg "map_option g"] s(1) o by (simp add: for_each_reg_def assoc_reg_end_def)
  have "map ?f (take ?s ?a) = take ?s ?a"
    using s o by (intro nth_equalityI) (auto simp: change_val_def)
  moreover have "take ?n ?a = take ?s ?a @ take (?n - ?s) (drop ?s ?a)"
    using s(1) by (metis le_add_diff_inverse take_add)
  ultimately have tk: "take ?n (rg_arr ?r) = map ?f (take ?n ?a)"
    using s(1) o by simp
  have keys: "reg_keys ?r = reg_keys reg" using tk by (auto simp: reg_keys_def change_val_def)
  have al: "alive ?r = map ?f (alive reg)"
    using tk by (simp add: alive_def filter_map o_def) (simp add: change_val_def if_distrib cong: if_cong)
  have vals: "b_val b \<noteq> None" "b_has_value b" if "b \<in> set (alive reg)" for b
    using assms that by (auto simp: reg_inv_def alive_def)
  have "reg_entries ?r = map (\<lambda>(k, v). (k, g v)) (reg_entries reg)"
    using vals(2) by (auto simp: reg_entries_def al entry_of_def change_val_def dest!: vals(1))
  moreover have "reg_inv ?r"
    using assms vals s(1) o unfolding reg_inv_def keys al by (auto simp: change_val_def)
  ultimately show ?thesis using run by (intro exI[of _ ?r]) simp
qed

lemma inv_checked: "reg_inv reg \<Longrightarrow> test_invariants_registry_hold reg"
  using alive_le[of reg]
  by (auto simp: reg_inv_def test_invariants_registry_hold_def reg_keys_def alive_def sorted_wrt_map
      word_less_def intro: order.strict_trans2[OF _ unsigned_greater_eq])

end
