(* ===== verification/Reg_Properties.thy ===== *)
theory Reg_Properties
  imports Reg_Laws
begin

text \<open>
  The contract of the registry: an association list whose keys are handed out in order.  A run is
  a list of operations of a client; removing a key is the search, the next iterator and the
  erasure, as \<^verbatim>\<open>xApp/act_proc.c\<close> does it.
\<close>

datatype 'v reg_op = RPush 'v | RRemove u32 | RRemoveIf "'v \<Rightarrow> bool" | RUpdate "'v \<Rightarrow> 'v"

definition remove_key :: "'v assoc_reg_t \<Rightarrow> u32 \<Rightarrow> ('v option list \<times> 'v assoc_reg_t) option" where
  "remove_key reg key = do {
     it \<leftarrow> assoc_reg_front reg;
     it \<leftarrow> find_reg reg it (assoc_reg_end reg) key;
     if it = assoc_reg_end reg then Some ([], reg)
     else do {
       next_it \<leftarrow> assoc_reg_next reg it;
       (reg, freed) \<leftarrow> assoc_reg_erase reg it next_it;
       Some (freed, reg)
     }
   }"

fun reg_exec :: "'v reg_op \<Rightarrow> 'v assoc_reg_t \<Rightarrow> (u32 list \<times> 'v assoc_reg_t) option" where
  "reg_exec (RPush v) reg = do { (key, reg) \<leftarrow> assoc_reg_push_back reg v (rg_elm_sz reg); Some ([key], reg) }"
| "reg_exec (RRemove key) reg = do { (freed, reg) \<leftarrow> remove_key reg key; Some (if freed = [] then [] else [key], reg) }"
| "reg_exec (RRemoveIf f) reg = do {
     (reg, keys) \<leftarrow> remove_if_range_reg reg (\<lambda>v. case v of None \<Rightarrow> False | Some v \<Rightarrow> f v);
     Some (keys, reg)
   }"
| "reg_exec (RUpdate g) reg = do {
     start \<leftarrow> assoc_reg_front reg;
     reg \<leftarrow> for_each_reg reg start (assoc_reg_end reg) (map_option g);
     Some ([], reg)
   }"

fun reg_execs :: "'v reg_op list \<Rightarrow> 'v assoc_reg_t \<Rightarrow> (u32 list list \<times> 'v assoc_reg_t) option" where
  "reg_execs [] reg = Some ([], reg)"
| "reg_execs (c # cs) reg = do {
     (out, reg) \<leftarrow> reg_exec c reg;
     (outs, reg) \<leftarrow> reg_execs cs reg;
     Some (out # outs, reg)
   }"

text \<open>The reference: the next key, and the entries.\<close>

fun ref_exec :: "'v reg_op \<Rightarrow> nat \<times> (u32 \<times> 'v) list \<Rightarrow> u32 list \<times> nat \<times> (u32 \<times> 'v) list" where
  "ref_exec (RPush v) (n, es) = ([of_nat n], Suc n, es @ [(of_nat n, v)])"
| "ref_exec (RRemove key) (n, es) =
     (if key \<in> fst ` set es then [key] else [], n, filter (\<lambda>(k, v). k \<noteq> key) es)"
| "ref_exec (RRemoveIf f) (n, es) =
     (map fst (filter (\<lambda>(k, v). f v) es), n, filter (\<lambda>(k, v). \<not> f v) es)"
| "ref_exec (RUpdate g) (n, es) = ([], n, map (\<lambda>(k, v). (k, g v)) es)"

fun ref_execs :: "'v reg_op list \<Rightarrow> nat \<times> (u32 \<times> 'v) list \<Rightarrow> u32 list list \<times> nat \<times> (u32 \<times> 'v) list" where
  "ref_execs [] a = ([], a)"
| "ref_execs (c # cs) a = (let (out, a) = ref_exec c a; (outs, a) = ref_execs cs a in (out # outs, a))"

fun op_ok :: "'v reg_op \<Rightarrow> bool" where
  "op_ok (RRemove key) \<longleftrightarrow> 0 < key"
| "op_ok c \<longleftrightarrow> True"

fun is_remove :: "'v reg_op \<Rightarrow> bool" where
  "is_remove (RRemove key) \<longleftrightarrow> True"
| "is_remove c \<longleftrightarrow> False"

fun is_push :: "'v reg_op \<Rightarrow> bool" where
  "is_push (RPush v) \<longleftrightarrow> True"
| "is_push c \<longleftrightarrow> False"

definition reg_is :: "'v assoc_reg_t \<Rightarrow> nat \<times> (u32 \<times> 'v) list \<Rightarrow> bool" where
  "reg_is reg a \<longleftrightarrow> reg_inv reg \<and> reg_entries reg = snd a \<and> unat (rg_key_id reg) = fst a"

lemma filter_key_at:
  assumes "i < length es" "\<And>j. j < length es \<Longrightarrow> j \<noteq> i \<Longrightarrow> fst (es ! j) \<noteq> fst (es ! i)"
  shows "filter (\<lambda>e. fst e \<noteq> fst (es ! i)) es = take i es @ drop (Suc i) es"
proof -
  let ?P = "\<lambda>e. fst e \<noteq> fst (es ! i)"
  have "filter ?P es = filter ?P (take i es @ es ! i # drop (Suc i) es)" using assms(1) by (simp add: id_take_nth_drop[symmetric])
  also have "\<dots> = filter ?P (take i es) @ filter ?P (drop (Suc i) es)" by simp
  also have "filter ?P (take i es) = take i es"
  proof (intro filter_True ballI)
    fix e assume "e \<in> set (take i es)"
    then obtain j where "j < i" "e = es ! j" using assms(1) by (auto simp: in_set_conv_nth)
    then show "?P e" using assms by simp
  qed
  also have "filter ?P (drop (Suc i) es) = drop (Suc i) es"
  proof (intro filter_True ballI)
    fix e assume "e \<in> set (drop (Suc i) es)"
    then obtain j where "e = es ! (Suc i + j)" "Suc i + j < length es" using assms(1) by (auto simp: in_set_conv_nth)
    then show "?P e" using assms(2)[of "Suc i + j"] by simp
  qed
  finally show ?thesis .
qed

lemma remove_key_ok:
  assumes "reg_inv reg" "0 < key" "rg_occ_bucket reg < 2 ^ 31"
  shows "\<exists>r freed. remove_key reg key = Some (freed, r) \<and> reg_inv r \<and> (freed = [] \<longleftrightarrow> key \<notin> fst ` set (reg_entries reg))
    \<and> reg_entries r = filter (\<lambda>(k, v). k \<noteq> key) (reg_entries reg) \<and> rg_key_id r = rg_key_id reg \<and> rg_elm_sz r = rg_elm_sz reg"
proof (cases "key \<in> fst ` set (reg_entries reg)")
  case False
  then have "filter (\<lambda>(k, v). k \<noteq> key) (reg_entries reg) = reg_entries reg" by (intro filter_True) force
  then show ?thesis
    using find_reg_miss[OF assms(1) False assms(2,3)] front_ok[OF assms(1)] assms(1) False by (simp add: remove_key_def)
next
  case True
  let ?es = "reg_entries reg"
  have len: "length ?es = length (live_idx reg)" using assms(1) by (simp add: reg_entries_def length_alive)
  obtain i where i: "i < length ?es" "fst (?es ! i) = key" using True by (auto simp: in_set_conv_nth)
  have ne: "fst (?es ! j) \<noteq> fst (?es ! i)" if "j < length ?es" "j \<noteq> i" for j
    using entries_distinct[OF assms(1), of i j] entries_distinct[OF assms(1), of j i] that i len
    by (cases "i < j") auto
  have f: "find_reg reg (reg_iter reg 0) (assoc_reg_end reg) key = Some (reg_iter reg i)"
    using find_reg_hit[OF assms(1)] i len assms(3) by simp
  have "reg_iter reg i \<noteq> reg_iter reg (length ?es)" using iter_inj_reg[of i reg "length ?es"] i len by simp
  then have "reg_iter reg i \<noteq> assoc_reg_end reg" using len by (simp add: iter_end assoc_reg_end_def)
  moreover have "assoc_reg_next reg (reg_iter reg i) = Some (reg_iter reg (Suc i))"
    by (rule registry.nxt_iter[OF assms(1) i(1)])
  moreover obtain r where r: "assoc_reg_erase reg (reg_iter reg i) (reg_iter reg (Suc i))
      = Some (r, map (\<lambda>(k, v). Some v) (take (Suc i - i) (drop i ?es)))" "reg_inv r"
    "reg_entries r = take i ?es @ drop (Suc i) ?es" "rg_key_id r = rg_key_id reg" "rg_elm_sz r = rg_elm_sz reg"
    using reg_erase_ok[OF assms(1), of i "Suc i"] i(1) by auto
  moreover have "take (Suc i - i) (drop i ?es) \<noteq> []" using i(1) by (simp add: Suc_diff_le)
  moreover have "filter (\<lambda>(k, v). k \<noteq> key) ?es = take i ?es @ drop (Suc i) ?es"
  proof -
    have "filter (\<lambda>(k, v). k \<noteq> key) ?es = filter (\<lambda>e. fst e \<noteq> key) ?es" by (rule filter_cong) auto
    then show ?thesis using filter_key_at[OF i(1) ne] i(2) by simp
  qed
  ultimately show ?thesis using True f front_ok[OF assms(1)] by (simp add: remove_key_def)
qed

lemma exec_refines:
  assumes "reg_is reg a" "op_ok c" "is_push c \<longrightarrow> fst a < 2 ^ 32" "is_remove c \<longrightarrow> fst a \<le> 2 ^ 31"
  shows "\<exists>reg'. reg_exec c reg = Some (fst (ref_exec c a), reg') \<and> reg_is reg' (snd (ref_exec c a))
    \<and> rg_elm_sz reg' = rg_elm_sz reg"
proof (cases c)
  case (RPush v)
  have inv: "reg_inv reg" "unat (rg_key_id reg) < 2 ^ 32" using assms RPush by (auto simp: reg_is_def)
  have k: "of_nat (unat (rg_key_id reg)) = (ucast (rg_key_id reg) :: u32)" by (simp add: unsigned_of_nat)
  have "unat (rg_key_id reg + 1) = Suc (unat (rg_key_id reg))" using inv(2) by (simp add: unat_word_ariths)
  then show ?thesis
    using push_ok[OF inv refl, of v] assms(1) RPush k
    by (cases a) (auto simp: reg_is_def reg_entries_def entry_of_def)
next
  case (RRemove key)
  have "reg_inv reg" "unat (rg_key_id reg) \<le> 2 ^ 31" using assms RRemove by (auto simp: reg_is_def)
  then have "rg_occ_bucket reg < 2 ^ 31" using few_buckets[of reg] by simp
  with RRemove show ?thesis using remove_key_ok[of reg key] assms by (cases a) (auto simp: reg_is_def)
next
  case (RRemoveIf f)
  then show ?thesis
    using remove_if_ok[of reg "\<lambda>v. case v of None \<Rightarrow> False | Some v \<Rightarrow> f v"] assms(1) by (cases a) (auto simp: reg_is_def)
next
  case (RUpdate g)
  then show ?thesis using for_each_ok[of reg g] front_ok[of reg] assms(1) by (cases a) (auto simp: reg_is_def)
qed

lemma next_key_mono: "fst (snd (ref_exec c a)) = (if is_push c then Suc (fst a) else fst a)"
  by (cases a; cases c) auto

lemma execs_refine:
  assumes "reg_is reg a" "\<forall>c \<in> set cs. op_ok c" "fst a + length (filter is_push cs) \<le> 2 ^ 32"
    and "filter is_remove cs \<noteq> [] \<longrightarrow> fst a + length (filter is_push cs) \<le> 2 ^ 31"
  shows "\<exists>reg'. reg_execs cs reg = Some (fst (ref_execs cs a), reg') \<and> reg_is reg' (snd (ref_execs cs a))
    \<and> rg_elm_sz reg' = rg_elm_sz reg"
  using assms
proof (induction cs arbitrary: reg a)
  case (Cons c cs)
  obtain out a1 where 1: "ref_exec c a = (out, a1)" by (cases "ref_exec c a")
  obtain reg1 where r1: "reg_exec c reg = Some (out, reg1)" "reg_is reg1 a1" "rg_elm_sz reg1 = rg_elm_sz reg"
    using exec_refines[of reg a c] Cons.prems 1 by (auto split: if_splits)
  have "fst a1 + length (filter is_push cs) \<le> 2 ^ 32"
    "filter is_remove cs \<noteq> [] \<longrightarrow> fst a1 + length (filter is_push cs) \<le> 2 ^ 31"
    using Cons.prems(3,4) next_key_mono[of c a] 1 by (auto split: if_splits)
  with Cons.IH[OF r1(2)] Cons.prems(2) r1(1,3) 1 show ?case by (auto simp: case_prod_beta)
qed simp

lemma reg_is_init: "reg_is (assoc_reg_init n) (1, [])"
  using reg_inv_init[of n] by (simp add: reg_is_def reg_entries_def) (simp add: assoc_reg_init_def)

subsection \<open>Properties\<close>

text \<open>The sample: three insertions, the second one erased again but not compacted.\<close>

definition sample_reg :: "u16 assoc_reg_t" where
  "sample_reg = \<lparr>rg_arr = [\<lparr>b_key = 1, b_has_value = True, b_val = Some 100\<rparr>,
       \<lparr>b_key = 2, b_has_value = False, b_val = Some 200\<rparr>, \<lparr>b_key = 3, b_has_value = True, b_val = Some 300\<rparr>]
       @ replicate 13 bucket0,
     rg_sz = 2, rg_cap = 16, rg_occ_bucket = 3, rg_elm_sz = 2, rg_key_id = 4\<rparr>"

lemma sample_reg_inv: "reg_inv sample_reg"
  by (auto simp: reg_inv_def sample_reg_def alive_def reg_keys_def REG_MIN_SIZE_def intro: exI[of _ 0])

text \<open>
  C29: The binary search of the registry, over the whole range of fewer than 2^31 buckets (its length
  is an \<^verbatim>\<open>int\<close>) with the erased ones among them, is equivalent to a linear search along the
  iterators: for every key it returns the living bucket with that key, or the end.
\<close>

theorem reg_find_is_linear_search:
  assumes "reg_inv reg" "0 < key" "rg_occ_bucket reg < 2 ^ 31"
  shows "\<exists>start. assoc_reg_front reg = Some start
    \<and> find_reg reg start (assoc_reg_end reg) key
      = find_loop (assoc_reg_next reg) (reg_entry reg) (\<lambda>(k, v). k = key) start (assoc_reg_end reg)
    \<and> find_reg reg start (assoc_reg_end reg) key \<noteq> None"
  using find_reg_linear[OF assms] front_ok[OF assms(1)] registry.find_loop_all[OF assms(1)] by simp

theorem reg_find_is_linear_search_witness:
  "find_reg sample_reg 0 3 3 = Some 2 \<and> find_reg sample_reg 0 3 2 = Some 3
    \<and> find_loop (assoc_reg_next sample_reg) (reg_entry sample_reg) (\<lambda>(k, v). k = 2) 0 3 = Some 3"
proof -
  have s: "assoc_reg_front sample_reg = Some 0" "assoc_reg_end sample_reg = 3"
    by (simp_all add: sample_reg_def assoc_reg_front_def assoc_reg_end_def skip_empty.simps)
  have f: "find_reg sample_reg 0 3 3 = Some 2" "find_reg sample_reg 0 3 2 = Some 3"
    by (simp_all add: sample_reg_def find_reg_def assoc_reg_end_def lower_bound_reg_def lower_bound_loop.simps peek_def Let_def)
  show ?thesis using reg_find_is_linear_search[OF sample_reg_inv, of 2] s f by (auto simp: sample_reg_def)
qed

text \<open>
  C27: Every run of operations on a fresh registry with fewer than 2^31 insertions (insertions,
  removals by key, removals by a predicate, updates of all values, in any order) behaves like the
  same run on an association list that hands out the keys 1, 2, 3, ...: the same keys are
  returned, the same entries are left, no operation aborts while the array grows, is compacted
  and shrinks, and the invariants that the test suite of the code checks hold at the end.
\<close>

theorem registry_run_refines:
  assumes "\<forall>c \<in> set cs. op_ok c" "length (filter is_push cs) < 2 ^ 31"
  shows "\<exists>reg. reg_execs cs (assoc_reg_init elm_sz) = Some (fst (ref_execs cs (1, [])), reg)
    \<and> reg_entries reg = snd (snd (ref_execs cs (1, []))) \<and> test_invariants_registry_hold reg
    \<and> assoc_reg_size reg = length (snd (snd (ref_execs cs (1, []))))"
proof -
  obtain reg where r: "reg_execs cs (assoc_reg_init elm_sz) = Some (fst (ref_execs cs (1, [])), reg)"
    "reg_is reg (snd (ref_execs cs (1, [])))"
    using execs_refine[OF reg_is_init assms(1)] assms(2) by auto
  then have inv: "reg_inv reg" and es: "reg_entries reg = snd (snd (ref_execs cs (1, [])))"
    by (simp_all add: reg_is_def)
  have "assoc_reg_size reg = length (alive reg)" using inv by (simp add: assoc_reg_size_def reg_inv_def)
  also have "\<dots> = length (reg_entries reg)" by (simp add: reg_entries_def)
  finally show ?thesis using r(1) es inv_checked[OF inv] by metis
qed

theorem registry_run_refines_witness:
  "\<exists>reg. reg_execs [RPush 10, RPush 20, RPush 30, RRemove 2, RUpdate (\<lambda>v. v + 1), RRemoveIf (\<lambda>v. 30 < v)]
      (assoc_reg_init 2) = Some ([[1], [2], [3], [2], [], [3]], reg) \<and> reg_entries reg = [(1, 11 :: nat)]"
proof -
  let ?cs = "[RPush 10, RPush 20, RPush 30, RRemove 2, RUpdate (\<lambda>v. v + 1), RRemoveIf (\<lambda>v. 30 < v)] :: nat reg_op list"
  have r: "ref_execs ?cs (1, []) = ([[1], [2], [3], [2], [], [3]], 4, [(1, 11)])" by simp
  have "\<forall>c \<in> set ?cs. op_ok c" "length (filter is_push ?cs) < 2 ^ 31" by simp_all
  from registry_run_refines[OF this, of 2] show ?thesis unfolding r by auto
qed

text \<open>Insertions and removals in turn, until the keys are used up.\<close>

definition in_turn :: "'v \<Rightarrow> nat \<Rightarrow> 'v reg_op list" where
  "in_turn v n = concat (map (\<lambda>i. [RPush v, RRemoveIf (\<lambda>_. True)]) [0..<n])"

lemma ref_execs_append:
  "ref_execs (as @ bs) a = (let (o1, a1) = ref_execs as a; (o2, a2) = ref_execs bs a1 in (o1 @ o2, a2))"
  by (induction as arbitrary: a) (auto simp: case_prod_beta Let_def)

lemma in_turn_ref: "snd (ref_execs (in_turn v n) (1, [])) = (Suc n, [])"
  by (induction n) (auto simp: in_turn_def ref_execs_append case_prod_beta)

lemma in_turn_ok: "\<forall>c \<in> set (in_turn v n). op_ok c" "filter is_remove (in_turn v n) = []"
  by (auto simp: in_turn_def filter_concat)

lemma in_turn_pushes: "length (filter is_push (in_turn v n)) = n"
  by (induction n) (auto simp: in_turn_def)

text \<open>
  The guard against an overflow of the keys compares the 64-bit counter with \<^verbatim>\<open>SIZE_MAX\<close>, but
  the keys have 32 bits: after 2^32 - 1 insertions, each removed again, the next insertion passes
  the guard and returns the key 0, with which every search aborts.
\<close>

theorem registry_key_wraps:
  "\<exists>outs reg reg'. reg_execs (in_turn v (2 ^ 32 - 1)) (assoc_reg_init elm_sz) = Some (outs, reg)
    \<and> assoc_reg_push_back reg v elm_sz = Some (0, reg') \<and> reg_entries reg' = [(0, v)]
    \<and> find_reg reg' start_it end_it 0 = None"
proof -
  obtain n :: nat where n: "n = 2 ^ 32 - 1" by blast
  then have "1 + n \<le> 2 ^ 32" by simp_all
  then obtain reg where reg: "reg_execs (in_turn v n) (assoc_reg_init elm_sz) = Some (fst (ref_execs (in_turn v n) (1, [])), reg)"
    "reg_is reg (Suc n, [])" "rg_elm_sz reg = elm_sz"
    using execs_refine[OF reg_is_init in_turn_ok(1), of v n elm_sz] in_turn_ok(2)[of v n] in_turn_pushes[of v n] in_turn_ref[of v n]
    by (auto simp: assoc_reg_init_def)
  have inv: "reg_inv reg" "reg_entries reg = []" "unat (rg_key_id reg) = 2 ^ 32" using reg(2) n by (auto simp: reg_is_def)
  have "rg_key_id reg \<noteq> - 1" using inv(3) by (auto simp: unsigned_minus_1_eq_mask mask_eq_exp_minus_1)
  moreover have "(ucast (rg_key_id reg) :: u32) = 0"
    using inv(3) by (intro word_unat_eq_iff[THEN iffD2]) (simp add: unsigned_ucast_eq take_bit_eq_mod)
  ultimately obtain reg' where "assoc_reg_push_back reg v elm_sz = Some (0, reg')"
    "alive reg' = alive reg @ [\<lparr>b_key = 0, b_has_value = True, b_val = Some v\<rparr>]"
    using push_alive[OF inv(1), of elm_sz v] reg(3) by auto
  moreover from this have "reg_entries reg' = [(0, v)]" using inv(2) by (simp add: reg_entries_def entry_of_def)
  ultimately show ?thesis using reg(1) n by (auto simp: find_reg_def)
qed

end
