(* ===== verification/Assoc_Ht.thy ===== *)
theory Assoc_Ht
  imports Prelude "HOL-Library.Multiset"
begin

text \<open>
  The hash table with open addressing,
  \<^verbatim>\<open>src/src/flexric/src/util/alg_ds/ds/assoc_container/assoc_ht_open_address.c\<close>, and the hash
  function \<^verbatim>\<open>alg/murmur_hash_32.c\<close>.

  A slot that was used once stays dirty until the table is rebuilt; searches pass over dirty slots
  without a value and stop at a clean one.  Keys and values are values of the model (the memory behind
  their pointers, and its release in a replacement or a removal, are not modelled); the counters,
  32 bits wide in the code, are natural numbers with the wrap-around of their products written out.
\<close>

definition w32 :: "nat \<Rightarrow> nat" where
  "w32 n = n mod 2 ^ 32"

record ('k, 'v) hentry_t =
  he_kv :: "('k \<times> 'v) option"
  he_hash :: u32
  is_dirty :: bool
  has_value :: bool

record ('k, 'v) assoc_ht_open_t =
  ht_arr :: "('k, 'v) hentry_t list"
  ht_key_sz :: nat
  ht_sz :: nat
  ht_cap :: nat
  ht_num_dirty :: nat
  ht_key_eq :: "'k \<Rightarrow> 'k \<Rightarrow> bool"
  ht_hash_func :: "'k \<Rightarrow> u32"

definition MIN_SIZE_HT :: nat where "MIN_SIZE_HT = 16"

definition hentry0 :: "('k, 'v) hentry_t" where
  "hentry0 = \<lparr>he_kv = None, he_hash = 0, is_dirty = False, has_value = False\<rparr>"

text \<open>The entry holds a value under the key.\<close>

definition entry_matches :: "('k \<Rightarrow> 'k \<Rightarrow> bool) \<Rightarrow> 'k \<Rightarrow> ('k, 'v) hentry_t \<Rightarrow> bool option" where
  "entry_matches key_eq key e =
     (if has_value e then do { (k, v) \<leftarrow> he_kv e; Some (key_eq key k) } else Some False)"

partial_function (option) find_idx_loop :: "('k, 'v) assoc_ht_open_t \<Rightarrow> 'k \<Rightarrow> nat \<Rightarrow> nat \<Rightarrow> nat option" where
  "find_idx_loop htab key start_idx idx = do {
     e \<leftarrow> peek (ht_arr htab) idx;
     if \<not> is_dirty e then Some idx
     else do {
       m \<leftarrow> entry_matches (ht_key_eq htab) key e;
       if m then Some idx
       else do {
         let idx = (if idx + 1 = ht_cap htab then 0 else idx + 1);
         if start_idx \<noteq> idx then find_idx_loop htab key start_idx idx else None
       }
     }
   }"

definition find_idx :: "('k, 'v) assoc_ht_open_t \<Rightarrow> 'k \<Rightarrow> u32 \<Rightarrow> nat option" where
  "find_idx htab key hash = (let start_idx = unat hash mod ht_cap htab in find_idx_loop htab key start_idx start_idx)"

partial_function (option) rehash_loop :: "('k, 'v) hentry_t list \<Rightarrow> nat \<Rightarrow> ('k, 'v) assoc_ht_open_t \<Rightarrow> nat
    \<Rightarrow> ('k, 'v) assoc_ht_open_t option" where
  "rehash_loop old_arr old_cap htab idx_old =
     (if idx_old < old_cap then do {
        e \<leftarrow> peek old_arr idx_old;
        htab \<leftarrow> (if has_value e then do {
            assert_c (is_dirty e);
            (key, v) \<leftarrow> he_kv e;
            idx_new \<leftarrow> find_idx htab key (he_hash e);
            assert_c (idx_new < length (ht_arr htab));
            Some (htab\<lparr>ht_arr := (ht_arr htab)[idx_new := e], ht_num_dirty := w32 (ht_num_dirty htab + 1)\<rparr>)
          } else Some htab);
        rehash_loop old_arr old_cap htab (idx_old + 1)
      } else Some htab)"

definition rehash_table :: "('k, 'v) assoc_ht_open_t \<Rightarrow> nat \<Rightarrow> ('k, 'v) assoc_ht_open_t option" where
  "rehash_table htab cap =
     rehash_loop (ht_arr htab) (ht_cap htab)
       (htab\<lparr>ht_cap := cap, ht_arr := replicate cap hentry0, ht_num_dirty := 0\<rparr>) 0"

definition expand_or_shrink_if_neccesary :: "('k, 'v) assoc_ht_open_t \<Rightarrow> ('k, 'v) assoc_ht_open_t option" where
  "expand_or_shrink_if_neccesary htab = do {
     htab \<leftarrow> (if w32 (ht_num_dirty htab * 2) > ht_cap htab then rehash_table htab (w32 (ht_cap htab * 2))
       else if w32 (ht_sz htab * 4) < ht_cap htab \<and> ht_cap htab > MIN_SIZE_HT
       then rehash_table htab (ht_cap htab div 2)
       else Some htab);
     assert_c (w32 (ht_sz htab * 2) \<le> ht_cap htab);
     assert_c (w32 (ht_num_dirty htab * 2) \<le> ht_cap htab);
     Some htab
   }"

definition assoc_ht_open_init :: "nat \<Rightarrow> ('k \<Rightarrow> 'k \<Rightarrow> bool) \<Rightarrow> ('k \<Rightarrow> u32) \<Rightarrow> ('k, 'v) assoc_ht_open_t option" where
  "assoc_ht_open_init key_sz key_eq hash_func = do {
     assert_c (key_sz > 0);
     Some \<lparr>ht_arr = replicate MIN_SIZE_HT hentry0, ht_key_sz = key_sz, ht_sz = 0, ht_cap = MIN_SIZE_HT,
       ht_num_dirty = 0, ht_key_eq = key_eq, ht_hash_func = hash_func\<rparr>
   }"

definition assoc_ht_open_insert :: "('k, 'v) assoc_ht_open_t \<Rightarrow> 'k \<Rightarrow> nat \<Rightarrow> 'v \<Rightarrow> ('k, 'v) assoc_ht_open_t option" where
  "assoc_ht_open_insert htab key key_sz val = do {
     assert_c (ht_key_sz htab = key_sz);
     htab \<leftarrow> expand_or_shrink_if_neccesary htab;
     assert_c (w32 (ht_num_dirty htab * 2) \<le> ht_cap htab);
     let hash = ht_hash_func htab key;
     idx \<leftarrow> find_idx htab key hash;
     assert_c (idx < ht_cap htab);
     e \<leftarrow> peek (ht_arr htab) idx;
     (k, htab) \<leftarrow> (if has_value e then do {
         assert_c (is_dirty e);
         (k, v) \<leftarrow> he_kv e;
         assert_c (ht_key_eq htab key k);
         Some (k, htab)
       } else Some (key, htab\<lparr>ht_sz := w32 (ht_sz htab + 1)\<rparr>));
     let htab = (if is_dirty e then htab else htab\<lparr>ht_num_dirty := w32 (ht_num_dirty htab + 1)\<rparr>);
     Some (htab\<lparr>ht_arr := (ht_arr htab)[idx := \<lparr>he_kv = Some (k, val), he_hash = hash, is_dirty = True, has_value = True\<rparr>]\<rparr>)
   }"

text \<open>The inner option is the null pointer of a key that is not found.\<close>

partial_function (option) find_entry_loop :: "('k, 'v) assoc_ht_open_t \<Rightarrow> 'k \<Rightarrow> nat \<Rightarrow> nat \<Rightarrow> nat option option" where
  "find_entry_loop htab key start_idx idx = do {
     e \<leftarrow> peek (ht_arr htab) idx;
     if \<not> is_dirty e then do { assert_c (\<not> has_value e); Some None }
     else do {
       m \<leftarrow> entry_matches (ht_key_eq htab) key e;
       if m then Some (Some idx)
       else do {
         let idx = (if idx + 1 = ht_cap htab then 0 else idx + 1);
         if idx \<noteq> start_idx then find_entry_loop htab key start_idx idx else None
       }
     }
   }"

definition find_entry :: "('k, 'v) assoc_ht_open_t \<Rightarrow> 'k \<Rightarrow> nat option option" where
  "find_entry htab key = (let start_idx = unat (ht_hash_func htab key) mod ht_cap htab
     in find_entry_loop htab key start_idx start_idx)"

definition remove_value_htab :: "('k, 'v) assoc_ht_open_t \<Rightarrow> 'k \<Rightarrow> ('k, 'v) assoc_ht_open_t option" where
  "remove_value_htab htab key = do {
     htab \<leftarrow> expand_or_shrink_if_neccesary htab;
     assert_c (w32 (ht_num_dirty htab * 2) \<le> ht_cap htab);
     entry \<leftarrow> find_entry htab key;
     case entry of None \<Rightarrow> Some htab
     | Some idx \<Rightarrow> do {
         e \<leftarrow> peek (ht_arr htab) idx;
         assert_c (is_dirty e \<and> has_value e);
         Some (htab\<lparr>ht_arr := (ht_arr htab)[idx := e\<lparr>has_value := False\<rparr>],
           ht_sz := (if ht_sz htab = 0 then 2 ^ 32 - 1 else ht_sz htab - 1)\<rparr>)
       }
   }"

definition assoc_ht_open_value :: "('k, 'v) assoc_ht_open_t \<Rightarrow> 'k \<Rightarrow> 'v option option" where
  "assoc_ht_open_value htab key = do {
     entry \<leftarrow> find_entry htab key;
     case entry of None \<Rightarrow> Some None
     | Some idx \<Rightarrow> do { e \<leftarrow> peek (ht_arr htab) idx; (k, v) \<leftarrow> he_kv e; Some (Some v) }
   }"

definition assoc_ht_open_size :: "('k, 'v) assoc_ht_open_t \<Rightarrow> nat" where
  "assoc_ht_open_size htab = ht_sz htab"

text \<open>The keys and values that freeing the table hands to the callback, in order.\<close>

partial_function (option) ht_free_loop :: "('k, 'v) assoc_ht_open_t \<Rightarrow> nat \<Rightarrow> ('k \<times> 'v) option list option" where
  "ht_free_loop htab i =
     (if i < ht_cap htab then do {
        e \<leftarrow> peek (ht_arr htab) i;
        if has_value e then do {
          assert_c (is_dirty e);
          freed \<leftarrow> ht_free_loop htab (i + 1);
          Some (he_kv e # freed)
        } else ht_free_loop htab (i + 1)
      } else Some [])"

definition assoc_ht_open_free :: "('k, 'v) assoc_ht_open_t \<Rightarrow> ('k \<times> 'v) option list option" where
  "assoc_ht_open_free htab = ht_free_loop htab 0"

subsection \<open>The hash function\<close>

definition murmur_32_scramble :: "u32 \<Rightarrow> u32" where
  "murmur_32_scramble k =
     (let k = k * 0xcc9e2d51; k = push_bit 15 k OR drop_bit 17 k in k * 0x1b873593)"

fun murmur_groups :: "nat \<Rightarrow> u8 list \<Rightarrow> u32 \<Rightarrow> u32 \<times> u8 list" where
  "murmur_groups 0 key h = (h, key)"
| "murmur_groups (Suc i) key h =
     (let k = of_le (take 4 key);
          h = h XOR murmur_32_scramble k;
          h = push_bit 13 h OR drop_bit 19 h;
          h = h * 5 + 0xe6546b64
      in murmur_groups i (drop 4 key) h)"

fun murmur_rest :: "nat \<Rightarrow> u8 list \<Rightarrow> u32 \<Rightarrow> u32" where
  "murmur_rest 0 key k = k"
| "murmur_rest (Suc i) key k = murmur_rest i key (push_bit 8 k OR ucast (key ! i))"

definition murmur3_32 :: "u8 list \<Rightarrow> u32 \<Rightarrow> u32" where
  "murmur3_32 key seed =
     (let (h, rest) = murmur_groups (length key div 4) key seed;
          k = murmur_rest (length key mod 4) rest 0;
          h = h XOR murmur_32_scramble k;
          h = h XOR of_nat (length key);
          h = h XOR drop_bit 16 h;
          h = h * 0x85ebca6b;
          h = h XOR drop_bit 13 h;
          h = h * 0xc2b2ae35
      in h XOR drop_bit 16 h)"

text \<open>Test vectors of the reference implementation: the empty key, and "test".\<close>

lemma murmur_empty: "murmur3_32 [] 0 = 0" "murmur3_32 [] 1 = 0x514E28B7"
  by (simp_all add: murmur3_32_def murmur_32_scramble_def Let_def)

lemma murmur_test: "murmur3_32 [116, 101, 115, 116] 0 = 0xba6bd213"
  by code_simp

end
