(* ===== verification/Ht_Laws.thy ===== *)
theory Ht_Laws
  imports Assoc_Ht
begin

text \<open>
  Laws of the hash table.  The locale \<open>hashing\<close> is what the table needs of the two functions that a
  client passes: the equality is an equivalence, and equal keys have equal hashes.
\<close>

subsection \<open>Probing\<close>

definition probe :: "('k, 'v) hentry_t list \<Rightarrow> u32 \<Rightarrow> nat \<Rightarrow> nat" where
  "probe a hash j = (unat hash mod length a + j) mod length a"

definition live :: "('k, 'v) hentry_t list \<Rightarrow> nat \<Rightarrow> bool" where
  "live a i \<longleftrightarrow> i < length a \<and> has_value (a ! i)"

definition kv_at :: "('k, 'v) hentry_t list \<Rightarrow> nat \<Rightarrow> 'k \<times> 'v" where
  "kv_at a i = the (he_kv (a ! i))"

lemma probe_less: "0 < length a \<Longrightarrow> probe a hash j < length a"
  by (simp add: probe_def)

lemma probe_0: "probe a hash 0 = unat hash mod length a"
  by (simp add: probe_def)

lemma probe_Suc: "0 < length a \<Longrightarrow> probe a hash (Suc j) = (if probe a hash j + 1 = length a then 0 else probe a hash j + 1)"
  by (simp add: probe_def mod_Suc)

lemma mod_sum: "s < n \<Longrightarrow> d < n \<Longrightarrow> (s + d) mod n = (if s + d < n then s + d else s + d - n)" for n :: nat
  by (simp add: le_mod_geq not_less)

lemma probe_eq:
  assumes "d < length a"
  shows "probe a hash d = (if unat hash mod length a + d < length a then unat hash mod length a + d
    else unat hash mod length a + d - length a)"
proof -
  have "unat hash mod length a < length a" using assms by (intro mod_less_divisor) auto
  then show ?thesis using assms by (simp only: probe_def mod_sum)
qed

lemma probe_inj:
  assumes "probe a hash d = probe a hash d'" "d < length a" "d' < length a"
  shows "d = d'"
proof -
  have "unat hash mod length a < length a" using assms by (intro mod_less_divisor) auto
  then show ?thesis using assms by (auto simp: probe_eq split: if_splits)
qed

lemma probe_round: "0 < d \<Longrightarrow> d < length a \<Longrightarrow> probe a hash d \<noteq> probe a hash 0"
  by (rule notI, drule probe_inj) auto

lemma probe_onto:
  assumes "i < length a"
  shows "\<exists>d < length a. probe a hash d = i"
proof -
  let ?s = "unat hash mod length a"
  have s: "?s < length a" using assms by (intro mod_less_divisor) auto
  show ?thesis
  proof (cases "?s \<le> i")
    case True
    then show ?thesis using assms s by (intro exI[of _ "i - ?s"]) (simp add: probe_eq)
  next
    case False
    then show ?thesis using assms s by (intro exI[of _ "length a - ?s + i"]) (auto simp: probe_eq)
  qed
qed

text \<open>The slots before the \<open>d\<close>-th of the sequence are dirty and do not match.\<close>

definition passes :: "('k, 'v) assoc_ht_open_t \<Rightarrow> 'k \<Rightarrow> u32 \<Rightarrow> nat \<Rightarrow> bool" where
  "passes htab key hash d \<longleftrightarrow> (\<forall>j < d. is_dirty (ht_arr htab ! probe (ht_arr htab) hash j)
     \<and> entry_matches (ht_key_eq htab) key (ht_arr htab ! probe (ht_arr htab) hash j) = Some False)"

lemma find_idx_loop_ok:
  assumes "length (ht_arr htab) = ht_cap htab" "d < ht_cap htab" "passes htab key hash d" "j \<le> d"
    and "\<not> is_dirty (ht_arr htab ! probe (ht_arr htab) hash d)
      \<or> entry_matches (ht_key_eq htab) key (ht_arr htab ! probe (ht_arr htab) hash d) = Some True"
  shows "find_idx_loop htab key (probe (ht_arr htab) hash 0) (probe (ht_arr htab) hash j)
    = Some (probe (ht_arr htab) hash d)"
  using assms(4)
proof (induction "d - j" arbitrary: j)
  case 0
  have "0 < length (ht_arr htab)" using assms(1,2) by simp
  with 0 assms(5) probe_less[of "ht_arr htab" hash d] show ?case by (subst find_idx_loop.simps) auto
next
  case (Suc m)
  let ?a = "ht_arr htab"
  have pos: "0 < length ?a" and j: "j < d" using assms(1,2) Suc by simp_all
  have "is_dirty (?a ! probe ?a hash j)" "entry_matches (ht_key_eq htab) key (?a ! probe ?a hash j) = Some False"
    using assms(3) j by (auto simp: passes_def)
  moreover have "probe ?a hash 0 \<noteq> probe ?a hash (Suc j)"
    using probe_round[of "Suc j" ?a hash] assms(1,2) j by simp
  moreover have "find_idx_loop htab key (probe ?a hash 0) (probe ?a hash (Suc j)) = Some (probe ?a hash d)"
    using Suc j by simp
  ultimately show ?case
    using probe_less[OF pos, of hash j] probe_Suc[OF pos, of hash j] assms(1)
    by (subst find_idx_loop.simps) (simp add: Let_def split: if_splits)
qed

lemma find_entry_loop_ok:
  assumes "length (ht_arr htab) = ht_cap htab" "d < ht_cap htab" "passes htab key hash d" "j \<le> d"
    and "\<not> is_dirty (ht_arr htab ! probe (ht_arr htab) hash d) \<and> \<not> has_value (ht_arr htab ! probe (ht_arr htab) hash d)
      \<or> is_dirty (ht_arr htab ! probe (ht_arr htab) hash d)
        \<and> entry_matches (ht_key_eq htab) key (ht_arr htab ! probe (ht_arr htab) hash d) = Some True"
  shows "find_entry_loop htab key (probe (ht_arr htab) hash 0) (probe (ht_arr htab) hash j)
    = Some (if is_dirty (ht_arr htab ! probe (ht_arr htab) hash d) then Some (probe (ht_arr htab) hash d) else None)"
  using assms(4)
proof (induction "d - j" arbitrary: j)
  case 0
  have "0 < length (ht_arr htab)" using assms(1,2) by simp
  with 0 assms(5) probe_less[of "ht_arr htab" hash d] show ?case by (subst find_entry_loop.simps) auto
next
  case (Suc m)
  let ?a = "ht_arr htab"
  have pos: "0 < length ?a" and j: "j < d" using assms(1,2) Suc by simp_all
  have "is_dirty (?a ! probe ?a hash j)" "entry_matches (ht_key_eq htab) key (?a ! probe ?a hash j) = Some False"
    using assms(3) j by (auto simp: passes_def)
  moreover have "probe ?a hash (Suc j) \<noteq> probe ?a hash 0"
    using probe_round[of "Suc j" ?a hash] assms(1,2) j by simp
  moreover have "find_entry_loop htab key (probe ?a hash 0) (probe ?a hash (Suc j))
      = Some (if is_dirty (?a ! probe ?a hash d) then Some (probe ?a hash d) else None)"
    using Suc j by simp
  ultimately show ?case
    using probe_less[OF pos, of hash j] probe_Suc[OF pos, of hash j] assms(1)
    by (subst find_entry_loop.simps) (simp add: Let_def split: if_splits)
qed

subsection \<open>The slots\<close>

locale hashing =
  fixes eq :: "'k \<Rightarrow> 'k \<Rightarrow> bool" and h :: "'k \<Rightarrow> u32"
  assumes eq_refl: "eq x x"
    and eq_sym: "eq x y \<Longrightarrow> eq y x"
    and eq_trans: "eq x y \<Longrightarrow> eq y z \<Longrightarrow> eq x z"
    and hash_eq: "eq x y \<Longrightarrow> h x = h y"

definition slots_ok :: "('k \<Rightarrow> 'k \<Rightarrow> bool) \<Rightarrow> ('k \<Rightarrow> u32) \<Rightarrow> ('k, 'v) hentry_t list \<Rightarrow> bool" where
  "slots_ok eq h a \<longleftrightarrow> (\<forall>i. live a i \<longrightarrow> is_dirty (a ! i) \<and> he_kv (a ! i) \<noteq> None \<and> he_hash (a ! i) = h (fst (kv_at a i))
      \<and> (\<exists>d < length a. i = probe a (he_hash (a ! i)) d \<and> (\<forall>j < d. is_dirty (a ! probe a (he_hash (a ! i)) j))))
    \<and> (\<forall>i j. live a i \<longrightarrow> live a j \<longrightarrow> eq (fst (kv_at a i)) (fst (kv_at a j)) \<longrightarrow> i = j)"

lemma slots_live:
  assumes "slots_ok eq h a" "live a i"
  shows "is_dirty (a ! i)" "he_kv (a ! i) = Some (kv_at a i)" "he_hash (a ! i) = h (fst (kv_at a i))"
    "\<exists>d < length a. i = probe a (h (fst (kv_at a i))) d \<and> (\<forall>j < d. is_dirty (a ! probe a (h (fst (kv_at a i))) j))"
proof -
  from assms have l: "is_dirty (a ! i)" "he_kv (a ! i) \<noteq> None" "he_hash (a ! i) = h (fst (kv_at a i))"
    "\<exists>d < length a. i = probe a (he_hash (a ! i)) d \<and> (\<forall>j < d. is_dirty (a ! probe a (he_hash (a ! i)) j))"
    unfolding slots_ok_def by blast+
  then show "is_dirty (a ! i)" "he_kv (a ! i) = Some (kv_at a i)" "he_hash (a ! i) = h (fst (kv_at a i))"
    "\<exists>d < length a. i = probe a (h (fst (kv_at a i))) d \<and> (\<forall>j < d. is_dirty (a ! probe a (h (fst (kv_at a i))) j))"
    by (auto simp: kv_at_def)
qed

lemma slots_unique: "slots_ok eq h a \<Longrightarrow> live a i \<Longrightarrow> live a j \<Longrightarrow> eq (fst (kv_at a i)) (fst (kv_at a j)) \<Longrightarrow> i = j"
  unfolding slots_ok_def by blast

lemma matches_at:
  assumes "slots_ok eq h a" "i < length a"
  shows "entry_matches eq key (a ! i) = Some (has_value (a ! i) \<and> eq key (fst (kv_at a i)))"
  using assms slots_live(2)[OF assms(1), of i]
  by (cases "has_value (a ! i)") (auto simp: entry_matches_def live_def case_prod_beta)

text \<open>A table whose functions are \<open>eq\<close> and \<open>h\<close>.\<close>

definition uses :: "('k, 'v) assoc_ht_open_t \<Rightarrow> ('k \<Rightarrow> 'k \<Rightarrow> bool) \<Rightarrow> ('k \<Rightarrow> u32) \<Rightarrow> bool" where
  "uses htab eq h \<longleftrightarrow> ht_key_eq htab = eq \<and> ht_hash_func htab = h \<and> length (ht_arr htab) = ht_cap htab
     \<and> slots_ok eq h (ht_arr htab)"

context hashing
begin

lemma hit:
  assumes "uses htab eq h" "live (ht_arr htab) i" "eq key (fst (kv_at (ht_arr htab) i))"
  shows "find_idx htab key (h key) = Some i" "find_entry htab key = Some (Some i)"
proof -
  let ?a = "ht_arr htab"
  have u: "ht_key_eq htab = eq" "ht_hash_func htab = h" "length ?a = ht_cap htab" "slots_ok eq h ?a"
    using assms(1) by (auto simp: uses_def)
  have hk: "h (fst (kv_at ?a i)) = h key" using hash_eq[OF assms(3)] by simp
  obtain d where d: "d < length ?a" "i = probe ?a (h key) d" "\<forall>j < d. is_dirty (?a ! probe ?a (h key) j)"
    using slots_live(4)[OF u(4) assms(2)] unfolding hk by blast
  have i: "i < length ?a" "has_value (?a ! i)" using assms(2) by (auto simp: live_def)
  have "entry_matches eq key (?a ! probe ?a (h key) j) = Some False" if "j < d" for j
  proof -
    let ?p = "probe ?a (h key) j"
    have p: "?p < length ?a" using i(1) by (intro probe_less) auto
    have "?p \<noteq> i" using probe_inj[of ?a "h key" j d] that d(1,2) by auto
    then have "\<not> (has_value (?a ! ?p) \<and> eq key (fst (kv_at ?a ?p)))"
      using slots_unique[OF u(4), of ?p i] assms(2,3) p eq_sym eq_trans by (metis live_def)
    then show ?thesis using matches_at[OF u(4) p] by simp
  qed
  then have "passes htab key (h key) d" using d(3) u(1) by (simp add: passes_def)
  moreover have "entry_matches eq key (?a ! i) = Some True" using matches_at[OF u(4) i(1)] i(2) assms(3) by simp
  ultimately show "find_idx htab key (h key) = Some i" "find_entry htab key = Some (Some i)"
    using find_idx_loop_ok[of htab d key "h key" 0] find_entry_loop_ok[of htab d key "h key" 0] d(1,2) u
      slots_live(1)[OF u(4) assms(2)]
    by (simp_all add: find_idx_def find_entry_def probe_0)
qed

lemma miss:
  assumes "uses htab eq h" "\<And>i. live (ht_arr htab) i \<Longrightarrow> \<not> eq key (fst (kv_at (ht_arr htab) i))"
    and "c < ht_cap htab" "\<not> is_dirty (ht_arr htab ! c)"
  shows "\<exists>d < ht_cap htab. find_idx htab key (h key) = Some (probe (ht_arr htab) (h key) d)
    \<and> find_entry htab key = Some None \<and> \<not> is_dirty (ht_arr htab ! probe (ht_arr htab) (h key) d)
    \<and> (\<forall>j < d. is_dirty (ht_arr htab ! probe (ht_arr htab) (h key) j))"
proof -
  let ?a = "ht_arr htab"
  let ?clean = "\<lambda>d. d < length ?a \<and> \<not> is_dirty (?a ! probe ?a (h key) d)"
  have u: "ht_key_eq htab = eq" "ht_hash_func htab = h" "length ?a = ht_cap htab" "slots_ok eq h ?a"
    using assms(1) by (auto simp: uses_def)
  have "\<exists>d. ?clean d" using probe_onto[of c ?a "h key"] assms(3,4) u(3) by auto
  then obtain d where d: "?clean d" "\<And>j. j < d \<Longrightarrow> \<not> ?clean j" using exists_least_iff[of ?clean] by blast
  have pos: "0 < length ?a" using d(1) by auto
  have dirty: "\<forall>j < d. is_dirty (?a ! probe ?a (h key) j)" using d by (metis order.strict_trans)
  have no: "entry_matches eq key (?a ! probe ?a (h key) j) = Some False" for j
    using matches_at[OF u(4) probe_less[OF pos]] assms(2)[of "probe ?a (h key) j"] probe_less[OF pos]
    by (auto simp: live_def)
  have "passes htab key (h key) d" using dirty no u(1) by (simp add: passes_def)
  moreover have "\<not> has_value (?a ! probe ?a (h key) d)"
    using slots_live(1)[OF u(4), of "probe ?a (h key) d"] d(1) probe_less[OF pos] by (auto simp: live_def)
  ultimately show ?thesis
    using find_idx_loop_ok[of htab d key "h key" 0] find_entry_loop_ok[of htab d key "h key" 0] d(1) u dirty
    by (intro exI[of _ d]) (simp add: find_idx_def find_entry_def probe_0)
qed

text \<open>Writing an entry into a slot that a search of its key reaches.\<close>

lemma slots_put:
  assumes "slots_ok eq h a" "d < length a" "\<forall>j < d. is_dirty (a ! probe a (h k) j)" "i = probe a (h k) d"
    and "\<And>j. live a j \<Longrightarrow> j \<noteq> i \<Longrightarrow> \<not> eq k (fst (kv_at a j))"
    and e: "e = \<lparr>he_kv = Some (k, v), he_hash = h k, is_dirty = True, has_value = True\<rparr>"
  shows "slots_ok eq h (a[i := e])"
proof -
  let ?b = "a[i := e]"
  have len: "length ?b = length a" by simp
  have pos: "0 < length a" using assms(2) by auto
  have i: "i < length a" using assms(4) probe_less[OF pos] by simp
  have pr: "probe ?b = probe a" by (simp add: probe_def fun_eq_iff)
  have at: "?b ! j = (if j = i then e else a ! j)" if "j < length a" for j using that i by simp
  have dirty: "is_dirty (?b ! j)" if "j < length a" "is_dirty (a ! j)" for j using at[OF that(1)] that(2) e by simp
  have lv: "live ?b j \<longleftrightarrow> j = i \<or> live a j" for j
    using i by (cases "j = i") (auto simp: live_def e)
  have kv: "kv_at ?b j = (if j = i then (k, v) else kv_at a j)" if "j < length a" for j
    using at[OF that] e by (simp add: kv_at_def)
  have lt: "j < length a" if "live ?b j" for j using that by (simp add: live_def)
  show ?thesis
    unfolding slots_ok_def pr len
  proof (intro conjI allI impI)
    fix j assume j: "live ?b j"
    note jl = lt[OF j]
    show "is_dirty (?b ! j)" using j lv[of j] slots_live(1)[OF assms(1), of j] at[OF jl] e by auto
    show "he_kv (?b ! j) \<noteq> None" using j lv[of j] slots_live(2)[OF assms(1), of j] at[OF jl] e by auto
    show "he_hash (?b ! j) = h (fst (kv_at ?b j))"
      using j lv[of j] slots_live(3)[OF assms(1), of j] at[OF jl] kv[OF jl] e by auto
    show "\<exists>d < length a. j = probe a (he_hash (?b ! j)) d \<and> (\<forall>m < d. is_dirty (?b ! probe a (he_hash (?b ! j)) m))"
    proof (cases "j = i")
      case True
      then show ?thesis using assms(2-4) at[OF jl] dirty probe_less[OF pos] e by (intro exI[of _ d]) auto
    next
      case False
      then have la: "live a j" using j lv by simp
      from slots_live(4)[OF assms(1) la] slots_live(3)[OF assms(1) la] obtain d' where
        "d' < length a" "j = probe a (he_hash (a ! j)) d'" "\<forall>m < d'. is_dirty (a ! probe a (he_hash (a ! j)) m)" by metis
      then show ?thesis using at[OF jl] dirty probe_less[OF pos] False by (intro exI[of _ d']) auto
    qed
  next
    fix j m assume j: "live ?b j" "live ?b m" "eq (fst (kv_at ?b j)) (fst (kv_at ?b m))"
    show "j = m"
    proof (rule ccontr)
      assume ne: "j \<noteq> m"
      show False
        using j lv kv[OF lt[OF j(1)]] kv[OF lt[OF j(2)]] ne assms(5) slots_unique[OF assms(1), of j m] eq_sym
        by (cases "j = i"; cases "m = i") auto
    qed
  qed
qed

text \<open>Taking the value out of a slot; a slot that is not live does not matter.\<close>

lemma slots_drop:
  assumes "slots_ok eq h a" "i < length a" "is_dirty (a ! i)"
  shows "slots_ok eq h (a[i := (a ! i)\<lparr>has_value := False\<rparr>])"
proof -
  let ?b = "a[i := (a ! i)\<lparr>has_value := False\<rparr>]"
  have pr: "probe ?b = probe a" by (simp add: probe_def fun_eq_iff)
  have len: "length ?b = length a" by simp
  have lv: "live ?b j \<longleftrightarrow> j \<noteq> i \<and> live a j" for j using assms(2) by (auto simp: live_def nth_list_update)
  have pos: "0 < length a" using assms(2) by auto
  have dirty: "is_dirty (?b ! j) = is_dirty (a ! j)" if "j < length a" for j
    using that assms(2,3) by (cases "j = i") auto
  have at: "?b ! j = a ! j" "kv_at ?b j = kv_at a j" if "live ?b j" for j
    using that lv[of j] by (auto simp: kv_at_def)
  show ?thesis
    unfolding slots_ok_def pr len
    using lv at dirty probe_less[OF pos] slots_live[OF assms(1)] slots_unique[OF assms(1)]
    by (auto simp: live_def)
qed

end

subsection \<open>Contents and counters\<close>

definition pairs :: "('k, 'v) hentry_t list \<Rightarrow> ('k \<times> 'v) multiset" where
  "pairs a = image_mset (\<lambda>e. the (he_kv e)) (filter_mset has_value (mset a))"

definition ndirty :: "('k, 'v) hentry_t list \<Rightarrow> nat" where
  "ndirty a = size (filter_mset is_dirty (mset a))"

lemma pairs_update:
  assumes "i < length a"
  shows "pairs (a[i := e]) + (if has_value (a ! i) then {#kv_at a i#} else {#})
    = pairs a + (if has_value e then {#the (he_kv e)#} else {#})"
proof -
  have "a ! i \<in># mset a" using assms by simp
  then obtain A where "mset a = add_mset (a ! i) A" by (metis insert_DiffM)
  then show ?thesis using assms by (auto simp: pairs_def mset_update kv_at_def)
qed

lemma ndirty_update:
  assumes "i < length a"
  shows "ndirty (a[i := e]) + (if is_dirty (a ! i) then 1 else 0) = ndirty a + (if is_dirty e then 1 else 0)"
proof -
  have "a ! i \<in># mset a" using assms by simp
  then obtain A where "mset a = add_mset (a ! i) A" by (metis insert_DiffM)
  then show ?thesis using assms by (auto simp: ndirty_def mset_update)
qed

lemma in_pairs: "p \<in># pairs a \<longleftrightarrow> (\<exists>i. live a i \<and> kv_at a i = p)"
  by (fastforce simp: pairs_def live_def kv_at_def in_set_conv_nth)

lemma pairs_dirty:
  assumes "slots_ok eq h a"
  shows "size (pairs a) \<le> ndirty a"
proof -
  have "\<forall>e \<in> set a. has_value e \<longrightarrow> is_dirty e"
    using slots_live(1)[OF assms] by (auto simp: live_def in_set_conv_nth)
  then have "length (filter has_value a) \<le> length (filter is_dirty a)" by (induction a) auto
  then show ?thesis by (simp add: pairs_def ndirty_def mset_filter[symmetric] del: mset_filter)
qed

lemma clean_slot: "ndirty a < length a \<Longrightarrow> \<exists>c < length a. \<not> is_dirty (a ! c)"
proof (rule ccontr)
  assume "ndirty a < length a" "\<not> (\<exists>c < length a. \<not> is_dirty (a ! c))"
  then have "filter is_dirty a = a" by (intro filter_True) (auto simp: in_set_conv_nth)
  then have "ndirty a = length a" by (simp add: ndirty_def mset_filter[symmetric] del: mset_filter)
  then show False using \<open>ndirty a < length a\<close> by simp
qed

lemma empty_slots: "slots_ok eq h (replicate n hentry0)" "pairs (replicate n hentry0) = {#}" "ndirty (replicate n hentry0) = 0"
  by (auto simp: slots_ok_def live_def hentry0_def pairs_def ndirty_def filter_mset_eq_conv)

lemma w32_id: "n < 2 ^ 32 \<Longrightarrow> w32 n = n"
  by (simp add: w32_def)

lemma pairs_take:
  assumes "i < length a"
  shows "pairs (take (Suc i) a) = pairs (take i a) + (if has_value (a ! i) then {#kv_at a i#} else {#})"
  using assms by (simp add: take_Suc_conv_app_nth pairs_def kv_at_def)

definition same_funcs :: "('k, 'v) assoc_ht_open_t \<Rightarrow> ('k, 'v) assoc_ht_open_t \<Rightarrow> bool" where
  "same_funcs t t' \<longleftrightarrow> ht_key_eq t' = ht_key_eq t \<and> ht_hash_func t' = ht_hash_func t \<and> ht_key_sz t' = ht_key_sz t"

definition ht_inv :: "('k \<Rightarrow> 'k \<Rightarrow> bool) \<Rightarrow> ('k \<Rightarrow> u32) \<Rightarrow> ('k, 'v) assoc_ht_open_t \<Rightarrow> bool" where
  "ht_inv eq h t \<longleftrightarrow> uses t eq h \<and> (\<exists>k. ht_cap t = MIN_SIZE_HT * 2 ^ k) \<and> ht_sz t = size (pairs (ht_arr t))
     \<and> ht_num_dirty t = ndirty (ht_arr t) \<and> ht_num_dirty t * 2 \<le> ht_cap t + 2 \<and> ht_cap t \<le> 2 ^ 30"

context hashing
begin

lemma rehash_loop_ok:
  assumes "slots_ok eq h old" "uses t eq h" "i \<le> length old" "pairs (ht_arr t) = pairs (take i old)"
    and "ht_num_dirty t = size (pairs (ht_arr t))" "ndirty (ht_arr t) = size (pairs (ht_arr t))"
    and "size (pairs old) < ht_cap t" "ht_cap t < 2 ^ 32"
  shows "\<exists>t'. rehash_loop old (length old) t i = Some t' \<and> uses t' eq h \<and> pairs (ht_arr t') = pairs old
    \<and> ht_num_dirty t' = size (pairs old) \<and> ndirty (ht_arr t') = size (pairs old)
    \<and> ht_cap t' = ht_cap t \<and> ht_sz t' = ht_sz t \<and> ht_key_sz t' = ht_key_sz t"
  using assms
proof (induction "length old - i" arbitrary: i t)
  case 0
  then show ?case by (simp add: rehash_loop.simps)
next
  case (Suc m)
  let ?a = "ht_arr t"
  have i: "i < length old" using Suc.hyps(2) by simp
  have m: "m = length old - Suc i" using Suc.hyps(2) by simp
  have u: "ht_key_eq t = eq" "ht_hash_func t = h" "length ?a = ht_cap t" "slots_ok eq h ?a"
    using Suc.prems(2) by (auto simp: uses_def)
  show ?case
  proof (cases "has_value (old ! i)")
    case False
    then have "pairs ?a = pairs (take (Suc i) old)" using Suc.prems(4) pairs_take[OF i] by simp
    with Suc.hyps(1)[OF m Suc.prems(1,2) _ this Suc.prems(5-8)] i False
    show ?thesis by (subst rehash_loop.simps) simp
  next
    case True
    then have lv: "live old i" using i by (simp add: live_def)
    obtain k v where kv: "kv_at old i = (k, v)" by (cases "kv_at old i")
    note o = slots_live(1-3)[OF Suc.prems(1) lv]
    have e: "old ! i = \<lparr>he_kv = Some (k, v), he_hash = h k, is_dirty = True, has_value = True\<rparr>"
      using o True kv by (cases "old ! i") simp
    have new: "\<not> eq k (fst (kv_at ?a j))" if "live ?a j" for j
    proof
      assume c: "eq k (fst (kv_at ?a j))"
      have "kv_at ?a j \<in># pairs (take i old)" using that Suc.prems(4) in_pairs by metis
      then obtain j' where j': "live (take i old) j'" "kv_at (take i old) j' = kv_at ?a j" using in_pairs by metis
      then have "j' < i" "live old j'" "kv_at old j' = kv_at ?a j" using i by (auto simp: live_def kv_at_def)
      then show False using slots_unique[OF Suc.prems(1) lv, of j'] c kv by simp
    qed
    have sub: "size (pairs ?a) < size (pairs old)"
    proof -
      have "pairs (take (Suc i) old) \<subseteq># pairs old"
        by (auto simp: pairs_def intro!: image_mset_subseteq_mono multiset_filter_mono)
          (metis append_take_drop_id mset_append mset_subset_eq_add_left)
      then show ?thesis using Suc.prems(4) pairs_take[OF i] True size_mset_mono by fastforce
    qed
    then obtain c where c: "c < ht_cap t" "\<not> is_dirty (?a ! c)"
      using clean_slot[of ?a] Suc.prems(6,7) u(3) by auto
    obtain d where d: "d < ht_cap t" "find_idx t k (h k) = Some (probe ?a (h k) d)"
      "\<not> is_dirty (?a ! probe ?a (h k) d)" "\<forall>j < d. is_dirty (?a ! probe ?a (h k) j)"
      using miss[OF Suc.prems(2) new c] by blast
    let ?p = "probe ?a (h k) d"
    have p: "?p < length ?a" using d(1) u(3) by (intro probe_less) auto
    let ?t = "t\<lparr>ht_arr := ?a[?p := old ! i], ht_num_dirty := w32 (ht_num_dirty t + 1)\<rparr>"
    have nv: "\<not> has_value (?a ! ?p)" using slots_live(1)[OF u(4), of ?p] d(3) p by (auto simp: live_def)
    have "slots_ok eq h (?a[?p := old ! i])"
      by (rule slots_put[OF u(4) _ d(4) refl _ e]) (use d(1) u(3) new in auto)
    then have ut: "uses ?t eq h" using u by (simp add: uses_def)
    have pt: "pairs (ht_arr ?t) = pairs (take (Suc i) old)"
      using pairs_update[OF p, of "old ! i"] nv True Suc.prems(4) pairs_take[OF i] e kv by simp
    have nd: "ht_num_dirty t + 1 < 2 ^ 32" using sub Suc.prems(5,7,8) by simp
    have c1: "ht_num_dirty ?t = size (pairs (ht_arr ?t))"
      using pt Suc.prems(4,5) pairs_take[OF i] True w32_id[OF nd] by simp
    have "ndirty (ht_arr ?t) = size (pairs (ht_arr ?t))"
      using ndirty_update[OF p, of "old ! i"] d(3) o(1) Suc.prems(6) pt Suc.prems(4) pairs_take[OF i] True by simp
    with Suc.hyps(1)[OF m Suc.prems(1) ut _ pt c1] Suc.prems(7,8) i
    obtain t' where "rehash_loop old (length old) ?t (Suc i) = Some t'" "uses t' eq h" "pairs (ht_arr t') = pairs old"
      "ht_num_dirty t' = size (pairs old)" "ndirty (ht_arr t') = size (pairs old)" "ht_cap t' = ht_cap t"
      "ht_sz t' = ht_sz t" "ht_key_sz t' = ht_key_sz t" by auto
    moreover have "rehash_loop old (length old) t i = rehash_loop old (length old) ?t (Suc i)"
      using i True e d(2) p by (subst rehash_loop.simps) simp
    ultimately show ?thesis by auto
  qed
qed

lemma rehash_ok:
  assumes "uses t eq h" "size (pairs (ht_arr t)) < cap" "cap < 2 ^ 32"
  shows "\<exists>t'. rehash_table t cap = Some t' \<and> uses t' eq h \<and> pairs (ht_arr t') = pairs (ht_arr t)
    \<and> ht_num_dirty t' = size (pairs (ht_arr t)) \<and> ndirty (ht_arr t') = size (pairs (ht_arr t))
    \<and> ht_cap t' = cap \<and> ht_sz t' = ht_sz t \<and> ht_key_sz t' = ht_key_sz t"
proof -
  let ?t = "t\<lparr>ht_cap := cap, ht_arr := replicate cap hentry0, ht_num_dirty := 0\<rparr>"
  have u: "ht_key_eq t = eq" "ht_hash_func t = h" "length (ht_arr t) = ht_cap t" "slots_ok eq h (ht_arr t)"
    using assms(1) by (auto simp: uses_def)
  have "uses ?t eq h" using u empty_slots(1) by (simp add: uses_def)
  from rehash_loop_ok[OF u(4) this, of 0] show ?thesis
    using assms(2,3) u(3) empty_slots(2,3)[of cap] by (simp add: rehash_table_def) (simp add: pairs_def)
qed

lemma ht_init_ok:
  assumes "0 < n"
  shows "\<exists>t. assoc_ht_open_init n eq h = Some t \<and> ht_inv eq h t \<and> pairs (ht_arr t) = {#} \<and> ht_num_dirty t = 0"
  using assms empty_slots(1)[of eq h MIN_SIZE_HT] empty_slots(2,3)[of MIN_SIZE_HT]
  by (auto simp: ht_inv_def uses_def assoc_ht_open_init_def MIN_SIZE_HT_def intro: exI[of _ 0])

lemma cap_ge: "ht_inv eq h t \<Longrightarrow> 16 \<le> ht_cap t"
  by (auto simp: ht_inv_def MIN_SIZE_HT_def)

text \<open>Before an operation: half of the table is clean.\<close>

lemma resize_ok:
  assumes "ht_inv eq h t" "ht_num_dirty t * 2 > ht_cap t \<longrightarrow> ht_cap t \<le> 2 ^ 29"
  shows "\<exists>t'. expand_or_shrink_if_neccesary t = Some t' \<and> ht_inv eq h t' \<and> pairs (ht_arr t') = pairs (ht_arr t)
    \<and> ht_num_dirty t' * 2 \<le> ht_cap t' \<and> ht_key_sz t' = ht_key_sz t \<and> ht_num_dirty t' \<le> ht_num_dirty t
    \<and> (ht_cap t' \<le> ht_cap t \<or> ht_cap t' = ht_cap t * 2 \<and> ht_num_dirty t * 2 > ht_cap t)"
proof -
  have u: "uses t eq h" "ht_sz t = size (pairs (ht_arr t))" "ht_num_dirty t = ndirty (ht_arr t)"
    "ht_num_dirty t * 2 \<le> ht_cap t + 2" "ht_cap t \<le> 2 ^ 30" using assms(1) by (auto simp: ht_inv_def)
  obtain k where k: "ht_cap t = 16 * 2 ^ k" using assms(1) by (auto simp: ht_inv_def MIN_SIZE_HT_def)
  have c: "16 \<le> ht_cap t" by (rule cap_ge[OF assms(1)])
  have sd: "ht_sz t \<le> ht_num_dirty t" using pairs_dirty[of eq h "ht_arr t"] u by (simp add: uses_def)
  have w: "w32 (ht_num_dirty t * 2) = ht_num_dirty t * 2" "w32 (ht_sz t * 4) = ht_sz t * 4" "w32 (ht_sz t * 2) = ht_sz t * 2"
    using u(4,5) sd by (simp_all add: w32_id)
  consider (grow) "ht_num_dirty t * 2 > ht_cap t"
    | (shrink) "\<not> ht_num_dirty t * 2 > ht_cap t" "ht_sz t * 4 < ht_cap t" "ht_cap t > 16"
    | (keep) "\<not> ht_num_dirty t * 2 > ht_cap t" "\<not> (ht_sz t * 4 < ht_cap t \<and> ht_cap t > 16)" by blast
  then show ?thesis
  proof cases
    case grow
    have cc: "w32 (ht_cap t * 2) = ht_cap t * 2" "ht_cap t * 2 \<le> 2 ^ 30" using assms(2) grow by (simp_all add: w32_id)
    have lt: "size (pairs (ht_arr t)) < ht_cap t * 2" "ht_cap t * 2 < 2 ^ 32" using u(2,4) sd c cc(2) by simp_all
    obtain t' where t': "rehash_table t (ht_cap t * 2) = Some t'" "uses t' eq h" "pairs (ht_arr t') = pairs (ht_arr t)"
      "ht_num_dirty t' = ht_sz t" "ndirty (ht_arr t') = ht_sz t" "ht_cap t' = ht_cap t * 2" "ht_sz t' = ht_sz t"
      "ht_key_sz t' = ht_key_sz t" using rehash_ok[OF u(1) lt] u(2) by auto
    have le: "ht_sz t * 2 \<le> ht_cap t * 2" using sd u(4) c by linarith
    have "\<exists>k. ht_cap t' = MIN_SIZE_HT * 2 ^ k" using k t'(6) by (intro exI[of _ "Suc k"]) (simp add: MIN_SIZE_HT_def)
    then have "ht_inv eq h t'" using t' u(2) le cc(2) by (simp add: ht_inv_def)
    then show ?thesis using t' grow w cc le sd by (simp add: expand_or_shrink_if_neccesary_def)
  next
    case shrink
    have lt: "size (pairs (ht_arr t)) < ht_cap t div 2" using u(2) shrink(2,3) by linarith
    have lt': "ht_cap t div 2 < 2 ^ 32" using u(5) by simp
    obtain t' where t': "rehash_table t (ht_cap t div 2) = Some t'" "uses t' eq h" "pairs (ht_arr t') = pairs (ht_arr t)"
      "ht_num_dirty t' = ht_sz t" "ndirty (ht_arr t') = ht_sz t" "ht_cap t' = ht_cap t div 2" "ht_sz t' = ht_sz t"
      "ht_key_sz t' = ht_key_sz t" using rehash_ok[OF u(1) lt lt'] u(2) by auto
    have le: "ht_sz t * 2 \<le> ht_cap t div 2" using shrink(2) by linarith
    obtain k' where "k = Suc k'" using k shrink(3) by (cases k) auto
    then have "\<exists>k. ht_cap t' = MIN_SIZE_HT * 2 ^ k" using k t'(6) by (intro exI[of _ k']) (simp add: MIN_SIZE_HT_def)
    then have "ht_inv eq h t'" using t' u(2,5) le by (simp add: ht_inv_def)
    then show ?thesis using t' shrink w le sd by (simp add: expand_or_shrink_if_neccesary_def MIN_SIZE_HT_def)
  next
    case keep
    then show ?thesis using assms(1) w sd by (auto simp: expand_or_shrink_if_neccesary_def MIN_SIZE_HT_def)
  qed
qed

subsection \<open>Operations\<close>

lemma others:
  assumes "slots_ok eq h a" "live a i" "q \<in># pairs a - {#kv_at a i#}"
  shows "\<not> eq (fst (kv_at a i)) (fst q)"
proof
  assume c: "eq (fst (kv_at a i)) (fst q)"
  have i: "i < length a" "has_value (a ! i)" using assms(2) by (auto simp: live_def)
  let ?b = "a[i := (a ! i)\<lparr>has_value := False\<rparr>]"
  have "pairs a = add_mset (kv_at a i) (pairs ?b)" using pairs_update[OF i(1), of "(a ! i)\<lparr>has_value := False\<rparr>"] i(2) by simp
  then have "q \<in># pairs ?b" using assms(3) by simp
  then obtain j where j: "live ?b j" "kv_at ?b j = q" using in_pairs by metis
  have "j \<noteq> i" using j(1) i(1) by (auto simp: live_def)
  then have "live a j" "kv_at a j = q" using j by (auto simp: live_def kv_at_def)
  then show False using slots_unique[OF assms(1,2), of j] c \<open>j \<noteq> i\<close> by simp
qed

text \<open>The entry of a key, and that it is the only one.\<close>

definition held :: "('k \<times> 'v) multiset \<Rightarrow> 'k \<Rightarrow> 'k \<times> 'v \<Rightarrow> bool" where
  "held P k p \<longleftrightarrow> p \<in># P \<and> eq k (fst p) \<and> (\<forall>q \<in># P - {#p#}. \<not> eq k (fst q))"

lemma search:
  assumes "ht_inv eq h t"
  shows "(\<exists>i. live (ht_arr t) i \<and> held (pairs (ht_arr t)) k (kv_at (ht_arr t) i)
      \<and> find_idx t k (h k) = Some i \<and> find_entry t k = Some (Some i))
    \<or> (\<forall>q \<in># pairs (ht_arr t). \<not> eq k (fst q)) \<and> find_entry t k = Some None
      \<and> (\<exists>d < ht_cap t. find_idx t k (h k) = Some (probe (ht_arr t) (h k) d)
        \<and> \<not> is_dirty (ht_arr t ! probe (ht_arr t) (h k) d)
        \<and> (\<forall>j < d. is_dirty (ht_arr t ! probe (ht_arr t) (h k) j)))"
proof -
  let ?a = "ht_arr t"
  have u: "uses t eq h" "slots_ok eq h ?a" "length ?a = ht_cap t" using assms by (auto simp: ht_inv_def uses_def)
  show ?thesis
  proof (cases "\<exists>i. live ?a i \<and> eq k (fst (kv_at ?a i))")
    case True
    then obtain i where i: "live ?a i" "eq k (fst (kv_at ?a i))" by blast
    have "held (pairs ?a) k (kv_at ?a i)"
      unfolding held_def
    proof (intro conjI ballI)
      show "kv_at ?a i \<in># pairs ?a" using i(1) in_pairs by metis
      show "eq k (fst (kv_at ?a i))" by (rule i(2))
      show "\<not> eq k (fst q)" if "q \<in># pairs ?a - {#kv_at ?a i#}" for q
        using others[OF u(2) i(1) that] eq_trans[OF eq_sym[OF i(2)], of "fst q"] by blast
    qed
    then show ?thesis using i hit[OF u(1) i] by blast
  next
    case False
    have "ndirty ?a < length ?a" using assms cap_ge[OF assms] u(3) by (auto simp: ht_inv_def)
    then obtain c where c: "c < ht_cap t" "\<not> is_dirty (?a ! c)" using clean_slot u(3) by metis
    have "\<forall>q \<in># pairs ?a. \<not> eq k (fst q)" using False in_pairs by metis
    then show ?thesis using miss[OF u(1) _ c, of k] False by blast
  qed
qed

lemma insert_ok:
  assumes "ht_inv eq h t" "ht_num_dirty t * 2 > ht_cap t \<longrightarrow> ht_cap t \<le> 2 ^ 29" "ht_key_sz t = n"
  shows "\<exists>t'. assoc_ht_open_insert t k n v = Some t' \<and> ht_inv eq h t' \<and> ht_key_sz t' = n
    \<and> ((\<exists>k' w. held (pairs (ht_arr t)) k (k', w) \<and> pairs (ht_arr t') = add_mset (k', v) (pairs (ht_arr t) - {#(k', w)#}))
      \<or> (\<forall>q \<in># pairs (ht_arr t). \<not> eq k (fst q)) \<and> pairs (ht_arr t') = add_mset (k, v) (pairs (ht_arr t)))
    \<and> ht_num_dirty t' \<le> Suc (ht_num_dirty t)
    \<and> (ht_cap t' \<le> ht_cap t \<or> ht_cap t' = ht_cap t * 2 \<and> ht_num_dirty t * 2 > ht_cap t)"
proof -
  obtain r where r: "expand_or_shrink_if_neccesary t = Some r" "ht_inv eq h r" "pairs (ht_arr r) = pairs (ht_arr t)"
    "ht_num_dirty r * 2 \<le> ht_cap r" "ht_key_sz r = ht_key_sz t" "ht_num_dirty r \<le> ht_num_dirty t"
    "ht_cap r \<le> ht_cap t \<or> ht_cap r = ht_cap t * 2 \<and> ht_num_dirty t * 2 > ht_cap t"
    using resize_ok[OF assms(1,2)] by blast
  let ?a = "ht_arr r"
  have u: "ht_key_eq r = eq" "ht_hash_func r = h" "length ?a = ht_cap r" "slots_ok eq h ?a" "ht_sz r = size (pairs ?a)"
    "ht_num_dirty r = ndirty ?a" "ht_cap r \<le> 2 ^ 30" using r(2) by (auto simp: ht_inv_def uses_def)
  have w: "w32 (ht_num_dirty r * 2) = ht_num_dirty r * 2" using r(4) u(7) by (simp add: w32_id)
  have sd: "ht_sz r \<le> ht_num_dirty r" using pairs_dirty[OF u(4)] u(5,6) by simp
  have w1: "w32 (ht_sz r + 1) = ht_sz r + 1" "w32 (ht_num_dirty r + 1) = ht_num_dirty r + 1"
    using sd r(4) u(7) by (simp_all add: w32_id)
  from search[OF r(2), of k] consider
    (old) i where "live ?a i" "held (pairs ?a) k (kv_at ?a i)" "find_idx r k (h k) = Some i"
    | (new) d where "\<forall>q \<in># pairs ?a. \<not> eq k (fst q)" "d < ht_cap r" "find_idx r k (h k) = Some (probe ?a (h k) d)"
      "\<not> is_dirty (?a ! probe ?a (h k) d)" "\<forall>j < d. is_dirty (?a ! probe ?a (h k) j)" by blast
  then show ?thesis
  proof cases
    case old
    obtain k' w' where kv: "kv_at ?a i = (k', w')" by (cases "kv_at ?a i")
    have ek: "eq k k'" using old(2) kv by (simp add: held_def)
    have i: "i < length ?a" "has_value (?a ! i)" using old(1) by (auto simp: live_def)
    note l = slots_live[OF u(4) old(1)]
    let ?e = "\<lparr>he_kv = Some (k', v), he_hash = h k', is_dirty = True, has_value = True\<rparr>"
    let ?t = "r\<lparr>ht_arr := ?a[i := ?e]\<rparr>"
    have hk: "h k = h k'" by (rule hash_eq[OF ek])
    have run: "assoc_ht_open_insert t k n v = Some ?t"
      using r(1,4,5) assms(3) w u(1-3) old(3) i l(1,2) kv ek hk by (simp add: assoc_ht_open_insert_def Let_def)
    obtain d where d: "d < length ?a" "i = probe ?a (h k') d" "\<forall>j < d. is_dirty (?a ! probe ?a (h k') j)"
      using l(4) kv by auto
    have "\<And>j. live ?a j \<Longrightarrow> j \<noteq> i \<Longrightarrow> \<not> eq k' (fst (kv_at ?a j))"
      using slots_unique[OF u(4) old(1)] kv by auto
    from slots_put[OF u(4) d(1,3,2) this refl] have so: "slots_ok eq h (?a[i := ?e])" .
    have p: "pairs (?a[i := ?e]) + {#(k', w')#} = pairs ?a + {#(k', v)#}"
      using pairs_update[OF i(1), of ?e] i(2) kv by simp
    have "(k', w') \<in># pairs ?a" using old(2) kv by (simp add: held_def)
    then obtain P where P: "pairs ?a = add_mset (k', w') P" by (metis insert_DiffM)
    with p have p': "pairs (?a[i := ?e]) = add_mset (k', v) (pairs ?a - {#(k', w')#})" by simp
    have nd: "ndirty (?a[i := ?e]) = ndirty ?a" using ndirty_update[OF i(1), of ?e] l(1) by simp
    have "size (pairs (?a[i := ?e])) = size (pairs ?a)" using arg_cong[OF p, of size] by simp
    then have "ht_inv eq h ?t" using r(2) so nd u by (simp add: ht_inv_def uses_def)
    moreover have "\<exists>k' w. held (pairs (ht_arr t)) k (k', w)
        \<and> pairs (ht_arr ?t) = add_mset (k', v) (pairs (ht_arr t) - {#(k', w)#})"
      using p' old(2) kv unfolding r(3)[symmetric] by (intro exI[of _ k'] exI[of _ w']) simp
    ultimately show ?thesis using run r(5,6,7) assms(3) by (intro exI[of _ ?t]) simp
  next
    case new
    let ?p = "probe ?a (h k) d"
    have p: "?p < length ?a" using new(2) u(3) by (intro probe_less) auto
    have nv: "\<not> has_value (?a ! ?p)" using slots_live(1)[OF u(4), of ?p] new(4) p by (auto simp: live_def)
    let ?e = "\<lparr>he_kv = Some (k, v), he_hash = h k, is_dirty = True, has_value = True\<rparr>"
    let ?t = "r\<lparr>ht_arr := ?a[?p := ?e], ht_sz := ht_sz r + 1, ht_num_dirty := ht_num_dirty r + 1\<rparr>"
    have run: "assoc_ht_open_insert t k n v = Some ?t"
      using r(1,4,5) assms(3) w w1 u(1-3) new(3,4) p nv by (simp add: assoc_ht_open_insert_def Let_def)
    have "\<not> eq k (fst (kv_at ?a j))" if "live ?a j" for j using new(1) that in_pairs by metis
    then have so: "slots_ok eq h (?a[?p := ?e])"
      using slots_put[OF u(4) _ new(5) refl _ refl] new(2) u(3) by auto
    have pp: "pairs (?a[?p := ?e]) = add_mset (k, v) (pairs ?a)" using pairs_update[OF p, of ?e] nv by simp
    have nd: "ndirty (?a[?p := ?e]) = Suc (ndirty ?a)" using ndirty_update[OF p, of ?e] new(4) by simp
    have "ht_inv eq h ?t" using r(2,4) so nd pp u by (simp add: ht_inv_def uses_def)
    moreover have "(\<forall>q \<in># pairs (ht_arr t). \<not> eq k (fst q)) \<and> pairs (ht_arr ?t) = add_mset (k, v) (pairs (ht_arr t))"
      using pp new(1) unfolding r(3)[symmetric] by simp
    ultimately show ?thesis using run r(5,6,7) assms(3) by (intro exI[of _ ?t]) simp
  qed
qed

lemma ht_remove_ok:
  assumes "ht_inv eq h t" "ht_num_dirty t * 2 > ht_cap t \<longrightarrow> ht_cap t \<le> 2 ^ 29"
  shows "\<exists>t'. remove_value_htab t k = Some t' \<and> ht_inv eq h t' \<and> ht_key_sz t' = ht_key_sz t
    \<and> ((\<exists>p. held (pairs (ht_arr t)) k p \<and> pairs (ht_arr t') = pairs (ht_arr t) - {#p#})
      \<or> (\<forall>q \<in># pairs (ht_arr t). \<not> eq k (fst q)) \<and> pairs (ht_arr t') = pairs (ht_arr t))
    \<and> ht_num_dirty t' \<le> ht_num_dirty t
    \<and> (ht_cap t' \<le> ht_cap t \<or> ht_cap t' = ht_cap t * 2 \<and> ht_num_dirty t * 2 > ht_cap t)"
proof -
  obtain r where r: "expand_or_shrink_if_neccesary t = Some r" "ht_inv eq h r" "pairs (ht_arr r) = pairs (ht_arr t)"
    "ht_num_dirty r * 2 \<le> ht_cap r" "ht_key_sz r = ht_key_sz t" "ht_num_dirty r \<le> ht_num_dirty t"
    "ht_cap r \<le> ht_cap t \<or> ht_cap r = ht_cap t * 2 \<and> ht_num_dirty t * 2 > ht_cap t"
    using resize_ok[OF assms] by blast
  let ?a = "ht_arr r"
  have u: "ht_key_eq r = eq" "ht_hash_func r = h" "length ?a = ht_cap r" "slots_ok eq h ?a" "ht_sz r = size (pairs ?a)"
    "ht_num_dirty r = ndirty ?a" "ht_cap r \<le> 2 ^ 30" using r(2) by (auto simp: ht_inv_def uses_def)
  have w: "w32 (ht_num_dirty r * 2) = ht_num_dirty r * 2" using r(4) u(7) by (simp add: w32_id)
  from search[OF r(2), of k] consider
    (old) i where "live ?a i" "held (pairs ?a) k (kv_at ?a i)" "find_entry r k = Some (Some i)"
    | (none) "\<forall>q \<in># pairs ?a. \<not> eq k (fst q)" "find_entry r k = Some None" by blast
  then show ?thesis
  proof cases
    case old
    have i: "i < length ?a" "has_value (?a ! i)" using old(1) by (auto simp: live_def)
    note l = slots_live[OF u(4) old(1)]
    let ?e = "(?a ! i)\<lparr>has_value := False\<rparr>"
    let ?t = "r\<lparr>ht_arr := ?a[i := ?e], ht_sz := ht_sz r - 1\<rparr>"
    have p: "pairs ?a = add_mset (kv_at ?a i) (pairs (?a[i := ?e]))" using pairs_update[OF i(1), of ?e] i(2) by simp
    have sz: "ht_sz r = Suc (size (pairs (?a[i := ?e])))" using u(5) p by simp
    have run: "remove_value_htab t k = Some ?t"
      using r(1,4) w old(3) i l(1) sz by (simp add: remove_value_htab_def)
    have nd: "ndirty (?a[i := ?e]) = ndirty ?a" using ndirty_update[OF i(1), of ?e] l(1) by simp
    have "ht_inv eq h ?t" using r(2) slots_drop[OF u(4) i(1) l(1)] nd sz u by (simp add: ht_inv_def uses_def)
    moreover have "\<exists>p. held (pairs (ht_arr t)) k p \<and> pairs (ht_arr ?t) = pairs (ht_arr t) - {#p#}"
      using p old(2) unfolding r(3)[symmetric] by (intro exI[of _ "kv_at ?a i"]) simp
    ultimately show ?thesis using run r(5,6,7) by (intro exI[of _ ?t]) simp
  next
    case none
    then have "remove_value_htab t k = Some r" using r(1,4) w by (simp add: remove_value_htab_def)
    then show ?thesis using none r by auto
  qed
qed

lemma value_ok:
  assumes "ht_inv eq h t"
  shows "(\<exists>k' v. held (pairs (ht_arr t)) k (k', v) \<and> assoc_ht_open_value t k = Some (Some v))
    \<or> (\<forall>q \<in># pairs (ht_arr t). \<not> eq k (fst q)) \<and> assoc_ht_open_value t k = Some None"
proof -
  let ?a = "ht_arr t"
  have u: "slots_ok eq h ?a" using assms by (auto simp: ht_inv_def uses_def)
  from search[OF assms, of k] consider
    (old) i where "live ?a i" "held (pairs ?a) k (kv_at ?a i)" "find_entry t k = Some (Some i)"
    | (none) "\<forall>q \<in># pairs ?a. \<not> eq k (fst q)" "find_entry t k = Some None" by blast
  then show ?thesis
  proof cases
    case old
    have i: "i < length ?a" using old(1) by (auto simp: live_def)
    obtain k' v where "kv_at ?a i = (k', v)" by (cases "kv_at ?a i")
    then show ?thesis using old i slots_live(2)[OF u old(1)] by (auto simp: assoc_ht_open_value_def)
  next
    case none
    then show ?thesis by (simp add: assoc_ht_open_value_def)
  qed
qed

lemma free_loop_ok:
  assumes "slots_ok eq h (ht_arr t)" "length (ht_arr t) = ht_cap t" "i \<le> ht_cap t"
  shows "\<exists>freed. ht_free_loop t i = Some freed \<and> mset freed = image_mset Some (pairs (drop i (ht_arr t)))"
  using assms(3)
proof (induction "ht_cap t - i" arbitrary: i)
  case 0
  then show ?case using assms(2) by (simp add: ht_free_loop.simps pairs_def)
next
  case (Suc m)
  then have "m = ht_cap t - Suc i" "Suc i \<le> ht_cap t" by simp_all
  from Suc.hyps(1)[OF this] obtain freed where f: "ht_free_loop t (Suc i) = Some freed" "mset freed = image_mset Some (pairs (drop (Suc i) (ht_arr t)))"
    by blast
  have i: "i < length (ht_arr t)" using Suc assms(2) by simp
  have d: "drop i (ht_arr t) = ht_arr t ! i # drop (Suc i) (ht_arr t)" using i by (simp add: Cons_nth_drop_Suc)
  show ?case
    using f i assms(2) slots_live(1,2)[OF assms(1), of i]
    by (subst ht_free_loop.simps) (auto simp: d pairs_def live_def)
qed

end

end
