(* ===== verification/Ht_Properties.thy ===== *)
theory Ht_Properties
  imports Ht_Laws
begin

text \<open>
  The contract of the hash table: an association list with one entry for every key, up to the
  equality of the client.  An insertion under a key that is already there keeps the stored key and
  replaces its value.
\<close>

datatype ('k, 'v) ht_op = HInsert 'k 'v | HRemove 'k | HValue 'k

fun ht_exec :: "('k, 'v) ht_op \<Rightarrow> ('k, 'v) assoc_ht_open_t \<Rightarrow> ('v option \<times> ('k, 'v) assoc_ht_open_t) option" where
  "ht_exec (HInsert k v) t = do { t \<leftarrow> assoc_ht_open_insert t k (ht_key_sz t) v; Some (None, t) }"
| "ht_exec (HRemove k) t = do { t \<leftarrow> remove_value_htab t k; Some (None, t) }"
| "ht_exec (HValue k) t = do { v \<leftarrow> assoc_ht_open_value t k; Some (v, t) }"

fun ht_execs :: "('k, 'v) ht_op list \<Rightarrow> ('k, 'v) assoc_ht_open_t \<Rightarrow> ('v option list \<times> ('k, 'v) assoc_ht_open_t) option" where
  "ht_execs [] t = Some ([], t)"
| "ht_execs (c # cs) t = do {
     (out, t) \<leftarrow> ht_exec c t;
     (outs, t) \<leftarrow> ht_execs cs t;
     Some (out # outs, t)
   }"

fun al_exec :: "('k \<Rightarrow> 'k \<Rightarrow> bool) \<Rightarrow> ('k, 'v) ht_op \<Rightarrow> ('k \<times> 'v) list \<Rightarrow> 'v option \<times> ('k \<times> 'v) list" where
  "al_exec eq (HInsert k v) es = (None,
     if \<exists>e \<in> set es. eq k (fst e) then map (\<lambda>e. if eq k (fst e) then (fst e, v) else e) es else (k, v) # es)"
| "al_exec eq (HRemove k) es = (None, filter (\<lambda>e. \<not> eq k (fst e)) es)"
| "al_exec eq (HValue k) es = (map_option snd (find (\<lambda>e. eq k (fst e)) es), es)"

fun al_execs :: "('k \<Rightarrow> 'k \<Rightarrow> bool) \<Rightarrow> ('k, 'v) ht_op list \<Rightarrow> ('k \<times> 'v) list \<Rightarrow> 'v option list \<times> ('k \<times> 'v) list" where
  "al_execs eq [] es = ([], es)"
| "al_execs eq (c # cs) es = (let (out, es) = al_exec eq c es; (outs, es) = al_execs eq cs es in (out # outs, es))"

fun is_insert :: "('k, 'v) ht_op \<Rightarrow> bool" where
  "is_insert (HInsert k v) \<longleftrightarrow> True"
| "is_insert c \<longleftrightarrow> False"

context hashing
begin

lemma held_split:
  assumes "held (mset es) k p"
  shows "\<exists>xs ys. es = xs @ p # ys \<and> eq k (fst p) \<and> (\<forall>q \<in> set xs \<union> set ys. \<not> eq k (fst q))"
proof -
  from assms have "p \<in> set es" "eq k (fst p)" and no: "\<forall>q \<in># mset es - {#p#}. \<not> eq k (fst q)"
    unfolding held_def by auto
  moreover from split_list[OF \<open>p \<in> set es\<close>] obtain xs ys where es: "es = xs @ p # ys" by blast
  moreover have "\<forall>q \<in> set xs \<union> set ys. \<not> eq k (fst q)" using no unfolding es by auto
  ultimately show ?thesis by blast
qed

lemma held_ops:
  assumes "held (mset es) k (k', w)"
  shows "al_exec eq (HValue k) es = (Some w, es)"
    and "mset (snd (al_exec eq (HRemove k) es)) = mset es - {#(k', w)#}"
    and "mset (snd (al_exec eq (HInsert k v) es)) = add_mset (k', v) (mset es - {#(k', w)#})"
proof -
  obtain xs ys where es: "es = xs @ (k', w) # ys" "eq k k'" "\<forall>q \<in> set xs \<union> set ys. \<not> eq k (fst q)"
    using held_split[OF assms] by auto
  have no: "\<forall>q \<in> set xs. \<not> eq k (fst q)" "\<forall>q \<in> set ys. \<not> eq k (fst q)" using es(3) by auto
  have "find (\<lambda>e. eq k (fst e)) es = Some (k', w)"
    using no es(1,2) by (auto simp: find_Some_iff intro!: exI[of _ "length xs"] simp: nth_append)
  then show "al_exec eq (HValue k) es = (Some w, es)" by simp
  show "mset (snd (al_exec eq (HRemove k) es)) = mset es - {#(k', w)#}"
    using no es(1,2) by (simp add: filter_id_conv)
  have "map (\<lambda>e. if eq k (fst e) then (fst e, v) else e) zs = zs" if "\<forall>q \<in> set zs. \<not> eq k (fst q)" for zs
    using that by (induction zs) auto
  with no es(1,2) show "mset (snd (al_exec eq (HInsert k v) es)) = add_mset (k', v) (mset es - {#(k', w)#})" by simp
qed

lemma absent_ops:
  assumes "\<forall>q \<in># mset es. \<not> eq k (fst q)"
  shows "al_exec eq (HValue k) es = (None, es)" "al_exec eq (HRemove k) es = (None, es)"
    "al_exec eq (HInsert k v) es = (None, (k, v) # es)"
  using assms by (auto simp: find_None_iff filter_id_conv)

lemma ht_exec_ok:
  assumes "ht_inv eq h t" "pairs (ht_arr t) = mset es" "ht_num_dirty t \<le> n" "n \<le> 2 ^ 28"
  shows "\<exists>t'. ht_exec c t = Some (fst (al_exec eq c es), t') \<and> ht_inv eq h t'
    \<and> pairs (ht_arr t') = mset (snd (al_exec eq c es)) \<and> ht_num_dirty t' \<le> (if is_insert c then Suc n else n)"
proof -
  have room: "ht_num_dirty t * 2 > ht_cap t \<longrightarrow> ht_cap t \<le> 2 ^ 29" using assms(3,4) by simp
  show ?thesis
  proof (cases c)
    case (HInsert k v)
    from insert_ok[OF assms(1) room refl, of k v] obtain t' where t': "assoc_ht_open_insert t k (ht_key_sz t) v = Some t'"
      "ht_inv eq h t'" "ht_num_dirty t' \<le> Suc (ht_num_dirty t)"
      and p: "(\<exists>k' w. held (mset es) k (k', w) \<and> pairs (ht_arr t') = add_mset (k', v) (mset es - {#(k', w)#}))
      \<or> (\<forall>q \<in># mset es. \<not> eq k (fst q)) \<and> pairs (ht_arr t') = add_mset (k, v) (mset es)"
      unfolding assms(2) by blast
    from p have "pairs (ht_arr t') = mset (snd (al_exec eq c es))"
    proof (elim disjE exE conjE)
      fix k' w assume "held (mset es) k (k', w)" "pairs (ht_arr t') = add_mset (k', v) (mset es - {#(k', w)#})"
      then show ?thesis unfolding HInsert using held_ops(3) by metis
    next
      assume "\<forall>q \<in># mset es. \<not> eq k (fst q)" "pairs (ht_arr t') = add_mset (k, v) (mset es)"
      then show ?thesis unfolding HInsert absent_ops(3)[OF \<open>\<forall>q \<in># mset es. \<not> eq k (fst q)\<close>] by simp
    qed
    then show ?thesis using t' assms(3) HInsert by simp
  next
    case (HRemove k)
    from ht_remove_ok[OF assms(1) room, of k] obtain t' where t': "remove_value_htab t k = Some t'"
      "ht_inv eq h t'" "ht_num_dirty t' \<le> ht_num_dirty t"
      and p: "(\<exists>p. held (mset es) k p \<and> pairs (ht_arr t') = mset es - {#p#})
      \<or> (\<forall>q \<in># mset es. \<not> eq k (fst q)) \<and> pairs (ht_arr t') = mset es"
      unfolding assms(2) by blast
    from p have "pairs (ht_arr t') = mset (snd (al_exec eq c es))"
    proof (elim disjE exE conjE)
      fix p assume "held (mset es) k p" "pairs (ht_arr t') = mset es - {#p#}"
      then show ?thesis unfolding HRemove using held_ops(2)[of es k "fst p" "snd p"] by simp
    next
      assume "\<forall>q \<in># mset es. \<not> eq k (fst q)" "pairs (ht_arr t') = mset es"
      then show ?thesis unfolding HRemove absent_ops(2)[OF \<open>\<forall>q \<in># mset es. \<not> eq k (fst q)\<close>] by simp
    qed
    then show ?thesis using t' assms(3) HRemove by simp
  next
    case (HValue k)
    have "assoc_ht_open_value t k = Some (fst (al_exec eq (HValue k) es))"
      using value_ok[OF assms(1), of k] unfolding assms(2)
    proof (elim disjE exE conjE)
      fix k' v assume "held (mset es) k (k', v)" "assoc_ht_open_value t k = Some (Some v)"
      then show ?thesis using held_ops(1)[of es k k' v] by auto
    next
      assume "\<forall>q \<in># mset es. \<not> eq k (fst q)" "assoc_ht_open_value t k = Some None"
      then show ?thesis using absent_ops(1) by simp
    qed
    moreover have "snd (al_exec eq (HValue k) es) = es" by simp
    ultimately show ?thesis using assms HValue by simp
  qed
qed

lemma ht_execs_ok:
  assumes "ht_inv eq h t" "pairs (ht_arr t) = mset es" "ht_num_dirty t \<le> n" "n + length (filter is_insert cs) \<le> 2 ^ 28"
  shows "\<exists>t'. ht_execs cs t = Some (fst (al_execs eq cs es), t') \<and> ht_inv eq h t'
    \<and> pairs (ht_arr t') = mset (snd (al_execs eq cs es))"
  using assms
proof (induction cs arbitrary: t es n)
  case Nil
  then show ?case by simp
next
  case (Cons c cs)
  have n: "n \<le> 2 ^ 28" using Cons.prems(4) by simp
  obtain t' where t': "ht_exec c t = Some (fst (al_exec eq c es), t')" "ht_inv eq h t'"
    "pairs (ht_arr t') = mset (snd (al_exec eq c es))" "ht_num_dirty t' \<le> (if is_insert c then Suc n else n)"
    using ht_exec_ok[OF Cons.prems(1-3) n, of c] by blast
  have "(if is_insert c then Suc n else n) + length (filter is_insert cs) \<le> 2 ^ 28"
    using Cons.prems(4) by (cases "is_insert c") simp_all
  from Cons.IH[OF t'(2-4) this] show ?case using t'(1) by (auto simp: case_prod_beta Let_def)
qed

lemma ht_free_ok:
  assumes "ht_inv eq h t" "pairs (ht_arr t) = mset es"
  shows "\<exists>freed. assoc_ht_open_free t = Some freed \<and> mset freed = mset (map Some es)"
  using free_loop_ok[of t 0] assms by (auto simp: assoc_ht_open_free_def ht_inv_def uses_def)

end

text \<open>The functions of the repository's clients (\<^verbatim>\<open>examples/emulator/agent/sm_kpm.c\<close>): strings, here the
  bytes before the null, compared by \<^verbatim>\<open>strcmp\<close> and hashed by \<^verbatim>\<open>murmur3_32\<close>.\<close>

definition hash_func :: "u8 list \<Rightarrow> u32" where
  "hash_func key = murmur3_32 key 42"

definition cmp_str :: "u8 list \<Rightarrow> u8 list \<Rightarrow> bool" where
  "cmp_str a b \<longleftrightarrow> a = b"

interpretation measure: hashing cmp_str hash_func
  by unfold_locales (auto simp: cmp_str_def)

text \<open>C28: Every sequence of operations on a fresh hash table, for any equality and hash function
  that respects it and at most 2^28 insertions, runs without an abort through all the rebuilding of
  the table, and gives the results of the same operations on an association list with one entry for
  every key; the size is the length of the list, and freeing the table frees each of its entries
  once.\<close>

theorem ht_run_refines:
  fixes cs :: "('k, 'v) ht_op list"
  assumes "hashing eq h" "0 < n" "length (filter is_insert cs) \<le> 2 ^ 28" "al_execs eq cs [] = (outs, es)"
  shows "\<exists>t freed. assoc_ht_open_init n eq h \<bind> ht_execs cs = Some (outs, t) \<and> assoc_ht_open_size t = length es
    \<and> assoc_ht_open_free t = Some freed \<and> mset freed = mset (map Some es)"
proof -
  obtain t0 :: "('k, 'v) assoc_ht_open_t" where t0: "assoc_ht_open_init n eq h = Some t0" "ht_inv eq h t0" "pairs (ht_arr t0) = mset []" "ht_num_dirty t0 \<le> 0"
    using hashing.ht_init_ok[OF assms(1,2)] by auto
  obtain t where t: "ht_execs cs t0 = Some (outs, t)" "ht_inv eq h t" "pairs (ht_arr t) = mset es"
    using hashing.ht_execs_ok[OF assms(1) t0(2-4), of cs] assms(3,4) by auto
  obtain freed where "assoc_ht_open_free t = Some freed" "mset freed = mset (map Some es)"
    using hashing.ht_free_ok[OF assms(1) t(2,3)] by blast
  moreover have "assoc_ht_open_size t = length es" using t(2,3) by (simp add: assoc_ht_open_size_def ht_inv_def)
  ultimately show ?thesis using t0(1) t(1) by auto
qed

text \<open>Two names under one hash with a table that must not stop at a slot whose value is gone, and a
  replaced value.\<close>

definition sample_ht_ops :: "(u8 list, nat) ht_op list" where
  "sample_ht_ops = [HInsert [65] 1, HInsert [66] 2, HInsert [65] 3, HRemove [66], HValue [65], HValue [66]]"

theorem ht_run_refines_witness:
  "\<exists>t freed. assoc_ht_open_init 8 cmp_str hash_func \<bind> ht_execs sample_ht_ops
      = Some ([None, None, None, None, Some 3, None], t) \<and> assoc_ht_open_size t = length [([65 :: u8], 3 :: nat)]
    \<and> assoc_ht_open_free t = Some freed \<and> mset freed = mset (map Some [([65], 3)])"
  by (rule ht_run_refines[OF measure.hashing_axioms]) (simp_all add: sample_ht_ops_def cmp_str_def)

end
