(* ===== verification/E2ap_Msg.thy ===== *)
theory E2ap_Msg
  imports Compare
begin

text \<open>
  The E2AP and E42 messages of version 2 (\<^verbatim>\<open>src/src/flexric/src/lib/e2ap/v2_03/type_defs.h\<close> and
  \<^verbatim>\<open>e2ap_types/\<close>) that the RIC and its iApp read or build, with the copy and move functions
  they use.  An array with its length is a list, an optional pointer an option.  A message is a
  constructor with the member of the union that its type selects; the messages whose contents
  no handler reads are \<open>Other_msg\<close> with their type.  The time stamp is left out: it is only
  printed.
\<close>

type_synonym byte_array_t = "u8 list"

subsection \<open>Common information elements\<close>

datatype cause_e =
    CAUSE_NOTHING | CAUSE_RICREQUEST | CAUSE_RICSERVICE | CAUSE_E2NODE | CAUSE_TRANSPORT
  | CAUSE_PROTOCOL | CAUSE_MISC

text \<open>The union of the cause holds an enumerator of the group that \<open>cause_present\<close> names.\<close>

record cause_t =
  cause_present :: cause_e
  cause_val :: u32

datatype criticality_e = REJECT | IGNORE | NOTIFY
datatype triggering_message_e = INITIATING_MESSAGE | SUCCESSFUL_OUTCOME | UNSUCCESSFUL_OUTCOME
datatype type_of_error_t = NOT_UNDERSTOOD | MISSING

record ie_criticality_diagnostics_t =
  ie_crit :: criticality_e
  ie_id :: u16
  ie_type :: type_of_error_t

record criticality_diagnostics_t =
  procedure_code :: "u8 option"
  trig_msg :: "triggering_message_e option"
  proc_crit :: "criticality_e option"
  crit_req_id :: "ric_gen_id_t option"
  crit_ie :: "ie_criticality_diagnostics_t list"

datatype ric_subseq_action_type_t = RIC_SUBS_REQ_CONTINUE | RIC_SUBS_REQ_HALT

record ric_subsequent_action_t =
  subs_type :: ric_subseq_action_type_t
  time_to_wait_ms :: "u32 option"

datatype ric_action_type_t = RIC_ACT_REPORT | RIC_ACT_INSERT | RIC_ACT_POLICY

record ric_action_t =
  act_id :: u8
  act_type :: ric_action_type_t
  act_definition :: "byte_array_t option"
  subseq_action :: "ric_subsequent_action_t option"

record ric_action_admitted_t =
  adm_ric_act_id :: u8

record ric_action_not_admitted_t =
  na_ric_act_id :: u8
  na_cause :: cause_t

record ran_function_t =
  rf_defn :: byte_array_t
  rf_id :: u16
  rf_rev :: u16
  rf_oid :: byte_array_t

datatype e2ap_node_comp_interface_type_e =
    NG_E2AP_NODE_COMP_INTERFACE_TYPE | XN_E2AP_NODE_COMP_INTERFACE_TYPE
  | E1_E2AP_NODE_COMP_INTERFACE_TYPE | F1_E2AP_NODE_COMP_INTERFACE_TYPE
  | W1_E2AP_NODE_COMP_INTERFACE_TYPE | S1_E2AP_NODE_COMP_INTERFACE_TYPE
  | X2_E2AP_NODE_COMP_INTERFACE_TYPE

text \<open>The identifiers of the interfaces Xn, W1 and X2 are opaque: the code only refuses them.\<close>

datatype e2ap_node_comp_id_t =
    Ng_amf_name byte_array_t
  | E1_gnb_cu_up_id u64
  | F1_gnb_du_id u64
  | S1_mme_name byte_array_t
  | Unsupported_comp_id e2ap_node_comp_interface_type_e

record e2ap_node_comp_conf_t =
  conf_request :: byte_array_t
  conf_response :: byte_array_t

record e2ap_node_component_config_add_t =
  cca_interface_type :: e2ap_node_comp_interface_type_e
  cca_comp_id :: e2ap_node_comp_id_t
  cca_comp_conf :: e2ap_node_comp_conf_t

datatype outcome_e2ap_node_comp_conf_ack_e =
  SUCCESS_E2AP_NODE_COMP_CONF_ACK | FAILURE_E2AP_NODE_COMP_CONF_ACK

record e2ap_node_comp_conf_ack_t =
  ack_outcome :: outcome_e2ap_node_comp_conf_ack_e
  ack_cause :: "cause_t option"

record e2ap_node_comp_config_add_ack_t =
  ccaa_interface_type :: e2ap_node_comp_interface_type_e
  ccaa_comp_id :: e2ap_node_comp_id_t
  ccaa_conf_ack :: e2ap_node_comp_conf_ack_t

record global_ric_id_t =
  gr_plmn :: e2ap_plmn_t
  near_ric_id :: u32

record rejected_ran_function_t =
  rej_id :: u16
  rej_cause :: cause_t

record e2_node_connected_t =
  nc_id :: global_e2_node_id_t
  nc_cca :: "e2ap_node_component_config_add_t list"
  nc_ack_rf :: "ran_function_t list"

subsection \<open>Messages\<close>

record ric_subscription_request_t =
  sr_ric_id :: ric_gen_id_t
  event_trigger :: byte_array_t
  sr_action :: "ric_action_t list"

record ric_subscription_response_t =
  sresp_ric_id :: ric_gen_id_t
  admitted :: "ric_action_admitted_t list"
  not_admitted :: "ric_action_not_admitted_t list"

record ric_subscription_delete_request_t =
  sdr_ric_id :: ric_gen_id_t

record ric_subscription_delete_response_t =
  sdresp_ric_id :: ric_gen_id_t

datatype ric_indication_type_e = RIC_IND_REPORT | RIC_IND_INSERT

record ric_indication_t =
  ind_ric_id :: ric_gen_id_t
  ind_action_id :: u8
  ind_sn :: "u16 option"
  ind_type :: ric_indication_type_e
  ind_hdr :: byte_array_t
  ind_msg :: byte_array_t
  ind_call_process_id :: "byte_array_t option"

datatype ric_control_ack_req_t =
  RIC_CONTROL_REQUEST_NO_ACK | RIC_CONTROL_REQUEST_ACK | RIC_CONTROL_REQUEST_NACK

record ric_control_request_t =
  cr_ric_id :: ric_gen_id_t
  cr_call_process_id :: "byte_array_t option"
  cr_hdr :: byte_array_t
  cr_msg :: byte_array_t
  cr_ack_req :: "ric_control_ack_req_t option"

record ric_control_acknowledge_t =
  ack_ric_id :: ric_gen_id_t
  ack_call_process_id :: "byte_array_t option"
  ack_control_outcome :: "byte_array_t option"

record ric_control_failure_t =
  cf_ric_id :: ric_gen_id_t
  cf_call_process_id :: "byte_array_t option"
  cf_cause :: cause_t
  cf_control_outcome :: "byte_array_t option"
  cf_crit :: "criticality_diagnostics_t option"

record e2_setup_request_t =
  stp_trans_id :: u8
  stp_id :: global_e2_node_id_t
  stp_ran_func_item :: "ran_function_t list"
  stp_comp_conf_add :: "e2ap_node_component_config_add_t list"

record e2_setup_response_t =
  stpr_trans_id :: u8
  stpr_id :: global_ric_id_t
  stpr_accepted :: "u16 list"
  stpr_rejected :: "rejected_ran_function_t list"
  stpr_comp_config_add_ack :: "e2ap_node_comp_config_add_ack_t list"

datatype e2ap_time_to_wait_e =
    TIMETOWAIT_V1S | TIMETOWAIT_V2S | TIMETOWAIT_V5S | TIMETOWAIT_V10S | TIMETOWAIT_V20S | TIMETOWAIT_V60S

record transport_layer_information_t =
  tl_address :: byte_array_t
  tl_port :: "byte_array_t option"

record e2_setup_failure_t =
  stpf_trans_id :: u8
  stpf_cause :: cause_t
  stpf_time_to_wait_ms :: "e2ap_time_to_wait_e option"
  stpf_crit_diag :: "criticality_diagnostics_t option"
  stpf_tl_info :: "transport_layer_information_t option"

record e42_setup_request_t =
  e42_ran_func_item :: "ran_function_t list"

text \<open>The length of \<open>e42_nodes\<close> has a field of its own, of 8 bits.\<close>

record e42_setup_response_t =
  e42_xapp_id :: u16
  len_e2_nodes_conn :: u8
  e42_nodes :: "e2_node_connected_t list"

record e42_ric_subscription_request_t =
  esr_xapp_id :: u16
  esr_id :: global_e2_node_id_t
  esr_sr :: ric_subscription_request_t

record e42_ric_subscription_delete_request_t =
  esd_xapp_id :: u16
  esd_sdr :: ric_subscription_delete_request_t

record e42_ric_control_request_t =
  ecr_xapp_id :: u16
  ecr_id :: global_e2_node_id_t
  ecr_ctrl_req :: ric_control_request_t

datatype e2_msg_type_t =
    RIC_SUBSCRIPTION_REQUEST | RIC_SUBSCRIPTION_RESPONSE | RIC_SUBSCRIPTION_FAILURE
  | RIC_SUBSCRIPTION_DELETE_REQUEST | RIC_SUBSCRIPTION_DELETE_RESPONSE
  | RIC_SUBSCRIPTION_DELETE_FAILURE | RIC_INDICATION | RIC_CONTROL_REQUEST
  | RIC_CONTROL_ACKNOWLEDGE | RIC_CONTROL_FAILURE | E2AP_ERROR_INDICATION | E2_SETUP_REQUEST
  | E2_SETUP_RESPONSE | E2_SETUP_FAILURE | E2AP_RESET_REQUEST | E2AP_RESET_RESPONSE
  | RIC_SERVICE_UPDATE | RIC_SERVICE_UPDATE_ACKNOWLEDGE | RIC_SERVICE_UPDATE_FAILURE
  | RIC_SERVICE_QUERY | E2_NODE_CONFIGURATION_UPDATE | E2_NODE_CONFIGURATION_UPDATE_ACKNOWLEDGE
  | E2_NODE_CONFIGURATION_UPDATE_FAILURE | E2_CONNECTION_UPDATE
  | E2_CONNECTION_UPDATE_ACKNOWLEDGE | E2_CONNECTION_UPDATE_FAILURE
  | E2_REMOVAL_REQUEST | E2_REMOVAL_RESPONSE | E2_REMOVAL_FAILURE
  | E42_SETUP_REQUEST | E42_SETUP_RESPONSE | E42_RIC_SUBSCRIPTION_REQUEST
  | E42_RIC_SUBSCRIPTION_DELETE_REQUEST | E42_RIC_CONTROL_REQUEST | NONE_E2_MSG_TYPE

datatype e2ap_msg_t =
    Ric_sub_req ric_subscription_request_t
  | Ric_sub_resp ric_subscription_response_t
  | Ric_sub_del_req ric_subscription_delete_request_t
  | Ric_sub_del_resp ric_subscription_delete_response_t
  | Ric_ind ric_indication_t
  | Ric_ctrl_req ric_control_request_t
  | Ric_ctrl_ack ric_control_acknowledge_t
  | Ric_ctrl_fail ric_control_failure_t
  | E2_stp_req e2_setup_request_t
  | E2_stp_resp e2_setup_response_t
  | E2_stp_fail e2_setup_failure_t
  | E42_stp_req e42_setup_request_t
  | E42_stp_resp e42_setup_response_t
  | E42_ric_sub_req e42_ric_subscription_request_t
  | E42_ric_sub_del_req e42_ric_subscription_delete_request_t
  | E42_ric_ctrl_req e42_ric_control_request_t
  | Other_msg e2_msg_type_t

fun msg_type :: "e2ap_msg_t \<Rightarrow> e2_msg_type_t" where
  "msg_type (Ric_sub_req _) = RIC_SUBSCRIPTION_REQUEST"
| "msg_type (Ric_sub_resp _) = RIC_SUBSCRIPTION_RESPONSE"
| "msg_type (Ric_sub_del_req _) = RIC_SUBSCRIPTION_DELETE_REQUEST"
| "msg_type (Ric_sub_del_resp _) = RIC_SUBSCRIPTION_DELETE_RESPONSE"
| "msg_type (Ric_ind _) = RIC_INDICATION"
| "msg_type (Ric_ctrl_req _) = RIC_CONTROL_REQUEST"
| "msg_type (Ric_ctrl_ack _) = RIC_CONTROL_ACKNOWLEDGE"
| "msg_type (Ric_ctrl_fail _) = RIC_CONTROL_FAILURE"
| "msg_type (E2_stp_req _) = E2_SETUP_REQUEST"
| "msg_type (E2_stp_resp _) = E2_SETUP_RESPONSE"
| "msg_type (E2_stp_fail _) = E2_SETUP_FAILURE"
| "msg_type (E42_stp_req _) = E42_SETUP_REQUEST"
| "msg_type (E42_stp_resp _) = E42_SETUP_RESPONSE"
| "msg_type (E42_ric_sub_req _) = E42_RIC_SUBSCRIPTION_REQUEST"
| "msg_type (E42_ric_sub_del_req _) = E42_RIC_SUBSCRIPTION_DELETE_REQUEST"
| "msg_type (E42_ric_ctrl_req _) = E42_RIC_CONTROL_REQUEST"
| "msg_type (Other_msg t) = t"

abbreviation no_msg :: e2ap_msg_t where
  "no_msg \<equiv> Other_msg NONE_E2_MSG_TYPE"

subsection \<open>Copies and moves\<close>

definition copy_ie_criticality_diagnostics :: "ie_criticality_diagnostics_t \<Rightarrow> ie_criticality_diagnostics_t" where
  "copy_ie_criticality_diagnostics src =
     \<lparr>ie_crit = ie_crit src, ie_id = ie_id src, ie_type = ie_type src\<rparr>"

definition copy_criticality_diagnostics :: "criticality_diagnostics_t \<Rightarrow> criticality_diagnostics_t" where
  "copy_criticality_diagnostics src =
     \<lparr>procedure_code = procedure_code src, trig_msg = trig_msg src, proc_crit = proc_crit src,
      crit_req_id = crit_req_id src,
      crit_ie = map copy_ie_criticality_diagnostics (crit_ie src)\<rparr>"

definition copy_ric_control_failure :: "ric_control_failure_t \<Rightarrow> ric_control_failure_t" where
  "copy_ric_control_failure src =
     \<lparr>cf_ric_id = cf_ric_id src, cf_call_process_id = cf_call_process_id src,
      cf_cause = cf_cause src, cf_control_outcome = cf_control_outcome src,
      cf_crit = map_option copy_criticality_diagnostics (cf_crit src)\<rparr>"

definition cp_ric_subscription_delete_request ::
    "ric_subscription_delete_request_t \<Rightarrow> ric_subscription_delete_request_t" where
  "cp_ric_subscription_delete_request src = \<lparr>sdr_ric_id = sdr_ric_id src\<rparr>"

text \<open>The moves also clear their source, which no caller reads again.\<close>

definition mv_ric_subscription_respponse :: "ric_subscription_response_t \<Rightarrow> ric_subscription_response_t" where
  "mv_ric_subscription_respponse src =
     \<lparr>sresp_ric_id = sresp_ric_id src, admitted = admitted src, not_admitted = not_admitted src\<rparr>"

definition mv_ric_indication :: "ric_indication_t \<Rightarrow> ric_indication_t" where
  "mv_ric_indication src =
     \<lparr>ind_ric_id = ind_ric_id src, ind_action_id = ind_action_id src, ind_sn = ind_sn src,
      ind_type = ind_type src, ind_hdr = ind_hdr src, ind_msg = ind_msg src,
      ind_call_process_id = ind_call_process_id src\<rparr>"

fun comp_id_type :: "e2ap_node_comp_id_t \<Rightarrow> e2ap_node_comp_interface_type_e" where
  "comp_id_type (Ng_amf_name _) = NG_E2AP_NODE_COMP_INTERFACE_TYPE"
| "comp_id_type (E1_gnb_cu_up_id _) = E1_E2AP_NODE_COMP_INTERFACE_TYPE"
| "comp_id_type (F1_gnb_du_id _) = F1_E2AP_NODE_COMP_INTERFACE_TYPE"
| "comp_id_type (S1_mme_name _) = S1_E2AP_NODE_COMP_INTERFACE_TYPE"
| "comp_id_type (Unsupported_comp_id t) = t"

definition supported_type :: "e2ap_node_comp_interface_type_e \<Rightarrow> bool" where
  "supported_type t \<longleftrightarrow> t = NG_E2AP_NODE_COMP_INTERFACE_TYPE
     \<or> t = F1_E2AP_NODE_COMP_INTERFACE_TYPE \<or> t = E1_E2AP_NODE_COMP_INTERFACE_TYPE
     \<or> t = S1_E2AP_NODE_COMP_INTERFACE_TYPE"

definition cp_e2ap_node_comp_id :: "e2ap_node_comp_id_t \<Rightarrow> e2ap_node_comp_id_t option" where
  "cp_e2ap_node_comp_id src = do {
     assert_c (supported_type (comp_id_type src));
     case src of
       F1_gnb_du_id i \<Rightarrow> do { assert_c (i < push_bit 36 1); Some (F1_gnb_du_id i) }
     | Unsupported_comp_id t \<Rightarrow> None
     | _ \<Rightarrow> Some src
   }"

definition cp_e2ap_node_comp_conf :: "e2ap_node_comp_conf_t \<Rightarrow> e2ap_node_comp_conf_t" where
  "cp_e2ap_node_comp_conf src =
     \<lparr>conf_request = conf_request src, conf_response = conf_response src\<rparr>"

definition cp_e2ap_node_component_config_add ::
    "e2ap_node_component_config_add_t \<Rightarrow> e2ap_node_component_config_add_t option" where
  "cp_e2ap_node_component_config_add src = do {
     i \<leftarrow> cp_e2ap_node_comp_id (cca_comp_id src);
     Some \<lparr>cca_interface_type = cca_interface_type src, cca_comp_id = i,
           cca_comp_conf = cp_e2ap_node_comp_conf (cca_comp_conf src)\<rparr>
   }"

definition cp_ran_function :: "ran_function_t \<Rightarrow> ran_function_t" where
  "cp_ran_function src =
     \<lparr>rf_defn = rf_defn src, rf_id = rf_id src, rf_rev = rf_rev src, rf_oid = rf_oid src\<rparr>"

definition cp_global_e2_node_id :: "global_e2_node_id_t \<Rightarrow> global_e2_node_id_t" where
  "cp_global_e2_node_id src =
     \<lparr>ge_type = ge_type src, ge_plmn = ge_plmn src, ge_nb_id = ge_nb_id src, cu_du_id = cu_du_id src\<rparr>"

text \<open>A copy is the value it copies; only an unsupported interface or an oversized DU identifier aborts.\<close>

lemma copy_ie_id [simp]: "copy_ie_criticality_diagnostics x = x"
  by (simp add: copy_ie_criticality_diagnostics_def)

lemma copies_id [simp]:
  "copy_criticality_diagnostics c = c" "copy_ric_control_failure f = f"
  "cp_ric_subscription_delete_request d = d" "mv_ric_subscription_respponse r = r"
  "mv_ric_indication i = i" "cp_e2ap_node_comp_conf n = n" "cp_ran_function rf = rf"
  "cp_global_e2_node_id g = g"
proof -
  have ie: "copy_ie_criticality_diagnostics = id" by (rule ext) simp
  show c: "copy_criticality_diagnostics c = c" for c
    by (simp add: copy_criticality_diagnostics_def ie)
  have "copy_criticality_diagnostics = id" by (rule ext) (simp add: c)
  then show "copy_ric_control_failure f = f"
    by (simp add: copy_ric_control_failure_def option.map_id)
qed (simp_all add: cp_ric_subscription_delete_request_def mv_ric_subscription_respponse_def
    mv_ric_indication_def cp_e2ap_node_comp_conf_def cp_ran_function_def cp_global_e2_node_id_def)

lemma cp_comp_id_Some [simp]: "cp_e2ap_node_comp_id i = Some i' \<Longrightarrow> i' = i"
  by (auto simp: cp_e2ap_node_comp_id_def split: e2ap_node_comp_id_t.splits if_splits)

lemma cp_cca_add_Some: "cp_e2ap_node_component_config_add c = Some c' \<Longrightarrow> c' = c"
  by (auto simp: cp_e2ap_node_component_config_add_def bind_Some_iff dest: cp_comp_id_Some)

end
