(* ===== verification/Reg_E2_Nodes.thy ===== *)
theory Reg_E2_Nodes
  imports E2ap_Msg Bimap
begin

text \<open>
  The registries of connected E2 nodes: \<^verbatim>\<open>src/src/flexric/src/lib/msg_hand/reg_e2_nodes.c\<close>
  (the RAN functions and component configurations of a node), \<^verbatim>\<open>ric/map_e2_node_sockaddr.c\<close>
  (the address of a node) and \<^verbatim>\<open>ric/e2_node.c\<close>.

  Node identifiers are ordered by \<^verbatim>\<open>cmp_global_e2_node_id\<close> but searched with
  \<^verbatim>\<open>eq_global_e2_node_id\<close>, which is coarser: it ignores the CU/DU identifier of a CU.  Both
  abort when the identifier of a CU or DU has no CU/DU number.
\<close>

subsection \<open>Searching with a predicate that can abort\<close>

fun entries_find_if_opt :: "('k \<Rightarrow> bool option) \<Rightarrow> ('k, 'v) entries \<Rightarrow> ('k \<times> 'v) option option" where
  "entries_find_if_opt f [] = Some None"
| "entries_find_if_opt f ((x, w) # t) =
     do { b \<leftarrow> f x; if b then Some (Some (x, w)) else entries_find_if_opt f t }"

text \<open>\<open>entries_free_it\<close> removes the entry that the search stops at.\<close>

fun entries_free_it :: "('k \<Rightarrow> bool option) \<Rightarrow> ('k, 'v) entries \<Rightarrow> ('k, 'v) entries" where
  "entries_free_it f [] = []"
| "entries_free_it f ((x, w) # t) = (if f x = Some True then t else (x, w) # entries_free_it f t)"

definition cmp_cu_du :: "u64 option \<Rightarrow> u64 option \<Rightarrow> int" where
  "cmp_cu_du a b = (case (a, b) of
       (Some x, Some y) \<Rightarrow> if x < y then -1 else if x > y then 1 else 0
     | (None, Some y) \<Rightarrow> -1
     | (Some x, None) \<Rightarrow> 1
     | (None, None) \<Rightarrow> 0)"

text \<open>
  A value for every pair of identifiers.  Where the code aborts the absent number is the
  smallest; no caller reaches that case, as every key is \<open>node_complete\<close>.
\<close>

definition cmp_global_e2_node_id_wrapper :: "global_e2_node_id_t \<Rightarrow> global_e2_node_id_t \<Rightarrow> int" where
  "cmp_global_e2_node_id_wrapper m0 m1 = (case cmp_global_e2_node_id m0 m1 of
       Some c \<Rightarrow> c | None \<Rightarrow> cmp_cu_du (cu_du_id m0) (cu_du_id m1))"

definition node_complete :: "global_e2_node_id_t \<Rightarrow> bool" where
  "node_complete n \<longleftrightarrow> (NODE_IS_CU (ge_type n) \<or> NODE_IS_CUUP (ge_type n) \<or> NODE_IS_DU (ge_type n)
     \<longrightarrow> cu_du_id n \<noteq> None)"

subsection \<open>RAN functions and component configurations of the nodes\<close>

record pair_rf_cca_t =
  ran_func :: "ran_function_t list"
  comp_conf_add :: "e2ap_node_component_config_add_t list"

type_synonym reg_e2_nodes_t = "(global_e2_node_id_t, pair_rf_cca_t) entries"

definition init_reg_e2_node :: reg_e2_nodes_t where
  "init_reg_e2_node = []"

definition add_reg_e2_node :: "reg_e2_nodes_t \<Rightarrow> global_e2_node_id_t \<Rightarrow> ran_function_t list
    \<Rightarrow> e2ap_node_component_config_add_t list \<Rightarrow> reg_e2_nodes_t option" where
  "add_reg_e2_node i nid rfs ccas = do {
     assert_c (length rfs > 0);
     assert_c (length ccas > 0);
     let arr_rf = map cp_ran_function rfs;
     arr_cca \<leftarrow> those (map cp_e2ap_node_component_config_add ccas);
     it \<leftarrow> (if length i > 0 then entries_find_if_opt (eq_global_e2_node_id nid) i else Some None);
     assert_c (it = None);
     Some (entries_insert cmp_global_e2_node_id_wrapper (cp_global_e2_node_id nid)
       \<lparr>ran_func = arr_rf, comp_conf_add = arr_cca\<rparr> i)
   }"

definition sz_reg_e2_node :: "reg_e2_nodes_t \<Rightarrow> nat" where
  "sz_reg_e2_node n = length n"

definition cp_pair_rf_cca :: "pair_rf_cca_t \<Rightarrow> pair_rf_cca_t option" where
  "cp_pair_rf_cca p = do {
     cca \<leftarrow> those (map cp_e2ap_node_component_config_add (comp_conf_add p));
     Some \<lparr>ran_func = map cp_ran_function (ran_func p), comp_conf_add = cca\<rparr>
   }"

fun cp_reg_nodes :: "reg_e2_nodes_t \<Rightarrow> reg_e2_nodes_t \<Rightarrow> reg_e2_nodes_t option" where
  "cp_reg_nodes ans [] = Some ans"
| "cp_reg_nodes ans ((nid, p) # t) = do {
     q \<leftarrow> cp_pair_rf_cca p;
     cp_reg_nodes (entries_insert cmp_global_e2_node_id_wrapper (cp_global_e2_node_id nid) q ans) t
   }"

definition cp_reg_e2_node :: "reg_e2_nodes_t \<Rightarrow> reg_e2_nodes_t option" where
  "cp_reg_e2_node n = do {
     ans \<leftarrow> cp_reg_nodes [] n;
     assert_c (length ans = length n);
     Some ans
   }"

definition cp_cca :: "e2ap_node_component_config_add_t list
    \<Rightarrow> e2ap_node_component_config_add_t list option" where
  "cp_cca cca_arr = do {
     assert_c (0 < length cca_arr \<and> length cca_arr < 256);
     those (map cp_e2ap_node_component_config_add cca_arr)
   }"

definition gen_node_connected :: "global_e2_node_id_t \<times> pair_rf_cca_t \<Rightarrow> e2_node_connected_t option" where
  "gen_node_connected e = do {
     cca \<leftarrow> cp_cca (comp_conf_add (snd e));
     Some \<lparr>nc_id = cp_global_e2_node_id (fst e), nc_cca = cca,
           nc_ack_rf = map cp_ran_function (ran_func (snd e))\<rparr>
   }"

text \<open>
  The length of the array is an \<^verbatim>\<open>uint8_t\<close>: the block is allocated for the low eight bits of the
  number of nodes, and the loop writes one element per node.  From 256 nodes on it writes past the
  block, which is \<^term>\<open>None\<close>; otherwise the length is the number of nodes.
\<close>

definition generate_e2_node_arr :: "reg_e2_nodes_t \<Rightarrow> e2_node_connected_t list option" where
  "generate_e2_node_arr n = do {
     t \<leftarrow> cp_reg_e2_node n;
     let len = (of_nat (length t) :: u8);
     assert_c (length t \<le> unat len);
     those (map gen_node_connected t)
   }"

definition rm_reg_e2_node :: "reg_e2_nodes_t \<Rightarrow> global_e2_node_id_t \<Rightarrow> reg_e2_nodes_t option" where
  "rm_reg_e2_node n nid = do {
     it \<leftarrow> entries_find_if_opt (eq_global_e2_node_id nid) n;
     assert_c (it \<noteq> None);
     Some (entries_free_it (eq_global_e2_node_id nid) n)
   }"

subsection \<open>Addresses of the nodes\<close>

type_synonym map_e2_node_sockaddr_t = "(global_e2_node_id_t, sctp_info_t) bi_map_t"

definition init_map_e2_node_sad :: map_e2_node_sockaddr_t where
  "init_map_e2_node_sad = bi_map_init cmp_global_e2_node_id_wrapper cmp_sctp_info_wrapper"

text \<open>The insertion compares the key with itself, which aborts for an incomplete one.\<close>

definition add_map_e2_node_sad :: "map_e2_node_sockaddr_t \<Rightarrow> global_e2_node_id_t \<Rightarrow> sctp_info_t
    \<Rightarrow> map_e2_node_sockaddr_t option" where
  "add_map_e2_node_sad m nid s = do {
     let id_cp = cp_global_e2_node_id nid;
     assert_c (cmp_global_e2_node_id id_cp id_cp \<noteq> None);
     bi_map_insert m id_cp s
   }"

definition rm_map_e2_node_sad :: "map_e2_node_sockaddr_t \<Rightarrow> global_e2_node_id_t
    \<Rightarrow> (sctp_info_t \<times> map_e2_node_sockaddr_t) option" where
  "rm_map_e2_node_sad m nid = bi_map_extract_left m nid"

definition rm_map_sad_e2_node :: "map_e2_node_sockaddr_t \<Rightarrow> sctp_info_t
    \<Rightarrow> (global_e2_node_id_t \<times> map_e2_node_sockaddr_t) option" where
  "rm_map_sad_e2_node m s = bi_map_extract_right m s"

definition find_map_e2_node_sad :: "map_e2_node_sockaddr_t \<Rightarrow> global_e2_node_id_t \<Rightarrow> sctp_info_t option" where
  "find_map_e2_node_sad m nid = do {
     it \<leftarrow> entries_find_if_opt (eq_global_e2_node_id nid) (bm_left m);
     (k, s) \<leftarrow> it;
     Some s
   }"

subsection \<open>Connected nodes\<close>

record e2_node_t =
  en_id :: global_e2_node_id_t
  en_accepted :: "u16 list"

definition init_e2_node :: "global_e2_node_id_t \<Rightarrow> u16 list \<Rightarrow> e2_node_t" where
  "init_e2_node nid accepted =
     \<lparr>en_id = \<lparr>ge_type = ge_type nid, ge_plmn = ge_plmn nid, ge_nb_id = ge_nb_id nid,
               cu_du_id = cu_du_id nid\<rparr>,
      en_accepted = accepted\<rparr>"

definition cp_e2_node :: "e2_node_t \<Rightarrow> e2_node_t" where
  "cp_e2_node src = \<lparr>en_id = cp_global_e2_node_id (en_id src), en_accepted = en_accepted src\<rparr>"

subsection \<open>Order and equality of node identifiers\<close>

lemma ngran_val_inj [simp]: "ngran_val a = ngran_val b \<longleftrightarrow> a = b"
  by (cases a; cases b) simp_all

text \<open>The order as the lexicographic combination of its five components.\<close>

definition lex_cmp :: "int \<Rightarrow> int \<Rightarrow> int" where
  "lex_cmp a b = (if a \<noteq> 0 then a else b)"

definition cmp_ngran :: "global_e2_node_id_t \<Rightarrow> global_e2_node_id_t \<Rightarrow> int" where
  "cmp_ngran m0 m1 = (if ngran_val (ge_type m0) < ngran_val (ge_type m1) then -1
     else if ngran_val (ge_type m0) > ngran_val (ge_type m1) then 1 else 0)"

definition cmp_nb :: "global_e2_node_id_t \<Rightarrow> global_e2_node_id_t \<Rightarrow> int" where
  "cmp_nb m0 m1 = (if nb_id (ge_nb_id m0) < nb_id (ge_nb_id m1) then -1
      else if nb_id (ge_nb_id m0) > nb_id (ge_nb_id m1) then 1
      else if unused (ge_nb_id m0) < unused (ge_nb_id m1) then 1
      else if unused (ge_nb_id m0) > unused (ge_nb_id m1) then -1 else 0)"

definition cmp_number :: "global_e2_node_id_t \<Rightarrow> global_e2_node_id_t \<Rightarrow> int" where
  "cmp_number m0 m1 =
     (if NODE_IS_CU (ge_type m0) \<or> NODE_IS_CUUP (ge_type m0) \<or> NODE_IS_DU (ge_type m0)
      then cmp_cu_du (cu_du_id m0) (cu_du_id m1) else 0)"

definition cmp_node_prefix :: "global_e2_node_id_t \<Rightarrow> global_e2_node_id_t \<Rightarrow> int" where
  "cmp_node_prefix m0 m1 =
     lex_cmp (cmp_ngran m0 m1) (lex_cmp (cmp_e2ap_plmn (ge_plmn m0) (ge_plmn m1)) (cmp_nb m0 m1))"

lemma node_wrapper_lex:
  "cmp_global_e2_node_id_wrapper m0 m1 = lex_cmp (cmp_node_prefix m0 m1) (cmp_number m0 m1)"
  by (auto simp: cmp_global_e2_node_id_wrapper_def cmp_global_e2_node_id_def lex_cmp_def Let_def
      cmp_node_prefix_def cmp_ngran_def cmp_nb_def cmp_number_def cmp_cu_du_def
      split: option.splits if_splits)

lemma lex_comparator:
  assumes c1: "comparator c1"
    and self2: "\<And>x. c2 x x = 0"
    and flip2: "\<And>x y. c1 x y = 0 \<Longrightarrow> c2 y x = - c2 x y"
    and range2: "\<And>x y. c2 x y = -1 \<or> c2 x y = 0 \<or> c2 x y = 1"
    and trans2: "\<And>x y z. c1 x y = 0 \<Longrightarrow> c1 y z = 0 \<Longrightarrow> c2 x y = 1 \<Longrightarrow> c2 y z = 1 \<Longrightarrow> c2 x z = 1"
    and cong2: "\<And>x y z. c1 x y = 0 \<Longrightarrow> c1 y z = 0 \<Longrightarrow> c2 x y = 0 \<Longrightarrow> c2 x z = c2 y z"
  shows "comparator (\<lambda>x y. lex_cmp (c1 x y) (c2 x y))"
proof
  fix x y z
  note facts = comparator.cmp_self[OF c1] comparator.cmp_range[OF c1]
  note cong = comparator.cmp_cong[OF c1] and flip = comparator.cmp_flip[OF c1]
  have right: "c1 x y = c1 x z" if "c1 y z = 0" for x y z
    using comparator.cmp_cong_right[OF c1 that] by simp
  show "lex_cmp (c1 x x) (c2 x x) = 0" by (simp add: lex_cmp_def facts self2)
  show "lex_cmp (c1 y x) (c2 y x) = - lex_cmp (c1 x y) (c2 x y)"
    using flip[of y x] flip2[of x y] by (simp add: lex_cmp_def)
  show "lex_cmp (c1 x y) (c2 x y) = -1 \<or> lex_cmp (c1 x y) (c2 x y) = 0 \<or> lex_cmp (c1 x y) (c2 x y) = 1"
    using facts(2)[of x y] range2[of x y] by (auto simp: lex_cmp_def)
  show "lex_cmp (c1 x z) (c2 x z) = 1"
    if xy: "lex_cmp (c1 x y) (c2 x y) = 1" and yz: "lex_cmp (c1 y z) (c2 y z) = 1"
  proof (cases "c1 x y = 0")
    case True
    show ?thesis
    proof (cases "c1 y z = 0")
      case z: True
      with True have "c1 x z = 0" using cong[of x y z] by simp
      then show ?thesis using True z xy yz trans2[of x y z] by (simp add: lex_cmp_def)
    next
      case False
      then show ?thesis using True yz cong[of x y z] by (simp add: lex_cmp_def)
    qed
  next
    case xy1: False
    show ?thesis
    proof (cases "c1 y z = 0")
      case True
      then show ?thesis using xy1 xy right[of y z x] by (simp add: lex_cmp_def)
    next
      case False
      then show ?thesis
        using xy1 xy yz comparator.cmp_less_trans[OF c1, of x y z] by (simp add: lex_cmp_def)
    qed
  qed
  show "lex_cmp (c1 x z) (c2 x z) = lex_cmp (c1 y z) (c2 y z)" if "lex_cmp (c1 x y) (c2 x y) = 0"
  proof -
    have z: "c1 x y = 0" "c2 x y = 0" using that by (auto simp: lex_cmp_def split: if_splits)
    then have "c1 x z = c1 y z" using cong[of x y z] by simp
    then show ?thesis using z cong2[of x y z] by (simp add: lex_cmp_def)
  qed
qed

lemma cmp_cu_du_zero [simp]: "cmp_cu_du a b = 0 \<longleftrightarrow> a = b"
  by (auto simp: cmp_cu_du_def split: option.splits if_splits)

lemma cu_du_comparator: "comparator cmp_cu_du"
  by unfold_locales (auto simp: cmp_cu_du_def split: option.splits if_splits)

lemma ngran_comparator: "comparator cmp_ngran"
  by unfold_locales (auto simp: cmp_ngran_def split: if_splits)

lemma nb_comparator: "comparator cmp_nb"
  by unfold_locales (auto simp: cmp_nb_def split: if_splits)

lemma plmn_comparator: "comparator (\<lambda>m0 m1. cmp_e2ap_plmn (ge_plmn m0) (ge_plmn m1))"
  by unfold_locales (rule plmn_cmp.cmp_self plmn_cmp.cmp_flip plmn_cmp.cmp_range
      plmn_cmp.cmp_less_trans plmn_cmp.cmp_cong; assumption)+

lemma lex_comparators:
  assumes "comparator c1" "comparator c2"
  shows "comparator (\<lambda>x y. lex_cmp (c1 x y) (c2 x y))"
  using assms(1)
  by (rule lex_comparator) (use assms(2) in \<open>auto dest: comparator.cmp_self comparator.cmp_flip
    comparator.cmp_range comparator.cmp_less_trans comparator.cmp_cong\<close>)

lemma prefix_comparator: "comparator cmp_node_prefix"
  using lex_comparators[OF ngran_comparator lex_comparators[OF plmn_comparator nb_comparator]]
  by (simp add: cmp_node_prefix_def [abs_def])

lemma prefix_zero_type: "cmp_node_prefix x y = 0 \<Longrightarrow> ge_type x = ge_type y"
  by (auto simp: cmp_node_prefix_def lex_cmp_def cmp_ngran_def split: if_splits)

interpretation e2node_cmp: comparator cmp_global_e2_node_id_wrapper
proof -
  note c = comparator.cmp_self[OF cu_du_comparator] comparator.cmp_range[OF cu_du_comparator]
  have "comparator (\<lambda>x y. lex_cmp (cmp_node_prefix x y) (cmp_number x y))"
  proof (rule lex_comparator[OF prefix_comparator])
    fix x y z :: global_e2_node_id_t
    show "cmp_number x x = 0" by (simp add: cmp_number_def)
    show "cmp_number x y = -1 \<or> cmp_number x y = 0 \<or> cmp_number x y = 1"
      using c(2) by (auto simp: cmp_number_def)
    show "cmp_number y x = - cmp_number x y" if "cmp_node_prefix x y = 0"
      using prefix_zero_type[OF that] comparator.cmp_flip[OF cu_du_comparator, of "cu_du_id y" "cu_du_id x"]
      by (simp add: cmp_number_def)
    assume "cmp_node_prefix x y = 0" "cmp_node_prefix y z = 0"
    then have t: "ge_type x = ge_type y" "ge_type y = ge_type z" using prefix_zero_type by blast+
    show "cmp_number x z = 1" if "cmp_number x y = 1" "cmp_number y z = 1"
      using that t comparator.cmp_less_trans[OF cu_du_comparator, of "cu_du_id x" "cu_du_id y" "cu_du_id z"]
      by (auto simp: cmp_number_def split: if_splits)
    show "cmp_number x z = cmp_number y z" if "cmp_number x y = 0"
      using that t by (auto simp: cmp_number_def split: if_splits)
  qed
  then show "comparator cmp_global_e2_node_id_wrapper" by (simp add: node_wrapper_lex [abs_def])
qed

definition node_key :: "global_e2_node_id_t \<Rightarrow>
    ngran_node_t \<times> e2ap_plmn_t \<times> e2ap_gnb_id_t \<times> u64 option" where
  "node_key n = (ge_type n, ge_plmn n, ge_nb_id n,
     if NODE_IS_CUUP (ge_type n) \<or> NODE_IS_DU (ge_type n) then cu_du_id n else None)"

lemma eq_node_complete:
  "node_complete n \<Longrightarrow> node_complete m \<Longrightarrow> eq_global_e2_node_id n m = Some (node_key n = node_key m)"
  by (auto simp: eq_global_e2_node_id_def node_key_def node_complete_def NODE_IS_CU_def)

lemma plmn_cmp_zero [simp]: "cmp_e2ap_plmn p q = 0 \<longleftrightarrow> p = q"
  by (cases p; cases q) (auto simp: cmp_e2ap_plmn_def)

lemma cmp_node_zero_key: "cmp_global_e2_node_id_wrapper n m = 0 \<Longrightarrow> node_key n = node_key m"
  by (cases "ge_nb_id n"; cases "ge_nb_id m")
    (auto simp: node_wrapper_lex lex_cmp_def cmp_node_prefix_def cmp_ngran_def cmp_nb_def
      cmp_number_def node_key_def split: if_splits)

subsection \<open>Laws of the registry\<close>

lemma find_if_opt_total:
  "\<forall>(k, v) \<in> set t. f k = Some (g k) \<Longrightarrow> entries_find_if_opt f t = Some (entries_find_if g t)"
  by (induction f t rule: entries_find_if_opt.induct) auto

definition keys_sorted :: "('k \<Rightarrow> 'k \<Rightarrow> int) \<Rightarrow> ('k, 'v) entries \<Rightarrow> bool" where
  "keys_sorted cmp t \<longleftrightarrow> sorted_wrt (\<lambda>x y. cmp x y = 1) (map fst t)"

context comparator
begin

lemma keys_sorted_insert:
  "keys_sorted cmp t \<Longrightarrow> \<forall>(x, w) \<in> set t. cmp k x \<noteq> 0 \<Longrightarrow> keys_sorted cmp (entries_insert cmp k v t)"
proof (induction t)
  case (Cons e t)
  obtain x w where e: "e = (x, w)" by (cases e)
  show ?case
  proof (cases "cmp k x = 1")
    case True
    then show ?thesis using Cons.prems e cmp_less_trans by (auto simp: keys_sorted_def)
  next
    case False
    then have "cmp x k = 1"
      using Cons.prems(2) e cmp_range[of k x] cmp_flip[of x k] by auto
    then show ?thesis using Cons e False by (auto simp: keys_sorted_def)
  qed
qed (simp add: keys_sorted_def)

lemma insert_last:
  "\<forall>(x, w) \<in> set t. cmp x k = 1 \<Longrightarrow> entries_insert cmp k v t = t @ [(k, v)]"
proof (induction t)
  case (Cons e t)
  obtain x w where e: "e = (x, w)" by (cases e)
  with Cons have "cmp k x \<noteq> 1" using cmp_flip[of k x] by auto
  with Cons e show ?case by auto
qed simp

lemma keys_sorted_unique:
  "keys_sorted cmp s \<Longrightarrow> keys_sorted cmp t \<Longrightarrow> mset s = mset t \<Longrightarrow> s = t"
proof (induction s arbitrary: t)
  case (Cons e s)
  then obtain f t' where t: "t = f # t'" by (cases t) auto
  have "e = f"
  proof (rule ccontr)
    assume ne: "e \<noteq> f"
    then have "e \<in> set t'" "f \<in> set s"
      using Cons.prems(3) t by (metis insert_iff list.set(2) set_mset_mset)+
    then have "cmp (fst f) (fst e) = 1" "cmp (fst e) (fst f) = 1"
      using Cons.prems(1,2) t by (auto simp: keys_sorted_def)
    then show False using cmp_flip[of "fst e" "fst f"] by simp
  qed
  then show ?case using Cons t by (auto simp: keys_sorted_def)
qed simp

end

definition cca_ok :: "e2ap_node_component_config_add_t \<Rightarrow> bool" where
  "cca_ok c \<longleftrightarrow> cp_e2ap_node_component_config_add c = Some c"

definition reg_ok :: "reg_e2_nodes_t \<Rightarrow> bool" where
  "reg_ok t \<longleftrightarrow> (\<forall>(n, p) \<in> set t. node_complete n \<and> (\<forall>c \<in> set (comp_conf_add p). cca_ok c)
       \<and> 0 < length (comp_conf_add p) \<and> length (comp_conf_add p) < 256)
     \<and> keys_sorted cmp_global_e2_node_id_wrapper t \<and> distinct (map (node_key \<circ> fst) t)"

lemma map_cp_ran_function [simp]: "map cp_ran_function rfs = rfs"
  by (induction rfs) auto

lemma those_copies: "\<forall>c \<in> set ccas. cca_ok c \<Longrightarrow> those (map cp_e2ap_node_component_config_add ccas) = Some ccas"
  by (induction ccas) (auto simp: cca_ok_def)

lemma those_Some: "\<forall>x \<in> set xs. f x = Some (g x) \<Longrightarrow> those (map f xs) = Some (map g xs)"
  by (induction xs) auto

lemma reg_find:
  assumes "reg_ok t" "node_complete n"
  shows "entries_find_if_opt (eq_global_e2_node_id n) t
    = Some (entries_find_if (\<lambda>m. node_key n = node_key m) t)"
  using assms by (intro find_if_opt_total) (auto simp: reg_ok_def eq_node_complete)

lemma add_reg_e2_node_ok:
  assumes t: "reg_ok t" and n: "node_complete n" and new: "\<forall>(m, p) \<in> set t. node_key m \<noteq> node_key n"
    and rfs: "rfs \<noteq> []" and ccas: "\<forall>c \<in> set ccas. cca_ok c" "0 < length ccas" "length ccas < 256"
  shows "\<exists>t'. add_reg_e2_node t n rfs ccas = Some t' \<and> reg_ok t'
    \<and> mset t' = add_mset (n, \<lparr>ran_func = rfs, comp_conf_add = ccas\<rparr>) (mset t)"
proof -
  let ?p = "\<lparr>ran_func = rfs, comp_conf_add = ccas\<rparr>"
  let ?t = "entries_insert cmp_global_e2_node_id_wrapper n ?p t"
  have none: "entries_find_if (\<lambda>m. node_key n = node_key m) t = None"
    using new unfolding entries_find_if_None by fastforce
  have "\<forall>(x, w) \<in> set t. cmp_global_e2_node_id_wrapper n x \<noteq> 0"
    using new cmp_node_zero_key by fastforce
  then have "keys_sorted cmp_global_e2_node_id_wrapper ?t"
    using t by (intro e2node_cmp.keys_sorted_insert) (auto simp: reg_ok_def)
  moreover have m: "mset ?t = add_mset (n, ?p) (mset t)" by (rule mset_entries_insert)
  moreover have "distinct (map (node_key \<circ> fst) ?t)"
  proof -
    have "mset (map (node_key \<circ> fst) ?t) = mset (node_key n # map (node_key \<circ> fst) t)"
      using arg_cong[OF m, of "image_mset (node_key \<circ> fst)"] by simp
    moreover have "distinct (node_key n # map (node_key \<circ> fst) t)"
      using t new by (force simp: reg_ok_def)
    ultimately show ?thesis by (metis mset_eq_imp_distinct_iff)
  qed
  moreover have "add_reg_e2_node t n rfs ccas = Some ?t"
    using rfs ccas reg_find[OF t n] none by (simp add: add_reg_e2_node_def those_copies)
  ultimately show ?thesis using t n ccas by (auto simp: reg_ok_def)
qed

lemma cp_reg_nodes_sorted:
  "\<forall>(n, p) \<in> set t. \<forall>c \<in> set (comp_conf_add p). cca_ok c \<Longrightarrow>
    keys_sorted cmp_global_e2_node_id_wrapper (ans @ t) \<Longrightarrow> cp_reg_nodes ans t = Some (ans @ t)"
proof (induction ans t rule: cp_reg_nodes.induct)
  case (2 ans n p t)
  have "\<forall>(x, w) \<in> set ans. cmp_global_e2_node_id_wrapper x n = 1"
    using "2.prems"(2) by (auto simp: keys_sorted_def sorted_wrt_append)
  then have "entries_insert cmp_global_e2_node_id_wrapper n p ans = ans @ [(n, p)]"
    by (rule e2node_cmp.insert_last)
  moreover have "cp_pair_rf_cca p = Some p"
    using "2.prems"(1) by (simp add: cp_pair_rf_cca_def those_copies)
  ultimately show ?case using 2 by simp
qed simp

lemma cp_reg_e2_node_ok:
  assumes "reg_ok t"
  shows "cp_reg_e2_node t = Some t"
proof -
  have "cp_reg_nodes [] t = Some t"
    using assms cp_reg_nodes_sorted[of t "[]"] by (auto simp: reg_ok_def)
  then show ?thesis by (simp add: cp_reg_e2_node_def)
qed

lemma fits_u8: "n \<le> unat (of_nat n :: u8) \<longleftrightarrow> n < 256"
proof -
  have "unat (of_nat n :: u8) = n mod 256" by (simp add: unat_of_nat)
  moreover have "n mod 256 < 256" by simp
  ultimately show ?thesis by (cases "n < 256") (simp, linarith)
qed

lemma generate_e2_node_arr_ok:
  assumes "reg_ok t" "length t < 256"
  shows "generate_e2_node_arr t =
    Some (map (\<lambda>(n, p). \<lparr>nc_id = n, nc_cca = comp_conf_add p, nc_ack_rf = ran_func p\<rparr>) t)"
proof -
  have "those (map gen_node_connected t) =
      Some (map (\<lambda>(n, p). \<lparr>nc_id = n, nc_cca = comp_conf_add p, nc_ack_rf = ran_func p\<rparr>) t)"
    using assms by (intro those_Some) (auto simp: gen_node_connected_def cp_cca_def those_copies reg_ok_def)
  then show ?thesis
    using assms by (simp add: generate_e2_node_arr_def cp_reg_e2_node_ok fits_u8 Let_def)
qed

lemma generate_e2_node_arr_overflow:
  "reg_ok t \<Longrightarrow> 256 \<le> length t \<Longrightarrow> generate_e2_node_arr t = None"
  by (simp add: generate_e2_node_arr_def cp_reg_e2_node_ok fits_u8 Let_def)

lemma free_it_split:
  assumes "(n, p) \<in> set t" "distinct (map (g \<circ> fst) t)" "\<forall>(m, q) \<in> set t. f m = Some (g n = g m)"
  shows "\<exists>a b. t = a @ (n, p) # b \<and> entries_free_it f t = a @ b"
  using assms
proof (induction t)
  case (Cons e t)
  obtain m q where e: "e = (m, q)" by (cases e)
  show ?case
  proof (cases "g n = g m")
    case True
    then have "e = (n, p)" using Cons.prems e by force
    then show ?thesis using True Cons.prems(3) e by force
  next
    case False
    then have "(n, p) \<in> set t" using Cons.prems e by auto
    then obtain a b where "t = a @ (n, p) # b \<and> entries_free_it f t = a @ b" using Cons by auto
    then have "e # t = (e # a) @ (n, p) # b \<and> entries_free_it f (e # t) = (e # a) @ b"
      using False Cons.prems(3) e by auto
    then show ?thesis by blast
  qed
qed simp

lemma rm_reg_e2_node_ok:
  assumes t: "reg_ok t" and n: "node_complete n" and mem: "(m, p) \<in> set t" "node_key m = node_key n"
  shows "\<exists>t'. rm_reg_e2_node t n = Some t' \<and> reg_ok t' \<and> mset t = add_mset (m, p) (mset t')"
proof -
  let ?f = "eq_global_e2_node_id n"
  have f: "\<forall>(m', q) \<in> set t. ?f m' = Some (node_key m = node_key m')"
    using t n mem(2) by (auto simp: reg_ok_def eq_node_complete)
  obtain a b where ab: "t = a @ (m, p) # b" "entries_free_it ?f t = a @ b"
    using free_it_split[OF mem(1) _ f] t by (auto simp: reg_ok_def)
  have "entries_find_if (\<lambda>k. node_key n = node_key k) t \<noteq> None"
    using mem unfolding entries_find_if_None by force
  then have "rm_reg_e2_node t n = Some (a @ b)"
    using reg_find[OF t n] ab(2) by (auto simp: rm_reg_e2_node_def)
  moreover have "reg_ok (a @ b)"
    using t by (auto simp: ab(1) reg_ok_def keys_sorted_def sorted_wrt_append)
  ultimately show ?thesis by (simp add: ab(1))
qed

text \<open>Adding a node shows it to the xApps with what it announced; removing it undoes that.\<close>

definition sample_node :: global_e2_node_id_t where
  "sample_node = \<lparr>ge_type = ngran_gNB, ge_plmn = \<lparr>mcc = 1, mnc = 1, mnc_digit_len = 2\<rparr>,
     ge_nb_id = \<lparr>nb_id = 7, unused = 0\<rparr>, cu_du_id = None\<rparr>"

definition sample_cca :: e2ap_node_component_config_add_t where
  "sample_cca = \<lparr>cca_interface_type = NG_E2AP_NODE_COMP_INTERFACE_TYPE, cca_comp_id = Ng_amf_name [1],
     cca_comp_conf = \<lparr>conf_request = [], conf_response = []\<rparr>\<rparr>"

definition sample_rf :: ran_function_t where
  "sample_rf = \<lparr>rf_defn = [1, 2], rf_id = 2, rf_rev = 1, rf_oid = []\<rparr>"

lemma reg_init_ok: "reg_ok init_reg_e2_node"
  by (simp add: reg_ok_def init_reg_e2_node_def keys_sorted_def)

lemma sample_cca_ok: "cca_ok sample_cca"
  by (simp add: cca_ok_def sample_cca_def cp_e2ap_node_component_config_add_def
      cp_e2ap_node_comp_id_def supported_type_def)

lemma sample_node_complete: "node_complete sample_node"
  by (simp add: node_complete_def sample_node_def NODE_IS_CU_def NODE_IS_CUUP_def NODE_IS_DU_def)

text \<open> C26: A complete node that is not registered and that announces at least one RAN function and
  between 1 and 255 component configurations of the supported interfaces can be added; then, as long
  as the registry has fewer than 256 nodes with it,
  the array sent to the xApps has one entry per registered node, the new one with the RAN
  functions and configurations it announced, the others as before; and removing the node
  succeeds and leaves the registry as it was. \<close>

theorem reg_e2_nodes_add_list_rm:
  assumes "reg_ok t" "node_complete n" "\<forall>(m, p) \<in> set t. node_key m \<noteq> node_key n"
    and "rfs \<noteq> []" "\<forall>c \<in> set ccas. cca_ok c" "0 < length ccas" "length ccas < 256"
    and "Suc (length t) < 256"
  shows "\<exists>t' arr arr'. add_reg_e2_node t n rfs ccas = Some t' \<and> reg_ok t'
    \<and> generate_e2_node_arr t = Some arr \<and> generate_e2_node_arr t' = Some arr'
    \<and> mset arr' = add_mset \<lparr>nc_id = n, nc_cca = ccas, nc_ack_rf = rfs\<rparr> (mset arr)
    \<and> rm_reg_e2_node t' n = Some t"
proof -
  obtain t' where t': "add_reg_e2_node t n rfs ccas = Some t'" "reg_ok t'"
    "mset t' = add_mset (n, \<lparr>ran_func = rfs, comp_conf_add = ccas\<rparr>) (mset t)"
    using add_reg_e2_node_ok[OF assms(1-7)] by blast
  have "length t' = Suc (length t)" using arg_cong[OF t'(3), of size] by simp
  then have few: "length t' < 256" "length t < 256" using assms(8) by simp_all
  let ?g = "\<lambda>(n, p). \<lparr>nc_id = n, nc_cca = comp_conf_add p, nc_ack_rf = ran_func p\<rparr>"
  have "mset (map ?g t') = add_mset \<lparr>nc_id = n, nc_cca = ccas, nc_ack_rf = rfs\<rparr> (mset (map ?g t))"
    using t'(3) by simp
  moreover obtain t'' where t'': "rm_reg_e2_node t' n = Some t''" "reg_ok t''"
    "mset t' = add_mset (n, \<lparr>ran_func = rfs, comp_conf_add = ccas\<rparr>) (mset t'')"
    using rm_reg_e2_node_ok[OF t'(2) assms(2), of n "\<lparr>ran_func = rfs, comp_conf_add = ccas\<rparr>"] t'(3)
    by (metis set_mset_mset union_single_eq_member)
  moreover have "t'' = t"
    using t'' t'(3) assms(1) by (intro e2node_cmp.keys_sorted_unique) (auto simp: reg_ok_def)
  ultimately show ?thesis
    using t' generate_e2_node_arr_ok[OF t'(2) few(1)] generate_e2_node_arr_ok[OF assms(1) few(2)] by auto
qed

lemma reg_e2_nodes_add_list_rm_witness:
  "\<exists>t' arr arr'. add_reg_e2_node init_reg_e2_node sample_node [sample_rf] [sample_cca] = Some t' \<and> reg_ok t'
    \<and> generate_e2_node_arr init_reg_e2_node = Some arr \<and> generate_e2_node_arr t' = Some arr'
    \<and> mset arr' = add_mset \<lparr>nc_id = sample_node, nc_cca = [sample_cca], nc_ack_rf = [sample_rf]\<rparr> (mset arr)
    \<and> rm_reg_e2_node t' sample_node = Some init_reg_e2_node"
  by (rule reg_e2_nodes_add_list_rm[OF reg_init_ok sample_node_complete])
    (simp_all add: init_reg_e2_node_def sample_cca_ok)

text \<open> Two CU nodes that differ only in their CU/DU number are different for the order of the
  registry and the same for its searches: once one of them is registered, the other cannot be,
  the RIC aborts. \<close>

theorem cu_numbers_collide:
  assumes t: "reg_ok t" and mem: "(m, p) \<in> set t"
    and cu: "ge_type m = ngran_gNB_CU \<or> ge_type m = ngran_gNB_CUCP"
    and n: "n = m\<lparr>cu_du_id := Some i\<rparr>" and i: "cu_du_id m \<noteq> Some i"
  shows "cmp_global_e2_node_id n m \<noteq> Some 0 \<and> eq_global_e2_node_id n m = Some True
    \<and> add_reg_e2_node t n rfs ccas = None"
proof -
  have m: "node_complete m" using t mem by (auto simp: reg_ok_def)
  have nc: "node_complete n" by (simp add: n node_complete_def)
  have key: "node_key n = node_key m"
    using cu by (auto simp: n node_key_def NODE_IS_CUUP_def NODE_IS_DU_def)
  then have eq: "eq_global_e2_node_id n m = Some True" using eq_node_complete[OF nc m] by simp
  obtain j where j: "cu_du_id m = Some j"
    using m cu by (auto simp: node_complete_def NODE_IS_CU_def)
  have cmp: "cmp_global_e2_node_id n m \<noteq> Some 0"
    using i j cu by (auto simp: n cmp_global_e2_node_id_def Let_def plmn_cmp.cmp_self NODE_IS_CU_def)
  have "entries_find_if (\<lambda>k. node_key n = node_key k) t \<noteq> None"
    using mem key unfolding entries_find_if_None by force
  moreover have "length t > 0" using mem by (cases t) auto
  ultimately have "add_reg_e2_node t n rfs ccas = None"
    using reg_find[OF t nc] by (auto simp: add_reg_e2_node_def Option.bind_eq_None_conv)
  with cmp eq show ?thesis by simp
qed

definition sample_cu :: global_e2_node_id_t where
  "sample_cu = sample_node\<lparr>ge_type := ngran_gNB_CU, cu_du_id := Some 1\<rparr>"

definition sample_cu_reg :: reg_e2_nodes_t where
  "sample_cu_reg = [(sample_cu, \<lparr>ran_func = [sample_rf], comp_conf_add = [sample_cca]\<rparr>)]"

lemma sample_cu_reg_ok: "reg_ok sample_cu_reg"
  by (simp add: reg_ok_def sample_cu_reg_def keys_sorted_def sample_cca_ok node_complete_def sample_cu_def)

lemma sample_cu_number: "cu_du_id sample_cu \<noteq> Some 0" "ge_type sample_cu = ngran_gNB_CU"
  by (simp_all add: sample_cu_def)

lemma cu_numbers_collide_witness:
  "cmp_global_e2_node_id (sample_cu\<lparr>cu_du_id := Some 0\<rparr>) sample_cu \<noteq> Some 0
    \<and> eq_global_e2_node_id (sample_cu\<lparr>cu_du_id := Some 0\<rparr>) sample_cu = Some True
    \<and> add_reg_e2_node sample_cu_reg (sample_cu\<lparr>cu_du_id := Some 0\<rparr>) [sample_rf] [sample_cca] = None"
proof -
  have "(sample_cu, \<lparr>ran_func = [sample_rf], comp_conf_add = [sample_cca]\<rparr>) \<in> set sample_cu_reg"
    by (simp add: sample_cu_reg_def)
  from cu_numbers_collide[OF sample_cu_reg_ok this disjI1[OF sample_cu_number(2)] refl sample_cu_number(1)]
  show ?thesis .
qed

end
