(* ===== verification/Near_Ric.thy ===== *)
theory Near_Ric
  imports Reg_E2_Nodes
begin

text \<open>
  The state of the near real-time RIC and the requests it sends to the E2 nodes:
  \<^verbatim>\<open>src/src/flexric/src/ric/near_ric.c\<close>, \<^verbatim>\<open>near_ric.h\<close>, \<^verbatim>\<open>asio_ric.c\<close>, \<^verbatim>\<open>endpoint_ric.c\<close> and the
  look-up of \<^verbatim>\<open>plugin_ric.c\<close>.

  A request is announced by a pending event: a timer, whose file descriptor is the left key of
  \<open>r_pending\<close>, and the kind and identifier of the request.  The file descriptors come from the
  operating system: \<open>timerfd fds\<close> is the one it hands out while \<open>fds\<close> are open.  Messages are
  recorded when they are handed to the encoder and the socket, with the address they are sent
  to; the encoders are generated code.  The service models are loaded at run time: their
  functions are fields of \<open>sm_ric_t\<close>.
\<close>

subsection \<open>State\<close>

record sm_subs_data_t =
  sd_event_trigger :: byte_array_t
  sd_action_def :: "byte_array_t option"

record sm_ctrl_req_data_t =
  cd_ctrl_hdr :: byte_array_t
  cd_ctrl_msg :: byte_array_t

record sm_ind_data_t =
  id_ind_hdr :: byte_array_t
  id_ind_msg :: byte_array_t
  id_call_process_id :: "byte_array_t option"

datatype sm_ag_if_rd_ind_e =
    MAC_STATS_V0 | RLC_STATS_V0 | PDCP_STATS_V0 | SLICE_STATS_V0 | TC_STATS_V0 | GTP_STATS_V0
  | KPM_STATS_V3_0 | RAN_CTRL_STATS_V1_03 | SM_AGENT_IF_READ_V0_END

text \<open>What a service model decodes from an indication; the statistics themselves are opaque bytes.\<close>

record sm_ag_if_rd_ind_t =
  rd_type :: sm_ag_if_rd_ind_e
  rd_data :: byte_array_t

record sm_ric_t =
  sm_ran_func_id :: u16
  on_subscription :: "byte_array_t \<Rightarrow> sm_subs_data_t"
  on_control_req :: "byte_array_t \<Rightarrow> sm_ctrl_req_data_t"
  on_indication :: "sm_ind_data_t \<Rightarrow> sm_ag_if_rd_ind_t"

text \<open>A listener is its name; \<open>r_published\<close> records the calls of the listeners.\<close>

record subs_ric_t =
  subs_name :: string

record near_ric_t =
  r_e2_nodes :: map_e2_node_sockaddr_t
  r_sent :: "(sctp_info_t \<times> e2ap_msg_t) list"
  r_fds :: "int list"
  r_sm_ds :: "(u16, sm_ric_t) entries"
  r_pub_sub :: "(u16, subs_ric_t list) entries"
  r_published :: "(string \<times> sm_ag_if_rd_ind_t) list"
  r_conn_e2_nodes :: "e2_node_t list"
  r_req_id :: u32
  r_pending :: "(int, pending_event_ric_t) bi_map_t"

subsection \<open>Timers and sockets\<close>

definition add_fd_asio_ric :: "near_ric_t \<Rightarrow> int \<Rightarrow> near_ric_t option" where
  "add_fd_asio_ric ric fd = do {
     assert_c (fd > 0);
     assert_c (fd \<notin> set (r_fds ric));
     Some (ric\<lparr>r_fds := fd # r_fds ric\<rparr>)
   }"

definition create_timer_ms_asio_ric :: "(int list \<Rightarrow> int) \<Rightarrow> near_ric_t \<Rightarrow> int \<Rightarrow> int
    \<Rightarrow> (int \<times> near_ric_t) option" where
  "create_timer_ms_asio_ric timerfd ric initial_ms interval_ms = do {
     assert_c (initial_ms > 0);
     assert_c (interval_ms > 0);
     let tfd = timerfd (r_fds ric);
     assert_c (tfd \<noteq> -1);
     ric \<leftarrow> add_fd_asio_ric ric tfd;
     Some (tfd, ric)
   }"

definition rm_fd_asio_ric :: "near_ric_t \<Rightarrow> int \<Rightarrow> near_ric_t option" where
  "rm_fd_asio_ric ric fd = do {
     assert_c (fd \<in> set (r_fds ric));
     Some (ric\<lparr>r_fds := remove1 fd (r_fds ric)\<rparr>)
   }"

definition e2ap_send_bytes_ric :: "near_ric_t \<Rightarrow> global_e2_node_id_t \<Rightarrow> e2ap_msg_t \<Rightarrow> near_ric_t option" where
  "e2ap_send_bytes_ric ric nid msg = do {
     s \<leftarrow> find_map_e2_node_sad (r_e2_nodes ric) nid;
     Some (ric\<lparr>r_sent := r_sent ric @ [(s, msg)]\<rparr>)
   }"

definition e2ap_send_sctp_msg_ric :: "near_ric_t \<Rightarrow> sctp_info_t \<Rightarrow> e2ap_msg_t \<Rightarrow> near_ric_t" where
  "e2ap_send_sctp_msg_ric ric s msg = ric\<lparr>r_sent := r_sent ric @ [(s, msg)]\<rparr>"

definition e2ap_reg_sock_addr_ric :: "near_ric_t \<Rightarrow> global_e2_node_id_t \<Rightarrow> sctp_info_t \<Rightarrow> near_ric_t option" where
  "e2ap_reg_sock_addr_ric ric nid s = do {
     m \<leftarrow> add_map_e2_node_sad (r_e2_nodes ric) nid s;
     Some (ric\<lparr>r_e2_nodes := m\<rparr>)
   }"

definition e2ap_rm_sock_addr_ric :: "near_ric_t \<Rightarrow> sctp_info_t
    \<Rightarrow> (global_e2_node_id_t \<times> near_ric_t) option" where
  "e2ap_rm_sock_addr_ric ric s = do {
     (nid, m) \<leftarrow> rm_map_sad_e2_node (r_e2_nodes ric) s;
     Some (nid, ric\<lparr>r_e2_nodes := m\<rparr>)
   }"

subsection \<open>Service models and their listeners\<close>

definition sm_plugin_ric :: "near_ric_t \<Rightarrow> u16 \<Rightarrow> sm_ric_t option" where
  "sm_plugin_ric ric rfid = do {
     assert_c (rfid > 0);
     (k, sm) \<leftarrow> entries_find_if (eq_ran_func_id rfid) (r_sm_ds ric);
     assert_c (sm_ran_func_id sm = rfid);
     Some sm
   }"

fun entries_set_value :: "('k \<Rightarrow> bool) \<Rightarrow> 'v \<Rightarrow> ('k, 'v) entries \<Rightarrow> ('k, 'v) entries" where
  "entries_set_value f v [] = []"
| "entries_set_value f v ((x, w) # t) = (if f x then (x, v) # t else (x, w) # entries_set_value f v t)"

definition register_listeners_for_ran_func_id :: "near_ric_t \<Rightarrow> u16 \<Rightarrow> subs_ric_t \<Rightarrow> near_ric_t" where
  "register_listeners_for_ran_func_id ric rfid subs =
     (case entries_find_if (eq_ran_func_id rfid) (r_pub_sub ric) of
        None \<Rightarrow> ric\<lparr>r_pub_sub := entries_insert cmp_ran_func_id rfid [subs] (r_pub_sub ric)\<rparr>
      | Some (k, arr) \<Rightarrow> ric\<lparr>r_pub_sub :=
          entries_set_value (eq_ran_func_id rfid) (arr @ [subs]) (r_pub_sub ric)\<rparr>)"

fun load_pub_sub :: "near_ric_t \<Rightarrow> (u16, sm_ric_t) entries \<Rightarrow> near_ric_t" where
  "load_pub_sub ric [] = ric"
| "load_pub_sub ric ((k, sm) # t) =
     (let ric = register_listeners_for_ran_func_id ric k \<lparr>subs_name = ''stdout listener''\<rparr>;
          ric = register_listeners_for_ran_func_id ric k \<lparr>subs_name = ''redis listener''\<rparr>;
          ric = register_listeners_for_ran_func_id ric k \<lparr>subs_name = ''influx listener''\<rparr>
      in load_pub_sub ric t)"

definition load_default_pub_sub_ric :: "near_ric_t \<Rightarrow> near_ric_t" where
  "load_default_pub_sub_ric ric = load_pub_sub ric (r_sm_ds ric)"

definition init_pending_events :: "(int, pending_event_ric_t) bi_map_t" where
  "init_pending_events = bi_map_init cmp_fd cmp_pending_event_ric"

text \<open>\<open>sms\<close> are the service models found in the plug-in directory.\<close>

definition init_near_ric :: "(u16, sm_ric_t) entries \<Rightarrow> near_ric_t" where
  "init_near_ric sms = load_default_pub_sub_ric
     \<lparr>r_e2_nodes = init_map_e2_node_sad, r_sent = [], r_fds = [], r_sm_ds = sms, r_pub_sub = [],
      r_published = [], r_conn_e2_nodes = [], r_req_id = 1021, r_pending = init_pending_events\<rparr>"

subsection \<open>Pending events\<close>

definition pend_event :: "near_ric_t \<Rightarrow> int \<Rightarrow> pending_event_ric_t option" where
  "pend_event ric fd = do {
     assert_c (fd > 0);
     map_option snd (entries_find_if (\<lambda>k. fd = k) (bm_left (r_pending ric)))
   }"

text \<open>The steps that every request shares: a timer of 3000 ms and its entry in the map.\<close>

definition add_pending :: "(int list \<Rightarrow> int) \<Rightarrow> near_ric_t \<Rightarrow> pending_event_ric_t \<Rightarrow> near_ric_t option" where
  "add_pending timerfd ric ev = do {
     let wait_ms = 3000;
     (fd_timer, ric) \<leftarrow> create_timer_ms_asio_ric timerfd ric wait_ms wait_ms;
     p \<leftarrow> bi_map_insert (r_pending ric) fd_timer ev;
     Some (ric\<lparr>r_pending := p\<rparr>)
   }"

text \<open>\<open>ric->req_id++\<close>.\<close>

definition next_req_id :: "near_ric_t \<Rightarrow> u32 \<times> near_ric_t" where
  "next_req_id ric = (r_req_id ric, ric\<lparr>r_req_id := r_req_id ric + 1\<rparr>)"

subsection \<open>Requests of the RIC itself\<close>

definition generate_subscription_request :: "near_ric_t \<Rightarrow> sm_ric_t \<Rightarrow> u16 \<Rightarrow> byte_array_t
    \<Rightarrow> ric_subscription_request_t \<times> near_ric_t" where
  "generate_subscription_request ric sm rfid cmd =
     (let (r, ric) = next_req_id ric;
          data = on_subscription sm cmd
      in (\<lparr>sr_ric_id = \<lparr>ric_req_id = r, ric_inst_id = 0, ran_func_id = rfid\<rparr>,
           event_trigger = sd_event_trigger data,
           sr_action = [\<lparr>act_id = 0, act_type = RIC_ACT_REPORT, act_definition = sd_action_def data,
                         subseq_action = None\<rparr>]\<rparr>, ric))"

definition report_service_near_ric :: "(int list \<Rightarrow> int) \<Rightarrow> near_ric_t \<Rightarrow> global_e2_node_id_t \<Rightarrow> u16
    \<Rightarrow> byte_array_t \<Rightarrow> (u16 \<times> near_ric_t) option" where
  "report_service_near_ric timerfd ric nid rfid cmd = do {
     assert_c (rfid \<noteq> 0);
     assert_c (rfid < 150);
     sm \<leftarrow> sm_plugin_ric ric rfid;
     let (sr, ric) = generate_subscription_request ric sm rfid cmd;
     let ev = \<lparr>pe_ev = SUBSCRIPTION_REQUEST_PENDING_EVENT, pe_id = sr_ric_id sr\<rparr>;
     ric \<leftarrow> add_pending timerfd ric ev;
     ric \<leftarrow> e2ap_send_bytes_ric ric nid (Ric_sub_req sr);
     Some (ucast (ric_req_id (sr_ric_id sr)), ric)
   }"

definition rm_report_service_near_ric :: "(int list \<Rightarrow> int) \<Rightarrow> near_ric_t \<Rightarrow> global_e2_node_id_t \<Rightarrow> u16
    \<Rightarrow> u16 \<Rightarrow> near_ric_t option" where
  "rm_report_service_near_ric timerfd ric nid rf aid = do {
     assert_c (aid > 0);
     let sd = \<lparr>sdr_ric_id = \<lparr>ric_req_id = ucast aid, ric_inst_id = 0, ran_func_id = rf\<rparr>\<rparr>;
     let ev = \<lparr>pe_ev = SUBSCRIPTION_DELETE_REQUEST_PENDING_EVENT, pe_id = sdr_ric_id sd\<rparr>;
     ric \<leftarrow> add_pending timerfd ric ev;
     e2ap_send_bytes_ric ric nid (Ric_sub_del_req sd)
   }"

definition generate_control_request :: "near_ric_t \<Rightarrow> sm_ric_t \<Rightarrow> byte_array_t
    \<Rightarrow> ric_control_request_t \<times> near_ric_t" where
  "generate_control_request ric sm ctrl =
     (let (r, ric) = next_req_id ric;
          data = on_control_req sm ctrl
      in (\<lparr>cr_ric_id = \<lparr>ric_req_id = r, ric_inst_id = 0, ran_func_id = sm_ran_func_id sm\<rparr>,
           cr_call_process_id = None, cr_hdr = cd_ctrl_hdr data, cr_msg = cd_ctrl_msg data,
           cr_ack_req = Some RIC_CONTROL_REQUEST_ACK\<rparr>, ric))"

definition control_service_near_ric :: "(int list \<Rightarrow> int) \<Rightarrow> near_ric_t \<Rightarrow> global_e2_node_id_t \<Rightarrow> u16
    \<Rightarrow> byte_array_t \<Rightarrow> near_ric_t option" where
  "control_service_near_ric timerfd ric nid rfid ctrl = do {
     assert_c (rfid > 0);
     assert_c (rfid = 3 \<or> rfid = 145 \<or> rfid = 146);
     sm \<leftarrow> sm_plugin_ric ric rfid;
     let (ctrl_req, ric) = generate_control_request ric sm ctrl;
     let ev = \<lparr>pe_ev = CONTROL_REQUEST_PENDING_EVENT, pe_id = cr_ric_id ctrl_req\<rparr>;
     ric \<leftarrow> add_pending timerfd ric ev;
     e2ap_send_bytes_ric ric nid (Ric_ctrl_req ctrl_req)
   }"

subsection \<open>Requests forwarded for the xApps\<close>

text \<open>The forwarding functions overwrite the request identifier of the message they are given.\<close>

definition fwd_ric_subscription_request :: "(int list \<Rightarrow> int) \<Rightarrow> near_ric_t \<Rightarrow> global_e2_node_id_t
    \<Rightarrow> ric_subscription_request_t \<Rightarrow> (u16 \<times> near_ric_t) option" where
  "fwd_ric_subscription_request timerfd ric nid sr = do {
     let (r, ric) = next_req_id ric;
     let new_req_id = (ucast r :: u16);
     let sr = sr\<lparr>sr_ric_id := (sr_ric_id sr)\<lparr>ric_req_id := ucast new_req_id\<rparr>\<rparr>;
     let ev = \<lparr>pe_ev = SUBSCRIPTION_REQUEST_PENDING_EVENT, pe_id = sr_ric_id sr\<rparr>;
     ric \<leftarrow> add_pending timerfd ric ev;
     ric \<leftarrow> e2ap_send_bytes_ric ric nid (Ric_sub_req sr);
     Some (new_req_id, ric)
   }"

definition fwd_ric_subscription_request_delete :: "(int list \<Rightarrow> int) \<Rightarrow> near_ric_t \<Rightarrow> global_e2_node_id_t
    \<Rightarrow> ric_subscription_delete_request_t \<Rightarrow> near_ric_t option" where
  "fwd_ric_subscription_request_delete timerfd ric nid sdr =
     (let ev = \<lparr>pe_ev = SUBSCRIPTION_DELETE_REQUEST_PENDING_EVENT, pe_id = sdr_ric_id sdr\<rparr> in
      if entries_find_if (eq_pending_event_ric ev) (bm_right (r_pending ric)) \<noteq> None
      then Some ric
      else do {
        ric \<leftarrow> add_pending timerfd ric ev;
        e2ap_send_bytes_ric ric nid (Ric_sub_del_req sdr)
      })"

definition fwd_ric_control_request :: "(int list \<Rightarrow> int) \<Rightarrow> near_ric_t \<Rightarrow> global_e2_node_id_t
    \<Rightarrow> ric_control_request_t \<Rightarrow> (u16 \<times> near_ric_t) option" where
  "fwd_ric_control_request timerfd ric nid cr = do {
     let (r, ric) = next_req_id ric;
     let new_req_id = (ucast r :: u16);
     let cr = cr\<lparr>cr_ric_id := (cr_ric_id cr)\<lparr>ric_req_id := ucast new_req_id\<rparr>\<rparr>;
     let ev = \<lparr>pe_ev = CONTROL_REQUEST_PENDING_EVENT, pe_id = cr_ric_id cr\<rparr>;
     ric \<leftarrow> add_pending timerfd ric ev;
     ric \<leftarrow> e2ap_send_bytes_ric ric nid (Ric_ctrl_req cr);
     Some (new_req_id, ric)
   }"

subsection \<open>Pending events and their timers\<close>

interpretation pend_map: bimap_cmps cmp_fd cmp_pending_event_ric
  by unfold_locales

text \<open>What the operating system promises: a new descriptor is positive and not open yet.\<close>

definition timerfd_ok :: "(int list \<Rightarrow> int) \<Rightarrow> bool" where
  "timerfd_ok timerfd \<longleftrightarrow> (\<forall>fds. timerfd fds > 0 \<and> timerfd fds \<notin> set fds)"

definition pending_evs :: "near_ric_t \<Rightarrow> pending_event_ric_t set" where
  "pending_evs ric = snd ` set_mset (bm_pairs (r_pending ric))"

definition ric_inv :: "near_ric_t \<Rightarrow> bool" where
  "ric_inv ric \<longleftrightarrow> bm_ok cmp_fd cmp_pending_event_ric (r_pending ric)
     \<and> image_mset fst (bm_pairs (r_pending ric)) = mset (r_fds ric)
     \<and> distinct (r_fds ric) \<and> (\<forall>fd \<in> set (r_fds ric). fd > 0)"

lemma ric_inv_fds:
  assumes "ric_inv ric"
  shows "fd \<in> set (r_fds ric) \<longleftrightarrow> (\<exists>ev. (fd, ev) \<in># bm_pairs (r_pending ric))"
proof -
  have "set (r_fds ric) = fst ` set_mset (bm_pairs (r_pending ric))"
    using assms unfolding ric_inv_def by (metis set_image_mset set_mset_mset)
  then show ?thesis by (force intro: rev_image_eqI)
qed

lemma add_pending_ok:
  assumes inv: "ric_inv ric" and os: "timerfd_ok timerfd" and new: "ev \<notin> pending_evs ric"
  shows "\<exists>p. add_pending timerfd ric ev =
      Some (ric\<lparr>r_fds := timerfd (r_fds ric) # r_fds ric, r_pending := p\<rparr>)
    \<and> ric_inv (ric\<lparr>r_fds := timerfd (r_fds ric) # r_fds ric, r_pending := p\<rparr>)
    \<and> bm_pairs p = add_mset (timerfd (r_fds ric), ev) (bm_pairs (r_pending ric))"
proof -
  let ?fd = "timerfd (r_fds ric)"
  have fd: "?fd > 0" "?fd \<notin> set (r_fds ric)" using os by (auto simp: timerfd_ok_def)
  have "\<exists>m'. bi_map_insert (r_pending ric) ?fd ev = Some m' \<and> bm_ok cmp_fd cmp_pending_event_ric m'
      \<and> bm_pairs m' = add_mset (?fd, ev) (bm_pairs (r_pending ric))"
  proof (rule pend_map.ok_insert)
    show "bm_ok cmp_fd cmp_pending_event_ric (r_pending ric)" using inv by (simp add: ric_inv_def)
    show "cmp_fd ?fd a \<noteq> 0 \<and> cmp_pending_event_ric ev b \<noteq> 0"
      if "(a, b) \<in># bm_pairs (r_pending ric)" for a b
      using that fd(2) new ric_inv_fds[OF inv, of a] by (force simp: pending_evs_def)
  qed
  then obtain p where p: "bi_map_insert (r_pending ric) ?fd ev = Some p"
    "bm_ok cmp_fd cmp_pending_event_ric p" "bm_pairs p = add_mset (?fd, ev) (bm_pairs (r_pending ric))"
    by blast
  have "add_pending timerfd ric ev = Some (ric\<lparr>r_fds := ?fd # r_fds ric, r_pending := p\<rparr>)"
    using fd p(1) by (simp add: add_pending_def create_timer_ms_asio_ric_def add_fd_asio_ric_def Let_def)
  then show ?thesis using fd p inv by (intro exI[of _ p]) (simp add: ric_inv_def)
qed

lemma pend_event_ok:
  assumes "ric_inv ric" "(fd, ev) \<in># bm_pairs (r_pending ric)"
  shows "pend_event ric fd = Some ev"
proof -
  have "bm_ok cmp_fd cmp_pending_event_ric (r_pending ric)" using assms(1) by (simp add: ric_inv_def)
  from pend_map.find_left[OF this assms(2), of "\<lambda>k. fd = k"]
  have "entries_find_if (\<lambda>k. fd = k) (bm_left (r_pending ric)) = Some (fd, ev)" by simp
  moreover have "fd \<in> set (r_fds ric)" using assms ric_inv_fds by blast
  then have "fd > 0" using assms(1) by (simp add: ric_inv_def)
  ultimately show ?thesis by (simp add: pend_event_def)
qed

lemma pending_right:
  assumes "ric_inv ric"
  shows "entries_find_if (eq_pending_event_ric ev) (bm_right (r_pending ric)) = None \<longleftrightarrow> ev \<notin> pending_evs ric"
proof -
  have inv: "bi_map_inv (r_pending ric)" using assms by (simp add: ric_inv_def bm_ok_def)
  show ?thesis
    unfolding entries_find_if_None
    using right_pairs[OF inv] by (force simp: eq_pending_event_ric_def pending_evs_def)
qed

lemma register_fields [simp]:
  "r_fds (register_listeners_for_ran_func_id ric k l) = r_fds ric"
  "r_pending (register_listeners_for_ran_func_id ric k l) = r_pending ric"
  "r_req_id (register_listeners_for_ran_func_id ric k l) = r_req_id ric"
  "r_e2_nodes (register_listeners_for_ran_func_id ric k l) = r_e2_nodes ric"
  "r_sent (register_listeners_for_ran_func_id ric k l) = r_sent ric"
  "r_sm_ds (register_listeners_for_ran_func_id ric k l) = r_sm_ds ric"
  "r_conn_e2_nodes (register_listeners_for_ran_func_id ric k l) = r_conn_e2_nodes ric"
  "r_published (register_listeners_for_ran_func_id ric k l) = r_published ric"
  by (simp_all add: register_listeners_for_ran_func_id_def split: option.splits prod.splits)

lemma load_pub_sub_fields [simp]:
  "r_fds (load_pub_sub ric t) = r_fds ric"
  "r_pending (load_pub_sub ric t) = r_pending ric"
  "r_req_id (load_pub_sub ric t) = r_req_id ric"
  "r_e2_nodes (load_pub_sub ric t) = r_e2_nodes ric"
  "r_sent (load_pub_sub ric t) = r_sent ric"
  "r_sm_ds (load_pub_sub ric t) = r_sm_ds ric"
  "r_conn_e2_nodes (load_pub_sub ric t) = r_conn_e2_nodes ric"
  "r_published (load_pub_sub ric t) = r_published ric"
  by (induction ric t rule: load_pub_sub.induct) (simp_all add: Let_def)

lemma init_ric_inv: "ric_inv (init_near_ric sms)"
  by (simp add: ric_inv_def init_near_ric_def load_default_pub_sub_ric_def init_pending_events_def
      pend_map.ok_init)

text \<open>
  What a forwarded request leaves behind: \<open>sent_with\<close> relates the state before and after it.
\<close>

definition requested :: "(int list \<Rightarrow> int) \<Rightarrow> pending_event_ric_t \<Rightarrow> sctp_info_t \<Rightarrow> e2ap_msg_t
    \<Rightarrow> near_ric_t \<Rightarrow> near_ric_t \<Rightarrow> bool" where
  "requested timerfd ev s msg ric ric' \<longleftrightarrow> ric_inv ric'
     \<and> bm_pairs (r_pending ric') = add_mset (timerfd (r_fds ric), ev) (bm_pairs (r_pending ric))
     \<and> r_sent ric' = r_sent ric @ [(s, msg)] \<and> r_e2_nodes ric' = r_e2_nodes ric
     \<and> r_conn_e2_nodes ric' = r_conn_e2_nodes ric \<and> r_sm_ds ric' = r_sm_ds ric
     \<and> r_pub_sub ric' = r_pub_sub ric \<and> r_published ric' = r_published ric"

lemma ric_inv_req_id [simp]:
  "ric_inv (ric\<lparr>r_req_id := r\<rparr>) = ric_inv ric" "ric_inv (ric\<lparr>r_sent := m\<rparr>) = ric_inv ric"
  "ric_inv (ric\<lparr>r_e2_nodes := e\<rparr>) = ric_inv ric" "ric_inv (ric\<lparr>r_conn_e2_nodes := c\<rparr>) = ric_inv ric"
  "ric_inv (ric\<lparr>r_published := b\<rparr>) = ric_inv ric"
  "pending_evs (ric\<lparr>r_req_id := r\<rparr>) = pending_evs ric"
  by (simp_all add: ric_inv_def pending_evs_def)

lemma request_ok:
  assumes "ric_inv ric" "timerfd_ok timerfd" "ev \<notin> pending_evs ric"
    and "find_map_e2_node_sad (r_e2_nodes ric) nid = Some s"
  shows "\<exists>ric'. (do { ric \<leftarrow> add_pending timerfd ric ev; e2ap_send_bytes_ric ric nid msg }) = Some ric'
    \<and> requested timerfd ev s msg ric ric' \<and> r_req_id ric' = r_req_id ric"
proof -
  obtain p where p: "add_pending timerfd ric ev =
      Some (ric\<lparr>r_fds := timerfd (r_fds ric) # r_fds ric, r_pending := p\<rparr>)"
    "ric_inv (ric\<lparr>r_fds := timerfd (r_fds ric) # r_fds ric, r_pending := p\<rparr>)"
    "bm_pairs p = add_mset (timerfd (r_fds ric), ev) (bm_pairs (r_pending ric))"
    using add_pending_ok[OF assms(1-3)] by blast
  then show ?thesis
    using assms(4) by (simp add: e2ap_send_bytes_ric_def requested_def)
qed

lemma fwd_ric_subscription_request_ok:
  fixes ric
  defines "r \<equiv> (ucast (r_req_id ric) :: u16)"
  defines "rid g \<equiv> g\<lparr>ric_req_id := ucast r\<rparr>"
  assumes "ric_inv ric" "timerfd_ok timerfd"
    and "\<lparr>pe_ev = SUBSCRIPTION_REQUEST_PENDING_EVENT, pe_id = rid (sr_ric_id sr)\<rparr> \<notin> pending_evs ric"
    and "find_map_e2_node_sad (r_e2_nodes ric) nid = Some s"
  shows "\<exists>ric'. fwd_ric_subscription_request timerfd ric nid sr = Some (r, ric')
    \<and> requested timerfd \<lparr>pe_ev = SUBSCRIPTION_REQUEST_PENDING_EVENT, pe_id = rid (sr_ric_id sr)\<rparr>
        s (Ric_sub_req (sr\<lparr>sr_ric_id := rid (sr_ric_id sr)\<rparr>)) ric ric'
    \<and> r_req_id ric' = r_req_id ric + 1"
  using request_ok[of "ric\<lparr>r_req_id := r_req_id ric + 1\<rparr>" timerfd
      "\<lparr>pe_ev = SUBSCRIPTION_REQUEST_PENDING_EVENT, pe_id = rid (sr_ric_id sr)\<rparr>" nid s
      "Ric_sub_req (sr\<lparr>sr_ric_id := rid (sr_ric_id sr)\<rparr>)"] assms
  by (auto simp: fwd_ric_subscription_request_def next_req_id_def Let_def requested_def bind_Some_iff)

lemma fwd_ric_control_request_ok:
  fixes ric
  defines "r \<equiv> (ucast (r_req_id ric) :: u16)"
  defines "rid g \<equiv> g\<lparr>ric_req_id := ucast r\<rparr>"
  assumes "ric_inv ric" "timerfd_ok timerfd"
    and "\<lparr>pe_ev = CONTROL_REQUEST_PENDING_EVENT, pe_id = rid (cr_ric_id cr)\<rparr> \<notin> pending_evs ric"
    and "find_map_e2_node_sad (r_e2_nodes ric) nid = Some s"
  shows "\<exists>ric'. fwd_ric_control_request timerfd ric nid cr = Some (r, ric')
    \<and> requested timerfd \<lparr>pe_ev = CONTROL_REQUEST_PENDING_EVENT, pe_id = rid (cr_ric_id cr)\<rparr>
        s (Ric_ctrl_req (cr\<lparr>cr_ric_id := rid (cr_ric_id cr)\<rparr>)) ric ric'
    \<and> r_req_id ric' = r_req_id ric + 1"
  using request_ok[of "ric\<lparr>r_req_id := r_req_id ric + 1\<rparr>" timerfd
      "\<lparr>pe_ev = CONTROL_REQUEST_PENDING_EVENT, pe_id = rid (cr_ric_id cr)\<rparr>" nid s
      "Ric_ctrl_req (cr\<lparr>cr_ric_id := rid (cr_ric_id cr)\<rparr>)"] assms
  by (auto simp: fwd_ric_control_request_def next_req_id_def Let_def requested_def bind_Some_iff)

lemma fwd_ric_subscription_request_delete_ok:
  fixes sdr
  defines "ev \<equiv> \<lparr>pe_ev = SUBSCRIPTION_DELETE_REQUEST_PENDING_EVENT, pe_id = sdr_ric_id sdr\<rparr>"
  assumes "ric_inv ric" "timerfd_ok timerfd" "find_map_e2_node_sad (r_e2_nodes ric) nid = Some s"
  shows "\<exists>ric'. fwd_ric_subscription_request_delete timerfd ric nid sdr = Some ric'
    \<and> r_req_id ric' = r_req_id ric
    \<and> (if ev \<in> pending_evs ric then ric' = ric
       else requested timerfd ev s (Ric_sub_del_req sdr) ric ric')"
  using request_ok[OF assms(2,3) _ assms(4), of ev "Ric_sub_del_req sdr"] pending_right[OF assms(2), of ev]
  by (auto simp: fwd_ric_subscription_request_delete_def ev_def[symmetric] Let_def)

end
