(* ===== verification/Map_Ric_Id.thy ===== *)
theory Map_Ric_Id
  imports Bimap
begin

text \<open>
  The bookkeeping of the iApp: \<^verbatim>\<open>src/src/flexric/src/ric/iApp/map_ric_id.c\<close> relates every request
  sent to an E2 node (keyed by the request identifier the RIC gave it) with the xApp that made
  it and the identifier that xApp gave it; \<^verbatim>\<open>map_xapps_sockaddr.c\<close> relates xApps with the
  addresses they are reached at.  Both are bidirectional maps.  The locks they take order the
  operations and are not modelled.
\<close>

datatype ric_request_type_e = SUBSCRIPTION_RIC_REQUEST_TYPE | CONTROL_RIC_REQUEST_TYPE

record e2_node_ric_id_t =
  er_node :: global_e2_node_id_t
  er_ric_id :: ric_gen_id_t
  er_type :: ric_request_type_e

type_synonym map_ric_id_t = "(e2_node_ric_id_t, xapp_ric_id_t) bi_map_t"
type_synonym map_xapps_sockaddr_t = "(u16, sctp_info_t) bi_map_t"

subsection \<open>Requests\<close>

definition cmp_uint32 :: "u32 \<Rightarrow> u32 \<Rightarrow> int" where
  "cmp_uint32 m0 m1 = (if m0 < m1 then -1 else if m0 = m1 then 0 else 1)"

definition cmp_e2_node_ric_req_wrapper :: "e2_node_ric_id_t \<Rightarrow> e2_node_ric_id_t \<Rightarrow> int" where
  "cmp_e2_node_ric_req_wrapper m0 m1 =
     cmp_uint32 (ric_req_id (er_ric_id m0)) (ric_req_id (er_ric_id m1))"

definition eq_e2_node_ric_req :: "e2_node_ric_id_t \<Rightarrow> e2_node_ric_id_t \<Rightarrow> bool" where
  "eq_e2_node_ric_req m0 m1 \<longleftrightarrow> ric_req_id (er_ric_id m0) = ric_req_id (er_ric_id m1)"

definition init_map_ric_id :: map_ric_id_t where
  "init_map_ric_id = bi_map_init cmp_e2_node_ric_req_wrapper cmp_xapp_ric_gen_id"

definition add_map_ric_id :: "map_ric_id_t \<Rightarrow> e2_node_ric_id_t \<Rightarrow> xapp_ric_id_t \<Rightarrow> map_ric_id_t option" where
  "add_map_ric_id m node x = do {
     assert_c (entries_find_if (eq_e2_node_ric_req node) (bm_left m) = None);
     bi_map_insert m node x
   }"

definition rm_map_ric_id :: "map_ric_id_t \<Rightarrow> xapp_ric_id_t \<Rightarrow> map_ric_id_t option" where
  "rm_map_ric_id m x = do { (n, m) \<leftarrow> bi_map_extract_right m x; Some m }"

text \<open>The inner option is \<^verbatim>\<open>has_value\<close>; the identifier 0 aborts.\<close>

definition find_xapp_map_ric_id :: "map_ric_id_t \<Rightarrow> u16 \<Rightarrow> xapp_ric_id_t option option" where
  "find_xapp_map_ric_id m r = do {
     assert_c (r > 0);
     Some (map_option snd
       (entries_find_if (\<lambda>n. ucast r = ric_req_id (er_ric_id n)) (bm_left m)))
   }"

definition find_ric_req_map_ric_id :: "map_ric_id_t \<Rightarrow> xapp_ric_id_t \<Rightarrow> e2_node_ric_id_t option" where
  "find_ric_req_map_ric_id m x =
     map_option snd (entries_find_if (eq_xapp_ric_gen_id x) (bm_right m))"

fun all_subs :: "u16 \<Rightarrow> (xapp_ric_id_t, e2_node_ric_id_t) entries \<Rightarrow> e2_node_ric_id_t list" where
  "all_subs xid [] = []"
| "all_subs xid ((k, n) # t) =
     (if x_xapp_id k = xid
      then if er_type n = SUBSCRIPTION_RIC_REQUEST_TYPE then n # all_subs xid t else all_subs xid t
      else all_subs xid t)"

definition find_all_subs_map_ric_id :: "map_ric_id_t \<Rightarrow> u16 \<Rightarrow> e2_node_ric_id_t list" where
  "find_all_subs_map_ric_id m xid = all_subs xid (bm_right m)"

subsection \<open>Addresses\<close>

definition init_map_xapps_sad :: map_xapps_sockaddr_t where
  "init_map_xapps_sad = bi_map_init cmp_uint16_wrapper cmp_sctp_info_wrapper"

definition add_map_xapps_sad :: "map_xapps_sockaddr_t \<Rightarrow> u16 \<Rightarrow> sctp_info_t
    \<Rightarrow> map_xapps_sockaddr_t option" where
  "add_map_xapps_sad m xid s = do {
     assert_c (entries_find_if (\<lambda>k. xid = k) (bm_left m) = None);
     bi_map_insert m xid s
   }"

definition find_map_xapps_sad :: "map_xapps_sockaddr_t \<Rightarrow> u16 \<Rightarrow> sctp_info_t option" where
  "find_map_xapps_sad m xid = map_option snd (entries_find_if (\<lambda>k. xid = k) (bm_left m))"

definition find_map_xapps_xid :: "map_xapps_sockaddr_t \<Rightarrow> sctp_info_t \<Rightarrow> u16 option" where
  "find_map_xapps_xid m s = map_option snd (entries_find_if (eq_sctp_info_wrapper s) (bm_right m))"

subsection \<open>The two maps as relations\<close>

interpretation uint32_cmp: comparator cmp_uint32
  by unfold_locales (auto simp: cmp_uint32_def split: if_splits)

interpretation node_cmp: comparator cmp_e2_node_ric_req_wrapper
  by unfold_locales
    (auto simp: cmp_e2_node_ric_req_wrapper_def cmp_uint32_def split: if_splits)

interpretation rid_map: bimap_cmps cmp_e2_node_ric_req_wrapper cmp_xapp_ric_gen_id
  by unfold_locales

interpretation sad_map: bimap_cmps cmp_uint16_wrapper cmp_sctp_info_wrapper
  by unfold_locales

abbreviation map_ok :: "map_ric_id_t \<Rightarrow> bool" where
  "map_ok \<equiv> bm_ok cmp_e2_node_ric_req_wrapper cmp_xapp_ric_gen_id"

abbreviation sad_ok :: "map_xapps_sockaddr_t \<Rightarrow> bool" where
  "sad_ok \<equiv> bm_ok cmp_uint16_wrapper cmp_sctp_info_wrapper"

abbreviation req_of :: "e2_node_ric_id_t \<Rightarrow> u32" where
  "req_of n \<equiv> ric_req_id (er_ric_id n)"

lemma node_cmp_zero [simp]: "cmp_e2_node_ric_req_wrapper n n' = 0 \<longleftrightarrow> req_of n = req_of n'"
  by (simp add: cmp_e2_node_ric_req_wrapper_def cmp_uint32_def)

lemma add_map_ric_id_ok:
  assumes "map_ok m" and "\<And>n' x'. (n', x') \<in># bm_pairs m \<Longrightarrow> req_of n' \<noteq> req_of n \<and> x' \<noteq> x"
  shows "\<exists>m'. add_map_ric_id m n x = Some m' \<and> map_ok m'
    \<and> bm_pairs m' = add_mset (n, x) (bm_pairs m)"
proof -
  have "entries_find_if (eq_e2_node_ric_req n) (bm_left m) = None"
    using assms(2) unfolding entries_find_if_None
    by (force simp: eq_e2_node_ric_req_def bm_pairs_def)
  moreover have "\<exists>m'. bi_map_insert m n x = Some m' \<and> map_ok m'
      \<and> bm_pairs m' = add_mset (n, x) (bm_pairs m)"
    by (rule rid_map.ok_insert[OF assms(1)]) (metis assms(2) node_cmp_zero cmp_xapp_ric_gen_id_zero)
  ultimately show ?thesis by (simp add: add_map_ric_id_def)
qed

lemma add_map_ric_id_taken:
  assumes "(n', x') \<in># bm_pairs m" "req_of n' = req_of n"
  shows "add_map_ric_id m n x = None"
proof -
  have "(n', x') \<in> set (bm_left m)" using assms(1) by (simp add: bm_pairs_def)
  then have "entries_find_if (eq_e2_node_ric_req n) (bm_left m) \<noteq> None"
    using assms(2) unfolding entries_find_if_None by (force simp: eq_e2_node_ric_req_def)
  then show ?thesis by (auto simp: add_map_ric_id_def assert_c_def)
qed

lemma find_xapp_in:
  assumes "map_ok m" "(n, x) \<in># bm_pairs m" "req_of n = ucast r" "r > 0"
  shows "find_xapp_map_ric_id m r = Some (Some x)"
  using rid_map.find_left[OF assms(1,2), of "\<lambda>n. ucast r = req_of n"] assms(3,4)
  by (simp add: find_xapp_map_ric_id_def)

lemma find_xapp_absent:
  assumes "\<And>n x. (n, x) \<in># bm_pairs m \<Longrightarrow> req_of n \<noteq> ucast r" "r > 0"
  shows "find_xapp_map_ric_id m r = Some None"
proof -
  have "entries_find_if (\<lambda>n. ucast r = req_of n) (bm_left m) = None"
    using assms(1) unfolding entries_find_if_None by (force simp: bm_pairs_def)
  then show ?thesis using assms(2) by (simp add: find_xapp_map_ric_id_def)
qed

lemma rm_map_ric_id_ok:
  assumes "map_ok m" "(n, x) \<in># bm_pairs m"
  shows "\<exists>m'. rm_map_ric_id m x = Some m' \<and> map_ok m' \<and> bm_pairs m = add_mset (n, x) (bm_pairs m')"
  using rid_map.ok_extract_right[OF assms, of x] by (auto simp: rm_map_ric_id_def)

lemma set_all_subs:
  "set (all_subs xid t) = {n. \<exists>k. (k, n) \<in> set t \<and> x_xapp_id k = xid
     \<and> er_type n = SUBSCRIPTION_RIC_REQUEST_TYPE}"
  by (induction xid t rule: all_subs.induct) auto

lemma find_sad_in:
  assumes "sad_ok m" "(xid, s) \<in># bm_pairs m"
  shows "find_map_xapps_sad m xid = Some s" "find_map_xapps_xid m s = Some xid"
  using sad_map.find_left[OF assms, of "\<lambda>k. xid = k"] sad_map.find_right[OF assms, of "eq_sctp_info_wrapper s"]
  by (simp_all add: find_map_xapps_sad_def find_map_xapps_xid_def eq_sctp_info_wrapper_def)

end
