(* ===== verification/Iapp.thy ===== *)
theory Iapp
  imports Near_Ric Map_Ric_Id
begin

text \<open>
  The iApp, the part of the RIC that talks to the xApps:
  \<^verbatim>\<open>src/src/flexric/src/ric/iApp/msg_handler_iapp.c\<close>, \<^verbatim>\<open>e42_iapp.c\<close>, \<^verbatim>\<open>e42_iapp_api.c\<close>
  and \<^verbatim>\<open>endpoint_iapp.c\<close>.

  The RIC and the iApp call each other, so the state of a handler is the pair of them,
  \<open>ric_sys_t\<close>.  A handler runs as one step: the request handlers hold the write lock of the
  request map from the forwarding of the request to its entry in the map, and the handlers of
  the answers look the map up under the same lock.
\<close>

subsection \<open>State\<close>

record e42_iapp_t =
  i_xapps :: map_xapps_sockaddr_t
  i_sent :: "(sctp_info_t \<times> e2ap_msg_t) list"
  i_xapp_id :: u32
  i_e2_nodes :: reg_e2_nodes_t
  i_map_ric_id :: map_ric_id_t

record ric_sys_t =
  s_ric :: near_ric_t
  s_iapp :: e42_iapp_t

definition init_e42_iapp :: e42_iapp_t where
  "init_e42_iapp = \<lparr>i_xapps = init_map_xapps_sad, i_sent = [], i_xapp_id = 7,
     i_e2_nodes = init_reg_e2_node, i_map_ric_id = init_map_ric_id\<rparr>"

subsection \<open>Sending to the xApps\<close>

definition e2ap_send_sctp_msg_iapp :: "e42_iapp_t \<Rightarrow> sctp_info_t \<Rightarrow> e2ap_msg_t \<Rightarrow> e42_iapp_t" where
  "e2ap_send_sctp_msg_iapp i s msg = i\<lparr>i_sent := i_sent i @ [(s, msg)]\<rparr>"

definition e2ap_send_bytes_iapp :: "e42_iapp_t \<Rightarrow> u16 \<Rightarrow> e2ap_msg_t \<Rightarrow> e42_iapp_t option" where
  "e2ap_send_bytes_iapp i xid msg = do {
     s \<leftarrow> find_map_xapps_sad (i_xapps i) xid;
     Some (e2ap_send_sctp_msg_iapp i s msg)
   }"

definition e2ap_reg_sock_addr_iapp :: "e42_iapp_t \<Rightarrow> u16 \<Rightarrow> sctp_info_t \<Rightarrow> e42_iapp_t option" where
  "e2ap_reg_sock_addr_iapp i xid s = do {
     m \<leftarrow> add_map_xapps_sad (i_xapps i) xid s;
     Some (i\<lparr>i_xapps := m\<rparr>)
   }"

subsection \<open>Answers of the E2 nodes\<close>

text \<open>The address of an xApp is looked up after the answer is built and before it is sent.\<close>

definition e2ap_handle_subscription_response_iapp :: "e42_iapp_t \<Rightarrow> ric_subscription_response_t
    \<Rightarrow> (e2ap_msg_t \<times> e42_iapp_t) option" where
  "e2ap_handle_subscription_response_iapp i src = do {
     xpctd \<leftarrow> find_xapp_map_ric_id (i_map_ric_id i) (ucast (ric_req_id (sresp_ric_id src)));
     x \<leftarrow> xpctd;
     assert_c (ran_func_id (sresp_ric_id src) = ran_func_id (x_ric_id x));
     assert_c (ric_inst_id (sresp_ric_id src) = ric_inst_id (x_ric_id x));
     let dst = mv_ric_subscription_respponse src;
     let dst = dst\<lparr>sresp_ric_id := (sresp_ric_id dst)\<lparr>ric_req_id := ric_req_id (x_ric_id x)\<rparr>\<rparr>;
     s \<leftarrow> find_map_xapps_sad (i_xapps i) (x_xapp_id x);
     let i = e2ap_send_sctp_msg_iapp i s (Ric_sub_resp dst);
     Some (no_msg, i)
   }"

definition e2ap_handle_subscription_delete_response_iapp :: "e42_iapp_t \<Rightarrow> ric_subscription_delete_response_t
    \<Rightarrow> (e2ap_msg_t \<times> e42_iapp_t) option" where
  "e2ap_handle_subscription_delete_response_iapp i src = do {
     xpctd \<leftarrow> find_xapp_map_ric_id (i_map_ric_id i) (ucast (ric_req_id (sdresp_ric_id src)));
     case xpctd of
       None \<Rightarrow> Some (no_msg, i)
     | Some x \<Rightarrow> do {
         assert_c (ran_func_id (sdresp_ric_id src) = ran_func_id (x_ric_id x));
         assert_c (ric_inst_id (sdresp_ric_id src) = ric_inst_id (x_ric_id x));
         let dst = \<lparr>sdresp_ric_id = x_ric_id x\<rparr>;
         s \<leftarrow> find_map_xapps_sad (i_xapps i) (x_xapp_id x);
         let i = e2ap_send_sctp_msg_iapp i s (Ric_sub_del_resp dst);
         m \<leftarrow> rm_map_ric_id (i_map_ric_id i) x;
         Some (no_msg, i\<lparr>i_map_ric_id := m\<rparr>)
       }
   }"

definition e2ap_handle_e42_ric_control_ack_iapp :: "e42_iapp_t \<Rightarrow> ric_control_acknowledge_t
    \<Rightarrow> (e2ap_msg_t \<times> e42_iapp_t) option" where
  "e2ap_handle_e42_ric_control_ack_iapp i src = do {
     xpctd \<leftarrow> find_xapp_map_ric_id (i_map_ric_id i) (ucast (ric_req_id (ack_ric_id src)));
     x \<leftarrow> xpctd;
     assert_c (ran_func_id (ack_ric_id src) = ran_func_id (x_ric_id x));
     assert_c (ric_inst_id (ack_ric_id src) = ric_inst_id (x_ric_id x));
     let dst = \<lparr>ack_ric_id = x_ric_id x, ack_call_process_id = None, ack_control_outcome = None\<rparr>;
     s \<leftarrow> find_map_xapps_sad (i_xapps i) (x_xapp_id x);
     let i = e2ap_send_sctp_msg_iapp i s (Ric_ctrl_ack dst);
     m \<leftarrow> rm_map_ric_id (i_map_ric_id i) x;
     Some (no_msg, i\<lparr>i_map_ric_id := m\<rparr>)
   }"

definition e2ap_handle_e42_ric_control_failure_iapp :: "e42_iapp_t \<Rightarrow> ric_control_failure_t
    \<Rightarrow> (e2ap_msg_t \<times> e42_iapp_t) option" where
  "e2ap_handle_e42_ric_control_failure_iapp i src = do {
     xpctd \<leftarrow> find_xapp_map_ric_id (i_map_ric_id i) (ucast (ric_req_id (cf_ric_id src)));
     x \<leftarrow> xpctd;
     assert_c (ran_func_id (cf_ric_id src) = ran_func_id (x_ric_id x));
     assert_c (ric_inst_id (cf_ric_id src) = ric_inst_id (x_ric_id x));
     let dst = copy_ric_control_failure src;
     let dst = dst\<lparr>cf_ric_id := x_ric_id x\<rparr>;
     s \<leftarrow> find_map_xapps_sad (i_xapps i) (x_xapp_id x);
     let i = e2ap_send_sctp_msg_iapp i s (Ric_ctrl_fail dst);
     m \<leftarrow> rm_map_ric_id (i_map_ric_id i) x;
     Some (no_msg, i\<lparr>i_map_ric_id := m\<rparr>)
   }"

definition e2ap_handle_ric_indication_iapp :: "e42_iapp_t \<Rightarrow> ric_indication_t
    \<Rightarrow> (e2ap_msg_t \<times> e42_iapp_t) option" where
  "e2ap_handle_ric_indication_iapp i src = do {
     xpctd \<leftarrow> find_xapp_map_ric_id (i_map_ric_id i) (ucast (ric_req_id (ind_ric_id src)));
     case xpctd of
       None \<Rightarrow> Some (no_msg, i)
     | Some x \<Rightarrow> do {
         assert_c (ran_func_id (ind_ric_id src) = ran_func_id (x_ric_id x));
         assert_c (ric_inst_id (ind_ric_id src) = ric_inst_id (x_ric_id x));
         let dst = mv_ric_indication src;
         let dst = dst\<lparr>ind_ric_id := (ind_ric_id dst)\<lparr>ric_req_id := ric_req_id (x_ric_id x)\<rparr>\<rparr>;
         s \<leftarrow> find_map_xapps_sad (i_xapps i) (x_xapp_id x);
         let i = e2ap_send_sctp_msg_iapp i s (Ric_ind dst);
         Some (no_msg, i)
       }
   }"

subsection \<open>Requests of the xApps\<close>

definition generate_setup_response_iapp :: "e42_iapp_t \<Rightarrow> e42_setup_request_t
    \<Rightarrow> (e42_setup_response_t \<times> e42_iapp_t) option" where
  "generate_setup_response_iapp i req = do {
     assert_c (length (e42_ran_func_item req) > 0);
     ans \<leftarrow> generate_e2_node_arr (i_e2_nodes i);
     Some (\<lparr>e42_xapp_id = ucast (i_xapp_id i), len_e2_nodes_conn = of_nat (length ans), e42_nodes = ans\<rparr>,
           i\<lparr>i_xapp_id := i_xapp_id i + 1\<rparr>)
   }"

definition e2ap_handle_e42_setup_request_iapp :: "e42_iapp_t \<Rightarrow> e42_setup_request_t
    \<Rightarrow> (e2ap_msg_t \<times> e42_iapp_t) option" where
  "e2ap_handle_e42_setup_request_iapp i req = do {
     (resp, i) \<leftarrow> generate_setup_response_iapp i req;
     Some (E42_stp_resp resp, i)
   }"

definition valid_xapp_id :: "e42_iapp_t \<Rightarrow> u32 \<Rightarrow> bool option" where
  "valid_xapp_id i xid = do {
     assert_c (xid < push_bit 16 1);
     Some (xid \<le> i_xapp_id i)
   }"

fun valid_node_loop :: "e2_node_connected_t list \<Rightarrow> global_e2_node_id_t \<Rightarrow> bool option" where
  "valid_node_loop [] nid = Some False"
| "valid_node_loop (n # ns) nid = do {
     b \<leftarrow> eq_global_e2_node_id (nc_id n) nid;
     if b then Some True else valid_node_loop ns nid
   }"

text \<open>The loop runs to the length of the array, which is its number of elements (or there is no array).\<close>

definition valid_global_e2_node :: "e42_iapp_t \<Rightarrow> global_e2_node_id_t \<Rightarrow> bool option" where
  "valid_global_e2_node i nid = do {
     nodes \<leftarrow> generate_e2_node_arr (i_e2_nodes i);
     valid_node_loop nodes nid
   }"

definition e2ap_handle_e42_ric_subscription_delete_request_iapp :: "(int list \<Rightarrow> int) \<Rightarrow> ric_sys_t
    \<Rightarrow> e42_ric_subscription_delete_request_t \<Rightarrow> (e2ap_msg_t \<times> ric_sys_t) option" where
  "e2ap_handle_e42_ric_subscription_delete_request_iapp timerfd s src = do {
     let x = \<lparr>x_ric_id = sdr_ric_id (esd_sdr src), x_xapp_id = esd_xapp_id src\<rparr>;
     n \<leftarrow> find_ric_req_map_ric_id (i_map_ric_id (s_iapp s)) x;
     assert_c (er_type n = SUBSCRIPTION_RIC_REQUEST_TYPE);
     let dst = cp_ric_subscription_delete_request (esd_sdr src);
     let dst = dst\<lparr>sdr_ric_id := (sdr_ric_id dst)\<lparr>ric_req_id := ric_req_id (er_ric_id n)\<rparr>\<rparr>;
     ric \<leftarrow> fwd_ric_subscription_request_delete timerfd (s_ric s) (er_node n) dst;
     Some (no_msg, s\<lparr>s_ric := ric\<rparr>)
   }"

definition e2ap_handle_e42_ric_subscription_request_iapp :: "(int list \<Rightarrow> int) \<Rightarrow> ric_sys_t
    \<Rightarrow> e42_ric_subscription_request_t \<Rightarrow> (e2ap_msg_t \<times> ric_sys_t) option" where
  "e2ap_handle_e42_ric_subscription_request_iapp timerfd s e42_sr = do {
     vx \<leftarrow> valid_xapp_id (s_iapp s) (ucast (esr_xapp_id e42_sr));
     assert_c vx;
     vn \<leftarrow> valid_global_e2_node (s_iapp s) (esr_id e42_sr);
     assert_c vn;
     let x = \<lparr>x_ric_id = sr_ric_id (esr_sr e42_sr), x_xapp_id = esr_xapp_id e42_sr\<rparr>;
     (new_ric_id, ric) \<leftarrow> fwd_ric_subscription_request timerfd (s_ric s) (esr_id e42_sr) (esr_sr e42_sr);
     let n = \<lparr>er_node = cp_global_e2_node_id (esr_id e42_sr), er_ric_id = sr_ric_id (esr_sr e42_sr),
              er_type = SUBSCRIPTION_RIC_REQUEST_TYPE\<rparr>;
     let n = n\<lparr>er_ric_id := (er_ric_id n)\<lparr>ric_req_id := ucast new_ric_id\<rparr>\<rparr>;
     m \<leftarrow> add_map_ric_id (i_map_ric_id (s_iapp s)) n x;
     Some (no_msg, \<lparr>s_ric = ric, s_iapp = (s_iapp s)\<lparr>i_map_ric_id := m\<rparr>\<rparr>)
   }"

definition e2ap_handle_e42_ric_control_request_iapp :: "(int list \<Rightarrow> int) \<Rightarrow> ric_sys_t
    \<Rightarrow> e42_ric_control_request_t \<Rightarrow> (e2ap_msg_t \<times> ric_sys_t) option" where
  "e2ap_handle_e42_ric_control_request_iapp timerfd s e42_cr = do {
     vx \<leftarrow> valid_xapp_id (s_iapp s) (ucast (ecr_xapp_id e42_cr));
     assert_c vx;
     vn \<leftarrow> valid_global_e2_node (s_iapp s) (ecr_id e42_cr);
     assert_c vn;
     let x = \<lparr>x_ric_id = cr_ric_id (ecr_ctrl_req e42_cr), x_xapp_id = ecr_xapp_id e42_cr\<rparr>;
     (new_ric_id, ric) \<leftarrow> fwd_ric_control_request timerfd (s_ric s) (ecr_id e42_cr) (ecr_ctrl_req e42_cr);
     let n = \<lparr>er_node = cp_global_e2_node_id (ecr_id e42_cr), er_ric_id = cr_ric_id (ecr_ctrl_req e42_cr),
              er_type = CONTROL_RIC_REQUEST_TYPE\<rparr>;
     let n = n\<lparr>er_ric_id := (er_ric_id n)\<lparr>ric_req_id := ucast new_ric_id\<rparr>\<rparr>;
     m \<leftarrow> add_map_ric_id (i_map_ric_id (s_iapp s)) n x;
     Some (no_msg, \<lparr>s_ric = ric, s_iapp = (s_iapp s)\<lparr>i_map_ric_id := m\<rparr>\<rparr>)
   }"

subsection \<open>Dispatch\<close>

definition check_valid_msg_type_iapp :: "e2_msg_type_t \<Rightarrow> bool" where
  "check_valid_msg_type_iapp t \<longleftrightarrow> t = RIC_SUBSCRIPTION_RESPONSE \<or> t = E42_SETUP_REQUEST
     \<or> t = E42_RIC_SUBSCRIPTION_REQUEST \<or> t = E42_RIC_SUBSCRIPTION_DELETE_REQUEST
     \<or> t = E42_RIC_CONTROL_REQUEST \<or> t = RIC_CONTROL_ACKNOWLEDGE \<or> t = RIC_INDICATION
     \<or> t = RIC_SUBSCRIPTION_DELETE_RESPONSE \<or> t = RIC_CONTROL_FAILURE"

definition on_iapp :: "(e2ap_msg_t \<times> e42_iapp_t) option \<Rightarrow> ric_sys_t \<Rightarrow> (e2ap_msg_t \<times> ric_sys_t) option" where
  "on_iapp r s = do { (ans, i) \<leftarrow> r; Some (ans, s\<lparr>s_iapp := i\<rparr>) }"

text \<open>The table of handlers as the equations of a function.\<close>

fun handle_msg_iapp :: "(int list \<Rightarrow> int) \<Rightarrow> ric_sys_t \<Rightarrow> e2ap_msg_t \<Rightarrow> (e2ap_msg_t \<times> ric_sys_t) option" where
  "handle_msg_iapp timerfd s (Ric_sub_resp m) = on_iapp (e2ap_handle_subscription_response_iapp (s_iapp s) m) s"
| "handle_msg_iapp timerfd s (E42_stp_req m) = on_iapp (e2ap_handle_e42_setup_request_iapp (s_iapp s) m) s"
| "handle_msg_iapp timerfd s (E42_ric_sub_req m) = e2ap_handle_e42_ric_subscription_request_iapp timerfd s m"
| "handle_msg_iapp timerfd s (E42_ric_sub_del_req m) =
     e2ap_handle_e42_ric_subscription_delete_request_iapp timerfd s m"
| "handle_msg_iapp timerfd s (E42_ric_ctrl_req m) = e2ap_handle_e42_ric_control_request_iapp timerfd s m"
| "handle_msg_iapp timerfd s (Ric_ctrl_ack m) = on_iapp (e2ap_handle_e42_ric_control_ack_iapp (s_iapp s) m) s"
| "handle_msg_iapp timerfd s (Ric_ctrl_fail m) = on_iapp (e2ap_handle_e42_ric_control_failure_iapp (s_iapp s) m) s"
| "handle_msg_iapp timerfd s (Ric_ind m) = on_iapp (e2ap_handle_ric_indication_iapp (s_iapp s) m) s"
| "handle_msg_iapp timerfd s (Ric_sub_del_resp m) =
     on_iapp (e2ap_handle_subscription_delete_response_iapp (s_iapp s) m) s"
| "handle_msg_iapp timerfd s _ = None"

definition e2ap_msg_handle_iapp :: "(int list \<Rightarrow> int) \<Rightarrow> ric_sys_t \<Rightarrow> e2ap_msg_t
    \<Rightarrow> (e2ap_msg_t \<times> ric_sys_t) option" where
  "e2ap_msg_handle_iapp timerfd s msg = do {
     assert_c (check_valid_msg_type_iapp (msg_type msg));
     handle_msg_iapp timerfd s msg
   }"

subsection \<open>Events of the iApp\<close>

text \<open>A message from the xApp at address \<open>from\<close>.\<close>

definition sctp_msg_arrived_iapp :: "(int list \<Rightarrow> int) \<Rightarrow> ric_sys_t \<Rightarrow> sctp_info_t \<Rightarrow> e2ap_msg_t
    \<Rightarrow> ric_sys_t option" where
  "sctp_msg_arrived_iapp timerfd s from msg = do {
     (ans, s) \<leftarrow> e2ap_msg_handle_iapp timerfd s msg;
     i \<leftarrow> (case ans of
         E42_stp_resp resp \<Rightarrow> e2ap_reg_sock_addr_iapp (s_iapp s) (e42_xapp_id resp) from
       | _ \<Rightarrow> Some (s_iapp s));
     let i = (if msg_type ans \<noteq> NONE_E2_MSG_TYPE then e2ap_send_sctp_msg_iapp i from ans else i);
     Some (s\<lparr>s_iapp := i\<rparr>)
   }"

definition gen_e2ap_subs_delete :: "(int list \<Rightarrow> int) \<Rightarrow> near_ric_t \<Rightarrow> e2_node_ric_id_t \<Rightarrow> near_ric_t option" where
  "gen_e2ap_subs_delete timerfd ric n =
     fwd_ric_subscription_request_delete timerfd ric (er_node n) \<lparr>sdr_ric_id = er_ric_id n\<rparr>"

fun subs_delete_loop :: "(int list \<Rightarrow> int) \<Rightarrow> near_ric_t \<Rightarrow> e2_node_ric_id_t list \<Rightarrow> near_ric_t option" where
  "subs_delete_loop timerfd ric [] = Some ric"
| "subs_delete_loop timerfd ric (n # ns) = do {
     ric \<leftarrow> gen_e2ap_subs_delete timerfd ric n;
     subs_delete_loop timerfd ric ns
   }"

definition rm_if_pending_subs :: "(int list \<Rightarrow> int) \<Rightarrow> ric_sys_t \<Rightarrow> u16 \<Rightarrow> ric_sys_t option" where
  "rm_if_pending_subs timerfd s xid = do {
     let arr = find_all_subs_map_ric_id (i_map_ric_id (s_iapp s)) xid;
     ric \<leftarrow> subs_delete_loop timerfd (s_ric s) arr;
     Some (s\<lparr>s_ric := ric\<rparr>)
   }"

text \<open>The connection with the xApp at address \<open>from\<close> is gone.\<close>

definition sctp_shutdown_iapp :: "(int list \<Rightarrow> int) \<Rightarrow> ric_sys_t \<Rightarrow> sctp_info_t \<Rightarrow> ric_sys_t option" where
  "sctp_shutdown_iapp timerfd s from = do {
     xid \<leftarrow> find_map_xapps_xid (i_xapps (s_iapp s)) from;
     rm_if_pending_subs timerfd s xid
   }"

subsection \<open>Calls of the RIC\<close>

definition add_e2_node_iapp :: "e42_iapp_t \<Rightarrow> global_e2_node_id_t \<Rightarrow> ran_function_t list
    \<Rightarrow> e2ap_node_component_config_add_t list \<Rightarrow> e42_iapp_t option" where
  "add_e2_node_iapp i nid rfs ccas = do {
     assert_c (length rfs > 0);
     r \<leftarrow> add_reg_e2_node (i_e2_nodes i) nid rfs ccas;
     Some (i\<lparr>i_e2_nodes := r\<rparr>)
   }"

definition rm_e2_node_iapp :: "e42_iapp_t \<Rightarrow> global_e2_node_id_t \<Rightarrow> e42_iapp_t option" where
  "rm_e2_node_iapp i nid = do {
     r \<leftarrow> rm_reg_e2_node (i_e2_nodes i) nid;
     Some (i\<lparr>i_e2_nodes := r\<rparr>)
   }"

definition notify_msg_iapp :: "(int list \<Rightarrow> int) \<Rightarrow> ric_sys_t \<Rightarrow> e2ap_msg_t \<Rightarrow> ric_sys_t option" where
  "notify_msg_iapp timerfd s msg = do {
     assert_c (msg_type msg = RIC_INDICATION \<or> msg_type msg = RIC_SUBSCRIPTION_RESPONSE
       \<or> msg_type msg = RIC_SUBSCRIPTION_DELETE_RESPONSE \<or> msg_type msg = RIC_CONTROL_ACKNOWLEDGE
       \<or> msg_type msg = RIC_CONTROL_FAILURE);
     (ans, s) \<leftarrow> e2ap_msg_handle_iapp timerfd s msg;
     assert_c (msg_type ans = NONE_E2_MSG_TYPE);
     Some s
   }"

end
