(* ===== verification/Msg_Handler_Ric.thy ===== *)
theory Msg_Handler_Ric
  imports Iapp
begin

text \<open>
  The messages of the E2 nodes: \<^verbatim>\<open>src/src/flexric/src/ric/msg_handler_ric.c\<close>,
  \<^verbatim>\<open>generate_setup_response.c\<close>, \<^verbatim>\<open>not_handler_ric.c\<close> and the event loop of
  \<^verbatim>\<open>near_ric.c\<close>.  A message runs as one task of the pool, modelled as one step.
\<close>

subsection \<open>Answers to requests\<close>

definition stop_pending_event :: "near_ric_t \<Rightarrow> pending_event_ric_t \<Rightarrow> near_ric_t option" where
  "stop_pending_event ric ev = do {
     (fd, p) \<leftarrow> bi_map_extract_right (r_pending ric) ev;
     let ric = ric\<lparr>r_pending := p\<rparr>;
     assert_c (fd > 0);
     rm_fd_asio_ric ric fd
   }"

definition e2ap_handle_subscription_response_ric :: "(int list \<Rightarrow> int) \<Rightarrow> ric_sys_t
    \<Rightarrow> ric_subscription_response_t \<Rightarrow> (e2ap_msg_t \<times> ric_sys_t) option" where
  "e2ap_handle_subscription_response_ric timerfd s resp = do {
     let ev = \<lparr>pe_ev = SUBSCRIPTION_REQUEST_PENDING_EVENT, pe_id = sresp_ric_id resp\<rparr>;
     ric \<leftarrow> stop_pending_event (s_ric s) ev;
     assert_c (length (not_admitted resp) = 0);
     assert_c (length (admitted resp) = 1);
     assert_c (adm_ric_act_id (hd (admitted resp)) = 0);
     s \<leftarrow> notify_msg_iapp timerfd (s\<lparr>s_ric := ric\<rparr>) (Ric_sub_resp resp);
     Some (no_msg, s)
   }"

definition e2ap_handle_subscription_delete_response_ric :: "(int list \<Rightarrow> int) \<Rightarrow> ric_sys_t
    \<Rightarrow> ric_subscription_delete_response_t \<Rightarrow> (e2ap_msg_t \<times> ric_sys_t) option" where
  "e2ap_handle_subscription_delete_response_ric timerfd s resp = do {
     let ev = \<lparr>pe_ev = SUBSCRIPTION_DELETE_REQUEST_PENDING_EVENT, pe_id = sdresp_ric_id resp\<rparr>;
     ric \<leftarrow> stop_pending_event (s_ric s) ev;
     s \<leftarrow> notify_msg_iapp timerfd (s\<lparr>s_ric := ric\<rparr>) (Ric_sub_del_resp resp);
     Some (no_msg, s)
   }"

definition e2ap_handle_control_ack_ric :: "(int list \<Rightarrow> int) \<Rightarrow> ric_sys_t \<Rightarrow> ric_control_acknowledge_t
    \<Rightarrow> (e2ap_msg_t \<times> ric_sys_t) option" where
  "e2ap_handle_control_ack_ric timerfd s ack = do {
     let ev = \<lparr>pe_ev = CONTROL_REQUEST_PENDING_EVENT, pe_id = ack_ric_id ack\<rparr>;
     ric \<leftarrow> stop_pending_event (s_ric s) ev;
     s \<leftarrow> notify_msg_iapp timerfd (s\<lparr>s_ric := ric\<rparr>) (Ric_ctrl_ack ack);
     Some (no_msg, s)
   }"

definition e2ap_handle_control_failure_ric :: "(int list \<Rightarrow> int) \<Rightarrow> ric_sys_t \<Rightarrow> ric_control_failure_t
    \<Rightarrow> (e2ap_msg_t \<times> ric_sys_t) option" where
  "e2ap_handle_control_failure_ric timerfd s failure = do {
     let ev = \<lparr>pe_ev = CONTROL_REQUEST_PENDING_EVENT, pe_id = cf_ric_id failure\<rparr>;
     ric \<leftarrow> stop_pending_event (s_ric s) ev;
     s \<leftarrow> notify_msg_iapp timerfd (s\<lparr>s_ric := ric\<rparr>) (Ric_ctrl_fail failure);
     Some (no_msg, s)
   }"

subsection \<open>Indications\<close>

text \<open>
  The listeners that are called are those of the first service model of the map, whatever the
  service model of the indication is: the code takes the value at the start of the map.
\<close>

definition publish_ind_msg :: "near_ric_t \<Rightarrow> u16 \<Rightarrow> sm_ag_if_rd_ind_t \<Rightarrow> near_ric_t option" where
  "publish_ind_msg ric rfid d = do {
     let sm_it = entries_find_if (eq_ran_func_id rfid) (r_pub_sub ric);
     assert_c (sm_it \<noteq> None);
     let arr = snd (hd (r_pub_sub ric));
     Some (ric\<lparr>r_published := r_published ric @ map (\<lambda>sub. (subs_name sub, d)) arr\<rparr>)
   }"

definition e2ap_handle_indication_ric :: "(int list \<Rightarrow> int) \<Rightarrow> ric_sys_t \<Rightarrow> ric_indication_t
    \<Rightarrow> (e2ap_msg_t \<times> ric_sys_t) option" where
  "e2ap_handle_indication_ric timerfd s ric_ind = do {
     let rfid = ran_func_id (ind_ric_id ric_ind);
     sm \<leftarrow> sm_plugin_ric (s_ric s) rfid;
     let data = \<lparr>id_ind_hdr = ind_hdr ric_ind, id_ind_msg = ind_msg ric_ind,
                 id_call_process_id = ind_call_process_id ric_ind\<rparr>;
     let d = on_indication sm data;
     assert_c (rd_type d \<noteq> SM_AGENT_IF_READ_V0_END);
     ric \<leftarrow> publish_ind_msg (s_ric s) rfid d;
     s \<leftarrow> notify_msg_iapp timerfd (s\<lparr>s_ric := ric\<rparr>) (Ric_ind ric_ind);
     Some (no_msg, s)
   }"

subsection \<open>Setup\<close>

fun accept_ran_func :: "near_ric_t \<Rightarrow> ran_function_t list \<Rightarrow> u16 list option" where
  "accept_ran_func ric [] = Some []"
| "accept_ran_func ric (rf # rfs) = do {
     (k, sm) \<leftarrow> entries_find_if (eq_ran_func_id (rf_id rf)) (r_sm_ds ric);
     assert_c (rf_id rf = k);
     acc \<leftarrow> accept_ran_func ric rfs;
     Some (rf_id rf # acc)
   }"

definition add_ack_of :: "e2ap_node_component_config_add_t \<Rightarrow> e2ap_node_comp_config_add_ack_t option" where
  "add_ack_of c = do {
     i \<leftarrow> cp_e2ap_node_comp_id (cca_comp_id c);
     Some \<lparr>ccaa_interface_type = cca_interface_type c, ccaa_comp_id = i,
           ccaa_conf_ack = \<lparr>ack_outcome = SUCCESS_E2AP_NODE_COMP_CONF_ACK, ack_cause = None\<rparr>\<rparr>
   }"

definition generate_setup_response_v2 :: "near_ric_t \<Rightarrow> e2_setup_request_t \<Rightarrow> e2_setup_response_t option" where
  "generate_setup_response_v2 ric req = do {
     acc \<leftarrow> accept_ran_func ric (stp_ran_func_item req);
     assert_c (length (stp_comp_conf_add req) > 0 \<and> length (stp_comp_conf_add req) < 1025);
     add_ack \<leftarrow> those (map add_ack_of (stp_comp_conf_add req));
     Some \<lparr>stpr_trans_id = stp_trans_id req,
           stpr_id = \<lparr>gr_plmn = ge_plmn (stp_id req), near_ric_id = 25\<rparr>,
           stpr_accepted = acc, stpr_rejected = [], stpr_comp_config_add_ack = add_ack\<rparr>
   }"

definition NODE_IS_MONOLITHIC :: "ngran_node_t \<Rightarrow> bool" where
  "NODE_IS_MONOLITHIC t \<longleftrightarrow> t = ngran_eNB \<or> t = ngran_ng_eNB \<or> t = ngran_gNB"

text \<open>The log line of a CU or DU reads its number through the pointer.\<close>

definition e2ap_handle_setup_request_ric :: "ric_sys_t \<Rightarrow> e2_setup_request_t
    \<Rightarrow> (e2ap_msg_t \<times> ric_sys_t) option" where
  "e2ap_handle_setup_request_ric s req = do {
     assert_c (NODE_IS_MONOLITHIC (ge_type (stp_id req)) \<or> cu_du_id (stp_id req) \<noteq> None);
     i \<leftarrow> add_e2_node_iapp (s_iapp s) (stp_id req) (stp_ran_func_item req) (stp_comp_conf_add req);
     let s = s\<lparr>s_iapp := i\<rparr>;
     resp \<leftarrow> generate_setup_response_v2 (s_ric s) req;
     let n = init_e2_node (stp_id req) (stpr_accepted resp);
     let ric = (s_ric s)\<lparr>r_conn_e2_nodes := r_conn_e2_nodes (s_ric s) @ [n]\<rparr>;
     Some (E2_stp_resp resp, s\<lparr>s_ric := ric\<rparr>)
   }"

subsection \<open>Dispatch\<close>

definition check_valid_msg_type_ric :: "e2_msg_type_t \<Rightarrow> bool" where
  "check_valid_msg_type_ric t \<longleftrightarrow> t = RIC_SUBSCRIPTION_RESPONSE \<or> t = RIC_SUBSCRIPTION_FAILURE
     \<or> t = RIC_SUBSCRIPTION_DELETE_RESPONSE \<or> t = RIC_SUBSCRIPTION_DELETE_FAILURE
     \<or> t = RIC_INDICATION \<or> t = RIC_CONTROL_ACKNOWLEDGE \<or> t = RIC_CONTROL_FAILURE
     \<or> t = E2AP_ERROR_INDICATION \<or> t = E2_SETUP_REQUEST \<or> t = E2AP_RESET_REQUEST
     \<or> t = E2AP_RESET_RESPONSE \<or> t = RIC_SERVICE_UPDATE \<or> t = E2_NODE_CONFIGURATION_UPDATE
     \<or> t = E2_CONNECTION_UPDATE_ACKNOWLEDGE \<or> t = E2_CONNECTION_UPDATE_FAILURE"

text \<open>
  The table of handlers.  The handlers of the remaining valid types only fail an assertion
  (not implemented).
\<close>

fun handle_msg_ric :: "(int list \<Rightarrow> int) \<Rightarrow> ric_sys_t \<Rightarrow> e2ap_msg_t \<Rightarrow> (e2ap_msg_t \<times> ric_sys_t) option" where
  "handle_msg_ric timerfd s (Ric_sub_resp m) = e2ap_handle_subscription_response_ric timerfd s m"
| "handle_msg_ric timerfd s (Ric_sub_del_resp m) = e2ap_handle_subscription_delete_response_ric timerfd s m"
| "handle_msg_ric timerfd s (Ric_ind m) = e2ap_handle_indication_ric timerfd s m"
| "handle_msg_ric timerfd s (Ric_ctrl_ack m) = e2ap_handle_control_ack_ric timerfd s m"
| "handle_msg_ric timerfd s (Ric_ctrl_fail m) = e2ap_handle_control_failure_ric timerfd s m"
| "handle_msg_ric timerfd s (E2_stp_req m) = e2ap_handle_setup_request_ric s m"
| "handle_msg_ric timerfd s _ = None"

definition e2ap_msg_handle_ric :: "(int list \<Rightarrow> int) \<Rightarrow> ric_sys_t \<Rightarrow> e2ap_msg_t
    \<Rightarrow> (e2ap_msg_t \<times> ric_sys_t) option" where
  "e2ap_msg_handle_ric timerfd s msg = do {
     assert_c (check_valid_msg_type_ric (msg_type msg));
     handle_msg_ric timerfd s msg
   }"

subsection \<open>Events of the RIC\<close>

text \<open>A message from the E2 node at address \<open>from\<close>.\<close>

definition sctp_msg_arrived_event :: "(int list \<Rightarrow> int) \<Rightarrow> ric_sys_t \<Rightarrow> sctp_info_t \<Rightarrow> e2ap_msg_t
    \<Rightarrow> ric_sys_t option" where
  "sctp_msg_arrived_event timerfd s from msg = do {
     ric \<leftarrow> (case msg of
         E2_stp_req req \<Rightarrow> e2ap_reg_sock_addr_ric (s_ric s) (stp_id req) from
       | _ \<Rightarrow> Some (s_ric s));
     (ans, s) \<leftarrow> e2ap_msg_handle_ric timerfd (s\<lparr>s_ric := ric\<rparr>) msg;
     if msg_type ans \<noteq> NONE_E2_MSG_TYPE
     then Some (s\<lparr>s_ric := e2ap_send_sctp_msg_ric (s_ric s) from ans\<rparr>)
     else Some s
   }"

definition eq_global_e2_node_id_e2_node :: "e2_node_t \<Rightarrow> global_e2_node_id_t \<Rightarrow> bool option" where
  "eq_global_e2_node_id_e2_node n nid = eq_global_e2_node_id (en_id n) nid"

text \<open>Removes the first connected node that equals \<open>nid\<close>; aborts when there is none.\<close>

fun erase_conn_node :: "e2_node_t list \<Rightarrow> global_e2_node_id_t \<Rightarrow> e2_node_t list option" where
  "erase_conn_node [] nid = None"
| "erase_conn_node (n # ns) nid = do {
     b \<leftarrow> eq_global_e2_node_id_e2_node n nid;
     if b then Some ns else do { ns' \<leftarrow> erase_conn_node ns nid; Some (n # ns') }
   }"

text \<open>The connection with the E2 node at address \<open>from\<close> is gone.\<close>

definition notification_handle_ric :: "ric_sys_t \<Rightarrow> sctp_info_t \<Rightarrow> ric_sys_t option" where
  "notification_handle_ric s from = do {
     (nid, ric) \<leftarrow> e2ap_rm_sock_addr_ric (s_ric s) from;
     conn \<leftarrow> erase_conn_node (r_conn_e2_nodes ric) nid;
     let ric = ric\<lparr>r_conn_e2_nodes := conn\<rparr>;
     i \<leftarrow> rm_e2_node_iapp (s_iapp s) nid;
     Some \<lparr>s_ric = ric, s_iapp = i\<rparr>
   }"

text \<open>A timer expired: its pending event is looked up and the timer is read, nothing else.\<close>

definition pending_event_expired :: "ric_sys_t \<Rightarrow> int \<Rightarrow> ric_sys_t option" where
  "pending_event_expired s fd = do { ev \<leftarrow> pend_event (s_ric s) fd; Some s }"

end
