(* ===== verification/Ric_System.thy ===== *)
theory Ric_System
  imports Msg_Handler_Ric
begin

text \<open>
  The RIC with its E2 nodes and xApps as one machine: the events that its two event loops
  react to, the invariant that the maps keep, and what the E2 nodes and the xApps see.
\<close>

subsection \<open>Pending events are consumed once\<close>

definition stopped :: "pending_event_ric_t \<Rightarrow> near_ric_t \<Rightarrow> near_ric_t \<Rightarrow> bool" where
  "stopped ev ric ric' \<longleftrightarrow> ric_inv ric' \<and> (\<exists>fd p. ric' = ric\<lparr>r_pending := p, r_fds := remove1 fd (r_fds ric)\<rparr>
     \<and> bm_pairs (r_pending ric) = add_mset (fd, ev) (bm_pairs p))"

lemma stop_pending_event_ok:
  assumes inv: "ric_inv ric" and ev: "ev \<in> pending_evs ric"
  shows "\<exists>ric'. stop_pending_event ric ev = Some ric' \<and> stopped ev ric ric'"
proof -
  obtain fd where fd: "(fd, ev) \<in># bm_pairs (r_pending ric)" using ev by (force simp: pending_evs_def)
  then have open_fd: "fd \<in> set (r_fds ric)" "fd > 0"
    using ric_inv_fds[OF inv] inv by (auto simp: ric_inv_def)
  have ok: "bm_ok cmp_fd cmp_pending_event_ric (r_pending ric)" using inv by (simp add: ric_inv_def)
  obtain p where p: "bi_map_extract_right (r_pending ric) ev = Some (fd, p)"
    "bm_ok cmp_fd cmp_pending_event_ric p" "bm_pairs (r_pending ric) = add_mset (fd, ev) (bm_pairs p)"
    using pend_map.ok_extract_right[OF ok fd, of ev] by auto
  let ?ric = "ric\<lparr>r_pending := p, r_fds := remove1 fd (r_fds ric)\<rparr>"
  have "stop_pending_event ric ev = Some ?ric"
    using p(1) open_fd by (simp add: stop_pending_event_def rm_fd_asio_ric_def Let_def)
  moreover have "image_mset fst (bm_pairs p) = mset (remove1 fd (r_fds ric))"
    using inv p(3) by (simp add: ric_inv_def) (metis add_mset_remove_trivial)
  then have "ric_inv ?ric" using inv p(2) by (auto simp: ric_inv_def dest: notin_set_remove1)
  ultimately show ?thesis using p(3) by (auto simp: stopped_def)
qed

lemma entries_extract_SomeD:
  assumes "entries_extract cmp k t = Some (w, t')"
  shows "\<exists>x. (x, w) \<in> set t \<and> cmp k x = 0"
  using assms by (induction cmp k t arbitrary: t' rule: entries_extract.induct)
    (auto simp: bind_Some_iff split: if_splits)

lemma stop_pending_event_unsolicited:
  assumes inv: "ric_inv ric" and ev: "ev \<notin> pending_evs ric"
  shows "stop_pending_event ric ev = None"
proof -
  have b: "bi_map_inv (r_pending ric)" "bm_cmp2 (r_pending ric) = cmp_pending_event_ric"
    using inv by (auto simp: ric_inv_def bm_ok_def)
  have "entries_extract cmp_pending_event_ric ev (bm_right (r_pending ric)) = None"
    using ev right_pairs[OF b(1)] by (intro pend_ric_cmp.entries_extract_absent) (force simp: pending_evs_def)
  then show ?thesis by (simp add: stop_pending_event_def bi_map_extract_right_def b(2))
qed

subsection \<open>Answers of the iApp\<close>

text \<open>Request \<open>r\<close> was made by the xApp request \<open>x\<close>, whose xApp is reached at \<open>a\<close>.\<close>

definition routes :: "e42_iapp_t \<Rightarrow> u32 \<Rightarrow> e2_node_ric_id_t \<Rightarrow> xapp_ric_id_t \<Rightarrow> sctp_info_t \<Rightarrow> bool" where
  "routes i r n x a \<longleftrightarrow> map_ok (i_map_ric_id i) \<and> sad_ok (i_xapps i)
     \<and> (n, x) \<in># bm_pairs (i_map_ric_id i) \<and> req_of n = r \<and> 0 < r \<and> r < 65536
     \<and> (x_xapp_id x, a) \<in># bm_pairs (i_xapps i)"

lemma routes_find:
  assumes "routes i r n x a"
  shows "find_xapp_map_ric_id (i_map_ric_id i) (ucast r) = Some (Some x)"
    "find_map_xapps_sad (i_xapps i) (x_xapp_id x) = Some a"
  using assms find_xapp_in[of "i_map_ric_id i" n x "ucast r"] find_sad_in(1)[of "i_xapps i" "x_xapp_id x" a]
    ucast16_id[of r] ucast16_pos[of r]
  by (auto simp: routes_def)

definition same_function :: "ric_gen_id_t \<Rightarrow> xapp_ric_id_t \<Rightarrow> bool" where
  "same_function g x \<longleftrightarrow> ran_func_id g = ran_func_id (x_ric_id x) \<and> ric_inst_id g = ric_inst_id (x_ric_id x)"

lemma same_function_id: "same_function g x \<Longrightarrow> g\<lparr>ric_req_id := ric_req_id (x_ric_id x)\<rparr> = x_ric_id x"
  by (cases g; cases "x_ric_id x") (auto simp: same_function_def)

lemma subscription_response_iapp_ok:
  assumes r: "routes i (ric_req_id (sresp_ric_id m)) n x a" and f: "same_function (sresp_ric_id m) x"
  shows "e2ap_handle_subscription_response_iapp i m =
    Some (no_msg, e2ap_send_sctp_msg_iapp i a (Ric_sub_resp (m\<lparr>sresp_ric_id := x_ric_id x\<rparr>)))"
  using routes_find[OF r] f
  by (simp add: e2ap_handle_subscription_response_iapp_def same_function_def Let_def same_function_id[OF f])

lemma ric_indication_iapp_ok:
  assumes r: "routes i (ric_req_id (ind_ric_id m)) n x a" and f: "same_function (ind_ric_id m) x"
  shows "e2ap_handle_ric_indication_iapp i m =
    Some (no_msg, e2ap_send_sctp_msg_iapp i a (Ric_ind (m\<lparr>ind_ric_id := x_ric_id x\<rparr>)))"
  using routes_find[OF r] f
  by (simp add: e2ap_handle_ric_indication_iapp_def same_function_def Let_def same_function_id[OF f])

text \<open>An answer that ends a request is delivered and its entry leaves the map.\<close>

definition ended :: "e42_iapp_t \<Rightarrow> e2_node_ric_id_t \<Rightarrow> xapp_ric_id_t \<Rightarrow> sctp_info_t \<Rightarrow> e2ap_msg_t
    \<Rightarrow> e42_iapp_t \<Rightarrow> bool" where
  "ended i n x a msg i' \<longleftrightarrow> (\<exists>m. i' = i\<lparr>i_sent := i_sent i @ [(a, msg)], i_map_ric_id := m\<rparr> \<and> map_ok m
     \<and> bm_pairs (i_map_ric_id i) = add_mset (n, x) (bm_pairs m))"

lemma subscription_delete_response_iapp_ok:
  assumes r: "routes i (ric_req_id (sdresp_ric_id m)) n x a" and f: "same_function (sdresp_ric_id m) x"
  shows "\<exists>i'. e2ap_handle_subscription_delete_response_iapp i m = Some (no_msg, i')
    \<and> ended i n x a (Ric_sub_del_resp \<lparr>sdresp_ric_id = x_ric_id x\<rparr>) i'"
  using routes_find[OF r] f rm_map_ric_id_ok[of "i_map_ric_id i" n x] r
  by (auto simp: e2ap_handle_subscription_delete_response_iapp_def same_function_def Let_def ended_def
      e2ap_send_sctp_msg_iapp_def routes_def)

lemma control_ack_iapp_ok:
  assumes r: "routes i (ric_req_id (ack_ric_id m)) n x a" and f: "same_function (ack_ric_id m) x"
  shows "\<exists>i'. e2ap_handle_e42_ric_control_ack_iapp i m = Some (no_msg, i')
    \<and> ended i n x a (Ric_ctrl_ack \<lparr>ack_ric_id = x_ric_id x, ack_call_process_id = None,
        ack_control_outcome = None\<rparr>) i'"
  using routes_find[OF r] f rm_map_ric_id_ok[of "i_map_ric_id i" n x] r
  by (auto simp: e2ap_handle_e42_ric_control_ack_iapp_def same_function_def Let_def ended_def
      e2ap_send_sctp_msg_iapp_def routes_def)

lemma control_failure_iapp_ok:
  assumes r: "routes i (ric_req_id (cf_ric_id m)) n x a" and f: "same_function (cf_ric_id m) x"
  shows "\<exists>i'. e2ap_handle_e42_ric_control_failure_iapp i m = Some (no_msg, i')
    \<and> ended i n x a (Ric_ctrl_fail (m\<lparr>cf_ric_id := x_ric_id x\<rparr>)) i'"
  using routes_find[OF r] f rm_map_ric_id_ok[of "i_map_ric_id i" n x] r
  by (auto simp: e2ap_handle_e42_ric_control_failure_iapp_def same_function_def Let_def ended_def
      e2ap_send_sctp_msg_iapp_def routes_def)

lemma notify_simps:
  "notify_msg_iapp timerfd s (Ric_sub_resp m) = do {
     (ans, i) \<leftarrow> e2ap_handle_subscription_response_iapp (s_iapp s) m;
     assert_c (msg_type ans = NONE_E2_MSG_TYPE); Some (s\<lparr>s_iapp := i\<rparr>) }"
  "notify_msg_iapp timerfd s (Ric_ind d) = do {
     (ans, i) \<leftarrow> e2ap_handle_ric_indication_iapp (s_iapp s) d;
     assert_c (msg_type ans = NONE_E2_MSG_TYPE); Some (s\<lparr>s_iapp := i\<rparr>) }"
  "notify_msg_iapp timerfd s (Ric_sub_del_resp e) = do {
     (ans, i) \<leftarrow> e2ap_handle_subscription_delete_response_iapp (s_iapp s) e;
     assert_c (msg_type ans = NONE_E2_MSG_TYPE); Some (s\<lparr>s_iapp := i\<rparr>) }"
  "notify_msg_iapp timerfd s (Ric_ctrl_ack f) = do {
     (ans, i) \<leftarrow> e2ap_handle_e42_ric_control_ack_iapp (s_iapp s) f;
     assert_c (msg_type ans = NONE_E2_MSG_TYPE); Some (s\<lparr>s_iapp := i\<rparr>) }"
  "notify_msg_iapp timerfd s (Ric_ctrl_fail g) = do {
     (ans, i) \<leftarrow> e2ap_handle_e42_ric_control_failure_iapp (s_iapp s) g;
     assert_c (msg_type ans = NONE_E2_MSG_TYPE); Some (s\<lparr>s_iapp := i\<rparr>) }"
  by (auto simp: notify_msg_iapp_def e2ap_msg_handle_iapp_def check_valid_msg_type_iapp_def on_iapp_def
      Option.bind_assoc split: prod.splits intro!: Option.bind_cong)

lemma both_parts [simp]:
  "s\<lparr>s_ric := r, s_iapp := i\<rparr> = \<lparr>s_ric = r, s_iapp = i\<rparr>"
  "s\<lparr>s_iapp := i, s_ric := r\<rparr> = \<lparr>s_ric = r, s_iapp = i\<rparr>"
  by (cases s, simp)+

subsection \<open>Answers of the E2 nodes reach the xApp that asked\<close>

text \<open> C5: The response of an E2 node to a pending subscription request that an xApp made is
  accepted: the timer of the request is removed, no other pending event changes, the xApp that
  made the request gets the response with the identifier it gave the request, and nothing else
  is sent; the request stays in the map for its indications. \<close>

theorem subscription_response_delivered:
  assumes "ric_inv (s_ric s)"
    and "\<lparr>pe_ev = SUBSCRIPTION_REQUEST_PENDING_EVENT, pe_id = sresp_ric_id m\<rparr> \<in> pending_evs (s_ric s)"
    and "routes (s_iapp s) (ric_req_id (sresp_ric_id m)) n x a" "same_function (sresp_ric_id m) x"
    and "not_admitted m = []" "admitted m = [\<lparr>adm_ric_act_id = 0\<rparr>]"
  shows "\<exists>ric'. sctp_msg_arrived_event timerfd s from (Ric_sub_resp m) =
      Some (s\<lparr>s_ric := ric', s_iapp := (s_iapp s)\<lparr>i_sent := i_sent (s_iapp s) @
        [(a, Ric_sub_resp (m\<lparr>sresp_ric_id := x_ric_id x\<rparr>))]\<rparr>\<rparr>)
    \<and> stopped \<lparr>pe_ev = SUBSCRIPTION_REQUEST_PENDING_EVENT, pe_id = sresp_ric_id m\<rparr> (s_ric s) ric'"
  using stop_pending_event_ok[OF assms(1,2)] subscription_response_iapp_ok[OF assms(3,4)] assms(5,6)
  by (auto simp: sctp_msg_arrived_event_def e2ap_msg_handle_ric_def check_valid_msg_type_ric_def
      e2ap_handle_subscription_response_ric_def notify_simps Let_def e2ap_send_sctp_msg_iapp_def)

text \<open> C17: The response to a pending deletion removes the timer of the deletion and the request from
  the map, and the xApp that made the request gets the response with its own identifier. \<close>

theorem delete_response_delivered:
  assumes "ric_inv (s_ric s)"
    and "\<lparr>pe_ev = SUBSCRIPTION_DELETE_REQUEST_PENDING_EVENT, pe_id = sdresp_ric_id m\<rparr> \<in> pending_evs (s_ric s)"
    and "routes (s_iapp s) (ric_req_id (sdresp_ric_id m)) n x a" "same_function (sdresp_ric_id m) x"
  shows "\<exists>ric' i'. sctp_msg_arrived_event timerfd s from (Ric_sub_del_resp m) = Some \<lparr>s_ric = ric', s_iapp = i'\<rparr>
    \<and> stopped \<lparr>pe_ev = SUBSCRIPTION_DELETE_REQUEST_PENDING_EVENT, pe_id = sdresp_ric_id m\<rparr> (s_ric s) ric'
    \<and> ended (s_iapp s) n x a (Ric_sub_del_resp \<lparr>sdresp_ric_id = x_ric_id x\<rparr>) i'"
  using stop_pending_event_ok[OF assms(1,2)] subscription_delete_response_iapp_ok[OF assms(3,4)]
  by (auto simp: sctp_msg_arrived_event_def e2ap_msg_handle_ric_def check_valid_msg_type_ric_def
      e2ap_handle_subscription_delete_response_ric_def notify_simps Let_def)

text \<open> C18: The acknowledgement or the failure of a pending control request removes its timer and
  its entry in the map, and the xApp that made the request gets it with its own identifier:
  the failure with its cause and outcome, the acknowledgement without the call process
  identifier and the outcome that the E2 node sent. \<close>

theorem control_outcome_delivered:
  assumes "ric_inv (s_ric s)"
    and "\<lparr>pe_ev = CONTROL_REQUEST_PENDING_EVENT, pe_id = g\<rparr> \<in> pending_evs (s_ric s)"
    and "routes (s_iapp s) (ric_req_id g) n x a" "same_function g x"
    and "m = Ric_ctrl_ack \<lparr>ack_ric_id = g, ack_call_process_id = c, ack_control_outcome = out\<rparr>
        \<and> m' = Ric_ctrl_ack \<lparr>ack_ric_id = x_ric_id x, ack_call_process_id = None, ack_control_outcome = None\<rparr>
      \<or> m = Ric_ctrl_fail \<lparr>cf_ric_id = g, cf_call_process_id = c, cf_cause = cause,
          cf_control_outcome = out, cf_crit = crit\<rparr>
        \<and> m' = Ric_ctrl_fail \<lparr>cf_ric_id = x_ric_id x, cf_call_process_id = c, cf_cause = cause,
          cf_control_outcome = out, cf_crit = crit\<rparr>"
  shows "\<exists>ric' i'. sctp_msg_arrived_event timerfd s from m = Some \<lparr>s_ric = ric', s_iapp = i'\<rparr>
    \<and> stopped \<lparr>pe_ev = CONTROL_REQUEST_PENDING_EVENT, pe_id = g\<rparr> (s_ric s) ric'
    \<and> ended (s_iapp s) n x a m' i'"
  using assms(5)
proof (elim disjE conjE)
  assume m: "m = Ric_ctrl_ack \<lparr>ack_ric_id = g, ack_call_process_id = c, ack_control_outcome = out\<rparr>"
    "m' = Ric_ctrl_ack \<lparr>ack_ric_id = x_ric_id x, ack_call_process_id = None, ack_control_outcome = None\<rparr>"
  then show ?thesis
    using stop_pending_event_ok[OF assms(1,2)] assms(3,4)
      control_ack_iapp_ok[of "s_iapp s" "\<lparr>ack_ric_id = g, ack_call_process_id = c, ack_control_outcome = out\<rparr>" n x a]
    by (auto simp: sctp_msg_arrived_event_def e2ap_msg_handle_ric_def check_valid_msg_type_ric_def
        e2ap_handle_control_ack_ric_def notify_simps Let_def)
next
  let ?f = "\<lparr>cf_ric_id = g, cf_call_process_id = c, cf_cause = cause, cf_control_outcome = out, cf_crit = crit\<rparr>"
  assume m: "m = Ric_ctrl_fail ?f"
    "m' = Ric_ctrl_fail \<lparr>cf_ric_id = x_ric_id x, cf_call_process_id = c, cf_cause = cause,
       cf_control_outcome = out, cf_crit = crit\<rparr>"
  then show ?thesis
    using stop_pending_event_ok[OF assms(1,2)] assms(3,4) control_failure_iapp_ok[of "s_iapp s" ?f n x a]
    by (auto simp: sctp_msg_arrived_event_def e2ap_msg_handle_ric_def check_valid_msg_type_ric_def
        e2ap_handle_control_failure_ric_def notify_simps Let_def)
qed

text \<open> C19: An indication for a request that an xApp made is decoded by its service model, handed to
  the listeners of the first service model that was registered, and forwarded to that xApp with
  the identifier it gave the request; no map and no timer changes. \<close>

theorem indication_delivered:
  assumes "sm_plugin_ric (s_ric s) (ran_func_id (ind_ric_id m)) = Some sm"
    and "d = on_indication sm \<lparr>id_ind_hdr = ind_hdr m, id_ind_msg = ind_msg m,
        id_call_process_id = ind_call_process_id m\<rparr>" "rd_type d \<noteq> SM_AGENT_IF_READ_V0_END"
    and "r_pub_sub (s_ric s) = (k, subs) # rest" "ran_func_id (ind_ric_id m) \<in> insert k (fst ` set rest)"
    and "routes (s_iapp s) (ric_req_id (ind_ric_id m)) n x a" "same_function (ind_ric_id m) x"
  shows "sctp_msg_arrived_event timerfd s from (Ric_ind m) =
      Some (s\<lparr>s_ric := (s_ric s)\<lparr>r_published := r_published (s_ric s) @ map (\<lambda>l. (subs_name l, d)) subs\<rparr>,
              s_iapp := (s_iapp s)\<lparr>i_sent := i_sent (s_iapp s) @ [(a, Ric_ind (m\<lparr>ind_ric_id := x_ric_id x\<rparr>))]\<rparr>\<rparr>)"
proof -
  have "entries_find_if (eq_ran_func_id (ran_func_id (ind_ric_id m))) (r_pub_sub (s_ric s)) \<noteq> None"
    using assms(4,5) unfolding entries_find_if_None by (force simp: eq_ran_func_id_def)
  then have "publish_ind_msg (s_ric s) (ran_func_id (ind_ric_id m)) d =
      Some ((s_ric s)\<lparr>r_published := r_published (s_ric s) @ map (\<lambda>l. (subs_name l, d)) subs\<rparr>)"
    using assms(4) by (simp add: publish_ind_msg_def)
  then show ?thesis
    using assms(1,3) ric_indication_iapp_ok[OF assms(6,7)]
    by (auto simp: sctp_msg_arrived_event_def e2ap_msg_handle_ric_def check_valid_msg_type_ric_def
        e2ap_handle_indication_ric_def notify_simps Let_def assms(2)[symmetric] e2ap_send_sctp_msg_iapp_def)
qed

text \<open> C36: An answer that no request of the RIC is waiting for (a response, a deletion response, an
  acknowledgement or a failure whose identifier has no pending event of its kind) aborts the RIC. \<close>

theorem unsolicited_answer_aborts:
  assumes "ric_inv (s_ric s)"
    and "m = Ric_sub_resp mr \<and> ev = \<lparr>pe_ev = SUBSCRIPTION_REQUEST_PENDING_EVENT, pe_id = sresp_ric_id mr\<rparr>
      \<or> m = Ric_sub_del_resp md \<and> ev = \<lparr>pe_ev = SUBSCRIPTION_DELETE_REQUEST_PENDING_EVENT, pe_id = sdresp_ric_id md\<rparr>
      \<or> m = Ric_ctrl_ack ma \<and> ev = \<lparr>pe_ev = CONTROL_REQUEST_PENDING_EVENT, pe_id = ack_ric_id ma\<rparr>
      \<or> m = Ric_ctrl_fail mf \<and> ev = \<lparr>pe_ev = CONTROL_REQUEST_PENDING_EVENT, pe_id = cf_ric_id mf\<rparr>"
    and "ev \<notin> pending_evs (s_ric s)"
  shows "sctp_msg_arrived_event timerfd s from m = None"
  using stop_pending_event_unsolicited[OF assms(1,3)] assms(2)
  by (auto simp: sctp_msg_arrived_event_def e2ap_msg_handle_ric_def check_valid_msg_type_ric_def Let_def
      e2ap_handle_subscription_response_ric_def e2ap_handle_subscription_delete_response_ric_def
      e2ap_handle_control_ack_ric_def e2ap_handle_control_failure_ric_def)

subsection \<open>The invariant of the machine\<close>

interpretation e2_map: bimap_cmps cmp_global_e2_node_id_wrapper cmp_sctp_info_wrapper
  by unfold_locales

text \<open>The three registries of E2 nodes hold the same nodes.\<close>

definition nodes_ok :: "ric_sys_t \<Rightarrow> bool" where
  "nodes_ok s \<longleftrightarrow> reg_ok (i_e2_nodes (s_iapp s))
     \<and> bm_ok cmp_global_e2_node_id_wrapper cmp_sctp_info_wrapper (r_e2_nodes (s_ric s))
     \<and> image_mset fst (bm_pairs (r_e2_nodes (s_ric s))) = mset (map fst (i_e2_nodes (s_iapp s)))
     \<and> mset (map en_id (r_conn_e2_nodes (s_ric s))) = mset (map fst (i_e2_nodes (s_iapp s)))"

text \<open>Request identifiers are below the counter: a new one is in no map.\<close>

definition ids_ok :: "ric_sys_t \<Rightarrow> bool" where
  "ids_ok s \<longleftrightarrow> 1021 \<le> r_req_id (s_ric s)
     \<and> (\<forall>(n, x) \<in># bm_pairs (i_map_ric_id (s_iapp s)). 1021 \<le> req_of n \<and> req_of n < r_req_id (s_ric s))
     \<and> (\<forall>ev \<in> pending_evs (s_ric s). pe_ev ev = SUBSCRIPTION_REQUEST_PENDING_EVENT
          \<or> pe_ev ev = CONTROL_REQUEST_PENDING_EVENT \<longrightarrow> ric_req_id (pe_id ev) < r_req_id (s_ric s))"

definition sys_inv :: "ric_sys_t \<Rightarrow> bool" where
  "sys_inv s \<longleftrightarrow> ric_inv (s_ric s) \<and> map_ok (i_map_ric_id (s_iapp s)) \<and> sad_ok (i_xapps (s_iapp s))
     \<and> nodes_ok s \<and> ids_ok s"

lemma find_key:
  assumes "(n, v) \<in> set t" "distinct (map (g \<circ> fst) t)" "g m = g n"
  shows "entries_find_if (\<lambda>k. g m = g k) t = Some (n, v)"
  using assms
proof (induction t)
  case (Cons e t)
  obtain k w where e: "e = (k, w)" by (cases e)
  show ?case
  proof (cases "g m = g k")
    case True
    then have "e = (n, v)" using Cons.prems e by force
    then show ?thesis using True e by simp
  next
    case False
    then show ?thesis using Cons e by auto
  qed
qed simp

lemma nodes_left:
  assumes "nodes_ok s"
  defines "l \<equiv> bm_left (r_e2_nodes (s_ric s))" and "reg \<equiv> i_e2_nodes (s_iapp s)"
  shows "fst ` set l = fst ` set reg" "distinct (map (node_key \<circ> fst) l)"
    "\<forall>(k, v) \<in> set l. node_complete k"
proof -
  have m: "mset (map fst l) = mset (map fst reg)"
    using assms(1) by (simp add: nodes_ok_def bm_pairs_def l_def reg_def)
  have "set (map fst l) = set (map fst reg)" by (rule mset_eq_setD[OF m])
  then show sets: "fst ` set l = fst ` set reg" by simp
  have "mset (map node_key (map fst l)) = mset (map node_key (map fst reg))"
    by (simp only: mset_map[of node_key] m)
  moreover have "distinct (map node_key (map fst reg))"
    using assms(1) by (simp add: nodes_ok_def reg_ok_def reg_def)
  ultimately have "distinct (map node_key (map fst l))" by (metis mset_eq_imp_distinct_iff)
  then show "distinct (map (node_key \<circ> fst) l)" by simp
  have "\<forall>k \<in> fst ` set reg. node_complete k"
    using assms(1) by (auto simp: nodes_ok_def reg_ok_def reg_def)
  then have "\<forall>k \<in> fst ` set l. node_complete k" by (simp add: sets)
  then show "\<forall>(k, v) \<in> set l. node_complete k" by auto
qed

lemma node_address:
  assumes ok: "nodes_ok s" and mem: "(n, a) \<in># bm_pairs (r_e2_nodes (s_ric s))"
  shows "find_map_e2_node_sad (r_e2_nodes (s_ric s)) n = Some a"
proof -
  let ?l = "bm_left (r_e2_nodes (s_ric s))"
  have in_l: "(n, a) \<in> set ?l" using mem by (simp add: bm_pairs_def)
  have "entries_find_if (\<lambda>k. node_key n = node_key k) ?l = Some (n, a)"
    by (rule find_key[OF in_l nodes_left(2)[OF ok] refl])
  moreover have "entries_find_if_opt (eq_global_e2_node_id n) ?l
      = Some (entries_find_if (\<lambda>k. node_key n = node_key k) ?l)"
  proof (rule find_if_opt_total)
    have "node_complete n" using nodes_left(3)[OF ok] in_l by auto
    then show "\<forall>(k, v) \<in> set ?l. eq_global_e2_node_id n k = Some (node_key n = node_key k)"
      using nodes_left(3)[OF ok] eq_node_complete by auto
  qed
  ultimately show ?thesis by (simp add: find_map_e2_node_sad_def)
qed

lemma valid_node_loop_in:
  assumes "\<forall>m \<in> set ns. node_complete (nc_id m)" "node_complete n" "n \<in> nc_id ` set ns"
  shows "valid_node_loop ns n = Some True"
  using assms by (induction ns) (auto simp: eq_node_complete)

lemma valid_node:
  assumes ok: "nodes_ok s" and mem: "(n, a) \<in># bm_pairs (r_e2_nodes (s_ric s))"
    and few: "length (i_e2_nodes (s_iapp s)) < 256"
  shows "valid_global_e2_node (s_iapp s) n = Some True"
proof -
  let ?reg = "i_e2_nodes (s_iapp s)"
  let ?arr = "map (\<lambda>(n, p). \<lparr>nc_id = n, nc_cca = comp_conf_add p, nc_ack_rf = ran_func p\<rparr>) ?reg"
  have reg: "reg_ok ?reg" using ok by (simp add: nodes_ok_def)
  have n: "n \<in> fst ` set ?reg"
    unfolding nodes_left(1)[OF ok, symmetric] using mem by (force simp: bm_pairs_def)
  then have "n \<in> nc_id ` set ?arr" by (force simp: image_iff)
  moreover have "\<forall>m \<in> set ?arr. node_complete (nc_id m)" "node_complete n"
    using reg n by (auto simp: reg_ok_def)
  ultimately have "valid_node_loop ?arr n = Some True" by (intro valid_node_loop_in)
  then show ?thesis using generate_e2_node_arr_ok[OF reg few] by (simp add: valid_global_e2_node_def)
qed

lemma fresh_request:
  assumes "ids_ok s" "r_req_id (s_ric s) < 65536"
  defines "r \<equiv> r_req_id (s_ric s)"
  shows "ucast (ucast r :: u16) = r" "0 < r"
    "ric_req_id g = r \<Longrightarrow> \<lparr>pe_ev = SUBSCRIPTION_REQUEST_PENDING_EVENT, pe_id = g\<rparr> \<notin> pending_evs (s_ric s)"
    "ric_req_id g = r \<Longrightarrow> \<lparr>pe_ev = CONTROL_REQUEST_PENDING_EVENT, pe_id = g\<rparr> \<notin> pending_evs (s_ric s)"
    "(n, x) \<in># bm_pairs (i_map_ric_id (s_iapp s)) \<Longrightarrow> req_of n \<noteq> r"
  using assms ucast16_id[of r] by (auto simp: ids_ok_def word_le_nat_alt word_less_nat_alt)

subsection \<open>Requests of the xApps\<close>

lemma valid_xapp_ok:
  fixes xid :: u16
  assumes "ucast xid \<le> i_xapp_id i"
  shows "valid_xapp_id i (ucast xid) = Some True"
proof -
  have "unat xid < 2 ^ LENGTH(16)" by (rule unsigned_less)
  then have "unat xid < 65536" by simp
  then have "unat (ucast xid :: u32) < 65536"
    by (simp add: unsigned_ucast_eq take_bit_nat_eq_self)
  then show ?thesis using assms by (simp add: valid_xapp_id_def word_less_nat_alt)
qed

text \<open>The request \<open>x\<close>, recorded under the node identifier \<open>n\<close>, was sent to the node as \<open>msg\<close>.\<close>

definition issued :: "(int list \<Rightarrow> int) \<Rightarrow> pending_event_t \<Rightarrow> e2_node_ric_id_t \<Rightarrow> xapp_ric_id_t
    \<Rightarrow> sctp_info_t \<Rightarrow> e2ap_msg_t \<Rightarrow> ric_sys_t \<Rightarrow> ric_sys_t \<Rightarrow> bool" where
  "issued timerfd ev n x a msg s s' \<longleftrightarrow>
     requested timerfd \<lparr>pe_ev = ev, pe_id = er_ric_id n\<rparr> a msg (s_ric s) (s_ric s')
     \<and> r_req_id (s_ric s') = r_req_id (s_ric s) + 1
     \<and> (\<exists>m. s_iapp s' = (s_iapp s)\<lparr>i_map_ric_id := m\<rparr> \<and> map_ok m
          \<and> bm_pairs m = add_mset (n, x) (bm_pairs (i_map_ric_id (s_iapp s))))"

text \<open>A request is accepted when the number it gets, the low 16 bits of the counter, is free.\<close>

lemma subscription_request_issued:
  fixes s q
  defines "r \<equiv> ucast (ucast (r_req_id (s_ric s)) :: u16)"
  defines "g \<equiv> (sr_ric_id (esr_sr q))\<lparr>ric_req_id := r\<rparr>"
    and "x \<equiv> \<lparr>x_ric_id = sr_ric_id (esr_sr q), x_xapp_id = esr_xapp_id q\<rparr>"
  assumes "sys_inv s" "timerfd_ok timerfd"
    and "\<forall>(n, y) \<in># bm_pairs (i_map_ric_id (s_iapp s)). req_of n \<noteq> r \<and> y \<noteq> x"
    and "\<lparr>pe_ev = SUBSCRIPTION_REQUEST_PENDING_EVENT, pe_id = g\<rparr> \<notin> pending_evs (s_ric s)"
    and "ucast (esr_xapp_id q) \<le> i_xapp_id (s_iapp s)"
    and "(esr_id q, a) \<in># bm_pairs (r_e2_nodes (s_ric s))"
    and "length (i_e2_nodes (s_iapp s)) < 256"
  shows "\<exists>s'. sctp_msg_arrived_iapp timerfd s from (E42_ric_sub_req q) = Some s'
    \<and> issued timerfd SUBSCRIPTION_REQUEST_PENDING_EVENT
        \<lparr>er_node = esr_id q, er_ric_id = g, er_type = SUBSCRIPTION_RIC_REQUEST_TYPE\<rparr> x a
        (Ric_sub_req ((esr_sr q)\<lparr>sr_ric_id := g\<rparr>)) s s'"
proof -
  let ?n = "\<lparr>er_node = esr_id q, er_ric_id = g, er_type = SUBSCRIPTION_RIC_REQUEST_TYPE\<rparr>"
  have inv: "ric_inv (s_ric s)" "map_ok (i_map_ric_id (s_iapp s))" "nodes_ok s"
    using assms(4) by (auto simp: sys_inv_def)
  have gid: "ric_req_id g = r" by (simp add: g_def)
  obtain ric' where ric': "fwd_ric_subscription_request timerfd (s_ric s) (esr_id q) (esr_sr q) =
      Some (ucast (r_req_id (s_ric s)), ric')"
    "requested timerfd \<lparr>pe_ev = SUBSCRIPTION_REQUEST_PENDING_EVENT, pe_id = g\<rparr> a
       (Ric_sub_req ((esr_sr q)\<lparr>sr_ric_id := g\<rparr>)) (s_ric s) ric'"
    "r_req_id ric' = r_req_id (s_ric s) + 1"
    using fwd_ric_subscription_request_ok[OF inv(1) assms(5), of "esr_sr q" "esr_id q" a]
      assms(7) node_address[OF inv(3) assms(9)]
    by (auto simp: g_def r_def)
  obtain m where m: "add_map_ric_id (i_map_ric_id (s_iapp s)) ?n x = Some m" "map_ok m"
    "bm_pairs m = add_mset (?n, x) (bm_pairs (i_map_ric_id (s_iapp s)))"
    using add_map_ric_id_ok[OF inv(2), of ?n x] assms(6) gid by fastforce
  have "e2ap_handle_e42_ric_subscription_request_iapp timerfd s q =
      Some (no_msg, \<lparr>s_ric = ric', s_iapp = (s_iapp s)\<lparr>i_map_ric_id := m\<rparr>\<rparr>)"
    using ric'(1) m(1) valid_xapp_ok[OF assms(8)] valid_node[OF inv(3) assms(9,10)]
    by (simp add: e2ap_handle_e42_ric_subscription_request_iapp_def Let_def r_def g_def x_def)
  then have "sctp_msg_arrived_iapp timerfd s from (E42_ric_sub_req q) =
      Some \<lparr>s_ric = ric', s_iapp = (s_iapp s)\<lparr>i_map_ric_id := m\<rparr>\<rparr>"
    by (simp add: sctp_msg_arrived_iapp_def e2ap_msg_handle_iapp_def check_valid_msg_type_iapp_def)
  moreover have "\<exists>m'. (s_iapp s)\<lparr>i_map_ric_id := m\<rparr> = (s_iapp s)\<lparr>i_map_ric_id := m'\<rparr> \<and> map_ok m'
      \<and> bm_pairs m' = add_mset (?n, x) (bm_pairs (i_map_ric_id (s_iapp s)))"
    using m by (intro exI[of _ m]) simp
  ultimately show ?thesis using ric' by (simp add: issued_def)
qed

lemma control_request_issued:
  fixes s q
  defines "r \<equiv> ucast (ucast (r_req_id (s_ric s)) :: u16)"
  defines "g \<equiv> (cr_ric_id (ecr_ctrl_req q))\<lparr>ric_req_id := r\<rparr>"
    and "x \<equiv> \<lparr>x_ric_id = cr_ric_id (ecr_ctrl_req q), x_xapp_id = ecr_xapp_id q\<rparr>"
  assumes "sys_inv s" "timerfd_ok timerfd"
    and "\<forall>(n, y) \<in># bm_pairs (i_map_ric_id (s_iapp s)). req_of n \<noteq> r \<and> y \<noteq> x"
    and "\<lparr>pe_ev = CONTROL_REQUEST_PENDING_EVENT, pe_id = g\<rparr> \<notin> pending_evs (s_ric s)"
    and "ucast (ecr_xapp_id q) \<le> i_xapp_id (s_iapp s)"
    and "(ecr_id q, a) \<in># bm_pairs (r_e2_nodes (s_ric s))"
    and "length (i_e2_nodes (s_iapp s)) < 256"
  shows "\<exists>s'. sctp_msg_arrived_iapp timerfd s from (E42_ric_ctrl_req q) = Some s'
    \<and> issued timerfd CONTROL_REQUEST_PENDING_EVENT
        \<lparr>er_node = ecr_id q, er_ric_id = g, er_type = CONTROL_RIC_REQUEST_TYPE\<rparr> x a
        (Ric_ctrl_req ((ecr_ctrl_req q)\<lparr>cr_ric_id := g\<rparr>)) s s'"
proof -
  let ?n = "\<lparr>er_node = ecr_id q, er_ric_id = g, er_type = CONTROL_RIC_REQUEST_TYPE\<rparr>"
  have inv: "ric_inv (s_ric s)" "map_ok (i_map_ric_id (s_iapp s))" "nodes_ok s"
    using assms(4) by (auto simp: sys_inv_def)
  have gid: "ric_req_id g = r" by (simp add: g_def)
  obtain ric' where ric': "fwd_ric_control_request timerfd (s_ric s) (ecr_id q) (ecr_ctrl_req q) =
      Some (ucast (r_req_id (s_ric s)), ric')"
    "requested timerfd \<lparr>pe_ev = CONTROL_REQUEST_PENDING_EVENT, pe_id = g\<rparr> a
       (Ric_ctrl_req ((ecr_ctrl_req q)\<lparr>cr_ric_id := g\<rparr>)) (s_ric s) ric'"
    "r_req_id ric' = r_req_id (s_ric s) + 1"
    using fwd_ric_control_request_ok[OF inv(1) assms(5), of "ecr_ctrl_req q" "ecr_id q" a]
      assms(7) node_address[OF inv(3) assms(9)]
    by (auto simp: g_def r_def)
  obtain m where m: "add_map_ric_id (i_map_ric_id (s_iapp s)) ?n x = Some m" "map_ok m"
    "bm_pairs m = add_mset (?n, x) (bm_pairs (i_map_ric_id (s_iapp s)))"
    using add_map_ric_id_ok[OF inv(2), of ?n x] assms(6) gid by fastforce
  have "e2ap_handle_e42_ric_control_request_iapp timerfd s q =
      Some (no_msg, \<lparr>s_ric = ric', s_iapp = (s_iapp s)\<lparr>i_map_ric_id := m\<rparr>\<rparr>)"
    using ric'(1) m(1) valid_xapp_ok[OF assms(8)] valid_node[OF inv(3) assms(9,10)]
    by (simp add: e2ap_handle_e42_ric_control_request_iapp_def Let_def r_def g_def x_def)
  then have "sctp_msg_arrived_iapp timerfd s from (E42_ric_ctrl_req q) =
      Some \<lparr>s_ric = ric', s_iapp = (s_iapp s)\<lparr>i_map_ric_id := m\<rparr>\<rparr>"
    by (simp add: sctp_msg_arrived_iapp_def e2ap_msg_handle_iapp_def check_valid_msg_type_iapp_def)
  moreover have "\<exists>m'. (s_iapp s)\<lparr>i_map_ric_id := m\<rparr> = (s_iapp s)\<lparr>i_map_ric_id := m'\<rparr> \<and> map_ok m'
      \<and> bm_pairs m' = add_mset (?n, x) (bm_pairs (i_map_ric_id (s_iapp s)))"
    using m by (intro exI[of _ m]) simp
  ultimately show ?thesis using ric' by (simp add: issued_def)
qed

text \<open> C4: A subscription request of an xApp with a registered number, to a connected E2 node, whose
  identifier the xApp is not using, is accepted while fewer than 65536 identifiers were handed
  out and fewer than 256 nodes are registered: the node gets it under a new identifier that no outstanding request has, a timer waits for
  the answer, and the map relates that identifier with the xApp and the identifier it chose. \<close>

theorem subscription_request_forwarded:
  fixes s q
  defines "g \<equiv> (sr_ric_id (esr_sr q))\<lparr>ric_req_id := r_req_id (s_ric s)\<rparr>"
    and "x \<equiv> \<lparr>x_ric_id = sr_ric_id (esr_sr q), x_xapp_id = esr_xapp_id q\<rparr>"
  assumes "sys_inv s" "timerfd_ok timerfd" "r_req_id (s_ric s) < 65536"
    and "ucast (esr_xapp_id q) \<le> i_xapp_id (s_iapp s)"
    and "(esr_id q, a) \<in># bm_pairs (r_e2_nodes (s_ric s))"
    and "length (i_e2_nodes (s_iapp s)) < 256"
    and "\<forall>(n, y) \<in># bm_pairs (i_map_ric_id (s_iapp s)). y \<noteq> x"
  shows "\<exists>s'. sctp_msg_arrived_iapp timerfd s from (E42_ric_sub_req q) = Some s'
    \<and> issued timerfd SUBSCRIPTION_REQUEST_PENDING_EVENT
        \<lparr>er_node = esr_id q, er_ric_id = g, er_type = SUBSCRIPTION_RIC_REQUEST_TYPE\<rparr> x a
        (Ric_sub_req ((esr_sr q)\<lparr>sr_ric_id := g\<rparr>)) s s'"
proof -
  have ids: "ids_ok s" using assms(3) by (simp add: sys_inv_def)
  note fresh = fresh_request[OF ids assms(5)]
  have "ric_req_id g = r_req_id (s_ric s)" by (simp add: g_def)
  then show ?thesis
    using subscription_request_issued[OF assms(3,4) _ _ assms(6,7,8), of "from"] fresh(5) fresh(3)[of g] assms(9)
    unfolding g_def x_def fresh(1) by blast
qed

text \<open> C16: A control request of an xApp with a registered number, to a connected E2 node, whose
  identifier the xApp is not using, is accepted while fewer than 65536 identifiers were handed
  out and fewer than 256 nodes are registered: the node gets it under a new identifier, a timer waits for the outcome, and the map
  relates that identifier with the xApp and the identifier it chose. \<close>

theorem control_request_forwarded:
  fixes s q
  defines "g \<equiv> (cr_ric_id (ecr_ctrl_req q))\<lparr>ric_req_id := r_req_id (s_ric s)\<rparr>"
    and "x \<equiv> \<lparr>x_ric_id = cr_ric_id (ecr_ctrl_req q), x_xapp_id = ecr_xapp_id q\<rparr>"
  assumes "sys_inv s" "timerfd_ok timerfd" "r_req_id (s_ric s) < 65536"
    and "ucast (ecr_xapp_id q) \<le> i_xapp_id (s_iapp s)"
    and "(ecr_id q, a) \<in># bm_pairs (r_e2_nodes (s_ric s))"
    and "length (i_e2_nodes (s_iapp s)) < 256"
    and "\<forall>(n, y) \<in># bm_pairs (i_map_ric_id (s_iapp s)). y \<noteq> x"
  shows "\<exists>s'. sctp_msg_arrived_iapp timerfd s from (E42_ric_ctrl_req q) = Some s'
    \<and> issued timerfd CONTROL_REQUEST_PENDING_EVENT
        \<lparr>er_node = ecr_id q, er_ric_id = g, er_type = CONTROL_RIC_REQUEST_TYPE\<rparr> x a
        (Ric_ctrl_req ((ecr_ctrl_req q)\<lparr>cr_ric_id := g\<rparr>)) s s'"
proof -
  have ids: "ids_ok s" using assms(3) by (simp add: sys_inv_def)
  note fresh = fresh_request[OF ids assms(5)]
  have "ric_req_id g = r_req_id (s_ric s)" by (simp add: g_def)
  then show ?thesis
    using control_request_issued[OF assms(3,4) _ _ assms(6,7,8), of "from"] fresh(5) fresh(4)[of g] assms(9)
    unfolding g_def x_def fresh(1) by blast
qed

end
