(* ===== verification/Ric_Run.thy ===== *)
theory Ric_Run
  imports Ric_System
begin

text \<open>
  Runs of the RIC: sequences of the events its two event loops react to, with the messages sent
  to the E2 nodes and to the xApps at each of them.
\<close>

subsection \<open>Events and runs\<close>

datatype ric_event =
    From_xapp sctp_info_t e2ap_msg_t
  | Xapp_gone sctp_info_t
  | From_e2 sctp_info_t e2ap_msg_t
  | E2_gone sctp_info_t
  | Timer_expired int

text \<open>The bodies of \<^verbatim>\<open>e2_event_loop_iapp\<close> and \<^verbatim>\<open>e2_event_loop_ric\<close>.\<close>

fun ric_step :: "(int list \<Rightarrow> int) \<Rightarrow> ric_sys_t \<Rightarrow> ric_event \<Rightarrow> ric_sys_t option" where
  "ric_step timerfd s (From_xapp from msg) = sctp_msg_arrived_iapp timerfd s from msg"
| "ric_step timerfd s (Xapp_gone from) = sctp_shutdown_iapp timerfd s from"
| "ric_step timerfd s (From_e2 from msg) = sctp_msg_arrived_event timerfd s from msg"
| "ric_step timerfd s (E2_gone from) = notification_handle_ric s from"
| "ric_step timerfd s (Timer_expired fd) = pending_event_expired s fd"

definition init_ric_sys :: "(u16, sm_ric_t) entries \<Rightarrow> ric_sys_t" where
  "init_ric_sys sms = \<lparr>s_ric = init_near_ric sms, s_iapp = init_e42_iapp\<rparr>"

type_synonym sent_msgs = "(sctp_info_t \<times> e2ap_msg_t) list"

definition new_e2 :: "ric_sys_t \<Rightarrow> ric_sys_t \<Rightarrow> sent_msgs" where
  "new_e2 s s' = drop (length (r_sent (s_ric s))) (r_sent (s_ric s'))"

definition new_xapp :: "ric_sys_t \<Rightarrow> ric_sys_t \<Rightarrow> sent_msgs" where
  "new_xapp s s' = drop (length (i_sent (s_iapp s))) (i_sent (s_iapp s'))"

inductive ric_run :: "(int list \<Rightarrow> int) \<Rightarrow> ric_sys_t \<Rightarrow> (ric_event \<times> sent_msgs \<times> sent_msgs) list
    \<Rightarrow> ric_sys_t \<Rightarrow> bool" for timerfd s0 where
  run_start: "ric_run timerfd s0 [] s0"
| run_step: "ric_run timerfd s0 tr s \<Longrightarrow> ric_step timerfd s e = Some s'
    \<Longrightarrow> ric_run timerfd s0 (tr @ [(e, new_e2 s s', new_xapp s s')]) s'"

inductive_cases ric_run_snoc: "ric_run timerfd s0 (tr @ [ob]) s"

subsection \<open>What a message is about\<close>

fun answer_id :: "e2ap_msg_t \<Rightarrow> ric_gen_id_t option" where
  "answer_id (Ric_sub_resp m) = Some (sresp_ric_id m)"
| "answer_id (Ric_sub_del_resp m) = Some (sdresp_ric_id m)"
| "answer_id (Ric_ind m) = Some (ind_ric_id m)"
| "answer_id (Ric_ctrl_ack m) = Some (ack_ric_id m)"
| "answer_id (Ric_ctrl_fail m) = Some (cf_ric_id m)"
| "answer_id _ = None"

text \<open>The answer as the xApp gets it, under the identifier \<open>g\<close>.\<close>

fun readdress :: "ric_gen_id_t \<Rightarrow> e2ap_msg_t \<Rightarrow> e2ap_msg_t" where
  "readdress g (Ric_sub_resp m) = Ric_sub_resp (m\<lparr>sresp_ric_id := g\<rparr>)"
| "readdress g (Ric_sub_del_resp m) = Ric_sub_del_resp (m\<lparr>sdresp_ric_id := g\<rparr>)"
| "readdress g (Ric_ind m) = Ric_ind (m\<lparr>ind_ric_id := g\<rparr>)"
| "readdress g (Ric_ctrl_ack m) =
     Ric_ctrl_ack \<lparr>ack_ric_id = g, ack_call_process_id = None, ack_control_outcome = None\<rparr>"
| "readdress g (Ric_ctrl_fail m) = Ric_ctrl_fail (m\<lparr>cf_ric_id := g\<rparr>)"
| "readdress g m = m"

fun xapp_request :: "e2ap_msg_t \<Rightarrow> xapp_ric_id_t option" where
  "xapp_request (E42_ric_sub_req q) = Some \<lparr>x_ric_id = sr_ric_id (esr_sr q), x_xapp_id = esr_xapp_id q\<rparr>"
| "xapp_request (E42_ric_ctrl_req q) =
     Some \<lparr>x_ric_id = cr_ric_id (ecr_ctrl_req q), x_xapp_id = ecr_xapp_id q\<rparr>"
| "xapp_request _ = None"

text \<open>The request as the E2 node gets it, under the number \<open>r\<close>.\<close>

fun sent_request :: "u32 \<Rightarrow> e2ap_msg_t \<Rightarrow> e2ap_msg_t" where
  "sent_request r (E42_ric_sub_req q) =
     Ric_sub_req ((esr_sr q)\<lparr>sr_ric_id := (sr_ric_id (esr_sr q))\<lparr>ric_req_id := r\<rparr>\<rparr>)"
| "sent_request r (E42_ric_ctrl_req q) =
     Ric_ctrl_req ((ecr_ctrl_req q)\<lparr>cr_ric_id := (cr_ric_id (ecr_ctrl_req q))\<lparr>ric_req_id := r\<rparr>\<rparr>)"
| "sent_request r m = m"

subsection \<open>What the handlers do when they return\<close>

lemma find_xapp_SomeD:
  "find_xapp_map_ric_id m r = Some (Some x) \<Longrightarrow> \<exists>n. (n, x) \<in> set (bm_left m) \<and> req_of n = ucast r"
  by (auto simp: find_xapp_map_ric_id_def dest!: entries_find_if_Some split: if_splits)

lemma find_sad_SomeD: "find_map_xapps_sad m xid = Some a \<Longrightarrow> (xid, a) \<in> set (bm_left m)"
  by (auto simp: find_map_xapps_sad_def dest!: entries_find_if_Some)

lemma same_function_update:
  fixes g :: ric_gen_id_t and x :: xapp_ric_id_t
  shows "ran_func_id g = ran_func_id (x_ric_id x) \<Longrightarrow> ric_inst_id g = ric_inst_id (x_ric_id x)
    \<Longrightarrow> g\<lparr>ric_req_id := ric_req_id (x_ric_id x)\<rparr> = x_ric_id x"
  by (rule same_function_id) (simp add: same_function_def)

text \<open>Either nothing happens, or \<open>m\<close> goes to the xApp of a request that is in the map.\<close>

definition answered :: "e42_iapp_t \<Rightarrow> ric_gen_id_t \<Rightarrow> e2ap_msg_t \<Rightarrow> e42_iapp_t \<Rightarrow> bool" where
  "answered i g m i' \<longleftrightarrow> i' = i \<or>
     (\<exists>n x a mp. (n, x) \<in> set (bm_left (i_map_ric_id i)) \<and> req_of n = ucast (ucast (ric_req_id g) :: u16)
        \<and> (x_xapp_id x, a) \<in> set (bm_left (i_xapps i))
        \<and> (mp = i_map_ric_id i \<or> rm_map_ric_id (i_map_ric_id i) x = Some mp)
        \<and> i' = i\<lparr>i_sent := i_sent i @ [(a, readdress (x_ric_id x) m)], i_map_ric_id := mp\<rparr>)"

lemma answered_intro:
  assumes "find_xapp_map_ric_id (i_map_ric_id i) (ucast (ric_req_id g)) = Some (Some x)"
    and "find_map_xapps_sad (i_xapps i) (x_xapp_id x) = Some a"
    and "mp = i_map_ric_id i \<or> rm_map_ric_id (i_map_ric_id i) x = Some mp"
    and "i' = i\<lparr>i_sent := i_sent i @ [(a, readdress (x_ric_id x) m)], i_map_ric_id := mp\<rparr>"
  shows "answered i g m i'"
  using find_xapp_SomeD[OF assms(1)] find_sad_SomeD[OF assms(2)] assms(3,4)
  unfolding answered_def by blast

lemma subscription_response_answered:
  assumes "e2ap_handle_subscription_response_iapp i m = Some (ans, i')"
  shows "ans = no_msg \<and> answered i (sresp_ric_id m) (Ric_sub_resp m) i'"
proof -
  from assms obtain x a where x: "find_xapp_map_ric_id (i_map_ric_id i) (ucast (ric_req_id (sresp_ric_id m)))
      = Some (Some x)" "find_map_xapps_sad (i_xapps i) (x_xapp_id x) = Some a"
    "ran_func_id (sresp_ric_id m) = ran_func_id (x_ric_id x)"
    "ric_inst_id (sresp_ric_id m) = ric_inst_id (x_ric_id x)"
    and i': "ans = no_msg" "i' = e2ap_send_sctp_msg_iapp i a (Ric_sub_resp
        (m\<lparr>sresp_ric_id := (sresp_ric_id m)\<lparr>ric_req_id := ric_req_id (x_ric_id x)\<rparr>\<rparr>))"
    by (auto simp: e2ap_handle_subscription_response_iapp_def bind_Some_iff Let_def split: if_splits)
  show ?thesis
    using i' by (auto simp: same_function_update[OF x(3,4)] e2ap_send_sctp_msg_iapp_def
        intro!: answered_intro[OF x(1,2) disjI1[OF refl]])
qed

lemma ric_indication_answered:
  assumes "e2ap_handle_ric_indication_iapp i m = Some (ans, i')"
  shows "ans = no_msg \<and> answered i (ind_ric_id m) (Ric_ind m) i'"
proof (cases "find_xapp_map_ric_id (i_map_ric_id i) (ucast (ric_req_id (ind_ric_id m)))")
  case (Some xp)
  show ?thesis
  proof (cases xp)
    case None
    then show ?thesis using assms Some by (simp add: e2ap_handle_ric_indication_iapp_def answered_def)
  next
    case xp: (Some x)
    from assms Some xp obtain a where x: "find_map_xapps_sad (i_xapps i) (x_xapp_id x) = Some a"
      "ran_func_id (ind_ric_id m) = ran_func_id (x_ric_id x)"
      "ric_inst_id (ind_ric_id m) = ric_inst_id (x_ric_id x)"
      and i': "ans = no_msg" "i' = e2ap_send_sctp_msg_iapp i a (Ric_ind
          (m\<lparr>ind_ric_id := (ind_ric_id m)\<lparr>ric_req_id := ric_req_id (x_ric_id x)\<rparr>\<rparr>))"
      by (auto simp: e2ap_handle_ric_indication_iapp_def bind_Some_iff Let_def split: if_splits)
    show ?thesis
      using i' by (auto simp: same_function_update[OF x(2,3)] e2ap_send_sctp_msg_iapp_def
          intro!: answered_intro[OF Some[unfolded xp] x(1) disjI1[OF refl]])
  qed
qed (use assms in \<open>simp add: e2ap_handle_ric_indication_iapp_def\<close>)

lemma sdresp_update: "m\<lparr>sdresp_ric_id := v\<rparr> = \<lparr>sdresp_ric_id = v\<rparr>"
  by (cases m) simp

lemma subscription_delete_response_answered:
  assumes "e2ap_handle_subscription_delete_response_iapp i m = Some (ans, i')"
  shows "ans = no_msg \<and> answered i (sdresp_ric_id m) (Ric_sub_del_resp m) i'"
proof (cases "find_xapp_map_ric_id (i_map_ric_id i) (ucast (ric_req_id (sdresp_ric_id m)))")
  case (Some xp)
  show ?thesis
  proof (cases xp)
    case None
    then show ?thesis
      using assms Some by (simp add: e2ap_handle_subscription_delete_response_iapp_def answered_def)
  next
    case xp: (Some x)
    from assms Some xp obtain a mp where x: "find_map_xapps_sad (i_xapps i) (x_xapp_id x) = Some a"
      "rm_map_ric_id (i_map_ric_id i) x = Some mp"
      and i': "ans = no_msg" "i' = (e2ap_send_sctp_msg_iapp i a
          (Ric_sub_del_resp \<lparr>sdresp_ric_id = x_ric_id x\<rparr>))\<lparr>i_map_ric_id := mp\<rparr>"
      by (auto simp: e2ap_handle_subscription_delete_response_iapp_def bind_Some_iff Let_def
          e2ap_send_sctp_msg_iapp_def split: if_splits)
    show ?thesis
      using i' by (auto simp: e2ap_send_sctp_msg_iapp_def sdresp_update
          intro!: answered_intro[OF Some[unfolded xp] x(1) disjI2[OF x(2)]])
  qed
qed (use assms in \<open>simp add: e2ap_handle_subscription_delete_response_iapp_def\<close>)

lemma control_ack_answered:
  assumes "e2ap_handle_e42_ric_control_ack_iapp i m = Some (ans, i')"
  shows "ans = no_msg \<and> answered i (ack_ric_id m) (Ric_ctrl_ack m) i'"
proof -
  from assms obtain x a mp where x: "find_xapp_map_ric_id (i_map_ric_id i) (ucast (ric_req_id (ack_ric_id m)))
      = Some (Some x)" "find_map_xapps_sad (i_xapps i) (x_xapp_id x) = Some a"
    "rm_map_ric_id (i_map_ric_id i) x = Some mp"
    and i': "ans = no_msg" "i' = (e2ap_send_sctp_msg_iapp i a (Ric_ctrl_ack \<lparr>ack_ric_id = x_ric_id x,
        ack_call_process_id = None, ack_control_outcome = None\<rparr>))\<lparr>i_map_ric_id := mp\<rparr>"
    by (auto simp: e2ap_handle_e42_ric_control_ack_iapp_def bind_Some_iff Let_def
        e2ap_send_sctp_msg_iapp_def split: if_splits)
  show ?thesis
    using i' by (auto simp: e2ap_send_sctp_msg_iapp_def
        intro!: answered_intro[OF x(1,2) disjI2[OF x(3)]])
qed

lemma control_failure_answered:
  assumes "e2ap_handle_e42_ric_control_failure_iapp i m = Some (ans, i')"
  shows "ans = no_msg \<and> answered i (cf_ric_id m) (Ric_ctrl_fail m) i'"
proof -
  from assms obtain x a mp where x: "find_xapp_map_ric_id (i_map_ric_id i) (ucast (ric_req_id (cf_ric_id m)))
      = Some (Some x)" "find_map_xapps_sad (i_xapps i) (x_xapp_id x) = Some a"
    "rm_map_ric_id (i_map_ric_id i) x = Some mp"
    and i': "ans = no_msg" "i' = (e2ap_send_sctp_msg_iapp i a
        (Ric_ctrl_fail (m\<lparr>cf_ric_id := x_ric_id x\<rparr>)))\<lparr>i_map_ric_id := mp\<rparr>"
    by (auto simp: e2ap_handle_e42_ric_control_failure_iapp_def bind_Some_iff Let_def
        e2ap_send_sctp_msg_iapp_def split: if_splits)
  show ?thesis
    using i' by (auto simp: e2ap_send_sctp_msg_iapp_def
        intro!: answered_intro[OF x(1,2) disjI2[OF x(3)]])
qed

lemmas answers = subscription_response_answered ric_indication_answered
  subscription_delete_response_answered control_ack_answered control_failure_answered

lemma answer_iapp:
  assumes "answer_id m = Some g" "handle_msg_iapp timerfd s m = Some (ans, s')"
  shows "ans = no_msg \<and> (\<exists>i'. s' = s\<lparr>s_iapp := i'\<rparr> \<and> answered (s_iapp s) g m i')"
  using assms by (cases m) (auto simp: on_iapp_def bind_Some_iff dest!: answers)

lemma notify_answered:
  assumes "answer_id m = Some g" "notify_msg_iapp timerfd s m = Some s'"
  shows "\<exists>i'. s' = s\<lparr>s_iapp := i'\<rparr> \<and> answered (s_iapp s) g m i'"
  using assms answer_iapp[OF assms(1)]
  by (auto simp: notify_msg_iapp_def e2ap_msg_handle_iapp_def bind_Some_iff split: if_splits)

subsection \<open>What one event changes\<close>

lemma entries_extract_subset: "entries_extract cmp k t = Some (w, t') \<Longrightarrow> set t' \<subseteq> set t"
  by (induction cmp k t arbitrary: t' rule: entries_extract.induct)
    (auto simp: bind_Some_iff split: if_splits)

lemma rm_map_ric_id_subset: "rm_map_ric_id m x = Some m' \<Longrightarrow> set (bm_left m') \<subseteq> set (bm_left m)"
  by (auto simp: rm_map_ric_id_def bi_map_extract_right_def bind_Some_iff split: if_splits
      dest!: entries_extract_subset)

lemma add_map_ric_id_left: "add_map_ric_id m n x = Some m' \<Longrightarrow> set (bm_left m') = insert (n, x) (set (bm_left m))"
  by (auto simp: add_map_ric_id_def bi_map_insert_def bind_Some_iff Let_def split: if_splits)

lemma add_map_xapps_left: "add_map_xapps_sad m k v = Some m' \<Longrightarrow> set (bm_left m') = insert (k, v) (set (bm_left m))"
  by (auto simp: add_map_xapps_sad_def bi_map_insert_def bind_Some_iff Let_def split: if_splits)

lemma add_pending_sent: "add_pending timerfd ric ev = Some ric' \<Longrightarrow> r_sent ric' = r_sent ric"
  by (auto simp: add_pending_def create_timer_ms_asio_ric_def add_fd_asio_ric_def bind_Some_iff Let_def
      split: if_splits)

lemma fwd_subscription_sent:
  "fwd_ric_subscription_request timerfd ric nid sr = Some (r, ric') \<Longrightarrow>
    \<exists>a. r_sent ric' = r_sent ric @ [(a, Ric_sub_req (sr\<lparr>sr_ric_id := (sr_ric_id sr)\<lparr>ric_req_id := ucast r\<rparr>\<rparr>))]"
  by (auto simp: fwd_ric_subscription_request_def next_req_id_def e2ap_send_bytes_ric_def bind_Some_iff
      Let_def dest!: add_pending_sent)

lemma fwd_control_sent:
  "fwd_ric_control_request timerfd ric nid cr = Some (r, ric') \<Longrightarrow>
    \<exists>a. r_sent ric' = r_sent ric @ [(a, Ric_ctrl_req (cr\<lparr>cr_ric_id := (cr_ric_id cr)\<lparr>ric_req_id := ucast r\<rparr>\<rparr>))]"
  by (auto simp: fwd_ric_control_request_def next_req_id_def e2ap_send_bytes_ric_def bind_Some_iff
      Let_def dest!: add_pending_sent)

text \<open>The effect of an event that the history needs: new entries of the maps and answers sent.\<close>

definition new_request :: "ric_event \<Rightarrow> e2_node_ric_id_t \<Rightarrow> xapp_ric_id_t \<Rightarrow> sent_msgs \<Rightarrow> bool" where
  "new_request e n x oe \<longleftrightarrow> (\<exists>from q a. e = From_xapp from q \<and> xapp_request q = Some x
     \<and> (a, sent_request (req_of n) q) \<in> set oe)"

definition new_setup :: "ric_event \<Rightarrow> u16 \<Rightarrow> sctp_info_t \<Rightarrow> sent_msgs \<Rightarrow> bool" where
  "new_setup e xid a ox \<longleftrightarrow> (\<exists>q resp. e = From_xapp a (E42_stp_req q)
     \<and> (a, E42_stp_resp resp) \<in> set ox \<and> e42_xapp_id resp = xid)"

definition effect :: "ric_sys_t \<Rightarrow> ric_event \<Rightarrow> ric_sys_t \<Rightarrow> bool" where
  "effect s e s' \<longleftrightarrow>
     (\<forall>(n, x) \<in> set (bm_left (i_map_ric_id (s_iapp s'))).
        (n, x) \<in> set (bm_left (i_map_ric_id (s_iapp s))) \<or> new_request e n x (new_e2 s s'))
     \<and> (\<forall>(xid, a) \<in> set (bm_left (i_xapps (s_iapp s'))).
        (xid, a) \<in> set (bm_left (i_xapps (s_iapp s))) \<or> new_setup e xid a (new_xapp s s'))
     \<and> (\<forall>(d, m') \<in> set (new_xapp s s'). answer_id m' \<noteq> None \<longrightarrow>
        (\<exists>src m g n x. (e = From_e2 src m \<or> e = From_xapp src m) \<and> answer_id m = Some g
           \<and> (n, x) \<in> set (bm_left (i_map_ric_id (s_iapp s)))
           \<and> req_of n = ucast (ucast (ric_req_id g) :: u16)
           \<and> (x_xapp_id x, d) \<in> set (bm_left (i_xapps (s_iapp s)))
           \<and> m' = readdress (x_ric_id x) m))"

lemma effect_ric_only:
  "s_iapp s' = (s_iapp s)\<lparr>i_e2_nodes := r\<rparr> \<Longrightarrow> effect s e s'"
  by (auto simp: effect_def new_xapp_def)

lemma effect_answered:
  assumes "answered (s_iapp s) g m (s_iapp s')" "answer_id m = Some g"
    and "e = From_e2 src m \<or> e = From_xapp src m"
  shows "effect s e s'"
proof -
  consider "s_iapp s' = s_iapp s" | n x a mp where "(n, x) \<in> set (bm_left (i_map_ric_id (s_iapp s)))"
    "req_of n = ucast (ucast (ric_req_id g) :: u16)" "(x_xapp_id x, a) \<in> set (bm_left (i_xapps (s_iapp s)))"
    "set (bm_left mp) \<subseteq> set (bm_left (i_map_ric_id (s_iapp s)))"
    "s_iapp s' = (s_iapp s)\<lparr>i_sent := i_sent (s_iapp s) @ [(a, readdress (x_ric_id x) m)], i_map_ric_id := mp\<rparr>"
    using assms(1) rm_map_ric_id_subset unfolding answered_def by blast
  then show ?thesis
  proof cases
    case 1
    then show ?thesis by (auto simp: effect_def new_xapp_def)
  next
    case 2
    show ?thesis
      unfolding effect_def
    proof (intro conjI)
      show "\<forall>(d, m') \<in> set (new_xapp s s'). answer_id m' \<noteq> None \<longrightarrow>
        (\<exists>src m g n x. (e = From_e2 src m \<or> e = From_xapp src m) \<and> answer_id m = Some g
           \<and> (n, x) \<in> set (bm_left (i_map_ric_id (s_iapp s)))
           \<and> req_of n = ucast (ucast (ric_req_id g) :: u16)
           \<and> (x_xapp_id x, d) \<in> set (bm_left (i_xapps (s_iapp s)))
           \<and> m' = readdress (x_ric_id x) m)"
        using 2(1-3) assms(2,3) by (auto simp: new_xapp_def 2(5)) blast+
    qed (use 2(4) in \<open>auto simp: 2(5)\<close>)
  qed
qed

lemma effect_iapp_same: "s_iapp s' = s_iapp s \<Longrightarrow> effect s e s'"
  by (auto simp: effect_def new_xapp_def)

lemma subscription_request_effect:
  assumes "e2ap_handle_e42_ric_subscription_request_iapp timerfd s q = Some (ans, s')"
  shows "ans = no_msg \<and> effect s (From_xapp from (E42_ric_sub_req q)) s'"
proof -
  from assms obtain r ric m n where f: "fwd_ric_subscription_request timerfd (s_ric s) (esr_id q) (esr_sr q) = Some (r, ric)"
    and n: "n = \<lparr>er_node = esr_id q, er_ric_id = (sr_ric_id (esr_sr q))\<lparr>ric_req_id := ucast r\<rparr>,
      er_type = SUBSCRIPTION_RIC_REQUEST_TYPE\<rparr>"
    and m: "add_map_ric_id (i_map_ric_id (s_iapp s)) n
      \<lparr>x_ric_id = sr_ric_id (esr_sr q), x_xapp_id = esr_xapp_id q\<rparr> = Some m"
    and s': "ans = no_msg" "s' = \<lparr>s_ric = ric, s_iapp = (s_iapp s)\<lparr>i_map_ric_id := m\<rparr>\<rparr>"
    by (auto simp: e2ap_handle_e42_ric_subscription_request_iapp_def bind_Some_iff Let_def split: if_splits)
  obtain a where "r_sent ric = r_sent (s_ric s) @ [(a, sent_request (req_of n) (E42_ric_sub_req q))]"
    using fwd_subscription_sent[OF f] by (auto simp: n)
  then have "new_request (From_xapp from (E42_ric_sub_req q)) n
      \<lparr>x_ric_id = sr_ric_id (esr_sr q), x_xapp_id = esr_xapp_id q\<rparr> (new_e2 s s')"
    by (auto simp: new_request_def new_e2_def s')
  then show ?thesis
    using add_map_ric_id_left[OF m] by (auto simp: effect_def s' new_xapp_def)
qed

lemma control_request_effect:
  assumes "e2ap_handle_e42_ric_control_request_iapp timerfd s q = Some (ans, s')"
  shows "ans = no_msg \<and> effect s (From_xapp from (E42_ric_ctrl_req q)) s'"
proof -
  from assms obtain r ric m n where f: "fwd_ric_control_request timerfd (s_ric s) (ecr_id q) (ecr_ctrl_req q) = Some (r, ric)"
    and n: "n = \<lparr>er_node = ecr_id q, er_ric_id = (cr_ric_id (ecr_ctrl_req q))\<lparr>ric_req_id := ucast r\<rparr>,
      er_type = CONTROL_RIC_REQUEST_TYPE\<rparr>"
    and m: "add_map_ric_id (i_map_ric_id (s_iapp s)) n
      \<lparr>x_ric_id = cr_ric_id (ecr_ctrl_req q), x_xapp_id = ecr_xapp_id q\<rparr> = Some m"
    and s': "ans = no_msg" "s' = \<lparr>s_ric = ric, s_iapp = (s_iapp s)\<lparr>i_map_ric_id := m\<rparr>\<rparr>"
    by (auto simp: e2ap_handle_e42_ric_control_request_iapp_def bind_Some_iff Let_def split: if_splits)
  obtain a where "r_sent ric = r_sent (s_ric s) @ [(a, sent_request (req_of n) (E42_ric_ctrl_req q))]"
    using fwd_control_sent[OF f] by (auto simp: n)
  then have "new_request (From_xapp from (E42_ric_ctrl_req q)) n
      \<lparr>x_ric_id = cr_ric_id (ecr_ctrl_req q), x_xapp_id = ecr_xapp_id q\<rparr> (new_e2 s s')"
    by (auto simp: new_request_def new_e2_def s')
  then show ?thesis
    using add_map_ric_id_left[OF m] by (auto simp: effect_def s' new_xapp_def)
qed

lemma setup_effect:
  assumes "e2ap_handle_e42_setup_request_iapp (s_iapp s) q = Some (ans, i)"
    and "ans = E42_stp_resp resp" "e2ap_reg_sock_addr_iapp i (e42_xapp_id resp) from = Some i'"
  shows "effect s (From_xapp from (E42_stp_req q)) (s\<lparr>s_iapp := e2ap_send_sctp_msg_iapp i' from ans\<rparr>)"
proof -
  obtain m where m: "add_map_xapps_sad (i_xapps (s_iapp s)) (e42_xapp_id resp) from = Some m"
    and i': "i' = (s_iapp s)\<lparr>i_xapp_id := i_xapp_id (s_iapp s) + 1, i_xapps := m\<rparr>"
    using assms by (auto simp: e2ap_handle_e42_setup_request_iapp_def generate_setup_response_iapp_def
        e2ap_reg_sock_addr_iapp_def bind_Some_iff split: if_splits)
  show ?thesis
    using add_map_xapps_left[OF m] assms(2)
    by (auto simp: effect_def i' e2ap_send_sctp_msg_iapp_def new_xapp_def new_setup_def)
qed

lemma from_xapp_effect:
  assumes "sctp_msg_arrived_iapp timerfd s from msg = Some s'"
  shows "effect s (From_xapp from msg) s'"
proof -
  from assms obtain ans t where h: "handle_msg_iapp timerfd s msg = Some (ans, t)"
    and s': "(case ans of E42_stp_resp resp \<Rightarrow> e2ap_reg_sock_addr_iapp (s_iapp t) (e42_xapp_id resp) from
       | _ \<Rightarrow> Some (s_iapp t)) \<bind> (\<lambda>i. Some (t\<lparr>s_iapp :=
         if msg_type ans \<noteq> NONE_E2_MSG_TYPE then e2ap_send_sctp_msg_iapp i from ans else i\<rparr>)) = Some s'"
    by (auto simp: sctp_msg_arrived_iapp_def e2ap_msg_handle_iapp_def bind_Some_iff Let_def split: if_splits)
  have quiet: "s' = t" if "ans = no_msg" using s' that by (cases t) simp
  show ?thesis
  proof (cases "answer_id msg")
    case (Some g)
    then show ?thesis
      using answer_iapp[OF Some h] quiet by (auto intro: effect_answered[OF _ Some])
  next
    case None
    show ?thesis
    proof (cases msg)
      case (E42_stp_req q)
      with h obtain i where i: "e2ap_handle_e42_setup_request_iapp (s_iapp s) q = Some (ans, i)" "t = s\<lparr>s_iapp := i\<rparr>"
        by (auto simp: on_iapp_def bind_Some_iff)
      then obtain resp where ans: "ans = E42_stp_resp resp"
        by (auto simp: e2ap_handle_e42_setup_request_iapp_def bind_Some_iff)
      with s' i(2) obtain i' where "e2ap_reg_sock_addr_iapp i (e42_xapp_id resp) from = Some i'"
        "s' = s\<lparr>s_iapp := e2ap_send_sctp_msg_iapp i' from ans\<rparr>"
        by (auto simp: bind_Some_iff)
      then show ?thesis using setup_effect[OF i(1) ans] E42_stp_req by simp
    next
      case (E42_ric_sub_req q)
      then show ?thesis using h quiet subscription_request_effect[of timerfd s q ans t] by auto
    next
      case (E42_ric_ctrl_req q)
      then show ?thesis using h quiet control_request_effect[of timerfd s q ans t] by auto
    next
      case (E42_ric_sub_del_req q)
      then show ?thesis
        using h quiet by (auto simp: e2ap_handle_e42_ric_subscription_delete_request_iapp_def bind_Some_iff
            Let_def split: if_splits intro!: effect_iapp_same)
    qed (use None h in auto)
  qed
qed

lemma from_e2_effect:
  assumes "sctp_msg_arrived_event timerfd s from msg = Some s'"
  shows "effect s (From_e2 from msg) s'"
proof -
  from assms obtain ric ans t where h: "handle_msg_ric timerfd (s\<lparr>s_ric := ric\<rparr>) msg = Some (ans, t)"
    and s': "s_iapp s' = s_iapp t"
    by (auto simp: sctp_msg_arrived_event_def e2ap_msg_handle_ric_def bind_Some_iff split: if_splits)
  show ?thesis
  proof (cases "answer_id msg")
    case (Some g)
    have "\<exists>ric'. notify_msg_iapp timerfd (s\<lparr>s_ric := ric'\<rparr>) msg = Some t"
      using h Some by (cases msg) (auto simp: e2ap_handle_subscription_response_ric_def
          e2ap_handle_subscription_delete_response_ric_def e2ap_handle_indication_ric_def
          e2ap_handle_control_ack_ric_def e2ap_handle_control_failure_ric_def bind_Some_iff Let_def
          split: if_splits)
    then have "answered (s_iapp s) g msg (s_iapp t)" using notify_answered[OF Some] by fastforce
    then show ?thesis using s' by (intro effect_answered[OF _ Some]) auto
  next
    case None
    then obtain r where "s_iapp t = (s_iapp s)\<lparr>i_e2_nodes := r\<rparr>"
      using h by (cases msg) (auto simp: e2ap_handle_setup_request_ric_def add_e2_node_iapp_def
          bind_Some_iff Let_def split: if_splits)
    then show ?thesis using s' by (intro effect_ric_only) simp
  qed
qed

lemma step_effect:
  assumes "ric_step timerfd s e = Some s'"
  shows "effect s e s'"
proof (cases e)
  case (From_xapp src msg)
  then show ?thesis using assms from_xapp_effect by simp
next
  case (Xapp_gone src)
  then show ?thesis
    using assms by (auto simp: sctp_shutdown_iapp_def rm_if_pending_subs_def bind_Some_iff Let_def
        intro!: effect_iapp_same)
next
  case (From_e2 src msg)
  then show ?thesis using assms from_e2_effect by simp
next
  case (E2_gone src)
  then show ?thesis
    using assms by (auto simp: notification_handle_ric_def rm_e2_node_iapp_def bind_Some_iff Let_def
        effect_def new_xapp_def)
next
  case (Timer_expired fd)
  then show ?thesis
    using assms by (auto simp: pending_event_expired_def bind_Some_iff intro!: effect_iapp_same)
qed

subsection \<open>Every entry of the maps and every answer has a history\<close>

definition request_in :: "(ric_event \<times> sent_msgs \<times> sent_msgs) list \<Rightarrow> u32 \<Rightarrow> xapp_ric_id_t \<Rightarrow> bool" where
  "request_in tr r x \<longleftrightarrow> (\<exists>from q oe ox a. (From_xapp from q, oe, ox) \<in> set tr
     \<and> xapp_request q = Some x \<and> (a, sent_request r q) \<in> set oe)"

definition setup_in :: "(ric_event \<times> sent_msgs \<times> sent_msgs) list \<Rightarrow> u16 \<Rightarrow> sctp_info_t \<Rightarrow> bool" where
  "setup_in tr xid a \<longleftrightarrow> (\<exists>q oe ox resp. (From_xapp a (E42_stp_req q), oe, ox) \<in> set tr
     \<and> (a, E42_stp_resp resp) \<in> set ox \<and> e42_xapp_id resp = xid)"

lemma in_snoc:
  "request_in (tr @ [(e, oe, ox)]) r x \<longleftrightarrow> request_in tr r x
     \<or> (\<exists>from q a. e = From_xapp from q \<and> xapp_request q = Some x \<and> (a, sent_request r q) \<in> set oe)"
  "setup_in (tr @ [(e, oe, ox)]) xid d \<longleftrightarrow> setup_in tr xid d \<or> new_setup e xid d ox"
  by (simp add: request_in_def, blast) (simp add: setup_in_def new_setup_def, blast)

lemma run_history:
  assumes "ric_run timerfd (init_ric_sys sms) tr s"
  shows "(\<forall>(n, x) \<in> set (bm_left (i_map_ric_id (s_iapp s))). request_in tr (req_of n) x)
    \<and> (\<forall>(xid, a) \<in> set (bm_left (i_xapps (s_iapp s))). setup_in tr xid a)"
  using assms
proof induction
  case run_start
  then show ?case
    by (simp add: init_ric_sys_def init_e42_iapp_def init_map_xapps_sad_def init_map_ric_id_def bi_map_init_def)
next
  case (run_step tr s e s')
  show ?case
    using step_effect[OF run_step.hyps(2)] run_step.IH
    by (fastforce simp: effect_def in_snoc new_request_def)
qed

text \<open> C1: In every run of the RIC from its start, whatever the E2 nodes and the xApps send, each answer
  (response, deletion response, indication, acknowledgement or failure) that leaves for an address
  is the forwarding of an answer that just arrived under a number \<open>r\<close>, and earlier in the run an
  xApp made the request that was sent to an E2 node under \<open>r\<close>, and that xApp had been given its
  number at that very address; the answer carries the identifier the xApp had chosen. \<close>

theorem answers_reach_their_xapp:
  assumes "ric_run timerfd (init_ric_sys sms) (tr @ [(e, oe, ox)]) s"
    and "(d, m') \<in> set ox" "answer_id m' \<noteq> None"
  shows "\<exists>src m g x. (e = From_e2 src m \<or> e = From_xapp src m) \<and> answer_id m = Some g
    \<and> request_in tr (ucast (ucast (ric_req_id g) :: u16)) x \<and> setup_in tr (x_xapp_id x) d
    \<and> m' = readdress (x_ric_id x) m"
proof -
  obtain t where t: "ric_run timerfd (init_ric_sys sms) tr t" "ric_step timerfd t e = Some s"
    "ox = new_xapp t s"
    using assms(1) by (auto elim: ric_run_snoc)
  show ?thesis
    using step_effect[OF t(2)] run_history[OF t(1)] assms(2,3) t(3) unfolding effect_def by fastforce
qed

subsection \<open>A run\<close>

text \<open>\<open>exec\<close> runs a list of events.\<close>

fun exec :: "(int list \<Rightarrow> int) \<Rightarrow> ric_sys_t \<Rightarrow> ric_event list
    \<Rightarrow> ((ric_event \<times> sent_msgs \<times> sent_msgs) list \<times> ric_sys_t) option" where
  "exec timerfd s [] = Some ([], s)"
| "exec timerfd s (e # es) = do {
     s' \<leftarrow> ric_step timerfd s e;
     (tr, s'') \<leftarrow> exec timerfd s' es;
     Some ((e, new_e2 s s', new_xapp s s') # tr, s'')
   }"

lemma exec_run:
  "ric_run timerfd s0 tr0 s \<Longrightarrow> exec timerfd s es = Some (tr, s') \<Longrightarrow> ric_run timerfd s0 (tr0 @ tr) s'"
proof (induction es arbitrary: tr0 s tr)
  case (Cons e es)
  then obtain t tr' where t: "ric_step timerfd s e = Some t" "exec timerfd t es = Some (tr', s')"
    "tr = (e, new_e2 s t, new_xapp s t) # tr'"
    by (auto simp: bind_Some_iff)
  show ?case
    using Cons.IH[OF run_step[OF Cons.prems(1) t(1)] t(2)] by (simp add: t(3))
qed simp

definition max_fd :: "int list \<Rightarrow> int" where
  "max_fd fds = foldr max fds 0 + 1"

lemma max_fd_ok: "timerfd_ok max_fd"
proof -
  have "fd \<in> set fds \<Longrightarrow> fd \<le> foldr max fds 0" "0 \<le> foldr max fds 0" for fd :: int and fds
    by (induction fds) auto
  then show ?thesis by (fastforce simp: timerfd_ok_def max_fd_def)
qed

definition e2_addr :: sctp_info_t where
  "e2_addr = \<lparr>sin_family = 2, sin_port = 100, sin_addr = 1\<rparr>"

definition xapp_addr :: sctp_info_t where
  "xapp_addr = \<lparr>sin_family = 2, sin_port = 200, sin_addr = 1\<rparr>"

definition sample_sm :: sm_ric_t where
  "sample_sm = \<lparr>sm_ran_func_id = 2,
     on_subscription = (\<lambda>cmd. \<lparr>sd_event_trigger = cmd, sd_action_def = None\<rparr>),
     on_control_req = (\<lambda>ctrl. \<lparr>cd_ctrl_hdr = [], cd_ctrl_msg = ctrl\<rparr>),
     on_indication = (\<lambda>d. \<lparr>rd_type = MAC_STATS_V0, rd_data = id_ind_msg d\<rparr>)\<rparr>"

definition sample_sub :: ric_subscription_request_t where
  "sample_sub = \<lparr>sr_ric_id = \<lparr>ric_req_id = 1, ric_inst_id = 0, ran_func_id = 2\<rparr>, event_trigger = [1],
     sr_action = []\<rparr>"

definition sample_resp :: ric_subscription_response_t where
  "sample_resp = \<lparr>sresp_ric_id = \<lparr>ric_req_id = 1021, ric_inst_id = 0, ran_func_id = 2\<rparr>,
     admitted = [\<lparr>adm_ric_act_id = 0\<rparr>], not_admitted = []\<rparr>"

definition sample_events :: "ric_event list" where
  "sample_events =
     [From_e2 e2_addr (E2_stp_req \<lparr>stp_trans_id = 0, stp_id = sample_node, stp_ran_func_item = [sample_rf],
        stp_comp_conf_add = [sample_cca]\<rparr>),
      From_xapp xapp_addr (E42_stp_req \<lparr>e42_ran_func_item = [sample_rf]\<rparr>),
      From_xapp xapp_addr (E42_ric_sub_req \<lparr>esr_xapp_id = 7, esr_id = sample_node, esr_sr = sample_sub\<rparr>),
      From_e2 e2_addr (Ric_sub_resp sample_resp)]"

lemma sample_exec:
  "(case exec max_fd (init_ric_sys [(2, sample_sm)]) sample_events of
      Some (tr, s) \<Rightarrow> length tr = 4 \<and> snd (snd (last tr)) =
        [(xapp_addr, Ric_sub_resp (sample_resp\<lparr>sresp_ric_id := sr_ric_id sample_sub\<rparr>))]
    | None \<Rightarrow> False)"
  by code_simp

end
