(* ===== verification/Ric_Invariant.thy ===== *)
theory Ric_Invariant
  imports Ric_Run
begin

text \<open>
  Every event keeps the invariant \<open>sys_inv\<close> of the RIC, under what \<open>env_ok\<close> asks of the peers:
  an address connects once, an xApp does not reuse the identifier of an outstanding request,
  an E2 node announces at most 255 component configurations.
\<close>

definition env_ok :: "ric_sys_t \<Rightarrow> ric_event \<Rightarrow> bool" where
  "env_ok s e = (case e of
       From_xapp from (E42_stp_req q) \<Rightarrow> \<forall>(xid, a) \<in># bm_pairs (i_xapps (s_iapp s)). a \<noteq> from
     | From_xapp from (E42_ric_sub_req q) \<Rightarrow> \<forall>(n, y) \<in># bm_pairs (i_map_ric_id (s_iapp s)).
         y \<noteq> \<lparr>x_ric_id = sr_ric_id (esr_sr q), x_xapp_id = esr_xapp_id q\<rparr>
     | From_xapp from (E42_ric_ctrl_req q) \<Rightarrow> \<forall>(n, y) \<in># bm_pairs (i_map_ric_id (s_iapp s)).
         y \<noteq> \<lparr>x_ric_id = cr_ric_id (ecr_ctrl_req q), x_xapp_id = ecr_xapp_id q\<rparr>
     | From_e2 from (E2_stp_req q) \<Rightarrow> (\<forall>(n, a) \<in># bm_pairs (r_e2_nodes (s_ric s)). a \<noteq> from)
         \<and> length (stp_comp_conf_add q) < 256
     | _ \<Rightarrow> True)"

subsection \<open>Removing from and adding to the maps\<close>

context bimap_cmps
begin

lemma extract_right_inv:
  assumes "bm_ok cmp1 cmp2 m" "bi_map_extract_right m k2 = Some (k1, m')"
  shows "\<exists>k2'. cmp2 k2 k2' = 0 \<and> bm_ok cmp1 cmp2 m' \<and> bm_pairs m = add_mset (k1, k2') (bm_pairs m')"
proof -
  obtain r where "entries_extract cmp2 k2 (bm_right m) = Some (k1, r)"
    using assms by (auto simp: bi_map_extract_right_def bm_ok_def bind_Some_iff split: if_splits)
  from entries_extract_SomeD[OF this] obtain k2' where k2': "(k2', k1) \<in> set (bm_right m)" "cmp2 k2 k2' = 0"
    by auto
  have bi: "bi_map_inv m" using assms(1) by (simp add: bm_ok_def)
  have "(k1, k2') \<in># bm_pairs m" using right_pairs[OF bi, of k2' k1] k2'(1) by simp
  from ok_extract_right[OF assms(1) this k2'(2)]
  obtain mm where mm: "bi_map_extract_right m k2 = Some (k1, mm)" "bm_ok cmp1 cmp2 mm"
    "bm_pairs m = add_mset (k1, k2') (bm_pairs mm)" by blast
  have "mm = m'" using mm(1) assms(2) by simp
  with mm k2'(2) show ?thesis by blast
qed

end

lemma rm_map_ric_id_inv:
  assumes "map_ok m" "rm_map_ric_id m x = Some m'"
  shows "map_ok m' \<and> set_mset (bm_pairs m') \<subseteq> set_mset (bm_pairs m)"
proof -
  obtain n where "bi_map_extract_right m x = Some (n, m')"
    using assms(2) by (auto simp: rm_map_ric_id_def bind_Some_iff)
  from rid_map.extract_right_inv[OF assms(1) this] show ?thesis by auto
qed

lemma add_map_ric_id_inv:
  assumes "map_ok m" "add_map_ric_id m n x = Some m'" "\<forall>(n', y) \<in># bm_pairs m. y \<noteq> x"
  shows "map_ok m' \<and> bm_pairs m' = add_mset (n, x) (bm_pairs m)"
proof -
  have "req_of n' \<noteq> req_of n" if "(n', x') \<in># bm_pairs m" for n' x'
    using add_map_ric_id_taken[OF that] assms(2) by force
  then show ?thesis using add_map_ric_id_ok[OF assms(1), of n x] assms(2,3) by fastforce
qed

lemma add_map_xapps_sad_inv:
  assumes "sad_ok m" "add_map_xapps_sad m k a = Some m'" "\<forall>(k', b) \<in># bm_pairs m. b \<noteq> a"
  shows "sad_ok m'"
proof -
  have "bi_map_insert m k a = Some m'" and none: "entries_find_if (\<lambda>k'. k = k') (bm_left m) = None"
    using assms(2) by (auto simp: add_map_xapps_sad_def split: if_splits)
  moreover have "cmp_uint16_wrapper k k' \<noteq> 0 \<and> cmp_sctp_info_wrapper a b \<noteq> 0" if "(k', b) \<in># bm_pairs m" for k' b
    using that none assms(3) unfolding entries_find_if_None by (force simp: bm_pairs_def)
  ultimately show ?thesis using sad_map.ok_insert[OF assms(1), of k a] by auto
qed

lemma add_map_e2_node_inv:
  assumes "bm_ok cmp_global_e2_node_id_wrapper cmp_sctp_info_wrapper m"
    and "add_map_e2_node_sad m n a = Some m'"
    and "\<forall>(n', b) \<in># bm_pairs m. node_key n' \<noteq> node_key n \<and> b \<noteq> a"
  shows "bm_ok cmp_global_e2_node_id_wrapper cmp_sctp_info_wrapper m' \<and> bm_pairs m' = add_mset (n, a) (bm_pairs m)
    \<and> node_complete n"
proof -
  have ins: "bi_map_insert m n a = Some m'" and c: "cmp_global_e2_node_id n n \<noteq> None"
    using assms(2) by (auto simp: add_map_e2_node_sad_def Let_def split: if_splits)
  have "cmp_global_e2_node_id_wrapper n n' \<noteq> 0 \<and> cmp_sctp_info_wrapper a b \<noteq> 0" if "(n', b) \<in># bm_pairs m" for n' b
    using that assms(3) cmp_node_zero_key[of n n'] by fastforce
  then have "bm_ok cmp_global_e2_node_id_wrapper cmp_sctp_info_wrapper m' \<and> bm_pairs m' = add_mset (n, a) (bm_pairs m)"
    using e2_map.ok_insert[OF assms(1), of n a] ins by auto
  moreover have "node_complete n"
    using c by (auto simp: cmp_global_e2_node_id_def node_complete_def Let_def plmn_cmp.cmp_self
        split: option.splits if_splits)
  ultimately show ?thesis by simp
qed

subsection \<open>Forwarded requests\<close>

lemma requested_pending: "requested timerfd ev a msg ric ric' \<Longrightarrow> pending_evs ric' = insert ev (pending_evs ric)"
  by (auto simp: requested_def pending_evs_def)

lemma stopped_pending: "stopped ev ric ric' \<Longrightarrow> pending_evs ric' \<subseteq> pending_evs ric"
  by (auto simp: stopped_def pending_evs_def)

lemma send_bytes_address:
  "e2ap_send_bytes_ric ric n m = Some ric' \<Longrightarrow> \<exists>a. find_map_e2_node_sad (r_e2_nodes ric) n = Some a"
  by (auto simp: e2ap_send_bytes_ric_def bind_Some_iff)

lemma add_pending_nodes: "add_pending timerfd ric ev = Some ric' \<Longrightarrow> r_e2_nodes ric' = r_e2_nodes ric"
  by (auto simp: add_pending_def create_timer_ms_asio_ric_def add_fd_asio_ric_def bind_Some_iff Let_def
      split: if_splits)

lemma fwd_subscription_inv:
  assumes "ric_inv ric" "timerfd_ok timerfd" "fwd_ric_subscription_request timerfd ric n sr = Some (r, ric')"
    and "\<lparr>pe_ev = SUBSCRIPTION_REQUEST_PENDING_EVENT,
      pe_id = (sr_ric_id sr)\<lparr>ric_req_id := ucast (ucast (r_req_id ric) :: u16)\<rparr>\<rparr> \<notin> pending_evs ric"
  shows "\<exists>a msg. requested timerfd \<lparr>pe_ev = SUBSCRIPTION_REQUEST_PENDING_EVENT,
      pe_id = (sr_ric_id sr)\<lparr>ric_req_id := ucast (ucast (r_req_id ric) :: u16)\<rparr>\<rparr> a msg ric ric'
    \<and> r_req_id ric' = r_req_id ric + 1 \<and> r = ucast (r_req_id ric)"
proof -
  obtain a where "find_map_e2_node_sad (r_e2_nodes ric) n = Some a"
    using assms(3) by (fastforce simp: fwd_ric_subscription_request_def next_req_id_def bind_Some_iff Let_def
        dest!: send_bytes_address add_pending_nodes)
  from fwd_ric_subscription_request_ok[OF assms(1,2,4) this] assms(3) show ?thesis by auto
qed

lemma fwd_control_inv:
  assumes "ric_inv ric" "timerfd_ok timerfd" "fwd_ric_control_request timerfd ric n cr = Some (r, ric')"
    and "\<lparr>pe_ev = CONTROL_REQUEST_PENDING_EVENT,
      pe_id = (cr_ric_id cr)\<lparr>ric_req_id := ucast (ucast (r_req_id ric) :: u16)\<rparr>\<rparr> \<notin> pending_evs ric"
  shows "\<exists>a msg. requested timerfd \<lparr>pe_ev = CONTROL_REQUEST_PENDING_EVENT,
      pe_id = (cr_ric_id cr)\<lparr>ric_req_id := ucast (ucast (r_req_id ric) :: u16)\<rparr>\<rparr> a msg ric ric'
    \<and> r_req_id ric' = r_req_id ric + 1 \<and> r = ucast (r_req_id ric)"
proof -
  obtain a where "find_map_e2_node_sad (r_e2_nodes ric) n = Some a"
    using assms(3) by (fastforce simp: fwd_ric_control_request_def next_req_id_def bind_Some_iff Let_def
        dest!: send_bytes_address add_pending_nodes)
  from fwd_ric_control_request_ok[OF assms(1,2,4) this] assms(3) show ?thesis by auto
qed

text \<open>A deletion changes the pending events and what was sent, nothing else.\<close>

definition deleting :: "near_ric_t \<Rightarrow> near_ric_t \<Rightarrow> bool" where
  "deleting ric ric' \<longleftrightarrow> ric_inv ric' \<and> r_req_id ric' = r_req_id ric \<and> r_e2_nodes ric' = r_e2_nodes ric
     \<and> r_conn_e2_nodes ric' = r_conn_e2_nodes ric
     \<and> (\<forall>ev \<in> pending_evs ric'. ev \<in> pending_evs ric \<or> pe_ev ev = SUBSCRIPTION_DELETE_REQUEST_PENDING_EVENT)"

lemma fwd_delete_inv:
  assumes "ric_inv ric" "timerfd_ok timerfd" "fwd_ric_subscription_request_delete timerfd ric n sdr = Some ric'"
  shows "deleting ric ric'"
proof (cases "ric' = ric")
  case False
  then obtain a where "find_map_e2_node_sad (r_e2_nodes ric) n = Some a"
    using assms(3) by (fastforce simp: fwd_ric_subscription_request_delete_def bind_Some_iff Let_def
        dest!: send_bytes_address add_pending_nodes split: if_splits)
  from fwd_ric_subscription_request_delete_ok[OF assms(1,2) this, of sdr] assms(3) False
  show ?thesis by (auto simp: deleting_def requested_pending split: if_splits) (auto simp: requested_def)
qed (use assms(1) in \<open>simp add: deleting_def\<close>)

lemma deleting_trans: "deleting a b \<Longrightarrow> deleting b c \<Longrightarrow> deleting a c"
  unfolding deleting_def by (metis (no_types, lifting))

lemma subs_delete_loop_inv:
  assumes "ric_inv ric" "timerfd_ok timerfd" "subs_delete_loop timerfd ric ns = Some ric'"
  shows "deleting ric ric'"
  using assms(1,3)
proof (induction ns arbitrary: ric)
  case (Cons n ns)
  then obtain t where t: "gen_e2ap_subs_delete timerfd ric n = Some t" "subs_delete_loop timerfd t ns = Some ric'"
    by (auto simp: bind_Some_iff)
  have d: "deleting ric t" using fwd_delete_inv[OF Cons.prems(1) assms(2)] t(1) by (simp add: gen_e2ap_subs_delete_def)
  then have "ric_inv t" by (simp add: deleting_def)
  from deleting_trans[OF d Cons.IH[OF this t(2)]] show ?case .
qed (simp add: deleting_def)

subsection \<open>The invariant of each part\<close>

lemma nodes_ok_same:
  assumes "nodes_ok s" "r_e2_nodes (s_ric s') = r_e2_nodes (s_ric s)"
    "r_conn_e2_nodes (s_ric s') = r_conn_e2_nodes (s_ric s)" "i_e2_nodes (s_iapp s') = i_e2_nodes (s_iapp s)"
  shows "nodes_ok s'"
  using assms by (simp add: nodes_ok_def)

text \<open>Maps that only lose entries, and pending events that only gain deletions, keep \<open>ids_ok\<close>.\<close>

lemma ids_ok_shrink:
  assumes "ids_ok s" "r_req_id (s_ric s') = r_req_id (s_ric s)"
    and "set_mset (bm_pairs (i_map_ric_id (s_iapp s'))) \<subseteq> set_mset (bm_pairs (i_map_ric_id (s_iapp s)))"
    and "\<forall>ev \<in> pending_evs (s_ric s'). ev \<in> pending_evs (s_ric s) \<or> pe_ev ev = SUBSCRIPTION_DELETE_REQUEST_PENDING_EVENT"
  shows "ids_ok s'"
proof -
  have "\<forall>(n, x) \<in># bm_pairs (i_map_ric_id (s_iapp s')). 1021 \<le> req_of n \<and> req_of n < r_req_id (s_ric s')"
    using assms(1-3) by (auto simp: ids_ok_def)
  moreover have "\<forall>ev \<in> pending_evs (s_ric s'). pe_ev ev = SUBSCRIPTION_REQUEST_PENDING_EVENT
      \<or> pe_ev ev = CONTROL_REQUEST_PENDING_EVENT \<longrightarrow> ric_req_id (pe_id ev) < r_req_id (s_ric s')"
    using assms(1,2,4) by (fastforce simp: ids_ok_def)
  ultimately show ?thesis using assms(1,2) by (simp add: ids_ok_def)
qed

lemma next_id:
  fixes r :: u32
  assumes "r < 65536"
  shows "r < r + 1" "r' < r \<Longrightarrow> r' < r + 1" "1021 \<le> r \<Longrightarrow> 1021 \<le> r + 1"
proof -
  have "unat (r + 1) = unat r + 1" using assms by (simp add: word_less_nat_alt unat_word_ariths)
  then show "r < r + 1" "r' < r \<Longrightarrow> r' < r + 1" "1021 \<le> r \<Longrightarrow> 1021 \<le> r + 1"
    by (simp_all add: word_less_nat_alt word_le_nat_alt)
qed

text \<open>A new request: one more entry and one more pending event, under the next number.\<close>

lemma ids_ok_new:
  assumes ids: "ids_ok s" and small: "r_req_id (s_ric s) < 65536"
    and cnt: "r_req_id (s_ric s') = r_req_id (s_ric s) + 1"
    and pairs: "set_mset (bm_pairs (i_map_ric_id (s_iapp s'))) \<subseteq> insert (n, x) (set_mset (bm_pairs (i_map_ric_id (s_iapp s))))"
    and req: "req_of n = r_req_id (s_ric s)"
    and pend: "pending_evs (s_ric s') = insert ev (pending_evs (s_ric s))" "ric_req_id (pe_id ev) = r_req_id (s_ric s)"
  shows "ids_ok s'"
proof -
  note n = next_id[OF small]
  have "1021 \<le> req_of n' \<and> req_of n' < r_req_id (s_ric s')" if "(n', x') \<in># bm_pairs (i_map_ric_id (s_iapp s'))" for n' x'
    using that pairs ids n(1,2) by (fastforce simp: ids_ok_def cnt req)
  moreover have "ric_req_id (pe_id ev') < r_req_id (s_ric s')" if "ev' \<in> pending_evs (s_ric s')"
    "pe_ev ev' = SUBSCRIPTION_REQUEST_PENDING_EVENT \<or> pe_ev ev' = CONTROL_REQUEST_PENDING_EVENT" for ev'
    using that pend ids n(1,2) by (fastforce simp: ids_ok_def cnt)
  ultimately show ?thesis using ids n(3) by (auto simp: ids_ok_def cnt)
qed

lemma answered_inv:
  assumes "answered i g m i'" "map_ok (i_map_ric_id i)"
  shows "map_ok (i_map_ric_id i') \<and> set_mset (bm_pairs (i_map_ric_id i')) \<subseteq> set_mset (bm_pairs (i_map_ric_id i))
    \<and> i_xapps i' = i_xapps i \<and> i_e2_nodes i' = i_e2_nodes i"
proof -
  consider "i' = i" | msgs mp where "i' = i\<lparr>i_sent := msgs, i_map_ric_id := mp\<rparr>"
    "mp = i_map_ric_id i \<or> (\<exists>x. rm_map_ric_id (i_map_ric_id i) x = Some mp)"
    using assms(1) unfolding answered_def by blast
  then show ?thesis
  proof cases
    case 2
    then have "map_ok mp \<and> set_mset (bm_pairs mp) \<subseteq> set_mset (bm_pairs (i_map_ric_id i))"
      using rm_map_ric_id_inv[OF assms(2)] assms(2) by blast
    then show ?thesis using 2(1) by simp
  qed (use assms(2) in simp)
qed

lemma sys_inv_answered:
  assumes inv: "sys_inv s" and ans: "answered (s_iapp s) g m (s_iapp s')"
    and ric: "ric_inv (s_ric s')" "pending_evs (s_ric s') \<subseteq> pending_evs (s_ric s)"
      "r_req_id (s_ric s') = r_req_id (s_ric s)" "r_e2_nodes (s_ric s') = r_e2_nodes (s_ric s)"
      "r_conn_e2_nodes (s_ric s') = r_conn_e2_nodes (s_ric s)"
  shows "sys_inv s'"
proof -
  have s: "map_ok (i_map_ric_id (s_iapp s))" "sad_ok (i_xapps (s_iapp s))" "nodes_ok s" "ids_ok s"
    using inv by (auto simp: sys_inv_def)
  note a = answered_inv[OF ans s(1)]
  have "nodes_ok s'" using nodes_ok_same[OF s(3)] a ric by simp
  moreover have "ids_ok s'" using ids_ok_shrink[OF s(4), of s'] a ric by blast
  ultimately show ?thesis using a s(2) ric(1) by (simp add: sys_inv_def)
qed

lemma sys_inv_deleting:
  assumes inv: "sys_inv s" and ric: "deleting (s_ric s) (s_ric s')" and iapp: "s_iapp s' = s_iapp s"
  shows "sys_inv s'"
proof -
  have "nodes_ok s'" using inv ric iapp nodes_ok_same[of s s'] by (simp add: sys_inv_def deleting_def)
  moreover have "ids_ok s'" using inv ric iapp ids_ok_shrink[of s s'] by (simp add: sys_inv_def deleting_def)
  ultimately show ?thesis using inv ric iapp by (simp add: sys_inv_def deleting_def)
qed

subsection \<open>Nodes that connect and leave\<close>

lemma those_map_Some:
  "those (map f xs) = Some ys \<Longrightarrow> (\<And>x y. f x = Some y \<Longrightarrow> y = x) \<Longrightarrow> ys = xs \<and> (\<forall>x \<in> set xs. f x = Some x)"
  by (induction xs arbitrary: ys) (fastforce split: option.splits)+

lemma add_reg_e2_node_inv:
  assumes "reg_ok t" "node_complete n" "add_reg_e2_node t n rfs ccas = Some t'" "length ccas < 256"
  shows "reg_ok t' \<and> mset t' = add_mset (n, \<lparr>ran_func = rfs, comp_conf_add = ccas\<rparr>) (mset t)
    \<and> (\<forall>(m, p) \<in> set t. node_key m \<noteq> node_key n)"
proof -
  from assms(3) obtain arr it where p: "rfs \<noteq> []" "0 < length ccas"
    "those (map cp_e2ap_node_component_config_add ccas) = Some arr"
    and it: "t \<noteq> [] \<Longrightarrow> entries_find_if_opt (eq_global_e2_node_id n) t = Some it" "\<forall>e. it \<noteq> Some e"
    by (auto simp: add_reg_e2_node_def bind_Some_iff Let_def split: if_splits)
  then have "t \<noteq> [] \<Longrightarrow> it = entries_find_if (\<lambda>m. node_key n = node_key m) t"
    by (simp add: reg_find[OF assms(1,2)])
  moreover have "it = None" using it(2) by (cases it) auto
  ultimately have none: "entries_find_if (\<lambda>m. node_key n = node_key m) t = None"
    by (cases "t = []") auto
  then have new: "\<forall>(m, p) \<in> set t. node_key m \<noteq> node_key n"
    by (fastforce simp: entries_find_if_None)
  have "\<forall>c \<in> set ccas. cca_ok c"
    using those_map_Some[OF p(3)] cp_cca_add_Some by (auto simp: cca_ok_def)
  from add_reg_e2_node_ok[OF assms(1,2) new p(1) this p(2) assms(4)] show ?thesis
    using assms(3) new by auto
qed

lemma setup_handler_inv:
  assumes "e2ap_handle_setup_request_ric s q = Some (ans, s')"
  shows "\<exists>r acc. add_reg_e2_node (i_e2_nodes (s_iapp s)) (stp_id q) (stp_ran_func_item q) (stp_comp_conf_add q) = Some r
    \<and> s' = \<lparr>s_ric = (s_ric s)\<lparr>r_conn_e2_nodes := r_conn_e2_nodes (s_ric s) @ [init_e2_node (stp_id q) acc]\<rparr>,
           s_iapp = (s_iapp s)\<lparr>i_e2_nodes := r\<rparr>\<rparr>"
  using assms
  by (auto simp: e2ap_handle_setup_request_ric_def add_e2_node_iapp_def bind_Some_iff Let_def split: if_splits)

lemma ric_inv_setup [simp]: "ric_inv (ric\<lparr>r_e2_nodes := m, r_conn_e2_nodes := c, r_sent := t\<rparr>) = ric_inv ric"
  "pending_evs (ric\<lparr>r_e2_nodes := m, r_conn_e2_nodes := c, r_sent := t\<rparr>) = pending_evs ric"
  "ric_inv (ric\<lparr>r_e2_nodes := m, r_conn_e2_nodes := c\<rparr>) = ric_inv ric"
  "pending_evs (ric\<lparr>r_e2_nodes := m, r_conn_e2_nodes := c\<rparr>) = pending_evs ric"
  by (simp_all add: ric_inv_def pending_evs_def)

lemma init_e2_node_id [simp]: "en_id (init_e2_node n acc) = n"
  by (simp add: init_e2_node_def)

lemma setup_nodes_ok:
  assumes ok: "nodes_ok s" and env: "env_ok s (From_e2 from (E2_stp_req q))"
    and m: "add_map_e2_node_sad (r_e2_nodes (s_ric s)) (stp_id q) from = Some m"
    and r: "add_reg_e2_node (i_e2_nodes (s_iapp s)) (stp_id q) (stp_ran_func_item q) (stp_comp_conf_add q) = Some r"
    and s': "r_e2_nodes (s_ric s') = m" "i_e2_nodes (s_iapp s') = r"
      "r_conn_e2_nodes (s_ric s') = r_conn_e2_nodes (s_ric s) @ [init_e2_node (stp_id q) acc]"
  shows "nodes_ok s'"
proof -
  let ?n = "stp_id q"
  have reg: "reg_ok (i_e2_nodes (s_iapp s))"
    and bm: "bm_ok cmp_global_e2_node_id_wrapper cmp_sctp_info_wrapper (r_e2_nodes (s_ric s))"
    using ok by (auto simp: nodes_ok_def)
  have complete: "node_complete ?n"
    using m by (auto simp: add_map_e2_node_sad_def Let_def cmp_global_e2_node_id_def node_complete_def
        plmn_cmp.cmp_self split: option.splits if_splits)
  have len: "length (stp_comp_conf_add q) < 256" and addr: "\<forall>(n, a) \<in># bm_pairs (r_e2_nodes (s_ric s)). a \<noteq> from"
    using env by (auto simp: env_ok_def)
  note r' = add_reg_e2_node_inv[OF reg complete r len]
  have "\<forall>k \<in> fst ` set (bm_left (r_e2_nodes (s_ric s))). node_key k \<noteq> node_key ?n"
    unfolding nodes_left(1)[OF ok] using r' by auto
  then have "\<forall>(n', b) \<in># bm_pairs (r_e2_nodes (s_ric s)). node_key n' \<noteq> node_key ?n \<and> b \<noteq> from"
    using addr by (auto simp: bm_pairs_def)
  from add_map_e2_node_inv[OF bm m this] show ?thesis
    using ok r' by (simp add: nodes_ok_def s')
qed

lemma erase_conn_node_mset:
  assumes "erase_conn_node ns n = Some ns'" "\<forall>c \<in> set ns. node_complete (en_id c)" "node_complete n"
  shows "\<exists>c. mset ns = add_mset c (mset ns') \<and> node_key (en_id c) = node_key n"
  using assms(1,2)
proof (induction ns arbitrary: ns')
  case (Cons c ns)
  have eq: "eq_global_e2_node_id (en_id c) n = Some (node_key (en_id c) = node_key n)"
    using Cons.prems(2) assms(3) by (simp add: eq_node_complete)
  show ?case
  proof (cases "node_key (en_id c) = node_key n")
    case True
    then show ?thesis using Cons.prems(1) eq by (auto simp: eq_global_e2_node_id_e2_node_def)
  next
    case False
    then obtain t where t: "erase_conn_node ns n = Some t" "ns' = c # t"
      using Cons.prems(1) eq by (auto simp: eq_global_e2_node_id_e2_node_def bind_Some_iff)
    from Cons.IH[OF t(1)] Cons.prems(2) obtain d where "mset ns = add_mset d (mset t)"
      "node_key (en_id d) = node_key n" by auto
    then show ?thesis using t(2) by (intro exI[of _ d]) simp
  qed
qed simp

lemma distinct_keys_eq:
  assumes "distinct (map (g \<circ> fst) t)" "(n, p) \<in> set t" "(m, q) \<in> set t" "g n = g m"
  shows "n = m"
  using assms by (induction t) force+

lemma notification_nodes_ok:
  assumes ok: "nodes_ok s"
    and m: "rm_map_sad_e2_node (r_e2_nodes (s_ric s)) from = Some (n, m)"
    and conn: "erase_conn_node (r_conn_e2_nodes (s_ric s)) n = Some c"
    and r: "rm_reg_e2_node (i_e2_nodes (s_iapp s)) n = Some r"
    and s': "r_e2_nodes (s_ric s') = m" "i_e2_nodes (s_iapp s') = r" "r_conn_e2_nodes (s_ric s') = c"
  shows "nodes_ok s'"
proof -
  let ?reg = "i_e2_nodes (s_iapp s)"
  have reg: "reg_ok ?reg"
    and bm: "bm_ok cmp_global_e2_node_id_wrapper cmp_sctp_info_wrapper (r_e2_nodes (s_ric s))"
    and ids: "image_mset fst (bm_pairs (r_e2_nodes (s_ric s))) = mset (map fst ?reg)"
      "image_mset en_id (mset (r_conn_e2_nodes (s_ric s))) = mset (map fst ?reg)"
    using ok by (auto simp: nodes_ok_def)
  obtain a where a: "bm_ok cmp_global_e2_node_id_wrapper cmp_sctp_info_wrapper m"
    "bm_pairs (r_e2_nodes (s_ric s)) = add_mset (n, a) (bm_pairs m)"
    using e2_map.extract_right_inv[OF bm, of "from" n m] m by (auto simp: rm_map_sad_e2_node_def)
  have "(n, a) \<in> set (bm_left (r_e2_nodes (s_ric s)))" using a(2) by (simp flip: set_mset_mset add: bm_pairs_def[symmetric])
  then have "n \<in> fst ` set ?reg" using nodes_left(1)[OF ok] by force
  then obtain p where p: "(n, p) \<in> set ?reg" by auto
  then have complete: "node_complete n" using reg by (auto simp: reg_ok_def)
  have r': "reg_ok r" "mset ?reg = add_mset (n, p) (mset r)"
    using rm_reg_e2_node_ok[OF reg complete p refl] r by auto
  have "set (map en_id (r_conn_e2_nodes (s_ric s))) = set (map fst ?reg)"
    by (rule mset_eq_setD) (use ids(2) in simp)
  then have conn_ids: "en_id ` set (r_conn_e2_nodes (s_ric s)) = fst ` set ?reg" by simp
  have "\<forall>k \<in> fst ` set ?reg. node_complete k" using reg by (auto simp: reg_ok_def)
  then have "\<forall>c \<in> set (r_conn_e2_nodes (s_ric s)). node_complete (en_id c)"
    unfolding conn_ids[symmetric] by simp
  from erase_conn_node_mset[OF conn this complete] obtain d where
    d: "mset (r_conn_e2_nodes (s_ric s)) = add_mset d (mset c)" "node_key (en_id d) = node_key n" by auto
  have "en_id d \<in> fst ` set ?reg"
    unfolding conn_ids[symmetric] using d(1) by (simp flip: set_mset_mset)
  then have "en_id d = n"
    using distinct_keys_eq[of node_key ?reg "en_id d" _ n p] reg p d(2) by (auto simp: reg_ok_def)
  then show ?thesis using a ids r' d(1) by (simp add: nodes_ok_def s')
qed

subsection \<open>Every event keeps the invariant\<close>

text \<open>An answer to the RIC removes at most its pending event.\<close>

definition quiet_ric :: "near_ric_t \<Rightarrow> near_ric_t \<Rightarrow> bool" where
  "quiet_ric ric ric' \<longleftrightarrow> ric_inv ric' \<and> pending_evs ric' \<subseteq> pending_evs ric
     \<and> r_req_id ric' = r_req_id ric \<and> r_e2_nodes ric' = r_e2_nodes ric
     \<and> r_conn_e2_nodes ric' = r_conn_e2_nodes ric"

lemma stop_pending_event_quiet:
  assumes "ric_inv ric" "stop_pending_event ric ev = Some ric'"
  shows "quiet_ric ric ric'"
proof -
  have "ev \<in> pending_evs ric" using stop_pending_event_unsolicited[OF assms(1)] assms(2) by force
  from stop_pending_event_ok[OF assms(1) this] assms(2) have st: "stopped ev ric ric'" by auto
  with stopped_pending[OF st] show ?thesis by (auto simp: stopped_def quiet_ric_def)
qed

lemma publish_quiet:
  assumes "ric_inv ric" "publish_ind_msg ric rf d = Some ric'"
  shows "quiet_ric ric ric'"
proof -
  obtain msgs where "ric' = ric\<lparr>r_published := msgs\<rparr>"
    using assms(2) by (auto simp: publish_ind_msg_def Let_def split: if_splits)
  then show ?thesis using assms(1) by (simp add: quiet_ric_def pending_evs_def)
qed

lemma handle_ric_answer:
  assumes "ric_inv (s_ric s)" "answer_id msg = Some g" "handle_msg_ric timerfd s msg = Some (ans, t)"
  shows "ans = no_msg \<and> (\<exists>ric'. quiet_ric (s_ric s) ric' \<and> notify_msg_iapp timerfd (s\<lparr>s_ric := ric'\<rparr>) msg = Some t)"
  using assms(2,3)
  by (cases msg)
    (auto simp: e2ap_handle_subscription_response_ric_def e2ap_handle_subscription_delete_response_ric_def
      e2ap_handle_indication_ric_def e2ap_handle_control_ack_ric_def e2ap_handle_control_failure_ric_def
      bind_Some_iff Let_def split: if_splits
      dest!: stop_pending_event_quiet[OF assms(1)] publish_quiet[OF assms(1)])

lemma arrived_not_setup:
  assumes "sctp_msg_arrived_event timerfd s from msg = Some s'" "\<forall>q. msg \<noteq> E2_stp_req q"
  shows "\<exists>ans t. handle_msg_ric timerfd s msg = Some (ans, t) \<and> (ans = no_msg \<longrightarrow> s' = t)"
proof -
  have "(case msg of E2_stp_req req \<Rightarrow> e2ap_reg_sock_addr_ric (s_ric s) (stp_id req) from
      | _ \<Rightarrow> Some (s_ric s)) = Some (s_ric s)"
    using assms(2) by (cases msg) auto
  then obtain ans t where "handle_msg_ric timerfd s msg = Some (ans, t)"
    "(if msg_type ans \<noteq> NONE_E2_MSG_TYPE
      then Some (t\<lparr>s_ric := e2ap_send_sctp_msg_ric (s_ric t) from ans\<rparr>) else Some t) = Some s'"
    using assms(1) by (auto simp: sctp_msg_arrived_event_def e2ap_msg_handle_ric_def bind_Some_iff
        simp del: not_None_eq split: if_split_asm)
  then show ?thesis by (intro exI[of _ ans] exI[of _ t]) auto
qed

lemma sys_inv_from_e2:
  assumes inv: "sys_inv s" and env: "env_ok s (From_e2 from msg)"
    and step: "sctp_msg_arrived_event timerfd s from msg = Some s'"
  shows "sys_inv s'"
proof (cases "answer_id msg")
  case (Some g)
  then have "\<forall>q. msg \<noteq> E2_stp_req q" by auto
  from arrived_not_setup[OF step this] obtain ans t where h: "handle_msg_ric timerfd s msg = Some (ans, t)"
    and s': "ans = no_msg \<Longrightarrow> s' = t"
    by auto
  have ric: "ric_inv (s_ric s)" using inv by (simp add: sys_inv_def)
  obtain ric' where r: "ans = no_msg" "quiet_ric (s_ric s) ric'"
    "notify_msg_iapp timerfd (s\<lparr>s_ric := ric'\<rparr>) msg = Some t"
    using handle_ric_answer[OF ric Some h] by blast
  obtain i' where "t = s\<lparr>s_ric := ric', s_iapp := i'\<rparr>" "answered (s_iapp s) g msg i'"
    using notify_answered[OF Some r(3)] by auto
  then show ?thesis
    using sys_inv_answered[OF inv, of g msg s'] s' r(1,2) by (simp add: quiet_ric_def)
next
  case None
  show ?thesis
  proof (cases "\<exists>q. msg = E2_stp_req q")
    case True
    then obtain q where q: "msg = E2_stp_req q" by blast
    with step obtain ric resp t where a: "e2ap_reg_sock_addr_ric (s_ric s) (stp_id q) from = Some ric"
      and t: "e2ap_handle_setup_request_ric (s\<lparr>s_ric := ric\<rparr>) q = Some (resp, t)"
      and sent: "(if msg_type resp \<noteq> NONE_E2_MSG_TYPE
          then Some (t\<lparr>s_ric := e2ap_send_sctp_msg_ric (s_ric t) from resp\<rparr>) else Some t) = Some s'"
      by (auto simp: sctp_msg_arrived_event_def e2ap_msg_handle_ric_def bind_Some_iff split: if_split_asm)
    have s': "\<exists>msgs. s' = t\<lparr>s_ric := (s_ric t)\<lparr>r_sent := msgs\<rparr>\<rparr>"
    proof (cases "msg_type resp \<noteq> NONE_E2_MSG_TYPE")
      case True
      then show ?thesis using sent by (auto simp: e2ap_send_sctp_msg_ric_def)
    next
      case False
      then show ?thesis using sent by (intro exI[of _ "r_sent (s_ric t)"]) simp
    qed
    obtain m where m: "add_map_e2_node_sad (r_e2_nodes (s_ric s)) (stp_id q) from = Some m"
      "ric = (s_ric s)\<lparr>r_e2_nodes := m\<rparr>"
      using a by (auto simp: e2ap_reg_sock_addr_ric_def bind_Some_iff)
    obtain r acc where r: "add_reg_e2_node (i_e2_nodes (s_iapp s)) (stp_id q) (stp_ran_func_item q) (stp_comp_conf_add q) = Some r"
      "t = \<lparr>s_ric = ric\<lparr>r_conn_e2_nodes := r_conn_e2_nodes ric @ [init_e2_node (stp_id q) acc]\<rparr>,
            s_iapp = (s_iapp s)\<lparr>i_e2_nodes := r\<rparr>\<rparr>"
      using setup_handler_inv[OF t] by auto
    obtain msgs where s': "s' = t\<lparr>s_ric := (s_ric t)\<lparr>r_sent := msgs\<rparr>\<rparr>" using s' by blast
    have "nodes_ok s'"
      by (rule setup_nodes_ok[OF _ env[unfolded q] m(1) r(1)])
        (use inv in \<open>simp_all add: sys_inv_def s' r(2) m(2)\<close>)
    moreover have "ids_ok s'"
      using inv by (simp add: sys_inv_def ids_ok_def s' r(2) m(2))
    ultimately show ?thesis using inv by (simp add: sys_inv_def s' r(2) m(2))
  next
    case False
    then show ?thesis
      using None step by (cases msg)
        (auto simp: sctp_msg_arrived_event_def e2ap_msg_handle_ric_def bind_Some_iff split: if_splits)
  qed
qed

lemma sys_inv_subscription:
  assumes inv: "sys_inv s" and os: "timerfd_ok timerfd" and small: "r_req_id (s_ric s) < 65536"
    and env: "env_ok s (From_xapp from (E42_ric_sub_req q))"
    and h: "e2ap_handle_e42_ric_subscription_request_iapp timerfd s q = Some (ans, s')"
  shows "sys_inv s'"
proof -
  have s: "ric_inv (s_ric s)" "map_ok (i_map_ric_id (s_iapp s))" "nodes_ok s" "ids_ok s"
    using inv by (auto simp: sys_inv_def)
  note fresh = fresh_request[OF s(4) small]
  from h obtain r ric m n where f: "fwd_ric_subscription_request timerfd (s_ric s) (esr_id q) (esr_sr q) = Some (r, ric)"
    and n: "n = \<lparr>er_node = esr_id q, er_ric_id = (sr_ric_id (esr_sr q))\<lparr>ric_req_id := ucast r\<rparr>,
      er_type = SUBSCRIPTION_RIC_REQUEST_TYPE\<rparr>"
    and m: "add_map_ric_id (i_map_ric_id (s_iapp s)) n
      \<lparr>x_ric_id = sr_ric_id (esr_sr q), x_xapp_id = esr_xapp_id q\<rparr> = Some m"
    and s': "s' = \<lparr>s_ric = ric, s_iapp = (s_iapp s)\<lparr>i_map_ric_id := m\<rparr>\<rparr>"
    by (auto simp: e2ap_handle_e42_ric_subscription_request_iapp_def bind_Some_iff Let_def split: if_splits)
  obtain a msg where req: "requested timerfd \<lparr>pe_ev = SUBSCRIPTION_REQUEST_PENDING_EVENT,
      pe_id = (sr_ric_id (esr_sr q))\<lparr>ric_req_id := r_req_id (s_ric s)\<rparr>\<rparr> a msg (s_ric s) ric"
    "r_req_id ric = r_req_id (s_ric s) + 1" "r = ucast (r_req_id (s_ric s))"
    using fwd_subscription_inv[OF s(1) os f] fresh(3) by (auto simp: fresh(1))
  have m': "map_ok m" "bm_pairs m = add_mset (n, \<lparr>x_ric_id = sr_ric_id (esr_sr q), x_xapp_id = esr_xapp_id q\<rparr>)
      (bm_pairs (i_map_ric_id (s_iapp s)))"
    using add_map_ric_id_inv[OF s(2) m] env by (auto simp: env_ok_def)
  have "ids_ok s'"
    by (rule ids_ok_new[OF s(4) small])
      (use req m' requested_pending[OF req(1)] in \<open>auto simp: s' n fresh(1)\<close>)
  moreover have "nodes_ok s'"
    by (rule nodes_ok_same[OF s(3)]) (use req(1) in \<open>simp_all add: s' requested_def\<close>)
  ultimately show ?thesis using inv req(1) m' by (simp add: sys_inv_def s' requested_def)
qed

lemma sys_inv_control:
  assumes inv: "sys_inv s" and os: "timerfd_ok timerfd" and small: "r_req_id (s_ric s) < 65536"
    and env: "env_ok s (From_xapp from (E42_ric_ctrl_req q))"
    and h: "e2ap_handle_e42_ric_control_request_iapp timerfd s q = Some (ans, s')"
  shows "sys_inv s'"
proof -
  have s: "ric_inv (s_ric s)" "map_ok (i_map_ric_id (s_iapp s))" "nodes_ok s" "ids_ok s"
    using inv by (auto simp: sys_inv_def)
  note fresh = fresh_request[OF s(4) small]
  from h obtain r ric m n where f: "fwd_ric_control_request timerfd (s_ric s) (ecr_id q) (ecr_ctrl_req q) = Some (r, ric)"
    and n: "n = \<lparr>er_node = ecr_id q, er_ric_id = (cr_ric_id (ecr_ctrl_req q))\<lparr>ric_req_id := ucast r\<rparr>,
      er_type = CONTROL_RIC_REQUEST_TYPE\<rparr>"
    and m: "add_map_ric_id (i_map_ric_id (s_iapp s)) n
      \<lparr>x_ric_id = cr_ric_id (ecr_ctrl_req q), x_xapp_id = ecr_xapp_id q\<rparr> = Some m"
    and s': "s' = \<lparr>s_ric = ric, s_iapp = (s_iapp s)\<lparr>i_map_ric_id := m\<rparr>\<rparr>"
    by (auto simp: e2ap_handle_e42_ric_control_request_iapp_def bind_Some_iff Let_def split: if_splits)
  obtain a msg where req: "requested timerfd \<lparr>pe_ev = CONTROL_REQUEST_PENDING_EVENT,
      pe_id = (cr_ric_id (ecr_ctrl_req q))\<lparr>ric_req_id := r_req_id (s_ric s)\<rparr>\<rparr> a msg (s_ric s) ric"
    "r_req_id ric = r_req_id (s_ric s) + 1" "r = ucast (r_req_id (s_ric s))"
    using fwd_control_inv[OF s(1) os f] fresh(4) by (auto simp: fresh(1))
  have m': "map_ok m" "bm_pairs m = add_mset (n, \<lparr>x_ric_id = cr_ric_id (ecr_ctrl_req q), x_xapp_id = ecr_xapp_id q\<rparr>)
      (bm_pairs (i_map_ric_id (s_iapp s)))"
    using add_map_ric_id_inv[OF s(2) m] env by (auto simp: env_ok_def)
  have "ids_ok s'"
    by (rule ids_ok_new[OF s(4) small])
      (use req m' requested_pending[OF req(1)] in \<open>auto simp: s' n fresh(1)\<close>)
  moreover have "nodes_ok s'"
    by (rule nodes_ok_same[OF s(3)]) (use req(1) in \<open>simp_all add: s' requested_def\<close>)
  ultimately show ?thesis using inv req(1) m' by (simp add: sys_inv_def s' requested_def)
qed

lemma sys_inv_xapp_setup:
  assumes inv: "sys_inv s" and env: "env_ok s (From_xapp from (E42_stp_req q))"
    and h: "e2ap_handle_e42_setup_request_iapp (s_iapp s) q = Some (ans, i)" "ans = E42_stp_resp resp"
    and reg: "e2ap_reg_sock_addr_iapp i (e42_xapp_id resp) from = Some i'"
  shows "sys_inv (s\<lparr>s_iapp := e2ap_send_sctp_msg_iapp i' from ans\<rparr>)"
proof -
  obtain m where m: "add_map_xapps_sad (i_xapps (s_iapp s)) (e42_xapp_id resp) from = Some m"
    and i': "i' = (s_iapp s)\<lparr>i_xapp_id := i_xapp_id (s_iapp s) + 1, i_xapps := m\<rparr>"
    using h reg by (auto simp: e2ap_handle_e42_setup_request_iapp_def generate_setup_response_iapp_def
        e2ap_reg_sock_addr_iapp_def bind_Some_iff split: if_splits)
  have "sad_ok m"
    using add_map_xapps_sad_inv[OF _ m] inv env by (auto simp: sys_inv_def env_ok_def)
  then show ?thesis
    using inv by (simp add: sys_inv_def nodes_ok_def ids_ok_def i' e2ap_send_sctp_msg_iapp_def)
qed

lemma arrived_iapp:
  assumes "sctp_msg_arrived_iapp timerfd s from msg = Some s'"
  shows "\<exists>ans t. handle_msg_iapp timerfd s msg = Some (ans, t) \<and> (ans = no_msg \<longrightarrow> s' = t)
    \<and> (\<forall>resp. ans = E42_stp_resp resp \<longrightarrow> (\<exists>i'. e2ap_reg_sock_addr_iapp (s_iapp t) (e42_xapp_id resp) from = Some i'
         \<and> s' = t\<lparr>s_iapp := e2ap_send_sctp_msg_iapp i' from ans\<rparr>))"
proof -
  from assms obtain ans t where h: "handle_msg_iapp timerfd s msg = Some (ans, t)"
    and s': "(case ans of E42_stp_resp resp \<Rightarrow> e2ap_reg_sock_addr_iapp (s_iapp t) (e42_xapp_id resp) from
       | _ \<Rightarrow> Some (s_iapp t)) \<bind> (\<lambda>i. Some (t\<lparr>s_iapp :=
         if msg_type ans \<noteq> NONE_E2_MSG_TYPE then e2ap_send_sctp_msg_iapp i from ans else i\<rparr>)) = Some s'"
    by (auto simp: sctp_msg_arrived_iapp_def e2ap_msg_handle_iapp_def bind_Some_iff Let_def split: if_splits)
  have "s' = t" if "ans = no_msg" using s' that by (cases t) simp
  moreover have "\<exists>i'. e2ap_reg_sock_addr_iapp (s_iapp t) (e42_xapp_id resp) from = Some i'
      \<and> s' = t\<lparr>s_iapp := e2ap_send_sctp_msg_iapp i' from ans\<rparr>" if "ans = E42_stp_resp resp" for resp
    using s' that by (auto simp: bind_Some_iff)
  ultimately show ?thesis using h by blast
qed

lemma sys_inv_from_xapp:
  assumes inv: "sys_inv s" and os: "timerfd_ok timerfd" and small: "r_req_id (s_ric s) < 65536"
    and env: "env_ok s (From_xapp from msg)" and step: "sctp_msg_arrived_iapp timerfd s from msg = Some s'"
  shows "sys_inv s'"
proof -
  obtain ans t where h: "handle_msg_iapp timerfd s msg = Some (ans, t)" "ans = no_msg \<Longrightarrow> s' = t"
    and stp: "\<And>resp. ans = E42_stp_resp resp \<Longrightarrow> \<exists>i'. e2ap_reg_sock_addr_iapp (s_iapp t) (e42_xapp_id resp) from = Some i'
         \<and> s' = t\<lparr>s_iapp := e2ap_send_sctp_msg_iapp i' from ans\<rparr>"
    using arrived_iapp[OF step] by blast
  have ric: "ric_inv (s_ric s)" using inv by (simp add: sys_inv_def)
  show ?thesis
  proof (cases "answer_id msg")
    case (Some g)
    then obtain i' where i': "ans = no_msg" "t = s\<lparr>s_iapp := i'\<rparr>" "answered (s_iapp s) g msg i'"
      using answer_iapp[OF Some h(1)] by blast
    then show ?thesis using sys_inv_answered[OF inv, of g msg s'] h(2) ric by simp
  next
    case None
    show ?thesis
    proof (cases msg)
      case (E42_stp_req q)
      with h(1) obtain i where i: "e2ap_handle_e42_setup_request_iapp (s_iapp s) q = Some (ans, i)" "t = s\<lparr>s_iapp := i\<rparr>"
        by (auto simp: on_iapp_def bind_Some_iff)
      then obtain resp where ans: "ans = E42_stp_resp resp"
        by (auto simp: e2ap_handle_e42_setup_request_iapp_def bind_Some_iff)
      with stp i(2) obtain i' where "e2ap_reg_sock_addr_iapp i (e42_xapp_id resp) from = Some i'"
        "s' = s\<lparr>s_iapp := e2ap_send_sctp_msg_iapp i' from ans\<rparr>" by auto
      then show ?thesis using sys_inv_xapp_setup[OF inv _ i(1) ans] env E42_stp_req by simp
    next
      case (E42_ric_sub_req q)
      then have q: "e2ap_handle_e42_ric_subscription_request_iapp timerfd s q = Some (ans, t)" using h(1) by simp
      then have "ans = no_msg" using subscription_request_effect by blast
      then show ?thesis using sys_inv_subscription[OF inv os small _ q] env E42_ric_sub_req h(2) by simp
    next
      case (E42_ric_ctrl_req q)
      then have q: "e2ap_handle_e42_ric_control_request_iapp timerfd s q = Some (ans, t)" using h(1) by simp
      then have "ans = no_msg" using control_request_effect by blast
      then show ?thesis using sys_inv_control[OF inv os small _ q] env E42_ric_ctrl_req h(2) by simp
    next
      case (E42_ric_sub_del_req q)
      then obtain n dst ric' where "fwd_ric_subscription_request_delete timerfd (s_ric s) n dst = Some ric'"
        "ans = no_msg" "t = s\<lparr>s_ric := ric'\<rparr>"
        using h(1) by (auto simp: e2ap_handle_e42_ric_subscription_delete_request_iapp_def bind_Some_iff
            Let_def split: if_splits)
      then show ?thesis
        using fwd_delete_inv[OF ric os] sys_inv_deleting[OF inv, of s'] h(2) by simp
    qed (use None h(1) in auto)
  qed
qed

lemma sys_inv_step:
  assumes "sys_inv s" "timerfd_ok timerfd" "r_req_id (s_ric s) < 65536" "env_ok s e" "ric_step timerfd s e = Some s'"
  shows "sys_inv s'"
proof (cases e)
  case (From_xapp src msg)
  then show ?thesis using sys_inv_from_xapp[OF assms(1-3)] assms(4,5) by simp
next
  case (Xapp_gone src)
  then obtain ns ric' where "subs_delete_loop timerfd (s_ric s) ns = Some ric'" "s' = s\<lparr>s_ric := ric'\<rparr>"
    using assms(5) by (auto simp: sctp_shutdown_iapp_def rm_if_pending_subs_def bind_Some_iff Let_def)
  then show ?thesis
    using subs_delete_loop_inv[OF _ assms(2)] sys_inv_deleting[OF assms(1), of s'] assms(1) by (simp add: sys_inv_def)
next
  case (From_e2 src msg)
  then show ?thesis using sys_inv_from_e2[OF assms(1)] assms(4,5) by simp
next
  case (E2_gone src)
  with assms(5) obtain n m c r where p: "rm_map_sad_e2_node (r_e2_nodes (s_ric s)) src = Some (n, m)"
    "erase_conn_node (r_conn_e2_nodes (s_ric s)) n = Some c" "rm_reg_e2_node (i_e2_nodes (s_iapp s)) n = Some r"
    "s' = \<lparr>s_ric = (s_ric s)\<lparr>r_e2_nodes := m, r_conn_e2_nodes := c\<rparr>, s_iapp = (s_iapp s)\<lparr>i_e2_nodes := r\<rparr>\<rparr>"
    by (auto simp: notification_handle_ric_def e2ap_rm_sock_addr_ric_def rm_e2_node_iapp_def bind_Some_iff Let_def)
  have "nodes_ok s'"
    by (rule notification_nodes_ok[OF _ p(1-3)]) (use assms(1) p(4) in \<open>simp_all add: sys_inv_def\<close>)
  then show ?thesis using assms(1) p(4) by (simp add: sys_inv_def ids_ok_def)
next
  case (Timer_expired fd)
  then show ?thesis using assms(1,5) by (simp add: pending_event_expired_def bind_Some_iff)
qed

lemma init_sys_inv: "sys_inv (init_ric_sys sms)"
proof -
  let ?s = "init_ric_sys sms"
  have parts: "s_ric ?s = init_near_ric sms" "s_iapp ?s = init_e42_iapp" by (simp_all add: init_ric_sys_def)
  have "nodes_ok ?s"
    using reg_init_ok by (simp add: nodes_ok_def parts init_e42_iapp_def init_near_ric_def
        load_default_pub_sub_ric_def init_map_e2_node_sad_def e2_map.ok_init init_reg_e2_node_def)
  moreover have "ids_ok ?s"
    by (simp add: ids_ok_def parts init_e42_iapp_def init_near_ric_def load_default_pub_sub_ric_def
        init_map_ric_id_def rid_map.ok_init pending_evs_def init_pending_events_def pend_map.ok_init)
  moreover have "map_ok (i_map_ric_id (s_iapp ?s))" "sad_ok (i_xapps (s_iapp ?s))"
    by (simp_all add: parts init_e42_iapp_def init_map_ric_id_def init_map_xapps_sad_def
        rid_map.ok_init sad_map.ok_init)
  ultimately show ?thesis using init_ric_inv by (simp add: sys_inv_def parts)
qed

end
