(* ===== verification/Ric_Properties.thy ===== *)
theory Ric_Properties
  imports Ric_Invariant
begin

text \<open>
  Consequences of the invariant of the RIC, and the situations in which the RIC aborts or serves
  the wrong xApp.
\<close>

subsection \<open>Reachable states\<close>

inductive reachable :: "(int list \<Rightarrow> int) \<Rightarrow> ric_sys_t \<Rightarrow> ric_sys_t \<Rightarrow> bool" for timerfd s0 where
  reach_start: "reachable timerfd s0 s0"
| reach_step: "reachable timerfd s0 s \<Longrightarrow> env_ok s e \<Longrightarrow> r_req_id (s_ric s) < 65536
    \<Longrightarrow> ric_step timerfd s e = Some s' \<Longrightarrow> reachable timerfd s0 s'"

lemma reachable_inv:
  assumes "reachable timerfd (init_ric_sys sms) s" "timerfd_ok timerfd"
  shows "sys_inv s"
  using assms(1) by induction (auto intro: init_sys_inv sys_inv_step[OF _ assms(2)])

lemma pending_expired_ok:
  assumes "ric_inv (s_ric s)" "fd \<in> set (r_fds (s_ric s))"
  shows "pending_event_expired s fd = Some s"
  using assms ric_inv_fds[OF assms(1)] pend_event_ok[OF assms(1)] by (auto simp: pending_event_expired_def)


subsection \<open>E2 nodes that leave\<close>

lemma erase_conn_node_some:
  assumes "\<forall>c \<in> set ns. node_complete (en_id c)" "node_complete n" "n \<in> en_id ` set ns"
  shows "\<exists>ns'. erase_conn_node ns n = Some ns'"
  using assms by (induction ns) (auto simp: eq_global_e2_node_id_e2_node_def eq_node_complete)

lemma notification_handle_ok:
  assumes inv: "sys_inv s" and mem: "(n, a) \<in># bm_pairs (r_e2_nodes (s_ric s))"
  shows "\<exists>m c r. notification_handle_ric s a =
      Some \<lparr>s_ric = (s_ric s)\<lparr>r_e2_nodes := m, r_conn_e2_nodes := c\<rparr>, s_iapp = (s_iapp s)\<lparr>i_e2_nodes := r\<rparr>\<rparr>
    \<and> bm_pairs (r_e2_nodes (s_ric s)) = add_mset (n, a) (bm_pairs m)
    \<and> mset (map fst (i_e2_nodes (s_iapp s))) = add_mset n (mset (map fst r))
    \<and> nodes_ok \<lparr>s_ric = (s_ric s)\<lparr>r_e2_nodes := m, r_conn_e2_nodes := c\<rparr>, s_iapp = (s_iapp s)\<lparr>i_e2_nodes := r\<rparr>\<rparr>"
proof -
  let ?reg = "i_e2_nodes (s_iapp s)"
  have ok: "nodes_ok s" using inv by (simp add: sys_inv_def)
  have reg: "reg_ok ?reg"
    and bm: "bm_ok cmp_global_e2_node_id_wrapper cmp_sctp_info_wrapper (r_e2_nodes (s_ric s))"
    and conn: "mset (map en_id (r_conn_e2_nodes (s_ric s))) = mset (map fst ?reg)"
    using ok unfolding nodes_ok_def by blast+
  obtain m where m: "bi_map_extract_right (r_e2_nodes (s_ric s)) a = Some (n, m)"
    "bm_pairs (r_e2_nodes (s_ric s)) = add_mset (n, a) (bm_pairs m)"
    using e2_map.ok_extract_right[OF bm mem, of a] by auto
  have "n \<in> fst ` set ?reg"
    unfolding nodes_left(1)[OF ok, symmetric] using mem by (force simp: bm_pairs_def)
  then obtain p where p: "(n, p) \<in> set ?reg" by auto
  then have complete: "node_complete n" using reg by (auto simp: reg_ok_def)
  obtain r where r: "rm_reg_e2_node ?reg n = Some r" "mset ?reg = add_mset (n, p) (mset r)"
    using rm_reg_e2_node_ok[OF reg complete p refl] by blast
  have ids: "en_id ` set (r_conn_e2_nodes (s_ric s)) = fst ` set ?reg"
    using mset_eq_setD[OF conn] by simp
  have "\<forall>k \<in> fst ` set ?reg. node_complete k" using reg by (auto simp: reg_ok_def)
  then have "\<forall>c \<in> set (r_conn_e2_nodes (s_ric s)). node_complete (en_id c)"
    unfolding ids[symmetric] by simp
  moreover have "n \<in> en_id ` set (r_conn_e2_nodes (s_ric s))" unfolding ids using p by force
  ultimately obtain c where c: "erase_conn_node (r_conn_e2_nodes (s_ric s)) n = Some c"
    using erase_conn_node_some complete by blast
  let ?s = "\<lparr>s_ric = (s_ric s)\<lparr>r_e2_nodes := m, r_conn_e2_nodes := c\<rparr>, s_iapp = (s_iapp s)\<lparr>i_e2_nodes := r\<rparr>\<rparr>"
  have "notification_handle_ric s a = Some ?s"
    using m(1) c r(1) by (simp add: notification_handle_ric_def e2ap_rm_sock_addr_ric_def
        rm_map_sad_e2_node_def rm_e2_node_iapp_def Let_def)
  moreover have "nodes_ok ?s"
    by (rule notification_nodes_ok[OF ok, of a n m c r]) (use m(1) c r(1) in \<open>simp_all add: rm_map_sad_e2_node_def\<close>)
  ultimately show ?thesis using m(2) r(2) by force
qed

text \<open> C21: When the connection with a registered E2 node ends, its notification is handled: the node
  leaves the three registries and nothing else changes. \<close>

theorem e2_node_leaves:
  assumes inv: "sys_inv s" and mem: "(n, a) \<in># bm_pairs (r_e2_nodes (s_ric s))"
  shows "\<exists>m c r. notification_handle_ric s a =
      Some \<lparr>s_ric = (s_ric s)\<lparr>r_e2_nodes := m, r_conn_e2_nodes := c\<rparr>, s_iapp = (s_iapp s)\<lparr>i_e2_nodes := r\<rparr>\<rparr>
    \<and> bm_pairs (r_e2_nodes (s_ric s)) = add_mset (n, a) (bm_pairs m)
    \<and> mset (map fst (i_e2_nodes (s_iapp s))) = add_mset n (mset (map fst r))
    \<and> nodes_ok \<lparr>s_ric = (s_ric s)\<lparr>r_e2_nodes := m, r_conn_e2_nodes := c\<rparr>, s_iapp = (s_iapp s)\<lparr>i_e2_nodes := r\<rparr>\<rparr>"
  by (rule notification_handle_ok[OF assms])

subsection \<open>Deletions\<close>

text \<open> C39: The number of the xApp in a deletion request plays no role: whichever xApp asks, the request
  that is deleted is the first of the map with the same function, instance and xApp-chosen
  number.  So when two xApps chose the same number for subscriptions to the same function, one of
  them deletes the subscription of the other. \<close>

theorem deletion_ignores_the_xapp:
  "e2ap_handle_e42_ric_subscription_delete_request_iapp timerfd s \<lparr>esd_xapp_id = a, esd_sdr = d\<rparr> =
   e2ap_handle_e42_ric_subscription_delete_request_iapp timerfd s \<lparr>esd_xapp_id = b, esd_sdr = d\<rparr>"
proof -
  have "eq_xapp_ric_gen_id \<lparr>x_ric_id = g, x_xapp_id = a\<rparr> = eq_xapp_ric_gen_id \<lparr>x_ric_id = g, x_xapp_id = b\<rparr>" for g
    by (rule ext) (simp add: eq_xapp_ric_gen_id_def eq_xapp_id_def)
  then show ?thesis
    by (simp add: e2ap_handle_e42_ric_subscription_delete_request_iapp_def find_ric_req_map_ric_id_def)
qed

text \<open>
  What the deletions leave behind: every one in \<open>del\<close>, a list of subscriptions with the addresses of
  their nodes, was sent to its node, in this order, and has a timer and a pending event of its own; no
  other part of the RIC has changed.
\<close>

definition del_event :: "e2_node_ric_id_t \<Rightarrow> pending_event_ric_t" where
  "del_event n = \<lparr>pe_ev = SUBSCRIPTION_DELETE_REQUEST_PENDING_EVENT, pe_id = er_ric_id n\<rparr>"

definition deletions_sent :: "(e2_node_ric_id_t \<times> sctp_info_t) list \<Rightarrow> near_ric_t \<Rightarrow> near_ric_t \<Rightarrow> bool" where
  "deletions_sent del ric ric' \<longleftrightarrow> ric_inv ric' \<and> (\<exists>f p fds.
     ric' = ric\<lparr>r_fds := f, r_pending := p,
         r_sent := r_sent ric @ map (\<lambda>(n, b). (b, Ric_sub_del_req \<lparr>sdr_ric_id = er_ric_id n\<rparr>)) del\<rparr>
     \<and> length fds = length del
     \<and> bm_pairs p = bm_pairs (r_pending ric) + mset (zip fds (map (del_event \<circ> fst) del)))"

lemma deletions_sent_Nil: "ric_inv ric \<Longrightarrow> deletions_sent [] ric ric"
  unfolding deletions_sent_def by (auto intro!: exI[of _ "r_fds ric"] exI[of _ "r_pending ric"])

lemma requested_update:
  assumes "requested timerfd ev b msg ric t" "r_req_id t = r_req_id ric"
  obtains f p where "t = ric\<lparr>r_fds := f, r_pending := p, r_sent := r_sent ric @ [(b, msg)]\<rparr>"
    "bm_pairs p = add_mset (timerfd (r_fds ric), ev) (bm_pairs (r_pending ric))"
proof
  show "t = ric\<lparr>r_fds := r_fds t, r_pending := r_pending t, r_sent := r_sent ric @ [(b, msg)]\<rparr>"
    using assms by (intro near_ric_t.equality) (simp_all add: requested_def)
qed (use assms(1) in \<open>simp add: requested_def\<close>)

lemma deletions_sent_Cons:
  assumes "requested timerfd (del_event n) b (Ric_sub_del_req \<lparr>sdr_ric_id = er_ric_id n\<rparr>) ric t"
    and "r_req_id t = r_req_id ric" "deletions_sent del t ric'"
  shows "deletions_sent ((n, b) # del) ric ric'"
proof -
  let ?fd = "timerfd (r_fds ric)"
  let ?msg = "\<lambda>(n, b). (b, Ric_sub_del_req \<lparr>sdr_ric_id = er_ric_id n\<rparr>)"
  obtain f p where t: "t = ric\<lparr>r_fds := f, r_pending := p, r_sent := r_sent ric @ [?msg (n, b)]\<rparr>"
    "bm_pairs p = add_mset (?fd, del_event n) (bm_pairs (r_pending ric))"
    using requested_update[OF assms(1,2)] unfolding split_conv by blast
  obtain f' p' fds where r: "ric' = t\<lparr>r_fds := f', r_pending := p', r_sent := r_sent t @ map ?msg del\<rparr>"
    "length fds = length del" "bm_pairs p' = bm_pairs (r_pending t) + mset (zip fds (map (del_event \<circ> fst) del))"
    using assms(3) unfolding deletions_sent_def by blast
  have "ric' = ric\<lparr>r_fds := f', r_pending := p', r_sent := r_sent ric @ map ?msg ((n, b) # del)\<rparr>"
    unfolding r(1) t(1) by simp
  moreover have "length (?fd # fds) = length ((n, b) # del)" using r(2) by simp
  moreover have "bm_pairs p' = bm_pairs (r_pending ric) + mset (zip (?fd # fds) (map (del_event \<circ> fst) ((n, b) # del)))"
    using r(3) t(2) unfolding t(1) by simp
  ultimately show ?thesis using assms(3) unfolding deletions_sent_def by blast
qed

lemma deletions_sent_fds:
  assumes "ric_inv ric" "length fds = length del"
    and "bm_pairs p = bm_pairs (r_pending ric) + mset (zip fds (map (del_event \<circ> fst) del))"
    and "ric_inv (ric\<lparr>r_fds := f, r_pending := p, r_sent := m\<rparr>)"
  shows "mset f = mset (r_fds ric) + mset fds"
  using assms by (simp add: ric_inv_def flip: mset_map)

text \<open> The deletions of the subscriptions of \<open>ns\<close>: one for each that has none pending, to its node. \<close>

definition deletions_of :: "near_ric_t \<Rightarrow> e2_node_ric_id_t set \<Rightarrow> (e2_node_ric_id_t \<times> sctp_info_t) list \<Rightarrow> bool" where
  "deletions_of ric ns del \<longleftrightarrow> fst ` set del \<subseteq> ns \<and> distinct (map (del_event \<circ> fst) del)
     \<and> del_event ` fst ` set del = del_event ` ns - pending_evs ric
     \<and> (\<forall>(n, b) \<in> set del. find_map_e2_node_sad (r_e2_nodes ric) (er_node n) = Some b)"

lemma deletions_of_Cons:
  assumes "deletions_of t ns del" "pending_evs t = insert (del_event n) (pending_evs ric)"
    and "r_e2_nodes t = r_e2_nodes ric" "find_map_e2_node_sad (r_e2_nodes ric) (er_node n) = Some b"
    and "del_event n \<notin> pending_evs ric"
  shows "deletions_of ric (insert n ns) ((n, b) # del)"
proof -
  have e: "del_event ` fst ` set del = del_event ` ns - insert (del_event n) (pending_evs ric)"
    using assms(1,2) by (simp add: deletions_of_def)
  then have "del_event n \<notin> set (map (del_event \<circ> fst) del)" by (auto simp: image_image comp_def)
  moreover have "del_event ` fst ` set ((n, b) # del) = del_event ` insert n ns - pending_evs ric"
    using e assms(5) by auto
  ultimately show ?thesis using assms(1,3,4) unfolding deletions_of_def by (auto simp: image_image)
qed

lemma subs_delete_loop_ok:
  assumes "ric_inv ric" "timerfd_ok timerfd"
    and "\<forall>n \<in> set ns. \<exists>a. find_map_e2_node_sad (r_e2_nodes ric) (er_node n) = Some a"
  shows "\<exists>ric' del. subs_delete_loop timerfd ric ns = Some ric' \<and> deleting ric ric'
    \<and> deletions_sent del ric ric' \<and> deletions_of ric (set ns) del
    \<and> pending_evs ric' = pending_evs ric \<union> del_event ` set ns"
  using assms(1,3)
proof (induction ns arbitrary: ric)
  case (Cons n ns)
  obtain a where a: "find_map_e2_node_sad (r_e2_nodes ric) (er_node n) = Some a" using Cons.prems(2) by auto
  obtain t where t: "fwd_ric_subscription_request_delete timerfd ric (er_node n) \<lparr>sdr_ric_id = er_ric_id n\<rparr> = Some t"
    "r_req_id t = r_req_id ric" "if del_event n \<in> pending_evs ric then t = ric
     else requested timerfd (del_event n) a (Ric_sub_del_req \<lparr>sdr_ric_id = er_ric_id n\<rparr>) ric t"
    using fwd_ric_subscription_request_delete_ok[OF Cons.prems(1) assms(2) a, of "\<lparr>sdr_ric_id = er_ric_id n\<rparr>"]
    unfolding ric_subscription_delete_request_t.select_convs Let_def del_event_def by blast
  have d: "deleting ric t" by (rule fwd_delete_inv[OF Cons.prems(1) assms(2) t(1)])
  have p: "pending_evs t = insert (del_event n) (pending_evs ric)"
    using t(3) requested_pending by (auto split: if_splits)
  have e: "ric_inv t" "r_e2_nodes t = r_e2_nodes ric" using d by (auto simp: deleting_def)
  then obtain ric' del where r: "subs_delete_loop timerfd t ns = Some ric'" "deleting t ric'"
    "deletions_sent del t ric'" "deletions_of t (set ns) del" "pending_evs ric' = pending_evs t \<union> del_event ` set ns"
    using Cons.IH[of t] Cons.prems(2) by auto
  have l: "subs_delete_loop timerfd ric (n # ns) = Some ric'" using t(1) r(1) by (simp add: gen_e2ap_subs_delete_def)
  have q: "pending_evs ric' = pending_evs ric \<union> del_event ` set (n # ns)" using r(5) p by auto
  show ?case
  proof (cases "del_event n \<in> pending_evs ric")
    case True
    then have "t = ric" using t(3) by simp
    moreover have "deletions_of ric (set (n # ns)) del"
      using r(4) True \<open>t = ric\<close> by (auto simp: deletions_of_def)
    ultimately show ?thesis using l q r(2,3) by blast
  next
    case False
    then have s: "deletions_sent ((n, a) # del) ric ric'" using deletions_sent_Cons t(2,3) r(3) by simp
    have "deletions_of ric (set (n # ns)) ((n, a) # del)"
      using deletions_of_Cons[OF r(4) p e(2) a False] by simp
    then show ?thesis using l q s deleting_trans[OF d r(2)] by blast
  qed
next
  case Nil
  then show ?case using deletions_sent_Nil[of ric]
    by (intro exI[of _ ric] exI[of _ "[]"]) (simp add: deleting_def deletions_of_def)
qed

text \<open> C20: When an xApp disconnects and the E2 nodes of its subscriptions are connected, the RIC sends
  the deletion of every subscription it has that has no deletion pending yet to the node of that
  subscription, each once and no other message, and starts a timer with a pending event for each; the
  pending events are the old ones and one deletion for every subscription of the xApp. Everything
  else of the RIC (the number of the next request, the registries, the publications) and the whole
  of the iApp are as before, and the invariant holds. \<close>

theorem xapp_leaves:
  assumes inv: "sys_inv s" and os: "timerfd_ok timerfd"
    and mem: "(xid, a) \<in># bm_pairs (i_xapps (s_iapp s))"
  defines "subs \<equiv> {n. \<exists>x. (n, x) \<in># bm_pairs (i_map_ric_id (s_iapp s)) \<and> x_xapp_id x = xid
      \<and> er_type n = SUBSCRIPTION_RIC_REQUEST_TYPE}"
  assumes nodes: "\<forall>n \<in> subs. \<exists>b. (er_node n, b) \<in># bm_pairs (r_e2_nodes (s_ric s))"
  shows "\<exists>ric' f p fds del. sctp_shutdown_iapp timerfd s a = Some (s\<lparr>s_ric := ric'\<rparr>) \<and> sys_inv (s\<lparr>s_ric := ric'\<rparr>)
    \<and> pending_evs ric' = pending_evs (s_ric s) \<union>
        (\<lambda>n. \<lparr>pe_ev = SUBSCRIPTION_DELETE_REQUEST_PENDING_EVENT, pe_id = er_ric_id n\<rparr>) ` subs
    \<and> ric' = (s_ric s)\<lparr>r_fds := f, r_pending := p,
         r_sent := r_sent (s_ric s) @ map (\<lambda>(n, b). (b, Ric_sub_del_req \<lparr>sdr_ric_id = er_ric_id n\<rparr>)) del\<rparr>
    \<and> length fds = length del
    \<and> bm_pairs p = bm_pairs (r_pending (s_ric s)) + mset (zip fds (map (del_event \<circ> fst) del))
    \<and> mset f = mset (r_fds (s_ric s)) + mset fds
    \<and> fst ` set del \<subseteq> subs \<and> distinct (map (del_event \<circ> fst) del)
    \<and> del_event ` fst ` set del = del_event ` subs - pending_evs (s_ric s)
    \<and> (\<forall>(n, b) \<in> set del. (er_node n, b) \<in># bm_pairs (r_e2_nodes (s_ric s)))"
proof -
  let ?ns = "find_all_subs_map_ric_id (i_map_ric_id (s_iapp s)) xid"
  have s: "ric_inv (s_ric s)" "map_ok (i_map_ric_id (s_iapp s))" "sad_ok (i_xapps (s_iapp s))" "nodes_ok s"
    using inv by (auto simp: sys_inv_def)
  have bi: "bi_map_inv (i_map_ric_id (s_iapp s))" using s(2) by (simp add: bm_ok_def)
  have ns: "set ?ns = subs"
    unfolding find_all_subs_map_ric_id_def set_all_subs subs_def using right_pairs[OF bi] by blast
  have "\<forall>n \<in> set ?ns. \<exists>b. find_map_e2_node_sad (r_e2_nodes (s_ric s)) (er_node n) = Some b"
    unfolding ns using nodes node_address[OF s(4)] by blast
  from subs_delete_loop_ok[OF s(1) os this] obtain ric' del where
    r: "subs_delete_loop timerfd (s_ric s) ?ns = Some ric'" "deleting (s_ric s) ric'"
      "deletions_sent del (s_ric s) ric'" "deletions_of (s_ric s) subs del"
      "pending_evs ric' = pending_evs (s_ric s) \<union> del_event ` subs"
    unfolding ns by blast
  obtain f p fds where d: "ric' = (s_ric s)\<lparr>r_fds := f, r_pending := p,
      r_sent := r_sent (s_ric s) @ map (\<lambda>(n, b). (b, Ric_sub_del_req \<lparr>sdr_ric_id = er_ric_id n\<rparr>)) del\<rparr>"
    "length fds = length del"
    "bm_pairs p = bm_pairs (r_pending (s_ric s)) + mset (zip fds (map (del_event \<circ> fst) del))"
    using r(3) unfolding deletions_sent_def by blast
  have f: "mset f = mset (r_fds (s_ric s)) + mset fds"
    using deletions_sent_fds[OF s(1) d(2,3)] r(3) unfolding deletions_sent_def d(1) by simp
  have "sctp_shutdown_iapp timerfd s a = Some (s\<lparr>s_ric := ric'\<rparr>)"
    using r(1) find_sad_in(2)[OF s(3) mem] by (simp add: sctp_shutdown_iapp_def rm_if_pending_subs_def Let_def)
  moreover have "sys_inv (s\<lparr>s_ric := ric'\<rparr>)" using sys_inv_deleting[OF inv, of "s\<lparr>s_ric := ric'\<rparr>"] r(2) by simp
  moreover have "pending_evs ric' = pending_evs (s_ric s) \<union>
      (\<lambda>n. \<lparr>pe_ev = SUBSCRIPTION_DELETE_REQUEST_PENDING_EVENT, pe_id = er_ric_id n\<rparr>) ` subs"
    using r(5) by (simp add: del_event_def[abs_def])
  moreover have "\<forall>(n, b) \<in> set del. (er_node n, b) \<in># bm_pairs (r_e2_nodes (s_ric s))"
  proof clarify
    fix n b assume m: "(n, b) \<in> set del"
    have "n \<in> subs" using m r(4) by (force simp: deletions_of_def)
    then obtain b' where b': "(er_node n, b') \<in># bm_pairs (r_e2_nodes (s_ric s))" using nodes by blast
    have "find_map_e2_node_sad (r_e2_nodes (s_ric s)) (er_node n) = Some b"
      using m r(4) by (auto simp: deletions_of_def)
    then show "(er_node n, b) \<in># bm_pairs (r_e2_nodes (s_ric s))" using b' node_address[OF s(4) b'] by simp
  qed
  moreover have "fst ` set del \<subseteq> subs" "distinct (map (del_event \<circ> fst) del)"
    "del_event ` fst ` set del = del_event ` subs - pending_evs (s_ric s)"
    using r(4) unfolding deletions_of_def by blast+
  ultimately show ?thesis using d f
    by (intro exI[of _ ric'] exI[of _ f] exI[of _ p] exI[of _ fds] exI[of _ del] conjI)
qed

end
