(* ===== verification/Ric_Failures.thy ===== *)
theory Ric_Failures
  imports Ric_Properties
begin

text \<open>
  Situations in which the RIC aborts or serves a peer that it should not serve, each reachable
  from its ordinary states.
\<close>

subsection \<open>Answers that the iApp cannot route\<close>

lemma notify_zero:
  assumes "answer_id m = Some g" "ric_req_id g = 0"
  shows "notify_msg_iapp timerfd s m = None"
  using assms by (cases m) (auto simp: notify_simps find_xapp_map_ric_id_def
      e2ap_handle_subscription_response_iapp_def e2ap_handle_subscription_delete_response_iapp_def
      e2ap_handle_ric_indication_iapp_def e2ap_handle_e42_ric_control_ack_iapp_def
      e2ap_handle_e42_ric_control_failure_iapp_def Let_def)

lemma notify_no_address:
  assumes "answer_id m = Some g" "find_xapp_map_ric_id (i_map_ric_id (s_iapp s)) (ucast (ric_req_id g)) = Some (Some x)"
    and "find_map_xapps_sad (i_xapps (s_iapp s)) (x_xapp_id x) = None"
  shows "notify_msg_iapp timerfd s m = None"
  using assms by (cases m) (auto simp: notify_simps
      e2ap_handle_subscription_response_iapp_def e2ap_handle_subscription_delete_response_iapp_def
      e2ap_handle_ric_indication_iapp_def e2ap_handle_e42_ric_control_ack_iapp_def
      e2ap_handle_e42_ric_control_failure_iapp_def Let_def assert_c_def)

lemma response_notify_aborts:
  assumes "\<And>s. s_iapp s = i \<Longrightarrow> notify_msg_iapp timerfd s (Ric_sub_resp m) = None" "s_iapp s = i"
  shows "sctp_msg_arrived_event timerfd s from (Ric_sub_resp m) = None"
  using assms by (auto simp: sctp_msg_arrived_event_def e2ap_msg_handle_ric_def check_valid_msg_type_ric_def
      e2ap_handle_subscription_response_ric_def Let_def bind_eq_None_conv assert_c_def
      split: if_splits option.splits)

lemma find_sad_absent:
  assumes "\<forall>(k, a) \<in># bm_pairs m. k \<noteq> xid"
  shows "find_map_xapps_sad m xid = None"
proof -
  have "entries_find_if (\<lambda>k. xid = k) (bm_left m) = None"
    using assms unfolding entries_find_if_None by (force simp: bm_pairs_def)
  then show ?thesis by (simp add: find_map_xapps_sad_def)
qed

text \<open> An xApp whose number has no registered address (the validity check accepts every number up
  to and including the next one to be given, and registered numbers only matter when an answer
  is sent) has its subscription request accepted and sent to the E2 node; the response of the
  node then aborts the RIC. \<close>

theorem unregistered_xapp_aborts:
  fixes s q
  defines "g \<equiv> (sr_ric_id (esr_sr q))\<lparr>ric_req_id := r_req_id (s_ric s)\<rparr>"
    and "x \<equiv> \<lparr>x_ric_id = sr_ric_id (esr_sr q), x_xapp_id = esr_xapp_id q\<rparr>"
  assumes "sys_inv s" "timerfd_ok timerfd" "r_req_id (s_ric s) < 65536"
    and "ucast (esr_xapp_id q) = i_xapp_id (s_iapp s)"
    and "\<forall>(k, b) \<in># bm_pairs (i_xapps (s_iapp s)). k \<noteq> esr_xapp_id q"
    and "(esr_id q, a) \<in># bm_pairs (r_e2_nodes (s_ric s))" "length (i_e2_nodes (s_iapp s)) < 256"
    and "\<forall>(n, y) \<in># bm_pairs (i_map_ric_id (s_iapp s)). y \<noteq> x"
  shows "\<exists>s'. sctp_msg_arrived_iapp timerfd s from (E42_ric_sub_req q) = Some s'
    \<and> (\<forall>m. sresp_ric_id m = g \<longrightarrow> sctp_msg_arrived_event timerfd s' src (Ric_sub_resp m) = None)"
proof -
  have ids: "ids_ok s" using assms(3) by (simp add: sys_inv_def)
  note fresh = fresh_request[OF ids assms(5)]
  have gid: "ric_req_id g = r_req_id (s_ric s)" by (simp add: g_def)
  let ?n = "\<lparr>er_node = esr_id q, er_ric_id = g, er_type = SUBSCRIPTION_RIC_REQUEST_TYPE\<rparr>"
  have "\<exists>s'. sctp_msg_arrived_iapp timerfd s from (E42_ric_sub_req q) = Some s'
    \<and> issued timerfd SUBSCRIPTION_REQUEST_PENDING_EVENT ?n x a (Ric_sub_req ((esr_sr q)\<lparr>sr_ric_id := g\<rparr>)) s s'"
    using subscription_request_issued[OF assms(3,4) _ _ _ assms(8,9), of "from"] fresh(5) fresh(3)[OF gid] assms(6,10)
    unfolding g_def x_def fresh(1) by fastforce
  then obtain s' m where s': "sctp_msg_arrived_iapp timerfd s from (E42_ric_sub_req q) = Some s'"
    and m: "s_iapp s' = (s_iapp s)\<lparr>i_map_ric_id := m\<rparr>" "map_ok m"
      "bm_pairs m = add_mset (?n, x) (bm_pairs (i_map_ric_id (s_iapp s)))"
    by (auto simp: issued_def)
  have "(?n, x) \<in># bm_pairs m" by (simp add: m(3))
  moreover have "req_of ?n = ucast (ucast (ric_req_id g) :: u16)" using fresh(1) gid by simp
  moreover have "0 < (ucast (ric_req_id g) :: u16)"
    using ucast16_pos[of "ric_req_id g"] fresh(2) assms(5) gid by simp
  ultimately have "find_xapp_map_ric_id m (ucast (ric_req_id g)) = Some (Some x)"
    using find_xapp_in[OF m(2), of ?n x "ucast (ric_req_id g)"] by blast
  moreover have "find_map_xapps_sad (i_xapps (s_iapp s)) (x_xapp_id x) = None"
    using find_sad_absent[OF assms(7)] by (simp add: x_def)
  ultimately have "notify_msg_iapp timerfd t (Ric_sub_resp resp) = None"
    if "s_iapp t = s_iapp s'" "sresp_ric_id resp = g" for t resp
    using notify_no_address[of "Ric_sub_resp resp" g t x timerfd] that m(1) by simp
  then show ?thesis using s' response_notify_aborts[of "s_iapp s'" timerfd] by blast
qed

text \<open> After 64515 requests the counter is at 65536 and the number handed out, its low 16 bits, is
  zero: the request is accepted and sent, and the response to it aborts the RIC, whatever the
  xApp. \<close>

theorem request_zero_aborts:
  fixes s q
  defines "g \<equiv> (sr_ric_id (esr_sr q))\<lparr>ric_req_id := 0\<rparr>"
    and "x \<equiv> \<lparr>x_ric_id = sr_ric_id (esr_sr q), x_xapp_id = esr_xapp_id q\<rparr>"
  assumes "sys_inv s" "timerfd_ok timerfd" "r_req_id (s_ric s) = 65536"
    and "\<lparr>pe_ev = SUBSCRIPTION_REQUEST_PENDING_EVENT, pe_id = g\<rparr> \<notin> pending_evs (s_ric s)"
    and "ucast (esr_xapp_id q) \<le> i_xapp_id (s_iapp s)"
    and "(esr_id q, a) \<in># bm_pairs (r_e2_nodes (s_ric s))" "length (i_e2_nodes (s_iapp s)) < 256"
    and "\<forall>(n, y) \<in># bm_pairs (i_map_ric_id (s_iapp s)). y \<noteq> x"
  shows "\<exists>s'. sctp_msg_arrived_iapp timerfd s from (E42_ric_sub_req q) = Some s'
    \<and> r_sent (s_ric s') = r_sent (s_ric s) @ [(a, Ric_sub_req ((esr_sr q)\<lparr>sr_ric_id := g\<rparr>))]
    \<and> (\<forall>m. sresp_ric_id m = g \<longrightarrow> sctp_msg_arrived_event timerfd s' src (Ric_sub_resp m) = None)"
proof -
  have r: "ucast (ucast (r_req_id (s_ric s)) :: u16) = (0 :: u32)" using assms(5) by simp
  have "\<forall>(n, y) \<in># bm_pairs (i_map_ric_id (s_iapp s)). 1021 \<le> req_of n"
    using assms(3) by (auto simp: sys_inv_def ids_ok_def)
  then have "\<forall>(n, y) \<in># bm_pairs (i_map_ric_id (s_iapp s)). req_of n \<noteq> 0 \<and> y \<noteq> x"
    using assms(10) by force
  from subscription_request_issued[OF assms(3,4) this[unfolded x_def, folded r] _ assms(7,8,9), of "from"] assms(6)
  obtain s' where s': "sctp_msg_arrived_iapp timerfd s from (E42_ric_sub_req q) = Some s'"
    "r_sent (s_ric s') = r_sent (s_ric s) @ [(a, Ric_sub_req ((esr_sr q)\<lparr>sr_ric_id := g\<rparr>))]"
    unfolding r g_def issued_def requested_def by blast
  have "notify_msg_iapp timerfd t (Ric_sub_resp resp) = None" if "sresp_ric_id resp = g" for t resp
    using notify_zero[of "Ric_sub_resp resp" g timerfd t] that by (simp add: g_def)
  then show ?thesis using s' response_notify_aborts[of "s_iapp s'" timerfd] by blast
qed

subsection \<open>Too many nodes\<close>

text \<open> With 256 registered nodes or more, whatever an xApp asks for that needs the array of the
  nodes (its setup, a subscription, a control) ends in the write past that array: the length of
  the array is kept in a byte. \<close>

theorem many_nodes_overflow:
  assumes "reg_ok (i_e2_nodes (s_iapp s))" "256 \<le> length (i_e2_nodes (s_iapp s))"
  shows "sctp_msg_arrived_iapp timerfd s from (E42_stp_req r) = None
    \<and> sctp_msg_arrived_iapp timerfd s from (E42_ric_sub_req q) = None
    \<and> sctp_msg_arrived_iapp timerfd s from (E42_ric_ctrl_req c) = None"
proof -
  have o: "generate_e2_node_arr (i_e2_nodes (s_iapp s)) = None" by (rule generate_e2_node_arr_overflow[OF assms])
  then have "valid_global_e2_node (s_iapp s) n = None" for n by (simp add: valid_global_e2_node_def)
  then have "e2ap_handle_e42_ric_subscription_request_iapp timerfd s q = None"
    "e2ap_handle_e42_ric_control_request_iapp timerfd s c = None"
    by (simp_all add: e2ap_handle_e42_ric_subscription_request_iapp_def
        e2ap_handle_e42_ric_control_request_iapp_def Option.bind_eq_None_conv)
  moreover have "e2ap_handle_e42_setup_request_iapp (s_iapp s) r = None"
    using o by (simp add: e2ap_handle_e42_setup_request_iapp_def generate_setup_response_iapp_def)
  ultimately show ?thesis
    by (simp add: sctp_msg_arrived_iapp_def e2ap_msg_handle_iapp_def on_iapp_def)
qed

text \<open>There are such registries: 256 nodes that differ in their number.\<close>

definition numbered_node :: "nat \<Rightarrow> global_e2_node_id_t" where
  "numbered_node i = sample_node\<lparr>ge_nb_id := \<lparr>nb_id = of_nat i, unused = 0\<rparr>\<rparr>"

definition many_nodes :: reg_e2_nodes_t where
  "many_nodes = map (\<lambda>i. (numbered_node i, \<lparr>ran_func = [sample_rf], comp_conf_add = [sample_cca]\<rparr>)) (rev [0..<256])"

lemma numbered_node_order:
  assumes "j < i" "i < 256"
  shows "cmp_global_e2_node_id_wrapper (numbered_node i) (numbered_node j) = 1"
    "node_key (numbered_node i) \<noteq> node_key (numbered_node j)"
proof -
  have "unat (of_nat i :: u32) = i" "unat (of_nat j :: u32) = j" using assms by (simp_all add: unat_of_nat_len32)
  then have lt: "(of_nat j :: u32) < of_nat i" "(of_nat i :: u32) \<noteq> of_nat j"
    using assms(1) by (metis word_less_nat_alt, metis less_irrefl)
  then show "cmp_global_e2_node_id_wrapper (numbered_node i) (numbered_node j) = 1"
    by (auto simp: cmp_global_e2_node_id_wrapper_def cmp_global_e2_node_id_def numbered_node_def sample_node_def
        plmn_cmp.cmp_self Let_def)
  show "node_key (numbered_node i) \<noteq> node_key (numbered_node j)"
    using lt(2) by (simp add: node_key_def numbered_node_def)
qed

lemma many_nodes_ok: "reg_ok many_nodes \<and> length many_nodes = 256"
proof -
  have "sorted_wrt (\<lambda>i j. j < i) (rev [0..<256])" by (simp add: sorted_wrt_rev)
  then have "keys_sorted cmp_global_e2_node_id_wrapper many_nodes"
    unfolding keys_sorted_def many_nodes_def sorted_wrt_map
    by (rule sorted_wrt_mono_rel[rotated]) (simp add: numbered_node_order)
  moreover have "inj_on (node_key \<circ> numbered_node) {0..<256}"
    by (rule linorder_inj_onI) (use numbered_node_order(2) in \<open>auto dest: not_sym\<close>)
  then have "distinct (map (node_key \<circ> fst) many_nodes)"
    by (simp add: many_nodes_def distinct_map comp_def inj_on_def)
  ultimately show ?thesis
    by (auto simp: reg_ok_def many_nodes_def sample_cca_ok node_complete_def numbered_node_def sample_node_def
        NODE_IS_CU_def NODE_IS_CUUP_def NODE_IS_DU_def)
qed

subsection \<open>Answers that come from an xApp\<close>

text \<open> C38: The iApp takes the answers of E2 nodes from the xApps too and checks neither the sender nor
  the pending events: any xApp that sends a deletion response with the number of a request ends
  that request, whoever made it; the xApp that made it gets a forged answer, and the RIC goes on
  waiting for the real one. \<close>

theorem xapp_ends_request:
  assumes "routes (s_iapp s) (ric_req_id (sdresp_ric_id m)) n x a" "same_function (sdresp_ric_id m) x"
  shows "\<exists>i'. sctp_msg_arrived_iapp timerfd s src (Ric_sub_del_resp m) = Some (s\<lparr>s_iapp := i'\<rparr>)
    \<and> ended (s_iapp s) n x a (Ric_sub_del_resp \<lparr>sdresp_ric_id = x_ric_id x\<rparr>) i'"
  using subscription_delete_response_iapp_ok[OF assms]
  by (auto simp: sctp_msg_arrived_iapp_def e2ap_msg_handle_iapp_def check_valid_msg_type_iapp_def on_iapp_def)

subsection \<open>Subscriptions that outlive their E2 node\<close>

lemma node_gone:
  assumes ok: "nodes_ok s" "nodes_ok s'"
    and del: "bm_pairs (r_e2_nodes (s_ric s)) = add_mset (n, a) (bm_pairs (r_e2_nodes (s_ric s')))"
  shows "find_map_e2_node_sad (r_e2_nodes (s_ric s')) n = None"
proof -
  let ?l = "bm_left (r_e2_nodes (s_ric s))" and ?l' = "bm_left (r_e2_nodes (s_ric s'))"
  have "mset (map (node_key \<circ> fst) ?l) = mset (node_key n # map (node_key \<circ> fst) ?l')"
    using del by (simp add: bm_pairs_def)
  then have "distinct (node_key n # map (node_key \<circ> fst) ?l')"
    using nodes_left(2)[OF ok(1)] by (metis mset_eq_imp_distinct_iff)
  then have "entries_find_if (\<lambda>k. node_key n = node_key k) ?l' = None"
    unfolding entries_find_if_None by force
  moreover have "entries_find_if_opt (eq_global_e2_node_id n) ?l'
      = Some (entries_find_if (\<lambda>k. node_key n = node_key k) ?l')"
  proof (rule find_if_opt_total)
    have "(n, a) \<in> set ?l" using del by (simp add: bm_pairs_def flip: set_mset_mset)
    then have "node_complete n" using nodes_left(3)[OF ok(1)] by auto
    then show "\<forall>(k, v) \<in> set ?l'. eq_global_e2_node_id n k = Some (node_key n = node_key k)"
      using nodes_left(3)[OF ok(2)] eq_node_complete by auto
  qed
  ultimately show ?thesis by (simp add: find_map_e2_node_sad_def)
qed

lemma delete_no_address:
  assumes "ric_inv ric" "timerfd_ok timerfd" "find_map_e2_node_sad (r_e2_nodes ric) n = None"
    and "\<lparr>pe_ev = SUBSCRIPTION_DELETE_REQUEST_PENDING_EVENT, pe_id = sdr_ric_id d\<rparr> \<notin> pending_evs ric"
  shows "fwd_ric_subscription_request_delete timerfd ric n d = None"
  using add_pending_ok[OF assms(1,2,4)] pending_right[OF assms(1)] assms(3,4)
  by (auto simp: fwd_ric_subscription_request_delete_def e2ap_send_bytes_ric_def Let_def)

lemma delete_pending:
  assumes "ric_inv ric" "timerfd_ok timerfd" "fwd_ric_subscription_request_delete timerfd ric n d = Some t"
  shows "pending_evs t = insert \<lparr>pe_ev = SUBSCRIPTION_DELETE_REQUEST_PENDING_EVENT, pe_id = sdr_ric_id d\<rparr>
    (pending_evs ric)"
proof (cases "find_map_e2_node_sad (r_e2_nodes ric) n")
  case None
  then have "\<lparr>pe_ev = SUBSCRIPTION_DELETE_REQUEST_PENDING_EVENT, pe_id = sdr_ric_id d\<rparr> \<in> pending_evs ric"
    using delete_no_address[OF assms(1,2) None, of d] assms(3) by (metis option.distinct(1))
  moreover have "t = ric"
    using calculation pending_right[OF assms(1)] assms(3)
    by (auto simp: fwd_ric_subscription_request_delete_def Let_def)
  ultimately show ?thesis by auto
next
  case (Some b)
  then show ?thesis
    using fwd_ric_subscription_request_delete_ok[OF assms(1,2) Some, of d] assms(3) requested_pending
    by (auto split: if_splits)
qed

lemma delete_loop_aborts:
  assumes "ric_inv ric" "timerfd_ok timerfd" "find_map_e2_node_sad (r_e2_nodes ric) (er_node n) = None"
    and "\<lparr>pe_ev = SUBSCRIPTION_DELETE_REQUEST_PENDING_EVENT, pe_id = er_ric_id n\<rparr> \<notin> pending_evs ric"
    and "n \<in> set ns" "\<forall>n' \<in> set ns. er_ric_id n' = er_ric_id n \<longrightarrow> n' = n"
  shows "subs_delete_loop timerfd ric ns = None"
  using assms(1,3-6)
proof (induction ns arbitrary: ric)
  case (Cons n' ns)
  show ?case
  proof (cases "gen_e2ap_subs_delete timerfd ric n'")
    case (Some t)
    then have f: "fwd_ric_subscription_request_delete timerfd ric (er_node n') \<lparr>sdr_ric_id = er_ric_id n'\<rparr> = Some t"
      by (simp add: gen_e2ap_subs_delete_def)
    have "n' \<noteq> n" using f delete_no_address[OF Cons.prems(1) assms(2) Cons.prems(2)] Cons.prems(3) by auto
    then have other: "n \<in> set ns" "er_ric_id n' \<noteq> er_ric_id n" using Cons.prems(4,5) by auto
    have "deleting ric t" by (rule fwd_delete_inv[OF Cons.prems(1) assms(2) f])
    then have t: "ric_inv t" "r_e2_nodes t = r_e2_nodes ric" by (auto simp: deleting_def)
    have "\<lparr>pe_ev = SUBSCRIPTION_DELETE_REQUEST_PENDING_EVENT, pe_id = er_ric_id n\<rparr> \<notin> pending_evs t"
      using delete_pending[OF Cons.prems(1) assms(2) f] Cons.prems(3) other(2) by auto
    then have "subs_delete_loop timerfd t ns = None"
      using Cons.IH[OF t(1)] t(2) Cons.prems(2,5) other(1) by simp
    then show ?thesis using Some by simp
  qed simp
qed simp

lemma same_number_same_request:
  assumes "map_ok m" "(n, x) \<in># bm_pairs m" "(n', x') \<in># bm_pairs m" "req_of n = req_of n'"
  shows "n = n' \<and> x = x'"
proof -
  have "entries_find_if (\<lambda>k. req_of n = req_of k) (bm_left m) = Some (n, x)"
    "entries_find_if (\<lambda>k. req_of n = req_of k) (bm_left m) = Some (n', x')"
    using rid_map.find_left[OF assms(1,2), of "\<lambda>k. req_of n = req_of k"]
      rid_map.find_left[OF assms(1,3), of "\<lambda>k. req_of n = req_of k"] assms(4) by simp_all
  then show ?thesis by simp
qed

text \<open> C37: When an E2 node disconnects, the subscriptions that xApps have at it stay in the map.  If one
  of these xApps then disconnects before the node is back, the deletion of its subscription finds
  no address and the RIC aborts. \<close>

theorem node_and_xapp_leave:
  assumes inv: "sys_inv s" and os: "timerfd_ok timerfd"
    and node: "(er_node n, b) \<in># bm_pairs (r_e2_nodes (s_ric s))"
    and sub: "(n, x) \<in># bm_pairs (i_map_ric_id (s_iapp s))" "er_type n = SUBSCRIPTION_RIC_REQUEST_TYPE"
    and xapp: "(x_xapp_id x, a) \<in># bm_pairs (i_xapps (s_iapp s))"
    and new: "\<lparr>pe_ev = SUBSCRIPTION_DELETE_REQUEST_PENDING_EVENT, pe_id = er_ric_id n\<rparr> \<notin> pending_evs (s_ric s)"
  shows "\<exists>s'. notification_handle_ric s b = Some s' \<and> sctp_shutdown_iapp timerfd s' a = None"
proof -
  obtain m c r where s': "notification_handle_ric s b =
      Some \<lparr>s_ric = (s_ric s)\<lparr>r_e2_nodes := m, r_conn_e2_nodes := c\<rparr>, s_iapp = (s_iapp s)\<lparr>i_e2_nodes := r\<rparr>\<rparr>"
    "bm_pairs (r_e2_nodes (s_ric s)) = add_mset (er_node n, b) (bm_pairs m)"
    "nodes_ok \<lparr>s_ric = (s_ric s)\<lparr>r_e2_nodes := m, r_conn_e2_nodes := c\<rparr>, s_iapp = (s_iapp s)\<lparr>i_e2_nodes := r\<rparr>\<rparr>"
    using notification_handle_ok[OF inv node] by blast
  let ?s = "\<lparr>s_ric = (s_ric s)\<lparr>r_e2_nodes := m, r_conn_e2_nodes := c\<rparr>, s_iapp = (s_iapp s)\<lparr>i_e2_nodes := r\<rparr>\<rparr>"
  let ?ns = "find_all_subs_map_ric_id (i_map_ric_id (s_iapp s)) (x_xapp_id x)"
  have ok: "ric_inv (s_ric s)" "map_ok (i_map_ric_id (s_iapp s))" "sad_ok (i_xapps (s_iapp s))" "nodes_ok s"
    using inv by (auto simp: sys_inv_def)
  have bi: "bi_map_inv (i_map_ric_id (s_iapp s))" using ok(2) by (simp add: bm_ok_def)
  have ns: "n' \<in> set ?ns \<longleftrightarrow> (\<exists>k. (n', k) \<in># bm_pairs (i_map_ric_id (s_iapp s)) \<and> x_xapp_id k = x_xapp_id x
      \<and> er_type n' = SUBSCRIPTION_RIC_REQUEST_TYPE)" for n'
    unfolding find_all_subs_map_ric_id_def set_all_subs using right_pairs[OF bi] by blast
  have "subs_delete_loop timerfd (s_ric ?s) ?ns = None"
  proof (rule delete_loop_aborts[OF _ os])
    show "ric_inv (s_ric ?s)" using ok(1) by simp
    show "find_map_e2_node_sad (r_e2_nodes (s_ric ?s)) (er_node n) = None"
      using node_gone[OF ok(4) s'(3)] s'(2) by simp
    show "\<lparr>pe_ev = SUBSCRIPTION_DELETE_REQUEST_PENDING_EVENT, pe_id = er_ric_id n\<rparr> \<notin> pending_evs (s_ric ?s)"
      using new by (simp add: pending_evs_def)
    show "n \<in> set ?ns" unfolding ns using sub by blast
    show "\<forall>n' \<in> set ?ns. er_ric_id n' = er_ric_id n \<longrightarrow> n' = n"
      using ns same_number_same_request[OF ok(2) sub(1)] by metis
  qed
  then have "sctp_shutdown_iapp timerfd ?s a = None"
    using find_sad_in(2)[OF ok(3) xapp] by (simp add: sctp_shutdown_iapp_def rm_if_pending_subs_def Let_def)
  then show ?thesis using s'(1) by blast
qed

end
