(* ===== verification/Ric_Witnesses.thy ===== *)
theory Ric_Witnesses
  imports Ric_Failures
begin

text \<open>
  A run of the RIC, event by event, and the properties of the RIC at its states.
\<close>

subsection \<open>The run\<close>

definition sample_id :: "u32 \<Rightarrow> ric_gen_id_t" where
  "sample_id r = \<lparr>ric_req_id = r, ric_inst_id = 0, ran_func_id = 2\<rparr>"

definition sample_ind_msg :: ric_indication_t where
  "sample_ind_msg = \<lparr>ind_ric_id = sample_id 1021, ind_action_id = 0, ind_sn = None,
     ind_type = RIC_IND_REPORT, ind_hdr = [1], ind_msg = [2, 3], ind_call_process_id = None\<rparr>"

definition sample_sub_req :: e42_ric_subscription_request_t where
  "sample_sub_req = \<lparr>esr_xapp_id = 7, esr_id = sample_node, esr_sr = sample_sub\<rparr>"

definition sample_ctrl_req :: e42_ric_control_request_t where
  "sample_ctrl_req = \<lparr>ecr_xapp_id = 7, ecr_id = sample_node, ecr_ctrl_req =
     \<lparr>cr_ric_id = sample_id 2, cr_call_process_id = None, cr_hdr = [], cr_msg = [5], cr_ack_req = None\<rparr>\<rparr>"

definition more_events :: "ric_event list" where
  "more_events = sample_events @
     [From_xapp xapp_addr (E42_ric_sub_del_req \<lparr>esd_xapp_id = 7, esd_sdr = \<lparr>sdr_ric_id = sr_ric_id sample_sub\<rparr>\<rparr>),
      From_e2 e2_addr (Ric_sub_del_resp \<lparr>sdresp_ric_id = sample_id 1021\<rparr>),
      From_xapp xapp_addr (E42_ric_ctrl_req sample_ctrl_req)]"

text \<open>Runs events as long as the peers behave.\<close>

fun checked :: "(int list \<Rightarrow> int) \<Rightarrow> ric_sys_t \<Rightarrow> ric_event list \<Rightarrow> ric_sys_t option" where
  "checked timerfd s [] = Some s"
| "checked timerfd s (e # es) = (if env_ok s e \<and> r_req_id (s_ric s) < 65536
     then do { s' \<leftarrow> ric_step timerfd s e; checked timerfd s' es } else None)"

lemma checked_reachable:
  "reachable timerfd s0 s \<Longrightarrow> checked timerfd s es = Some s' \<Longrightarrow> reachable timerfd s0 s'"
  by (induction es arbitrary: s) (auto simp: bind_Some_iff intro: reach_step split: if_splits)

definition after :: "nat \<Rightarrow> ric_sys_t" where
  "after k = the (checked max_fd (init_ric_sys [(2, sample_sm)]) (take k more_events))"

lemma all_checked:
  "list_all (\<lambda>k. checked max_fd (init_ric_sys [(2, sample_sm)]) (take k more_events) \<noteq> None) [0..<8]"
  by code_simp

lemma after_reachable:
  assumes "k < 8"
  shows "reachable max_fd (init_ric_sys [(2, sample_sm)]) (after k)"
proof -
  have "checked max_fd (init_ric_sys [(2, sample_sm)]) (take k more_events) \<noteq> None"
    using all_checked assms by (simp add: list_all_iff)
  then show ?thesis unfolding after_def by (intro checked_reachable[OF reach_start]) auto
qed

lemma after_inv: "k < 8 \<Longrightarrow> sys_inv (after k)"
  by (rule reachable_inv[OF after_reachable max_fd_ok])

lemma after_parts:
  assumes "k < 8"
  shows "ric_inv (s_ric (after k))" "map_ok (i_map_ric_id (s_iapp (after k)))" "sad_ok (i_xapps (s_iapp (after k)))"
  using after_inv[OF assms] by (simp_all add: sys_inv_def)

subsection \<open>What is in its maps\<close>

definition sample_n :: "u32 \<Rightarrow> ric_request_type_e \<Rightarrow> e2_node_ric_id_t" where
  "sample_n r t = \<lparr>er_node = sample_node, er_ric_id = sample_id r, er_type = t\<rparr>"

definition sample_x :: "u32 \<Rightarrow> xapp_ric_id_t" where
  "sample_x r = \<lparr>x_ric_id = sample_id r, x_xapp_id = 7\<rparr>"

lemma after_maps:
  "list_all (\<lambda>k. (7, xapp_addr) \<in> set (bm_left (i_xapps (s_iapp (after k))))) [2..<8]"
  "list_all (\<lambda>k. (sample_node, e2_addr) \<in> set (bm_left (r_e2_nodes (s_ric (after k))))) [1..<8]"
  "list_all (\<lambda>k. (sample_n 1021 SUBSCRIPTION_RIC_REQUEST_TYPE, sample_x 1)
     \<in> set (bm_left (i_map_ric_id (s_iapp (after k))))) [3..<6]"
  "(sample_n 1022 CONTROL_RIC_REQUEST_TYPE, sample_x 2) \<in> set (bm_left (i_map_ric_id (s_iapp (after 7))))"
  by code_simp+

lemma after_pending:
  "\<lparr>pe_ev = SUBSCRIPTION_REQUEST_PENDING_EVENT, pe_id = sample_id 1021\<rparr> \<in> snd ` set (bm_left (r_pending (s_ric (after 3))))"
  "bm_left (r_pending (s_ric (after 4))) = []"
  "\<lparr>pe_ev = SUBSCRIPTION_DELETE_REQUEST_PENDING_EVENT, pe_id = sample_id 1021\<rparr> \<in> snd ` set (bm_left (r_pending (s_ric (after 5))))"
  "\<lparr>pe_ev = CONTROL_REQUEST_PENDING_EVENT, pe_id = sample_id 1022\<rparr> \<in> snd ` set (bm_left (r_pending (s_ric (after 7))))"
  "bm_left (r_pending (s_ric (after 2))) = []"
  "bm_left (i_map_ric_id (s_iapp (after 2))) = []"
  by code_simp+

lemma after_counters:
  "r_req_id (s_ric (after 2)) = 1021" "i_xapp_id (s_iapp (after 2)) = 8"
  "map fst (bm_left (i_xapps (s_iapp (after 2)))) = [7]"
  by code_simp+

lemma after_routes:
  "k \<in> {3, 4, 5} \<Longrightarrow> routes (s_iapp (after k)) (ric_req_id (sample_id 1021))
     (sample_n 1021 SUBSCRIPTION_RIC_REQUEST_TYPE) (sample_x 1) xapp_addr"
  "routes (s_iapp (after 7)) (ric_req_id (sample_id 1022))
     (sample_n 1022 CONTROL_RIC_REQUEST_TYPE) (sample_x 2) xapp_addr"
  using after_maps after_parts
  by (auto simp: routes_def bm_pairs_def list_all_iff sample_n_def sample_x_def sample_id_def)

lemma sample_same: "same_function (sample_id r) (sample_x r')"
  by (simp add: same_function_def sample_id_def sample_x_def)

lemma sample_sub_id: "sr_ric_id sample_sub = sample_id 1"
  by (simp add: sample_sub_def sample_id_def)

lemma in_pending: "ev \<in> pending_evs ric \<longleftrightarrow> ev \<in> snd ` set (bm_left (r_pending ric))"
  by (simp add: pending_evs_def bm_pairs_def)

subsection \<open>The properties at its states\<close>

lemma subscription_response_delivered_witness:
  "\<exists>ric'. sctp_msg_arrived_event max_fd (after 3) e2_addr (Ric_sub_resp sample_resp) =
      Some ((after 3)\<lparr>s_ric := ric', s_iapp := (s_iapp (after 3))\<lparr>i_sent := i_sent (s_iapp (after 3)) @
        [(xapp_addr, Ric_sub_resp (sample_resp\<lparr>sresp_ric_id := sample_id 1\<rparr>))]\<rparr>\<rparr>)
    \<and> stopped \<lparr>pe_ev = SUBSCRIPTION_REQUEST_PENDING_EVENT, pe_id = sample_id 1021\<rparr> (s_ric (after 3)) ric'"
proof -
  have m: "sresp_ric_id sample_resp = sample_id 1021" "not_admitted sample_resp = []"
    "admitted sample_resp = [\<lparr>adm_ric_act_id = 0\<rparr>]"
    by (simp_all add: sample_resp_def sample_id_def)
  have x: "x_ric_id (sample_x 1) = sample_id 1" by (simp add: sample_x_def)
  show ?thesis
    using subscription_response_delivered[of "after 3" sample_resp "sample_n 1021 SUBSCRIPTION_RIC_REQUEST_TYPE"
        "sample_x 1" xapp_addr max_fd e2_addr, unfolded m x]
      after_parts(1)[of 3] after_pending(1) after_routes(1)[of 3] sample_same in_pending by simp
qed

lemma delete_response_delivered_witness:
  "\<exists>ric' i'. sctp_msg_arrived_event max_fd (after 5) e2_addr (Ric_sub_del_resp \<lparr>sdresp_ric_id = sample_id 1021\<rparr>)
      = Some \<lparr>s_ric = ric', s_iapp = i'\<rparr>
    \<and> stopped \<lparr>pe_ev = SUBSCRIPTION_DELETE_REQUEST_PENDING_EVENT, pe_id = sample_id 1021\<rparr> (s_ric (after 5)) ric'
    \<and> ended (s_iapp (after 5)) (sample_n 1021 SUBSCRIPTION_RIC_REQUEST_TYPE) (sample_x 1) xapp_addr
        (Ric_sub_del_resp \<lparr>sdresp_ric_id = sample_id 1\<rparr>) i'"
proof -
  have x: "x_ric_id (sample_x 1) = sample_id 1" by (simp add: sample_x_def)
  show ?thesis
    using delete_response_delivered[of "after 5" "\<lparr>sdresp_ric_id = sample_id 1021\<rparr>"
        "sample_n 1021 SUBSCRIPTION_RIC_REQUEST_TYPE" "sample_x 1" xapp_addr max_fd e2_addr, unfolded x]
      after_parts(1)[of 5] after_pending(3) after_routes(1)[of 5] sample_same in_pending by simp
qed

lemma control_outcome_delivered_witness:
  "\<exists>ric' i'. sctp_msg_arrived_event max_fd (after 7) e2_addr
      (Ric_ctrl_ack \<lparr>ack_ric_id = sample_id 1022, ack_call_process_id = Some [1], ack_control_outcome = Some [2]\<rparr>)
      = Some \<lparr>s_ric = ric', s_iapp = i'\<rparr>
    \<and> stopped \<lparr>pe_ev = CONTROL_REQUEST_PENDING_EVENT, pe_id = sample_id 1022\<rparr> (s_ric (after 7)) ric'
    \<and> ended (s_iapp (after 7)) (sample_n 1022 CONTROL_RIC_REQUEST_TYPE) (sample_x 2) xapp_addr
        (Ric_ctrl_ack \<lparr>ack_ric_id = sample_id 2, ack_call_process_id = None, ack_control_outcome = None\<rparr>) i'"
proof (rule control_outcome_delivered[OF after_parts(1) _ after_routes(2) sample_same disjI1])
  show "\<lparr>pe_ev = CONTROL_REQUEST_PENDING_EVENT, pe_id = sample_id 1022\<rparr> \<in> pending_evs (s_ric (after 7))"
    using after_pending(4) in_pending by simp
qed (simp_all add: sample_x_def)

lemma indication_delivered_witness:
  "\<exists>(subs :: subs_ric_t list) d. sctp_msg_arrived_event max_fd (after 4) e2_addr (Ric_ind sample_ind_msg) =
      Some ((after 4)\<lparr>s_ric := (s_ric (after 4))\<lparr>r_published := r_published (s_ric (after 4)) @ map (\<lambda>l. (subs_name l, d)) subs\<rparr>,
              s_iapp := (s_iapp (after 4))\<lparr>i_sent := i_sent (s_iapp (after 4)) @
                [(xapp_addr, Ric_ind (sample_ind_msg\<lparr>ind_ric_id := sample_id 1\<rparr>))]\<rparr>\<rparr>)"
proof -
  let ?sm = "the (sm_plugin_ric (s_ric (after 4)) 2)"
  let ?d = "on_indication ?sm \<lparr>id_ind_hdr = [1], id_ind_msg = [2, 3], id_call_process_id = None\<rparr>"
  have sm: "\<not> Option.is_none (sm_plugin_ric (s_ric (after 4)) 2)" "rd_type ?d \<noteq> SM_AGENT_IF_READ_V0_END"
    "map fst (r_pub_sub (s_ric (after 4))) = [2]"
    by code_simp+
  obtain subs where subs: "r_pub_sub (s_ric (after 4)) = (2, subs) # []" using sm(3) by auto
  have m: "ind_ric_id sample_ind_msg = sample_id 1021" "ind_hdr sample_ind_msg = [1]"
    "ind_msg sample_ind_msg = [2, 3]" "ind_call_process_id sample_ind_msg = None" "ran_func_id (sample_id 1021) = 2"
    "x_ric_id (sample_x 1) = sample_id 1"
    by (simp_all add: sample_ind_msg_def sample_id_def sample_x_def)
  have "sm_plugin_ric (s_ric (after 4)) 2 = Some ?sm" using sm(1) by (auto simp: Option.is_none_def)
  note w = indication_delivered[of "after 4" sample_ind_msg ?sm ?d 2 subs "[]"
      "sample_n 1021 SUBSCRIPTION_RIC_REQUEST_TYPE" "sample_x 1" xapp_addr max_fd e2_addr, unfolded m,
      OF this refl sm(2) subs insertI1 after_routes(1) sample_same]
  show ?thesis by (intro exI[of _ subs] exI[of _ ?d]) (rule w, simp)
qed

lemma unsolicited_answer_aborts_witness:
  "sctp_msg_arrived_event max_fd (after 4) e2_addr (Ric_sub_resp sample_resp) = None"
  by (rule unsolicited_answer_aborts[OF after_parts(1) disjI1[OF conjI[OF refl refl]]])
    (simp_all add: in_pending after_pending(2))

lemma sample_requests:
  "esr_sr sample_sub_req = sample_sub" "esr_xapp_id sample_sub_req = 7" "esr_id sample_sub_req = sample_node"
  "cr_ric_id (ecr_ctrl_req sample_ctrl_req) = sample_id 2" "ecr_xapp_id sample_ctrl_req = 7"
  "ecr_id sample_ctrl_req = sample_node"
  by (simp_all add: sample_sub_req_def sample_ctrl_req_def)

lemma after_2:
  "(sample_node, e2_addr) \<in># bm_pairs (r_e2_nodes (s_ric (after 2)))"
  "bm_pairs (i_map_ric_id (s_iapp (after 2))) = {#}" "pending_evs (s_ric (after 2)) = {}"
  "\<forall>(k, b) \<in># bm_pairs (i_xapps (s_iapp (after 2))). k = 7" "length (i_e2_nodes (s_iapp (after 2))) < 256"
proof -
  have "map (ge_type \<circ> fst) (i_e2_nodes (s_iapp (after 2))) = [ngran_gNB]" by code_simp
  from arg_cong[OF this, of length] show "length (i_e2_nodes (s_iapp (after 2))) < 256" by simp
  show "(sample_node, e2_addr) \<in># bm_pairs (r_e2_nodes (s_ric (after 2)))"
    using after_maps(2) by (simp add: list_all_iff bm_pairs_def)
  show "bm_pairs (i_map_ric_id (s_iapp (after 2))) = {#}" "pending_evs (s_ric (after 2)) = {}"
    using after_pending(5,6) by (simp_all add: bm_pairs_def pending_evs_def)
  have "set (map fst (bm_left (i_xapps (s_iapp (after 2))))) = {7}" using after_counters(3) by simp
  then show "\<forall>(k, b) \<in># bm_pairs (i_xapps (s_iapp (after 2))). k = 7"
    by (force simp: bm_pairs_def)
qed

lemma subscription_request_forwarded_witness:
  "\<exists>s'. sctp_msg_arrived_iapp max_fd (after 2) xapp_addr (E42_ric_sub_req sample_sub_req) = Some s'
    \<and> issued max_fd SUBSCRIPTION_REQUEST_PENDING_EVENT (sample_n 1021 SUBSCRIPTION_RIC_REQUEST_TYPE) (sample_x 1)
        e2_addr (Ric_sub_req (sample_sub\<lparr>sr_ric_id := sample_id 1021\<rparr>)) (after 2) s'"
proof -
  have "(sr_ric_id sample_sub)\<lparr>ric_req_id := 1021\<rparr> = sample_id 1021"
    "sr_ric_id sample_sub = sample_id 1" by (simp_all add: sample_sub_def sample_id_def)
  then show ?thesis
    using subscription_request_forwarded[of "after 2" max_fd sample_sub_req e2_addr xapp_addr]
      after_inv[of 2] max_fd_ok after_2 after_counters
    by (simp add: sample_requests sample_n_def sample_x_def)
qed

lemma control_request_forwarded_witness:
  "\<exists>s'. sctp_msg_arrived_iapp max_fd (after 2) xapp_addr (E42_ric_ctrl_req sample_ctrl_req) = Some s'
    \<and> issued max_fd CONTROL_REQUEST_PENDING_EVENT (sample_n 1021 CONTROL_RIC_REQUEST_TYPE) (sample_x 2)
        e2_addr (Ric_ctrl_req ((ecr_ctrl_req sample_ctrl_req)\<lparr>cr_ric_id := sample_id 1021\<rparr>)) (after 2) s'"
proof -
  have "(sample_id 2)\<lparr>ric_req_id := 1021\<rparr> = sample_id 1021" by (simp add: sample_id_def)
  then show ?thesis
    using control_request_forwarded[of "after 2" max_fd sample_ctrl_req e2_addr xapp_addr]
      after_inv[of 2] max_fd_ok after_2 after_counters
    by (simp add: sample_requests sample_n_def sample_x_def)
qed

lemma after_5_timer: "r_fds (s_ric (after 5)) = [1]"
  by code_simp


lemma e2_node_leaves_witness:
  "\<exists>m c r. notification_handle_ric (after 2) e2_addr =
      Some \<lparr>s_ric = (s_ric (after 2))\<lparr>r_e2_nodes := m, r_conn_e2_nodes := c\<rparr>,
            s_iapp = (s_iapp (after 2))\<lparr>i_e2_nodes := r\<rparr>\<rparr>
    \<and> bm_pairs (r_e2_nodes (s_ric (after 2))) = add_mset (sample_node, e2_addr) (bm_pairs m)"
proof -
  have "(2::nat) < 8" by simp
  from e2_node_leaves[OF after_inv[OF this] after_2(1)] show ?thesis by blast
qed

lemma unregistered_xapp_aborts_witness:
  "\<exists>s'. sctp_msg_arrived_iapp max_fd (after 2) xapp_addr (E42_ric_sub_req (sample_sub_req\<lparr>esr_xapp_id := 8\<rparr>)) = Some s'
    \<and> sctp_msg_arrived_event max_fd s' e2_addr (Ric_sub_resp sample_resp) = None"
proof -
  have "(sr_ric_id sample_sub)\<lparr>ric_req_id := 1021\<rparr> = sresp_ric_id sample_resp"
    by (simp add: sample_sub_def sample_resp_def)
  moreover have "\<forall>(k, b) \<in># bm_pairs (i_xapps (s_iapp (after 2))). k \<noteq> 8" using after_2(4) by fastforce
  ultimately show ?thesis
    using unregistered_xapp_aborts[of "after 2" max_fd "sample_sub_req\<lparr>esr_xapp_id := 8\<rparr>" e2_addr xapp_addr e2_addr]
      after_inv[of 2] max_fd_ok after_2(1-3,5) after_counters
    by (auto simp: sample_requests)
qed

lemma request_zero_aborts_witness:
  "\<exists>s. r_req_id (s_ric s) = 65536
    \<and> (\<exists>s'. sctp_msg_arrived_iapp max_fd s xapp_addr (E42_ric_sub_req sample_sub_req) = Some s'
    \<and> sctp_msg_arrived_event max_fd s' e2_addr (Ric_sub_resp (sample_resp\<lparr>sresp_ric_id := sample_id 0\<rparr>)) = None)"
proof -
  let ?s = "(after 2)\<lparr>s_ric := (s_ric (after 2))\<lparr>r_req_id := 65536\<rparr>\<rparr>"
  have "sys_inv ?s"
    using after_inv[of 2] after_2 by (simp add: sys_inv_def nodes_ok_def ids_ok_def)
  moreover have "(sr_ric_id sample_sub)\<lparr>ric_req_id := 0\<rparr> = sample_id 0"
    by (simp add: sample_sub_def sample_id_def)
  ultimately have "\<exists>s'. sctp_msg_arrived_iapp max_fd ?s xapp_addr (E42_ric_sub_req sample_sub_req) = Some s'
      \<and> r_sent (s_ric s') = r_sent (s_ric ?s) @ [(e2_addr, Ric_sub_req (sample_sub\<lparr>sr_ric_id := sample_id 0\<rparr>))]
      \<and> (\<forall>m. sresp_ric_id m = sample_id 0 \<longrightarrow> sctp_msg_arrived_event max_fd s' e2_addr (Ric_sub_resp m) = None)"
    using request_zero_aborts[of ?s max_fd sample_sub_req e2_addr xapp_addr e2_addr]
      max_fd_ok after_2(1-3,5) after_counters(2) by (simp add: sample_requests)
  then show ?thesis by (intro exI[of _ ?s]) auto
qed

lemma xapp_ends_request_witness:
  "\<exists>i'. sctp_msg_arrived_iapp max_fd (after 4) e2_addr (Ric_sub_del_resp \<lparr>sdresp_ric_id = sample_id 1021\<rparr>)
      = Some ((after 4)\<lparr>s_iapp := i'\<rparr>)
    \<and> ended (s_iapp (after 4)) (sample_n 1021 SUBSCRIPTION_RIC_REQUEST_TYPE) (sample_x 1) xapp_addr
        (Ric_sub_del_resp \<lparr>sdresp_ric_id = x_ric_id (sample_x 1)\<rparr>) i'"
  by (rule xapp_ends_request) (simp_all add: after_routes sample_same)

lemma answers_reach_their_xapp_witness:
  "\<exists>tr e oe ox s. ric_run max_fd (init_ric_sys [(2, sample_sm)]) (tr @ [(e, oe, ox)]) s
    \<and> (\<exists>src m g x. (e = From_e2 src m \<or> e = From_xapp src m) \<and> answer_id m = Some g
      \<and> request_in tr (ucast (ucast (ric_req_id g) :: u16)) x \<and> setup_in tr (x_xapp_id x) xapp_addr
      \<and> Ric_sub_resp (sample_resp\<lparr>sresp_ric_id := sr_ric_id sample_sub\<rparr>) = readdress (x_ric_id x) m)"
proof -
  obtain tr s where r: "exec max_fd (init_ric_sys [(2, sample_sm)]) sample_events = Some (tr, s)"
    "length tr = 4" "snd (snd (last tr)) = [(xapp_addr, Ric_sub_resp (sample_resp\<lparr>sresp_ric_id := sr_ric_id sample_sub\<rparr>))]"
    using sample_exec by (auto split: option.splits)
  obtain e oe ox where l: "last tr = (e, oe, ox)" by (cases "last tr")
  then have tr: "tr = butlast tr @ [(e, oe, ox)]" using r(2) by (metis append_butlast_last_id list.size(3) zero_neq_numeral)
  have run: "ric_run max_fd (init_ric_sys [(2, sample_sm)]) (butlast tr @ [(e, oe, ox)]) s"
    using exec_run[OF run_start r(1)] tr by simp
  have "(xapp_addr, Ric_sub_resp (sample_resp\<lparr>sresp_ric_id := sr_ric_id sample_sub\<rparr>)) \<in> set ox"
    using r(3) l by simp
  moreover have "answer_id (Ric_sub_resp (sample_resp\<lparr>sresp_ric_id := sr_ric_id sample_sub\<rparr>)) \<noteq> None" by simp
  ultimately show ?thesis
    by (intro exI[of _ "butlast tr"] exI[of _ e] exI[of _ oe] exI[of _ ox] exI[of _ s] conjI[OF run]
        answers_reach_their_xapp[OF run])
qed

lemma sample_types: "er_node (sample_n r t) = sample_node" "er_type (sample_n r t) = t"
  "er_ric_id (sample_n r t) = sample_id r" "x_xapp_id (sample_x r) = 7"
  by (simp_all add: sample_n_def sample_x_def)

lemma after_4:
  "(sample_node, e2_addr) \<in># bm_pairs (r_e2_nodes (s_ric (after 4)))"
  "(7, xapp_addr) \<in># bm_pairs (i_xapps (s_iapp (after 4)))"
  "(sample_n 1021 SUBSCRIPTION_RIC_REQUEST_TYPE, sample_x 1) \<in># bm_pairs (i_map_ric_id (s_iapp (after 4)))"
  "list_all (\<lambda>(n, x). er_node n = sample_node) (bm_left (i_map_ric_id (s_iapp (after 4))))"
  "pending_evs (s_ric (after 4)) = {}"
  "{n. \<exists>x. (n, x) \<in># bm_pairs (i_map_ric_id (s_iapp (after 4))) \<and> x_xapp_id x = 7
      \<and> er_type n = SUBSCRIPTION_RIC_REQUEST_TYPE} = {sample_n 1021 SUBSCRIPTION_RIC_REQUEST_TYPE}"
proof -
  show "(sample_node, e2_addr) \<in># bm_pairs (r_e2_nodes (s_ric (after 4)))"
    "(7, xapp_addr) \<in># bm_pairs (i_xapps (s_iapp (after 4)))"
    and mem: "(sample_n 1021 SUBSCRIPTION_RIC_REQUEST_TYPE, sample_x 1) \<in># bm_pairs (i_map_ric_id (s_iapp (after 4)))"
    and "pending_evs (s_ric (after 4)) = {}"
    using after_maps after_pending(2) by (simp_all add: list_all_iff bm_pairs_def pending_evs_def)
  show "list_all (\<lambda>(n, x). er_node n = sample_node) (bm_left (i_map_ric_id (s_iapp (after 4))))"
    by code_simp
  have "\<forall>(n, x) \<in># bm_pairs (i_map_ric_id (s_iapp (after 4))). n = sample_n 1021 SUBSCRIPTION_RIC_REQUEST_TYPE"
    unfolding bm_pairs_def set_mset_mset list_all_iff[symmetric] by code_simp
  then show "{n. \<exists>x. (n, x) \<in># bm_pairs (i_map_ric_id (s_iapp (after 4))) \<and> x_xapp_id x = 7
      \<and> er_type n = SUBSCRIPTION_RIC_REQUEST_TYPE} = {sample_n 1021 SUBSCRIPTION_RIC_REQUEST_TYPE}"
    using mem sample_types by auto
qed

lemma one_deletion:
  assumes "fst ` set del \<subseteq> {n}" "distinct (map (f \<circ> fst) del)" "del \<noteq> []"
  shows "\<exists>b. del = [(n, b)]"
proof (cases del)
  case (Cons d ds)
  have "ds = []"
  proof (cases ds)
    case (Cons e es)
    then show ?thesis using assms(1,2) \<open>del = d # ds\<close> by auto
  qed
  then show ?thesis using Cons assms(1) by (cases d) auto
qed (use assms(3) in simp)

lemma xapp_leaves_witness:
  "\<exists>ric' b f p fd. sctp_shutdown_iapp max_fd (after 4) xapp_addr = Some ((after 4)\<lparr>s_ric := ric'\<rparr>)
    \<and> pending_evs ric' = {del_event (sample_n 1021 SUBSCRIPTION_RIC_REQUEST_TYPE)}
    \<and> ric' = (s_ric (after 4))\<lparr>r_fds := f, r_pending := p,
        r_sent := r_sent (s_ric (after 4)) @ [(b, Ric_sub_del_req \<lparr>sdr_ric_id = sample_id 1021\<rparr>)]\<rparr>
    \<and> mset f = add_mset fd (mset (r_fds (s_ric (after 4))))"
proof -
  have inv: "sys_inv (after 4)" by (rule after_inv) simp
  have nodes: "er_node n = sample_node" if "(n, x) \<in># bm_pairs (i_map_ric_id (s_iapp (after 4)))" for n x
    using after_4(4) that by (auto simp: list_all_iff bm_pairs_def)
  let ?n = "sample_n 1021 SUBSCRIPTION_RIC_REQUEST_TYPE"
  let ?subs = "{n. \<exists>x. (n, x) \<in># bm_pairs (i_map_ric_id (s_iapp (after 4))) \<and> x_xapp_id x = 7
      \<and> er_type n = SUBSCRIPTION_RIC_REQUEST_TYPE}"
  have subs: "?subs = {?n}" by (rule after_4(6))
  have "\<forall>n \<in> ?subs. \<exists>b. (er_node n, b) \<in># bm_pairs (r_e2_nodes (s_ric (after 4)))"
    using nodes after_4(1) by fastforce
  from xapp_leaves[OF inv max_fd_ok after_4(2) this] obtain ric' f p fds del where
    r: "sctp_shutdown_iapp max_fd (after 4) xapp_addr = Some ((after 4)\<lparr>s_ric := ric'\<rparr>)"
    "pending_evs ric' = pending_evs (s_ric (after 4)) \<union>
      (\<lambda>n. \<lparr>pe_ev = SUBSCRIPTION_DELETE_REQUEST_PENDING_EVENT, pe_id = er_ric_id n\<rparr>) ` ?subs"
    "ric' = (s_ric (after 4))\<lparr>r_fds := f, r_pending := p,
      r_sent := r_sent (s_ric (after 4)) @ map (\<lambda>(n, b). (b, Ric_sub_del_req \<lparr>sdr_ric_id = er_ric_id n\<rparr>)) del\<rparr>"
    "length fds = length del" "mset f = mset (r_fds (s_ric (after 4))) + mset fds"
    "fst ` set del \<subseteq> ?subs" "distinct (map (del_event \<circ> fst) del)"
    "del_event ` fst ` set del = del_event ` ?subs - pending_evs (s_ric (after 4))"
    by (elim exE conjE) (rule that)
  obtain b where del: "del = [(?n, b)]"
    using one_deletion[OF r(6)[unfolded subs] r(7)] r(8) unfolding subs after_4(5) by fastforce
  obtain fd where "fds = [fd]" using r(4) unfolding del by (auto simp: length_Suc_conv)
  then show ?thesis using r(1-3,5) unfolding subs after_4(5) del
    by (intro exI[of _ ric'] exI[of _ b] exI[of _ f] exI[of _ p] exI[of _ fd])
      (simp add: del_event_def sample_types)
qed

lemma node_and_xapp_leave_witness:
  "\<exists>s'. notification_handle_ric (after 4) e2_addr = Some s' \<and> sctp_shutdown_iapp max_fd s' xapp_addr = None"
proof (rule node_and_xapp_leave[OF _ max_fd_ok])
  show "sys_inv (after 4)" by (rule after_inv) simp
  show "(sample_n 1021 SUBSCRIPTION_RIC_REQUEST_TYPE, sample_x 1) \<in># bm_pairs (i_map_ric_id (s_iapp (after 4)))"
    by (rule after_4(3))
qed (simp_all add: sample_types after_4)

end
