(* ===== verification/E2_Agent.thy ===== *)
theory E2_Agent
  imports Near_Ric
begin

text \<open>
  The E2 agent, the library that a base station links to talk to the RIC:
  \<^verbatim>\<open>src/src/flexric/src/agent/e2_agent.c\<close>, \<^verbatim>\<open>msg_handler_agent.c\<close>, \<^verbatim>\<open>gen_msg_agent.c\<close>,
  \<^verbatim>\<open>not_handler_agent.c\<close>, \<^verbatim>\<open>asio_agent.c\<close>, the look-up of \<^verbatim>\<open>plugin_agent.c\<close> and \<^verbatim>\<open>lib/ind_event.c\<close>.

  A subscription is an entry of a bidirectional map from a file descriptor to the indication event:
  a timer for a periodic subscription, and for an aperiodic one, whose indications the base station
  triggers, the negated request number.  The service models are loaded at run time: their functions
  are fields of \<open>sm_agent_t\<close>, and what a model reads from the base station is an argument of the
  event.  As in the RIC, descriptors come from the operating system, and messages are recorded when
  they are handed to the encoder and the socket.
\<close>

subsection \<open>State\<close>

record sm_subs_data_ag_t = sm_subs_data_t +
  sd_ric_req_id :: u32

record subscribe_timer_t =
  t_ms :: int
  t_act_def :: "byte_array_t option"

datatype sm_ag_if_ans_subs_t =
    Periodic_ans subscribe_timer_t
  | Aperiodic_ans
  | End_ans

record sm_agent_t =
  sa_id :: u16
  sa_rev :: u16
  sa_oid :: byte_array_t
  sa_on_subscription :: "sm_subs_data_ag_t \<Rightarrow> sm_ag_if_ans_subs_t"
  sa_on_indication :: "byte_array_t \<Rightarrow> byte_array_t option \<Rightarrow> sm_ind_data_t option"
  sa_on_control :: "sm_ctrl_req_data_t \<Rightarrow> byte_array_t"
  sa_on_e2_setup :: byte_array_t

text \<open>The type of a subscription and its union.\<close>

datatype ind_sub_t =
    PERIODIC_SUBSCRIPTION_FLRC "byte_array_t option"
  | APERIODIC_SUBSCRIPTION_FLRC

record ind_event_t =
  iv_ric_id :: ric_gen_id_t
  iv_sm :: "sm_agent_t option"
  iv_action_id :: u8
  iv_sub :: ind_sub_t

record aind_event_t =
  ai_ric_id :: ric_gen_id_t
  ai_sm :: "sm_agent_t option"
  ai_action_id :: u8
  ai_ind_data :: byte_array_t

text \<open>
  \<open>g_fds\<close> are the descriptors that epoll watches, \<open>g_pipe\<close> the number of bytes in the pipe,
  \<open>g_aind\<close> the queue of aperiodic events (\<^verbatim>\<open>tsq.c\<close>), \<open>g_freed_subs\<close> the numbers passed to the base
  station's \<^verbatim>\<open>free_aper_subs\<close>.
\<close>

record e2_agent_t =
  g_ep_fd :: int
  g_pipe_r :: int
  g_pipe :: nat
  g_fds :: "int list"
  g_sent :: "e2ap_msg_t list"
  g_sm_ds :: "(u16, sm_agent_t) entries"
  g_ind_event :: "(int, ind_event_t) bi_map_t"
  g_pending :: "(int, pending_event_t) bi_map_t"
  g_node_id :: global_e2_node_id_t
  g_aind :: "aind_event_t list"
  g_read_setup_ran :: "ngran_node_t \<Rightarrow> e2ap_node_component_config_add_t list"
  g_trans_id :: u32
  g_freed_subs :: "u32 list"

subsection \<open>Indication events\<close>

definition cmp_ind_event :: "ind_event_t \<Rightarrow> ind_event_t \<Rightarrow> int" where
  "cmp_ind_event m0 m1 = (let cmp = cmp_ric_gen_id (iv_ric_id m0) (iv_ric_id m1) in if cmp \<noteq> 0 then cmp else cmp)"

definition eq_ind_event_ric_req_id :: "ind_event_t \<Rightarrow> ind_event_t \<Rightarrow> bool" where
  "eq_ind_event_ric_req_id value key \<longleftrightarrow> ric_req_id (iv_ric_id value) = ric_req_id (iv_ric_id key)"

definition eq_ind_event :: "ind_event_t \<Rightarrow> ind_event_t \<Rightarrow> bool" where
  "eq_ind_event value key \<longleftrightarrow> eq_ric_gen_id (iv_ric_id value) (iv_ric_id key)"

text \<open>The key of a search: an event with only the identifier set.\<close>

definition ind_key :: "ric_gen_id_t \<Rightarrow> ind_event_t" where
  "ind_key i = \<lparr>iv_ric_id = i, iv_sm = None, iv_action_id = 0, iv_sub = PERIODIC_SUBSCRIPTION_FLRC None\<rparr>"

subsection \<open>Descriptors and messages\<close>

definition add_fd_asio_agent :: "e2_agent_t \<Rightarrow> int \<Rightarrow> e2_agent_t option" where
  "add_fd_asio_agent ag fd = do {
     assert_c (fd \<notin> set (g_fds ag));
     Some (ag\<lparr>g_fds := fd # g_fds ag\<rparr>)
   }"

definition rm_fd_asio_agent :: "e2_agent_t \<Rightarrow> int \<Rightarrow> e2_agent_t option" where
  "rm_fd_asio_agent ag fd = do {
     assert_c (fd \<in> set (g_fds ag));
     Some (ag\<lparr>g_fds := remove1 fd (g_fds ag)\<rparr>)
   }"

definition create_timer_ms_asio_agent :: "(int list \<Rightarrow> int) \<Rightarrow> e2_agent_t \<Rightarrow> int \<Rightarrow> int
    \<Rightarrow> (int \<times> e2_agent_t) option" where
  "create_timer_ms_asio_agent timerfd ag initial_ms interval_ms = do {
     assert_c (initial_ms > -1);
     assert_c (interval_ms > -1);
     let tfd = timerfd (g_fds ag);
     assert_c (tfd \<noteq> -1);
     ag \<leftarrow> add_fd_asio_agent ag tfd;
     Some (tfd, ag)
   }"

definition e2ap_send_bytes_agent :: "e2_agent_t \<Rightarrow> e2ap_msg_t \<Rightarrow> e2_agent_t" where
  "e2ap_send_bytes_agent ag msg = ag\<lparr>g_sent := g_sent ag @ [msg]\<rparr>"

definition sm_plugin_ag :: "e2_agent_t \<Rightarrow> u16 \<Rightarrow> sm_agent_t option" where
  "sm_plugin_ag ag key = do {
     assert_c (key > 0);
     (k, sm) \<leftarrow> entries_find_if (eq_ran_func_id key) (g_sm_ds ag);
     assert_c (sa_id sm = key);
     Some sm
   }"

subsection \<open>The setup request\<close>

text \<open>The RAN functions, one for every service model, in the order of their identifiers.\<close>

fun gen_ran_functions :: "(u16, sm_agent_t) entries \<Rightarrow> ran_function_t list option" where
  "gen_ran_functions [] = Some []"
| "gen_ran_functions ((k, sm) # t) = do {
     assert_c (sa_id sm = k);
     let rf = \<lparr>rf_defn = sa_on_e2_setup sm, rf_id = sa_id sm, rf_rev = sa_rev sm, rf_oid = sa_oid sm\<rparr>;
     rfs \<leftarrow> gen_ran_functions t;
     Some (rf # rfs)
   }"

definition gen_setup_request_v2 :: "e2_agent_t \<Rightarrow> (e2_setup_request_t \<times> e2_agent_t) option" where
  "gen_setup_request_v2 ag = do {
     let len_rf = length (g_sm_ds ag);
     assert_c (len_rf > 0);
     let trans_id = ucast (g_trans_id ag);
     let ag = ag\<lparr>g_trans_id := g_trans_id ag + 1\<rparr>;
     ran_func \<leftarrow> gen_ran_functions (g_sm_ds ag);
     let cca = g_read_setup_ran ag (ge_type (g_node_id ag));
     Some (\<lparr>stp_trans_id = trans_id, stp_id = cp_global_e2_node_id (g_node_id ag), stp_ran_func_item = ran_func,
            stp_comp_conf_add = cca\<rparr>, ag)
   }"

subsection \<open>Pending events\<close>

definition init_pending_events_ag :: "(int, pending_event_t) bi_map_t" where
  "init_pending_events_ag = bi_map_init cmp_fd cmp_pending_event"

definition init_indication_event :: "(int, ind_event_t) bi_map_t" where
  "init_indication_event = bi_map_init cmp_fd cmp_ind_event"

text \<open>A timer of 3000 ms waits for the answer to the setup request.\<close>

definition wait_setup :: "(int list \<Rightarrow> int) \<Rightarrow> e2_agent_t \<Rightarrow> e2_agent_t option" where
  "wait_setup timerfd ag = do {
     let wait_ms = 3000;
     (fd_timer, ag) \<leftarrow> create_timer_ms_asio_agent timerfd ag wait_ms wait_ms;
     p \<leftarrow> bi_map_insert (g_pending ag) fd_timer SETUP_REQUEST_PENDING_EVENT;
     Some (ag\<lparr>g_pending := p\<rparr>)
   }"

definition stop_pending_event_ag :: "e2_agent_t \<Rightarrow> pending_event_t \<Rightarrow> e2_agent_t option" where
  "stop_pending_event_ag ag ev = do {
     (fd, p) \<leftarrow> bi_map_extract_right (g_pending ag) ev;
     let ag = ag\<lparr>g_pending := p\<rparr>;
     assert_c (fd > 0);
     rm_fd_asio_agent ag fd
   }"

subsection \<open>Starting the agent\<close>

definition e2_init_agent :: "int \<Rightarrow> int \<Rightarrow> global_e2_node_id_t \<Rightarrow> (u16, sm_agent_t) entries
    \<Rightarrow> (ngran_node_t \<Rightarrow> e2ap_node_component_config_add_t list) \<Rightarrow> e2_agent_t option" where
  "e2_init_agent ep_fd pipe_r nid sms read_setup_ran = do {
     let ag = \<lparr>g_ep_fd = ep_fd, g_pipe_r = pipe_r, g_pipe = 0, g_fds = [], g_sent = [], g_sm_ds = sms,
       g_ind_event = init_indication_event, g_pending = init_pending_events_ag, g_node_id = nid, g_aind = [],
       g_read_setup_ran = read_setup_ran, g_trans_id = 0, g_freed_subs = []\<rparr>;
     ag \<leftarrow> add_fd_asio_agent ag pipe_r;
     add_fd_asio_agent ag ep_fd
   }"

definition e2_start_agent :: "(int list \<Rightarrow> int) \<Rightarrow> e2_agent_t \<Rightarrow> e2_agent_t option" where
  "e2_start_agent timerfd ag = do {
     (sr, ag) \<leftarrow> gen_setup_request_v2 ag;
     ag \<leftarrow> wait_setup timerfd ag;
     Some (e2ap_send_bytes_agent ag (E2_stp_req sr))
   }"

subsection \<open>Messages of the RIC\<close>

definition supported_ric_subscription_request :: "ric_subscription_request_t \<Rightarrow> bool option" where
  "supported_ric_subscription_request sr = do {
     assert_c (length (sr_action sr) = 1);
     assert_c (act_type (hd (sr_action sr)) = RIC_ACT_REPORT);
     Some True
   }"

definition generate_sm_subs_data :: "ric_subscription_request_t \<Rightarrow> sm_subs_data_ag_t" where
  "generate_sm_subs_data sr = \<lparr>sd_event_trigger = event_trigger sr,
     sd_action_def = act_definition (hd (sr_action sr)), sd_ric_req_id = ric_req_id (sr_ric_id sr)\<rparr>"

definition generate_subscription_response :: "ric_gen_id_t \<Rightarrow> u8 \<Rightarrow> ric_subscription_response_t" where
  "generate_subscription_response ric_id ric_act_id =
     \<lparr>sresp_ric_id = ric_id, admitted = [\<lparr>adm_ric_act_id = ric_act_id\<rparr>], not_admitted = []\<rparr>"

text \<open>The key of an aperiodic subscription: the negation of the 32-bit number, read as an \<^verbatim>\<open>int\<close>.\<close>

definition aper_fd :: "ric_gen_id_t \<Rightarrow> int" where
  "aper_fd i = sint (- ric_req_id i)"

definition e2ap_handle_subscription_request_agent :: "(int list \<Rightarrow> int) \<Rightarrow> e2_agent_t \<Rightarrow> ric_subscription_request_t
    \<Rightarrow> (e2ap_msg_t \<times> e2_agent_t) option" where
  "e2ap_handle_subscription_request_agent timerfd ag sr = do {
     ok \<leftarrow> supported_ric_subscription_request sr;
     assert_c ok;
     let data = generate_sm_subs_data sr;
     sm \<leftarrow> sm_plugin_ag ag (ran_func_id (sr_ric_id sr));
     let act = act_id (hd (sr_action sr));
     ag \<leftarrow> (case sa_on_subscription sm data of
         Periodic_ans t \<Rightarrow> do {
           let ev = \<lparr>iv_ric_id = sr_ric_id sr, iv_sm = Some sm, iv_action_id = act,
                     iv_sub = PERIODIC_SUBSCRIPTION_FLRC (t_act_def t)\<rparr>;
           assert_c (t_ms t < 10001);
           (fd_timer, ag) \<leftarrow> create_timer_ms_asio_agent timerfd ag (t_ms t) (t_ms t);
           m \<leftarrow> bi_map_insert (g_ind_event ag) fd_timer ev;
           Some (ag\<lparr>g_ind_event := m\<rparr>)
         }
       | Aperiodic_ans \<Rightarrow> do {
           let ev = \<lparr>iv_ric_id = sr_ric_id sr, iv_sm = Some sm, iv_action_id = act,
                     iv_sub = APERIODIC_SUBSCRIPTION_FLRC\<rparr>;
           m \<leftarrow> bi_map_insert (g_ind_event ag) (aper_fd (sr_ric_id sr)) ev;
           Some (ag\<lparr>g_ind_event := m\<rparr>)
         }
       | End_ans \<Rightarrow> None);
     Some (Ric_sub_resp (generate_subscription_response (sr_ric_id sr) act), ag)
   }"

definition stop_ind_event :: "e2_agent_t \<Rightarrow> ric_gen_id_t \<Rightarrow> (bool \<times> e2_agent_t) option" where
  "stop_ind_event ag i = do {
     let tmp = ind_key i;
     case entries_find_if (eq_ind_event tmp) (bm_right (g_ind_event ag)) of
       None \<Rightarrow> Some (False, ag)
     | Some (ind_ev, fd0) \<Rightarrow> do {
         ag \<leftarrow> (case iv_sub ind_ev of
             PERIODIC_SUBSCRIPTION_FLRC act_def \<Rightarrow> do { sm \<leftarrow> iv_sm ind_ev; Some ag }
           | APERIODIC_SUBSCRIPTION_FLRC \<Rightarrow> Some (ag\<lparr>g_freed_subs := g_freed_subs ag @ [ric_req_id i]\<rparr>));
         (fd, m) \<leftarrow> bi_map_extract_right (g_ind_event ag) tmp;
         let ag = ag\<lparr>g_ind_event := m\<rparr>;
         ag \<leftarrow> (if fd > -1 then rm_fd_asio_agent ag fd else Some ag);
         Some (True, ag)
       }
   }"

definition e2ap_handle_subscription_delete_request_agent :: "e2_agent_t \<Rightarrow> ric_subscription_delete_request_t
    \<Rightarrow> (e2ap_msg_t \<times> e2_agent_t) option" where
  "e2ap_handle_subscription_delete_request_agent ag sdr = do {
     (found, ag) \<leftarrow> stop_ind_event ag (sdr_ric_id sdr);
     Some (Ric_sub_del_resp \<lparr>sdresp_ric_id = sdr_ric_id sdr\<rparr>, ag)
   }"

definition ba_from_ctrl_out :: "byte_array_t \<Rightarrow> byte_array_t option" where
  "ba_from_ctrl_out data = (if length data > 0 then Some data else None)"

definition e2ap_handle_control_request_agent :: "e2_agent_t \<Rightarrow> ric_control_request_t
    \<Rightarrow> (e2ap_msg_t \<times> e2_agent_t) option" where
  "e2ap_handle_control_request_agent ag ctrl_req = do {
     ack_req \<leftarrow> cr_ack_req ctrl_req;
     assert_c (ack_req = RIC_CONTROL_REQUEST_ACK);
     let data = \<lparr>cd_ctrl_hdr = cr_hdr ctrl_req, cd_ctrl_msg = cr_msg ctrl_req\<rparr>;
     sm \<leftarrow> sm_plugin_ag ag (ran_func_id (cr_ric_id ctrl_req));
     let ctrl_ans = sa_on_control sm data;
     Some (Ric_ctrl_ack \<lparr>ack_ric_id = cr_ric_id ctrl_req, ack_call_process_id = None,
       ack_control_outcome = ba_from_ctrl_out ctrl_ans\<rparr>, ag)
   }"

definition e2ap_handle_setup_response_agent :: "e2_agent_t \<Rightarrow> e2_setup_response_t
    \<Rightarrow> (e2ap_msg_t \<times> e2_agent_t) option" where
  "e2ap_handle_setup_response_agent ag resp = do {
     ag \<leftarrow> stop_pending_event_ag ag SETUP_REQUEST_PENDING_EVENT;
     assert_c (g_trans_id ag > 0);
     Some (no_msg, ag\<lparr>g_trans_id := 0\<rparr>)
   }"

fun cause_num :: "cause_e \<Rightarrow> nat" where
  "cause_num CAUSE_NOTHING = 0"
| "cause_num CAUSE_RICREQUEST = 1"
| "cause_num CAUSE_RICSERVICE = 2"
| "cause_num CAUSE_E2NODE = 3"
| "cause_num CAUSE_TRANSPORT = 4"
| "cause_num CAUSE_PROTOCOL = 5"
| "cause_num CAUSE_MISC = 6"

text \<open>The two indices into the tables of names that are printed.\<close>

definition e2ap_handle_setup_failure_agent :: "e2_agent_t \<Rightarrow> e2_setup_failure_t
    \<Rightarrow> (e2ap_msg_t \<times> e2_agent_t) option" where
  "e2ap_handle_setup_failure_agent ag e2_stp_fail = do {
     let present = cause_num (cause_present (stpf_cause e2_stp_fail));
     assert_c (present < 6);
     let idx = sint (cause_val (stpf_cause e2_stp_fail));
     assert_c (idx < 11);
     assert_c (0 \<le> idx);
     Some (no_msg, ag)
   }"

definition check_valid_msg_type_agent :: "e2_msg_type_t \<Rightarrow> bool" where
  "check_valid_msg_type_agent t \<longleftrightarrow> t = RIC_SUBSCRIPTION_REQUEST \<or> t = RIC_SUBSCRIPTION_DELETE_REQUEST
     \<or> t = RIC_CONTROL_REQUEST \<or> t = E2AP_ERROR_INDICATION \<or> t = E2_SETUP_RESPONSE \<or> t = E2_SETUP_FAILURE
     \<or> t = E2AP_RESET_REQUEST \<or> t = E2AP_RESET_RESPONSE \<or> t = RIC_SERVICE_UPDATE_ACKNOWLEDGE
     \<or> t = RIC_SERVICE_UPDATE_FAILURE \<or> t = RIC_SERVICE_QUERY \<or> t = E2_NODE_CONFIGURATION_UPDATE_ACKNOWLEDGE
     \<or> t = E2_NODE_CONFIGURATION_UPDATE_FAILURE \<or> t = E2_CONNECTION_UPDATE"

text \<open>The table of handlers; the handlers that are left out only fail an assertion.\<close>

fun handle_msg_agent :: "(int list \<Rightarrow> int) \<Rightarrow> e2_agent_t \<Rightarrow> e2ap_msg_t \<Rightarrow> (e2ap_msg_t \<times> e2_agent_t) option" where
  "handle_msg_agent timerfd ag (Ric_sub_req m) = e2ap_handle_subscription_request_agent timerfd ag m"
| "handle_msg_agent timerfd ag (Ric_sub_del_req m) = e2ap_handle_subscription_delete_request_agent ag m"
| "handle_msg_agent timerfd ag (Ric_ctrl_req m) = e2ap_handle_control_request_agent ag m"
| "handle_msg_agent timerfd ag (E2_stp_resp m) = e2ap_handle_setup_response_agent ag m"
| "handle_msg_agent timerfd ag (E2_stp_fail m) = e2ap_handle_setup_failure_agent ag m"
| "handle_msg_agent timerfd ag _ = None"

definition e2ap_msg_handle_agent :: "(int list \<Rightarrow> int) \<Rightarrow> e2_agent_t \<Rightarrow> e2ap_msg_t
    \<Rightarrow> (e2ap_msg_t \<times> e2_agent_t) option" where
  "e2ap_msg_handle_agent timerfd ag msg = do {
     assert_c (check_valid_msg_type_agent (msg_type msg));
     handle_msg_agent timerfd ag msg
   }"

text \<open>The RIC closed the association.\<close>

definition notification_handle_ag :: "(int list \<Rightarrow> int) \<Rightarrow> e2_agent_t \<Rightarrow> e2_agent_t option" where
  "notification_handle_ag timerfd ag = wait_setup timerfd ag"

end
