(* ===== verification/Agent_Loop.thy ===== *)
theory Agent_Loop
  imports E2_Agent
begin

text \<open>
  The event loop of the E2 agent (\<^verbatim>\<open>agent/e2_agent.c\<close>): which event a ready descriptor is, what the
  loop does with it, and the aperiodic events that the threads of the base station hand in.

  A thread that hands in an event pushes it into the queue and then writes its number, in decimal
  digits, into the pipe; the loop empties the queue and reads four bytes of the pipe for every event.
  Here the push and the write are one step: the pipe blocks, so a loop that has popped an event whose
  number is not written yet waits in its read for the write.  A read of an empty pipe would block the loop, which is
  \<open>None\<close>, as an abort is.
\<close>

subsection \<open>Events\<close>

text \<open>What the socket delivers: a message, or the notification that the association is closed.\<close>

datatype sctp_rcv = Sctp_payload e2ap_msg_t | Sctp_notification

datatype async_event_t =
    CHECK_STOP_TOKEN_EVENT
  | SCTP_CONNECTION_SHUTDOWN_EVENT
  | SCTP_MSG_ARRIVED_EVENT e2ap_msg_t
  | INDICATION_EVENT int ind_event_t
  | APERIODIC_INDICATION_EVENT "aind_event_t list"
  | PENDING_EVENT int pending_event_t

definition net_pkt_ag :: "e2_agent_t \<Rightarrow> int \<Rightarrow> bool option" where
  "net_pkt_ag ag fd = do { assert_c (fd > 0); Some (fd = g_ep_fd ag) }"

text \<open>The events that the queue holds, all popped; none if the descriptor is not the pipe.\<close>

definition aind_event :: "e2_agent_t \<Rightarrow> int \<Rightarrow> (aind_event_t list option \<times> e2_agent_t) option" where
  "aind_event ag fd =
     (if fd \<noteq> g_pipe_r ag then Some (None, ag)
      else do {
        let sz = length (g_aind ag);
        assert_c (sz > 0);
        Some (Some (take sz (g_aind ag)), ag\<lparr>g_aind := drop sz (g_aind ag)\<rparr>)
      })"

definition ind_event :: "e2_agent_t \<Rightarrow> int \<Rightarrow> ind_event_t option option" where
  "ind_event ag fd = do {
     assert_c (fd > 0);
     Some (map_option snd (entries_find_if (\<lambda>k. fd = k) (bm_left (g_ind_event ag))))
   }"

definition pend_event_ag :: "e2_agent_t \<Rightarrow> int \<Rightarrow> pending_event_t option" where
  "pend_event_ag ag fd = do {
     assert_c (fd > 0);
     sz \<leftarrow> bi_map_size (g_pending ag);
     assert_c (sz = 1);
     map_option snd (entries_find_if (\<lambda>k. fd = k) (bm_left (g_pending ag)))
   }"

definition next_async_event_agent :: "e2_agent_t \<Rightarrow> int \<Rightarrow> sctp_rcv \<Rightarrow> (async_event_t \<times> e2_agent_t) option" where
  "next_async_event_agent ag fd rcv =
     (if fd = -1 then Some (CHECK_STOP_TOKEN_EVENT, ag)
      else do {
        net \<leftarrow> net_pkt_ag ag fd;
        if net then Some (case rcv of
            Sctp_notification \<Rightarrow> (SCTP_CONNECTION_SHUTDOWN_EVENT, ag)
          | Sctp_payload msg \<Rightarrow> (SCTP_MSG_ARRIVED_EVENT msg, ag))
        else do {
          (arr, ag) \<leftarrow> aind_event ag fd;
          case arr of
            Some arr \<Rightarrow> Some (APERIODIC_INDICATION_EVENT arr, ag)
          | None \<Rightarrow> do {
              i_ev \<leftarrow> ind_event ag fd;
              case i_ev of
                Some ev \<Rightarrow> Some (INDICATION_EVENT fd ev, ag)
              | None \<Rightarrow> do { p_ev \<leftarrow> pend_event_ag ag fd; Some (PENDING_EVENT fd p_ev, ag) }
            }
        }
      })"

subsection \<open>Indications\<close>

definition generate_aindication :: "sm_ind_data_t \<Rightarrow> aind_event_t \<Rightarrow> ric_indication_t" where
  "generate_aindication data ai_ev = \<lparr>ind_ric_id = ai_ric_id ai_ev, ind_action_id = ai_action_id ai_ev,
     ind_sn = None, ind_type = RIC_IND_REPORT, ind_hdr = id_ind_hdr data, ind_msg = id_ind_msg data,
     ind_call_process_id = id_call_process_id data\<rparr>"

definition generate_indication :: "sm_ind_data_t \<Rightarrow> ind_event_t \<Rightarrow> ric_indication_t" where
  "generate_indication data i_ev = \<lparr>ind_ric_id = iv_ric_id i_ev, ind_action_id = iv_action_id i_ev,
     ind_sn = None, ind_type = RIC_IND_REPORT, ind_hdr = id_ind_hdr data, ind_msg = id_ind_msg data,
     ind_call_process_id = id_call_process_id data\<rparr>"

definition consume_fd_async :: "e2_agent_t \<Rightarrow> (nat \<times> e2_agent_t) option" where
  "consume_fd_async ag = do {
     assert_c (g_pipe ag > 0);
     let bytes = min 4 (g_pipe ag);
     Some (bytes, ag\<lparr>g_pipe := g_pipe ag - bytes\<rparr>)
   }"

text \<open>\<open>rd i\<close> is what the service model of the \<open>i\<close>-th event reads from the base station.\<close>

fun aperiodic_loop :: "(nat \<Rightarrow> byte_array_t) \<Rightarrow> nat \<Rightarrow> e2_agent_t \<Rightarrow> aind_event_t list \<Rightarrow> e2_agent_t option" where
  "aperiodic_loop rd i ag [] = Some ag"
| "aperiodic_loop rd i ag (ev # evs) = do {
     sm \<leftarrow> ai_sm ev;
     let ag = (case sa_on_indication sm (rd i) (Some (ai_ind_data ev)) of
         None \<Rightarrow> ag
       | Some data \<Rightarrow> e2ap_send_bytes_agent ag (Ric_ind (generate_aindication data ev)));
     (rc, ag) \<leftarrow> consume_fd_async ag;
     assert_c (rc \<noteq> 1);
     aperiodic_loop rd (Suc i) ag evs
   }"

definition periodic_indication :: "(nat \<Rightarrow> byte_array_t) \<Rightarrow> e2_agent_t \<Rightarrow> ind_event_t \<Rightarrow> e2_agent_t option" where
  "periodic_indication rd ag ev = do {
     sm \<leftarrow> iv_sm ev;
     act_def \<leftarrow> (case iv_sub ev of PERIODIC_SUBSCRIPTION_FLRC a \<Rightarrow> Some a | APERIODIC_SUBSCRIPTION_FLRC \<Rightarrow> None);
     Some (case sa_on_indication sm (rd 0) act_def of
         None \<Rightarrow> ag
       | Some data \<Rightarrow> e2ap_send_bytes_agent ag (Ric_ind (generate_indication data ev)))
   }"

subsection \<open>The loop\<close>

definition msg_arrived_ag :: "(int list \<Rightarrow> int) \<Rightarrow> e2_agent_t \<Rightarrow> e2ap_msg_t \<Rightarrow> e2_agent_t option" where
  "msg_arrived_ag timerfd ag msg = do {
     (ans, ag) \<leftarrow> e2ap_msg_handle_agent timerfd ag msg;
     Some (if msg_type ans \<noteq> NONE_E2_MSG_TYPE then e2ap_send_bytes_agent ag ans else ag)
   }"

definition resend_setup_ag :: "e2_agent_t \<Rightarrow> pending_event_t \<Rightarrow> e2_agent_t option" where
  "resend_setup_ag ag p_ev = do {
     assert_c (p_ev = SETUP_REQUEST_PENDING_EVENT);
     (sr, ag) \<leftarrow> gen_setup_request_v2 ag;
     Some (e2ap_send_bytes_agent ag (E2_stp_req sr))
   }"

fun handle_async_event :: "(int list \<Rightarrow> int) \<Rightarrow> (nat \<Rightarrow> byte_array_t) \<Rightarrow> e2_agent_t \<Rightarrow> async_event_t \<Rightarrow> e2_agent_t option" where
  "handle_async_event timerfd rd ag (SCTP_MSG_ARRIVED_EVENT msg) = msg_arrived_ag timerfd ag msg"
| "handle_async_event timerfd rd ag (APERIODIC_INDICATION_EVENT arr) = do {
     assert_c (length arr > 0);
     aperiodic_loop rd 0 ag arr
   }"
| "handle_async_event timerfd rd ag (INDICATION_EVENT fd ev) = periodic_indication rd ag ev"
| "handle_async_event timerfd rd ag (PENDING_EVENT fd p_ev) = resend_setup_ag ag p_ev"
| "handle_async_event timerfd rd ag SCTP_CONNECTION_SHUTDOWN_EVENT = notification_handle_ag timerfd ag"
| "handle_async_event timerfd rd ag CHECK_STOP_TOKEN_EVENT = Some ag"

text \<open>One round of \<^verbatim>\<open>e2_event_loop_agent\<close>, with the descriptor that epoll reports.\<close>

definition agent_round :: "(int list \<Rightarrow> int) \<Rightarrow> e2_agent_t \<Rightarrow> int \<Rightarrow> sctp_rcv \<Rightarrow> (nat \<Rightarrow> byte_array_t)
    \<Rightarrow> e2_agent_t option" where
  "agent_round timerfd ag fd rcv rd = do {
     (e, ag) \<leftarrow> next_async_event_agent ag fd rcv;
     handle_async_event timerfd rd ag e
   }"

subsection \<open>Events of the base station\<close>

fun decimal_len :: "nat \<Rightarrow> nat" where
  "decimal_len n = (if n < 10 then 1 else Suc (decimal_len (n div 10)))"

definition e2_async_event_agent :: "e2_agent_t \<Rightarrow> u32 \<Rightarrow> byte_array_t \<Rightarrow> e2_agent_t option" where
  "e2_async_event_agent ag r ind_data = do {
     let tmp = ind_key \<lparr>ric_req_id = r, ric_inst_id = 0, ran_func_id = 0\<rparr>;
     (ind_ev, fd) \<leftarrow> entries_find_if (eq_ind_event_ric_req_id tmp) (bm_right (g_ind_event ag));
     let aind = \<lparr>ai_ric_id = iv_ric_id ind_ev, ai_sm = iv_sm ind_ev, ai_action_id = iv_action_id ind_ev,
                 ai_ind_data = ind_data\<rparr>;
     let ag = ag\<lparr>g_aind := g_aind ag @ [aind]\<rparr>;
     let rc = decimal_len (unat r);
     assert_c (0 < rc \<and> rc < 31);
     Some (ag\<lparr>g_pipe := g_pipe ag + rc\<rparr>)
   }"

text \<open>The inputs of the agent.\<close>

datatype agent_input =
    Start
  | Ready int sctp_rcv "nat \<Rightarrow> byte_array_t"
  | Async u32 byte_array_t

fun agent_step :: "(int list \<Rightarrow> int) \<Rightarrow> e2_agent_t \<Rightarrow> agent_input \<Rightarrow> e2_agent_t option" where
  "agent_step timerfd ag Start = e2_start_agent timerfd ag"
| "agent_step timerfd ag (Ready fd rcv rd) = agent_round timerfd ag fd rcv rd"
| "agent_step timerfd ag (Async r ind_data) = e2_async_event_agent ag r ind_data"

end
