(* ===== verification/Agent_Laws.thy ===== *)
theory Agent_Laws
  imports Agent_Loop
begin

text \<open>
  What the agent keeps: its maps and the descriptors that epoll watches belong together, every
  subscription has a service model and a key of its own, and the pipe holds the bytes that the loop
  reads for the queued events.  The inputs that respect the contract of the RIC and of the base
  station are \<open>input_ok\<close>.
\<close>

subsection \<open>Keys\<close>

lemma cmp_ind_event_ric: "cmp_ind_event a b = cmp_ric_gen_id (iv_ric_id a) (iv_ric_id b)"
  by (simp add: cmp_ind_event_def)

interpretation ind_cmp: comparator cmp_ind_event
  by unfold_locales
    (unfold cmp_ind_event_ric, (rule ric_gen_cmp.cmp_self ric_gen_cmp.cmp_flip ric_gen_cmp.cmp_range
      | erule (1) ric_gen_cmp.cmp_less_trans | erule ric_gen_cmp.cmp_cong)+)

interpretation ind_map: bimap_cmps cmp_fd cmp_ind_event
  by unfold_locales

interpretation setup_map: bimap_cmps cmp_fd cmp_pending_event
  by unfold_locales

lemma cmp_ind_event_zero [simp]: "cmp_ind_event a b = 0 \<longleftrightarrow> iv_ric_id a = iv_ric_id b"
  by (simp add: cmp_ind_event_def)

lemma eq_ind_event_iff [simp]: "eq_ind_event a b \<longleftrightarrow> iv_ric_id a = iv_ric_id b"
  by (auto simp: eq_ind_event_def eq_ric_gen_id_def)

lemma iv_ric_id_key [simp]: "iv_ric_id (ind_key i) = i"
  by (simp add: ind_key_def)

lemma aper_fd_small:
  assumes "0 < unat (ric_req_id i)" "unat (ric_req_id i) < 2 ^ 31"
  shows "aper_fd i = - int (unat (ric_req_id i))"
proof -
  let ?r = "ric_req_id i"
  have "sint (- ?r) = signed_take_bit 31 (- uint ?r)"
    using sint_sbintrunc'[of "- uint ?r", where ?'a = 32] by simp
  have u: "int (unat ?r) = uint ?r" by simp
  have pos: "0 \<le> uint ?r" by simp
  have "unat ?r < 2147483648" using assms(2) by simp
  then have "uint ?r < 2147483648" unfolding u[symmetric] by linarith
  then have "signed_take_bit 31 (- uint ?r) = - uint ?r"
    using pos by (intro signed_take_bit_int_eq_self; simp; linarith)
  with \<open>sint (- ?r) = signed_take_bit 31 (- uint ?r)\<close> show ?thesis by (simp add: aper_fd_def)
qed

lemma aper_fd_neg:
  assumes "0 < unat (ric_req_id i)" "unat (ric_req_id i) < 2 ^ 31"
  shows "aper_fd i < 0"
  using assms(1) unfolding aper_fd_small[OF assms] by linarith

lemma aper_fd_inj [simp]: "aper_fd i = aper_fd j \<longleftrightarrow> ric_req_id i = ric_req_id j"
  unfolding aper_fd_def word_eq_iff_signed[symmetric] by simp

subsection \<open>The invariant\<close>

abbreviation subs :: "e2_agent_t \<Rightarrow> (int \<times> ind_event_t) multiset" where
  "subs ag \<equiv> bm_pairs (g_ind_event ag)"

abbreviation waits :: "e2_agent_t \<Rightarrow> (int \<times> pending_event_t) multiset" where
  "waits ag \<equiv> bm_pairs (g_pending ag)"

definition sms_ok :: "(u16, sm_agent_t) entries \<Rightarrow> bool" where
  "sms_ok sms \<longleftrightarrow> sms \<noteq> [] \<and> distinct (map fst sms) \<and> (\<forall>(k, sm) \<in> set sms. sa_id sm = k \<and> 0 < k)"

definition sub_ok :: "e2_agent_t \<Rightarrow> int \<times> ind_event_t \<Rightarrow> bool" where
  "sub_ok ag p \<longleftrightarrow> 0 < unat (ric_req_id (iv_ric_id (snd p))) \<and> unat (ric_req_id (iv_ric_id (snd p))) < 2 ^ 31
     \<and> (\<exists>sm. iv_sm (snd p) = Some sm \<and> sm_plugin_ag ag (ran_func_id (iv_ric_id (snd p))) = Some sm)
     \<and> (case iv_sub (snd p) of
          PERIODIC_SUBSCRIPTION_FLRC a \<Rightarrow> 0 < fst p
        | APERIODIC_SUBSCRIPTION_FLRC \<Rightarrow> fst p = aper_fd (iv_ric_id (snd p)))"

definition queue_ok :: "e2_agent_t \<Rightarrow> bool" where
  "queue_ok ag \<longleftrightarrow> (\<forall>a \<in> set (g_aind ag). ai_sm a \<noteq> None) \<and> 4 * length (g_aind ag) \<le> g_pipe ag"

definition ag_inv :: "e2_agent_t \<Rightarrow> bool" where
  "ag_inv ag \<longleftrightarrow> bm_ok cmp_fd cmp_ind_event (g_ind_event ag) \<and> bm_ok cmp_fd cmp_pending_event (g_pending ag)
     \<and> mset (g_fds ag) = {#g_ep_fd ag, g_pipe_r ag#} + image_mset fst (waits ag)
         + filter_mset (\<lambda>fd. 0 < fd) (image_mset fst (subs ag))
     \<and> distinct (g_fds ag) \<and> (\<forall>fd \<in> set (g_fds ag). 0 < fd)
     \<and> (\<forall>p \<in># subs ag. sub_ok ag p)
     \<and> size (waits ag) \<le> 1 \<and> (\<forall>p \<in># waits ag. snd p = SETUP_REQUEST_PENDING_EVENT)
     \<and> queue_ok ag \<and> sms_ok (g_sm_ds ag)"

lemma ag_inv_frame [simp]:
  "ag_inv (ag\<lparr>g_sent := x\<rparr>) = ag_inv ag" "ag_inv (ag\<lparr>g_trans_id := t\<rparr>) = ag_inv ag"
  "ag_inv (ag\<lparr>g_freed_subs := f\<rparr>) = ag_inv ag"
  by (simp_all add: ag_inv_def sub_ok_def sm_plugin_ag_def queue_ok_def)

lemma plugin_same [simp]:
  "sm_plugin_ag (ag\<lparr>g_fds := f\<rparr>) k = sm_plugin_ag ag k" "sm_plugin_ag (ag\<lparr>g_ind_event := m\<rparr>) k = sm_plugin_ag ag k"
  "sm_plugin_ag (ag\<lparr>g_pending := p\<rparr>) k = sm_plugin_ag ag k" "sm_plugin_ag (ag\<lparr>g_aind := q\<rparr>) k = sm_plugin_ag ag k"
  "sm_plugin_ag (ag\<lparr>g_pipe := n\<rparr>) k = sm_plugin_ag ag k" "sm_plugin_ag (ag\<lparr>g_sent := s\<rparr>) k = sm_plugin_ag ag k"
  "sm_plugin_ag (ag\<lparr>g_trans_id := t\<rparr>) k = sm_plugin_ag ag k" "sm_plugin_ag (ag\<lparr>g_freed_subs := u\<rparr>) k = sm_plugin_ag ag k"
  by (simp_all add: sm_plugin_ag_def)

lemma sub_ok_same: "(\<And>k. sm_plugin_ag ag' k = sm_plugin_ag ag k) \<Longrightarrow> sub_ok ag' p = sub_ok ag p"
  by (simp add: sub_ok_def)

lemma inv_parts:
  assumes "ag_inv ag"
  shows "bm_ok cmp_fd cmp_ind_event (g_ind_event ag)" "bm_ok cmp_fd cmp_pending_event (g_pending ag)"
    "distinct (g_fds ag)" "\<And>fd. fd \<in> set (g_fds ag) \<Longrightarrow> 0 < fd" "\<And>p. p \<in># subs ag \<Longrightarrow> sub_ok ag p"
    "queue_ok ag" "sms_ok (g_sm_ds ag)"
  using assms by (auto simp: ag_inv_def)

lemma watched:
  assumes "ag_inv ag"
  shows "set (g_fds ag) = {g_ep_fd ag, g_pipe_r ag} \<union> fst ` set_mset (waits ag) \<union> {fd \<in> fst ` set_mset (subs ag). 0 < fd}"
proof -
  have "set_mset (mset (g_fds ag)) = set_mset ({#g_ep_fd ag, g_pipe_r ag#} + image_mset fst (waits ag)
      + filter_mset (\<lambda>fd. 0 < fd) (image_mset fst (subs ag)))" using assms by (simp add: ag_inv_def)
  then show ?thesis by auto
qed

lemma ep_pipe:
  assumes "ag_inv ag"
  shows "g_ep_fd ag \<noteq> g_pipe_r ag" "0 < g_ep_fd ag" "0 < g_pipe_r ag"
    "\<And>fd ev. (fd, ev) \<in># waits ag \<Longrightarrow> fd \<noteq> g_ep_fd ag \<and> fd \<noteq> g_pipe_r ag \<and> 0 < fd"
    "\<And>fd ev. (fd, ev) \<in># subs ag \<Longrightarrow> 0 < fd \<Longrightarrow> fd \<noteq> g_ep_fd ag \<and> fd \<noteq> g_pipe_r ag"
    "\<And>fd ev ev'. (fd, ev) \<in># waits ag \<Longrightarrow> (fd, ev') \<in># subs ag \<Longrightarrow> False"
proof -
  let ?w = "image_mset fst (waits ag)" and ?s = "filter_mset (\<lambda>fd. 0 < fd) (image_mset fst (subs ag))"
  have m: "mset (g_fds ag) = {#g_ep_fd ag, g_pipe_r ag#} + ?w + ?s" using assms by (simp add: ag_inv_def)
  have c: "count {#g_ep_fd ag, g_pipe_r ag#} x + count ?w x + count ?s x \<le> 1" for x
    using inv_parts(3)[OF assms] unfolding count_union[symmetric] m[symmetric] by (simp add: distinct_count_atmost_1)
  have ne: "x \<noteq> g_ep_fd ag \<and> x \<noteq> g_pipe_r ag" if "count {#g_ep_fd ag, g_pipe_r ag#} x = 0" for x
    using that by (auto split: if_splits)
  show "g_ep_fd ag \<noteq> g_pipe_r ag" using c[of "g_ep_fd ag"] by (auto split: if_splits)
  have pos: "\<And>fd. fd \<in> set (g_fds ag) \<Longrightarrow> 0 < fd" by (rule inv_parts(4)[OF assms])
  show "0 < g_ep_fd ag" "0 < g_pipe_r ag" using pos watched[OF assms] by auto
  have w: "1 \<le> count ?w fd \<and> 0 < fd" if "(fd, ev) \<in># waits ag" for fd ev
  proof -
    have fw: "fd \<in># ?w" using that by (force simp: image_iff)
    moreover have "fd \<in> set (g_fds ag)" unfolding watched[OF assms] using fw by auto
    ultimately show ?thesis using pos by (simp add: Suc_le_eq)
  qed
  have sb: "1 \<le> count ?s fd" if "(fd, ev) \<in># subs ag" "0 < fd" for fd ev
  proof -
    have "fd \<in># ?s" using that by (force simp: image_iff)
    then show ?thesis by (simp only: Suc_le_eq One_nat_def count_greater_zero_iff)
  qed
  show "fd \<noteq> g_ep_fd ag \<and> fd \<noteq> g_pipe_r ag \<and> 0 < fd" if "(fd, ev) \<in># waits ag" for fd ev
  proof -
    have "count {#g_ep_fd ag, g_pipe_r ag#} fd = 0" using c[of fd] w[OF that] by linarith
    then show ?thesis using ne w[OF that] by blast
  qed
  show "fd \<noteq> g_ep_fd ag \<and> fd \<noteq> g_pipe_r ag" if "(fd, ev) \<in># subs ag" "0 < fd" for fd ev
  proof -
    have "count {#g_ep_fd ag, g_pipe_r ag#} fd = 0" using c[of fd] sb[OF that] by linarith
    then show ?thesis by (rule ne)
  qed
  show False if "(fd, ev) \<in># waits ag" "(fd, ev') \<in># subs ag" for fd ev ev'
    using c[of fd] w[OF that(1)] sb[OF that(2)] by linarith
qed

lemma gen_ran_functions_ok:
  assumes "sms_ok sms"
  shows "\<exists>rfs. gen_ran_functions sms = Some rfs \<and> map rf_id rfs = map fst sms"
proof -
  have g: "\<exists>rfs. gen_ran_functions t = Some rfs \<and> map rf_id rfs = map fst t" if "\<forall>(k, sm) \<in> set t. sa_id sm = k" for t
    using that by (induction t) auto
  show ?thesis by (rule g) (use assms in \<open>auto simp: sms_ok_def\<close>)
qed

subsection \<open>Timers\<close>

definition gained :: "(int list \<Rightarrow> int) \<Rightarrow> e2_agent_t \<Rightarrow> int" where
  "gained timerfd ag = timerfd (g_fds ag)"

lemma create_timer_ok:
  assumes "timerfd_ok timerfd" "-1 < ms"
  shows "create_timer_ms_asio_agent timerfd ag ms ms
    = Some (gained timerfd ag, ag\<lparr>g_fds := gained timerfd ag # g_fds ag\<rparr>)"
    "0 < gained timerfd ag" "gained timerfd ag \<notin> set (g_fds ag)"
proof -
  show g: "0 < gained timerfd ag" "gained timerfd ag \<notin> set (g_fds ag)"
    using assms(1) by (auto simp: timerfd_ok_def gained_def)
  have "gained timerfd ag \<noteq> - 1" using g(1) by linarith
  then show "create_timer_ms_asio_agent timerfd ag ms ms
    = Some (gained timerfd ag, ag\<lparr>g_fds := gained timerfd ag # g_fds ag\<rparr>)"
    using g assms(2) by (simp add: create_timer_ms_asio_agent_def add_fd_asio_agent_def gained_def[symmetric] Let_def)
qed

lemma wait_setup_ok:
  assumes "ag_inv ag" "timerfd_ok timerfd" "waits ag = {#}"
  shows "\<exists>p. wait_setup timerfd ag = Some (ag\<lparr>g_fds := gained timerfd ag # g_fds ag, g_pending := p\<rparr>)
    \<and> ag_inv (ag\<lparr>g_fds := gained timerfd ag # g_fds ag, g_pending := p\<rparr>)
    \<and> bm_pairs p = {#(gained timerfd ag, SETUP_REQUEST_PENDING_EVENT)#}"
proof -
  note t = create_timer_ok[OF assms(2), of 3000 ag]
  obtain p where p: "bi_map_insert (g_pending ag) (gained timerfd ag) SETUP_REQUEST_PENDING_EVENT = Some p"
    "bm_ok cmp_fd cmp_pending_event p" "bm_pairs p = {#(gained timerfd ag, SETUP_REQUEST_PENDING_EVENT)#}"
    using setup_map.ok_insert[OF inv_parts(2)[OF assms(1)], of "gained timerfd ag" SETUP_REQUEST_PENDING_EVENT] assms(3) by auto
  have "ag_inv (ag\<lparr>g_fds := gained timerfd ag # g_fds ag, g_pending := p\<rparr>)"
    using assms(1,3) p(2,3) t by (simp add: ag_inv_def sub_ok_def queue_ok_def)
  then show ?thesis using t p by (intro exI[of _ p]) (simp add: wait_setup_def)
qed

lemma waiting:
  assumes "ag_inv ag" "waits ag \<noteq> {#}"
  obtains fd where "waits ag = {#(fd, SETUP_REQUEST_PENDING_EVENT)#}"
proof -
  have "size (waits ag) = 1" using assms by (simp add: ag_inv_def) (metis One_nat_def le_SucE le_zero_eq size_eq_0_iff_empty)
  then obtain p where p: "waits ag = {#p#}" by (metis size_1_singleton_mset)
  then have "snd p = SETUP_REQUEST_PENDING_EVENT" using assms(1) by (simp add: ag_inv_def)
  then show thesis using p that[of "fst p"] by (metis prod.collapse)
qed

lemma rm_fd_ok:
  assumes "mset (g_fds ag) = add_mset fd M" "distinct (g_fds ag)"
  shows "rm_fd_asio_agent ag fd = Some (ag\<lparr>g_fds := remove1 fd (g_fds ag)\<rparr>)" "mset (remove1 fd (g_fds ag)) = M"
    "distinct (remove1 fd (g_fds ag))"
proof -
  have "fd \<in># mset (g_fds ag)" using assms(1) by simp
  then show "rm_fd_asio_agent ag fd = Some (ag\<lparr>g_fds := remove1 fd (g_fds ag)\<rparr>)" by (simp add: rm_fd_asio_agent_def)
  show "mset (remove1 fd (g_fds ag)) = M" using assms(1) by simp
  show "distinct (remove1 fd (g_fds ag))" using assms(2) by simp
qed

lemma stop_setup_ok:
  assumes "ag_inv ag" "waits ag = {#(fd, SETUP_REQUEST_PENDING_EVENT)#}"
  shows "\<exists>p. stop_pending_event_ag ag SETUP_REQUEST_PENDING_EVENT
      = Some (ag\<lparr>g_pending := p, g_fds := remove1 fd (g_fds ag)\<rparr>)
    \<and> ag_inv (ag\<lparr>g_pending := p, g_fds := remove1 fd (g_fds ag)\<rparr>) \<and> bm_pairs p = {#}"
proof -
  obtain p where p: "bi_map_extract_right (g_pending ag) SETUP_REQUEST_PENDING_EVENT = Some (fd, p)"
    "bm_ok cmp_fd cmp_pending_event p" "bm_pairs p = {#}"
    using setup_map.ok_extract_right[OF inv_parts(2)[OF assms(1)], of fd SETUP_REQUEST_PENDING_EVENT SETUP_REQUEST_PENDING_EVENT]
      assms(2) by (auto simp: pend_cmp.cmp_self)
  have m: "mset (g_fds ag) = add_mset fd ({#g_ep_fd ag, g_pipe_r ag#} + filter_mset (\<lambda>fd. 0 < fd) (image_mset fst (subs ag)))"
    using assms by (simp add: ag_inv_def)
  note r = rm_fd_ok[OF m inv_parts(3)[OF assms(1)]]
  have "0 < fd" using ep_pipe(4)[OF assms(1), of fd] assms(2) by simp
  moreover have "ag_inv (ag\<lparr>g_pending := p, g_fds := remove1 fd (g_fds ag)\<rparr>)"
    using assms(1) p(2,3) r(2,3) set_remove1_subset[of fd "g_fds ag"] by (auto simp: ag_inv_def sub_ok_def queue_ok_def)
  ultimately show ?thesis
    using p r(1) by (intro exI[of _ p]) (simp add: stop_pending_event_ag_def rm_fd_asio_agent_def Let_def split: if_splits)
qed

subsection \<open>Subscriptions\<close>

definition sub_event :: "sm_agent_t \<Rightarrow> ric_subscription_request_t \<Rightarrow> ind_sub_t \<Rightarrow> ind_event_t" where
  "sub_event sm sr s = \<lparr>iv_ric_id = sr_ric_id sr, iv_sm = Some sm, iv_action_id = act_id (hd (sr_action sr)), iv_sub = s\<rparr>"

text \<open>A request that the agent can serve: one report action, a known service model, a new number.\<close>

definition sub_req_ok :: "e2_agent_t \<Rightarrow> sm_agent_t \<Rightarrow> ric_subscription_request_t \<Rightarrow> bool" where
  "sub_req_ok ag sm sr \<longleftrightarrow> length (sr_action sr) = 1 \<and> act_type (hd (sr_action sr)) = RIC_ACT_REPORT
     \<and> sm_plugin_ag ag (ran_func_id (sr_ric_id sr)) = Some sm
     \<and> 0 < unat (ric_req_id (sr_ric_id sr)) \<and> unat (ric_req_id (sr_ric_id sr)) < 2 ^ 31
     \<and> (\<forall>p \<in># subs ag. ric_req_id (iv_ric_id (snd p)) \<noteq> ric_req_id (sr_ric_id sr))"

abbreviation sub_resp :: "ric_subscription_request_t \<Rightarrow> e2ap_msg_t" where
  "sub_resp sr \<equiv> Ric_sub_resp (generate_subscription_response (sr_ric_id sr) (act_id (hd (sr_action sr))))"

lemma new_timer_key:
  assumes "ag_inv ag" "timerfd_ok timerfd" "(a, b) \<in># subs ag"
  shows "gained timerfd ag \<noteq> a"
proof
  assume e: "gained timerfd ag = a"
  have g: "0 < gained timerfd ag" "gained timerfd ag \<notin> set (g_fds ag)"
    using create_timer_ok(2,3)[OF assms(2), of 0] by auto
  have "a \<in> set (g_fds ag)" unfolding watched[OF assms(1)] using assms(3) g(1) e by force
  then show False using g(2) e by simp
qed

lemma subscribe_periodic:
  assumes "ag_inv ag" "timerfd_ok timerfd" "sub_req_ok ag sm sr"
    and "sa_on_subscription sm (generate_sm_subs_data sr) = Periodic_ans t" "-1 < t_ms t" "t_ms t < 10001"
  defines "fd \<equiv> gained timerfd ag" and "ev \<equiv> sub_event sm sr (PERIODIC_SUBSCRIPTION_FLRC (t_act_def t))"
  shows "\<exists>m. e2ap_handle_subscription_request_agent timerfd ag sr
      = Some (sub_resp sr, ag\<lparr>g_fds := fd # g_fds ag, g_ind_event := m\<rparr>)
    \<and> ag_inv (ag\<lparr>g_fds := fd # g_fds ag, g_ind_event := m\<rparr>) \<and> bm_pairs m = add_mset (fd, ev) (subs ag)"
proof -
  note t = create_timer_ok[OF assms(2,5), of ag, folded fd_def]
  have "cmp_fd fd a \<noteq> 0 \<and> cmp_ind_event ev b \<noteq> 0" if "(a, b) \<in># subs ag" for a b
    using new_timer_key[OF assms(1,2) that] that assms(3) by (auto simp: ev_def fd_def sub_event_def sub_req_ok_def)
  from ind_map.ok_insert[OF inv_parts(1)[OF assms(1)] this] obtain m where
    m: "bi_map_insert (g_ind_event ag) fd ev = Some m" "bm_ok cmp_fd cmp_ind_event m"
    "bm_pairs m = add_mset (fd, ev) (subs ag)" by blast
  have "sub_ok ag (fd, ev)" using assms(3) t(2) by (simp add: sub_ok_def sub_req_ok_def ev_def sub_event_def)
  then have "ag_inv (ag\<lparr>g_fds := fd # g_fds ag, g_ind_event := m\<rparr>)"
    using assms(1) m(2,3) t(2,3) by (simp add: ag_inv_def sub_ok_def queue_ok_def)
  moreover have "e2ap_handle_subscription_request_agent timerfd ag sr
      = Some (sub_resp sr, ag\<lparr>g_fds := fd # g_fds ag, g_ind_event := m\<rparr>)"
    using assms(3,4,6) t(1) m(1)
    by (simp add: e2ap_handle_subscription_request_agent_def supported_ric_subscription_request_def sub_req_ok_def Let_def
        ev_def sub_event_def)
  ultimately show ?thesis using m(3) by blast
qed

lemma subscribe_aperiodic:
  assumes "ag_inv ag" "sub_req_ok ag sm sr" "sa_on_subscription sm (generate_sm_subs_data sr) = Aperiodic_ans"
  defines "fd \<equiv> aper_fd (sr_ric_id sr)" and "ev \<equiv> sub_event sm sr APERIODIC_SUBSCRIPTION_FLRC"
  shows "\<exists>m. e2ap_handle_subscription_request_agent timerfd ag sr = Some (sub_resp sr, ag\<lparr>g_ind_event := m\<rparr>)
    \<and> ag_inv (ag\<lparr>g_ind_event := m\<rparr>) \<and> bm_pairs m = add_mset (fd, ev) (subs ag)"
proof -
  have neg: "fd < 0" using assms(2) aper_fd_neg by (simp add: fd_def sub_req_ok_def)
  have "cmp_fd fd a \<noteq> 0 \<and> cmp_ind_event ev b \<noteq> 0" if p: "(a, b) \<in># subs ag" for a b
  proof
    have new: "ric_req_id (iv_ric_id b) \<noteq> ric_req_id (sr_ric_id sr)" using p assms(2) by (auto simp: sub_req_ok_def)
    then show "cmp_ind_event ev b \<noteq> 0" by (auto simp: ev_def sub_event_def)
    have ok: "sub_ok ag (a, b)" by (rule inv_parts(5)[OF assms(1) p])
    show "cmp_fd fd a \<noteq> 0"
    proof (cases "iv_sub b")
      case (PERIODIC_SUBSCRIPTION_FLRC x)
      then show ?thesis using ok neg by (auto simp: sub_ok_def)
    next
      case APERIODIC_SUBSCRIPTION_FLRC
      then show ?thesis using ok new by (auto simp: sub_ok_def fd_def)
    qed
  qed
  from ind_map.ok_insert[OF inv_parts(1)[OF assms(1)] this] obtain m where
    m: "bi_map_insert (g_ind_event ag) fd ev = Some m" "bm_ok cmp_fd cmp_ind_event m"
    "bm_pairs m = add_mset (fd, ev) (subs ag)" by blast
  have "\<not> 0 < fd" using neg by simp
  moreover have "sub_ok ag (fd, ev)" using assms(2) by (simp add: sub_ok_def sub_req_ok_def ev_def sub_event_def fd_def)
  ultimately have "ag_inv (ag\<lparr>g_ind_event := m\<rparr>)" using assms(1) m(2,3) by (simp add: ag_inv_def sub_ok_def queue_ok_def)
  moreover have "e2ap_handle_subscription_request_agent timerfd ag sr = Some (sub_resp sr, ag\<lparr>g_ind_event := m\<rparr>)"
    using assms(2,3) m(1)
    by (simp add: e2ap_handle_subscription_request_agent_def supported_ric_subscription_request_def sub_req_ok_def Let_def
        ev_def fd_def sub_event_def)
  ultimately show ?thesis using m(3) by blast
qed

text \<open>Ending a subscription.\<close>

lemma unsubscribe_ok:
  assumes "ag_inv ag" "(fd, ev) \<in># subs ag"
  shows "\<exists>ag'. stop_ind_event ag (iv_ric_id ev) = Some (True, ag') \<and> ag_inv ag' \<and> subs ag = add_mset (fd, ev) (subs ag')
    \<and> waits ag' = waits ag \<and> g_sent ag' = g_sent ag \<and> g_sm_ds ag' = g_sm_ds ag
    \<and> mset (g_fds ag) = (if 0 < fd then {#fd#} else {#}) + mset (g_fds ag')"
proof -
  let ?i = "iv_ric_id ev"
  have ok: "sub_ok ag (fd, ev)" by (rule inv_parts(5)[OF assms])
  have f: "entries_find_if (eq_ind_event (ind_key ?i)) (bm_right (g_ind_event ag)) = Some (ev, fd)"
    by (rule ind_map.find_right[OF inv_parts(1)[OF assms(1)] assms(2)]) simp
  obtain m where m: "bi_map_extract_right (g_ind_event ag) (ind_key ?i) = Some (fd, m)" "bm_ok cmp_fd cmp_ind_event m"
    "subs ag = add_mset (fd, ev) (bm_pairs m)"
    using ind_map.ok_extract_right[OF inv_parts(1)[OF assms(1)] assms(2), of "ind_key ?i"] by auto
  have keep: "\<forall>p \<in># bm_pairs m. sub_ok ag p" using inv_parts(5)[OF assms(1)] m(3) by simp
  show ?thesis
  proof (cases "iv_sub ev")
    case (PERIODIC_SUBSCRIPTION_FLRC a)
    then have fd: "0 < fd" using ok by (simp add: sub_ok_def)
    have e: "mset (g_fds ag) = add_mset fd ({#g_ep_fd ag, g_pipe_r ag#} + image_mset fst (waits ag)
        + filter_mset (\<lambda>fd. 0 < fd) (image_mset fst (bm_pairs m)))"
      using assms(1) m(3) fd by (simp add: ag_inv_def)
    note r = rm_fd_ok[OF e inv_parts(3)[OF assms(1)]]
    let ?ag = "ag\<lparr>g_ind_event := m, g_fds := remove1 fd (g_fds ag)\<rparr>"
    have "ag_inv ?ag"
      using assms(1) m(2) r(2,3) keep set_remove1_subset[of fd "g_fds ag"]
      by (auto simp: ag_inv_def sub_ok_def queue_ok_def)
    moreover have "stop_ind_event ag ?i = Some (True, ?ag)"
      using f m(1) r(1) ok fd PERIODIC_SUBSCRIPTION_FLRC
      by (auto simp: stop_ind_event_def Let_def sub_ok_def rm_fd_asio_agent_def split: if_splits)
    moreover have "mset (g_fds ag) = {#fd#} + mset (remove1 fd (g_fds ag))" using e r(2) by simp
    ultimately show ?thesis using m(3) fd by (intro exI[of _ ?ag]) simp
  next
    case APERIODIC_SUBSCRIPTION_FLRC
    then have fd: "fd < 0" using ok aper_fd_neg[of ?i] by (simp add: sub_ok_def)
    let ?ag = "ag\<lparr>g_freed_subs := g_freed_subs ag @ [ric_req_id ?i], g_ind_event := m\<rparr>"
    have "ag_inv ?ag"
      using assms(1) m(2,3) keep fd by (auto simp: ag_inv_def sub_ok_def queue_ok_def)
    moreover have "stop_ind_event ag ?i = Some (True, ?ag)"
      using f m(1) fd APERIODIC_SUBSCRIPTION_FLRC by (simp add: stop_ind_event_def Let_def)
    ultimately show ?thesis using m(3) fd by (intro exI[of _ ?ag]) simp
  qed
qed

lemma unsubscribe_absent:
  assumes "ag_inv ag" "\<And>p. p \<in># subs ag \<Longrightarrow> iv_ric_id (snd p) \<noteq> i"
  shows "stop_ind_event ag i = Some (False, ag)"
proof -
  have "entries_find_if (eq_ind_event (ind_key i)) (bm_right (g_ind_event ag)) = None"
    using assms right_pairs[of "g_ind_event ag"] inv_parts(1)[OF assms(1)]
    by (fastforce simp: entries_find_if_None bm_ok_def)
  then show ?thesis by (simp add: stop_ind_event_def)
qed

subsection \<open>Rounds of the loop\<close>

lemma periodic_event:
  assumes "ag_inv ag" "(fd, ev) \<in># subs ag" "0 < fd"
  shows "next_async_event_agent ag fd rcv = Some (INDICATION_EVENT fd ev, ag)"
proof -
  have "entries_find_if (\<lambda>k. fd = k) (bm_left (g_ind_event ag)) = Some (fd, ev)"
    by (rule ind_map.find_left[OF inv_parts(1)[OF assms(1)] assms(2)]) simp
  then show ?thesis
    using assms(3) ep_pipe(5)[OF assms]
    by (auto simp: next_async_event_agent_def net_pkt_ag_def aind_event_def ind_event_def)
qed

lemma pending_event:
  assumes "ag_inv ag" "(fd, ev) \<in># waits ag"
  shows "next_async_event_agent ag fd rcv = Some (PENDING_EVENT fd ev, ag)"
proof -
  have "waits ag \<noteq> {#}" using assms(2) by auto
  from waiting[OF assms(1) this] obtain fd' where w: "waits ag = {#(fd', SETUP_REQUEST_PENDING_EVENT)#}" .
  have p: "entries_find_if (\<lambda>k. fd = k) (bm_left (g_pending ag)) = Some (fd, ev)"
    by (rule setup_map.find_left[OF inv_parts(2)[OF assms(1)] assms(2)]) simp
  have no: "entries_find_if (\<lambda>k. fd = k) (bm_left (g_ind_event ag)) = None"
    unfolding entries_find_if_None using ep_pipe(6)[OF assms(1,2)] by (auto simp: bm_pairs_def)
  have "mset (map prod.swap (bm_left (g_pending ag))) = mset (bm_right (g_pending ag))"
    using inv_parts(2)[OF assms(1)] by (simp add: bm_ok_def bi_map_inv_def)
  then have "length (bm_left (g_pending ag)) = length (bm_right (g_pending ag))" by (metis length_map size_mset)
  moreover have "length (bm_left (g_pending ag)) = 1" using w by (metis bm_pairs_def size_mset size_single)
  ultimately have "bi_map_size (g_pending ag) = Some 1" by (simp add: bi_map_size_def)
  then show ?thesis
    using p no ep_pipe(4)[OF assms]
    by (auto simp: next_async_event_agent_def net_pkt_ag_def aind_event_def ind_event_def pend_event_ag_def)
qed

lemma pipe_event:
  assumes "ag_inv ag" "g_aind ag \<noteq> []"
  shows "next_async_event_agent ag (g_pipe_r ag) rcv = Some (APERIODIC_INDICATION_EVENT (g_aind ag), ag\<lparr>g_aind := []\<rparr>)"
  using assms(2) ep_pipe(1,3)[OF assms(1)]
  by (auto simp: next_async_event_agent_def net_pkt_ag_def aind_event_def Let_def)

lemma net_event:
  assumes "ag_inv ag"
  shows "next_async_event_agent ag (g_ep_fd ag) rcv = Some (case rcv of
      Sctp_notification \<Rightarrow> (SCTP_CONNECTION_SHUTDOWN_EVENT, ag)
    | Sctp_payload msg \<Rightarrow> (SCTP_MSG_ARRIVED_EVENT msg, ag))"
  using ep_pipe(2)[OF assms] by (auto simp: next_async_event_agent_def net_pkt_ag_def)

lemma aperiodic_loop_ok:
  assumes "\<forall>a \<in> set evs. ai_sm a \<noteq> None" "4 * length evs \<le> g_pipe ag"
  shows "\<exists>sent. aperiodic_loop rd i ag evs = Some (ag\<lparr>g_sent := sent, g_pipe := g_pipe ag - 4 * length evs\<rparr>)"
  using assms
proof (induction evs arbitrary: i ag)
  case Nil
  have "ag = ag\<lparr>g_sent := g_sent ag, g_pipe := g_pipe ag\<rparr>" by simp
  then show ?case by (metis aperiodic_loop.simps(1) diff_zero list.size(3) mult_0_right)
next
  case (Cons ev evs)
  obtain sm where sm: "ai_sm ev = Some sm" using Cons.prems(1) by auto
  obtain sent where s: "(case sa_on_indication sm (rd i) (Some (ai_ind_data ev)) of None \<Rightarrow> ag
      | Some data \<Rightarrow> e2ap_send_bytes_agent ag (Ric_ind (generate_aindication data ev))) = ag\<lparr>g_sent := sent\<rparr>"
    by (cases "sa_on_indication sm (rd i) (Some (ai_ind_data ev))")
      (auto simp: e2ap_send_bytes_agent_def intro: that[of "g_sent ag"])
  let ?ag = "ag\<lparr>g_sent := sent, g_pipe := g_pipe ag - 4\<rparr>"
  have c: "consume_fd_async (ag\<lparr>g_sent := sent\<rparr>) = Some (4, ?ag)"
    using Cons.prems(2) by (simp add: consume_fd_async_def Let_def)
  have "4 * length evs \<le> g_pipe ?ag" using Cons.prems(2) by simp
  with Cons.IH[of ?ag "Suc i"] Cons.prems(1) obtain sent' where
    "aperiodic_loop rd (Suc i) ?ag evs = Some (?ag\<lparr>g_sent := sent', g_pipe := g_pipe ?ag - 4 * length evs\<rparr>)" by auto
  then have "aperiodic_loop rd i ag (ev # evs) = Some (ag\<lparr>g_sent := sent', g_pipe := g_pipe ag - 4 * length (ev # evs)\<rparr>)"
    using sm s c by simp
  then show ?case by blast
qed

lemma decimal_len_ge:
  "n < 10 ^ k \<Longrightarrow> 0 < k \<Longrightarrow> decimal_len n \<le> k" "0 < decimal_len n"
proof (induction k arbitrary: n)
  case (Suc k)
  { case 1
    show ?case
    proof (cases "n < 10")
      case False
      then have "n div 10 < 10 ^ k" using 1 by (simp add: less_mult_imp_div_less mult.commute)
      moreover have "0 < k" using False 1 by (cases k) auto
      ultimately show ?thesis using Suc(1)[of "n div 10"] False by simp
    qed simp
  next
    case 2
    show ?case by simp
  }
qed auto

lemma decimal_len_u32: "0 < decimal_len (unat (r :: u32))" "decimal_len (unat (r :: u32)) < 31"
proof -
  have "unat r < 2 ^ LENGTH(32)" by (rule unsigned_less)
  then have "unat r < 10 ^ 10" by simp
  from decimal_len_ge(1)[OF this] show "decimal_len (unat r) < 31" by simp
  show "0 < decimal_len (unat r)" by (rule decimal_len_ge(2))
qed

lemma decimal_len_thousand:
  assumes "1000 \<le> n"
  shows "4 \<le> decimal_len n"
proof -
  have "100 \<le> n div 10" "10 \<le> n div 10 div 10" "1 \<le> n div 10 div 10 div 10" using assms by simp_all
  then show ?thesis using assms decimal_len_ge(2)[of "n div 10 div 10 div 10"]
    by (subst decimal_len.simps, subst decimal_len.simps, subst decimal_len.simps) (simp del: decimal_len.simps)
qed

lemma decimal_len_four:
  assumes "1000 \<le> n" "n < 10000"
  shows "decimal_len n = 4"
  using decimal_len_ge(1)[of n 4] decimal_len_thousand[OF assms(1)] assms(2) by simp

lemma decimal_len_ten_thousand:
  assumes "10000 \<le> n"
  shows "5 \<le> decimal_len n"
proof -
  have "1000 \<le> n div 10" using assms by simp
  from decimal_len_thousand[OF this] show ?thesis using assms by (subst decimal_len.simps) (simp del: decimal_len.simps)
qed

declare decimal_len.simps [simp del]

subsection \<open>The bytes of the pipe\<close>

text \<open>
  The pipe is in step with the queue when it holds four bytes for every event.  Then a pipe that
  holds bytes means a queue that holds events, which is what the loop asserts.  Only the thread of an
  aperiodic event and the loop that takes it change either.
\<close>

definition in_step :: "e2_agent_t \<Rightarrow> bool" where
  "in_step ag \<longleftrightarrow> g_pipe ag = 4 * length (g_aind ag)"

definition same_pipe :: "e2_agent_t \<Rightarrow> e2_agent_t \<Rightarrow> bool" where
  "same_pipe ag ag' \<longleftrightarrow> g_pipe ag' = g_pipe ag \<and> g_aind ag' = g_aind ag \<and> g_pipe_r ag' = g_pipe_r ag"

lemma in_step_same: "same_pipe ag ag' \<Longrightarrow> in_step ag' = in_step ag"
  by (simp add: in_step_def same_pipe_def)

lemma timer_pipe:
  "create_timer_ms_asio_agent timerfd ag ms ms' = Some (fd, ag') \<Longrightarrow> same_pipe ag ag'"
  "rm_fd_asio_agent ag fd = Some ag' \<Longrightarrow> same_pipe ag ag'"
  by (auto simp: create_timer_ms_asio_agent_def add_fd_asio_agent_def rm_fd_asio_agent_def same_pipe_def Let_def
      split: if_split_asm Option.bind_split_asm)

lemma setup_pipe:
  "wait_setup timerfd ag = Some ag' \<Longrightarrow> same_pipe ag ag'"
  "stop_pending_event_ag ag ev = Some ag' \<Longrightarrow> same_pipe ag ag'"
  "gen_setup_request_v2 ag = Some (sr, ag') \<Longrightarrow> same_pipe ag ag'"
  by (auto simp: wait_setup_def stop_pending_event_ag_def gen_setup_request_v2_def same_pipe_def Let_def
      dest!: timer_pipe split: if_split_asm Option.bind_split_asm prod.splits)

lemma stop_ind_pipe: "stop_ind_event ag i = Some (b, ag') \<Longrightarrow> same_pipe ag ag'"
  by (auto simp: stop_ind_event_def same_pipe_def Let_def dest!: timer_pipe
      split: if_split_asm Option.bind_split_asm prod.splits option.splits ind_sub_t.splits)

lemma subscribe_pipe: "e2ap_handle_subscription_request_agent timerfd ag m = Some (ans, ag') \<Longrightarrow> same_pipe ag ag'"
  by (auto simp: e2ap_handle_subscription_request_agent_def same_pipe_def Let_def dest!: timer_pipe
      split: if_split_asm Option.bind_split_asm prod.splits sm_ag_if_ans_subs_t.splits)

lemma handle_pipe: "handle_msg_agent timerfd ag m = Some (ans, ag') \<Longrightarrow> same_pipe ag ag'"
  by (cases m) (auto simp: e2ap_handle_subscription_delete_request_agent_def e2ap_handle_control_request_agent_def
      e2ap_handle_setup_response_agent_def e2ap_handle_setup_failure_agent_def same_pipe_def Let_def
      dest!: subscribe_pipe stop_ind_pipe setup_pipe split: if_split_asm Option.bind_split_asm prod.splits)

lemma message_pipe: "msg_arrived_ag timerfd ag m = Some ag' \<Longrightarrow> same_pipe ag ag'"
  by (auto simp: msg_arrived_ag_def e2ap_msg_handle_agent_def e2ap_send_bytes_agent_def same_pipe_def
      dest!: handle_pipe split: if_split_asm Option.bind_split_asm prod.splits)

end
