(* ===== verification/Agent_Properties.thy ===== *)
theory Agent_Properties
  imports Agent_Laws Ric_Run
begin

text \<open>
  The agent does not get stuck: from a well-formed state, every input that respects the contract is
  served and leaves a well-formed state.  What a subscription gives, from its request to its
  deletion.  And the contract is needed: an association that closes twice before the RIC answers
  stops the agent.
\<close>

subsection \<open>Inputs that respect the contract\<close>

fun msg_ok_ag :: "e2_agent_t \<Rightarrow> e2ap_msg_t \<Rightarrow> bool" where
  "msg_ok_ag ag (Ric_sub_req m) \<longleftrightarrow> (\<exists>sm. sub_req_ok ag sm m \<and>
     (case sa_on_subscription sm (generate_sm_subs_data m) of
        Periodic_ans t \<Rightarrow> -1 < t_ms t \<and> t_ms t < 10001 | Aperiodic_ans \<Rightarrow> True | End_ans \<Rightarrow> False))"
| "msg_ok_ag ag (Ric_sub_del_req m) \<longleftrightarrow> True"
| "msg_ok_ag ag (Ric_ctrl_req m) \<longleftrightarrow> cr_ack_req m = Some RIC_CONTROL_REQUEST_ACK
     \<and> sm_plugin_ag ag (ran_func_id (cr_ric_id m)) \<noteq> None"
| "msg_ok_ag ag (E2_stp_resp m) \<longleftrightarrow> waits ag \<noteq> {#} \<and> 0 < g_trans_id ag"
| "msg_ok_ag ag (E2_stp_fail m) \<longleftrightarrow> cause_present (stpf_cause m) \<noteq> CAUSE_MISC \<and> unat (cause_val (stpf_cause m)) < 11"
| "msg_ok_ag ag _ \<longleftrightarrow> False"

text \<open>
  Epoll reports a descriptor that it watches, and the pipe only when there are bytes to read; the socket
  delivers a message that the agent can serve, or the end of the association when no setup request is
  pending; and the numbers that the threads of the base station write into the pipe have four
  decimal digits (the RIC numbers its requests from 1021 on).
\<close>

fun input_ok :: "e2_agent_t \<Rightarrow> agent_input \<Rightarrow> bool" where
  "input_ok ag Start \<longleftrightarrow> waits ag = {#}"
| "input_ok ag (Ready fd rcv rd) \<longleftrightarrow> fd = -1 \<or> fd \<in> set (g_fds ag) \<and> (fd = g_pipe_r ag \<longrightarrow> 0 < g_pipe ag)
     \<and> (fd = g_ep_fd ag \<longrightarrow> (case rcv of Sctp_payload m \<Rightarrow> msg_ok_ag ag m | Sctp_notification \<Rightarrow> waits ag = {#}))"
| "input_ok ag (Async r d) \<longleftrightarrow> 1000 \<le> unat r \<and> unat r < 10000 \<and> (\<exists>p \<in># subs ag. ric_req_id (iv_ric_id (snd p)) = r)"

lemma small_cause:
  fixes v :: u32
  assumes "unat v < 11"
  shows "0 \<le> sint v" "sint v < 11"
proof -
  have u: "int (unat v) = uint v" by simp
  then have b: "0 \<le> uint v" "uint v < 11" using assms by linarith+
  have "sint v = signed_take_bit 31 (uint v)" using sint_sbintrunc'[of "uint v", where ?'a = 32] by simp
  also have "\<dots> = uint v"
  proof (rule signed_take_bit_int_eq_self)
    show "- (2 ^ 31) \<le> uint v" by (rule order.trans[OF _ b(1)]) simp
    show "uint v < 2 ^ 31" using b(2) by simp
  qed
  finally show "0 \<le> sint v" "sint v < 11" using b by simp_all
qed

lemma gen_setup_ok:
  assumes "ag_inv ag"
  shows "\<exists>sr. gen_setup_request_v2 ag = Some (sr, ag\<lparr>g_trans_id := g_trans_id ag + 1\<rparr>)
    \<and> stp_id sr = g_node_id ag \<and> map rf_id (stp_ran_func_item sr) = map fst (g_sm_ds ag)"
  using gen_ran_functions_ok[OF inv_parts(7)[OF assms]] inv_parts(7)[OF assms]
  by (auto simp: gen_setup_request_v2_def sms_ok_def Let_def)

lemma msg_served:
  assumes "ag_inv ag" "timerfd_ok timerfd" "msg_ok_ag ag msg"
  shows "\<exists>ag'. msg_arrived_ag timerfd ag msg = Some ag' \<and> ag_inv ag'"
proof (cases msg)
  case (Ric_sub_req m)
  with assms(3) obtain sm where sm: "sub_req_ok ag sm m" "case sa_on_subscription sm (generate_sm_subs_data m) of
      Periodic_ans t \<Rightarrow> -1 < t_ms t \<and> t_ms t < 10001 | Aperiodic_ans \<Rightarrow> True | End_ans \<Rightarrow> False" by auto
  have "\<exists>ag'. e2ap_handle_subscription_request_agent timerfd ag m = Some (sub_resp m, ag') \<and> ag_inv ag'"
    using sm(2) subscribe_periodic[OF assms(1,2) sm(1)] subscribe_aperiodic[OF assms(1) sm(1)]
    by (cases "sa_on_subscription sm (generate_sm_subs_data m)") auto
  then show ?thesis
    using Ric_sub_req by (auto simp: msg_arrived_ag_def e2ap_msg_handle_agent_def check_valid_msg_type_agent_def
        e2ap_send_bytes_agent_def)
next
  case (Ric_sub_del_req m)
  have "\<exists>b ag'. stop_ind_event ag (sdr_ric_id m) = Some (b, ag') \<and> ag_inv ag'"
  proof (cases "\<exists>p \<in># subs ag. iv_ric_id (snd p) = sdr_ric_id m")
    case True
    then show ?thesis using unsubscribe_ok[OF assms(1)] by fastforce
  next
    case False
    then show ?thesis using unsubscribe_absent[OF assms(1), of "sdr_ric_id m"] assms(1) by blast
  qed
  then show ?thesis
    using Ric_sub_del_req by (auto simp: msg_arrived_ag_def e2ap_msg_handle_agent_def check_valid_msg_type_agent_def
        e2ap_send_bytes_agent_def e2ap_handle_subscription_delete_request_agent_def)
next
  case (Ric_ctrl_req m)
  then show ?thesis
    using assms(1,3) by (auto simp: msg_arrived_ag_def e2ap_msg_handle_agent_def check_valid_msg_type_agent_def
        e2ap_send_bytes_agent_def e2ap_handle_control_request_agent_def)
next
  case (E2_stp_resp m)
  with assms(3) have w: "waits ag \<noteq> {#}" "0 < g_trans_id ag" by auto
  from waiting[OF assms(1) w(1)] obtain fd where "waits ag = {#(fd, SETUP_REQUEST_PENDING_EVENT)#}" .
  from stop_setup_ok[OF assms(1) this] E2_stp_resp w(2) show ?thesis
    by (auto simp: msg_arrived_ag_def e2ap_msg_handle_agent_def check_valid_msg_type_agent_def
        e2ap_handle_setup_response_agent_def)
next
  case (E2_stp_fail m)
  then have "cause_num (cause_present (stpf_cause m)) < 6" using assms(3) by (cases "cause_present (stpf_cause m)") auto
  then show ?thesis
    using E2_stp_fail assms(1,3) small_cause[of "cause_val (stpf_cause m)"]
    by (auto simp: msg_arrived_ag_def e2ap_msg_handle_agent_def check_valid_msg_type_agent_def
        e2ap_handle_setup_failure_agent_def)
qed (use assms(3) in auto)

lemma pipe_served:
  assumes "ag_inv ag" "g_aind ag \<noteq> []"
  shows "\<exists>sent. agent_round timerfd ag (g_pipe_r ag) rcv rd
      = Some (ag\<lparr>g_aind := [], g_sent := sent, g_pipe := g_pipe ag - 4 * length (g_aind ag)\<rparr>)
    \<and> ag_inv (ag\<lparr>g_aind := [], g_sent := sent, g_pipe := g_pipe ag - 4 * length (g_aind ag)\<rparr>)"
proof -
  have ok: "\<forall>a \<in> set (g_aind ag). ai_sm a \<noteq> None" "4 * length (g_aind ag) \<le> g_pipe (ag\<lparr>g_aind := []\<rparr>)"
    using inv_parts(6)[OF assms(1)] by (auto simp: queue_ok_def)
  obtain sent where "aperiodic_loop rd 0 (ag\<lparr>g_aind := []\<rparr>) (g_aind ag)
      = Some (ag\<lparr>g_aind := [], g_sent := sent, g_pipe := g_pipe ag - 4 * length (g_aind ag)\<rparr>)"
    using aperiodic_loop_ok[OF ok, of rd 0] by auto
  moreover have "ag_inv (ag\<lparr>g_aind := [], g_sent := sent, g_pipe := g_pipe ag - 4 * length (g_aind ag)\<rparr>)"
    using assms(1) by (simp add: ag_inv_def sub_ok_def queue_ok_def)
  ultimately show ?thesis using pipe_event[OF assms] assms(2) by (auto simp: agent_round_def)
qed

lemma ready_served:
  assumes "ag_inv ag" "in_step ag" "timerfd_ok timerfd" "input_ok ag (Ready fd rcv rd)"
  shows "\<exists>ag'. agent_round timerfd ag fd rcv rd = Some ag' \<and> ag_inv ag' \<and> in_step ag'"
proof -
  consider (none) "fd = -1" | (net) "fd = g_ep_fd ag" | (pipe) "fd = g_pipe_r ag"
    | (wait) ev where "(fd, ev) \<in># waits ag" | (sub) ev where "(fd, ev) \<in># subs ag" "0 < fd"
    using assms(4) unfolding input_ok.simps watched[OF assms(1)] by fastforce
  then show ?thesis
  proof cases
    case none
    then show ?thesis using assms(1,2) by (simp add: agent_round_def next_async_event_agent_def)
  next
    case net
    have fd: "fd \<noteq> -1" using net ep_pipe(2)[OF assms(1)] by simp
    show ?thesis
    proof (cases rcv)
      case (Sctp_payload m)
      then have "msg_ok_ag ag m" using assms(4) net fd by simp
      from msg_served[OF assms(1,3) this] show ?thesis
        using net Sctp_payload net_event[OF assms(1)] assms(2) in_step_same[OF message_pipe]
        by (auto simp: agent_round_def)
    next
      case Sctp_notification
      then have "waits ag = {#}" using assms(4) net fd by simp
      from wait_setup_ok[OF assms(1,3) this] show ?thesis
        using net net_event[OF assms(1)] Sctp_notification assms(2) in_step_same[OF setup_pipe(1)]
        by (auto simp: agent_round_def notification_handle_ag_def)
    qed
  next
    case pipe
    then have "g_aind ag \<noteq> []" using assms(2,4) ep_pipe(3)[OF assms(1)] by (auto simp: in_step_def)
    from pipe_served[OF assms(1) this, of timerfd rcv rd] show ?thesis
      using pipe assms(2) by (auto simp: in_step_def)
  next
    case wait
    then have "ev = SETUP_REQUEST_PENDING_EVENT" using assms(1) by (auto simp: ag_inv_def)
    then show ?thesis
      using pending_event[OF assms(1) wait] gen_setup_ok[OF assms(1)] assms(1,2)
      by (auto simp: agent_round_def resend_setup_ag_def e2ap_send_bytes_agent_def in_step_def)
  next
    case sub
    have ok: "sub_ok ag (fd, ev)" by (rule inv_parts(5)[OF assms(1) sub(1)])
    obtain sm where sm: "iv_sm ev = Some sm" using ok by (auto simp: sub_ok_def)
    obtain a where "iv_sub ev = PERIODIC_SUBSCRIPTION_FLRC a"
      using ok sub(2) aper_fd_neg[of "iv_ric_id ev"] by (cases "iv_sub ev") (auto simp: sub_ok_def)
    then show ?thesis
      using periodic_event[OF assms(1) sub] sm assms(1,2)
      by (auto simp: agent_round_def periodic_indication_def e2ap_send_bytes_agent_def in_step_def split: option.split)
  qed
qed

lemma async_ok:
  assumes "ag_inv ag" "1000 \<le> unat r" "\<exists>p \<in># subs ag. ric_req_id (iv_ric_id (snd p)) = r"
  shows "\<exists>a. e2_async_event_agent ag r d = Some (ag\<lparr>g_aind := g_aind ag @ [a], g_pipe := g_pipe ag + decimal_len (unat r)\<rparr>)
    \<and> ag_inv (ag\<lparr>g_aind := g_aind ag @ [a], g_pipe := g_pipe ag + decimal_len (unat r)\<rparr>)"
proof -
  let ?key = "ind_key \<lparr>ric_req_id = r, ric_inst_id = 0, ran_func_id = 0\<rparr>"
  have "\<exists>b a. entries_find_if (eq_ind_event_ric_req_id ?key) (bm_right (g_ind_event ag)) = Some (b, a)"
  proof (rule ccontr)
    assume "\<not> ?thesis"
    then have n: "entries_find_if (eq_ind_event_ric_req_id ?key) (bm_right (g_ind_event ag)) = None"
      by (cases "entries_find_if (eq_ind_event_ric_req_id ?key) (bm_right (g_ind_event ag))") auto
    from assms(3) obtain a b where p: "(a, b) \<in># subs ag" "ric_req_id (iv_ric_id b) = r" by auto
    then have "(b, a) \<in> set (bm_right (g_ind_event ag))"
      using right_pairs[of "g_ind_event ag" b a] inv_parts(1)[OF assms(1)] by (auto simp: bm_ok_def)
    then show False using n p(2) unfolding entries_find_if_None by (auto simp: eq_ind_event_ric_req_id_def ind_key_def)
  qed
  then obtain b a where f: "entries_find_if (eq_ind_event_ric_req_id ?key) (bm_right (g_ind_event ag)) = Some (b, a)" by blast
  then have "(b, a) \<in> set (bm_right (g_ind_event ag))" by (rule entries_find_if_Some[THEN conjunct1])
  then have "sub_ok ag (a, b)"
    using right_pairs[of "g_ind_event ag" b a] inv_parts(1,5)[OF assms(1)] by (auto simp: bm_ok_def)
  then have sm: "iv_sm b \<noteq> None" by (auto simp: sub_ok_def)
  let ?a = "\<lparr>ai_ric_id = iv_ric_id b, ai_sm = iv_sm b, ai_action_id = iv_action_id b, ai_ind_data = d\<rparr>"
  have "4 \<le> decimal_len (unat r)" by (rule decimal_len_thousand) (rule assms(2))
  then have "queue_ok (ag\<lparr>g_aind := g_aind ag @ [?a], g_pipe := g_pipe ag + decimal_len (unat r)\<rparr>)"
    using inv_parts(6)[OF assms(1)] sm by (auto simp: queue_ok_def)
  then show ?thesis
    using f assms(1) decimal_len_u32[of r]
    by (intro exI[of _ ?a]) (simp add: e2_async_event_agent_def Let_def ag_inv_def sub_ok_def)
qed

text \<open>C22: An agent in a well-formed state (the descriptors that epoll watches are the socket, the pipe
  and one timer for every periodic subscription and for the setup request; every subscription has its
  service model and a key of its own) whose pipe holds four bytes for every queued event serves every
  input that respects the contract without an abort, and stays well-formed with the pipe in step.
  That a pipe that is ready has an event in the queue, which the loop asserts, follows; the contract
  only says that epoll reports the pipe when it holds bytes and that the numbers of the events have
  four digits.\<close>

theorem agent_not_stuck:
  assumes "ag_inv ag" "in_step ag" "timerfd_ok timerfd" "input_ok ag inp"
  shows "\<exists>ag'. agent_step timerfd ag inp = Some ag' \<and> ag_inv ag' \<and> in_step ag'"
proof (cases inp)
  case Start
  obtain sr where sr: "gen_setup_request_v2 ag = Some (sr, ag\<lparr>g_trans_id := g_trans_id ag + 1\<rparr>)"
    using gen_setup_ok[OF assms(1)] by blast
  have "ag_inv (ag\<lparr>g_trans_id := g_trans_id ag + 1\<rparr>)" "waits (ag\<lparr>g_trans_id := g_trans_id ag + 1\<rparr>) = {#}"
    using assms(1,4) Start by simp_all
  from wait_setup_ok[OF this(1) assms(3) this(2)] obtain ag' where
    w: "wait_setup timerfd (ag\<lparr>g_trans_id := g_trans_id ag + 1\<rparr>) = Some ag'" "ag_inv ag'" by blast
  then show ?thesis using sr Start assms(2) setup_pipe(1)[OF w(1)]
    by (auto simp: e2_start_agent_def e2ap_send_bytes_agent_def in_step_def same_pipe_def)
next
  case (Ready fd rcv rd)
  then show ?thesis using ready_served[OF assms(1-3)] assms(4) by simp
next
  case (Async r d)
  then have "1000 \<le> unat r" "unat r < 10000" "\<exists>p \<in># subs ag. ric_req_id (iv_ric_id (snd p)) = r"
    using assms(4) by auto
  then show ?thesis using async_ok[OF assms(1), of r d] decimal_len_four[of "unat r"] assms(2) Async
    by (auto simp: in_step_def)
qed

lemma init_agent_ok:
  assumes "0 < ep_fd" "0 < pipe_r" "ep_fd \<noteq> pipe_r" "sms_ok sms"
  shows "\<exists>ag. e2_init_agent ep_fd pipe_r nid sms rd = Some ag \<and> ag_inv ag \<and> in_step ag \<and> waits ag = {#} \<and> subs ag = {#}
    \<and> g_ep_fd ag = ep_fd \<and> g_pipe_r ag = pipe_r \<and> g_sm_ds ag = sms \<and> g_sent ag = [] \<and> g_fds ag = [ep_fd, pipe_r]"
  using assms
  by (auto simp: e2_init_agent_def add_fd_asio_agent_def ag_inv_def init_indication_event_def init_pending_events_ag_def
      ind_map.ok_init setup_map.ok_init queue_ok_def in_step_def)

definition sample_sa :: sm_agent_t where
  "sample_sa = \<lparr>sa_id = 2, sa_rev = 1, sa_oid = [1], sa_on_subscription = (\<lambda>d. Periodic_ans \<lparr>t_ms = 10, t_act_def = None\<rparr>),
     sa_on_indication = (\<lambda>r a. Some \<lparr>id_ind_hdr = [], id_ind_msg = r, id_call_process_id = None\<rparr>),
     sa_on_control = (\<lambda>d. cd_ctrl_msg d), sa_on_e2_setup = [7]\<rparr>"

definition sample_ag :: e2_agent_t where
  "sample_ag = the (e2_init_agent 3 4 sample_node [(2, sample_sa)] (\<lambda>t. [sample_cca]))"

lemma sample_ag_ok: "ag_inv sample_ag" "waits sample_ag = {#}" "subs sample_ag = {#}" "g_sm_ds sample_ag = [(2, sample_sa)]"
  "in_step sample_ag" "g_fds sample_ag = [3, 4]" "g_ep_fd sample_ag = 3" "g_pipe_r sample_ag = 4"
  using init_agent_ok[of 3 4 "[(2, sample_sa)]" sample_node "\<lambda>t. [sample_cca]"]
  by (auto simp: sample_ag_def sms_ok_def sample_sa_def)

definition sample_sub_ag :: ric_subscription_request_t where
  "sample_sub_ag = \<lparr>sr_ric_id = \<lparr>ric_req_id = 1021, ric_inst_id = 0, ran_func_id = 2\<rparr>, event_trigger = [1],
     sr_action = [\<lparr>act_id = 0, act_type = RIC_ACT_REPORT, act_definition = None, subseq_action = None\<rparr>]\<rparr>"

lemma sample_sub_ok: "sub_req_ok sample_ag sample_sa sample_sub_ag"
proof -
  have "sm_plugin_ag sample_ag 2 = Some sample_sa"
    using sample_ag_ok(4) by (simp add: sm_plugin_ag_def eq_ran_func_id_def sample_sa_def)
  then show ?thesis using sample_ag_ok(3) by (simp add: sub_req_ok_def sample_sub_ag_def)
qed

text \<open>An agent with a subscription, from which an aperiodic event under its number starts.\<close>

lemma subscribed_ag:
  assumes "sub_req_ok sample_ag sample_sa m" "ric_req_id (sr_ric_id m) = r"
  shows "\<exists>ag. agent_step max_fd sample_ag (Ready 3 (Sctp_payload (Ric_sub_req m)) rd) = Some ag
    \<and> ag_inv ag \<and> in_step ag \<and> set (g_fds ag) \<supseteq> {3, 4} \<and> g_ep_fd ag = 3 \<and> g_pipe_r ag = 4
    \<and> (\<exists>p \<in># subs ag. ric_req_id (iv_ric_id (snd p)) = r)"
proof -
  let ?t = "\<lparr>t_ms = 10, t_act_def = None\<rparr>" and ?fd = "gained max_fd sample_ag"
  have ans: "sa_on_subscription sample_sa (generate_sm_subs_data m) = Periodic_ans ?t" by (simp add: sample_sa_def)
  obtain b where b: "e2ap_handle_subscription_request_agent max_fd sample_ag m
      = Some (sub_resp m, sample_ag\<lparr>g_fds := ?fd # g_fds sample_ag, g_ind_event := b\<rparr>)"
    "ag_inv (sample_ag\<lparr>g_fds := ?fd # g_fds sample_ag, g_ind_event := b\<rparr>)"
    "bm_pairs b = add_mset (?fd, sub_event sample_sa m (PERIODIC_SUBSCRIPTION_FLRC (t_act_def ?t))) (subs sample_ag)"
    using subscribe_periodic[OF sample_ag_ok(1) max_fd_ok assms(1) ans] by auto
  have "next_async_event_agent sample_ag 3 (Sctp_payload (Ric_sub_req m))
      = Some (SCTP_MSG_ARRIVED_EVENT (Ric_sub_req m), sample_ag)"
    using net_event[OF sample_ag_ok(1), of "Sctp_payload (Ric_sub_req m)"] sample_ag_ok(7) by simp
  then have "agent_step max_fd sample_ag (Ready 3 (Sctp_payload (Ric_sub_req m)) rd)
      = Some (sample_ag\<lparr>g_fds := ?fd # g_fds sample_ag, g_ind_event := b, g_sent := g_sent sample_ag @ [sub_resp m]\<rparr>)"
    using b(1) by (simp add: agent_round_def msg_arrived_ag_def e2ap_msg_handle_agent_def
        check_valid_msg_type_agent_def e2ap_send_bytes_agent_def)
  then show ?thesis using b(2,3) sample_ag_ok(5-8) assms(2) by (simp add: in_step_def sub_event_def)
qed

theorem agent_not_stuck_witness:
  "\<exists>ag1 ag2 ag3. agent_step max_fd sample_ag (Ready 3 (Sctp_payload (Ric_sub_req sample_sub_ag)) (\<lambda>i. [])) = Some ag1
    \<and> agent_step max_fd ag1 (Async 1021 [5]) = Some ag2
    \<and> agent_step max_fd ag2 (Ready 4 Sctp_notification (\<lambda>i. [9])) = Some ag3 \<and> ag_inv ag3 \<and> in_step ag3"
proof -
  obtain ag1 where a1: "agent_step max_fd sample_ag (Ready 3 (Sctp_payload (Ric_sub_req sample_sub_ag)) (\<lambda>i. [])) = Some ag1"
    "ag_inv ag1" "in_step ag1" "{3, 4} \<subseteq> set (g_fds ag1)" "g_ep_fd ag1 = 3" "g_pipe_r ag1 = 4"
    "\<exists>p \<in># subs ag1. ric_req_id (iv_ric_id (snd p)) = 1021"
    using subscribed_ag[OF sample_sub_ok, of 1021 "\<lambda>i. []"] by (auto simp: sample_sub_ag_def)
  have "input_ok ag1 (Async 1021 [5])" using a1(7) by simp
  from agent_not_stuck[OF a1(2,3) max_fd_ok this] obtain ag2 where
    a2: "agent_step max_fd ag1 (Async 1021 [5]) = Some ag2" "ag_inv ag2" "in_step ag2" by blast
  obtain a where "ag2 = ag1\<lparr>g_aind := g_aind ag1 @ [a], g_pipe := g_pipe ag1 + decimal_len (unat (1021 :: u32))\<rparr>"
    using async_ok[OF a1(2) _ a1(7), of "[5]"] a2(1) by auto
  then have "input_ok ag2 (Ready 4 Sctp_notification (\<lambda>i. [9]))" using a1(4-6) decimal_len_ge(2) by simp
  from agent_not_stuck[OF a2(2,3) max_fd_ok this] show ?thesis using a1(1) a2(1) by blast
qed

text \<open>C31: The pipe gets the decimal digits of the number of an event and the loop reads four bytes for
  each.  The first numbers of the RIC have four digits, the contract above; from 10000 on, two events
  leave bytes in the pipe after the loop has served both.  When the second is written after epoll has
  reported the first, the pipe is reported again, with bytes to read and an empty queue, and the
  agent aborts.\<close>

theorem agent_five_digits_abort:
  assumes "ag_inv ag" "in_step ag"
    and "\<exists>p \<in># subs ag. ric_req_id (iv_ric_id (snd p)) = r" "10000 \<le> unat r"
    and "\<exists>p \<in># subs ag. ric_req_id (iv_ric_id (snd p)) = r'" "10000 \<le> unat r'"
  shows "\<exists>ag1 ag2 ag3. agent_step timerfd ag (Async r d) = Some ag1 \<and> agent_step timerfd ag1 (Async r' d') = Some ag2
    \<and> agent_step timerfd ag2 (Ready (g_pipe_r ag) rcv rd) = Some ag3 \<and> 2 \<le> g_pipe ag3 \<and> g_aind ag3 = []
    \<and> agent_step timerfd ag3 (Ready (g_pipe_r ag) rcv' rd') = None"
proof -
  note digits = decimal_len_ten_thousand[OF assms(4)] decimal_len_ten_thousand[OF assms(6)]
  obtain a where a: "agent_step timerfd ag (Async r d)
      = Some (ag\<lparr>g_aind := g_aind ag @ [a], g_pipe := g_pipe ag + decimal_len (unat r)\<rparr>)"
    "ag_inv (ag\<lparr>g_aind := g_aind ag @ [a], g_pipe := g_pipe ag + decimal_len (unat r)\<rparr>)" (is "ag_inv ?ag1")
    using async_ok[OF assms(1) _ assms(3), of d] assms(4) by auto
  obtain b where b: "agent_step timerfd ?ag1 (Async r' d')
      = Some (?ag1\<lparr>g_aind := g_aind ?ag1 @ [b], g_pipe := g_pipe ?ag1 + decimal_len (unat r')\<rparr>)"
    "ag_inv (?ag1\<lparr>g_aind := g_aind ?ag1 @ [b], g_pipe := g_pipe ?ag1 + decimal_len (unat r')\<rparr>)" (is "ag_inv ?ag2")
    using async_ok[OF a(2), of r' d'] assms(5,6) by auto
  obtain sent where c: "agent_step timerfd ?ag2 (Ready (g_pipe_r ag) rcv rd)
      = Some (?ag2\<lparr>g_aind := [], g_sent := sent, g_pipe := g_pipe ?ag2 - 4 * length (g_aind ?ag2)\<rparr>)"
    (is "_ = Some ?ag3")
    using pipe_served[OF b(2), of timerfd rcv rd] by auto
  have p: "2 \<le> g_pipe ?ag3" using digits assms(2) by (simp add: in_step_def)
  have "agent_step timerfd ?ag3 (Ready (g_pipe_r ag) rcv' rd') = None"
    using ep_pipe(1,3)[OF assms(1)] by (simp add: agent_round_def next_async_event_agent_def net_pkt_ag_def aind_event_def)
  then show ?thesis using a(1) b(1) c p by (intro exI[of _ ?ag1] exI[of _ ?ag2] exI[of _ ?ag3]) simp
qed

definition late_sub_ag :: ric_subscription_request_t where
  "late_sub_ag = sample_sub_ag\<lparr>sr_ric_id := \<lparr>ric_req_id = 10000, ric_inst_id = 0, ran_func_id = 2\<rparr>\<rparr>"

theorem agent_five_digits_abort_witness:
  "\<exists>ag ag1 ag2 ag3. agent_step max_fd sample_ag (Ready 3 (Sctp_payload (Ric_sub_req late_sub_ag)) (\<lambda>i. [])) = Some ag
    \<and> agent_step max_fd ag (Async 10000 [5]) = Some ag1 \<and> agent_step max_fd ag1 (Async 10000 [6]) = Some ag2
    \<and> agent_step max_fd ag2 (Ready 4 Sctp_notification (\<lambda>i. [9])) = Some ag3 \<and> 2 \<le> g_pipe ag3 \<and> g_aind ag3 = []
    \<and> agent_step max_fd ag3 (Ready 4 Sctp_notification (\<lambda>i. [9])) = None"
proof -
  have "sub_req_ok sample_ag sample_sa late_sub_ag"
    using sample_sub_ok sample_ag_ok(3) by (simp add: sub_req_ok_def late_sub_ag_def sample_sub_ag_def)
  from subscribed_ag[OF this, of 10000 "\<lambda>i. []"] obtain ag where
    a: "agent_step max_fd sample_ag (Ready 3 (Sctp_payload (Ric_sub_req late_sub_ag)) (\<lambda>i. [])) = Some ag"
    "ag_inv ag" "in_step ag" "g_pipe_r ag = 4" "\<exists>p \<in># subs ag. ric_req_id (iv_ric_id (snd p)) = 10000"
    by (auto simp: late_sub_ag_def)
  from agent_five_digits_abort[OF a(2,3,5) _ a(5), of max_fd "[5]" "[6]" Sctp_notification "\<lambda>i. [9]"
      Sctp_notification "\<lambda>i. [9]"] show ?thesis
    using a(1,4) by auto
qed

subsection \<open>What a subscription gives\<close>

text \<open>C24: An agent in a well-formed state that gets a subscription request which it can serve, of a
  service model that reports periodically, answers it under the identifier and the action of the
  request; whenever the timer of the subscription fires and the service model has data, the agent
  sends exactly one indication, with that identifier, that action and the data; and a deletion under
  the identifier is answered, closes the timer and leaves the subscriptions and the descriptors that
  were there before.\<close>

theorem agent_serves_subscription:
  assumes "ag_inv ag" "timerfd_ok timerfd" "sub_req_ok ag sm sr"
    and "sa_on_subscription sm (generate_sm_subs_data sr) = Periodic_ans t" "-1 < t_ms t" "t_ms t < 10001"
    and "sa_on_indication sm (rd 0) (t_act_def t) = Some d"
  shows "\<exists>ag1 fd ag2. msg_arrived_ag timerfd ag (Ric_sub_req sr) = Some ag1
    \<and> g_sent ag1 = g_sent ag @ [Ric_sub_resp \<lparr>sresp_ric_id = sr_ric_id sr,
        admitted = [\<lparr>adm_ric_act_id = act_id (hd (sr_action sr))\<rparr>], not_admitted = []\<rparr>]
    \<and> fd \<notin> set (g_fds ag)
    \<and> agent_round timerfd ag1 fd rcv rd = Some (ag1\<lparr>g_sent := g_sent ag1 @ [Ric_ind \<lparr>ind_ric_id = sr_ric_id sr,
        ind_action_id = act_id (hd (sr_action sr)), ind_sn = None, ind_type = RIC_IND_REPORT,
        ind_hdr = id_ind_hdr d, ind_msg = id_ind_msg d, ind_call_process_id = id_call_process_id d\<rparr>]\<rparr>)
    \<and> msg_arrived_ag timerfd ag1 (Ric_sub_del_req \<lparr>sdr_ric_id = sr_ric_id sr\<rparr>) = Some ag2
    \<and> g_sent ag2 = g_sent ag1 @ [Ric_sub_del_resp \<lparr>sdresp_ric_id = sr_ric_id sr\<rparr>]
    \<and> subs ag2 = subs ag \<and> mset (g_fds ag2) = mset (g_fds ag)"
proof -
  let ?fd = "gained timerfd ag" and ?ev = "sub_event sm sr (PERIODIC_SUBSCRIPTION_FLRC (t_act_def t))"
  obtain m where m: "e2ap_handle_subscription_request_agent timerfd ag sr
      = Some (sub_resp sr, ag\<lparr>g_fds := ?fd # g_fds ag, g_ind_event := m\<rparr>)"
    "ag_inv (ag\<lparr>g_fds := ?fd # g_fds ag, g_ind_event := m\<rparr>)" "bm_pairs m = add_mset (?fd, ?ev) (subs ag)"
    using subscribe_periodic[OF assms(1-6)] by blast
  define ag1 where "ag1 = ag\<lparr>g_fds := ?fd # g_fds ag, g_ind_event := m, g_sent := g_sent ag @ [sub_resp sr]\<rparr>"
  have g: "0 < ?fd" "?fd \<notin> set (g_fds ag)" using create_timer_ok(2,3)[OF assms(2), of 0] by auto
  have inv: "ag_inv ag1" using m(2) by (simp add: ag1_def)
  have s: "(?fd, ?ev) \<in># subs ag1" using m(3) by (simp add: ag1_def)
  have "msg_arrived_ag timerfd ag (Ric_sub_req sr) = Some ag1"
    using m(1) by (simp add: msg_arrived_ag_def e2ap_msg_handle_agent_def check_valid_msg_type_agent_def
        e2ap_send_bytes_agent_def ag1_def)
  moreover have "agent_round timerfd ag1 ?fd rcv rd
      = Some (e2ap_send_bytes_agent ag1 (Ric_ind (generate_indication d ?ev)))"
    using periodic_event[OF inv s g(1)] assms(7) by (simp add: agent_round_def periodic_indication_def sub_event_def)
  moreover obtain ag2 where ag2: "stop_ind_event ag1 (iv_ric_id ?ev) = Some (True, ag2)"
    "subs ag1 = add_mset (?fd, ?ev) (subs ag2)" "g_sent ag2 = g_sent ag1"
    "mset (g_fds ag1) = {#?fd#} + mset (g_fds ag2)"
    using unsubscribe_ok[OF inv s] g(1) by auto
  moreover have "msg_arrived_ag timerfd ag1 (Ric_sub_del_req \<lparr>sdr_ric_id = sr_ric_id sr\<rparr>)
      = Some (ag2\<lparr>g_sent := g_sent ag1 @ [Ric_sub_del_resp \<lparr>sdresp_ric_id = sr_ric_id sr\<rparr>]\<rparr>)"
    using ag2(1,3) by (simp add: msg_arrived_ag_def e2ap_msg_handle_agent_def check_valid_msg_type_agent_def
        e2ap_send_bytes_agent_def e2ap_handle_subscription_delete_request_agent_def sub_event_def)
  moreover have "subs ag2 = subs ag" using m(3) ag2(2) by (simp add: ag1_def)
  moreover have "mset (g_fds ag2) = mset (g_fds ag)" using ag2(4) by (simp add: ag1_def)
  ultimately show ?thesis using g(2)
    by (intro exI[of _ ag1] exI[of _ ?fd] exI[of _ "ag2\<lparr>g_sent := g_sent ag1 @ [Ric_sub_del_resp \<lparr>sdresp_ric_id = sr_ric_id sr\<rparr>]\<rparr>"])
      (simp add: ag1_def generate_subscription_response_def generate_indication_def sub_event_def e2ap_send_bytes_agent_def)
qed

theorem agent_serves_subscription_witness:
  "\<exists>ag1 fd ag2. msg_arrived_ag max_fd sample_ag (Ric_sub_req sample_sub_ag) = Some ag1
    \<and> g_sent ag1 = g_sent sample_ag @ [Ric_sub_resp \<lparr>sresp_ric_id = sr_ric_id sample_sub_ag,
        admitted = [\<lparr>adm_ric_act_id = act_id (hd (sr_action sample_sub_ag))\<rparr>], not_admitted = []\<rparr>]
    \<and> fd \<notin> set (g_fds sample_ag)
    \<and> agent_round max_fd ag1 fd Sctp_notification (\<lambda>i. [9]) = Some (ag1\<lparr>g_sent := g_sent ag1 @ [Ric_ind
        \<lparr>ind_ric_id = sr_ric_id sample_sub_ag, ind_action_id = act_id (hd (sr_action sample_sub_ag)), ind_sn = None,
        ind_type = RIC_IND_REPORT, ind_hdr = [], ind_msg = [9], ind_call_process_id = None\<rparr>]\<rparr>)
    \<and> msg_arrived_ag max_fd ag1 (Ric_sub_del_req \<lparr>sdr_ric_id = sr_ric_id sample_sub_ag\<rparr>) = Some ag2
    \<and> g_sent ag2 = g_sent ag1 @ [Ric_sub_del_resp \<lparr>sdresp_ric_id = sr_ric_id sample_sub_ag\<rparr>]
    \<and> subs ag2 = subs sample_ag \<and> mset (g_fds ag2) = mset (g_fds sample_ag)"
proof -
  from agent_serves_subscription[OF sample_ag_ok(1) max_fd_ok sample_sub_ok, of "\<lparr>t_ms = 10, t_act_def = None\<rparr>" "\<lambda>i. [9]"
      "\<lparr>id_ind_hdr = [], id_ind_msg = [9], id_call_process_id = None\<rparr>" Sctp_notification]
  show ?thesis by (simp add: sample_sa_def)
qed

subsection \<open>An association that closes twice\<close>

text \<open>C40: When the RIC closes the association while the agent still waits for the answer to its setup
  request, the agent starts a second timer under the same pending event, and the next of the two
  timers that fires aborts the agent.\<close>

theorem agent_second_close_aborts:
  assumes "ag_inv ag" "timerfd_ok timerfd" "waits ag \<noteq> {#}"
  shows "\<exists>ag'. agent_round timerfd ag (g_ep_fd ag) Sctp_notification rd = Some ag' \<and> size (waits ag') = 2
    \<and> {fd. \<exists>ev. (fd, ev) \<in># waits ag' \<and> agent_round timerfd ag' fd rcv rd' \<noteq> None} = {}"
proof -
  let ?n = "gained timerfd ag"
  from waiting[OF assms(1,3)] obtain fd where w: "waits ag = {#(fd, SETUP_REQUEST_PENDING_EVENT)#}" .
  note t = create_timer_ok[OF assms(2), of 3000 ag]
  obtain p where p: "bi_map_insert (g_pending ag) ?n SETUP_REQUEST_PENDING_EVENT = Some p"
    "bm_pairs p = add_mset (?n, SETUP_REQUEST_PENDING_EVENT) (waits ag)"
    using inv_parts(2)[OF assms(1)]
    by (auto simp: bi_map_insert_def Let_def bm_pairs_def bm_ok_def mset_entries_insert pend_cmp.cmp_self fd_cmp.cmp_self)
  let ?ag = "ag\<lparr>g_fds := ?n # g_fds ag, g_pending := p\<rparr>"
  have closed: "agent_round timerfd ag (g_ep_fd ag) Sctp_notification rd = Some ?ag"
    using net_event[OF assms(1)] t(1) p(1) by (simp add: agent_round_def notification_handle_ag_def wait_setup_def)
  have abort: "agent_round timerfd ?ag a rcv rd' = None" if "(a, ev) \<in># bm_pairs p" for a ev
  proof -
    have "size (bm_pairs p) = 2" by (simp add: p(2) w)
    then have "length (bm_left p) = 2" by (simp add: bm_pairs_def)
    then have sz: "bi_map_size p \<noteq> Some 1" by (auto simp: bi_map_size_def Let_def)
    have "a = ?n \<or> a = fd" using that p(2) w by auto
    then have a: "0 < a" "a \<noteq> g_ep_fd ag" "a \<noteq> g_pipe_r ag"
      using t(2,3) watched[OF assms(1)] ep_pipe(4)[OF assms(1), of fd SETUP_REQUEST_PENDING_EVENT] w by auto
    have "(a, ev') \<notin># subs ag" for ev'
      using \<open>a = ?n \<or> a = fd\<close> new_timer_key[OF assms(1,2)] ep_pipe(6)[OF assms(1), of fd SETUP_REQUEST_PENDING_EVENT ev'] w by auto
    then have no: "entries_find_if (\<lambda>k. a = k) (bm_left (g_ind_event ag)) = None"
      unfolding entries_find_if_None by (auto simp: bm_pairs_def)
    have "pend_event_ag ?ag a = None" using sz by (cases "bi_map_size p") (auto simp: pend_event_ag_def)
    then show ?thesis
      using a no by (simp add: agent_round_def next_async_event_agent_def net_pkt_ag_def aind_event_def ind_event_def)
  qed
  have "{a. \<exists>ev. (a, ev) \<in># bm_pairs p \<and> agent_round timerfd ?ag a rcv rd' \<noteq> None} = {}"
    by (auto dest!: abort)
  moreover have "size (bm_pairs p) = 2" by (simp add: p(2) w)
  ultimately show ?thesis using closed by (intro exI[of _ ?ag]) simp
qed

definition waiting_ag :: e2_agent_t where
  "waiting_ag = the (wait_setup max_fd sample_ag)"

theorem agent_second_close_aborts_witness:
  "\<exists>ag'. agent_round max_fd waiting_ag (g_ep_fd waiting_ag) Sctp_notification (\<lambda>i. []) = Some ag' \<and> size (waits ag') = 2
    \<and> {fd. \<exists>ev. (fd, ev) \<in># waits ag' \<and> agent_round max_fd ag' fd Sctp_notification (\<lambda>i. []) \<noteq> None} = {}"
proof -
  have "ag_inv waiting_ag" "waits waiting_ag \<noteq> {#}"
    using wait_setup_ok[OF sample_ag_ok(1) max_fd_ok sample_ag_ok(2)] by (auto simp: waiting_ag_def)
  from agent_second_close_aborts[OF this(1) max_fd_ok this(2), of "\<lambda>i. []" Sctp_notification "\<lambda>i. []"] show ?thesis .
qed

end
