(* ===== verification/Xapp.thy ===== *)
theory Xapp
  imports E2_Agent Assoc_Reg
begin

text \<open>
  The xApp library: \<^verbatim>\<open>src/src/flexric/src/xApp/e42_xapp.c\<close>, \<^verbatim>\<open>msg_handler_xapp.c\<close>,
  \<^verbatim>\<open>msg_generator_xapp.c\<close>, \<^verbatim>\<open>act_proc.c\<close>, \<^verbatim>\<open>pending_event_xapp.c\<close>, \<^verbatim>\<open>sync_ui.c\<close>, \<^verbatim>\<open>asio_xapp.c\<close>,
  \<^verbatim>\<open>msg_dispatcher_xapp.c\<close> and the look-up of \<^verbatim>\<open>plugin_ric.c\<close>.

  Three threads share the state.  The thread of the user calls the library and waits for the answer;
  the event loop receives the messages; the worker calls the callbacks of the user.  Here are the
  state and the operations; \<open>Xapp_Threads\<close> interleaves them.  A callback is a number, the name of the
  function.  Service models, descriptors and messages are treated as in the RIC and the agent.
\<close>

subsection \<open>State\<close>

type_synonym sm_cb = nat

datatype act_proc_val_e = RIC_SUBSCRIPTION_PROCEDURE_ACTIVE | RIC_CONTROL_PROCEDURE_ACTIVE

record act_proc_val_t =
  ap_type :: act_proc_val_e
  ap_id :: ric_gen_id_t
  ap_sm_cb :: "sm_cb option"
  ap_e2_node :: global_e2_node_id_t

record pending_event_xapp_t =
  px_ev :: pending_event_t
  px_id :: ric_gen_id_t
  px_wait_ms :: int

record sync_ui_t =
  sy_wait_ms :: int
  flag_sync :: bool
  msg_ack :: bool

record msg_dispatch_t =
  md_rd :: sm_ag_if_rd_ind_t
  md_sm_cb :: "sm_cb option"

text \<open>
  \<open>xa_disp\<close> is the queue of the worker (\<^verbatim>\<open>tsn_queue.c\<close>), \<open>xa_db\<close> what is handed to the database,
  \<open>xa_called\<close> the calls of the callbacks.
\<close>

record e42_xapp_t =
  xa_ep_fd :: int
  xa_fds :: "int list"
  xa_sent :: "e2ap_msg_t list"
  xa_plugin_ag :: "(u16, sm_agent_t) entries"
  xa_plugin_ric :: "(u16, sm_ric_t) entries"
  xa_e2_nodes :: reg_e2_nodes_t
  xa_id :: u16
  xa_sync :: sync_ui_t
  xa_act_proc :: "act_proc_val_t assoc_reg_t"
  xa_pending :: "(int, pending_event_xapp_t) bi_map_t"
  xa_disp :: "msg_dispatch_t list"
  xa_db :: "(global_e2_node_id_t \<times> sm_ag_if_rd_ind_t) list"
  xa_called :: "(sm_cb \<times> sm_ag_if_rd_ind_t) list"
  xa_connected :: bool

subsection \<open>Active procedures\<close>

text \<open>\<^verbatim>\<open>sizeof(act_proc_val_t)\<close> with 64-bit pointers.\<close>

definition act_proc_val_sz :: nat where "act_proc_val_sz = 56"

definition init_act_proc :: "act_proc_val_t assoc_reg_t" where
  "init_act_proc = assoc_reg_init act_proc_val_sz"

definition add_act_proc :: "act_proc_val_t assoc_reg_t \<Rightarrow> act_proc_val_e \<Rightarrow> ric_gen_id_t \<Rightarrow> global_e2_node_id_t
    \<Rightarrow> sm_cb option \<Rightarrow> (u32 \<times> act_proc_val_t assoc_reg_t) option" where
  "add_act_proc p type i e2_node cb =
     (let val = \<lparr>ap_type = type, ap_id = i, ap_sm_cb = cb, ap_e2_node = cp_global_e2_node_id e2_node\<rparr>
      in assoc_reg_push_back p val act_proc_val_sz)"

definition rm_act_proc :: "act_proc_val_t assoc_reg_t \<Rightarrow> u16 \<Rightarrow> act_proc_val_t assoc_reg_t option" where
  "rm_act_proc p r = do {
     it \<leftarrow> assoc_reg_front p;
     it \<leftarrow> find_reg p it (assoc_reg_end p) (ucast r);
     assert_c (it \<noteq> assoc_reg_end p);
     nxt \<leftarrow> assoc_reg_next p it;
     (p, freed) \<leftarrow> assoc_reg_erase p it nxt;
     Some p
   }"

text \<open>The search also writes the number into the identifier of the value that it finds.\<close>

definition find_act_proc :: "act_proc_val_t assoc_reg_t \<Rightarrow> u16
    \<Rightarrow> (act_proc_val_t option \<times> act_proc_val_t assoc_reg_t) option" where
  "find_act_proc p r = do {
     it \<leftarrow> assoc_reg_front p;
     it \<leftarrow> find_reg p it (assoc_reg_end p) (ucast r);
     if it = assoc_reg_end p then Some (None, p)
     else do {
       val \<leftarrow> assoc_reg_value p it;
       let val = val\<lparr>ap_id := (ap_id val)\<lparr>ric_req_id := ucast r\<rparr>\<rparr>;
       b \<leftarrow> peek (rg_arr p) it;
       Some (Some val, p\<lparr>rg_arr := (rg_arr p)[it := b\<lparr>b_val := Some val\<rparr>]\<rparr>)
     }
   }"

text \<open>What the message handlers ask: the procedure must be there.\<close>

definition proc_of :: "e42_xapp_t \<Rightarrow> u32 \<Rightarrow> (act_proc_val_t \<times> e42_xapp_t) option" where
  "proc_of xa r = do {
     (rv, p) \<leftarrow> find_act_proc (xa_act_proc xa) (ucast r);
     val \<leftarrow> rv;
     Some (val, xa\<lparr>xa_act_proc := p\<rparr>)
   }"

subsection \<open>Timers and pending events\<close>

definition add_fd_asio_xapp :: "e42_xapp_t \<Rightarrow> int \<Rightarrow> e42_xapp_t option" where
  "add_fd_asio_xapp xa fd = do {
     assert_c (fd > 0);
     assert_c (fd \<notin> set (xa_fds xa));
     Some (xa\<lparr>xa_fds := fd # xa_fds xa\<rparr>)
   }"

definition rm_fd_asio_xapp :: "e42_xapp_t \<Rightarrow> int \<Rightarrow> e42_xapp_t option" where
  "rm_fd_asio_xapp xa fd = do {
     assert_c (fd \<in> set (xa_fds xa));
     Some (xa\<lparr>xa_fds := remove1 fd (xa_fds xa)\<rparr>)
   }"

definition create_timer_ms_asio_xapp :: "(int list \<Rightarrow> int) \<Rightarrow> e42_xapp_t \<Rightarrow> int \<Rightarrow> int
    \<Rightarrow> (int \<times> e42_xapp_t) option" where
  "create_timer_ms_asio_xapp timerfd xa initial_ms interval_ms = do {
     assert_c (initial_ms > 0);
     assert_c (interval_ms > 0);
     let tfd = timerfd (xa_fds xa);
     assert_c (tfd \<noteq> -1);
     xa \<leftarrow> add_fd_asio_xapp xa tfd;
     Some (tfd, xa)
   }"

text \<open>The map is sorted by \<^verbatim>\<open>cmp_pending_event\<close>, which reads the first field only.\<close>

definition cmp_pending_event_xapp :: "pending_event_xapp_t \<Rightarrow> pending_event_xapp_t \<Rightarrow> int" where
  "cmp_pending_event_xapp m0 m1 = cmp_pending_event (px_ev m0) (px_ev m1)"

definition eq_pending_event_xapp :: "pending_event_xapp_t \<Rightarrow> pending_event_xapp_t \<Rightarrow> bool" where
  "eq_pending_event_xapp m0 m1 =
     (if px_ev m0 \<noteq> px_ev m1 then False
      else if \<not> eq_ric_gen_id (px_id m0) (px_id m1) then False else True)"

definition init_pending_events_xapp :: "(int, pending_event_xapp_t) bi_map_t" where
  "init_pending_events_xapp = bi_map_init cmp_fd cmp_pending_event_xapp"

definition add_pending_event :: "(int, pending_event_xapp_t) bi_map_t \<Rightarrow> int \<Rightarrow> pending_event_xapp_t
    \<Rightarrow> (int, pending_event_xapp_t) bi_map_t option" where
  "add_pending_event p fd ev = do { assert_c (fd > 0); bi_map_insert p fd ev }"

definition find_pending_event_fd :: "(int, pending_event_xapp_t) bi_map_t \<Rightarrow> int \<Rightarrow> bool option" where
  "find_pending_event_fd p fd = do {
     assert_c (fd > 0);
     Some (entries_find_if (\<lambda>k. fd = k) (bm_left p) \<noteq> None)
   }"

text \<open>
  The search by event, \<^verbatim>\<open>find_pending_event_ev\<close>, has no caller and is left out: it goes through
  \<^verbatim>\<open>find_if_bi_map_right\<close>, which hands the nodes of the tree, not their keys, to the predicate.
\<close>

definition rm_pending_event_ev :: "(int, pending_event_xapp_t) bi_map_t \<Rightarrow> pending_event_xapp_t
    \<Rightarrow> (int \<times> (int, pending_event_xapp_t) bi_map_t) option" where
  "rm_pending_event_ev p ev = do {
     sz \<leftarrow> bi_map_size p;
     (fd, p) \<leftarrow> bi_map_extract_right p ev;
     sz' \<leftarrow> bi_map_size p;
     assert_c (sz = sz' + 1);
     assert_c (fd > 0);
     Some (fd, p)
   }"

definition rm_pending_event_fd :: "(int, pending_event_xapp_t) bi_map_t \<Rightarrow> int
    \<Rightarrow> (int, pending_event_xapp_t) bi_map_t option" where
  "rm_pending_event_fd p fd = do {
     assert_c (fd > 0);
     (ev, p) \<leftarrow> bi_map_extract_left p fd;
     Some p
   }"

definition add_pending_event_xapp :: "(int list \<Rightarrow> int) \<Rightarrow> e42_xapp_t \<Rightarrow> pending_event_xapp_t \<Rightarrow> e42_xapp_t option" where
  "add_pending_event_xapp timerfd xa ev = do {
     assert_c (px_wait_ms ev > 0);
     (fd_timer, xa) \<leftarrow> create_timer_ms_asio_xapp timerfd xa (px_wait_ms ev) (px_wait_ms ev);
     p \<leftarrow> add_pending_event (xa_pending xa) fd_timer ev;
     Some (xa\<lparr>xa_pending := p\<rparr>)
   }"

definition rm_pending_event_xapp :: "e42_xapp_t \<Rightarrow> pending_event_xapp_t \<Rightarrow> e42_xapp_t option" where
  "rm_pending_event_xapp xa ev = do {
     (fd, p) \<leftarrow> rm_pending_event_ev (xa_pending xa) ev;
     rm_fd_asio_xapp (xa\<lparr>xa_pending := p\<rparr>) fd
   }"

subsection \<open>The thread of the user\<close>

definition init_sync_ui :: sync_ui_t where
  "init_sync_ui = \<lparr>sy_wait_ms = 5000, flag_sync = False, msg_ack = False\<rparr>"

text \<open>
  \<^verbatim>\<open>cond_wait_sync_ui\<close> resets the flags under the lock and then waits; it returns when it finds the
  flag set.  When the time is over it aborts.
\<close>

definition cond_wait_enter :: "sync_ui_t \<Rightarrow> int \<Rightarrow> sync_ui_t option" where
  "cond_wait_enter s wait_ms = do {
     assert_c (wait_ms > 0);
     Some (s\<lparr>flag_sync := False, msg_ack := False\<rparr>)
   }"

definition cond_wait_leave :: "sync_ui_t \<Rightarrow> bool option" where
  "cond_wait_leave s =
     (if \<not> flag_sync s then Some False
      else do { assert_c (msg_ack s); Some True })"

definition signal_sync_ui :: "sync_ui_t \<Rightarrow> sync_ui_t" where
  "signal_sync_ui s = s\<lparr>flag_sync := True, msg_ack := True\<rparr>"

abbreviation signal_xapp :: "e42_xapp_t \<Rightarrow> e42_xapp_t" where
  "signal_xapp xa \<equiv> xa\<lparr>xa_sync := signal_sync_ui (xa_sync xa)\<rparr>"

subsection \<open>Messages to send\<close>

definition sm_plugin_ric_xapp :: "e42_xapp_t \<Rightarrow> u16 \<Rightarrow> sm_ric_t option" where
  "sm_plugin_ric_xapp xa rfid = do {
     assert_c (rfid > 0);
     (k, sm) \<leftarrow> entries_find_if (eq_ran_func_id rfid) (xa_plugin_ric xa);
     assert_c (sm_ran_func_id sm = rfid);
     Some sm
   }"

definition e2ap_send_bytes_xapp :: "e42_xapp_t \<Rightarrow> e2ap_msg_t \<Rightarrow> e42_xapp_t" where
  "e2ap_send_bytes_xapp xa msg = xa\<lparr>xa_sent := xa_sent xa @ [msg]\<rparr>"

definition generate_subscription_request_xapp :: "ric_gen_id_t \<Rightarrow> sm_ric_t \<Rightarrow> byte_array_t
    \<Rightarrow> ric_subscription_request_t option" where
  "generate_subscription_request_xapp ric_id sm cmd = do {
     let data = on_subscription sm cmd;
     assert_c (case sd_action_def data of None \<Rightarrow> True | Some ad \<Rightarrow> length ad < 65536);
     Some \<lparr>sr_ric_id = ric_id, event_trigger = sd_event_trigger data,
       sr_action = [\<lparr>act_id = 0, act_type = RIC_ACT_REPORT, act_definition = sd_action_def data,
                     subseq_action = None\<rparr>]\<rparr>
   }"

definition generate_e42_setup_request :: "e42_xapp_t \<Rightarrow> e42_setup_request_t option" where
  "generate_e42_setup_request xa = do {
     let len_rf = length (xa_plugin_ag xa);
     assert_c (len_rf > 0);
     assert_c (len_rf = length (xa_plugin_ric xa));
     ran_func \<leftarrow> gen_ran_functions (xa_plugin_ag xa);
     Some \<lparr>e42_ran_func_item = ran_func\<rparr>
   }"

definition generate_ric_control_request :: "ric_gen_id_t \<Rightarrow> sm_ric_t \<Rightarrow> byte_array_t \<Rightarrow> ric_control_request_t" where
  "generate_ric_control_request ric_id sm ctrl_msg =
     (let data = on_control_req sm ctrl_msg
      in \<lparr>cr_ric_id = ric_id, cr_call_process_id = None, cr_hdr = cd_ctrl_hdr data, cr_msg = cd_ctrl_msg data,
          cr_ack_req = Some RIC_CONTROL_REQUEST_ACK\<rparr>)"

text \<open>\<^verbatim>\<open>.id = {0}\<close>, and the identifier of a designated initialiser that does not name it.\<close>

definition no_id :: ric_gen_id_t where
  "no_id = \<lparr>ric_req_id = 0, ric_inst_id = 0, ran_func_id = 0\<rparr>"

definition e2ap_handle_e42_setup_request_xapp :: "(int list \<Rightarrow> int) \<Rightarrow> e42_xapp_t \<Rightarrow> e42_xapp_t option" where
  "e2ap_handle_e42_setup_request_xapp timerfd xa = do {
     sr \<leftarrow> generate_e42_setup_request xa;
     assert_c (length (e42_ran_func_item sr) > 0);
     let xa = e2ap_send_bytes_xapp xa (E42_stp_req sr);
     add_pending_event_xapp timerfd xa \<lparr>px_ev = E42_SETUP_REQUEST_PENDING_EVENT, px_id = no_id, px_wait_ms = 1000\<rparr>
   }"

definition send_setup_request :: "(int list \<Rightarrow> int) \<Rightarrow> e42_xapp_t \<Rightarrow> e42_xapp_t option" where
  "send_setup_request timerfd xa = e2ap_handle_e42_setup_request_xapp timerfd xa"

text \<open>The pending event of a subscription request is there before the request is sent; the other two
  requests are sent first.\<close>

definition e2ap_handle_e42_ric_subscription_request_xapp :: "(int list \<Rightarrow> int) \<Rightarrow> e42_xapp_t
    \<Rightarrow> e42_ric_subscription_request_t \<Rightarrow> e42_xapp_t option" where
  "e2ap_handle_e42_ric_subscription_request_xapp timerfd xa e42_sr = do {
     let ev = \<lparr>px_ev = E42_RIC_SUBSCRIPTION_REQUEST_PENDING_EVENT, px_id = sr_ric_id (esr_sr e42_sr), px_wait_ms = 5000\<rparr>;
     xa \<leftarrow> add_pending_event_xapp timerfd xa ev;
     Some (e2ap_send_bytes_xapp xa (E42_ric_sub_req e42_sr))
   }"

definition delete_request_ev :: "e42_ric_subscription_delete_request_t \<Rightarrow> pending_event_xapp_t" where
  "delete_request_ev e42_sdr = \<lparr>px_ev = E42_RIC_SUBSCRIPTION_DELETE_REQUEST_PENDING_EVENT,
     px_id = sdr_ric_id (esd_sdr e42_sdr), px_wait_ms = 10000\<rparr>"

definition e2ap_handle_e42_subscription_delete_request_xapp :: "(int list \<Rightarrow> int) \<Rightarrow> e42_xapp_t
    \<Rightarrow> e42_ric_subscription_delete_request_t \<Rightarrow> e42_xapp_t option" where
  "e2ap_handle_e42_subscription_delete_request_xapp timerfd xa e42_sdr =
     (let xa = e2ap_send_bytes_xapp xa (E42_ric_sub_del_req e42_sdr)
      in add_pending_event_xapp timerfd xa (delete_request_ev e42_sdr))"

definition control_request_ev :: "e42_ric_control_request_t \<Rightarrow> pending_event_xapp_t" where
  "control_request_ev cr = \<lparr>px_ev = E42_RIC_CONTROL_REQUEST_PENDING_EVENT,
     px_id = cr_ric_id (ecr_ctrl_req cr), px_wait_ms = 10000\<rparr>"

definition e2ap_handle_e42_ric_control_request_xapp :: "(int list \<Rightarrow> int) \<Rightarrow> e42_xapp_t
    \<Rightarrow> e42_ric_control_request_t \<Rightarrow> e42_xapp_t option" where
  "e2ap_handle_e42_ric_control_request_xapp timerfd xa cr =
     (let xa = e2ap_send_bytes_xapp xa (E42_ric_ctrl_req cr)
      in add_pending_event_xapp timerfd xa (control_request_ev cr))"

subsection \<open>Messages received\<close>

definition e2ap_handle_subscription_response_xapp :: "e42_xapp_t \<Rightarrow> ric_subscription_response_t
    \<Rightarrow> (e2ap_msg_t \<times> e42_xapp_t) option" where
  "e2ap_handle_subscription_response_xapp xa resp = do {
     (val, xa) \<leftarrow> proc_of xa (ric_req_id (sresp_ric_id resp));
     let ev = \<lparr>px_ev = E42_RIC_SUBSCRIPTION_REQUEST_PENDING_EVENT, px_id = ap_id val, px_wait_ms = 0\<rparr>;
     xa \<leftarrow> rm_pending_event_xapp xa ev;
     Some (no_msg, signal_xapp xa)
   }"

definition e2ap_handle_subscription_delete_response_xapp :: "e42_xapp_t \<Rightarrow> ric_subscription_delete_response_t
    \<Rightarrow> (e2ap_msg_t \<times> e42_xapp_t) option" where
  "e2ap_handle_subscription_delete_response_xapp xa resp = do {
     (val, xa) \<leftarrow> proc_of xa (ric_req_id (sdresp_ric_id resp));
     let ev = \<lparr>px_ev = E42_RIC_SUBSCRIPTION_DELETE_REQUEST_PENDING_EVENT, px_id = ap_id val, px_wait_ms = 0\<rparr>;
     xa \<leftarrow> rm_pending_event_xapp xa ev;
     Some (no_msg, signal_xapp xa)
   }"

definition ind_sm_payload :: "ric_indication_t \<Rightarrow> sm_ind_data_t option" where
  "ind_sm_payload src = do {
     assert_c (case ind_call_process_id src of None \<Rightarrow> True | Some c \<Rightarrow> length c > 0);
     Some \<lparr>id_ind_hdr = ind_hdr src, id_ind_msg = ind_msg src, id_call_process_id = ind_call_process_id src\<rparr>
   }"

text \<open>The assertion on the type leaves out \<^const>\<open>TC_STATS_V0\<close>.\<close>

definition e2ap_handle_indication_xapp :: "e42_xapp_t \<Rightarrow> ric_indication_t \<Rightarrow> (e2ap_msg_t \<times> e42_xapp_t) option" where
  "e2ap_handle_indication_xapp xa src = do {
     sm \<leftarrow> sm_plugin_ric_xapp xa (ran_func_id (ind_ric_id src));
     ind_data \<leftarrow> ind_sm_payload src;
     let rd = on_indication sm ind_data;
     assert_c (rd_type rd = MAC_STATS_V0 \<or> rd_type rd = RLC_STATS_V0 \<or> rd_type rd = PDCP_STATS_V0
       \<or> rd_type rd = SLICE_STATS_V0 \<or> rd_type rd = KPM_STATS_V3_0 \<or> rd_type rd = GTP_STATS_V0
       \<or> rd_type rd = RAN_CTRL_STATS_V1_03);
     (ans, p) \<leftarrow> find_act_proc (xa_act_proc xa) (ucast (ric_req_id (ind_ric_id src)));
     let xa = xa\<lparr>xa_act_proc := p\<rparr>;
     Some (no_msg, case ans of
         None \<Rightarrow> xa
       | Some val \<Rightarrow> xa\<lparr>xa_db := xa_db xa @ [(ap_e2_node val, rd)],
           xa_disp := xa_disp xa @ [\<lparr>md_rd = rd, md_sm_cb = ap_sm_cb val\<rparr>]\<rparr>)
   }"

definition e2ap_handle_control_ack_xapp :: "e42_xapp_t \<Rightarrow> ric_control_acknowledge_t
    \<Rightarrow> (e2ap_msg_t \<times> e42_xapp_t) option" where
  "e2ap_handle_control_ack_xapp xa ack = do {
     (val, xa) \<leftarrow> proc_of xa (ric_req_id (ack_ric_id ack));
     let ev = \<lparr>px_ev = E42_RIC_CONTROL_REQUEST_PENDING_EVENT, px_id = ap_id val, px_wait_ms = 0\<rparr>;
     xa \<leftarrow> rm_pending_event_xapp xa ev;
     Some (no_msg, signal_xapp xa)
   }"

definition e2ap_handle_control_failure_xapp :: "e42_xapp_t \<Rightarrow> ric_control_failure_t
    \<Rightarrow> (e2ap_msg_t \<times> e42_xapp_t) option" where
  "e2ap_handle_control_failure_xapp xa failure = do {
     (val, xa) \<leftarrow> proc_of xa (ric_req_id (cf_ric_id failure));
     let ev = \<lparr>px_ev = E42_RIC_CONTROL_REQUEST_PENDING_EVENT, px_id = ap_id val, px_wait_ms = 0\<rparr>;
     xa \<leftarrow> rm_pending_event_xapp xa ev;
     Some (no_msg, signal_xapp xa)
   }"

fun add_nodes :: "reg_e2_nodes_t \<Rightarrow> e2_node_connected_t list \<Rightarrow> reg_e2_nodes_t option" where
  "add_nodes reg [] = Some reg"
| "add_nodes reg (n # ns) = do {
     reg \<leftarrow> add_reg_e2_node reg (nc_id n) (nc_ack_rf n) (nc_cca n);
     add_nodes reg ns
   }"

text \<open>The loop runs over the \<open>len_e2_nodes_conn\<close> first entries of the array.\<close>

definition e2ap_handle_e42_setup_response_xapp :: "(int list \<Rightarrow> int) \<Rightarrow> e42_xapp_t \<Rightarrow> e42_setup_response_t
    \<Rightarrow> (e2ap_msg_t \<times> e42_xapp_t) option" where
  "e2ap_handle_e42_setup_response_xapp timerfd xa sr =
     (if xa_connected xa then Some (no_msg, xa)
      else do {
        let xa = xa\<lparr>xa_id := e42_xapp_id sr\<rparr>;
        assert_c (unat (len_e2_nodes_conn sr) \<le> length (e42_nodes sr));
        reg \<leftarrow> add_nodes (xa_e2_nodes xa) (take (unat (len_e2_nodes_conn sr)) (e42_nodes sr));
        let xa = xa\<lparr>xa_e2_nodes := reg\<rparr>;
        xa \<leftarrow> rm_pending_event_xapp xa \<lparr>px_ev = E42_SETUP_REQUEST_PENDING_EVENT, px_id = no_id, px_wait_ms = 0\<rparr>;
        xa \<leftarrow> (if sz_reg_e2_node (xa_e2_nodes xa) = 0
               then do { xa \<leftarrow> send_setup_request timerfd xa; Some (xa\<lparr>xa_connected := False\<rparr>) }
               else Some (xa\<lparr>xa_connected := True\<rparr>));
        Some (no_msg, xa)
      })"

definition check_valid_msg_type_xapp :: "e2_msg_type_t \<Rightarrow> bool" where
  "check_valid_msg_type_xapp t \<longleftrightarrow> t = RIC_SUBSCRIPTION_RESPONSE \<or> t = RIC_SUBSCRIPTION_FAILURE
     \<or> t = RIC_SUBSCRIPTION_DELETE_RESPONSE \<or> t = RIC_SUBSCRIPTION_DELETE_FAILURE \<or> t = RIC_INDICATION
     \<or> t = RIC_CONTROL_ACKNOWLEDGE \<or> t = RIC_CONTROL_FAILURE \<or> t = E2AP_ERROR_INDICATION
     \<or> t = E42_SETUP_RESPONSE \<or> t = E2_SETUP_FAILURE \<or> t = E42_RIC_CONTROL_REQUEST \<or> t = E42_SETUP_REQUEST
     \<or> t = E2AP_RESET_REQUEST \<or> t = E2AP_RESET_RESPONSE \<or> t = RIC_SERVICE_UPDATE
     \<or> t = E2_NODE_CONFIGURATION_UPDATE \<or> t = E2_CONNECTION_UPDATE_ACKNOWLEDGE
     \<or> t = E2_CONNECTION_UPDATE_FAILURE"

text \<open>The table of handlers.  The handler of the setup request asserts that there is no message, the
  handlers that are left out only fail an assertion.\<close>

fun handle_msg_xapp :: "(int list \<Rightarrow> int) \<Rightarrow> e42_xapp_t \<Rightarrow> e2ap_msg_t \<Rightarrow> (e2ap_msg_t \<times> e42_xapp_t) option" where
  "handle_msg_xapp timerfd xa (Ric_sub_resp m) = e2ap_handle_subscription_response_xapp xa m"
| "handle_msg_xapp timerfd xa (Ric_sub_del_resp m) = e2ap_handle_subscription_delete_response_xapp xa m"
| "handle_msg_xapp timerfd xa (Ric_ind m) = e2ap_handle_indication_xapp xa m"
| "handle_msg_xapp timerfd xa (Ric_ctrl_ack m) = e2ap_handle_control_ack_xapp xa m"
| "handle_msg_xapp timerfd xa (Ric_ctrl_fail m) = e2ap_handle_control_failure_xapp xa m"
| "handle_msg_xapp timerfd xa (E42_stp_resp m) = e2ap_handle_e42_setup_response_xapp timerfd xa m"
| "handle_msg_xapp timerfd xa (E42_ric_sub_req m) =
     do { xa \<leftarrow> e2ap_handle_e42_ric_subscription_request_xapp timerfd xa m; Some (no_msg, xa) }"
| "handle_msg_xapp timerfd xa (E42_ric_sub_del_req m) =
     do { xa \<leftarrow> e2ap_handle_e42_subscription_delete_request_xapp timerfd xa m; Some (no_msg, xa) }"
| "handle_msg_xapp timerfd xa (E42_ric_ctrl_req m) =
     do { xa \<leftarrow> e2ap_handle_e42_ric_control_request_xapp timerfd xa m; Some (no_msg, xa) }"
| "handle_msg_xapp timerfd xa _ = None"

definition e2ap_msg_handle_xapp :: "(int list \<Rightarrow> int) \<Rightarrow> e42_xapp_t \<Rightarrow> e2ap_msg_t
    \<Rightarrow> (e2ap_msg_t \<times> e42_xapp_t) option" where
  "e2ap_msg_handle_xapp timerfd xa msg = do {
     assert_c (check_valid_msg_type_xapp (msg_type msg));
     handle_msg_xapp timerfd xa msg
   }"

end
