(* ===== verification/Xapp_Threads.thy ===== *)
theory Xapp_Threads
  imports Xapp
begin

text \<open>
  The three threads of an xApp (\<^verbatim>\<open>xApp/e42_xapp.c\<close>, \<^verbatim>\<open>e42_xapp_api.c\<close>, \<^verbatim>\<open>msg_dispatcher_xapp.c\<close>) as one
  machine.  A step is a piece of one thread: a round of the event loop, a call of the worker, or the
  part of a call of the user up to the next point at which the other threads can see a difference.
  These points are the sending of a request, the registration of its timer, and the two ends of the
  wait for the answer.
\<close>

subsection \<open>The event loop\<close>

datatype async_event_xapp_t = NETWORK_EVENT | PENDING_EVENT_XAPP pending_event_t

definition net_pkt_xapp :: "e42_xapp_t \<Rightarrow> int \<Rightarrow> bool option" where
  "net_pkt_xapp xa fd = do { assert_c (fd > 0); Some (fd = xa_ep_fd xa) }"

definition pend_event_xapp :: "e42_xapp_t \<Rightarrow> int \<Rightarrow> pending_event_t option" where
  "pend_event_xapp xa fd = do {
     assert_c (fd > 0);
     (k, ev) \<leftarrow> entries_find_if (\<lambda>k. fd = k) (bm_left (xa_pending xa));
     Some (px_ev ev)
   }"

definition find_event_type :: "e42_xapp_t \<Rightarrow> int \<Rightarrow> async_event_xapp_t option" where
  "find_event_type xa fd = do {
     assert_c (fd > 0);
     net \<leftarrow> net_pkt_xapp xa fd;
     if net then Some NETWORK_EVENT
     else do { ev \<leftarrow> pend_event_xapp xa fd; Some (PENDING_EVENT_XAPP ev) }
   }"

definition msg_arrived_xapp :: "(int list \<Rightarrow> int) \<Rightarrow> e42_xapp_t \<Rightarrow> e2ap_msg_t \<Rightarrow> e42_xapp_t option" where
  "msg_arrived_xapp timerfd xa msg = do {
     (ans, xa) \<leftarrow> e2ap_msg_handle_xapp timerfd xa msg;
     Some (if msg_type ans \<noteq> NONE_E2_MSG_TYPE then e2ap_send_bytes_xapp xa ans else xa)
   }"

text \<open>Only the setup request is sent again; the other timers abort.\<close>

definition timer_expired_xapp :: "e42_xapp_t \<Rightarrow> pending_event_t \<Rightarrow> e42_xapp_t option" where
  "timer_expired_xapp xa ev = do {
     assert_c (ev = E42_SETUP_REQUEST_PENDING_EVENT \<or> ev = E42_RIC_SUBSCRIPTION_REQUEST_PENDING_EVENT
       \<or> ev = E42_RIC_SUBSCRIPTION_DELETE_REQUEST_PENDING_EVENT \<or> ev = E42_RIC_CONTROL_REQUEST_PENDING_EVENT);
     assert_c (ev \<noteq> E42_RIC_SUBSCRIPTION_REQUEST_PENDING_EVENT);
     assert_c (ev \<noteq> E42_RIC_SUBSCRIPTION_DELETE_REQUEST_PENDING_EVENT);
     assert_c (ev \<noteq> E42_RIC_CONTROL_REQUEST_PENDING_EVENT);
     sr \<leftarrow> generate_e42_setup_request xa;
     Some (e2ap_send_bytes_xapp xa (E42_stp_req sr))
   }"

text \<open>One round of \<^verbatim>\<open>e2_event_loop_xapp\<close>; \<open>msg\<close> is what the socket holds.\<close>

definition xapp_round :: "(int list \<Rightarrow> int) \<Rightarrow> e42_xapp_t \<Rightarrow> int \<Rightarrow> e2ap_msg_t \<Rightarrow> e42_xapp_t option" where
  "xapp_round timerfd xa fd msg =
     (if fd = -1 then Some xa
      else do {
        e \<leftarrow> find_event_type xa fd;
        case e of
          NETWORK_EVENT \<Rightarrow> msg_arrived_xapp timerfd xa msg
        | PENDING_EVENT_XAPP ev \<Rightarrow> timer_expired_xapp xa ev
      })"

subsection \<open>The worker\<close>

text \<open>The callback of a control procedure is a null pointer.\<close>

definition worker_thread :: "e42_xapp_t \<Rightarrow> e42_xapp_t option" where
  "worker_thread xa = (case xa_disp xa of
       [] \<Rightarrow> Some xa
     | m # ms \<Rightarrow> do { cb \<leftarrow> md_sm_cb m; Some (xa\<lparr>xa_disp := ms, xa_called := xa_called xa @ [(cb, md_rd m)]\<rparr>) })"

subsection \<open>The thread of the user\<close>

definition valid_ran_func_id :: "u16 \<Rightarrow> bool" where
  "valid_ran_func_id rfid \<longleftrightarrow> rfid = 145 \<or> rfid = 142 \<or> rfid = 143 \<or> rfid = 144 \<or> rfid = 146 \<or> rfid = 148
     \<or> rfid = 2 \<or> rfid = 3"

definition valid_sm_id :: "u32 \<Rightarrow> bool" where
  "valid_sm_id i \<longleftrightarrow> i = 2 \<or> i = 3 \<or> i = 142 \<or> i = 143 \<or> i = 144 \<or> i = 145 \<or> i = 146 \<or> i = 147 \<or> i = 148"

definition valid_global_e2_node_xapp :: "global_e2_node_id_t \<Rightarrow> reg_e2_nodes_t \<Rightarrow> bool option" where
  "valid_global_e2_node_xapp nid n = do {
     t \<leftarrow> cp_reg_e2_node n;
     it \<leftarrow> entries_find_if_opt (eq_global_e2_node_id nid) t;
     Some (it \<noteq> None)
   }"

definition generate_ric_gen_id :: "e42_xapp_t \<Rightarrow> act_proc_val_e \<Rightarrow> u16 \<Rightarrow> global_e2_node_id_t \<Rightarrow> sm_cb option
    \<Rightarrow> (ric_gen_id_t \<times> e42_xapp_t) option" where
  "generate_ric_gen_id xa type rfid nid cb = do {
     assert_c (valid_ran_func_id rfid);
     let ric_req = \<lparr>ric_req_id = 0, ric_inst_id = 0, ran_func_id = rfid\<rparr>;
     (r, p) \<leftarrow> add_act_proc (xa_act_proc xa) type ric_req nid cb;
     assert_c (r < push_bit 16 1);
     Some (ric_req\<lparr>ric_req_id := r\<rparr>, xa\<lparr>xa_act_proc := p\<rparr>)
   }"

definition send_subscription_request :: "(int list \<Rightarrow> int) \<Rightarrow> e42_xapp_t \<Rightarrow> global_e2_node_id_t \<Rightarrow> ric_gen_id_t
    \<Rightarrow> byte_array_t \<Rightarrow> e42_xapp_t option" where
  "send_subscription_request timerfd xa nid ric_id data = do {
     sm \<leftarrow> sm_plugin_ric_xapp xa (ran_func_id ric_id);
     sr \<leftarrow> generate_subscription_request_xapp ric_id sm data;
     let e42_sr = \<lparr>esr_xapp_id = xa_id xa, esr_id = cp_global_e2_node_id nid, esr_sr = sr\<rparr>;
     e2ap_handle_e42_ric_subscription_request_xapp timerfd xa e42_sr
   }"

text \<open>A call of the user.  \<open>Ui_pend\<close>: the request is sent, its timer not yet registered; \<open>Ui_sent\<close>: before
  the wait; \<open>Ui_blocked\<close>: in the wait.\<close>

datatype ui_op = Op_report ric_gen_id_t | Op_rm_report int | Op_control ric_gen_id_t

datatype ui_pc = Ui_idle | Ui_pend pending_event_xapp_t ui_op | Ui_sent ui_op | Ui_blocked ui_op

datatype ui_call =
    Report global_e2_node_id_t u32 byte_array_t sm_cb
  | Rm_report int
  | Control global_e2_node_id_t u32 byte_array_t

record sm_ans_xapp_t =
  ans_success :: bool
  ans_handle :: int

record xapp_sys_t =
  z_xapp :: e42_xapp_t
  z_ui :: ui_pc
  z_ans :: "sm_ans_xapp_t list"

definition report_sm_xapp_api :: "(int list \<Rightarrow> int) \<Rightarrow> e42_xapp_t \<Rightarrow> global_e2_node_id_t \<Rightarrow> u32 \<Rightarrow> byte_array_t
    \<Rightarrow> sm_cb \<Rightarrow> (e42_xapp_t \<times> ui_pc) option" where
  "report_sm_xapp_api timerfd xa nid rfn data cb = do {
     vn \<leftarrow> valid_global_e2_node_xapp nid (xa_e2_nodes xa);
     assert_c vn;
     assert_c (valid_sm_id rfn);
     (ric_id, xa) \<leftarrow> generate_ric_gen_id xa RIC_SUBSCRIPTION_PROCEDURE_ACTIVE (ucast rfn) nid (Some cb);
     xa \<leftarrow> send_subscription_request timerfd xa nid ric_id data;
     Some (xa, Ui_sent (Op_report ric_id))
   }"

definition rm_report_sm_xapp_api :: "e42_xapp_t \<Rightarrow> int \<Rightarrow> (e42_xapp_t \<times> ui_pc) option" where
  "rm_report_sm_xapp_api xa hdl = do {
     assert_c (hdl > -1);
     assert_c (hdl > -1 \<and> hdl < 2 ^ 16);
     (rv, p) \<leftarrow> find_act_proc (xa_act_proc xa) (word_of_int hdl);
     val \<leftarrow> rv;
     let xa = xa\<lparr>xa_act_proc := p\<rparr>;
     let sdr = \<lparr>esd_xapp_id = xa_id xa, esd_sdr = \<lparr>sdr_ric_id = ap_id val\<rparr>\<rparr>;
     Some (e2ap_send_bytes_xapp xa (E42_ric_sub_del_req sdr), Ui_pend (delete_request_ev sdr) (Op_rm_report hdl))
   }"

definition control_sm_xapp_api :: "e42_xapp_t \<Rightarrow> global_e2_node_id_t \<Rightarrow> u32 \<Rightarrow> byte_array_t
    \<Rightarrow> (e42_xapp_t \<times> ui_pc) option" where
  "control_sm_xapp_api xa nid rfid ctrl_msg = do {
     assert_c (rfid = 142 \<or> rfid = 145 \<or> rfid = 146 \<or> rfid = 3);
     assert_c (valid_ran_func_id (ucast rfid));
     (ric_id, xa) \<leftarrow> generate_ric_gen_id xa RIC_CONTROL_PROCEDURE_ACTIVE (ucast rfid) nid None;
     sm \<leftarrow> sm_plugin_ric_xapp xa (ran_func_id ric_id);
     let cr = \<lparr>ecr_xapp_id = xa_id xa, ecr_id = cp_global_e2_node_id nid,
               ecr_ctrl_req = generate_ric_control_request ric_id sm ctrl_msg\<rparr>;
     Some (e2ap_send_bytes_xapp xa (E42_ric_ctrl_req cr), Ui_pend (control_request_ev cr) (Op_control ric_id))
   }"

fun ui_start :: "(int list \<Rightarrow> int) \<Rightarrow> e42_xapp_t \<Rightarrow> ui_call \<Rightarrow> (e42_xapp_t \<times> ui_pc) option" where
  "ui_start timerfd xa (Report nid rfn data cb) = report_sm_xapp_api timerfd xa nid rfn data cb"
| "ui_start timerfd xa (Rm_report hdl) = rm_report_sm_xapp_api xa hdl"
| "ui_start timerfd xa (Control nid rfid ctrl_msg) = control_sm_xapp_api xa nid rfid ctrl_msg"

text \<open>What follows the wait, and the answer of the call.\<close>

fun ui_return :: "e42_xapp_t \<Rightarrow> ui_op \<Rightarrow> (e42_xapp_t \<times> sm_ans_xapp_t list) option" where
  "ui_return xa (Op_report i) = Some (xa, [\<lparr>ans_success = True, ans_handle = uint (ric_req_id i)\<rparr>])"
| "ui_return xa (Op_rm_report hdl) = do { p \<leftarrow> rm_act_proc (xa_act_proc xa) (word_of_int hdl); Some (xa\<lparr>xa_act_proc := p\<rparr>, []) }"
| "ui_return xa (Op_control i) = do {
     p \<leftarrow> rm_act_proc (xa_act_proc xa) (ucast (ric_req_id i));
     Some (xa\<lparr>xa_act_proc := p\<rparr>, [\<lparr>ans_success = True, ans_handle = 0\<rparr>])
   }"

text \<open>The next piece of a call; in the wait it looks at the flag and may have to wait on.\<close>

fun ui_continue :: "(int list \<Rightarrow> int) \<Rightarrow> xapp_sys_t \<Rightarrow> xapp_sys_t option" where
  "ui_continue timerfd z = (case z_ui z of
       Ui_idle \<Rightarrow> Some z
     | Ui_pend ev c \<Rightarrow> do { xa \<leftarrow> add_pending_event_xapp timerfd (z_xapp z) ev; Some (z\<lparr>z_xapp := xa, z_ui := Ui_sent c\<rparr>) }
     | Ui_sent c \<Rightarrow> do {
         s \<leftarrow> cond_wait_enter (xa_sync (z_xapp z)) (sy_wait_ms (xa_sync (z_xapp z)));
         Some (z\<lparr>z_xapp := (z_xapp z)\<lparr>xa_sync := s\<rparr>, z_ui := Ui_blocked c\<rparr>)
       }
     | Ui_blocked c \<Rightarrow> do {
         woken \<leftarrow> cond_wait_leave (xa_sync (z_xapp z));
         if \<not> woken then Some z
         else do { (xa, ans) \<leftarrow> ui_return (z_xapp z) c; Some (z\<lparr>z_xapp := xa, z_ui := Ui_idle, z_ans := z_ans z @ ans\<rparr>) }
       })"

subsection \<open>The machine\<close>

definition init_e42_xapp :: "int \<Rightarrow> (u16, sm_agent_t) entries \<Rightarrow> (u16, sm_ric_t) entries \<Rightarrow> e42_xapp_t option" where
  "init_e42_xapp ep_fd sms_ag sms_ric = add_fd_asio_xapp
     \<lparr>xa_ep_fd = ep_fd, xa_fds = [], xa_sent = [], xa_plugin_ag = sms_ag, xa_plugin_ric = sms_ric,
      xa_e2_nodes = init_reg_e2_node, xa_id = 0, xa_sync = init_sync_ui, xa_act_proc = init_act_proc,
      xa_pending = init_pending_events_xapp, xa_disp = [], xa_db = [], xa_called = [], xa_connected = False\<rparr> ep_fd"

text \<open>\<^verbatim>\<open>start_e42_xapp\<close> sends the setup request and enters the loop.\<close>

definition start_e42_xapp :: "(int list \<Rightarrow> int) \<Rightarrow> e42_xapp_t \<Rightarrow> e42_xapp_t option" where
  "start_e42_xapp timerfd xa = send_setup_request timerfd xa"

datatype xapp_input =
    Ui_call ui_call
  | Ui_continue
  | Ui_timeout
  | Loop int e2ap_msg_t
  | Worker

text \<open>A call is made when the one before it has returned; the time of a wait can end only while it lasts.\<close>

fun xapp_step :: "(int list \<Rightarrow> int) \<Rightarrow> xapp_sys_t \<Rightarrow> xapp_input \<Rightarrow> xapp_sys_t option" where
  "xapp_step timerfd z (Ui_call c) =
     (if z_ui z = Ui_idle
      then do { (xa, pc) \<leftarrow> ui_start timerfd (z_xapp z) c; Some (z\<lparr>z_xapp := xa, z_ui := pc\<rparr>) }
      else Some z)"
| "xapp_step timerfd z Ui_continue = ui_continue timerfd z"
| "xapp_step timerfd z Ui_timeout = (case z_ui z of Ui_blocked c \<Rightarrow> None | _ \<Rightarrow> Some z)"
| "xapp_step timerfd z (Loop fd msg) = do { xa \<leftarrow> xapp_round timerfd (z_xapp z) fd msg; Some (z\<lparr>z_xapp := xa\<rparr>) }"
| "xapp_step timerfd z Worker = do { xa \<leftarrow> worker_thread (z_xapp z); Some (z\<lparr>z_xapp := xa\<rparr>) }"

end
