(* ===== verification/Xapp_Laws.thy ===== *)
theory Xapp_Laws
  imports Xapp_Threads Reg_Properties Agent_Laws
begin

text \<open>
  What an xApp keeps: the registry of its procedures, the map of pending events and the descriptors
  that epoll watches, and how they belong to the call that the user is in.
\<close>

subsection \<open>Active procedures\<close>

text \<open>A value of the registry changed in place.\<close>

lemma value_update_ok:
  fixes reg :: "'v assoc_reg_t" and v :: 'v
  assumes inv: "reg_inv reg" and i: "i < length (live_idx reg)"
  defines "x \<equiv> live_idx reg ! i"
  defines "r \<equiv> reg\<lparr>rg_arr := (rg_arr reg)[x := (rg_arr reg ! x)\<lparr>b_val := Some v\<rparr>]\<rparr>"
  shows "reg_inv r" "reg_entries r = (reg_entries reg)[i := (fst (reg_entries reg ! i), v)]"
    "rg_key_id r = rg_key_id reg" "rg_elm_sz r = rg_elm_sz reg"
proof -
  let ?b = "(rg_arr reg ! x)\<lparr>b_val := Some v\<rparr>"
  have xin: "x \<in> set (live_idx reg)" using i by (simp add: x_def)
  then have x: "x < rg_occ_bucket reg" by (simp add: live_idx_set)
  then have xl: "x < length (rg_arr reg)" using inv by (simp add: reg_inv_def)
  have at: "rg_arr r ! j = (if j = x then ?b else rg_arr reg ! j)" for j using xl by (simp add: r_def)
  have li: "live_idx r = live_idx reg" unfolding live_idx_def by (rule filter_cong) (auto simp: r_def xl nth_list_update)
  have keys: "reg_keys r = reg_keys reg"
    unfolding reg_keys_def by (intro nth_equalityI) (use xl in \<open>auto simp: r_def nth_list_update\<close>)
  have al: "alive r = map (\<lambda>j. rg_arr r ! j) (live_idx reg)"
  proof -
    have "rg_occ_bucket r \<le> length (rg_arr r)" using inv by (simp add: reg_inv_def r_def)
    then have "take (rg_occ_bucket r) (rg_arr r) = map (\<lambda>i. rg_arr r ! i) [0..<rg_occ_bucket r]"
      by (intro nth_equalityI) auto
    then have "alive r = map (\<lambda>j. rg_arr r ! j) (live_idx r)" by (simp add: alive_def live_idx_def filter_map o_def)
    then show ?thesis by (simp add: li)
  qed
  have vals: "\<forall>b \<in> set (alive r). b_val b \<noteq> None"
  proof
    fix b assume "b \<in> set (alive r)"
    then obtain j where j: "j \<in> set (live_idx reg)" "b = rg_arr r ! j" by (auto simp: al)
    then have "rg_arr reg ! j \<in> set (alive reg)" by (simp add: alive_idx[OF inv])
    then have "b_val (rg_arr reg ! j) \<noteq> None" using inv unfolding reg_inv_def by blast
    then show "b_val b \<noteq> None" using j(2) at[of j] by simp
  qed
  have len: "length (alive r) = length (alive reg)" by (simp add: al length_alive[OF inv])
  have f: "length (rg_arr r) = length (rg_arr reg)" "rg_cap r = rg_cap reg" "rg_occ_bucket r = rg_occ_bucket reg"
    "rg_sz r = rg_sz reg" "rg_key_id r = rg_key_id reg" by (simp_all add: r_def)
  show "reg_inv r" using inv vals unfolding reg_inv_def keys len f by blast
  have same: "live_idx reg ! j \<noteq> x" if "j < length (live_idx reg)" "j \<noteq> i" for j
  proof -
    have "distinct (live_idx reg)" by (simp add: live_idx_def)
    then show ?thesis using that i by (auto simp: x_def nth_eq_iff_index_eq)
  qed
  show "reg_entries r = (reg_entries reg)[i := (fst (reg_entries reg ! i), v)]"
  proof (rule nth_equalityI)
    show "length (reg_entries r) = length ((reg_entries reg)[i := (fst (reg_entries reg ! i), v)])"
      by (simp add: reg_entries_def len)
    fix j assume "j < length (reg_entries r)"
    then have j: "j < length (live_idx reg)" by (simp add: reg_entries_def al)
    have e: "reg_entries r ! j = entry_of (rg_arr r ! (live_idx reg ! j))" using j by (simp add: reg_entries_def al)
    have e0: "reg_entries reg ! j = entry_of (rg_arr reg ! (live_idx reg ! j))" if "j < length (live_idx reg)" for j
      using that by (simp add: reg_entries_def alive_idx[OF inv])
    have l: "i < length (reg_entries reg)" using i by (simp add: reg_entries_def length_alive[OF inv])
    show "reg_entries r ! j = (reg_entries reg)[i := (fst (reg_entries reg ! i), v)] ! j"
    proof (cases "j = i")
      case True
      then show ?thesis using l e by (simp add: e0[OF i] at x_def[symmetric] entry_of_def)
    next
      case False
      then show ?thesis using same[OF j False] by (simp add: e e0[OF j] at)
    qed
  qed
  show "rg_key_id r = rg_key_id reg" "rg_elm_sz r = rg_elm_sz reg" by (simp_all add: r_def)
qed

text \<open>The number of a procedure is written into its identifier when it is looked up.\<close>

definition numbered :: "u32 \<Rightarrow> act_proc_val_t \<Rightarrow> act_proc_val_t" where
  "numbered r v = v\<lparr>ap_id := (ap_id v)\<lparr>ric_req_id := r\<rparr>\<rparr>"

definition number_proc :: "u32 \<Rightarrow> (u32 \<times> act_proc_val_t) list \<Rightarrow> (u32 \<times> act_proc_val_t) list" where
  "number_proc r es = map (\<lambda>(k, v). if k = r then (k, numbered r v) else (k, v)) es"

definition proc_reg_ok :: "act_proc_val_t assoc_reg_t \<Rightarrow> bool" where
  "proc_reg_ok p \<longleftrightarrow> reg_inv p \<and> rg_elm_sz p = act_proc_val_sz \<and> unat (rg_key_id p) \<le> 2 ^ 31"

text \<open>So few keys are handed out that the \<^verbatim>\<open>int\<close> of the binary search holds the number of buckets.\<close>

lemma proc_buckets: "proc_reg_ok p \<Longrightarrow> rg_occ_bucket p < 2 ^ 31"
  using few_buckets[of p] by (simp add: proc_reg_ok_def)

lemma unat_u16_u32 [simp]: "unat (ucast (r :: u16) :: u32) = unat r"
proof -
  have "unat r < 2 ^ LENGTH(16)" by (rule unsigned_less)
  then show ?thesis by (simp add: unsigned_ucast_eq take_bit_nat_eq_self)
qed

lemma ucast_u16_pos: "0 < (ucast (r :: u16) :: u32) \<longleftrightarrow> 0 < r"
  by (simp add: word_less_nat_alt)

lemma find_act_proc_hit:
  fixes p :: "act_proc_val_t assoc_reg_t" and r :: u16
  assumes "proc_reg_ok p" "(ucast r, v) \<in> set (reg_entries p)"
  shows "\<exists>p'. find_act_proc p r = Some (Some (numbered (ucast r) v), p') \<and> proc_reg_ok p'
    \<and> reg_entries p' = number_proc (ucast r) (reg_entries p) \<and> rg_key_id p' = rg_key_id p"
proof -
  let ?es = "reg_entries p" and ?k = "ucast r :: u32"
  have inv: "reg_inv p" using assms(1) by (simp add: proc_reg_ok_def)
  have len: "length ?es = length (live_idx p)" by (simp add: reg_entries_def length_alive[OF inv])
  obtain i where i: "i < length ?es" "?es ! i = (?k, v)" using assms(2) by (auto simp: in_set_conv_nth)
  have li: "i < length (live_idx p)" using i(1) len by simp
  let ?x = "live_idx p ! i"
  have f: "find_reg p (reg_iter p 0) (assoc_reg_end p) ?k = Some (reg_iter p i)"
    using find_reg_hit[OF inv li _ proc_buckets[OF assms(1)]] i(2) by simp
  have it: "reg_iter p i = ?x" by (rule iter_idx[OF li])
  have "?x \<in> set (live_idx p)" using li by simp
  then have x: "?x < rg_occ_bucket p" "b_has_value (rg_arr p ! ?x)" by (auto simp: live_idx_set)
  then have xl: "?x < length (rg_arr p)" using inv by (simp add: reg_inv_def)
  have "reg_entry p (reg_iter p i) = Some (?k, v)"
    using entry_at[OF inv, of i] i len by (simp add: length_alive[OF inv])
  then have val: "assoc_reg_value p ?x = Some v" by (auto simp: reg_entry_def bind_Some_iff it)
  note u = value_update_ok[OF inv li, of "numbered ?k v"]
  let ?p = "p\<lparr>rg_arr := (rg_arr p)[?x := (rg_arr p ! ?x)\<lparr>b_val := Some (numbered ?k v)\<rparr>]\<rparr>"
  have "?es[i := (fst (?es ! i), numbered ?k v)] = number_proc ?k ?es"
  proof (rule nth_equalityI)
    fix j assume j: "j < length (?es[i := (fst (?es ! i), numbered ?k v)])"
    have "fst (?es ! j) \<noteq> ?k" if "j \<noteq> i"
      using entries_distinct[OF inv, of i j] entries_distinct[OF inv, of j i] that j i len by (cases "i < j") auto
    then show "?es[i := (fst (?es ! i), numbered ?k v)] ! j = number_proc ?k ?es ! j"
      using j i by (cases "j = i") (auto simp: number_proc_def split: prod.split)
  qed (simp add: number_proc_def)
  then have "reg_entries ?p = number_proc ?k ?es" using u(2) by simp
  moreover have "find_act_proc p r = Some (Some (numbered ?k v), ?p)"
    using f front_ok[OF inv] x(1) xl val
    by (simp add: find_act_proc_def it Let_def numbered_def assoc_reg_end_def)
  ultimately show ?thesis using u assms(1) by (intro exI[of _ ?p]) (simp add: proc_reg_ok_def)
qed

lemma find_act_proc_miss:
  fixes p :: "act_proc_val_t assoc_reg_t" and r :: u16
  assumes "proc_reg_ok p" "ucast r \<notin> fst ` set (reg_entries p)" "0 < r"
  shows "find_act_proc p r = Some (None, p)"
proof -
  have inv: "reg_inv p" using assms(1) by (simp add: proc_reg_ok_def)
  have "0 < (ucast r :: u32)" using assms(3) by (simp add: ucast_u16_pos)
  from find_reg_miss[OF inv assms(2) this proc_buckets[OF assms(1)]] front_ok[OF inv] show ?thesis by (simp add: find_act_proc_def)
qed

lemma add_act_proc_ok:
  assumes "proc_reg_ok p" "unat (rg_key_id p) < 2 ^ 31"
  shows "\<exists>p'. add_act_proc p type i nid cb = Some (ucast (rg_key_id p), p') \<and> proc_reg_ok p'
    \<and> reg_entries p' = reg_entries p @ [(ucast (rg_key_id p), \<lparr>ap_type = type, ap_id = i, ap_sm_cb = cb, ap_e2_node = nid\<rparr>)]
    \<and> rg_key_id p' = rg_key_id p + 1"
proof -
  have "unat (rg_key_id p + 1) \<le> 2 ^ 31" using assms(2) by (simp add: unat_word_ariths)
  then show ?thesis
    using push_ok[of p act_proc_val_sz "\<lparr>ap_type = type, ap_id = i, ap_sm_cb = cb, ap_e2_node = nid\<rparr>"] assms
    by (auto simp: add_act_proc_def proc_reg_ok_def reg_entries_def entry_of_def)
qed

lemma rm_act_proc_ok:
  fixes p :: "act_proc_val_t assoc_reg_t" and r :: u16
  assumes "proc_reg_ok p" "ucast r \<in> fst ` set (reg_entries p)" "0 < r"
  shows "\<exists>p'. rm_act_proc p r = Some p' \<and> proc_reg_ok p'
    \<and> reg_entries p' = filter (\<lambda>(k, v). k \<noteq> ucast r) (reg_entries p) \<and> rg_key_id p' = rg_key_id p"
proof -
  have pos: "0 < (ucast r :: u32)" using assms(3) by (simp add: ucast_u16_pos)
  have inv: "reg_inv p" using assms(1) by (simp add: proc_reg_ok_def)
  obtain p' freed where p': "remove_key p (ucast r) = Some (freed, p')" "reg_inv p'" "freed \<noteq> []"
    "reg_entries p' = filter (\<lambda>(k, v). k \<noteq> ucast r) (reg_entries p)" "rg_key_id p' = rg_key_id p" "rg_elm_sz p' = rg_elm_sz p"
    using remove_key_ok[OF inv pos proc_buckets[OF assms(1)]] assms(2) by blast
  then have "rm_act_proc p r = Some p'"
    by (auto simp: remove_key_def rm_act_proc_def bind_Some_iff split: if_splits)
  then show ?thesis using p' assms(1) by (auto simp: proc_reg_ok_def)
qed

subsection \<open>Pending events\<close>

interpretation pend_xapp_cmp: comparator cmp_pending_event_xapp
  by unfold_locales
    (unfold cmp_pending_event_xapp_def, (rule pend_cmp.cmp_self pend_cmp.cmp_flip pend_cmp.cmp_range
      | erule (1) pend_cmp.cmp_less_trans | erule pend_cmp.cmp_cong)+)

interpretation pend_xapp: bimap_cmps cmp_fd cmp_pending_event_xapp
  by unfold_locales

lemma cmp_pending_event_xapp_zero [simp]: "cmp_pending_event_xapp a b = 0 \<longleftrightarrow> px_ev a = px_ev b"
  by (auto simp: cmp_pending_event_xapp_def cmp_pending_event_def pending_event_val_inj split: if_splits)

abbreviation procs :: "e42_xapp_t \<Rightarrow> (u32 \<times> act_proc_val_t) list" where
  "procs xa \<equiv> reg_entries (xa_act_proc xa)"

abbreviation pends :: "e42_xapp_t \<Rightarrow> (int \<times> pending_event_xapp_t) multiset" where
  "pends xa \<equiv> bm_pairs (xa_pending xa)"

definition setup_pends :: "e42_xapp_t \<Rightarrow> (int \<times> pending_event_xapp_t) multiset" where
  "setup_pends xa = filter_mset (\<lambda>p. px_ev (snd p) = E42_SETUP_REQUEST_PENDING_EVENT) (pends xa)"

definition request_pends :: "e42_xapp_t \<Rightarrow> (int \<times> pending_event_xapp_t) multiset" where
  "request_pends xa = filter_mset (\<lambda>p. px_ev (snd p) \<noteq> E42_SETUP_REQUEST_PENDING_EVENT) (pends xa)"

definition xa_ok :: "e42_xapp_t \<Rightarrow> bool" where
  "xa_ok xa \<longleftrightarrow> proc_reg_ok (xa_act_proc xa)
     \<and> (\<forall>(k, v) \<in> set (procs xa). k < 65536 \<and> (ap_sm_cb v = None \<longleftrightarrow> ap_type v = RIC_CONTROL_PROCEDURE_ACTIVE))
     \<and> bm_ok cmp_fd cmp_pending_event_xapp (xa_pending xa)
     \<and> mset (xa_fds xa) = add_mset (xa_ep_fd xa) (image_mset fst (pends xa))
     \<and> distinct (xa_fds xa) \<and> (\<forall>fd \<in> set (xa_fds xa). 0 < fd)
     \<and> (\<forall>m \<in> set (xa_disp xa). md_sm_cb m \<noteq> None)
     \<and> sms_ok (xa_plugin_ag xa) \<and> length (xa_plugin_ag xa) = length (xa_plugin_ric xa)
     \<and> reg_ok (xa_e2_nodes xa) \<and> 0 < sy_wait_ms (xa_sync xa)"

lemma xa_ok_frame [simp]:
  "xa_ok (xa\<lparr>xa_sent := m\<rparr>) = xa_ok xa" "xa_ok (xa\<lparr>xa_id := i\<rparr>) = xa_ok xa"
  "xa_ok (xa\<lparr>xa_connected := b\<rparr>) = xa_ok xa" "xa_ok (xa\<lparr>xa_db := d\<rparr>) = xa_ok xa"
  "xa_ok (xa\<lparr>xa_called := c\<rparr>) = xa_ok xa"
  by (simp_all add: xa_ok_def)

lemma pends_frame [simp]:
  "setup_pends (xa\<lparr>xa_sent := m\<rparr>) = setup_pends xa" "request_pends (xa\<lparr>xa_sent := m\<rparr>) = request_pends xa"
  "setup_pends (xa\<lparr>xa_act_proc := p\<rparr>) = setup_pends xa" "request_pends (xa\<lparr>xa_act_proc := p\<rparr>) = request_pends xa"
  "setup_pends (xa\<lparr>xa_sync := s\<rparr>) = setup_pends xa" "request_pends (xa\<lparr>xa_sync := s\<rparr>) = request_pends xa"
  "setup_pends (xa\<lparr>xa_id := i\<rparr>) = setup_pends xa" "request_pends (xa\<lparr>xa_id := i\<rparr>) = request_pends xa"
  "setup_pends (xa\<lparr>xa_connected := b\<rparr>) = setup_pends xa" "request_pends (xa\<lparr>xa_connected := b\<rparr>) = request_pends xa"
  "setup_pends (xa\<lparr>xa_e2_nodes := r\<rparr>) = setup_pends xa" "request_pends (xa\<lparr>xa_e2_nodes := r\<rparr>) = request_pends xa"
  "setup_pends (xa\<lparr>xa_fds := f\<rparr>) = setup_pends xa" "request_pends (xa\<lparr>xa_fds := f\<rparr>) = request_pends xa"
  "setup_pends (xa\<lparr>xa_disp := q\<rparr>) = setup_pends xa" "request_pends (xa\<lparr>xa_disp := q\<rparr>) = request_pends xa"
  "setup_pends (xa\<lparr>xa_db := d\<rparr>) = setup_pends xa" "request_pends (xa\<lparr>xa_db := d\<rparr>) = request_pends xa"
  "setup_pends (xa\<lparr>xa_called := c\<rparr>) = setup_pends xa" "request_pends (xa\<lparr>xa_called := c\<rparr>) = request_pends xa"
  by (simp_all add: setup_pends_def request_pends_def)

lemma xa_parts:
  assumes "xa_ok xa"
  shows "proc_reg_ok (xa_act_proc xa)" "bm_ok cmp_fd cmp_pending_event_xapp (xa_pending xa)"
    "mset (xa_fds xa) = add_mset (xa_ep_fd xa) (image_mset fst (pends xa))" "distinct (xa_fds xa)"
    "\<And>fd. fd \<in> set (xa_fds xa) \<Longrightarrow> 0 < fd" "sms_ok (xa_plugin_ag xa)"
    "length (xa_plugin_ag xa) = length (xa_plugin_ric xa)" "reg_ok (xa_e2_nodes xa)" "0 < sy_wait_ms (xa_sync xa)"
    "\<And>k v. (k, v) \<in> set (procs xa) \<Longrightarrow> k < 65536 \<and> 0 < k"
proof -
  show "0 < fd" if "fd \<in> set (xa_fds xa)" for fd using that assms by (simp add: xa_ok_def)
  show "k < 65536 \<and> 0 < k" if kv: "(k, v) \<in> set (procs xa)" for k v
  proof
    show "k < 65536" using assms kv by (auto simp: xa_ok_def)
    have inv: "reg_inv (xa_act_proc xa)" using assms by (simp add: xa_ok_def proc_reg_ok_def)
    from kv obtain b where "b \<in> set (alive (xa_act_proc xa))" "b_key b = k"
      by (auto simp: reg_entries_def entry_of_def)
    then have "k \<in> set (reg_keys (xa_act_proc xa))" by (auto simp: alive_def reg_keys_def)
    then show "0 < k" using inv by (simp add: reg_inv_def)
  qed
qed (use assms in \<open>simp_all add: xa_ok_def\<close>)

lemma xa_watched:
  assumes "xa_ok xa"
  shows "fd \<in> set (xa_fds xa) \<longleftrightarrow> fd = xa_ep_fd xa \<or> (\<exists>ev. (fd, ev) \<in># pends xa)"
    "(fd, ev) \<in># pends xa \<Longrightarrow> fd \<noteq> xa_ep_fd xa \<and> 0 < fd" "0 < xa_ep_fd xa"
proof -
  have s: "set (xa_fds xa) = insert (xa_ep_fd xa) (fst ` set_mset (pends xa))"
    using arg_cong[OF xa_parts(3)[OF assms], of set_mset] by simp
  then show w: "fd \<in> set (xa_fds xa) \<longleftrightarrow> fd = xa_ep_fd xa \<or> (\<exists>ev. (fd, ev) \<in># pends xa)" for fd
    by (force intro: rev_image_eqI)
  have "xa_ep_fd xa \<notin># image_mset fst (pends xa)"
  proof
    assume "xa_ep_fd xa \<in># image_mset fst (pends xa)"
    then have "2 \<le> count (mset (xa_fds xa)) (xa_ep_fd xa)"
      unfolding xa_parts(3)[OF assms] by (simp add: Suc_le_eq count_greater_zero_iff del: set_image_mset)
    moreover have "count (mset (xa_fds xa)) (xa_ep_fd xa) \<le> 1"
      using xa_parts(4)[OF assms] by (simp add: distinct_count_atmost_1)
    ultimately show False by simp
  qed
  then show "fd \<noteq> xa_ep_fd xa \<and> 0 < fd" if "(fd, ev) \<in># pends xa"
    using that w[of fd] xa_parts(5)[OF assms] by force
  show "0 < xa_ep_fd xa" using w xa_parts(5)[OF assms] by blast
qed

lemma add_pending_xapp_ok:
  assumes "xa_ok xa" "timerfd_ok timerfd" "0 < px_wait_ms ev" "\<forall>p \<in># pends xa. px_ev (snd p) \<noteq> px_ev ev"
  defines "fd \<equiv> timerfd (xa_fds xa)"
  shows "\<exists>p. add_pending_event_xapp timerfd xa ev = Some (xa\<lparr>xa_fds := fd # xa_fds xa, xa_pending := p\<rparr>)
    \<and> xa_ok (xa\<lparr>xa_fds := fd # xa_fds xa, xa_pending := p\<rparr>) \<and> bm_pairs p = add_mset (fd, ev) (pends xa)"
proof -
  have fd: "0 < fd" "fd \<notin> set (xa_fds xa)" using assms(2) by (auto simp: timerfd_ok_def fd_def)
  have "cmp_fd fd a \<noteq> 0 \<and> cmp_pending_event_xapp ev b \<noteq> 0" if "(a, b) \<in># pends xa" for a b
    using that assms(4) fd(2) xa_watched(1)[OF assms(1), of a] by fastforce
  from pend_xapp.ok_insert[OF xa_parts(2)[OF assms(1)] this] obtain p where
    p: "bi_map_insert (xa_pending xa) fd ev = Some p" "bm_ok cmp_fd cmp_pending_event_xapp p"
    "bm_pairs p = add_mset (fd, ev) (pends xa)" by blast
  have "xa_ok (xa\<lparr>xa_fds := fd # xa_fds xa, xa_pending := p\<rparr>)"
    using assms(1) p(2,3) fd by (simp add: xa_ok_def)
  moreover have "add_pending_event_xapp timerfd xa ev = Some (xa\<lparr>xa_fds := fd # xa_fds xa, xa_pending := p\<rparr>)"
    using fd p(1) assms(3)
    by (simp add: add_pending_event_xapp_def create_timer_ms_asio_xapp_def add_fd_asio_xapp_def add_pending_event_def
        fd_def[symmetric] Let_def)
  ultimately show ?thesis using p(3) by blast
qed

lemma bm_lengths:
  assumes "bm_ok cmp1 cmp2 m"
  shows "length (bm_right m) = length (bm_left m)"
proof -
  have "mset (map prod.swap (bm_left m)) = mset (bm_right m)" using assms by (simp only: bm_ok_def bi_map_inv_def)
  from mset_eq_length[OF this] show ?thesis by simp
qed

lemma rm_pending_xapp_ok:
  assumes "xa_ok xa" "(fd, ev') \<in># pends xa" "px_ev ev = px_ev ev'"
  shows "\<exists>p. rm_pending_event_xapp xa ev = Some (xa\<lparr>xa_pending := p, xa_fds := remove1 fd (xa_fds xa)\<rparr>)
    \<and> xa_ok (xa\<lparr>xa_pending := p, xa_fds := remove1 fd (xa_fds xa)\<rparr>) \<and> pends xa = add_mset (fd, ev') (bm_pairs p)"
proof -
  obtain p where p: "bi_map_extract_right (xa_pending xa) ev = Some (fd, p)" "bm_ok cmp_fd cmp_pending_event_xapp p"
    "pends xa = add_mset (fd, ev') (bm_pairs p)"
    using pend_xapp.ok_extract_right[OF xa_parts(2)[OF assms(1)] assms(2), of ev] assms(3) by auto
  have "size (pends xa) = Suc (size (bm_pairs p))" using p(3) by simp
  then have "length (bm_left (xa_pending xa)) = length (bm_left p) + 1" by (simp add: bm_pairs_def)
  then have sz: "bi_map_size (xa_pending xa) = Some (length (bm_left p) + 1)" "bi_map_size p = Some (length (bm_left p))"
    using bm_lengths[OF xa_parts(2)[OF assms(1)]] bm_lengths[OF p(2)] by (simp_all add: bi_map_size_def Let_def)
  have fd: "fd \<in> set (xa_fds xa)" "0 < fd" using xa_watched[OF assms(1)] assms(2) by auto
  have "rm_pending_event_xapp xa ev = Some (xa\<lparr>xa_pending := p, xa_fds := remove1 fd (xa_fds xa)\<rparr>)"
    using p(1) sz fd by (simp add: rm_pending_event_xapp_def rm_pending_event_ev_def rm_fd_asio_xapp_def)
  moreover have "xa_ok (xa\<lparr>xa_pending := p, xa_fds := remove1 fd (xa_fds xa)\<rparr>)"
    using assms(1) p(2,3) set_remove1_subset[of fd "xa_fds xa"] by (auto simp: xa_ok_def)
  ultimately show ?thesis using p(3) by blast
qed

lemma rm_pending_xapp_none:
  assumes "bm_ok cmp_fd cmp_pending_event_xapp (xa_pending xa)" "\<forall>p \<in># pends xa. px_ev (snd p) \<noteq> px_ev ev"
  shows "rm_pending_event_xapp xa ev = None"
proof -
  have b: "bi_map_inv (xa_pending xa)" "bm_cmp2 (xa_pending xa) = cmp_pending_event_xapp"
    using assms(1) by (auto simp: bm_ok_def)
  have "entries_extract cmp_pending_event_xapp ev (bm_right (xa_pending xa)) = None"
    using assms(2) right_pairs[OF b(1)] by (intro pend_xapp_cmp.entries_extract_absent) fastforce
  then show ?thesis by (cases "bi_map_size (xa_pending xa)")
      (simp_all add: rm_pending_event_xapp_def rm_pending_event_ev_def bi_map_extract_right_def b(2))
qed

end
