(* ===== verification/Xapp_Calls.thy ===== *)
theory Xapp_Calls
  imports Xapp_Laws
begin

text \<open>
  The invariant of an xApp and what respects its contract: the calls of the user piece by piece, the
  answers, and the indications.
\<close>

subsection \<open>The call of the user\<close>

fun op_ev :: "ui_op \<Rightarrow> pending_event_t" where
  "op_ev (Op_report i) = E42_RIC_SUBSCRIPTION_REQUEST_PENDING_EVENT"
| "op_ev (Op_rm_report hdl) = E42_RIC_SUBSCRIPTION_DELETE_REQUEST_PENDING_EVENT"
| "op_ev (Op_control i) = E42_RIC_CONTROL_REQUEST_PENDING_EVENT"

fun op_key :: "ui_op \<Rightarrow> u32" where
  "op_key (Op_report i) = ric_req_id i"
| "op_key (Op_rm_report hdl) = ucast (word_of_int hdl :: u16)"
| "op_key (Op_control i) = ric_req_id i"

text \<open>The messages that answer a call.\<close>

fun answers_call :: "ui_op \<Rightarrow> e2ap_msg_t \<Rightarrow> bool" where
  "answers_call (Op_report i) (Ric_sub_resp m) \<longleftrightarrow> ric_req_id (sresp_ric_id m) = ric_req_id i"
| "answers_call (Op_rm_report hdl) (Ric_sub_del_resp m) \<longleftrightarrow> ric_req_id (sdresp_ric_id m) = ucast (word_of_int hdl :: u16)"
| "answers_call (Op_control i) (Ric_ctrl_ack m) \<longleftrightarrow> ric_req_id (ack_ric_id m) = ric_req_id i"
| "answers_call (Op_control i) (Ric_ctrl_fail m) \<longleftrightarrow> ric_req_id (cf_ric_id m) = ric_req_id i"
| "answers_call c m \<longleftrightarrow> False"

definition awaits :: "e42_xapp_t \<Rightarrow> ui_op \<Rightarrow> bool" where
  "awaits xa c \<longleftrightarrow> (\<exists>fd ev. request_pends xa = {#(fd, ev)#} \<and> px_ev ev = op_ev c)"

abbreviation has_proc :: "e42_xapp_t \<Rightarrow> u32 \<Rightarrow> bool" where
  "has_proc xa r \<equiv> r \<in> fst ` set (procs xa)"

fun ui_ok :: "e42_xapp_t \<Rightarrow> ui_pc \<Rightarrow> bool" where
  "ui_ok xa Ui_idle \<longleftrightarrow> request_pends xa = {#}"
| "ui_ok xa (Ui_pend ev c) \<longleftrightarrow> request_pends xa = {#} \<and> px_ev ev = op_ev c \<and> 0 < px_wait_ms ev \<and> has_proc xa (op_key c)"
| "ui_ok xa (Ui_sent c) \<longleftrightarrow> awaits xa c \<and> has_proc xa (op_key c)"
| "ui_ok xa (Ui_blocked c) \<longleftrightarrow> has_proc xa (op_key c)
     \<and> (if flag_sync (xa_sync xa) then msg_ack (xa_sync xa) \<and> request_pends xa = {#} else awaits xa c)"

definition xapp_inv :: "xapp_sys_t \<Rightarrow> bool" where
  "xapp_inv z \<longleftrightarrow> xa_ok (z_xapp z) \<and> size (setup_pends (z_xapp z)) = (if xa_connected (z_xapp z) then 0 else 1)
     \<and> ui_ok (z_xapp z) (z_ui z)"

subsection \<open>The inputs that respect the contract\<close>

definition nodes_new :: "reg_e2_nodes_t \<Rightarrow> e2_node_connected_t list \<Rightarrow> bool" where
  "nodes_new reg ns \<longleftrightarrow> (\<forall>n \<in> set ns. node_complete (nc_id n) \<and> nc_ack_rf n \<noteq> [] \<and> (\<forall>c \<in> set (nc_cca n). cca_ok c)
       \<and> 0 < length (nc_cca n) \<and> length (nc_cca n) < 256)
     \<and> distinct (map (\<lambda>n. node_key (nc_id n)) ns)
     \<and> (\<forall>n \<in> set ns. \<forall>(m, p) \<in> set reg. node_key m \<noteq> node_key (nc_id n))"

fun call_ok :: "e42_xapp_t \<Rightarrow> ui_call \<Rightarrow> bool" where
  "call_ok xa (Report nid rfn data cb) \<longleftrightarrow> nid \<in> fst ` set (xa_e2_nodes xa) \<and> valid_sm_id rfn \<and> rfn \<noteq> 147
     \<and> (case sm_plugin_ric_xapp xa (ucast rfn) of None \<Rightarrow> False
          | Some sm \<Rightarrow> (case sd_action_def (on_subscription sm data) of None \<Rightarrow> True | Some ad \<Rightarrow> length ad < 65536))
     \<and> rg_key_id (xa_act_proc xa) < 65536"
| "call_ok xa (Rm_report hdl) \<longleftrightarrow> 0 < hdl \<and> hdl < 65536 \<and> has_proc xa (word_of_int hdl)"
| "call_ok xa (Control nid rfid ctrl_msg) \<longleftrightarrow> (rfid = 142 \<or> rfid = 145 \<or> rfid = 146 \<or> rfid = 3)
     \<and> sm_plugin_ric_xapp xa (ucast rfid) \<noteq> None \<and> rg_key_id (xa_act_proc xa) < 65536"

definition ind_ok :: "e42_xapp_t \<Rightarrow> ric_indication_t \<Rightarrow> bool" where
  "ind_ok xa m \<longleftrightarrow> (case sm_plugin_ric_xapp xa (ran_func_id (ind_ric_id m)) of None \<Rightarrow> False
     | Some sm \<Rightarrow> rd_type (on_indication sm \<lparr>id_ind_hdr = ind_hdr m, id_ind_msg = ind_msg m, id_call_process_id = ind_call_process_id m\<rparr>)
           \<notin> {TC_STATS_V0, SM_AGENT_IF_READ_V0_END})
     \<and> ind_call_process_id m \<noteq> Some [] \<and> 0 < ric_req_id (ind_ric_id m) \<and> ric_req_id (ind_ric_id m) < 65536
     \<and> (\<forall>(k, v) \<in> set (procs xa). k = ric_req_id (ind_ric_id m) \<longrightarrow> ap_type v = RIC_SUBSCRIPTION_PROCEDURE_ACTIVE)"

fun net_msg_ok :: "xapp_sys_t \<Rightarrow> e2ap_msg_t \<Rightarrow> bool" where
  "net_msg_ok z (Ric_ind m) \<longleftrightarrow> ind_ok (z_xapp z) m"
| "net_msg_ok z (E42_stp_resp m) \<longleftrightarrow> xa_connected (z_xapp z)
     \<or> unat (len_e2_nodes_conn m) = length (e42_nodes m) \<and> nodes_new (xa_e2_nodes (z_xapp z)) (e42_nodes m)"
| "net_msg_ok z m \<longleftrightarrow> (case z_ui z of Ui_blocked c \<Rightarrow> \<not> flag_sync (xa_sync (z_xapp z)) \<and> answers_call c m | _ \<Rightarrow> False)"

fun xin_ok :: "xapp_sys_t \<Rightarrow> xapp_input \<Rightarrow> bool" where
  "xin_ok z (Ui_call c) \<longleftrightarrow> call_ok (z_xapp z) c"
| "xin_ok z Ui_continue \<longleftrightarrow> True"
| "xin_ok z Ui_timeout \<longleftrightarrow> (case z_ui z of Ui_blocked c \<Rightarrow> False | _ \<Rightarrow> True)"
| "xin_ok z (Loop fd msg) \<longleftrightarrow> fd = -1 \<or> fd = xa_ep_fd (z_xapp z) \<and> net_msg_ok z msg \<or> fd \<in> fst ` set_mset (setup_pends (z_xapp z))"
| "xin_ok z Worker \<longleftrightarrow> True"

subsection \<open>Looking up a procedure\<close>

lemma number_proc_keys [simp]: "fst ` set (number_proc r es) = fst ` set es"
  by (force simp: number_proc_def image_image split: prod.splits)

lemma number_proc_in: "(k, v) \<in> set (number_proc r es) \<Longrightarrow>
    \<exists>w. (k, w) \<in> set es \<and> ap_type v = ap_type w \<and> ap_sm_cb v = ap_sm_cb w \<and> ap_e2_node v = ap_e2_node w"
  by (force simp: number_proc_def numbered_def split: if_splits)

lemma xa_ok_numbered:
  assumes "xa_ok xa" "proc_reg_ok p" "reg_entries p = number_proc r (procs xa)"
  shows "xa_ok (xa\<lparr>xa_act_proc := p\<rparr>)"
  using assms(1,2) number_proc_in[of _ _ r "procs xa"] unfolding xa_ok_def by (fastforce simp: assms(3))

lemma find_proc_ok:
  assumes "xa_ok xa" "(r, v) \<in> set (procs xa)"
  shows "\<exists>p. find_act_proc (xa_act_proc xa) (ucast r) = Some (Some (numbered r v), p)
    \<and> xa_ok (xa\<lparr>xa_act_proc := p\<rparr>) \<and> reg_entries p = number_proc r (procs xa)
    \<and> rg_key_id p = rg_key_id (xa_act_proc xa)"
proof -
  have r: "ucast (ucast r :: u16) = r" using xa_parts(10)[OF assms] by (simp add: ucast16_id)
  obtain p where "find_act_proc (xa_act_proc xa) (ucast r) = Some (Some (numbered r v), p)" "proc_reg_ok p"
    "reg_entries p = number_proc r (procs xa)" "rg_key_id p = rg_key_id (xa_act_proc xa)"
    using find_act_proc_hit[OF xa_parts(1)[OF assms(1)], of "ucast r" v] assms(2) r by auto
  then show ?thesis using xa_ok_numbered[OF assms(1)] by blast
qed

lemma proc_of_ok:
  assumes "xa_ok xa" "(r, v) \<in> set (procs xa)"
  shows "\<exists>p. proc_of xa r = Some (numbered r v, xa\<lparr>xa_act_proc := p\<rparr>) \<and> xa_ok (xa\<lparr>xa_act_proc := p\<rparr>)
    \<and> reg_entries p = number_proc r (procs xa)"
  using find_proc_ok[OF assms] by (auto simp: proc_of_def)

subsection \<open>Answers\<close>

definition answer_proc :: "e42_xapp_t \<Rightarrow> u32 \<Rightarrow> pending_event_t \<Rightarrow> (e2ap_msg_t \<times> e42_xapp_t) option" where
  "answer_proc xa r e = do {
     (val, xa) \<leftarrow> proc_of xa r;
     xa \<leftarrow> rm_pending_event_xapp xa \<lparr>px_ev = e, px_id = ap_id val, px_wait_ms = 0\<rparr>;
     Some (no_msg, signal_xapp xa)
   }"

lemma handles_answer:
  assumes "answers_call c msg"
  shows "e2ap_msg_handle_xapp timerfd xa msg = answer_proc xa (op_key c) (op_ev c)"
  using assms
  by (cases c; cases msg)
    (auto simp: e2ap_msg_handle_xapp_def check_valid_msg_type_xapp_def answer_proc_def Let_def
      e2ap_handle_subscription_response_xapp_def e2ap_handle_subscription_delete_response_xapp_def
      e2ap_handle_control_ack_xapp_def e2ap_handle_control_failure_xapp_def)

lemma op_ev_request [simp]:
  "op_ev c \<noteq> E42_SETUP_REQUEST_PENDING_EVENT" "E42_SETUP_REQUEST_PENDING_EVENT \<noteq> op_ev c"
  by (cases c; simp)+

lemma pends_split: "pends xa = setup_pends xa + request_pends xa"
  by (simp add: setup_pends_def request_pends_def)

lemma answer_ok:
  assumes "xa_ok xa" "awaits xa c" "has_proc xa (op_key c)" "answers_call c msg"
  shows "\<exists>xa'. msg_arrived_xapp timerfd xa msg = Some xa' \<and> xa_ok xa' \<and> request_pends xa' = {#}
    \<and> setup_pends xa' = setup_pends xa \<and> flag_sync (xa_sync xa') \<and> msg_ack (xa_sync xa')
    \<and> procs xa' = number_proc (op_key c) (procs xa) \<and> xa_connected xa' = xa_connected xa
    \<and> xa_sent xa' = xa_sent xa \<and> xa_called xa' = xa_called xa \<and> xa_disp xa' = xa_disp xa
    \<and> xa_plugin_ric xa' = xa_plugin_ric xa \<and> xa_e2_nodes xa' = xa_e2_nodes xa \<and> xa_ep_fd xa' = xa_ep_fd xa
    \<and> xa_id xa' = xa_id xa"
proof -
  obtain v where v: "(op_key c, v) \<in> set (procs xa)" using assms(3) by auto
  obtain p where p: "proc_of xa (op_key c) = Some (numbered (op_key c) v, xa\<lparr>xa_act_proc := p\<rparr>)"
    "xa_ok (xa\<lparr>xa_act_proc := p\<rparr>)" "reg_entries p = number_proc (op_key c) (procs xa)"
    using proc_of_ok[OF assms(1) v] by blast
  obtain fd ev where ev: "request_pends xa = {#(fd, ev)#}" "px_ev ev = op_ev c" using assms(2) by (auto simp: awaits_def)
  then have "(fd, ev) \<in># pends xa" unfolding pends_split by simp
  then obtain m where m: "rm_pending_event_xapp (xa\<lparr>xa_act_proc := p\<rparr>)
        \<lparr>px_ev = op_ev c, px_id = ap_id (numbered (op_key c) v), px_wait_ms = 0\<rparr>
      = Some (xa\<lparr>xa_act_proc := p, xa_pending := m, xa_fds := remove1 fd (xa_fds xa)\<rparr>)"
    "xa_ok (xa\<lparr>xa_act_proc := p, xa_pending := m, xa_fds := remove1 fd (xa_fds xa)\<rparr>)"
    "pends xa = add_mset (fd, ev) (bm_pairs m)"
    using rm_pending_xapp_ok[OF p(2), of fd ev "\<lparr>px_ev = op_ev c, px_id = ap_id (numbered (op_key c) v), px_wait_ms = 0\<rparr>"] ev(2)
    by auto
  let ?xa = "signal_xapp (xa\<lparr>xa_act_proc := p, xa_pending := m, xa_fds := remove1 fd (xa_fds xa)\<rparr>)"
  have "msg_arrived_xapp timerfd xa msg = Some ?xa"
    using p(1) m(1) by (simp add: msg_arrived_xapp_def handles_answer[OF assms(4)] answer_proc_def)
  moreover have "xa_ok ?xa" using m(2) by (simp add: xa_ok_def signal_sync_ui_def)
  moreover have "setup_pends ?xa = setup_pends xa" "request_pends ?xa = {#}"
    using m(3) ev by (auto simp: setup_pends_def request_pends_def)
  ultimately show ?thesis using p(3) by (intro exI[of _ ?xa]) (simp add: signal_sync_ui_def)
qed

lemma answer_too_early:
  assumes "bm_ok cmp_fd cmp_pending_event_xapp (xa_pending xa)" "request_pends xa = {#}" "answers_call c msg"
  shows "msg_arrived_xapp timerfd xa msg = None"
proof -
  have "rm_pending_event_xapp (xa\<lparr>xa_act_proc := p\<rparr>) ev = None" if "px_ev ev = op_ev c" for p ev
  proof (rule rm_pending_xapp_none)
    show "\<forall>q \<in># pends (xa\<lparr>xa_act_proc := p\<rparr>). px_ev (snd q) \<noteq> px_ev ev"
    proof
      fix q assume q: "q \<in># pends (xa\<lparr>xa_act_proc := p\<rparr>)"
      have "q \<notin># request_pends xa" using assms(2) by simp
      then show "px_ev (snd q) \<noteq> px_ev ev" using q that by (auto simp: request_pends_def)
    qed
  qed (use assms(1) in simp)
  then have "answer_proc xa (op_key c) (op_ev c) \<noteq> Some y" for y
    by (auto simp: answer_proc_def proc_of_def bind_Some_iff)
  then have "answer_proc xa (op_key c) (op_ev c) = None" by (meson not_Some_eq)
  then show ?thesis by (simp add: msg_arrived_xapp_def handles_answer[OF assms(3)])
qed

subsection \<open>The requests\<close>

lemma add_request_ok:
  assumes "xa_ok xa" "timerfd_ok timerfd" "0 < px_wait_ms ev" "request_pends xa = {#}"
    and "px_ev ev \<noteq> E42_SETUP_REQUEST_PENDING_EVENT"
  shows "\<exists>xa'. add_pending_event_xapp timerfd xa ev = Some xa' \<and> xa_ok xa'
    \<and> request_pends xa' = {#(timerfd (xa_fds xa), ev)#} \<and> setup_pends xa' = setup_pends xa
    \<and> (\<exists>p. xa' = xa\<lparr>xa_fds := timerfd (xa_fds xa) # xa_fds xa, xa_pending := p\<rparr>)"
proof -
  have no: "\<forall>q \<in># pends xa. px_ev (snd q) \<noteq> px_ev ev"
  proof
    fix q assume q: "q \<in># pends xa"
    have "q \<notin># request_pends xa" using assms(4) by simp
    then show "px_ev (snd q) \<noteq> px_ev ev" using q assms(5) by (auto simp: request_pends_def)
  qed
  show ?thesis
    using add_pending_xapp_ok[OF assms(1-3) no] assms(4,5) by (auto simp: request_pends_def setup_pends_def)
qed

lemma generate_setup_ok:
  assumes "xa_ok xa"
  shows "\<exists>sr. generate_e42_setup_request xa = Some sr \<and> map rf_id (e42_ran_func_item sr) = map fst (xa_plugin_ag xa)"
  using gen_ran_functions_ok[OF xa_parts(6)[OF assms]] xa_parts(6,7)[OF assms]
  by (auto simp: generate_e42_setup_request_def sms_ok_def Let_def)

lemma send_setup_ok:
  assumes "xa_ok xa" "timerfd_ok timerfd" "setup_pends xa = {#}"
  shows "\<exists>xa' ev. send_setup_request timerfd xa = Some xa' \<and> xa_ok xa'
    \<and> setup_pends xa' = {#(timerfd (xa_fds xa), ev)#} \<and> request_pends xa' = request_pends xa
    \<and> (\<exists>m p. xa' = xa\<lparr>xa_sent := m, xa_fds := timerfd (xa_fds xa) # xa_fds xa, xa_pending := p\<rparr>)"
proof -
  let ?ev = "\<lparr>px_ev = E42_SETUP_REQUEST_PENDING_EVENT, px_id = no_id, px_wait_ms = 1000\<rparr>"
  obtain sr where sr: "generate_e42_setup_request xa = Some sr" "map rf_id (e42_ran_func_item sr) = map fst (xa_plugin_ag xa)"
    using generate_setup_ok[OF assms(1)] by blast
  have ne: "e42_ran_func_item sr \<noteq> []" using sr(2) xa_parts(6)[OF assms(1)] by (auto simp: sms_ok_def)
  let ?xa = "e2ap_send_bytes_xapp xa (E42_stp_req sr)"
  have no: "\<forall>q \<in># pends ?xa. px_ev (snd q) \<noteq> px_ev ?ev"
  proof
    fix q assume "q \<in># pends ?xa"
    moreover have "q \<notin># setup_pends xa" using assms(3) by simp
    ultimately show "px_ev (snd q) \<noteq> px_ev ?ev" by (auto simp: setup_pends_def e2ap_send_bytes_xapp_def)
  qed
  have ok: "xa_ok ?xa" using assms(1) by (simp add: e2ap_send_bytes_xapp_def)
  obtain p where p: "add_pending_event_xapp timerfd ?xa ?ev = Some (?xa\<lparr>xa_fds := timerfd (xa_fds xa) # xa_fds xa, xa_pending := p\<rparr>)"
    "xa_ok (?xa\<lparr>xa_fds := timerfd (xa_fds xa) # xa_fds xa, xa_pending := p\<rparr>)"
    "bm_pairs p = add_mset (timerfd (xa_fds xa), ?ev) (pends xa)"
    using add_pending_xapp_ok[OF ok assms(2) _ no] by (auto simp: e2ap_send_bytes_xapp_def)
  let ?xa' = "?xa\<lparr>xa_fds := timerfd (xa_fds xa) # xa_fds xa, xa_pending := p\<rparr>"
  have "send_setup_request timerfd xa = Some ?xa'"
    using sr(1) ne p(1) by (simp add: send_setup_request_def e2ap_handle_e42_setup_request_xapp_def)
  moreover have "setup_pends ?xa' = {#(timerfd (xa_fds xa), ?ev)#}" "request_pends ?xa' = request_pends xa"
    using p(3) assms(3) by (auto simp: setup_pends_def request_pends_def)
  ultimately show ?thesis
    using p(2) by (intro exI[of _ ?xa'] exI[of _ ?ev]) (auto simp: e2ap_send_bytes_xapp_def)
qed

lemma add_nodes_ok:
  assumes "reg_ok reg" "nodes_new reg ns"
  shows "\<exists>reg'. add_nodes reg ns = Some reg' \<and> reg_ok reg' \<and> length reg' = length reg + length ns
    \<and> nc_id ` set ns \<union> fst ` set reg \<subseteq> fst ` set reg'"
  using assms
proof (induction ns arbitrary: reg)
  case (Cons n ns)
  have n: "node_complete (nc_id n)" "\<forall>(m, p) \<in> set reg. node_key m \<noteq> node_key (nc_id n)" "nc_ack_rf n \<noteq> []"
    "\<forall>c \<in> set (nc_cca n). cca_ok c" "0 < length (nc_cca n)" "length (nc_cca n) < 256"
    using Cons.prems(2) by (auto simp: nodes_new_def)
  from add_reg_e2_node_ok[OF Cons.prems(1) n] obtain r where r: "add_reg_e2_node reg (nc_id n) (nc_ack_rf n) (nc_cca n) = Some r"
    "reg_ok r" "mset r = add_mset (nc_id n, \<lparr>ran_func = nc_ack_rf n, comp_conf_add = nc_cca n\<rparr>) (mset reg)" by blast
  have sr: "set r = insert (nc_id n, \<lparr>ran_func = nc_ack_rf n, comp_conf_add = nc_cca n\<rparr>) (set reg)"
    using arg_cong[OF r(3), of set_mset] by simp
  have lr: "length r = Suc (length reg)" using arg_cong[OF r(3), of size] by simp
  have "nodes_new r ns" using Cons.prems(2) sr by (auto simp: nodes_new_def)
  from Cons.IH[OF r(2) this] obtain reg' where reg': "add_nodes r ns = Some reg'" "reg_ok reg'"
    "length reg' = length r + length ns" "nc_id ` set ns \<union> fst ` set r \<subseteq> fst ` set reg'" by blast
  show ?case using r(1) reg' sr lr by auto
qed simp

subsection \<open>Calls of the user\<close>

lemma valid_node_xapp:
  assumes "reg_ok t" "nid \<in> fst ` set t"
  shows "valid_global_e2_node_xapp nid t = Some True"
proof -
  have "cp_reg_nodes [] t = Some t" using assms(1) cp_reg_nodes_sorted[of t "[]"] by (auto simp: reg_ok_def)
  then have cp: "cp_reg_e2_node t = Some t" by (simp add: cp_reg_e2_node_def)
  have "node_complete nid" using assms by (auto simp: reg_ok_def)
  from reg_find[OF assms(1) this] have "entries_find_if_opt (eq_global_e2_node_id nid) t
    = Some (entries_find_if (\<lambda>m. node_key nid = node_key m) t)" .
  moreover have "entries_find_if (\<lambda>m. node_key nid = node_key m) t \<noteq> None"
    using assms(2) unfolding entries_find_if_None by auto
  ultimately show ?thesis using cp by (simp add: valid_global_e2_node_xapp_def)
qed

text \<open>The number and the registry entry of a new request.\<close>

definition new_key :: "e42_xapp_t \<Rightarrow> u32" where
  "new_key xa = ucast (rg_key_id (xa_act_proc xa))"

definition new_id :: "e42_xapp_t \<Rightarrow> u16 \<Rightarrow> ric_gen_id_t" where
  "new_id xa rfid = \<lparr>ric_req_id = new_key xa, ric_inst_id = 0, ran_func_id = rfid\<rparr>"

definition new_proc :: "act_proc_val_e \<Rightarrow> u16 \<Rightarrow> global_e2_node_id_t \<Rightarrow> sm_cb option \<Rightarrow> act_proc_val_t" where
  "new_proc type rfid nid cb = \<lparr>ap_type = type, ap_id = \<lparr>ric_req_id = 0, ric_inst_id = 0, ran_func_id = rfid\<rparr>,
     ap_sm_cb = cb, ap_e2_node = nid\<rparr>"

lemma generate_id_ok:
  assumes "xa_ok xa" "unat (rg_key_id (xa_act_proc xa)) < 65536" "valid_ran_func_id rfid"
    and "cb = None \<longleftrightarrow> type = RIC_CONTROL_PROCEDURE_ACTIVE"
  shows "\<exists>p. generate_ric_gen_id xa type rfid nid cb = Some (new_id xa rfid, xa\<lparr>xa_act_proc := p\<rparr>)
    \<and> xa_ok (xa\<lparr>xa_act_proc := p\<rparr>) \<and> reg_entries p = procs xa @ [(new_key xa, new_proc type rfid nid cb)]
    \<and> rg_key_id p = rg_key_id (xa_act_proc xa) + 1"
proof -
  let ?k = "rg_key_id (xa_act_proc xa)" and ?v = "new_proc type rfid nid cb"
  have "unat (ucast ?k :: u32) = unat ?k" using assms(2) by (simp add: unsigned_ucast_eq take_bit_nat_eq_self)
  then have k: "new_key xa < 65536" using assms(2) by (simp add: new_key_def word_less_nat_alt)
  obtain p where p: "add_act_proc (xa_act_proc xa) type \<lparr>ric_req_id = 0, ric_inst_id = 0, ran_func_id = rfid\<rparr> nid cb
      = Some (new_key xa, p)" "proc_reg_ok p" "reg_entries p = procs xa @ [(new_key xa, ?v)]" "rg_key_id p = ?k + 1"
    using add_act_proc_ok[OF xa_parts(1)[OF assms(1)], of type "\<lparr>ric_req_id = 0, ric_inst_id = 0, ran_func_id = rfid\<rparr>" nid cb]
      assms(2) by (auto simp: new_key_def new_proc_def)
  have "xa_ok (xa\<lparr>xa_act_proc := p\<rparr>)"
    using assms(1,4) p(2,3) k by (auto simp: xa_ok_def new_proc_def)
  then show ?thesis
    using p k assms(3) by (intro exI[of _ p]) (simp add: generate_ric_gen_id_def new_id_def)
qed

lemma valid_sm_ran_func: "valid_sm_id rfn \<Longrightarrow> rfn \<noteq> 147 \<Longrightarrow> valid_ran_func_id (ucast rfn)"
  by (auto simp: valid_sm_id_def valid_ran_func_id_def)

lemma report_ok:
  assumes "xa_ok xa" "timerfd_ok timerfd" "request_pends xa = {#}" "call_ok xa (Report nid rfn data cb)"
    and "sm_plugin_ric_xapp xa (ucast rfn) = Some sm"
  defines "i \<equiv> new_id xa (ucast rfn)"
  defines "sr \<equiv> \<lparr>sr_ric_id = i, event_trigger = sd_event_trigger (on_subscription sm data),
      sr_action = [\<lparr>act_id = 0, act_type = RIC_ACT_REPORT, act_definition = sd_action_def (on_subscription sm data),
                    subseq_action = None\<rparr>]\<rparr>"
  shows "\<exists>p m. ui_start timerfd xa (Report nid rfn data cb) = Some (xa\<lparr>xa_act_proc := p,
        xa_fds := timerfd (xa_fds xa) # xa_fds xa, xa_pending := m,
        xa_sent := xa_sent xa @ [E42_ric_sub_req \<lparr>esr_xapp_id = xa_id xa, esr_id = nid, esr_sr = sr\<rparr>]\<rparr>, Ui_sent (Op_report i))
    \<and> reg_entries p = procs xa @ [(new_key xa, new_proc RIC_SUBSCRIPTION_PROCEDURE_ACTIVE (ucast rfn) nid (Some cb))]
    \<and> bm_pairs m = add_mset (timerfd (xa_fds xa),
        \<lparr>px_ev = E42_RIC_SUBSCRIPTION_REQUEST_PENDING_EVENT, px_id = i, px_wait_ms = 5000\<rparr>) (pends xa)
    \<and> xa_ok (xa\<lparr>xa_act_proc := p, xa_fds := timerfd (xa_fds xa) # xa_fds xa, xa_pending := m\<rparr>)"
proof -
  have c: "nid \<in> fst ` set (xa_e2_nodes xa)" "valid_sm_id rfn" "rfn \<noteq> 147" "unat (rg_key_id (xa_act_proc xa)) < 65536"
    "case sd_action_def (on_subscription sm data) of None \<Rightarrow> True | Some ad \<Rightarrow> length ad < 65536"
    using assms(4,5) by (auto simp: word_less_nat_alt)
  obtain p where p: "generate_ric_gen_id xa RIC_SUBSCRIPTION_PROCEDURE_ACTIVE (ucast rfn) nid (Some cb)
      = Some (i, xa\<lparr>xa_act_proc := p\<rparr>)" "xa_ok (xa\<lparr>xa_act_proc := p\<rparr>)"
    "reg_entries p = procs xa @ [(new_key xa, new_proc RIC_SUBSCRIPTION_PROCEDURE_ACTIVE (ucast rfn) nid (Some cb))]"
    using generate_id_ok[OF assms(1) c(4) valid_sm_ran_func[OF c(2,3)], of "Some cb" RIC_SUBSCRIPTION_PROCEDURE_ACTIVE nid]
    by (auto simp: i_def)
  let ?ev = "\<lparr>px_ev = E42_RIC_SUBSCRIPTION_REQUEST_PENDING_EVENT, px_id = i, px_wait_ms = 5000\<rparr>"
  have no: "\<forall>q \<in># pends (xa\<lparr>xa_act_proc := p\<rparr>). px_ev (snd q) \<noteq> px_ev ?ev"
  proof
    fix q assume "q \<in># pends (xa\<lparr>xa_act_proc := p\<rparr>)"
    moreover have "q \<notin># request_pends xa" using assms(3) by simp
    ultimately show "px_ev (snd q) \<noteq> px_ev ?ev" by (auto simp: request_pends_def)
  qed
  obtain m where m: "add_pending_event_xapp timerfd (xa\<lparr>xa_act_proc := p\<rparr>) ?ev
      = Some (xa\<lparr>xa_act_proc := p, xa_fds := timerfd (xa_fds xa) # xa_fds xa, xa_pending := m\<rparr>)"
    "xa_ok (xa\<lparr>xa_act_proc := p, xa_fds := timerfd (xa_fds xa) # xa_fds xa, xa_pending := m\<rparr>)"
    "bm_pairs m = add_mset (timerfd (xa_fds xa), ?ev) (pends xa)"
    using add_pending_xapp_ok[OF p(2) assms(2) _ no] by auto
  have sm: "sm_plugin_ric_xapp (xa\<lparr>xa_act_proc := p\<rparr>) (ucast rfn) = Some sm" using assms(5) by (simp add: sm_plugin_ric_xapp_def)
  have "ui_start timerfd xa (Report nid rfn data cb) = Some (xa\<lparr>xa_act_proc := p,
        xa_fds := timerfd (xa_fds xa) # xa_fds xa, xa_pending := m,
        xa_sent := xa_sent xa @ [E42_ric_sub_req \<lparr>esr_xapp_id = xa_id xa, esr_id = nid, esr_sr = sr\<rparr>]\<rparr>, Ui_sent (Op_report i))"
    using valid_node_xapp[OF xa_parts(8)[OF assms(1)] c(1)] c(2,5) p(1) m(1) sm
    by (simp add: report_sm_xapp_api_def send_subscription_request_def generate_subscription_request_xapp_def
        e2ap_handle_e42_ric_subscription_request_xapp_def e2ap_send_bytes_xapp_def Let_def sr_def i_def new_id_def)
  then show ?thesis using p(3) m(2,3) by blast
qed

lemma u16_of_int:
  assumes "0 < h" "h < 65536"
  shows "ucast (word_of_int h :: u16) = (word_of_int h :: u32)"
proof -
  have "take_bit 16 h = h" "take_bit 32 h = h" using assms by (simp_all add: take_bit_int_eq_self)
  then show ?thesis by transfer simp
qed

lemma call_served:
  assumes "xa_ok xa" "timerfd_ok timerfd" "request_pends xa = {#}" "call_ok xa c"
  shows "\<exists>xa' pc. ui_start timerfd xa c = Some (xa', pc) \<and> xa_ok xa' \<and> setup_pends xa' = setup_pends xa
    \<and> xa_connected xa' = xa_connected xa \<and> ui_ok xa' pc"
proof (cases c)
  case (Report nid rfn data cb)
  then obtain sm where sm: "sm_plugin_ric_xapp xa (ucast rfn) = Some sm"
    using assms(4) by (cases "sm_plugin_ric_xapp xa (ucast rfn)") auto
  from report_ok[OF assms(1-3) assms(4)[unfolded Report] sm] show ?thesis
    using assms(3) Report
    by (fastforce simp: setup_pends_def request_pends_def awaits_def new_id_def)
next
  case (Rm_report hdl)
  have h: "0 < hdl" "hdl < 65536" "has_proc xa (word_of_int hdl)" using assms(4) Rm_report by auto
  have r: "ucast (word_of_int hdl :: u16) = (word_of_int hdl :: u32)"
    by (rule u16_of_int[OF h(1,2)])
  obtain v where v: "(word_of_int hdl, v) \<in> set (procs xa)" using h(3) by auto
  have u: "ucast (word_of_int hdl :: u32) = (word_of_int hdl :: u16)" by transfer simp
  from find_proc_ok[OF assms(1) v] obtain p where p: "find_act_proc (xa_act_proc xa) (word_of_int hdl)
      = Some (Some (numbered (word_of_int hdl) v), p)" "xa_ok (xa\<lparr>xa_act_proc := p\<rparr>)"
    "reg_entries p = number_proc (word_of_int hdl) (procs xa)" by (auto simp: u)
  have k: "has_proc (xa\<lparr>xa_act_proc := p\<rparr>) (word_of_int hdl)" using h(3) by (simp add: p(3))
  show ?thesis
    using Rm_report h p(1,2) assms(3) k
    by (simp add: rm_report_sm_xapp_api_def e2ap_send_bytes_xapp_def delete_request_ev_def r)
next
  case (Control nid rfid ctrl_msg)
  have cc: "rfid = 142 \<or> rfid = 145 \<or> rfid = 146 \<or> rfid = 3" "unat (rg_key_id (xa_act_proc xa)) < 65536"
    using assms(4) Control by (auto simp: word_less_nat_alt)
  obtain sm where sm: "sm_plugin_ric_xapp xa (ucast rfid) = Some sm" using assms(4) Control by auto
  have vr: "valid_ran_func_id (ucast rfid)" using cc(1) by (auto simp: valid_ran_func_id_def)
  obtain p where p: "generate_ric_gen_id xa RIC_CONTROL_PROCEDURE_ACTIVE (ucast rfid) nid None
      = Some (new_id xa (ucast rfid), xa\<lparr>xa_act_proc := p\<rparr>)" "xa_ok (xa\<lparr>xa_act_proc := p\<rparr>)"
    "reg_entries p = procs xa @ [(new_key xa, new_proc RIC_CONTROL_PROCEDURE_ACTIVE (ucast rfid) nid None)]"
    using generate_id_ok[OF assms(1) cc(2) vr, of None RIC_CONTROL_PROCEDURE_ACTIVE nid] by auto
  have sm': "sm_plugin_ric_xapp (xa\<lparr>xa_act_proc := p\<rparr>) (ucast rfid) = Some sm" using sm by (simp add: sm_plugin_ric_xapp_def)
  show ?thesis
    using Control cc(1) vr p sm' assms(3)
    by (simp add: control_sm_xapp_api_def e2ap_send_bytes_xapp_def control_request_ev_def generate_ric_control_request_def
        Let_def new_id_def)
qed

subsection \<open>The rest of a call\<close>

lemma rm_proc_ok:
  fixes r :: u16
  assumes "xa_ok xa" "has_proc xa (ucast r)"
  shows "\<exists>p. rm_act_proc (xa_act_proc xa) r = Some p \<and> xa_ok (xa\<lparr>xa_act_proc := p\<rparr>)
    \<and> reg_entries p = filter (\<lambda>(k, v). k \<noteq> ucast r) (procs xa)"
proof -
  have "0 < (ucast r :: u32)" using assms(2) xa_parts(10)[OF assms(1)] by auto
  then have "0 < r" by (simp only: ucast_u16_pos)
  from rm_act_proc_ok[OF xa_parts(1)[OF assms(1)] assms(2) this] obtain p where
    p: "rm_act_proc (xa_act_proc xa) r = Some p" "proc_reg_ok p"
    "reg_entries p = filter (\<lambda>(k, v). k \<noteq> ucast r) (procs xa)" by blast
  have "xa_ok (xa\<lparr>xa_act_proc := p\<rparr>)" using assms(1) p(2,3) by (auto simp: xa_ok_def)
  then show ?thesis using p by blast
qed

lemma ui_return_ok:
  assumes "xa_ok xa" "has_proc xa (op_key c)"
  shows "\<exists>p ans. ui_return xa c = Some (xa\<lparr>xa_act_proc := p\<rparr>, ans) \<and> xa_ok (xa\<lparr>xa_act_proc := p\<rparr>)"
proof (cases c)
  case (Op_report i)
  have "xa\<lparr>xa_act_proc := xa_act_proc xa\<rparr> = xa" by simp
  then show ?thesis using Op_report assms(1) by (intro exI[of _ "xa_act_proc xa"]) simp
next
  case (Op_rm_report hdl)
  then show ?thesis using rm_proc_ok[OF assms(1), of "word_of_int hdl"] assms(2) by auto
next
  case (Op_control i)
  have "ric_req_id i < 65536" using assms(2) xa_parts(10)[OF assms(1)] Op_control by auto
  then have "ucast (ucast (ric_req_id i) :: u16) = ric_req_id i" by (rule ucast16_id)
  then show ?thesis using rm_proc_ok[OF assms(1), of "ucast (ric_req_id i)"] assms(2) Op_control by auto
qed

lemma awaits_frame [simp]:
  "awaits (xa\<lparr>xa_sync := s\<rparr>) c = awaits xa c" "awaits (xa\<lparr>xa_sent := m\<rparr>) c = awaits xa c"
  "awaits (xa\<lparr>xa_act_proc := p\<rparr>) c = awaits xa c" "awaits (xa\<lparr>xa_disp := q\<rparr>) c = awaits xa c"
  "awaits (xa\<lparr>xa_called := w\<rparr>) c = awaits xa c" "awaits (xa\<lparr>xa_db := d\<rparr>) c = awaits xa c"
  by (simp_all add: awaits_def)

lemma continue_served:
  assumes "xapp_inv z" "timerfd_ok timerfd"
  shows "\<exists>z'. ui_continue timerfd z = Some z' \<and> xapp_inv z'"
proof -
  let ?xa = "z_xapp z"
  have inv: "xa_ok ?xa" "ui_ok ?xa (z_ui z)" using assms(1) by (auto simp: xapp_inv_def)
  show ?thesis
  proof (cases "z_ui z")
    case Ui_idle
    then show ?thesis using assms(1) by simp
  next
    case (Ui_pend ev c)
    have e: "0 < px_wait_ms ev" "request_pends ?xa = {#}" "px_ev ev = op_ev c" "has_proc ?xa (op_key c)"
      using inv(2) Ui_pend by auto
    from add_request_ok[OF inv(1) assms(2) e(1,2)] e(3) obtain xa' p where
      x: "add_pending_event_xapp timerfd ?xa ev = Some xa'" "xa_ok xa'" "request_pends xa' = {#(timerfd (xa_fds ?xa), ev)#}"
      "setup_pends xa' = setup_pends ?xa" "xa' = ?xa\<lparr>xa_fds := timerfd (xa_fds ?xa) # xa_fds ?xa, xa_pending := p\<rparr>" by auto
    have "awaits xa' c" using x(3) e(3) by (simp add: awaits_def)
    moreover have "has_proc xa' (op_key c)" "xa_connected xa' = xa_connected ?xa" using e(4) x(5) by simp_all
    ultimately show ?thesis using Ui_pend x(1,2,4) assms(1) by (simp add: xapp_inv_def)
  next
    case (Ui_sent c)
    have "cond_wait_enter (xa_sync ?xa) (sy_wait_ms (xa_sync ?xa)) = Some ((xa_sync ?xa)\<lparr>flag_sync := False, msg_ack := False\<rparr>)"
      using xa_parts(9)[OF inv(1)] by (simp add: cond_wait_enter_def)
    then show ?thesis using Ui_sent assms(1) by (simp add: xapp_inv_def xa_ok_def)
  next
    case (Ui_blocked c)
    show ?thesis
    proof (cases "flag_sync (xa_sync ?xa)")
      case False
      then show ?thesis using Ui_blocked assms(1) by (simp add: cond_wait_leave_def)
    next
      case True
      have f: "msg_ack (xa_sync ?xa)" "request_pends ?xa = {#}" "has_proc ?xa (op_key c)" using inv(2) Ui_blocked True by auto
      from ui_return_ok[OF inv(1) f(3)] obtain p ans where
        "ui_return ?xa c = Some (?xa\<lparr>xa_act_proc := p\<rparr>, ans)" "xa_ok (?xa\<lparr>xa_act_proc := p\<rparr>)" by blast
      then show ?thesis using Ui_blocked True f assms(1) by (simp add: cond_wait_leave_def xapp_inv_def)
    qed
  qed
qed

subsection \<open>Rounds of the loop\<close>

lemma ui_ok_same:
  assumes "request_pends xa' = request_pends xa" "fst ` set (procs xa') = fst ` set (procs xa)" "xa_sync xa' = xa_sync xa"
  shows "ui_ok xa' pc = ui_ok xa pc"
  using assms by (cases pc) (simp_all add: awaits_def)

text \<open>An indication of a known procedure goes to the database and to the worker, any other is dropped.\<close>

lemma indication_known:
  assumes "xa_ok xa" "ind_ok xa m" "(ric_req_id (ind_ric_id m), v) \<in> set (procs xa)"
    and "sm_plugin_ric_xapp xa (ran_func_id (ind_ric_id m)) = Some sm"
  defines "rd \<equiv> on_indication sm \<lparr>id_ind_hdr = ind_hdr m, id_ind_msg = ind_msg m, id_call_process_id = ind_call_process_id m\<rparr>"
  shows "\<exists>p. msg_arrived_xapp timerfd xa (Ric_ind m) = Some (xa\<lparr>xa_act_proc := p, xa_db := xa_db xa @ [(ap_e2_node v, rd)],
        xa_disp := xa_disp xa @ [\<lparr>md_rd = rd, md_sm_cb = ap_sm_cb v\<rparr>]\<rparr>)
    \<and> xa_ok (xa\<lparr>xa_act_proc := p\<rparr>) \<and> reg_entries p = number_proc (ric_req_id (ind_ric_id m)) (procs xa)"
proof -
  let ?r = "ric_req_id (ind_ric_id m)"
  obtain p where p: "find_act_proc (xa_act_proc xa) (ucast ?r) = Some (Some (numbered ?r v), p)" "xa_ok (xa\<lparr>xa_act_proc := p\<rparr>)"
    "reg_entries p = number_proc ?r (procs xa)" using find_proc_ok[OF assms(1,3)] by blast
  have t: "rd_type rd \<noteq> TC_STATS_V0" "rd_type rd \<noteq> SM_AGENT_IF_READ_V0_END" "ind_call_process_id m \<noteq> Some []"
    using assms(2,4) by (auto simp: ind_ok_def rd_def)
  have "rd_type rd = MAC_STATS_V0 \<or> rd_type rd = RLC_STATS_V0 \<or> rd_type rd = PDCP_STATS_V0
       \<or> rd_type rd = SLICE_STATS_V0 \<or> rd_type rd = KPM_STATS_V3_0 \<or> rd_type rd = GTP_STATS_V0
       \<or> rd_type rd = RAN_CTRL_STATS_V1_03" using t(1,2) by (cases "rd_type rd") auto
  then have "msg_arrived_xapp timerfd xa (Ric_ind m) = Some (xa\<lparr>xa_act_proc := p, xa_db := xa_db xa @ [(ap_e2_node v, rd)],
        xa_disp := xa_disp xa @ [\<lparr>md_rd = rd, md_sm_cb = ap_sm_cb v\<rparr>]\<rparr>)"
    using p(1) assms(4) t(3)
    by (auto simp: msg_arrived_xapp_def e2ap_msg_handle_xapp_def check_valid_msg_type_xapp_def e2ap_handle_indication_xapp_def
        ind_sm_payload_def rd_def[symmetric] numbered_def split: option.split)
  then show ?thesis using p(2,3) by blast
qed

lemma indication_unknown:
  assumes "xa_ok xa" "ind_ok xa m" "\<not> has_proc xa (ric_req_id (ind_ric_id m))"
  shows "msg_arrived_xapp timerfd xa (Ric_ind m) = Some xa"
proof -
  let ?r = "ric_req_id (ind_ric_id m)"
  obtain sm where sm: "sm_plugin_ric_xapp xa (ran_func_id (ind_ric_id m)) = Some sm"
    "rd_type (on_indication sm \<lparr>id_ind_hdr = ind_hdr m, id_ind_msg = ind_msg m, id_call_process_id = ind_call_process_id m\<rparr>)
       \<notin> {TC_STATS_V0, SM_AGENT_IF_READ_V0_END}" "ind_call_process_id m \<noteq> Some []" "0 < ?r" "?r < 65536"
    using assms(2) by (auto simp: ind_ok_def split: option.splits)
  let ?rd = "on_indication sm \<lparr>id_ind_hdr = ind_hdr m, id_ind_msg = ind_msg m, id_call_process_id = ind_call_process_id m\<rparr>"
  have "find_act_proc (xa_act_proc xa) (ucast ?r) = Some (None, xa_act_proc xa)"
    using find_act_proc_miss[OF xa_parts(1)[OF assms(1)], of "ucast ?r"] assms(3) ucast16_id[OF sm(5)] ucast16_pos[OF sm(4,5)] by simp
  moreover have "rd_type ?rd = MAC_STATS_V0 \<or> rd_type ?rd = RLC_STATS_V0 \<or> rd_type ?rd = PDCP_STATS_V0
       \<or> rd_type ?rd = SLICE_STATS_V0 \<or> rd_type ?rd = KPM_STATS_V3_0 \<or> rd_type ?rd = GTP_STATS_V0
       \<or> rd_type ?rd = RAN_CTRL_STATS_V1_03" using sm(2) by (cases "rd_type ?rd") auto
  ultimately show ?thesis
    using sm(1,3)
    by (auto simp: msg_arrived_xapp_def e2ap_msg_handle_xapp_def check_valid_msg_type_xapp_def e2ap_handle_indication_xapp_def
        ind_sm_payload_def split: option.split)
qed

end
