(* ===== verification/Xapp_Properties.thy ===== *)
theory Xapp_Properties
  imports Xapp_Calls Agent_Properties
begin

text \<open>
  The xApp does not get stuck when every answer comes while the user waits for it; and the user waits
  in vain when the answer comes before the wait.
\<close>

subsection \<open>The messages of the network\<close>

lemma setup_response_connected:
  assumes "xa_connected xa"
  shows "msg_arrived_xapp timerfd xa (E42_stp_resp m) = Some xa"
  using assms by (simp add: msg_arrived_xapp_def e2ap_msg_handle_xapp_def check_valid_msg_type_xapp_def
      e2ap_handle_e42_setup_response_xapp_def)

lemma setup_response_ok:
  assumes "xa_ok xa" "timerfd_ok timerfd" "\<not> xa_connected xa" "size (setup_pends xa) = 1"
    and "unat (len_e2_nodes_conn m) = length (e42_nodes m)" "nodes_new (xa_e2_nodes xa) (e42_nodes m)"
  shows "\<exists>xa'. msg_arrived_xapp timerfd xa (E42_stp_resp m) = Some xa' \<and> xa_ok xa'
    \<and> size (setup_pends xa') = (if xa_connected xa' then 0 else 1) \<and> request_pends xa' = request_pends xa
    \<and> xa_act_proc xa' = xa_act_proc xa \<and> xa_sync xa' = xa_sync xa \<and> xa_id xa' = e42_xapp_id m
    \<and> xa_connected xa' = (e42_nodes m \<noteq> [] \<or> xa_e2_nodes xa \<noteq> [])
    \<and> nc_id ` set (e42_nodes m) \<subseteq> fst ` set (xa_e2_nodes xa')"
proof -
  obtain reg where reg: "add_nodes (xa_e2_nodes xa) (e42_nodes m) = Some reg" "reg_ok reg"
    "length reg = length (xa_e2_nodes xa) + length (e42_nodes m)"
    "nc_id ` set (e42_nodes m) \<union> fst ` set (xa_e2_nodes xa) \<subseteq> fst ` set reg"
    using add_nodes_ok[OF xa_parts(8)[OF assms(1)] assms(6)] by blast
  let ?xa = "xa\<lparr>xa_id := e42_xapp_id m, xa_e2_nodes := reg\<rparr>"
  let ?ev = "\<lparr>px_ev = E42_SETUP_REQUEST_PENDING_EVENT, px_id = no_id, px_wait_ms = 0\<rparr>"
  have ok: "xa_ok ?xa" using assms(1) reg(2) by (simp add: xa_ok_def)
  obtain fd ev where s: "setup_pends xa = {#(fd, ev)#}" using assms(4) size_1_singleton_mset[of "setup_pends xa"] by auto
  have m: "(fd, ev) \<in># setup_pends xa" by (simp add: s)
  then have i: "(fd, ev) \<in># pends ?xa" "px_ev ev = E42_SETUP_REQUEST_PENDING_EVENT" by (auto simp: setup_pends_def)
  obtain p where p: "rm_pending_event_xapp ?xa ?ev = Some (?xa\<lparr>xa_pending := p, xa_fds := remove1 fd (xa_fds xa)\<rparr>)"
    "xa_ok (?xa\<lparr>xa_pending := p, xa_fds := remove1 fd (xa_fds xa)\<rparr>)" "pends xa = add_mset (fd, ev) (bm_pairs p)"
    using rm_pending_xapp_ok[OF ok i(1), of ?ev] i(2) by auto
  let ?x1 = "?xa\<lparr>xa_pending := p, xa_fds := remove1 fd (xa_fds xa)\<rparr>"
  have none: "setup_pends ?x1 = {#}" "request_pends ?x1 = request_pends xa"
    using p(3) s i(2) by (auto simp: setup_pends_def request_pends_def)
  have h: "e2ap_handle_e42_setup_response_xapp timerfd xa m = do {
        x \<leftarrow> (if length reg = 0 then do { x \<leftarrow> send_setup_request timerfd ?x1; Some (x\<lparr>xa_connected := False\<rparr>) }
              else Some (?x1\<lparr>xa_connected := True\<rparr>));
        Some (no_msg, x) }"
    using assms(3,5) reg(1) p(1)
    by (simp add: e2ap_handle_e42_setup_response_xapp_def sz_reg_e2_node_def)
  have arr: "msg_arrived_xapp timerfd xa (E42_stp_resp m) = do {
        (ans, x) \<leftarrow> e2ap_handle_e42_setup_response_xapp timerfd xa m;
        Some (if msg_type ans \<noteq> NONE_E2_MSG_TYPE then e2ap_send_bytes_xapp x ans else x) }"
    by (simp add: msg_arrived_xapp_def e2ap_msg_handle_xapp_def check_valid_msg_type_xapp_def)
  show ?thesis
  proof (cases "length reg = 0")
    case True
    obtain x ev' ms q where x: "send_setup_request timerfd ?x1 = Some x" "xa_ok x"
      "setup_pends x = {#(timerfd (xa_fds ?x1), ev')#}" "request_pends x = request_pends ?x1"
      "x = ?x1\<lparr>xa_sent := ms, xa_fds := timerfd (xa_fds ?x1) # xa_fds ?x1, xa_pending := q\<rparr>"
      using send_setup_ok[OF p(2) assms(2) none(1)] by blast
    have "msg_arrived_xapp timerfd xa (E42_stp_resp m) = Some (x\<lparr>xa_connected := False\<rparr>)"
      using True x(1) by (simp add: arr h)
    moreover have "e42_nodes m = []" "xa_e2_nodes xa = []" using True reg(3) by auto
    moreover have "xa_act_proc x = xa_act_proc xa" "xa_sync x = xa_sync xa" "xa_id x = e42_xapp_id m"
      by (simp_all add: x(5))
    ultimately show ?thesis using x(2,3,4) none(2) by (intro exI[of _ "x\<lparr>xa_connected := False\<rparr>"]) simp
  next
    case False
    then have "msg_arrived_xapp timerfd xa (E42_stp_resp m) = Some (?x1\<lparr>xa_connected := True\<rparr>)"
      by (simp add: arr h)
    moreover have "e42_nodes m \<noteq> [] \<or> xa_e2_nodes xa \<noteq> []" using False reg(3) by auto
    ultimately show ?thesis using p(2) none reg(4) by (intro exI[of _ "?x1\<lparr>xa_connected := True\<rparr>"]) simp
  qed
qed

lemma setup_timer_ok:
  assumes "xa_ok xa" "(fd, ev) \<in># setup_pends xa"
  shows "\<exists>sr. xapp_round timerfd xa fd msg = Some (xa\<lparr>xa_sent := xa_sent xa @ [E42_stp_req sr]\<rparr>)"
proof -
  have p: "(fd, ev) \<in># pends xa" "px_ev ev = E42_SETUP_REQUEST_PENDING_EVENT" using assms(2) by (auto simp: setup_pends_def)
  have fd: "fd \<noteq> xa_ep_fd xa" "0 < fd" using xa_watched(2)[OF assms(1) p(1)] by auto
  have f: "entries_find_if (\<lambda>k. fd = k) (bm_left (xa_pending xa)) = Some (fd, ev)"
    by (rule pend_xapp.find_left[OF xa_parts(2)[OF assms(1)] p(1)]) simp
  obtain sr where "generate_e42_setup_request xa = Some sr" using generate_setup_ok[OF assms(1)] by blast
  then show ?thesis
    using fd f p(2)
    by (simp add: xapp_round_def find_event_type_def net_pkt_xapp_def pend_event_xapp_def timer_expired_xapp_def
        e2ap_send_bytes_xapp_def) blast
qed

lemma round_net:
  assumes "xa_ok xa"
  shows "xapp_round timerfd xa (xa_ep_fd xa) msg = msg_arrived_xapp timerfd xa msg"
  using xa_watched(3)[OF assms] by (simp add: xapp_round_def find_event_type_def net_pkt_xapp_def)

lemma xa_ok_dispatch:
  assumes "xa_ok xa" "cb \<noteq> None"
  shows "xa_ok (xa\<lparr>xa_db := d, xa_disp := xa_disp xa @ [\<lparr>md_rd = r, md_sm_cb = cb\<rparr>]\<rparr>)"
  using assms by (simp add: xa_ok_def)

lemma indication_served:
  assumes "xapp_inv z" "ind_ok (z_xapp z) m"
  shows "\<exists>xa'. msg_arrived_xapp timerfd (z_xapp z) (Ric_ind m) = Some xa' \<and> xapp_inv (z\<lparr>z_xapp := xa'\<rparr>)"
proof (cases "has_proc (z_xapp z) (ric_req_id (ind_ric_id m))")
  case False
  have "xa_ok (z_xapp z)" using assms(1) by (simp add: xapp_inv_def)
  from indication_unknown[OF this assms(2) False] show ?thesis using assms(1) by simp
next
  case True
  let ?xa = "z_xapp z" and ?r = "ric_req_id (ind_ric_id m)"
  have ok: "xa_ok ?xa" using assms(1) by (simp add: xapp_inv_def)
  obtain v where v: "(?r, v) \<in> set (procs ?xa)" using True by auto
  obtain sm where sm: "sm_plugin_ric_xapp ?xa (ran_func_id (ind_ric_id m)) = Some sm" 
    using assms(2) by (auto simp: ind_ok_def split: option.splits)
  define rd where "rd = on_indication sm \<lparr>id_ind_hdr = ind_hdr m, id_ind_msg = ind_msg m, id_call_process_id = ind_call_process_id m\<rparr>"
  obtain p where p: "msg_arrived_xapp timerfd ?xa (Ric_ind m) = Some (?xa\<lparr>xa_act_proc := p, xa_db := xa_db ?xa @ [(ap_e2_node v, rd)],
        xa_disp := xa_disp ?xa @ [\<lparr>md_rd = rd, md_sm_cb = ap_sm_cb v\<rparr>]\<rparr>)" "xa_ok (?xa\<lparr>xa_act_proc := p\<rparr>)"
    "reg_entries p = number_proc ?r (procs ?xa)"
    using indication_known[OF ok assms(2) v sm, of timerfd] by (auto simp: rd_def)
  have "ap_type v = RIC_SUBSCRIPTION_PROCEDURE_ACTIVE" using assms(2) v by (auto simp: ind_ok_def)
  moreover have "ap_sm_cb v = None \<longleftrightarrow> ap_type v = RIC_CONTROL_PROCEDURE_ACTIVE" using ok v by (auto simp: xa_ok_def)
  ultimately have "ap_sm_cb v \<noteq> None" by simp
  from xa_ok_dispatch[OF p(2) this, of rd] have
    "xa_ok (?xa\<lparr>xa_act_proc := p, xa_db := xa_db ?xa @ [(ap_e2_node v, rd)],
        xa_disp := xa_disp ?xa @ [\<lparr>md_rd = rd, md_sm_cb = ap_sm_cb v\<rparr>]\<rparr>)" by simp
  moreover have "ui_ok (?xa\<lparr>xa_act_proc := p, xa_db := d, xa_disp := q\<rparr>) (z_ui z) = ui_ok ?xa (z_ui z)" for d q
    by (rule ui_ok_same) (simp_all add: p(3))
  ultimately show ?thesis using p(1) assms(1) by (simp add: xapp_inv_def)
qed

lemma answer_served:
  assumes "xapp_inv z" "z_ui z = Ui_blocked c" "\<not> flag_sync (xa_sync (z_xapp z))" "answers_call c msg"
  shows "\<exists>xa'. msg_arrived_xapp timerfd (z_xapp z) msg = Some xa' \<and> xapp_inv (z\<lparr>z_xapp := xa'\<rparr>)"
proof -
  have h: "xa_ok (z_xapp z)" "awaits (z_xapp z) c" "has_proc (z_xapp z) (op_key c)"
    using assms(1-3) by (auto simp: xapp_inv_def)
  obtain xa' where x: "msg_arrived_xapp timerfd (z_xapp z) msg = Some xa'" "xa_ok xa'" "request_pends xa' = {#}"
    "setup_pends xa' = setup_pends (z_xapp z)" "flag_sync (xa_sync xa')" "msg_ack (xa_sync xa')"
    "procs xa' = number_proc (op_key c) (procs (z_xapp z))" "xa_connected xa' = xa_connected (z_xapp z)"
    using answer_ok[OF h assms(4), of timerfd] by blast
  have "has_proc xa' (op_key c)" using h(3) unfolding x(7) by simp
  then show ?thesis using x(1-6,8) assms(1,2) by (simp add: xapp_inv_def)
qed

lemma message_served:
  assumes "xapp_inv z" "timerfd_ok timerfd" "net_msg_ok z msg"
  shows "\<exists>xa'. msg_arrived_xapp timerfd (z_xapp z) msg = Some xa' \<and> xapp_inv (z\<lparr>z_xapp := xa'\<rparr>)"
proof (cases "(\<exists>m. msg = Ric_ind m) \<or> (\<exists>m. msg = E42_stp_resp m)")
  case False
  then have "net_msg_ok z msg \<longleftrightarrow> (\<exists>c. z_ui z = Ui_blocked c \<and> \<not> flag_sync (xa_sync (z_xapp z)) \<and> answers_call c msg)"
    by (cases msg) (auto split: ui_pc.splits)
  then show ?thesis using assms answer_served by blast
next
  case True
  then consider m where "msg = Ric_ind m" | m where "msg = E42_stp_resp m" by blast
  then show ?thesis
  proof cases
    case (1 m)
    then show ?thesis using indication_served[OF assms(1)] assms(3) by simp
  next
    case (2 m)
    show ?thesis
    proof (cases "xa_connected (z_xapp z)")
      case True
      then show ?thesis using setup_response_connected[OF True] assms(1) 2 by simp
    next
      case False
      have h: "xa_ok (z_xapp z)" "size (setup_pends (z_xapp z)) = 1" using assms(1) False by (auto simp: xapp_inv_def)
      have n: "unat (len_e2_nodes_conn m) = length (e42_nodes m)" "nodes_new (xa_e2_nodes (z_xapp z)) (e42_nodes m)"
        using assms(3) 2 False by auto
      obtain xa' where x: "msg_arrived_xapp timerfd (z_xapp z) (E42_stp_resp m) = Some xa'" "xa_ok xa'"
        "size (setup_pends xa') = (if xa_connected xa' then 0 else 1)" "request_pends xa' = request_pends (z_xapp z)"
        "xa_act_proc xa' = xa_act_proc (z_xapp z)" "xa_sync xa' = xa_sync (z_xapp z)"
        using setup_response_ok[OF h(1) assms(2) False h(2) n] by blast
      have "ui_ok xa' (z_ui z) = ui_ok (z_xapp z) (z_ui z)" by (rule ui_ok_same) (simp_all add: x(4-6))
      then show ?thesis using 2 x(1-3) assms(1) by (simp add: xapp_inv_def)
    qed
  qed
qed

lemma loop_served:
  assumes "xapp_inv z" "timerfd_ok timerfd" "xin_ok z (Loop fd msg)"
  shows "\<exists>xa'. xapp_round timerfd (z_xapp z) fd msg = Some xa' \<and> xapp_inv (z\<lparr>z_xapp := xa'\<rparr>)"
proof -
  have ok: "xa_ok (z_xapp z)" using assms(1) by (simp add: xapp_inv_def)
  consider "fd = -1" | "fd = xa_ep_fd (z_xapp z)" "net_msg_ok z msg" | ev where "(fd, ev) \<in># setup_pends (z_xapp z)"
    using assms(3) by auto
  then show ?thesis
  proof cases
    case 1
    then show ?thesis using assms(1) by (simp add: xapp_round_def)
  next
    case 2
    then show ?thesis using message_served[OF assms(1,2)] round_net[OF ok] by simp
  next
    case 3
    have "ui_ok ((z_xapp z)\<lparr>xa_sent := m\<rparr>) (z_ui z) = ui_ok (z_xapp z) (z_ui z)" for m by (rule ui_ok_same) simp_all
    then show ?thesis using setup_timer_ok[OF ok 3, of timerfd msg] assms(1) by (auto simp: xapp_inv_def)
  qed
qed

lemma worker_served:
  assumes "xapp_inv z"
  shows "\<exists>xa'. worker_thread (z_xapp z) = Some xa' \<and> xapp_inv (z\<lparr>z_xapp := xa'\<rparr>)"
proof (cases "xa_disp (z_xapp z)")
  case Nil
  then show ?thesis using assms by (simp add: worker_thread_def)
next
  case (Cons m ms)
  have ok: "xa_ok (z_xapp z)" using assms by (simp add: xapp_inv_def)
  then obtain cb where cb: "md_sm_cb m = Some cb" using Cons by (auto simp: xa_ok_def)
  have "xa_ok ((z_xapp z)\<lparr>xa_disp := ms\<rparr>)" using ok Cons by (simp add: xa_ok_def)
  moreover have "ui_ok ((z_xapp z)\<lparr>xa_disp := ms, xa_called := q\<rparr>) (z_ui z) = ui_ok (z_xapp z) (z_ui z)" for q
    by (rule ui_ok_same) simp_all
  ultimately show ?thesis using Cons cb assms by (simp add: worker_thread_def xapp_inv_def)
qed

subsection \<open>The contract keeps the xApp running\<close>

fun xapp_run :: "(int list \<Rightarrow> int) \<Rightarrow> xapp_sys_t \<Rightarrow> xapp_input list \<Rightarrow> xapp_sys_t option" where
  "xapp_run timerfd z [] = Some z"
| "xapp_run timerfd z (inp # inps) = do { z \<leftarrow> xapp_step timerfd z inp; xapp_run timerfd z inps }"

fun keeps_contract :: "(int list \<Rightarrow> int) \<Rightarrow> xapp_sys_t \<Rightarrow> xapp_input list \<Rightarrow> bool" where
  "keeps_contract timerfd z [] \<longleftrightarrow> True"
| "keeps_contract timerfd z (inp # inps) \<longleftrightarrow> xin_ok z inp
     \<and> (case xapp_step timerfd z inp of None \<Rightarrow> True | Some z' \<Rightarrow> keeps_contract timerfd z' inps)"

definition started_xapp :: "(int list \<Rightarrow> int) \<Rightarrow> int \<Rightarrow> (u16, sm_agent_t) entries \<Rightarrow> (u16, sm_ric_t) entries
    \<Rightarrow> xapp_sys_t option" where
  "started_xapp timerfd ep_fd sms_ag sms_ric = do {
     xa \<leftarrow> init_e42_xapp ep_fd sms_ag sms_ric;
     xa \<leftarrow> start_e42_xapp timerfd xa;
     Some \<lparr>z_xapp = xa, z_ui = Ui_idle, z_ans = []\<rparr>
   }"

lemma started_ok:
  assumes "timerfd_ok timerfd" "0 < ep_fd" "sms_ok sms_ag" "length sms_ag = length sms_ric"
  shows "\<exists>z. started_xapp timerfd ep_fd sms_ag sms_ric = Some z \<and> xapp_inv z \<and> z_ans z = [] \<and> xa_called (z_xapp z) = []"
proof -
  have fresh: "reg_inv p" "reg_entries p = []" "rg_elm_sz p = act_proc_val_sz" "rg_key_id p = 1"
    if "p = assoc_reg_init act_proc_val_sz" for p :: "act_proc_val_t assoc_reg_t"
    unfolding that
    by (simp_all add: reg_inv_init reg_entries_def) (simp_all add: assoc_reg_init_def)
  obtain xa where i: "init_e42_xapp ep_fd sms_ag sms_ric = Some xa" "xa_ok xa" "setup_pends xa = {#}" "request_pends xa = {#}"
    "\<not> xa_connected xa" "xa_called xa = []"
    using assms fresh
    by (auto simp: init_e42_xapp_def add_fd_asio_xapp_def xa_ok_def init_act_proc_def init_pending_events_xapp_def
        pend_xapp.ok_init setup_pends_def request_pends_def proc_reg_ok_def reg_ok_def init_reg_e2_node_def init_sync_ui_def
        keys_sorted_def)
  from send_setup_ok[OF i(2) assms(1) i(3)] obtain xa' ev m p where s: "send_setup_request timerfd xa = Some xa'" "xa_ok xa'"
    "setup_pends xa' = {#(timerfd (xa_fds xa), ev)#}" "request_pends xa' = request_pends xa"
    "xa' = xa\<lparr>xa_sent := m, xa_fds := timerfd (xa_fds xa) # xa_fds xa, xa_pending := p\<rparr>" by blast
  have "\<not> xa_connected xa'" "xa_called xa' = []" using s(5) i(5,6) by simp_all
  then have "xapp_inv \<lparr>z_xapp = xa', z_ui = Ui_idle, z_ans = []\<rparr>" using s(2-4) i(4) by (simp add: xapp_inv_def)
  then show ?thesis using i(1) s(1) \<open>xa_called xa' = []\<close> by (simp add: started_xapp_def start_e42_xapp_def)
qed

lemma step_served:
  assumes "xapp_inv z" "timerfd_ok timerfd" "xin_ok z inp"
  shows "\<exists>z'. xapp_step timerfd z inp = Some z' \<and> xapp_inv z'"
proof (cases inp)
  case (Ui_call c)
  show ?thesis
  proof (cases "z_ui z = Ui_idle")
    case True
    then have "xa_ok (z_xapp z)" "request_pends (z_xapp z) = {#}" "call_ok (z_xapp z) c"
      using assms(1,3) Ui_call by (auto simp: xapp_inv_def)
    from call_served[OF this(1) assms(2) this(2,3)] show ?thesis
      using True Ui_call assms(1) by (auto simp: xapp_inv_def)
  qed (use Ui_call assms(1) in simp)
next
  case Ui_continue
  then show ?thesis using continue_served[OF assms(1,2)] by (simp del: ui_continue.simps)
next
  case Ui_timeout
  then show ?thesis using assms(1,3) by (simp split: ui_pc.splits)
next
  case (Loop fd msg)
  then show ?thesis using loop_served[OF assms(1,2), of fd msg] assms(3) by (auto simp del: xin_ok.simps)
next
  case Worker
  then show ?thesis using worker_served[OF assms(1)] by auto
qed

lemma run_served:
  assumes "xapp_inv z" "timerfd_ok timerfd" "keeps_contract timerfd z inps"
  shows "\<exists>z'. xapp_run timerfd z inps = Some z' \<and> xapp_inv z'"
  using assms
proof (induction inps arbitrary: z)
  case (Cons inp inps)
  have i: "xin_ok z inp" using Cons.prems(3) by simp
  from step_served[OF Cons.prems(1,2) i] obtain z1 where "xapp_step timerfd z inp = Some z1" "xapp_inv z1" by blast
  then show ?case using Cons.IH[of z1] Cons.prems(2,3) by simp
qed simp

text \<open>C23: Started with plug-ins, an xApp whose environment keeps the contract never aborts and keeps its
  invariant: calls of the user only while the number of a request fits in 16 bits and for connected
  nodes, setup responses that name new and complete nodes, every answer while the user waits for it,
  and indications of known service models that carry no traffic-control statistics.\<close>

theorem xapp_not_stuck:
  assumes "timerfd_ok timerfd" "0 < ep_fd" "sms_ok sms_ag" "length sms_ag = length sms_ric"
    and "started_xapp timerfd ep_fd sms_ag sms_ric = Some z" "keeps_contract timerfd z inps"
  shows "\<exists>z'. xapp_run timerfd z inps = Some z' \<and> xapp_inv z'"
proof -
  have "xapp_inv z" using started_ok[OF assms(1-4)] assms(5) by auto
  from run_served[OF this assms(1,6)] show ?thesis .
qed

declare skip_empty.simps [code] lower_bound_loop.simps [code] erase_loop.simps [code] partition_loop.simps [code]

definition sample_stp :: e2ap_msg_t where
  "sample_stp = E42_stp_resp \<lparr>e42_xapp_id = 7, len_e2_nodes_conn = 1,
     e42_nodes = [\<lparr>nc_id = sample_node, nc_cca = [sample_cca], nc_ack_rf = [sample_rf]\<rparr>]\<rparr>"

definition sample_answer :: e2ap_msg_t where
  "sample_answer = Ric_sub_resp \<lparr>sresp_ric_id = \<lparr>ric_req_id = 1, ric_inst_id = 0, ran_func_id = 2\<rparr>,
     admitted = [], not_admitted = []\<rparr>"

definition sample_inputs :: "xapp_input list" where
  "sample_inputs = [Loop 3 sample_stp, Ui_call (Report sample_node 2 [1, 2] 99), Ui_continue, Loop 3 sample_answer, Ui_continue,
     Loop 3 (Ric_ind \<lparr>ind_ric_id = \<lparr>ric_req_id = 1, ric_inst_id = 0, ran_func_id = 2\<rparr>, ind_action_id = 0, ind_sn = None,
        ind_type = RIC_IND_REPORT, ind_hdr = [], ind_msg = [9], ind_call_process_id = None\<rparr>), Worker,
     Ui_call (Rm_report 1), Ui_continue, Ui_continue,
     Loop 3 (Ric_sub_del_resp \<lparr>sdresp_ric_id = \<lparr>ric_req_id = 1, ric_inst_id = 0, ran_func_id = 2\<rparr>\<rparr>), Ui_continue]"

definition sample_xa :: xapp_sys_t where
  "sample_xa = the (started_xapp max_fd 3 [(2, sample_sa)] [(2, sample_sm)])"

lemma sample_xa_started: "started_xapp max_fd 3 [(2, sample_sa)] [(2, sample_sm)] = Some sample_xa"
  using started_ok[OF max_fd_ok, of 3 "[(2, sample_sa)]" "[(2, sample_sm)]"]
  by (auto simp: sample_xa_def sms_ok_def sample_sa_def)

fun checked_run :: "(int list \<Rightarrow> int) \<Rightarrow> xapp_sys_t \<Rightarrow> xapp_input list \<Rightarrow> xapp_sys_t option" where
  "checked_run timerfd z [] = Some z"
| "checked_run timerfd z (inp # inps) = do {
     assert_c (xin_ok z inp);
     z \<leftarrow> xapp_step timerfd z inp;
     checked_run timerfd z inps
   }"

lemma checked_keeps: "checked_run timerfd z inps \<noteq> None \<Longrightarrow> keeps_contract timerfd z inps"
  by (induction inps arbitrary: z) (auto simp: assert_c_def split: bind_splits if_splits)

lemma sample_keeps: "keeps_contract max_fd sample_xa sample_inputs"
  by (rule checked_keeps) code_simp

theorem xapp_not_stuck_witness:
  "\<exists>z'. xapp_run max_fd sample_xa sample_inputs = Some z' \<and> xapp_inv z'"
  by (rule xapp_not_stuck[OF max_fd_ok _ _ _ sample_xa_started sample_keeps]) (simp_all add: sms_ok_def sample_sa_def)

end
