(* ===== verification/Xapp_Wakeup.thy ===== *)
theory Xapp_Wakeup
  imports Xapp_Properties
begin

text \<open>
  The contract asks for answers that come while the user waits.  Here is why: the requests are sent
  before the wait begins, and the wait begins with a reset of the flags, so an answer that is faster
  than the thread of the user is lost; the call then never returns.
\<close>

subsection \<open>An xApp that expects no answer\<close>

definition no_answer_due :: "(int, pending_event_xapp_t) bi_map_t \<Rightarrow> bool" where
  "no_answer_due p \<longleftrightarrow> bm_cmp2 p = cmp_pending_event_xapp
     \<and> (\<forall>(ev, fd) \<in> set (bm_right p). px_ev ev = E42_SETUP_REQUEST_PENDING_EVENT)"

lemma no_answer_insert:
  assumes "no_answer_due p" "px_ev ev = E42_SETUP_REQUEST_PENDING_EVENT" "bi_map_insert p fd ev = Some p'"
  shows "no_answer_due p'"
proof -
  have "p' = p\<lparr>bm_left := entries_insert (bm_cmp1 p) fd ev (bm_left p), bm_right := entries_insert (bm_cmp2 p) ev fd (bm_right p)\<rparr>"
    using assms(3) by (auto simp: bi_map_insert_def Let_def bind_Some_iff assert_c_def split: if_splits)
  then show ?thesis using assms(1,2) by (simp add: no_answer_due_def)
qed

lemma no_answer_extract:
  assumes "no_answer_due p" "bi_map_extract_right p ev = Some (fd, p')"
  shows "no_answer_due p' \<and> px_ev ev = E42_SETUP_REQUEST_PENDING_EVENT"
proof -
  obtain r where r: "entries_extract cmp_pending_event_xapp ev (bm_right p) = Some (fd, r)" "bm_right p' = r" "bm_cmp2 p' = bm_cmp2 p"
    using assms by (auto simp: bi_map_extract_right_def no_answer_due_def bind_Some_iff assert_c_def split: if_splits)
  have "px_ev ev = E42_SETUP_REQUEST_PENDING_EVENT"
  proof (rule ccontr)
    assume "px_ev ev \<noteq> E42_SETUP_REQUEST_PENDING_EVENT"
    then have "entries_extract cmp_pending_event_xapp ev (bm_right p) = None"
      using assms(1) by (intro pend_xapp_cmp.entries_extract_absent) (auto simp: no_answer_due_def)
    then show False using r(1) by simp
  qed
  moreover have "no_answer_due p'" using assms(1) entries_extract_subset[OF r(1)] r(2,3) by (auto simp: no_answer_due_def)
  ultimately show ?thesis by simp
qed

text \<open>What does not change while the user waits in vain.\<close>

definition deaf :: "e42_xapp_t \<Rightarrow> bool" where
  "deaf xa \<longleftrightarrow> no_answer_due (xa_pending xa) \<and> \<not> flag_sync (xa_sync xa)"

lemma deaf_frame [simp]:
  "deaf (xa\<lparr>xa_sent := m\<rparr>) = deaf xa" "deaf (xa\<lparr>xa_id := i\<rparr>) = deaf xa" "deaf (xa\<lparr>xa_act_proc := p\<rparr>) = deaf xa"
  "deaf (xa\<lparr>xa_e2_nodes := r\<rparr>) = deaf xa" "deaf (xa\<lparr>xa_connected := b\<rparr>) = deaf xa" "deaf (xa\<lparr>xa_db := d\<rparr>) = deaf xa"
  "deaf (xa\<lparr>xa_disp := q\<rparr>) = deaf xa" "deaf (xa\<lparr>xa_called := w\<rparr>) = deaf xa" "deaf (xa\<lparr>xa_fds := f\<rparr>) = deaf xa"
  by (simp_all add: deaf_def)

lemma deaf_rm_pending:
  assumes "deaf xa" "rm_pending_event_xapp xa ev = Some xa'"
  shows "deaf xa' \<and> px_ev ev = E42_SETUP_REQUEST_PENDING_EVENT"
proof -
  obtain fd p where p: "bi_map_extract_right (xa_pending xa) ev = Some (fd, p)"
    "xa' = xa\<lparr>xa_pending := p, xa_fds := remove1 fd (xa_fds xa)\<rparr>"
    using assms(2) by (auto simp: rm_pending_event_xapp_def rm_pending_event_ev_def rm_fd_asio_xapp_def bind_Some_iff assert_c_def
        split: if_splits)
  then show ?thesis using no_answer_extract[of "xa_pending xa" ev fd p] assms(1) by (simp add: deaf_def)
qed

lemma deaf_send_setup:
  assumes "deaf xa" "send_setup_request timerfd xa = Some xa'"
  shows "deaf xa'"
proof -
  obtain sr p fd where p: "bi_map_insert (xa_pending xa) fd \<lparr>px_ev = E42_SETUP_REQUEST_PENDING_EVENT, px_id = no_id, px_wait_ms = 1000\<rparr> = Some p"
    "xa' = xa\<lparr>xa_sent := xa_sent xa @ [E42_stp_req sr], xa_fds := fd # xa_fds xa, xa_pending := p\<rparr>"
    using assms(2)
    by (auto simp: send_setup_request_def e2ap_handle_e42_setup_request_xapp_def add_pending_event_xapp_def Let_def
        create_timer_ms_asio_xapp_def add_fd_asio_xapp_def add_pending_event_def e2ap_send_bytes_xapp_def bind_Some_iff
        assert_c_def split: if_splits)
  then show ?thesis using no_answer_insert[OF _ _ p(1)] assms(1) by (simp add: deaf_def)
qed

lemma deaf_answer:
  assumes "deaf xa" "e \<noteq> E42_SETUP_REQUEST_PENDING_EVENT"
  shows "answer_proc xa r e = None"
proof -
  have "rm_pending_event_xapp (xa\<lparr>xa_act_proc := p\<rparr>) ev = None" if "px_ev ev = e" for p ev
    using deaf_rm_pending[of "xa\<lparr>xa_act_proc := p\<rparr>" ev] assms that
    by (cases "rm_pending_event_xapp (xa\<lparr>xa_act_proc := p\<rparr>) ev") auto
  then show ?thesis by (auto simp: answer_proc_def proc_of_def split: bind_splits)
qed

lemma deaf_setup_response:
  assumes "deaf xa" "msg_arrived_xapp timerfd xa (E42_stp_resp m) = Some xa'"
  shows "deaf xa'"
proof (cases "xa_connected xa")
  case True
  then show ?thesis using assms setup_response_connected[OF True] by simp
next
  case False
  then obtain reg x where x: "rm_pending_event_xapp (xa\<lparr>xa_id := e42_xapp_id m, xa_e2_nodes := reg\<rparr>)
        \<lparr>px_ev = E42_SETUP_REQUEST_PENDING_EVENT, px_id = no_id, px_wait_ms = 0\<rparr> = Some x"
    "xa' = x\<lparr>xa_connected := True\<rparr> \<or> (\<exists>y. send_setup_request timerfd x = Some y \<and> xa' = y\<lparr>xa_connected := False\<rparr>)"
    using assms(2)
    by (auto simp: msg_arrived_xapp_def e2ap_msg_handle_xapp_def check_valid_msg_type_xapp_def
        e2ap_handle_e42_setup_response_xapp_def Let_def bind_Some_iff split: if_splits)
  have "deaf x" using deaf_rm_pending[OF _ x(1)] assms(1) by simp
  then show ?thesis using x(2) deaf_send_setup by auto
qed

lemma deaf_indication:
  assumes "deaf xa" "msg_arrived_xapp timerfd xa (Ric_ind m) = Some xa'"
  shows "deaf xa'"
  using assms by (auto simp: msg_arrived_xapp_def e2ap_msg_handle_xapp_def check_valid_msg_type_xapp_def
      e2ap_handle_indication_xapp_def Let_def bind_Some_iff assert_c_def
      split: if_splits option.splits)

text \<open>The RIC does not send requests to an xApp.\<close>

fun no_request :: "xapp_input \<Rightarrow> bool" where
  "no_request (Loop fd (E42_ric_ctrl_req m)) \<longleftrightarrow> False"
| "no_request inp \<longleftrightarrow> True"

lemma other_messages:
  assumes "no_request (Loop fd msg)" "\<nexists>m. msg = Ric_ind m" "\<nexists>m. msg = E42_stp_resp m"
  shows "e2ap_msg_handle_xapp timerfd xa msg = None
    \<or> (\<exists>r e. e \<noteq> E42_SETUP_REQUEST_PENDING_EVENT \<and> e2ap_msg_handle_xapp timerfd xa msg = answer_proc xa r e)"
proof -
  have eq: "e2ap_msg_handle_xapp timerfd xa (Ric_sub_resp m1) = answer_proc xa (ric_req_id (sresp_ric_id m1)) E42_RIC_SUBSCRIPTION_REQUEST_PENDING_EVENT"
    "e2ap_msg_handle_xapp timerfd xa (Ric_sub_del_resp m2) = answer_proc xa (ric_req_id (sdresp_ric_id m2)) E42_RIC_SUBSCRIPTION_DELETE_REQUEST_PENDING_EVENT"
    "e2ap_msg_handle_xapp timerfd xa (Ric_ctrl_ack m3) = answer_proc xa (ric_req_id (ack_ric_id m3)) E42_RIC_CONTROL_REQUEST_PENDING_EVENT"
    "e2ap_msg_handle_xapp timerfd xa (Ric_ctrl_fail m4) = answer_proc xa (ric_req_id (cf_ric_id m4)) E42_RIC_CONTROL_REQUEST_PENDING_EVENT"
    for m1 m2 m3 m4
    by (simp_all add: e2ap_msg_handle_xapp_def check_valid_msg_type_xapp_def answer_proc_def Let_def
      e2ap_handle_subscription_response_xapp_def e2ap_handle_subscription_delete_response_xapp_def
      e2ap_handle_control_ack_xapp_def e2ap_handle_control_failure_xapp_def)
  show ?thesis
  proof (cases msg)
    case (Ric_sub_resp m)
    then show ?thesis by (simp add: eq) blast
  next
    case (Ric_sub_del_resp m)
    then show ?thesis by (simp add: eq) blast
  next
    case (Ric_ctrl_ack m)
    then show ?thesis by (simp add: eq) blast
  next
    case (Ric_ctrl_fail m)
    then show ?thesis by (simp add: eq) blast
  qed (use assms in \<open>auto simp: e2ap_msg_handle_xapp_def check_valid_msg_type_xapp_def\<close>)
qed

lemma deaf_message:
  assumes "deaf xa" "no_request (Loop fd msg)" "msg_arrived_xapp timerfd xa msg = Some xa'"
  shows "deaf xa'"
proof (cases "(\<exists>m. msg = Ric_ind m) \<or> (\<exists>m. msg = E42_stp_resp m)")
  case True
  then show ?thesis using deaf_indication deaf_setup_response assms by blast
next
  case False
  then have "e2ap_msg_handle_xapp timerfd xa msg = None"
    using other_messages[OF assms(2), of timerfd xa] deaf_answer[OF assms(1)] by auto
  then show ?thesis using assms(3) by (simp add: msg_arrived_xapp_def)
qed

lemma deaf_round:
  assumes "deaf xa" "no_request (Loop fd msg)" "xapp_round timerfd xa fd msg = Some xa'"
  shows "deaf xa'"
proof (cases "fd = -1")
  case True
  then show ?thesis using assms by (simp add: xapp_round_def)
next
  case False
  then obtain e where e: "find_event_type xa fd = Some e"
    "(case e of NETWORK_EVENT \<Rightarrow> msg_arrived_xapp timerfd xa msg | PENDING_EVENT_XAPP ev \<Rightarrow> timer_expired_xapp xa ev) = Some xa'"
    using assms(3) by (auto simp: xapp_round_def bind_Some_iff)
  show ?thesis
  proof (cases e)
    case NETWORK_EVENT
    then show ?thesis using e(2) deaf_message[OF assms(1,2)] by simp
  next
    case (PENDING_EVENT_XAPP ev)
    then show ?thesis
      using e(2) assms(1) by (auto simp: timer_expired_xapp_def bind_Some_iff e2ap_send_bytes_xapp_def assert_c_def split: if_splits)
  qed
qed

subsection \<open>The lost answer\<close>

definition in_vain :: "ui_op \<Rightarrow> sm_ans_xapp_t list \<Rightarrow> xapp_sys_t \<Rightarrow> bool" where
  "in_vain c ans z \<longleftrightarrow> z_ui z = Ui_blocked c \<and> z_ans z = ans \<and> deaf (z_xapp z)"

lemma in_vain_step:
  assumes "in_vain c ans z" "no_request inp" "xapp_step timerfd z inp = Some z'"
  shows "in_vain c ans z'"
proof (cases inp)
  case (Loop fd msg)
  then show ?thesis
    using assms deaf_round[of "z_xapp z" fd msg timerfd] by (auto simp: in_vain_def bind_Some_iff)
next
  case Worker
  then show ?thesis using assms by (auto simp: in_vain_def worker_thread_def bind_Some_iff split: list.splits)
qed (use assms in \<open>auto simp: in_vain_def cond_wait_leave_def deaf_def\<close>)

lemma in_vain_run:
  "in_vain c ans z \<Longrightarrow> list_all no_request inps \<Longrightarrow> xapp_run timerfd z inps = Some z' \<Longrightarrow> in_vain c ans z'"
  by (induction inps arbitrary: z) (auto simp: bind_Some_iff dest: in_vain_step)

lemma no_request_due:
  assumes "bm_ok cmp_fd cmp_pending_event_xapp (xa_pending xa)" "request_pends xa = {#}"
  shows "no_answer_due (xa_pending xa)"
proof -
  have "px_ev ev = E42_SETUP_REQUEST_PENDING_EVENT" if "(ev, fd) \<in> set (bm_right (xa_pending xa))" for ev fd
  proof (rule ccontr)
    assume "px_ev ev \<noteq> E42_SETUP_REQUEST_PENDING_EVENT"
    moreover have "(fd, ev) \<in># pends xa" using that assms(1) right_pairs[of "xa_pending xa"] by (simp add: bm_ok_def)
    ultimately have "(fd, ev) \<in># request_pends xa" by (simp add: request_pends_def)
    then show False using assms(2) by simp
  qed
  then show ?thesis using assms(1) by (auto simp: no_answer_due_def bm_ok_def)
qed

text \<open>C25: The lost wake-up.  When the answer to a call comes between the sending of the request and the
  wait of the user, the event loop takes it, but the wait that follows resets the flags: in every run
  from there in which the RIC sends no request, whatever messages arrive and whatever timers fire, the
  call does not return, and the end of the waiting time aborts the xApp.\<close>

theorem xapp_early_answer:
  assumes "xapp_inv z" "z_ui z = Ui_sent c" "answers_call c msg"
  shows "\<exists>z1. xapp_run timerfd z [Loop (xa_ep_fd (z_xapp z)) msg, Ui_continue] = Some z1 \<and> z_ui z1 = Ui_blocked c
    \<and> {z2. \<exists>inps. list_all no_request inps \<and> xapp_run timerfd z1 inps = Some z2}
        \<subseteq> {z2. z_ui z2 = Ui_blocked c \<and> z_ans z2 = z_ans z \<and> xapp_step timerfd z2 Ui_timeout = None}"
proof -
  have h: "xa_ok (z_xapp z)" "awaits (z_xapp z) c" "has_proc (z_xapp z) (op_key c)" using assms(1,2) by (auto simp: xapp_inv_def)
  obtain xa' where x: "msg_arrived_xapp timerfd (z_xapp z) msg = Some xa'" "xa_ok xa'" "request_pends xa' = {#}"
    using answer_ok[OF h assms(3), of timerfd] by blast
  let ?z1 = "z\<lparr>z_xapp := xa'\<lparr>xa_sync := (xa_sync xa')\<lparr>flag_sync := False, msg_ack := False\<rparr>\<rparr>, z_ui := Ui_blocked c\<rparr>"
  have run: "xapp_run timerfd z [Loop (xa_ep_fd (z_xapp z)) msg, Ui_continue] = Some ?z1"
    using x(1) xa_parts(9)[OF x(2)] assms(2) by (simp add: round_net[OF h(1)] cond_wait_enter_def)
  have "in_vain c (z_ans z) ?z1"
    using no_request_due[OF xa_parts(2)[OF x(2)] x(3)] by (simp add: in_vain_def deaf_def)
  from in_vain_run[OF this] have "z_ui z2 = Ui_blocked c \<and> z_ans z2 = z_ans z"
    if "list_all no_request inps" "xapp_run timerfd ?z1 inps = Some z2" for inps z2
    using that by (simp add: in_vain_def)
  then show ?thesis using run by (intro exI[of _ ?z1]) auto
qed

text \<open>The state after the report of the sample run.\<close>

definition sample_sent :: xapp_sys_t where
  "sample_sent = the (xapp_run max_fd sample_xa (take 2 sample_inputs))"

lemma sample_sent_ui: "z_ui sample_sent = Ui_sent (Op_report \<lparr>ric_req_id = 1, ric_inst_id = 0, ran_func_id = 2\<rparr>)"
  by code_simp

theorem xapp_early_answer_witness:
  "\<exists>z1. xapp_run max_fd sample_sent [Loop (xa_ep_fd (z_xapp sample_sent)) sample_answer, Ui_continue] = Some z1
    \<and> z_ui z1 = Ui_blocked (Op_report \<lparr>ric_req_id = 1, ric_inst_id = 0, ran_func_id = 2\<rparr>)
    \<and> {z2. \<exists>inps. list_all no_request inps \<and> xapp_run max_fd z1 inps = Some z2}
        \<subseteq> {z2. z_ui z2 = Ui_blocked (Op_report \<lparr>ric_req_id = 1, ric_inst_id = 0, ran_func_id = 2\<rparr>)
            \<and> z_ans z2 = z_ans sample_sent \<and> xapp_step max_fd z2 Ui_timeout = None}"
proof (rule xapp_early_answer[OF _ sample_sent_ui])
  have "xapp_inv sample_xa"
    using started_ok[OF max_fd_ok, of 3 "[(2, sample_sa)]" "[(2, sample_sm)]"] sample_xa_started
    by (auto simp: sms_ok_def sample_sa_def)
  moreover have "checked_run max_fd sample_xa (take 2 sample_inputs) \<noteq> None" by code_simp
  ultimately show "xapp_inv sample_sent"
    using run_served[OF _ max_fd_ok, of sample_xa "take 2 sample_inputs"] checked_keeps by (auto simp: sample_sent_def)
  show "answers_call (Op_report \<lparr>ric_req_id = 1, ric_inst_id = 0, ran_func_id = 2\<rparr>) sample_answer"
    by (simp add: sample_answer_def)
qed

end
