(* ===== verification/Net.thy ===== *)
theory Net
  imports Xapp_Properties Ric_Properties
begin

text \<open>
  An xApp, the RIC and the agent of an E2 node as one machine.  The associations between them
  deliver every message once and in order, as SCTP does; a message that a component has sent is
  under way until a step of the machine delivers it.
\<close>

subsection \<open>The machine\<close>

text \<open>Of each direction, how many messages were delivered; the addresses are what the RIC sees.\<close>

record net_t =
  n_xapp :: xapp_sys_t
  n_ric :: ric_sys_t
  n_agent :: e2_agent_t
  n_xaddr :: sctp_info_t
  n_naddr :: sctp_info_t
  n_up :: nat
  n_down :: nat
  n_e2_up :: nat
  n_e2_down :: nat

datatype net_event =
    Xapp_does xapp_input
  | Agent_does int "nat \<Rightarrow> byte_array_t"
  | Xapp_to_iapp
  | Ric_to_agent
  | Agent_to_ric
  | Iapp_to_xapp

fun net_step :: "(int list \<Rightarrow> int) \<Rightarrow> net_t \<Rightarrow> net_event \<Rightarrow> net_t option" where
  "net_step timerfd n (Xapp_does inp) =
     do { z \<leftarrow> xapp_step timerfd (n_xapp n) inp; Some (n\<lparr>n_xapp := z\<rparr>) }"
| "net_step timerfd n (Agent_does fd rd) =
     do { ag \<leftarrow> agent_round timerfd (n_agent n) fd Sctp_notification rd; Some (n\<lparr>n_agent := ag\<rparr>) }"
| "net_step timerfd n Xapp_to_iapp = do {
     m \<leftarrow> peek (xa_sent (z_xapp (n_xapp n))) (n_up n);
     s \<leftarrow> sctp_msg_arrived_iapp timerfd (n_ric n) (n_xaddr n) m;
     Some (n\<lparr>n_ric := s, n_up := n_up n + 1\<rparr>)
   }"
| "net_step timerfd n Ric_to_agent = do {
     (a, m) \<leftarrow> peek (r_sent (s_ric (n_ric n))) (n_e2_down n);
     assert_c (a = n_naddr n);
     ag \<leftarrow> msg_arrived_ag timerfd (n_agent n) m;
     Some (n\<lparr>n_agent := ag, n_e2_down := n_e2_down n + 1\<rparr>)
   }"
| "net_step timerfd n Agent_to_ric = do {
     m \<leftarrow> peek (g_sent (n_agent n)) (n_e2_up n);
     s \<leftarrow> sctp_msg_arrived_event timerfd (n_ric n) (n_naddr n) m;
     Some (n\<lparr>n_ric := s, n_e2_up := n_e2_up n + 1\<rparr>)
   }"
| "net_step timerfd n Iapp_to_xapp = do {
     (a, m) \<leftarrow> peek (i_sent (s_iapp (n_ric n))) (n_down n);
     assert_c (a = n_xaddr n);
     z \<leftarrow> xapp_step timerfd (n_xapp n) (Loop (xa_ep_fd (z_xapp (n_xapp n))) m);
     Some (n\<lparr>n_xapp := z, n_down := n_down n + 1\<rparr>)
   }"

fun net_run :: "(int list \<Rightarrow> int) \<Rightarrow> net_t \<Rightarrow> net_event list \<Rightarrow> net_t option" where
  "net_run timerfd n [] = Some n"
| "net_run timerfd n (e # es) = do { n \<leftarrow> net_step timerfd n e; net_run timerfd n es }"

lemma net_run_append: "net_run timerfd n (es @ fs) = do { n \<leftarrow> net_run timerfd n es; net_run timerfd n fs }"
  by (induction es arbitrary: n) (simp_all split: bind_splits)

text \<open>Nothing is under way.\<close>

definition all_delivered :: "net_t \<Rightarrow> bool" where
  "all_delivered n \<longleftrightarrow> n_up n = length (xa_sent (z_xapp (n_xapp n))) \<and> n_down n = length (i_sent (s_iapp (n_ric n)))
     \<and> n_e2_up n = length (g_sent (n_agent n)) \<and> n_e2_down n = length (r_sent (s_ric (n_ric n)))"

subsection \<open>The xApp\<close>

text \<open>The request of a report, under the identifier \<open>i\<close>.\<close>

definition report_request :: "ric_gen_id_t \<Rightarrow> sm_ric_t \<Rightarrow> byte_array_t \<Rightarrow> ric_subscription_request_t" where
  "report_request i sm data = \<lparr>sr_ric_id = i, event_trigger = sd_event_trigger (on_subscription sm data),
     sr_action = [\<lparr>act_id = 0, act_type = RIC_ACT_REPORT, act_definition = sd_action_def (on_subscription sm data),
                   subseq_action = None\<rparr>]\<rparr>"

definition same_queues :: "e42_xapp_t \<Rightarrow> e42_xapp_t \<Rightarrow> bool" where
  "same_queues xa xa' \<longleftrightarrow> xa_ep_fd xa' = xa_ep_fd xa \<and> xa_plugin_ric xa' = xa_plugin_ric xa
     \<and> xa_disp xa' = xa_disp xa \<and> xa_called xa' = xa_called xa"

lemma same_queues_trans: "same_queues xa xb \<Longrightarrow> same_queues xb xc \<Longrightarrow> same_queues xa xc"
  by (simp add: same_queues_def)

lemma plugin_ric_xapp_same: "xa_plugin_ric xa' = xa_plugin_ric xa \<Longrightarrow> sm_plugin_ric_xapp xa' i = sm_plugin_ric_xapp xa i"
  by (simp add: sm_plugin_ric_xapp_def)

lemma report_sent:
  assumes "xapp_inv z" "timerfd_ok timerfd" "z_ui z = Ui_idle" "call_ok (z_xapp z) (Report nid rfn data cb)"
    and "sm_plugin_ric_xapp (z_xapp z) (ucast rfn) = Some sm"
  defines "i \<equiv> new_id (z_xapp z) (ucast rfn)"
  shows "\<exists>z1. xapp_step timerfd z (Ui_call (Report nid rfn data cb)) = Some z1 \<and> xapp_inv z1
    \<and> z_ui z1 = Ui_sent (Op_report i) \<and> z_ans z1 = z_ans z \<and> same_queues (z_xapp z) (z_xapp z1)
    \<and> xa_sent (z_xapp z1) = xa_sent (z_xapp z) @ [E42_ric_sub_req \<lparr>esr_xapp_id = xa_id (z_xapp z), esr_id = nid,
        esr_sr = report_request i sm data\<rparr>]
    \<and> (ric_req_id i, new_proc RIC_SUBSCRIPTION_PROCEDURE_ACTIVE (ucast rfn) nid (Some cb)) \<in> set (procs (z_xapp z1))"
proof -
  have h: "xa_ok (z_xapp z)" "request_pends (z_xapp z) = {#}" using assms(1,3) by (auto simp: xapp_inv_def)
  obtain p m where s: "ui_start timerfd (z_xapp z) (Report nid rfn data cb) = Some ((z_xapp z)\<lparr>xa_act_proc := p,
        xa_fds := timerfd (xa_fds (z_xapp z)) # xa_fds (z_xapp z), xa_pending := m,
        xa_sent := xa_sent (z_xapp z) @ [E42_ric_sub_req \<lparr>esr_xapp_id = xa_id (z_xapp z), esr_id = nid,
          esr_sr = report_request i sm data\<rparr>]\<rparr>, Ui_sent (Op_report i))"
    "reg_entries p = procs (z_xapp z) @ [(new_key (z_xapp z), new_proc RIC_SUBSCRIPTION_PROCEDURE_ACTIVE (ucast rfn) nid (Some cb))]"
    using report_ok[OF h(1) assms(2) h(2) assms(4,5)] by (auto simp: report_request_def i_def)
  obtain z1 where z1: "xapp_step timerfd z (Ui_call (Report nid rfn data cb)) = Some z1" "xapp_inv z1"
    using step_served[OF assms(1,2), of "Ui_call (Report nid rfn data cb)"] assms(4) by auto
  have "ric_req_id i = new_key (z_xapp z)" by (simp add: i_def new_id_def)
  then show ?thesis using z1 s assms(3) by (auto simp: same_queues_def simp del: ui_start.simps)
qed

lemma wait_entered:
  assumes "xapp_inv z" "timerfd_ok timerfd" "z_ui z = Ui_sent c"
  shows "\<exists>z1. xapp_step timerfd z Ui_continue = Some z1 \<and> xapp_inv z1 \<and> z_ui z1 = Ui_blocked c
    \<and> \<not> flag_sync (xa_sync (z_xapp z1)) \<and> z_ans z1 = z_ans z \<and> same_queues (z_xapp z) (z_xapp z1)
    \<and> xa_sent (z_xapp z1) = xa_sent (z_xapp z) \<and> procs (z_xapp z1) = procs (z_xapp z)"
proof -
  have "0 < sy_wait_ms (xa_sync (z_xapp z))" using assms(1) xa_parts(9) by (auto simp: xapp_inv_def)
  moreover obtain z1 where "xapp_step timerfd z Ui_continue = Some z1" "xapp_inv z1"
    using step_served[OF assms(1,2), of Ui_continue] by auto
  ultimately show ?thesis using assms(3) by (auto simp: cond_wait_enter_def same_queues_def)
qed

lemma answer_received:
  assumes "xapp_inv z" "timerfd_ok timerfd" "z_ui z = Ui_blocked (Op_report i)" "\<not> flag_sync (xa_sync (z_xapp z))"
    and "answers_call (Op_report i) msg"
  shows "\<exists>z1 z2. xapp_step timerfd z (Loop (xa_ep_fd (z_xapp z)) msg) = Some z1 \<and> xapp_step timerfd z1 Ui_continue = Some z2
    \<and> xapp_inv z2 \<and> z_ui z2 = Ui_idle \<and> z_ans z2 = z_ans z @ [\<lparr>ans_success = True, ans_handle = uint (ric_req_id i)\<rparr>]
    \<and> same_queues (z_xapp z) (z_xapp z2) \<and> xa_sent (z_xapp z2) = xa_sent (z_xapp z)
    \<and> procs (z_xapp z2) = number_proc (ric_req_id i) (procs (z_xapp z))"
proof -
  have h: "xa_ok (z_xapp z)" "awaits (z_xapp z) (Op_report i)" "has_proc (z_xapp z) (op_key (Op_report i))"
    using assms(1,3,4) by (auto simp: xapp_inv_def)
  obtain xa where x: "msg_arrived_xapp timerfd (z_xapp z) msg = Some xa" "flag_sync (xa_sync xa)" "msg_ack (xa_sync xa)"
    "procs xa = number_proc (ric_req_id i) (procs (z_xapp z))" "xa_sent xa = xa_sent (z_xapp z)"
    "same_queues (z_xapp z) xa"
    using answer_ok[OF h assms(5), of timerfd] by (auto simp: same_queues_def)
  let ?z1 = "z\<lparr>z_xapp := xa\<rparr>"
  have s1: "xapp_step timerfd z (Loop (xa_ep_fd (z_xapp z)) msg) = Some ?z1" using x(1) by (simp add: round_net[OF h(1)])
  have "xapp_inv ?z1" using answer_served[OF assms(1,3,4,5), of timerfd] x(1) by simp
  then obtain z2 where z2: "xapp_step timerfd ?z1 Ui_continue = Some z2" "xapp_inv z2"
    using step_served[OF _ assms(2), of ?z1 Ui_continue] by auto
  have "z2 = ?z1\<lparr>z_ui := Ui_idle, z_ans := z_ans z @ [\<lparr>ans_success = True, ans_handle = uint (ric_req_id i)\<rparr>]\<rparr>"
    using z2(1) x(2,3) assms(3) by (simp add: cond_wait_leave_def)
  then show ?thesis using s1 z2 x(4-6) by (intro exI[of _ ?z1] exI[of _ z2]) simp
qed

lemma indication_called:
  assumes "xapp_inv z" "ind_ok (z_xapp z) m" "(ric_req_id (ind_ric_id m), v) \<in> set (procs (z_xapp z))"
    and "sm_plugin_ric_xapp (z_xapp z) (ran_func_id (ind_ric_id m)) = Some sm" "ap_sm_cb v = Some cb" "xa_disp (z_xapp z) = []"
  defines "rd \<equiv> on_indication sm \<lparr>id_ind_hdr = ind_hdr m, id_ind_msg = ind_msg m, id_call_process_id = ind_call_process_id m\<rparr>"
  shows "\<exists>z1 z2. xapp_step timerfd z (Loop (xa_ep_fd (z_xapp z)) (Ric_ind m)) = Some z1 \<and> xapp_step timerfd z1 Worker = Some z2
    \<and> xa_called (z_xapp z2) = xa_called (z_xapp z) @ [(cb, rd)] \<and> z_ui z2 = z_ui z \<and> z_ans z2 = z_ans z"
proof -
  have ok: "xa_ok (z_xapp z)" using assms(1) by (simp add: xapp_inv_def)
  obtain p where p: "msg_arrived_xapp timerfd (z_xapp z) (Ric_ind m) = Some ((z_xapp z)\<lparr>xa_act_proc := p,
        xa_db := xa_db (z_xapp z) @ [(ap_e2_node v, rd)], xa_disp := xa_disp (z_xapp z) @ [\<lparr>md_rd = rd, md_sm_cb = ap_sm_cb v\<rparr>]\<rparr>)"
    using indication_known[OF ok assms(2,3,4), of timerfd] by (auto simp: rd_def)
  then show ?thesis using assms(5,6) by (simp add: round_net[OF ok] worker_thread_def)
qed

text \<open>A call for a report up to the wait.\<close>

lemma report_waits:
  assumes "xapp_inv z" "timerfd_ok timerfd" "z_ui z = Ui_idle" "call_ok (z_xapp z) (Report nid rfn data cb)"
    and "sm_plugin_ric_xapp (z_xapp z) (ucast rfn) = Some sm"
  defines "i \<equiv> new_id (z_xapp z) (ucast rfn)"
  shows "\<exists>z1 z2. xapp_step timerfd z (Ui_call (Report nid rfn data cb)) = Some z1 \<and> xapp_step timerfd z1 Ui_continue = Some z2
    \<and> xapp_inv z2 \<and> z_ui z2 = Ui_blocked (Op_report i) \<and> \<not> flag_sync (xa_sync (z_xapp z2)) \<and> z_ans z2 = z_ans z
    \<and> same_queues (z_xapp z) (z_xapp z2)
    \<and> xa_sent (z_xapp z2) = xa_sent (z_xapp z) @ [E42_ric_sub_req \<lparr>esr_xapp_id = xa_id (z_xapp z), esr_id = nid,
        esr_sr = report_request i sm data\<rparr>]
    \<and> (ric_req_id i, new_proc RIC_SUBSCRIPTION_PROCEDURE_ACTIVE (ucast rfn) nid (Some cb)) \<in> set (procs (z_xapp z2))"
proof -
  obtain z1 where z1: "xapp_step timerfd z (Ui_call (Report nid rfn data cb)) = Some z1" "xapp_inv z1"
    "z_ui z1 = Ui_sent (Op_report i)" "z_ans z1 = z_ans z" "same_queues (z_xapp z) (z_xapp z1)"
    "xa_sent (z_xapp z1) = xa_sent (z_xapp z) @ [E42_ric_sub_req \<lparr>esr_xapp_id = xa_id (z_xapp z), esr_id = nid,
        esr_sr = report_request i sm data\<rparr>]"
    "(ric_req_id i, new_proc RIC_SUBSCRIPTION_PROCEDURE_ACTIVE (ucast rfn) nid (Some cb)) \<in> set (procs (z_xapp z1))"
    using report_sent[OF assms(1-5)] by (auto simp: i_def)
  obtain z2 where z2: "xapp_step timerfd z1 Ui_continue = Some z2" "xapp_inv z2" "z_ui z2 = Ui_blocked (Op_report i)"
    "\<not> flag_sync (xa_sync (z_xapp z2))" "z_ans z2 = z_ans z1" "same_queues (z_xapp z1) (z_xapp z2)"
    "xa_sent (z_xapp z2) = xa_sent (z_xapp z1)" "procs (z_xapp z2) = procs (z_xapp z1)"
    using wait_entered[OF z1(2) assms(2) z1(3)] by blast
  show ?thesis using z1 z2 same_queues_trans[OF z1(5) z2(6)] by (intro exI[of _ z1] exI[of _ z2]) simp
qed

lemma procs_unique:
  assumes "xa_ok xa" "(k, v) \<in> set (procs xa)" "(k, w) \<in> set (procs xa)"
  shows "v = w"
proof -
  have inv: "reg_inv (xa_act_proc xa)" using xa_parts(1)[OF assms(1)] by (simp add: proc_reg_ok_def)
  have len: "length (procs xa) = length (live_idx (xa_act_proc xa))" by (simp add: reg_entries_def length_alive[OF inv])
  obtain a b where ab: "a < length (procs xa)" "procs xa ! a = (k, v)" "b < length (procs xa)" "procs xa ! b = (k, w)"
    using assms(2,3) by (auto simp: in_set_conv_nth)
  then have "a = b"
    using entries_distinct[OF inv, of a b] entries_distinct[OF inv, of b a] len by (cases a b rule: linorder_cases) auto
  then show ?thesis using ab by simp
qed

text \<open>An indication for a report whose service model the xApp knows respects the contract.\<close>

lemma report_ind_ok:
  assumes "xa_ok xa" "(ric_req_id (ind_ric_id m), v) \<in> set (procs xa)" "ap_type v = RIC_SUBSCRIPTION_PROCEDURE_ACTIVE"
    and "sm_plugin_ric_xapp xa (ran_func_id (ind_ric_id m)) = Some sm" "ind_call_process_id m \<noteq> Some []"
    and "rd_type (on_indication sm \<lparr>id_ind_hdr = ind_hdr m, id_ind_msg = ind_msg m, id_call_process_id = ind_call_process_id m\<rparr>)
           \<notin> {TC_STATS_V0, SM_AGENT_IF_READ_V0_END}"
  shows "ind_ok xa m"
proof -
  have "\<forall>(k, w) \<in> set (procs xa). k = ric_req_id (ind_ric_id m) \<longrightarrow> ap_type w = RIC_SUBSCRIPTION_PROCEDURE_ACTIVE"
    using procs_unique[OF assms(1,2)] assms(3) by auto
  then show ?thesis using assms(4-6) xa_parts(10)[OF assms(1,2)] by (simp add: ind_ok_def)
qed

subsection \<open>The RIC\<close>

definition same_plugins :: "ric_sys_t \<Rightarrow> ric_sys_t \<Rightarrow> bool" where
  "same_plugins s s' \<longleftrightarrow> r_sm_ds (s_ric s') = r_sm_ds (s_ric s) \<and> r_pub_sub (s_ric s') = r_pub_sub (s_ric s)"

lemma plugin_ric_same: "same_plugins s s' \<Longrightarrow> sm_plugin_ric (s_ric s') i = sm_plugin_ric (s_ric s) i"
  by (simp add: same_plugins_def sm_plugin_ric_def)

lemma request_forwarded:
  fixes s q
  defines "g \<equiv> (sr_ric_id (esr_sr q))\<lparr>ric_req_id := r_req_id (s_ric s)\<rparr>"
    and "x \<equiv> \<lparr>x_ric_id = sr_ric_id (esr_sr q), x_xapp_id = esr_xapp_id q\<rparr>"
  assumes "sys_inv s" "timerfd_ok timerfd" "r_req_id (s_ric s) < 65536"
    and "ucast (esr_xapp_id q) \<le> i_xapp_id (s_iapp s)" "(esr_xapp_id q, b) \<in># bm_pairs (i_xapps (s_iapp s))"
    and "(esr_id q, a) \<in># bm_pairs (r_e2_nodes (s_ric s))" "length (i_e2_nodes (s_iapp s)) < 256"
    and "\<forall>(n, y) \<in># bm_pairs (i_map_ric_id (s_iapp s)). y \<noteq> x"
  shows "\<exists>s' n. sctp_msg_arrived_iapp timerfd s from (E42_ric_sub_req q) = Some s'
    \<and> r_sent (s_ric s') = r_sent (s_ric s) @ [(a, Ric_sub_req ((esr_sr q)\<lparr>sr_ric_id := g\<rparr>))]
    \<and> i_sent (s_iapp s') = i_sent (s_iapp s) \<and> same_plugins s s' \<and> ric_inv (s_ric s')
    \<and> \<lparr>pe_ev = SUBSCRIPTION_REQUEST_PENDING_EVENT, pe_id = g\<rparr> \<in> pending_evs (s_ric s')
    \<and> routes (s_iapp s') (ric_req_id g) n x b"
proof -
  have ids: "ids_ok s" "sad_ok (i_xapps (s_iapp s))" using assms(3) by (auto simp: sys_inv_def)
  note fresh = fresh_request[OF ids(1) assms(5)]
  have g: "ric_req_id g = r_req_id (s_ric s)" by (simp add: g_def)
  let ?n = "\<lparr>er_node = esr_id q, er_ric_id = g, er_type = SUBSCRIPTION_RIC_REQUEST_TYPE\<rparr>"
  obtain s' where s': "sctp_msg_arrived_iapp timerfd s from (E42_ric_sub_req q) = Some s'"
    "issued timerfd SUBSCRIPTION_REQUEST_PENDING_EVENT ?n x a (Ric_sub_req ((esr_sr q)\<lparr>sr_ric_id := g\<rparr>)) s s'"
    using subscription_request_issued[OF assms(3,4) _ _ assms(6,8,9), of "from"] fresh(5) fresh(3)[of g] g assms(10)
    unfolding g_def x_def fresh(1) by blast
  obtain m where m: "s_iapp s' = (s_iapp s)\<lparr>i_map_ric_id := m\<rparr>" "map_ok m"
    "bm_pairs m = add_mset (?n, x) (bm_pairs (i_map_ric_id (s_iapp s)))"
    "requested timerfd \<lparr>pe_ev = SUBSCRIPTION_REQUEST_PENDING_EVENT, pe_id = g\<rparr> a (Ric_sub_req ((esr_sr q)\<lparr>sr_ric_id := g\<rparr>)) (s_ric s) (s_ric s')"
    using s'(2) by (auto simp: issued_def)
  have "routes (s_iapp s') (ric_req_id g) ?n x b"
    using m(1,2,3) ids(2) g fresh(2) assms(5,7) by (simp add: routes_def x_def)
  moreover have "\<lparr>pe_ev = SUBSCRIPTION_REQUEST_PENDING_EVENT, pe_id = g\<rparr> \<in> pending_evs (s_ric s')"
    using requested_pending[OF m(4)] by simp
  ultimately show ?thesis using s'(1) m(1,4)
    by (intro exI[of _ s'] exI[of _ ?n]) (simp add: requested_def same_plugins_def)
qed

lemma response_routed:
  assumes "ric_inv (s_ric s)" "\<lparr>pe_ev = SUBSCRIPTION_REQUEST_PENDING_EVENT, pe_id = g\<rparr> \<in> pending_evs (s_ric s)"
    and "routes (s_iapp s) (ric_req_id g) n x b" "same_function g x"
  shows "\<exists>s'. sctp_msg_arrived_event timerfd s from (Ric_sub_resp (generate_subscription_response g 0)) = Some s'
    \<and> i_sent (s_iapp s') = i_sent (s_iapp s) @ [(b, Ric_sub_resp (generate_subscription_response (x_ric_id x) 0))]
    \<and> r_sent (s_ric s') = r_sent (s_ric s) \<and> same_plugins s s' \<and> routes (s_iapp s') (ric_req_id g) n x b"
proof -
  let ?m = "generate_subscription_response g 0"
  have r: "routes (s_iapp s) (ric_req_id (sresp_ric_id ?m)) n x b" "same_function (sresp_ric_id ?m) x"
    using assms(3,4) by (simp_all add: generate_subscription_response_def)
  obtain ric' where ric': "stop_pending_event (s_ric s) \<lparr>pe_ev = SUBSCRIPTION_REQUEST_PENDING_EVENT, pe_id = g\<rparr> = Some ric'"
    "stopped \<lparr>pe_ev = SUBSCRIPTION_REQUEST_PENDING_EVENT, pe_id = g\<rparr> (s_ric s) ric'"
    using stop_pending_event_ok[OF assms(1,2)] by blast
  let ?s' = "\<lparr>s_ric = ric', s_iapp = e2ap_send_sctp_msg_iapp (s_iapp s) b (Ric_sub_resp (?m\<lparr>sresp_ric_id := x_ric_id x\<rparr>))\<rparr>"
  have "sctp_msg_arrived_event timerfd s from (Ric_sub_resp ?m) = Some ?s'"
    using ric'(1) subscription_response_iapp_ok[OF r]
    by (simp add: sctp_msg_arrived_event_def e2ap_msg_handle_ric_def check_valid_msg_type_ric_def
        e2ap_handle_subscription_response_ric_def notify_simps Let_def generate_subscription_response_def)
  moreover have "r_sm_ds ric' = r_sm_ds (s_ric s)" "r_pub_sub ric' = r_pub_sub (s_ric s)" "r_sent ric' = r_sent (s_ric s)"
    using ric'(2) by (auto simp: stopped_def)
  ultimately show ?thesis using assms(3)
    by (intro exI[of _ ?s'])
      (simp add: same_plugins_def e2ap_send_sctp_msg_iapp_def generate_subscription_response_def routes_def)
qed

lemma indication_routed:
  assumes "sm_plugin_ric (s_ric s) (ran_func_id (ind_ric_id m)) = Some sm"
    and "rd_type (on_indication sm \<lparr>id_ind_hdr = ind_hdr m, id_ind_msg = ind_msg m,
        id_call_process_id = ind_call_process_id m\<rparr>) \<noteq> SM_AGENT_IF_READ_V0_END"
    and "ran_func_id (ind_ric_id m) \<in> fst ` set (r_pub_sub (s_ric s))"
    and "routes (s_iapp s) (ric_req_id (ind_ric_id m)) n x b" "same_function (ind_ric_id m) x"
  shows "\<exists>s'. sctp_msg_arrived_event timerfd s from (Ric_ind m) = Some s'
    \<and> i_sent (s_iapp s') = i_sent (s_iapp s) @ [(b, Ric_ind (m\<lparr>ind_ric_id := x_ric_id x\<rparr>))]"
proof -
  let ?d = "on_indication sm \<lparr>id_ind_hdr = ind_hdr m, id_ind_msg = ind_msg m, id_call_process_id = ind_call_process_id m\<rparr>"
  obtain k subs rest where ps: "r_pub_sub (s_ric s) = (k, subs) # rest" using assms(3) by (cases "r_pub_sub (s_ric s)") auto
  have "entries_find_if (eq_ran_func_id (ran_func_id (ind_ric_id m))) (r_pub_sub (s_ric s)) \<noteq> None"
    using assms(3) unfolding entries_find_if_None by (force simp: eq_ran_func_id_def)
  then have "publish_ind_msg (s_ric s) (ran_func_id (ind_ric_id m)) ?d =
      Some ((s_ric s)\<lparr>r_published := r_published (s_ric s) @ map (\<lambda>l. (subs_name l, ?d)) subs\<rparr>)"
    using ps by (simp add: publish_ind_msg_def)
  then show ?thesis
    using assms(1,2) ric_indication_iapp_ok[OF assms(4,5)]
    by (auto simp: sctp_msg_arrived_event_def e2ap_msg_handle_ric_def check_valid_msg_type_ric_def
        e2ap_handle_indication_ric_def notify_simps Let_def e2ap_send_sctp_msg_iapp_def)
qed

subsection \<open>The agent\<close>

lemma subscription_served:
  assumes "ag_inv ag" "timerfd_ok timerfd" "sub_req_ok ag sm sr"
    and "sa_on_subscription sm (generate_sm_subs_data sr) = Periodic_ans t" "-1 < t_ms t" "t_ms t < 10001"
    and "sa_on_indication sm (rd 0) (t_act_def t) = Some d"
  shows "\<exists>ag1 ag2. msg_arrived_ag timerfd ag (Ric_sub_req sr) = Some ag1 \<and> g_sent ag1 = g_sent ag @ [sub_resp sr]
    \<and> agent_round timerfd ag1 (gained timerfd ag) rcv rd = Some ag2
    \<and> g_sent ag2 = g_sent ag1 @ [Ric_ind \<lparr>ind_ric_id = sr_ric_id sr, ind_action_id = act_id (hd (sr_action sr)), ind_sn = None,
        ind_type = RIC_IND_REPORT, ind_hdr = id_ind_hdr d, ind_msg = id_ind_msg d, ind_call_process_id = id_call_process_id d\<rparr>]"
proof -
  let ?fd = "gained timerfd ag" and ?ev = "sub_event sm sr (PERIODIC_SUBSCRIPTION_FLRC (t_act_def t))"
  obtain m where m: "e2ap_handle_subscription_request_agent timerfd ag sr
      = Some (sub_resp sr, ag\<lparr>g_fds := ?fd # g_fds ag, g_ind_event := m\<rparr>)"
    "ag_inv (ag\<lparr>g_fds := ?fd # g_fds ag, g_ind_event := m\<rparr>)" "bm_pairs m = add_mset (?fd, ?ev) (subs ag)"
    using subscribe_periodic[OF assms(1-6)] by blast
  define ag1 where "ag1 = ag\<lparr>g_fds := ?fd # g_fds ag, g_ind_event := m, g_sent := g_sent ag @ [sub_resp sr]\<rparr>"
  have "ag_inv ag1" "(?fd, ?ev) \<in># subs ag1" "0 < ?fd" using m(2,3) create_timer_ok(2)[OF assms(2), of 0] by (simp_all add: ag1_def)
  then have "next_async_event_agent ag1 ?fd rcv = Some (INDICATION_EVENT ?fd ?ev, ag1)" by (rule periodic_event)
  then have "agent_round timerfd ag1 ?fd rcv rd = Some (e2ap_send_bytes_agent ag1 (Ric_ind (generate_indication d ?ev)))"
    using assms(7) by (simp add: agent_round_def periodic_indication_def sub_event_def)
  moreover have "msg_arrived_ag timerfd ag (Ric_sub_req sr) = Some ag1"
    using m(1) by (simp add: msg_arrived_ag_def e2ap_msg_handle_agent_def check_valid_msg_type_agent_def
        e2ap_send_bytes_agent_def ag1_def)
  ultimately show ?thesis
    by (intro exI[of _ ag1] exI[of _ "e2ap_send_bytes_agent ag1 (Ric_ind (generate_indication d ?ev))"])
      (simp add: ag1_def generate_indication_def sub_event_def e2ap_send_bytes_agent_def)
qed

end
