(* ===== verification/End_To_End.thy ===== *)
theory End_To_End
  imports Net Ric_Witnesses
begin

text \<open>
  A report from end to end: the call of a user of the xApp library becomes a subscription at the E2
  node, and what the service model of the node reads comes back to the callback of that user.
\<close>

text \<open>The xApp is registered at the RIC, the node is connected, and nothing is under way.\<close>

definition linked :: "net_t \<Rightarrow> global_e2_node_id_t \<Rightarrow> u16 \<Rightarrow> bool" where
  "linked n nid rfid \<longleftrightarrow> (let xa = z_xapp (n_xapp n); s = n_ric n in
     xapp_inv (n_xapp n) \<and> z_ui (n_xapp n) = Ui_idle \<and> xa_disp xa = []
     \<and> sys_inv s \<and> r_req_id (s_ric s) < 65536 \<and> ucast (xa_id xa) \<le> i_xapp_id (s_iapp s)
     \<and> (xa_id xa, n_xaddr n) \<in># bm_pairs (i_xapps (s_iapp s)) \<and> (nid, n_naddr n) \<in># bm_pairs (r_e2_nodes (s_ric s))
     \<and> (\<forall>(m, y) \<in># bm_pairs (i_map_ric_id (s_iapp s)). y \<noteq> \<lparr>x_ric_id = new_id xa rfid, x_xapp_id = xa_id xa\<rparr>)
     \<and> length (i_e2_nodes (s_iapp s)) < 256 \<and> rfid \<in> fst ` set (r_pub_sub (s_ric s))
     \<and> ag_inv (n_agent n) \<and> (\<forall>p \<in># subs (n_agent n). ric_req_id (iv_ric_id (snd p)) \<noteq> r_req_id (s_ric s))
     \<and> all_delivered n)"

lemmas linkedD = linked_def [THEN iffD1, unfolded Let_def]

text \<open>The call up to its return, and one period of the report.\<close>

definition call_events :: "ui_call \<Rightarrow> net_event list" where
  "call_events c = [Xapp_does (Ui_call c), Xapp_does Ui_continue, Xapp_to_iapp, Ric_to_agent, Agent_to_ric, Iapp_to_xapp,
     Xapp_does Ui_continue]"

definition period_events :: "int \<Rightarrow> (nat \<Rightarrow> byte_array_t) \<Rightarrow> net_event list" where
  "period_events fd rd = [Agent_does fd rd, Agent_to_ric, Iapp_to_xapp, Xapp_does Worker]"

text \<open>The identifier that the RIC gives to the request.\<close>

definition ric_number :: "net_t \<Rightarrow> u16 \<Rightarrow> ric_gen_id_t" where
  "ric_number n rfid = (new_id (z_xapp (n_xapp n)) rfid)\<lparr>ric_req_id := r_req_id (s_ric (n_ric n))\<rparr>"

definition node_ind :: "ric_gen_id_t \<Rightarrow> sm_ind_data_t \<Rightarrow> ric_indication_t" where
  "node_ind k d = \<lparr>ind_ric_id = k, ind_action_id = 0, ind_sn = None, ind_type = RIC_IND_REPORT, ind_hdr = id_ind_hdr d,
     ind_msg = id_ind_msg d, ind_call_process_id = id_call_process_id d\<rparr>"

lemma node_ind_simps [simp]:
  "ind_ric_id (node_ind k d) = k" "ind_call_process_id (node_ind k d) = id_call_process_id d"
  "(node_ind k d)\<lparr>ind_ric_id := j\<rparr> = node_ind j d"
  "\<lparr>id_ind_hdr = ind_hdr (node_ind k d), id_ind_msg = ind_msg (node_ind k d), id_call_process_id = id_call_process_id d\<rparr> = d"
  by (simp_all add: node_ind_def)

text \<open>The report \<open>i\<close> is active: the RIC routes the number \<open>g\<close> to it, the xApp knows its callback.\<close>

definition report_active :: "net_t \<Rightarrow> ric_gen_id_t \<Rightarrow> ric_gen_id_t \<Rightarrow> sm_cb \<Rightarrow> bool" where
  "report_active n g i cb \<longleftrightarrow> xapp_inv (n_xapp n) \<and> xa_disp (z_xapp (n_xapp n)) = []
     \<and> (\<exists>v. (ric_req_id i, v) \<in> set (procs (z_xapp (n_xapp n))) \<and> ap_type v = RIC_SUBSCRIPTION_PROCEDURE_ACTIVE \<and> ap_sm_cb v = Some cb)
     \<and> (\<exists>m x. routes (s_iapp (n_ric n)) (ric_req_id g) m x (n_xaddr n) \<and> same_function g x \<and> x_ric_id x = i)
     \<and> n_down n = length (i_sent (s_iapp (n_ric n))) \<and> n_e2_up n = length (g_sent (n_agent n))"

text \<open>The call returns with an active report, and the timer of the agent yields an indication.\<close>

lemma report_answered:
  assumes "timerfd_ok timerfd" "linked n nid (ucast rfn)" "call_ok (z_xapp (n_xapp n)) (Report nid rfn data cb)"
    and "sm_plugin_ric_xapp (z_xapp (n_xapp n)) (ucast rfn) = Some xsm" "sm_plugin_ag (n_agent n) (ucast rfn) = Some sa"
    and "sa_on_subscription sa (generate_sm_subs_data (report_request (ric_number n (ucast rfn)) xsm data)) = Periodic_ans t"
    and "-1 < t_ms t" "t_ms t < 10001" "sa_on_indication sa (rd 0) (t_act_def t) = Some d"
  defines "i \<equiv> new_id (z_xapp (n_xapp n)) (ucast rfn)" and "g \<equiv> ric_number n (ucast rfn)"
  shows "\<exists>n1 ag2. net_run timerfd n (call_events (Report nid rfn data cb)) = Some n1 \<and> report_active n1 g i cb
    \<and> z_ui (n_xapp n1) = Ui_idle
    \<and> z_ans (n_xapp n1) = z_ans (n_xapp n) @ [\<lparr>ans_success = True, ans_handle = uint (ric_req_id i)\<rparr>]
    \<and> same_queues (z_xapp (n_xapp n)) (z_xapp (n_xapp n1)) \<and> same_plugins (n_ric n) (n_ric n1)
    \<and> agent_round timerfd (n_agent n1) (gained timerfd (n_agent n)) Sctp_notification rd = Some ag2
    \<and> g_sent ag2 = g_sent (n_agent n1) @ [Ric_ind (node_ind g d)]"
proof -
  define z s ag rf where "z = n_xapp n" "s = n_ric n" "ag = n_agent n" "rf = (ucast rfn :: u16)"
  note d = this
  note l = linkedD[OF assms(2), folded d]
  have dg: "i = new_id (z_xapp z) rf" "g = i\<lparr>ric_req_id := r_req_id (s_ric s)\<rparr>"
    by (simp_all add: i_def g_def ric_number_def d)
  let ?q = "\<lparr>esr_xapp_id = xa_id (z_xapp z), esr_id = nid, esr_sr = report_request i xsm data\<rparr>"
  let ?x = "\<lparr>x_ric_id = i, x_xapp_id = xa_id (z_xapp z)\<rparr>"
  have i: "ric_req_id i = new_key (z_xapp z)" "ran_func_id i = rf" "ric_inst_id i = 0" by (simp_all add: dg new_id_def)
  have g: "ric_req_id g = r_req_id (s_ric s)" "ran_func_id g = rf" "ric_inst_id g = 0" "same_function g ?x"
    using i by (simp_all add: dg same_function_def)
  obtain z1 z2 where z: "xapp_step timerfd z (Ui_call (Report nid rfn data cb)) = Some z1" "xapp_step timerfd z1 Ui_continue = Some z2"
    "xapp_inv z2" "z_ui z2 = Ui_blocked (Op_report i)" "\<not> flag_sync (xa_sync (z_xapp z2))" "z_ans z2 = z_ans z"
    "same_queues (z_xapp z) (z_xapp z2)" "xa_sent (z_xapp z2) = xa_sent (z_xapp z) @ [E42_ric_sub_req ?q]"
    "(ric_req_id i, new_proc RIC_SUBSCRIPTION_PROCEDURE_ACTIVE rf nid (Some cb)) \<in> set (procs (z_xapp z2))"
    using report_waits[of z timerfd nid rfn data cb xsm] l assms(1,3,4) by (auto simp: dg d)
  have q: "(report_request i xsm data)\<lparr>sr_ric_id := g\<rparr> = report_request g xsm data" "sr_ric_id (report_request k xsm data) = k"
    "act_id (hd (sr_action (report_request k xsm data))) = 0" for k by (simp_all add: report_request_def)
  obtain s1 m where s1: "sctp_msg_arrived_iapp timerfd s (n_xaddr n) (E42_ric_sub_req ?q) = Some s1"
    "r_sent (s_ric s1) = r_sent (s_ric s) @ [(n_naddr n, Ric_sub_req (report_request g xsm data))]" "i_sent (s_iapp s1) = i_sent (s_iapp s)"
    "same_plugins s s1" "ric_inv (s_ric s1)" "\<lparr>pe_ev = SUBSCRIPTION_REQUEST_PENDING_EVENT, pe_id = g\<rparr> \<in> pending_evs (s_ric s1)"
    "routes (s_iapp s1) (ric_req_id g) m ?x (n_xaddr n)"
    using request_forwarded[of s timerfd ?q "n_xaddr n" "n_naddr n" "n_xaddr n"] l assms(1)
    by (auto simp: q(2) q(1)[unfolded dg] dg)
  have "1021 \<le> unat (r_req_id (s_ric s))" "unat (r_req_id (s_ric s)) < 65536"
    using l by (auto simp: sys_inv_def ids_ok_def word_le_nat_alt word_less_nat_alt)
  then have sr: "sub_req_ok ag sa (report_request g xsm data)"
    using l assms(5) g by (auto simp: sub_req_ok_def report_request_def d)
  obtain ag1 ag2 where ag: "msg_arrived_ag timerfd ag (Ric_sub_req (report_request g xsm data)) = Some ag1"
    "g_sent ag1 = g_sent ag @ [Ric_sub_resp (generate_subscription_response g 0)]"
    "agent_round timerfd ag1 (gained timerfd ag) Sctp_notification rd = Some ag2" "g_sent ag2 = g_sent ag1 @ [Ric_ind (node_ind g d)]"
    using subscription_served[OF _ assms(1) sr, of t rd d Sctp_notification] l assms(6-9)
    by (auto simp: q ric_number_def dg d node_ind_def)
  obtain s2 where s2: "sctp_msg_arrived_event timerfd s1 (n_naddr n) (Ric_sub_resp (generate_subscription_response g 0)) = Some s2"
    "i_sent (s_iapp s2) = i_sent (s_iapp s1) @ [(n_xaddr n, Ric_sub_resp (generate_subscription_response i 0))]"
    "same_plugins s1 s2" "routes (s_iapp s2) (ric_req_id g) m ?x (n_xaddr n)"
    using response_routed[OF s1(5-7) g(4), of timerfd "n_naddr n"] by auto
  have a: "answers_call (Op_report i) (Ric_sub_resp (generate_subscription_response i 0))" by (simp add: generate_subscription_response_def)
  obtain z3 z4 where z4: "xapp_step timerfd z2 (Loop (xa_ep_fd (z_xapp z2)) (Ric_sub_resp (generate_subscription_response i 0))) = Some z3"
    "xapp_step timerfd z3 Ui_continue = Some z4" "xapp_inv z4" "z_ui z4 = Ui_idle"
    "z_ans z4 = z_ans z2 @ [\<lparr>ans_success = True, ans_handle = uint (ric_req_id i)\<rparr>]" "same_queues (z_xapp z2) (z_xapp z4)"
    "procs (z_xapp z4) = number_proc (ric_req_id i) (procs (z_xapp z2))"
    using answer_received[OF z(3) assms(1) z(4,5) a] by blast
  let ?v = "numbered (ric_req_id i) (new_proc RIC_SUBSCRIPTION_PROCEDURE_ACTIVE rf nid (Some cb))"
  have "(ric_req_id i, ?v) \<in> set (procs (z_xapp z4))" using z(9) unfolding z4(7) by (force simp: number_proc_def)
  moreover have "ap_type ?v = RIC_SUBSCRIPTION_PROCEDURE_ACTIVE" "ap_sm_cb ?v = Some cb" by (simp_all add: numbered_def new_proc_def)
  ultimately have v: "\<exists>v. (ric_req_id i, v) \<in> set (procs (z_xapp z4)) \<and> ap_type v = RIC_SUBSCRIPTION_PROCEDURE_ACTIVE \<and> ap_sm_cb v = Some cb"
    by blast
  have rt: "\<exists>m x. routes (s_iapp s2) (ric_req_id g) m x (n_xaddr n) \<and> same_function g x \<and> x_ric_id x = i"
    using s2(4) g(4) by (intro exI[of _ m] exI[of _ ?x]) simp
  have sq: "same_queues (z_xapp z) (z_xapp z4)" by (rule same_queues_trans[OF z(7) z4(6)])
  have del: "n_up n = length (xa_sent (z_xapp z))" "n_down n = length (i_sent (s_iapp s))" "n_e2_up n = length (g_sent ag)"
    "n_e2_down n = length (r_sent (s_ric s))" using l by (auto simp: all_delivered_def d)
  let ?n1 = "n\<lparr>n_xapp := z4, n_ric := s2, n_agent := ag1, n_up := n_up n + 1, n_down := n_down n + 1,
      n_e2_up := n_e2_up n + 1, n_e2_down := n_e2_down n + 1\<rparr>"
  have run: "net_run timerfd n (call_events (Report nid rfn data cb)) = Some ?n1"
    using z(1,2,8) s1(1-3) ag(1,2) s2(1,2) z4(1,2) del
    by (simp add: call_events_def d[symmetric] peek_def nth_append del: xapp_step.simps)
  have "report_active ?n1 g i cb"
    using v rt z4(3) s2(2) s1(3) ag(2) del l sq by (simp add: report_active_def same_queues_def)
  moreover have "same_plugins s s2" using s1(4) s2(3) by (simp add: same_plugins_def)
  ultimately show ?thesis using run z4(4,5) z(6) ag(3,4) sq
    by (intro exI[of _ ?n1] exI[of _ ag2]) (simp add: d[symmetric])
qed

text \<open>A period of an active report calls the callback.\<close>

lemma period_reported:
  assumes "report_active n g i cb" "agent_round timerfd (n_agent n) fd Sctp_notification rd = Some ag2"
    and "g_sent ag2 = g_sent (n_agent n) @ [Ric_ind (node_ind g d)]"
    and "sm_plugin_ric_xapp (z_xapp (n_xapp n)) (ran_func_id i) = Some xsm" "sm_plugin_ric (s_ric (n_ric n)) (ran_func_id g) = Some rsm"
    and "ran_func_id g \<in> fst ` set (r_pub_sub (s_ric (n_ric n)))" "id_call_process_id d \<noteq> Some []"
    and "rd_type (on_indication xsm d) \<notin> {TC_STATS_V0, SM_AGENT_IF_READ_V0_END}" "rd_type (on_indication rsm d) \<noteq> SM_AGENT_IF_READ_V0_END"
  shows "\<exists>n'. net_run timerfd n (period_events fd rd) = Some n' \<and> z_ui (n_xapp n') = z_ui (n_xapp n)
    \<and> z_ans (n_xapp n') = z_ans (n_xapp n)
    \<and> xa_called (z_xapp (n_xapp n')) = xa_called (z_xapp (n_xapp n)) @ [(cb, on_indication xsm d)]"
proof -
  let ?z = "n_xapp n"
  obtain v m x where a: "xapp_inv ?z" "xa_disp (z_xapp ?z) = []" "(ric_req_id i, v) \<in> set (procs (z_xapp ?z))"
    "ap_type v = RIC_SUBSCRIPTION_PROCEDURE_ACTIVE" "ap_sm_cb v = Some cb"
    "routes (s_iapp (n_ric n)) (ric_req_id g) m x (n_xaddr n)" "same_function g x" "x_ric_id x = i"
    "n_down n = length (i_sent (s_iapp (n_ric n)))" "n_e2_up n = length (g_sent (n_agent n))"
    using assms(1) by (auto simp: report_active_def)
  obtain s3 where s3: "sctp_msg_arrived_event timerfd (n_ric n) (n_naddr n) (Ric_ind (node_ind g d)) = Some s3"
    "i_sent (s_iapp s3) = i_sent (s_iapp (n_ric n)) @ [(n_xaddr n, Ric_ind (node_ind i d))]"
    using indication_routed[of "n_ric n" "node_ind g d" rsm m x "n_xaddr n" timerfd "n_naddr n"] assms(5,6,9) a(6-8) by auto
  have "ind_ok (z_xapp ?z) (node_ind i d)"
    using report_ind_ok[of "z_xapp ?z" "node_ind i d" v xsm] a(1,3,4) assms(4,7,8) by (simp add: xapp_inv_def)
  then obtain z5 z6 where z6: "xapp_step timerfd ?z (Loop (xa_ep_fd (z_xapp ?z)) (Ric_ind (node_ind i d))) = Some z5"
    "xapp_step timerfd z5 Worker = Some z6" "xa_called (z_xapp z6) = xa_called (z_xapp ?z) @ [(cb, on_indication xsm d)]"
    "z_ui z6 = z_ui ?z" "z_ans z6 = z_ans ?z"
    using indication_called[of ?z "node_ind i d" v xsm cb timerfd] a(1-3,5) assms(4) by auto
  have "\<exists>n'. net_run timerfd n (period_events fd rd) = Some n' \<and> n_xapp n' = z6"
    using assms(2,3) a(9,10) s3 z6(1,2) by (simp add: period_events_def peek_def nth_append del: xapp_step.simps)
  then show ?thesis using z6(3-5) by auto
qed

text \<open>C2: From end to end.  A user calls the library for a report of a connected E2 node, one of fewer
  than 256, whose service model answers with a period; the messages are delivered one by one.  Then the call returns with
  success and the handle, and when the timer that the agent started fires, the callback that the user
  gave is called once, with what the service model of the xApp decodes from what the service model of
  the node encoded.\<close>

theorem report_end_to_end:
  assumes "timerfd_ok timerfd" "linked n nid (ucast rfn)" "call_ok (z_xapp (n_xapp n)) (Report nid rfn data cb)"
    and "sm_plugin_ric_xapp (z_xapp (n_xapp n)) (ucast rfn) = Some xsm" "sm_plugin_ric (s_ric (n_ric n)) (ucast rfn) = Some rsm"
    and "sm_plugin_ag (n_agent n) (ucast rfn) = Some sa"
    and "sa_on_subscription sa (generate_sm_subs_data (report_request (ric_number n (ucast rfn)) xsm data)) = Periodic_ans t"
    and "-1 < t_ms t" "t_ms t < 10001" "sa_on_indication sa (rd 0) (t_act_def t) = Some d" "id_call_process_id d \<noteq> Some []"
    and "rd_type (on_indication xsm d) \<notin> {TC_STATS_V0, SM_AGENT_IF_READ_V0_END}"
    and "rd_type (on_indication rsm d) \<noteq> SM_AGENT_IF_READ_V0_END"
  shows "\<exists>n'. net_run timerfd n (call_events (Report nid rfn data cb) @ period_events (gained timerfd (n_agent n)) rd) = Some n'
    \<and> z_ui (n_xapp n') = Ui_idle
    \<and> z_ans (n_xapp n') = z_ans (n_xapp n) @ [\<lparr>ans_success = True, ans_handle = uint (new_key (z_xapp (n_xapp n)))\<rparr>]
    \<and> xa_called (z_xapp (n_xapp n')) = xa_called (z_xapp (n_xapp n)) @ [(cb, on_indication xsm d)]"
proof -
  let ?rf = "ucast rfn :: u16"
  obtain n1 ag2 where n1: "net_run timerfd n (call_events (Report nid rfn data cb)) = Some n1"
    "report_active n1 (ric_number n ?rf) (new_id (z_xapp (n_xapp n)) ?rf) cb" "z_ui (n_xapp n1) = Ui_idle"
    "z_ans (n_xapp n1) = z_ans (n_xapp n) @ [\<lparr>ans_success = True, ans_handle = uint (new_key (z_xapp (n_xapp n)))\<rparr>]"
    "same_queues (z_xapp (n_xapp n)) (z_xapp (n_xapp n1))" "same_plugins (n_ric n) (n_ric n1)"
    "agent_round timerfd (n_agent n1) (gained timerfd (n_agent n)) Sctp_notification rd = Some ag2"
    "g_sent ag2 = g_sent (n_agent n1) @ [Ric_ind (node_ind (ric_number n ?rf) d)]"
    using report_answered[where rd = rd, OF assms(1-4,6-10)] by (auto simp: new_id_def)
  have f: "ran_func_id (new_id (z_xapp (n_xapp n)) ?rf) = ?rf" "ran_func_id (ric_number n ?rf) = ?rf"
    by (simp_all add: new_id_def ric_number_def)
  have xs: "sm_plugin_ric_xapp (z_xapp (n_xapp n1)) ?rf = Some xsm"
    using assms(4) n1(5) plugin_ric_xapp_same[of "z_xapp (n_xapp n1)" "z_xapp (n_xapp n)"] by (simp add: same_queues_def)
  have rs: "sm_plugin_ric (s_ric (n_ric n1)) ?rf = Some rsm" "?rf \<in> fst ` set (r_pub_sub (s_ric (n_ric n1)))"
    using assms(5) plugin_ric_same[OF n1(6)] linkedD[OF assms(2)] n1(6) by (auto simp: same_plugins_def)
  from period_reported[OF n1(2,7,8), unfolded f, OF xs rs assms(11-13)] n1(1,3-5) show ?thesis
    by (auto simp: net_run_append same_queues_def)
qed

subsection \<open>A concrete network\<close>

text \<open>The sample xApp after its setup, the RIC after the setups of the node and of the xApp, and the sample
  agent.\<close>

definition sample_z :: xapp_sys_t where
  "sample_z = the (xapp_run max_fd sample_xa (take 1 sample_inputs))"

definition sample_net :: net_t where
  "sample_net = \<lparr>n_xapp = sample_z, n_ric = after 2, n_agent = sample_ag, n_xaddr = xapp_addr, n_naddr = e2_addr,
     n_up = length (xa_sent (z_xapp sample_z)), n_down = length (i_sent (s_iapp (after 2))),
     n_e2_up = length (g_sent sample_ag), n_e2_down = length (r_sent (s_ric (after 2)))\<rparr>"

lemma sample_z_inv: "xapp_inv sample_z"
proof -
  have "xapp_inv sample_xa"
    using started_ok[OF max_fd_ok, of 3 "[(2, sample_sa)]" "[(2, sample_sm)]"] sample_xa_started
    by (auto simp: sms_ok_def sample_sa_def)
  moreover have "checked_run max_fd sample_xa (take 1 sample_inputs) \<noteq> None" by code_simp
  ultimately show ?thesis
    using run_served[OF _ max_fd_ok, of sample_xa "take 1 sample_inputs"] checked_keeps by (auto simp: sample_z_def)
qed

lemma sample_z_facts:
  "z_ui sample_z = Ui_idle" "xa_disp (z_xapp sample_z) = []" "xa_id (z_xapp sample_z) = 7"
  "call_ok (z_xapp sample_z) (Report sample_node 2 [1, 2] 99)"
  "sm_plugin_ric_xapp (z_xapp sample_z) 2 \<noteq> None"
  "on_indication (the (sm_plugin_ric_xapp (z_xapp sample_z) 2)) \<lparr>id_ind_hdr = [], id_ind_msg = [9], id_call_process_id = None\<rparr>
     = \<lparr>rd_type = MAC_STATS_V0, rd_data = [9]\<rparr>"
  by code_simp+

lemma sample_ric_facts:
  "map fst (r_pub_sub (s_ric (after 2))) = [2]" "sm_plugin_ric (s_ric (after 2)) 2 \<noteq> None"
  "rd_type (on_indication (the (sm_plugin_ric (s_ric (after 2)) 2))
     \<lparr>id_ind_hdr = [], id_ind_msg = [9], id_call_process_id = None\<rparr>) = MAC_STATS_V0"
  by code_simp+

lemma sample_linked: "linked sample_net sample_node 2"
proof -
  have "(7, xapp_addr) \<in># bm_pairs (i_xapps (s_iapp (after 2)))" using after_maps(1) by (simp add: list_all_iff bm_pairs_def)
  moreover have "2 \<in> fst ` set (r_pub_sub (s_ric (after 2)))" using arg_cong[OF sample_ric_facts(1), of set] by force
  ultimately show ?thesis
    using sample_z_inv sample_z_facts(1-3) after_inv[of 2] after_counters(1,2) after_2(1,2,5) sample_ag_ok(1,3)
    by (simp add: linked_def sample_net_def all_delivered_def)
qed

theorem report_end_to_end_witness:
  "\<exists>n'. net_run max_fd sample_net (call_events (Report sample_node 2 [1, 2] 99) @ period_events (gained max_fd sample_ag) (\<lambda>k. [9])) = Some n'
    \<and> z_ui (n_xapp n') = Ui_idle
    \<and> z_ans (n_xapp n') = z_ans sample_z @ [\<lparr>ans_success = True, ans_handle = uint (new_key (z_xapp sample_z))\<rparr>]
    \<and> xa_called (z_xapp (n_xapp n')) = xa_called (z_xapp sample_z) @ [(99, \<lparr>rd_type = MAC_STATS_V0, rd_data = [9]\<rparr>)]"
proof -
  let ?d = "\<lparr>id_ind_hdr = [], id_ind_msg = [9], id_call_process_id = None\<rparr>"
  obtain xsm rsm where sm: "sm_plugin_ric_xapp (z_xapp sample_z) 2 = Some xsm" "sm_plugin_ric (s_ric (after 2)) 2 = Some rsm"
    using sample_z_facts(5) sample_ric_facts(2) by blast
  have sa: "sm_plugin_ag sample_ag 2 = Some sample_sa"
    using sample_ag_ok(4) by (simp add: sm_plugin_ag_def eq_ran_func_id_def sample_sa_def)
  have n: "n_xapp sample_net = sample_z" "n_ric sample_net = after 2" "n_agent sample_net = sample_ag" by (simp_all add: sample_net_def)
  show ?thesis
    using report_end_to_end[of max_fd sample_net sample_node 2 "[1, 2]" 99 xsm rsm sample_sa "\<lparr>t_ms = 10, t_act_def = None\<rparr>" "\<lambda>k. [9]" ?d]
      max_fd_ok sample_linked sample_z_facts(4,6) sample_ric_facts(3) sm sa by (simp add: n sample_sa_def)
qed

end
