(* ===== verification/Task_Man.thy ===== *)
theory Task_Man
  imports Tsn_Queue "HOL-Library.Multiset"
begin

text \<open>
  The work-stealing pool of threads of
  \<^verbatim>\<open>src/src/flexric/src/util/alg_ds/ds/task_man/task_manager.c\<close>, on which the RIC handles every
  message that arrives (\<^verbatim>\<open>near_ric.c\<close>, \<^verbatim>\<open>e2_event_loop_ric\<close>).

  The file has a copy of its own of the ring buffer, which differs from \<open>Seq_Ring\<close> only in the
  initial capacity; the operations of that theory are used here.  A critical section is one
  step.  Whether \<^verbatim>\<open>pthread_mutex_trylock\<close> finds the mutex taken depends on the other threads: it
  is an argument \<open>busy\<close> of the functions that call it, and the theorems hold for every choice.  A
  thread in \<^verbatim>\<open>pthread_cond_wait\<close> is \<open>Asleep\<close>, and \<^verbatim>\<open>pthread_cond_signal\<close>, which comes after the
  mutex was given back, is a step of its own.
\<close>

subsection \<open>Tasks and their notification queues\<close>

text \<open>A pointer is its address; a slot of the ring holds the 16 bytes of the struct.\<close>

record task_t =
  t_args :: u64
  t_func :: u64

definition task_bytes :: "task_t \<Rightarrow> u8 list" where
  "task_bytes t = put_u64 (t_args t) @ put_u64 (t_func t)"

definition task_of_bytes :: "u8 list \<Rightarrow> task_t" where
  "task_of_bytes bs = \<lparr>t_args = of_le (take 8 bs), t_func = of_le (take 8 (drop 8 bs))\<rparr>"

record not_q_t =
  nq_r :: seq_ring_t
  nq_done :: int

text \<open>\<open>rt_t\<close> is the part of the array \<^verbatim>\<open>t\<close> below \<^verbatim>\<open>len\<close>; nothing reads beyond it.\<close>

record ret_try_t =
  rt_t :: "task_t list"
  rt_success :: bool

definition tm_ring_init :: "nat \<Rightarrow> seq_ring_t" where
  "tm_ring_init sz = \<lparr>r_elt_size = sz, r_array = replicate 32768 (zero_slot sz), r_cap = 32768,
     r_head = 0, r_tail = 0\<rparr>"

definition init_not_q :: not_q_t where
  "init_not_q = \<lparr>nq_r = tm_ring_init 16, nq_done = 0\<rparr>"

text \<open>The tasks that \<^verbatim>\<open>clean\<close> is called on; none without a \<^verbatim>\<open>clean\<close>.\<close>

definition free_not_q :: "bool \<Rightarrow> not_q_t \<Rightarrow> task_t list option" where
  "free_not_q clean q = do {
     assert_c (nq_done q = 1);
     if clean then do {
       bs \<leftarrow> seq_ring_free (nq_r q);
       Some (map task_of_bytes bs)
     } else Some []
   }"

definition push_task :: "not_q_t \<Rightarrow> task_t \<Rightarrow> not_q_t option" where
  "push_task q t = do {
     r \<leftarrow> seq_ring_push_back (nq_r q) (task_bytes t) 16;
     Some (q\<lparr>nq_r := r\<rparr>)
   }"

definition try_push_not_q :: "bool \<Rightarrow> not_q_t \<Rightarrow> task_t \<Rightarrow> (not_q_t \<times> bool) option" where
  "try_push_not_q busy q t = do {
     assert_c (nq_done q = 0 \<or> nq_done q = 1);
     assert_c (t_func t \<noteq> 0);
     assert_c (t_args t \<noteq> 0);
     if busy then Some (q, False)
     else do {
       q \<leftarrow> push_task q t;
       Some (q, True)
     }
   }"

definition push_not_q :: "not_q_t \<Rightarrow> task_t \<Rightarrow> not_q_t option" where
  "push_not_q q t = do {
     assert_c (nq_done q = 0 \<or> nq_done q = 1);
     assert_c (t_func t \<noteq> 0);
     push_task q t
   }"

fun copy_tasks :: "(nat \<Rightarrow> bool) \<Rightarrow> seq_ring_t \<Rightarrow> nat \<Rightarrow> nat \<Rightarrow> task_t list option" where
  "copy_tasks chk r i 0 = Some []"
| "copy_tasks chk r i (Suc n) = do {
     let it = seq_ring_at r (of_nat i);
     assert_c (chk it);
     b \<leftarrow> peek (r_array r) it;
     ts \<leftarrow> copy_tasks chk r (Suc i) n;
     Some (task_of_bytes b # ts)
   }"

definition batch_len :: "nat \<Rightarrow> nat" where
  "batch_len sz = (if sz < 4096 then sz else 4096)"

definition try_pop_not_q :: "bool \<Rightarrow> not_q_t \<Rightarrow> (not_q_t \<times> ret_try_t) option" where
  "try_pop_not_q busy q =
     (if busy then Some (q, \<lparr>rt_t = [], rt_success = False\<rparr>)
      else do {
        assert_c (nq_done q = 0 \<or> nq_done q = 1);
        let sz = seq_ring_size (nq_r q);
        if sz = 0 then Some (q, \<lparr>rt_t = [], rt_success = False\<rparr>)
        else do {
          let len = batch_len sz;
          ts \<leftarrow> copy_tasks (\<lambda>_. True) (nq_r q) 0 len;
          r \<leftarrow> seq_ring_erase (nq_r q) (seq_ring_front (nq_r q)) (seq_ring_at (nq_r q) (of_nat len));
          assert_c (sz = len + seq_ring_size r);
          Some (q\<lparr>nq_r := r\<rparr>, \<lparr>rt_t = ts, rt_success = True\<rparr>)
        }
      })"

text \<open>\<open>Pop_wait\<close>: the thread goes to sleep on the condition variable and takes the critical section
  again when it wakes up; \<open>Pop_null\<close>: the result is \<^verbatim>\<open>false\<close>.\<close>

definition pop_not_q :: "not_q_t \<Rightarrow> (not_q_t \<times> task_t list pop_result) option" where
  "pop_not_q q = do {
     assert_c (nq_done q = 0 \<or> nq_done q = 1);
     if seq_ring_size (nq_r q) = 0 \<and> nq_done q = 0 then Some (q, Pop_wait)
     else if nq_done q = 1 then Some (q, Pop_null)
     else do {
       let len = batch_len (seq_ring_size (nq_r q));
       ts \<leftarrow> copy_tasks (\<lambda>it. it \<noteq> seq_ring_end (nq_r q)) (nq_r q) 0 len;
       r \<leftarrow> seq_ring_erase (nq_r q) (seq_ring_front (nq_r q)) (seq_ring_at (nq_r q) (of_nat len));
       Some (q\<lparr>nq_r := r\<rparr>, Pop_elm ts)
     }
   }"

definition done_not_q :: "not_q_t \<Rightarrow> not_q_t" where
  "done_not_q q = q\<lparr>nq_done := 1\<rparr>"

subsection \<open>The threads\<close>

record task_manager_t =
  q_arr :: "not_q_t list"
  len_thr :: nat
  tm_index :: u64

text \<open>
  Where a worker is: at the top of the loop over all queues with counter \<^verbatim>\<open>i\<close>, before the critical
  section of \<^verbatim>\<open>pop_not_q\<close> on its own queue, in \<^verbatim>\<open>pthread_cond_wait\<close>, before the call of the first of the
  tasks it has taken, or gone.
\<close>

datatype worker = Scan nat | Pop_own | Asleep | Run "task_t list" | Exited

definition worker_thread_tm :: "task_manager_t \<Rightarrow> nat \<Rightarrow> worker \<Rightarrow> bool
    \<Rightarrow> (task_manager_t \<times> worker \<times> task_t list) option" where
  "worker_thread_tm man idx w busy = (case w of
     Scan i \<Rightarrow>
       (let num_it = 3 * (len_thr man + idx) in
        if i < num_it then do {
          let k = i mod len_thr man;
          q \<leftarrow> peek (q_arr man) k;
          (q, ret) \<leftarrow> try_pop_not_q busy q;
          let man = man\<lparr>q_arr := (q_arr man)[k := q]\<rparr>;
          if rt_success ret then Some (man, Run (rt_t ret), [])
          else Some (man, Scan (i + 1), [])
        } else Some (man, Pop_own, []))
   | Pop_own \<Rightarrow> do {
       q \<leftarrow> peek (q_arr man) idx;
       (q, p) \<leftarrow> pop_not_q q;
       let man = man\<lparr>q_arr := (q_arr man)[idx := q]\<rparr>;
       Some (man, (case p of Pop_wait \<Rightarrow> Asleep | Pop_null \<Rightarrow> Exited | Pop_elm ts \<Rightarrow> Run ts), [])
     }
   | Run (t # ts) \<Rightarrow> Some (man, Run ts, [t])
   | Run [] \<Rightarrow> Some (man, Scan idx, [])
   | Asleep \<Rightarrow> Some (man, Asleep, [])
   | Exited \<Rightarrow> Some (man, Exited, []))"

text \<open>A client is outside of \<^verbatim>\<open>async_task_manager\<close>, in its loop, or before the signal of a queue.\<close>

datatype tm_client = Outside | Trying u64 nat task_t | Signalling nat

definition async_start :: "task_manager_t \<Rightarrow> task_t \<Rightarrow> (task_manager_t \<times> tm_client) option" where
  "async_start man t = do {
     assert_c (len_thr man > 0);
     assert_c (t_func t \<noteq> 0);
     Some (man\<lparr>tm_index := tm_index man + 1\<rparr>, Trying (tm_index man) 0 t)
   }"

definition async_queue :: "task_manager_t \<Rightarrow> u64 \<Rightarrow> nat \<Rightarrow> nat" where
  "async_queue man index i = unat ((of_nat i :: u64) + index) mod len_thr man"

definition async_loop :: "task_manager_t \<Rightarrow> u64 \<Rightarrow> nat \<Rightarrow> task_t \<Rightarrow> bool
    \<Rightarrow> (task_manager_t \<times> tm_client) option" where
  "async_loop man index i t busy =
     (if i < len_thr man then do {
        let k = async_queue man index i;
        q \<leftarrow> peek (q_arr man) k;
        (q, pushed) \<leftarrow> try_push_not_q busy q t;
        let man = man\<lparr>q_arr := (q_arr man)[k := q]\<rparr>;
        Some (man, if pushed then Signalling k else Trying index (i + 1) t)
      } else do {
        let k = unat index mod len_thr man;
        q \<leftarrow> peek (q_arr man) k;
        q \<leftarrow> push_not_q q t;
        Some (man\<lparr>q_arr := (q_arr man)[k := q]\<rparr>, Signalling k)
      })"

definition init_task_manager :: "nat \<Rightarrow> task_manager_t option" where
  "init_task_manager num_threads = do {
     assert_c (num_threads > 0 \<and> num_threads < 33);
     Some \<lparr>q_arr = replicate num_threads init_not_q, len_thr = num_threads, tm_index = 0\<rparr>
   }"

text \<open>
  \<^verbatim>\<open>free_task_manager\<close>: not called yet, before raising the flag of queue \<open>i\<close>, before its signal, in
  the join of thread \<open>i\<close>, before freeing queue \<open>i\<close>, or returned.
\<close>

datatype closing = Opened | Done_at nat | Done_signal nat | Join_at nat | Free_at nat | Freed

subsection \<open>The pool as a machine\<close>

text \<open>
  \<open>tm_submitted\<close>, \<open>tm_ran\<close> and \<open>tm_cleaned\<close> record the calls of \<^verbatim>\<open>async_task_manager\<close>, of the tasks and
  of \<^verbatim>\<open>clean\<close>; \<open>tm_left\<close> what a queue held when it was freed.
\<close>

record tm_sys =
  tm_man :: task_manager_t
  tm_workers :: "worker list"
  tm_clients :: "tm_client list"
  tm_closing :: closing
  tm_clean :: bool
  tm_submitted :: "task_t list"
  tm_ran :: "task_t list"
  tm_left :: "task_t list"
  tm_cleaned :: "task_t list"

definition init_tm_sys :: "nat \<Rightarrow> nat \<Rightarrow> tm_sys option" where
  "init_tm_sys num_threads clients = do {
     man \<leftarrow> init_task_manager num_threads;
     Some \<lparr>tm_man = man, tm_workers = map Scan [0..<num_threads], tm_clients = replicate clients Outside,
       tm_closing = Opened, tm_clean = False, tm_submitted = [], tm_ran = [], tm_left = [],
       tm_cleaned = []\<rparr>
   }"

definition wake :: "nat \<Rightarrow> worker list \<Rightarrow> worker list" where
  "wake k ws = (if k < length ws \<and> ws ! k = Asleep then ws[k := Pop_own] else ws)"

datatype tm_event =
    Call nat task_t
  | Client nat bool
  | Work nat bool
  | Spurious nat
  | Close bool
  | Closer

text \<open>
  What can happen next.  The clients keep the contract of the interface: no call is under way when
  \<^verbatim>\<open>free_task_manager\<close> is called, and none comes later.
\<close>

fun tm_enabled :: "tm_sys \<Rightarrow> tm_event \<Rightarrow> bool" where
  "tm_enabled s (Call c t) \<longleftrightarrow> c < length (tm_clients s) \<and> tm_clients s ! c = Outside \<and> tm_closing s = Opened"
| "tm_enabled s (Client c busy) \<longleftrightarrow> c < length (tm_clients s) \<and> tm_clients s ! c \<noteq> Outside"
| "tm_enabled s (Work w busy) \<longleftrightarrow> w < length (tm_workers s) \<and> tm_workers s ! w \<notin> {Asleep, Exited}"
| "tm_enabled s (Spurious w) \<longleftrightarrow> w < length (tm_workers s) \<and> tm_workers s ! w = Asleep"
| "tm_enabled s (Close clean) \<longleftrightarrow> tm_closing s = Opened \<and> list_all (\<lambda>c. c = Outside) (tm_clients s)"
| "tm_enabled s Closer \<longleftrightarrow> (case tm_closing s of
     Opened \<Rightarrow> False
   | Join_at i \<Rightarrow> i < length (tm_workers s) \<longrightarrow> tm_workers s ! i = Exited
   | Freed \<Rightarrow> False
   | _ \<Rightarrow> True)"

definition client_step :: "tm_sys \<Rightarrow> nat \<Rightarrow> bool \<Rightarrow> tm_sys option" where
  "client_step s c busy = (case tm_clients s ! c of
     Outside \<Rightarrow> Some s
   | Trying index i t \<Rightarrow> do {
       (man, p) \<leftarrow> async_loop (tm_man s) index i t busy;
       Some (s\<lparr>tm_man := man, tm_clients := (tm_clients s)[c := p]\<rparr>)
     }
   | Signalling k \<Rightarrow> Some (s\<lparr>tm_workers := wake k (tm_workers s), tm_clients := (tm_clients s)[c := Outside]\<rparr>))"

definition free_task_manager :: "tm_sys \<Rightarrow> tm_sys option" where
  "free_task_manager s = (let man = tm_man s in case tm_closing s of
     Opened \<Rightarrow> Some s
   | Done_at i \<Rightarrow>
       if i < len_thr man then do {
         q \<leftarrow> peek (q_arr man) i;
         Some (s\<lparr>tm_man := man\<lparr>q_arr := (q_arr man)[i := done_not_q q]\<rparr>, tm_closing := Done_signal i\<rparr>)
       } else Some (s\<lparr>tm_closing := Join_at 0\<rparr>)
   | Done_signal i \<Rightarrow> Some (s\<lparr>tm_workers := wake i (tm_workers s), tm_closing := Done_at (i + 1)\<rparr>)
   | Join_at i \<Rightarrow>
       if i < len_thr man then Some (s\<lparr>tm_closing := Join_at (i + 1)\<rparr>)
       else Some (s\<lparr>tm_closing := Free_at 0\<rparr>)
   | Free_at i \<Rightarrow>
       if i < len_thr man then do {
         q \<leftarrow> peek (q_arr man) i;
         cs \<leftarrow> free_not_q (tm_clean s) q;
         Some (s\<lparr>tm_closing := Free_at (i + 1), tm_cleaned := tm_cleaned s @ cs,
                 tm_left := tm_left s @ map task_of_bytes (ring_elems (nq_r q))\<rparr>)
       } else Some (s\<lparr>tm_closing := Freed\<rparr>)
   | Freed \<Rightarrow> Some s)"

fun tm_exec :: "tm_sys \<Rightarrow> tm_event \<Rightarrow> tm_sys option" where
  "tm_exec s (Call c t) = do {
     (man, p) \<leftarrow> async_start (tm_man s) t;
     Some (s\<lparr>tm_man := man, tm_clients := (tm_clients s)[c := p], tm_submitted := tm_submitted s @ [t]\<rparr>)
   }"
| "tm_exec s (Client c busy) = client_step s c busy"
| "tm_exec s (Work w busy) = do {
     (man, p, out) \<leftarrow> worker_thread_tm (tm_man s) w (tm_workers s ! w) busy;
     Some (s\<lparr>tm_man := man, tm_workers := (tm_workers s)[w := p], tm_ran := tm_ran s @ out\<rparr>)
   }"
| "tm_exec s (Spurious w) = Some (s\<lparr>tm_workers := wake w (tm_workers s)\<rparr>)"
| "tm_exec s (Close clean) = Some (s\<lparr>tm_closing := Done_at 0, tm_clean := clean\<rparr>)"
| "tm_exec s Closer = free_task_manager s"

inductive tm_run :: "tm_sys \<Rightarrow> tm_event list \<Rightarrow> tm_sys \<Rightarrow> bool" where
  nil: "tm_run s [] s"
| snoc: "tm_run s evs s' \<Longrightarrow> tm_enabled s' ev \<Longrightarrow> tm_exec s' ev = Some s'' \<Longrightarrow> tm_run s (evs @ [ev]) s''"

end
