(* ===== verification/Task_Man_Laws.thy ===== *)
theory Task_Man_Laws
  imports Task_Man
begin

text \<open>
  The law of each operation of the pool of \<open>Task_Man\<close>, and its invariant: where every task that was
  submitted is, which flags are raised, and who will wake a sleeping worker.
\<close>

subsection \<open>Tasks in memory\<close>

lemma length_task_bytes [simp]: "length (task_bytes t) = 16"
  by (simp add: task_bytes_def)

lemma task_bytes_inverse [simp]: "task_of_bytes (task_bytes t) = t"
  by (simp add: task_bytes_def task_of_bytes_def of_le_put_le)

subsection \<open>The queues\<close>

definition nq_inv :: "not_q_t \<Rightarrow> bool" where
  "nq_inv q \<longleftrightarrow> ring_inv (nq_r q) \<and> r_elt_size (nq_r q) = 16 \<and> nq_done q \<in> {0, 1}"

definition nq_tasks :: "not_q_t \<Rightarrow> task_t list" where
  "nq_tasks q = map task_of_bytes (ring_elems (nq_r q))"

lemma length_nq_tasks [simp]: "length (nq_tasks q) = seq_ring_size (nq_r q)"
  by (simp add: nq_tasks_def)

lemma init_not_q_laws [simp]: "nq_inv init_not_q" "nq_tasks init_not_q = []" "nq_done init_not_q = 0"
proof -
  have "pow2_cap 32768" by (auto simp: pow2_cap_def intro!: exI[of _ 15])
  then show "nq_inv init_not_q" "nq_tasks init_not_q = []" "nq_done init_not_q = 0"
    by (auto simp: nq_inv_def nq_tasks_def init_not_q_def tm_ring_init_def ring_inv_def zero_slot_def
        seq_ring_size_def ring_elems_def)
qed

lemma push_task_ok:
  assumes "nq_inv q" "length (nq_tasks q) < 2 ^ 31 - 1"
  shows "\<exists>q'. push_task q t = Some q' \<and> nq_inv q' \<and> nq_tasks q' = nq_tasks q @ [t]
    \<and> nq_done q' = nq_done q"
proof -
  have "ring_room (nq_r q) (task_bytes t)"
    using assms by (simp add: ring_room_def nq_inv_def)
  from push_back_ok[OF _ this] assms show ?thesis
    by (auto simp: push_task_def nq_inv_def nq_tasks_def)
qed

lemma ring_at_iter: "ring_inv r \<Longrightarrow> seq_ring_at r (of_nat i) = ring_iter r i"
  by (simp add: seq_ring_at_def ring_pos_mod unat_add_mod_cap ring_inv_def ring_iter_def)

lemma copy_tasks_ok:
  assumes "ring_inv r" "i + n \<le> seq_ring_size r"
    and "\<And>j. i \<le> j \<Longrightarrow> j < i + n \<Longrightarrow> chk (ring_iter r j)"
  shows "copy_tasks chk r i n = Some (map task_of_bytes (take n (drop i (ring_elems r))))"
  using assms
proof (induction n arbitrary: i)
  case (Suc n)
  then have "i < length (ring_elems r)" by simp
  then have "drop i (ring_elems r) = ring_elems r ! i # drop (Suc i) (ring_elems r)"
    by (rule Cons_nth_drop_Suc[symmetric])
  with Suc show ?case
    using ring.rd_iter[OF Suc.prems(1), of i] by (simp add: ring_at_iter Let_def)
qed simp

lemma batch_len_bounds:
  "batch_len n \<le> n" "0 < n \<Longrightarrow> 0 < batch_len n"
  by (simp_all add: batch_len_def)

lemma erase_batch:
  assumes "nq_inv q" "n \<le> length (nq_tasks q)"
  shows "\<exists>r. seq_ring_erase (nq_r q) (seq_ring_front (nq_r q)) (seq_ring_at (nq_r q) (of_nat n)) = Some r
    \<and> nq_inv (q\<lparr>nq_r := r\<rparr>) \<and> nq_tasks (q\<lparr>nq_r := r\<rparr>) = drop n (nq_tasks q)
    \<and> seq_ring_size (nq_r q) = n + seq_ring_size r"
proof -
  have q: "ring_inv (nq_r q)" "n \<le> seq_ring_size (nq_r q)" using assms by (simp_all add: nq_inv_def)
  obtain r where r: "seq_ring_erase (nq_r q) (seq_ring_front (nq_r q)) (ring_iter (nq_r q) n) = Some r"
    "ring_inv r" "ring_elems r = drop n (ring_elems (nq_r q))" "r_elt_size r = r_elt_size (nq_r q)"
    using erase_ok[OF q] by blast
  have "seq_ring_size r = seq_ring_size (nq_r q) - n"
    using arg_cong[OF r(3), of length] by simp
  with r q show ?thesis
    using assms by (simp add: ring_at_iter nq_inv_def nq_tasks_def drop_map)
qed

lemma try_pop_busy [simp]: "try_pop_not_q True q = Some (q, \<lparr>rt_t = [], rt_success = False\<rparr>)"
  by (simp add: try_pop_not_q_def)

lemma size_zero_iff: "seq_ring_size (nq_r q) = 0 \<longleftrightarrow> nq_tasks q = []"
  using length_nq_tasks[of q] by (metis length_0_conv)

lemma try_pop_empty:
  "nq_inv q \<Longrightarrow> nq_tasks q = [] \<Longrightarrow> try_pop_not_q busy q = Some (q, \<lparr>rt_t = [], rt_success = False\<rparr>)"
  by (auto simp: try_pop_not_q_def nq_inv_def size_zero_iff Let_def)

lemma try_pop_tasks:
  assumes "nq_inv q" "nq_tasks q \<noteq> []"
  defines "n \<equiv> batch_len (length (nq_tasks q))"
  shows "\<exists>q'. try_pop_not_q False q = Some (q', \<lparr>rt_t = take n (nq_tasks q), rt_success = True\<rparr>)
    \<and> nq_inv q' \<and> nq_tasks q' = drop n (nq_tasks q) \<and> nq_done q' = nq_done q"
proof -
  have n: "n \<le> length (nq_tasks q)" by (simp add: n_def batch_len_bounds)
  from erase_batch[OF assms(1) this] obtain r where r:
    "seq_ring_erase (nq_r q) (seq_ring_front (nq_r q)) (seq_ring_at (nq_r q) (of_nat n)) = Some r"
    "nq_inv (q\<lparr>nq_r := r\<rparr>)" "nq_tasks (q\<lparr>nq_r := r\<rparr>) = drop n (nq_tasks q)"
    "n + seq_ring_size r = seq_ring_size (nq_r q)" by metis
  moreover have "batch_len (seq_ring_size (nq_r q)) = n" by (simp add: n_def)
  moreover have "copy_tasks (\<lambda>_. True) (nq_r q) 0 n = Some (take n (nq_tasks q))"
    using copy_tasks_ok[of "nq_r q" 0 n] n assms(1) by (simp add: nq_inv_def nq_tasks_def take_map)
  ultimately show ?thesis
    using assms(1,2) by (auto simp: try_pop_not_q_def nq_inv_def size_zero_iff Let_def)
qed

lemma pop_wait: "nq_tasks q = [] \<Longrightarrow> nq_done q = 0 \<Longrightarrow> pop_not_q q = Some (q, Pop_wait)"
  by (simp add: pop_not_q_def size_zero_iff)

lemma pop_done: "nq_done q = 1 \<Longrightarrow> pop_not_q q = Some (q, Pop_null)"
  by (simp add: pop_not_q_def)

lemma pop_tasks:
  assumes "nq_inv q" "nq_tasks q \<noteq> []" "nq_done q = 0"
  defines "n \<equiv> batch_len (length (nq_tasks q))"
  shows "\<exists>q'. pop_not_q q = Some (q', Pop_elm (take n (nq_tasks q)))
    \<and> nq_inv q' \<and> nq_tasks q' = drop n (nq_tasks q) \<and> nq_done q' = nq_done q"
proof -
  have n: "n \<le> length (nq_tasks q)" by (simp add: n_def batch_len_bounds)
  have inv: "ring_inv (nq_r q)" using assms(1) by (simp add: nq_inv_def)
  from erase_batch[OF assms(1) n] obtain r where r:
    "seq_ring_erase (nq_r q) (seq_ring_front (nq_r q)) (seq_ring_at (nq_r q) (of_nat n)) = Some r"
    "nq_inv (q\<lparr>nq_r := r\<rparr>)" "nq_tasks (q\<lparr>nq_r := r\<rparr>) = drop n (nq_tasks q)"
    "n + seq_ring_size r = seq_ring_size (nq_r q)" by metis
  moreover have "batch_len (seq_ring_size (nq_r q)) = n" by (simp add: n_def)
  moreover have "copy_tasks (\<lambda>it. it \<noteq> seq_ring_end (nq_r q)) (nq_r q) 0 n = Some (take n (nq_tasks q))"
  proof -
    have "ring_iter (nq_r q) j \<noteq> seq_ring_end (nq_r q)" if "j < n" for j
      using ring.iter_inj[OF inv, of j "seq_ring_size (nq_r q)"] ring.last_iter[OF inv] that n by simp
    then show ?thesis
      using copy_tasks_ok[of "nq_r q" 0 n] n inv by (simp add: nq_tasks_def take_map)
  qed
  ultimately show ?thesis
    using assms(2,3) by (auto simp: pop_not_q_def size_zero_iff Let_def)
qed

lemma free_not_q_ok:
  "nq_inv q \<Longrightarrow> nq_done q = 1 \<Longrightarrow> free_not_q clean q = Some (if clean then nq_tasks q else [])"
  using ring.visit_loop_all[of "nq_r q"]
  by (auto simp: free_not_q_def seq_ring_free_def nq_inv_def nq_tasks_def)

subsection \<open>Sums over the threads\<close>

lemma sum_list_update_add:
  fixes f :: "'a \<Rightarrow> 'b::comm_monoid_add"
  assumes "k < length xs"
  shows "sum_list (map f (xs[k := y])) + f (xs ! k) = sum_list (map f xs) + f y"
  using assms
proof (induction xs arbitrary: k)
  case (Cons x xs)
  then show ?case by (cases k) (simp_all add: add.assoc add.left_commute add.commute)
qed simp

lemma sum_list_elem_le:
  fixes f :: "'a \<Rightarrow> nat"
  shows "k < length xs \<Longrightarrow> f (xs ! k) \<le> sum_list (map f xs)"
  by (simp add: member_le_sum_list)

end
