(* ===== verification/Task_Man_Inv.thy ===== *)
theory Task_Man_Inv
  imports Task_Man_Laws
begin

text \<open>
  The invariant of the pool of \<open>Task_Man\<close>: where every submitted task is, which flags are raised, who
  will wake a sleeping worker; every step of every thread keeps it.
\<close>

subsection \<open>The invariant\<close>

fun worker_tasks :: "worker \<Rightarrow> task_t list" where
  "worker_tasks (Run ts) = ts"
| "worker_tasks _ = []"

fun client_tasks :: "tm_client \<Rightarrow> task_t list" where
  "client_tasks (Trying index i t) = [t]"
| "client_tasks _ = []"

text \<open>The queues that are not freed yet.\<close>

definition live_queues :: "tm_sys \<Rightarrow> not_q_t list" where
  "live_queues s = (case tm_closing s of
     Free_at i \<Rightarrow> drop i (q_arr (tm_man s)) | Freed \<Rightarrow> [] | _ \<Rightarrow> q_arr (tm_man s))"

abbreviation msum :: "('a \<Rightarrow> task_t list) \<Rightarrow> 'a list \<Rightarrow> task_t multiset" where
  "msum f xs \<equiv> sum_list (map (\<lambda>x. mset (f x)) xs)"

definition tm_conserved :: "tm_sys \<Rightarrow> bool" where
  "tm_conserved s \<longleftrightarrow> mset (tm_submitted s) = mset (tm_ran s) + mset (tm_left s)
     + msum worker_tasks (tm_workers s) + msum client_tasks (tm_clients s) + msum nq_tasks (live_queues s)
     \<and> tm_cleaned s = (if tm_clean s then tm_left s else [])
     \<and> (live_queues s = q_arr (tm_man s) \<longrightarrow> tm_left s = [])"

definition tm_shape :: "tm_sys \<Rightarrow> bool" where
  "tm_shape s \<longleftrightarrow> 0 < len_thr (tm_man s) \<and> len_thr (tm_man s) < 33
     \<and> length (q_arr (tm_man s)) = len_thr (tm_man s) \<and> length (tm_workers s) = len_thr (tm_man s)
     \<and> (\<forall>q \<in> set (q_arr (tm_man s)). nq_inv q)"

definition raised :: "closing \<Rightarrow> nat \<Rightarrow> bool" where
  "raised c k \<longleftrightarrow> (case c of Opened \<Rightarrow> False | Done_at i \<Rightarrow> k < i | Done_signal i \<Rightarrow> k \<le> i | _ \<Rightarrow> True)"

definition tm_flags :: "tm_sys \<Rightarrow> bool" where
  "tm_flags s \<longleftrightarrow> (\<forall>k < len_thr (tm_man s). nq_done (q_arr (tm_man s) ! k) = (if raised (tm_closing s) k then 1 else 0)
     \<and> (tm_workers s ! k = Exited \<longrightarrow> raised (tm_closing s) k))"

definition tm_phase :: "tm_sys \<Rightarrow> bool" where
  "tm_phase s \<longleftrightarrow> (tm_closing s \<noteq> Opened \<longrightarrow> (\<forall>c \<in> set (tm_clients s). c = Outside))
     \<and> (case tm_closing s of
          Opened \<Rightarrow> True | Done_at i \<Rightarrow> i \<le> len_thr (tm_man s) | Done_signal i \<Rightarrow> i < len_thr (tm_man s)
        | Join_at i \<Rightarrow> i \<le> len_thr (tm_man s) \<and> (\<forall>k < i. tm_workers s ! k = Exited)
        | Free_at i \<Rightarrow> i \<le> len_thr (tm_man s) \<and> (\<forall>k < len_thr (tm_man s). tm_workers s ! k = Exited)
        | Freed \<Rightarrow> \<forall>k < len_thr (tm_man s). tm_workers s ! k = Exited)"

definition client_ok :: "task_manager_t \<Rightarrow> tm_client \<Rightarrow> bool" where
  "client_ok man c \<longleftrightarrow> (case c of
     Outside \<Rightarrow> True
   | Trying index i t \<Rightarrow> t_func t \<noteq> 0 \<and> t_args t \<noteq> 0 \<and> i \<le> len_thr man
   | Signalling k \<Rightarrow> k < len_thr man)"

text \<open>No wake-up is lost: a worker sleeps only while its queue is empty and its flag is down, or else
  a signal for it is still to come.\<close>

definition tm_wakers :: "tm_sys \<Rightarrow> bool" where
  "tm_wakers s \<longleftrightarrow> (\<forall>c \<in> set (tm_clients s). client_ok (tm_man s) c)
     \<and> (\<forall>k < len_thr (tm_man s). tm_workers s ! k = Asleep \<longrightarrow>
          nq_tasks (q_arr (tm_man s) ! k) = [] \<and> nq_done (q_arr (tm_man s) ! k) = 0
          \<or> Signalling k \<in> set (tm_clients s) \<or> tm_closing s = Done_signal k)"

definition tm_inv :: "tm_sys \<Rightarrow> bool" where
  "tm_inv s \<longleftrightarrow> tm_shape s \<and> tm_flags s \<and> tm_phase s \<and> tm_wakers s \<and> tm_conserved s"

lemmas tm_parts = tm_shape_def tm_flags_def tm_phase_def tm_wakers_def

fun event_ok :: "tm_event \<Rightarrow> bool" where
  "event_ok (Call c t) \<longleftrightarrow> t_args t \<noteq> 0 \<and> t_func t \<noteq> 0"
| "event_ok _ \<longleftrightarrow> True"

lemma init_inv:
  assumes "init_tm_sys n clients = Some s"
  shows "tm_inv s \<and> tm_submitted s = []"
proof -
  have s: "s = \<lparr>tm_man = \<lparr>q_arr = replicate n init_not_q, len_thr = n, tm_index = 0\<rparr>,
      tm_workers = map Scan [0..<n], tm_clients = replicate clients Outside, tm_closing = Opened,
      tm_clean = False, tm_submitted = [], tm_ran = [], tm_left = [], tm_cleaned = []\<rparr>" "0 < n" "n < 33"
    using assms by (auto simp: init_tm_sys_def init_task_manager_def split: if_splits)
  have z: "msum nq_tasks (replicate m init_not_q) = {#}" "msum client_tasks (replicate m Outside) = {#}" for m
    by (induction m) auto
  have "msum worker_tasks (map Scan ks) = {#}" for ks by (induction ks) auto
  with s z show ?thesis
    by (simp add: tm_inv_def tm_parts tm_conserved_def live_queues_def raised_def client_ok_def)
qed

subsection \<open>Steps that touch one queue and one thread\<close>

lemma msum_update:
  assumes "k < length xs"
  shows "msum f (xs[k := y]) + mset (f (xs ! k)) = msum f xs + mset (f y)"
  using sum_list_update_add[OF assms, of "\<lambda>x. mset (f x)"] .

text \<open>A worker moves from \<open>w\<close> to \<open>w'\<close> and the queue at \<open>k\<close> from \<open>q\<close> to \<open>q'\<close>.\<close>

definition move_worker :: "tm_sys \<Rightarrow> nat \<Rightarrow> nat \<Rightarrow> not_q_t \<Rightarrow> worker \<Rightarrow> task_t list \<Rightarrow> tm_sys" where
  "move_worker s i k q' w' out = s\<lparr>tm_man := (tm_man s)\<lparr>q_arr := (q_arr (tm_man s))[k := q']\<rparr>,
     tm_workers := (tm_workers s)[i := w'], tm_ran := tm_ran s @ out\<rparr>"

lemma move_worker_inv:
  assumes inv: "tm_inv s" and k: "k < len_thr (tm_man s)" and i: "i < len_thr (tm_man s)"
    and not_exited: "tm_workers s ! i \<noteq> Exited"
    and q': "nq_inv q'" "nq_done q' = nq_done (q_arr (tm_man s) ! k)"
    and less: "nq_tasks (q_arr (tm_man s) ! k) = [] \<longrightarrow> nq_tasks q' = []"
    and w': "w' = Exited \<longrightarrow> nq_done (q_arr (tm_man s) ! i) = 1"
      "w' = Asleep \<longrightarrow> i = k \<and> nq_tasks q' = [] \<and> nq_done q' = 0"
    and tasks: "mset (worker_tasks (tm_workers s ! i)) + mset (nq_tasks (q_arr (tm_man s) ! k))
      = mset out + mset (worker_tasks w') + mset (nq_tasks q')"
  shows "tm_inv (move_worker s i k q' w' out)"
proof -
  let ?s = "move_worker s i k q' w' out"
  have parts: "tm_shape s" "tm_flags s" "tm_phase s" "tm_wakers s" "tm_conserved s"
    using inv by (simp_all add: tm_inv_def)
  have len: "length (q_arr (tm_man s)) = len_thr (tm_man s)" "length (tm_workers s) = len_thr (tm_man s)"
    using parts(1) by (simp_all add: tm_shape_def)
  have "tm_shape ?s"
    using parts(1) q' set_update_subset_insert[of "q_arr (tm_man s)" k q']
    by (auto simp: tm_shape_def move_worker_def)
  moreover have "tm_flags ?s"
    using parts(2) q' w' len i k by (auto simp: tm_flags_def move_worker_def nth_list_update split: if_splits)
  moreover have "tm_phase ?s"
    using parts(3) not_exited len i
    by (auto simp: tm_phase_def move_worker_def nth_list_update split: closing.splits)
  moreover have "tm_wakers ?s"
    using parts(4) less w' q' len i k
    by (auto simp: tm_wakers_def move_worker_def nth_list_update client_ok_def split: tm_client.splits)
  moreover have "tm_conserved ?s"
  proof -
    have live: "live_queues s = q_arr (tm_man s)" "live_queues ?s = (q_arr (tm_man s))[k := q']"
      using parts(3) not_exited i
      by (auto simp: live_queues_def tm_phase_def move_worker_def split: closing.splits)
    note w = msum_update[of i "tm_workers s" worker_tasks w', unfolded len, OF i]
    note q = msum_update[of k "q_arr (tm_man s)" nq_tasks q', unfolded len, OF k]
    have "msum worker_tasks (tm_workers s) + msum nq_tasks (q_arr (tm_man s))
        = mset out + msum worker_tasks ((tm_workers s)[i := w'])
          + msum nq_tasks ((q_arr (tm_man s))[k := q'])"
      using w q tasks by (smt (verit) add.assoc add.commute add_right_cancel)
    with parts(5) show ?thesis
      by (simp add: tm_conserved_def live) (simp add: move_worker_def ac_simps)
  qed
  ultimately show ?thesis by (simp add: tm_inv_def)
qed

subsection \<open>A measure of the work that is left\<close>

text \<open>
  Without new calls and spurious wake-ups every step of every thread makes \<open>tm_measure\<close> smaller.  A
  task in a queue weighs more than a whole round of a worker, which is at most \<open>6 * 32 + 2\<close> steps.
\<close>

fun worker_weight :: "nat \<Rightarrow> worker \<Rightarrow> nat" where
  "worker_weight len (Scan i) = 6 * len - i + 2"
| "worker_weight len Pop_own = 1"
| "worker_weight len (Run ts) = 200 + length ts"
| "worker_weight len Asleep = 0"
| "worker_weight len Exited = 0"

fun client_weight :: "nat \<Rightarrow> tm_client \<Rightarrow> nat" where
  "client_weight len (Trying index i t) = len - i + 204"
| "client_weight len (Signalling k) = 2"
| "client_weight len Outside = 0"

fun closing_weight :: "nat \<Rightarrow> closing \<Rightarrow> nat" where
  "closing_weight len (Done_at i) = 5 * (len - i) + 2 * len + 3"
| "closing_weight len (Done_signal i) = 5 * (len - i) + 2 * len + 2"
| "closing_weight len (Join_at i) = (len - i) + len + 2"
| "closing_weight len (Free_at i) = (len - i) + 1"
| "closing_weight len Opened = 0"
| "closing_weight len Freed = 0"

definition tm_measure :: "tm_sys \<Rightarrow> nat" where
  "tm_measure s = sum_list (map (worker_weight (len_thr (tm_man s))) (tm_workers s))
     + sum_list (map (client_weight (len_thr (tm_man s))) (tm_clients s))
     + sum_list (map (\<lambda>q. 201 * length (nq_tasks q)) (q_arr (tm_man s)))
     + closing_weight (len_thr (tm_man s)) (tm_closing s)"

lemma move_worker_measure:
  assumes "k < length (q_arr (tm_man s))" "i < length (tm_workers s)"
    and "worker_weight (len_thr (tm_man s)) w' + 201 * length (nq_tasks q')
      < worker_weight (len_thr (tm_man s)) (tm_workers s ! i) + 201 * length (nq_tasks (q_arr (tm_man s) ! k))"
  shows "tm_measure (move_worker s i k q' w' out) < tm_measure s"
  using sum_list_update_add[OF assms(1), of "\<lambda>q. 201 * length (nq_tasks q)" q']
    sum_list_update_add[OF assms(2), of "worker_weight (len_thr (tm_man s))" w'] assms(3)
  by (simp add: tm_measure_def move_worker_def del: length_nq_tasks)

subsection \<open>The steps of a worker\<close>

lemma move_worker_same:
  assumes "k < length (q_arr (tm_man s))"
  shows "s\<lparr>tm_workers := (tm_workers s)[i := w'], tm_ran := tm_ran s @ out\<rparr>
    = move_worker s i k (q_arr (tm_man s) ! k) w' out"
  by (simp add: move_worker_def)

lemma batch_split: "mset xs = mset (take n xs) + mset (drop n xs)"
  by (metis append_take_drop_id mset_append)

lemma batch_measure:
  assumes "xs \<noteq> []" "0 < w"
  shows "(200 + length (take (batch_len (length xs)) xs)) + 201 * length (drop (batch_len (length xs)) xs)
    < w + 201 * length xs"
proof -
  obtain n where n: "batch_len (length xs) = n" "0 < n" "n \<le> length xs"
    using batch_len_bounds[of "length xs"] assms(1) by auto
  then have "length xs = n + (length xs - n)" by simp
  then show ?thesis
    using n assms(2) by (simp add: min_absorb2)
qed

definition worker_move :: "tm_sys \<Rightarrow> nat \<Rightarrow> nat \<Rightarrow> not_q_t \<Rightarrow> worker \<Rightarrow> task_t list \<Rightarrow> bool" where
  "worker_move s i k q' w' out \<longleftrightarrow> k < len_thr (tm_man s)
     \<and> nq_inv q' \<and> nq_done q' = nq_done (q_arr (tm_man s) ! k)
     \<and> (nq_tasks (q_arr (tm_man s) ! k) = [] \<longrightarrow> nq_tasks q' = [])
     \<and> (w' = Exited \<longrightarrow> nq_done (q_arr (tm_man s) ! i) = 1)
     \<and> (w' = Asleep \<longrightarrow> i = k \<and> nq_tasks q' = [] \<and> nq_done q' = 0)
     \<and> mset (worker_tasks (tm_workers s ! i)) + mset (nq_tasks (q_arr (tm_man s) ! k))
       = mset out + mset (worker_tasks w') + mset (nq_tasks q')
     \<and> worker_weight (len_thr (tm_man s)) w' + 201 * length (nq_tasks q')
       < worker_weight (len_thr (tm_man s)) (tm_workers s ! i) + 201 * length (nq_tasks (q_arr (tm_man s) ! k))"

lemma worker_step_move:
  assumes inv: "tm_inv s" and en: "tm_enabled s (Work i busy)"
  shows "\<exists>k q' w' out. tm_exec s (Work i busy) = Some (move_worker s i k q' w' out)
    \<and> worker_move s i k q' w' out"
proof -
  let ?man = "tm_man s" and ?w = "tm_workers s ! i"
  have shape: "0 < len_thr ?man" "len_thr ?man < 33" "length (q_arr ?man) = len_thr ?man"
    "length (tm_workers s) = len_thr ?man" "\<And>k. k < len_thr ?man \<Longrightarrow> nq_inv (q_arr ?man ! k)"
    using inv by (auto simp: tm_inv_def tm_shape_def)
  have i: "i < len_thr ?man" "?w \<noteq> Asleep" "?w \<noteq> Exited" using en shape by auto
  have done01: "nq_done (q_arr ?man ! i) = 0 \<or> nq_done (q_arr ?man ! i) = 1"
    using shape(5)[OF i(1)] by (simp add: nq_inv_def)
  show ?thesis
  proof (cases ?w)
    case (Scan j)
    let ?k = "j mod len_thr ?man"
    have k: "?k < len_thr ?man" using shape(1) by simp
    let ?q = "q_arr ?man ! ?k"
    consider (last) "\<not> j < 3 * (len_thr ?man + i)"
      | (miss) "j < 3 * (len_thr ?man + i)" "busy \<or> nq_tasks ?q = []"
      | (hit) "j < 3 * (len_thr ?man + i)" "\<not> busy" "nq_tasks ?q \<noteq> []" by blast
    then show ?thesis
    proof cases
      case last
      then have "tm_exec s (Work i busy) = Some (move_worker s i ?k ?q Pop_own [])"
        using Scan shape(3) k by (simp add: worker_thread_tm_def Let_def move_worker_def)
      moreover have "worker_move s i ?k ?q Pop_own []"
        using Scan shape k by (simp add: worker_move_def)
      ultimately show ?thesis by blast
    next
      case miss
      then have "try_pop_not_q busy ?q = Some (?q, \<lparr>rt_t = [], rt_success = False\<rparr>)"
        using try_pop_empty[OF shape(5)[OF k]] by (cases busy) auto
      then have "tm_exec s (Work i busy) = Some (move_worker s i ?k ?q (Scan (j + 1)) [])"
        using Scan shape(3) k miss by (simp add: worker_thread_tm_def Let_def move_worker_def)
      moreover have "worker_move s i ?k ?q (Scan (j + 1)) []"
        using Scan shape k miss i by (simp add: worker_move_def)
      ultimately show ?thesis by blast
    next
      case hit
      let ?n = "batch_len (length (nq_tasks ?q))"
      obtain q' where q': "try_pop_not_q False ?q = Some (q', \<lparr>rt_t = take ?n (nq_tasks ?q), rt_success = True\<rparr>)"
        "nq_inv q'" "nq_tasks q' = drop ?n (nq_tasks ?q)" "nq_done q' = nq_done ?q"
        using try_pop_tasks[OF shape(5)[OF k] hit(3)] by blast
      then have "tm_exec s (Work i busy) = Some (move_worker s i ?k q' (Run (take ?n (nq_tasks ?q))) [])"
        using Scan shape(3) k hit by (simp add: worker_thread_tm_def Let_def move_worker_def del: length_nq_tasks)
      moreover have "worker_move s i ?k q' (Run (take ?n (nq_tasks ?q))) []"
        using Scan shape k q' hit(3) batch_split[of "nq_tasks ?q" ?n]
          batch_measure[OF hit(3), of "worker_weight (len_thr ?man) ?w"]
        by (simp add: worker_move_def del: length_nq_tasks)
      ultimately show ?thesis by blast
    qed
  next
    case Pop_own
    let ?q = "q_arr ?man ! i"
    consider (wait) "nq_tasks ?q = []" "nq_done ?q = 0" | (stop) "nq_done ?q = 1"
      | (hit) "nq_tasks ?q \<noteq> []" "nq_done ?q = 0" using done01 by blast
    then show ?thesis
    proof cases
      case wait
      then have "tm_exec s (Work i busy) = Some (move_worker s i i ?q Asleep [])"
        using Pop_own shape(3) i pop_wait[OF wait] by (simp add: worker_thread_tm_def Let_def move_worker_def)
      moreover have "worker_move s i i ?q Asleep []"
        using Pop_own shape i wait by (simp add: worker_move_def)
      ultimately show ?thesis by blast
    next
      case stop
      then have "tm_exec s (Work i busy) = Some (move_worker s i i ?q Exited [])"
        using Pop_own shape(3) i pop_done[OF stop] by (simp add: worker_thread_tm_def Let_def move_worker_def)
      moreover have "worker_move s i i ?q Exited []"
        using Pop_own shape i stop by (simp add: worker_move_def)
      ultimately show ?thesis by blast
    next
      case hit
      let ?n = "batch_len (length (nq_tasks ?q))"
      obtain q' where q': "pop_not_q ?q = Some (q', Pop_elm (take ?n (nq_tasks ?q)))"
        "nq_inv q'" "nq_tasks q' = drop ?n (nq_tasks ?q)" "nq_done q' = nq_done ?q"
        using pop_tasks[OF shape(5)[OF i(1)] hit] by blast
      then have "tm_exec s (Work i busy) = Some (move_worker s i i q' (Run (take ?n (nq_tasks ?q))) [])"
        using Pop_own shape(3) i hit by (simp add: worker_thread_tm_def Let_def move_worker_def del: length_nq_tasks)
      moreover have "worker_move s i i q' (Run (take ?n (nq_tasks ?q))) []"
        using Pop_own shape i q' hit batch_split[of "nq_tasks ?q" ?n]
          batch_measure[OF hit(1), of "worker_weight (len_thr ?man) ?w"]
        by (simp add: worker_move_def del: length_nq_tasks)
      ultimately show ?thesis by blast
    qed
  next
    case (Run ts)
    show ?thesis
    proof (cases ts)
      case Nil
      then have "tm_exec s (Work i busy) = Some (move_worker s i i (q_arr ?man ! i) (Scan i) [])"
        using Run shape(3) i by (simp add: worker_thread_tm_def move_worker_def)
      moreover have "worker_move s i i (q_arr ?man ! i) (Scan i) []"
        using Run Nil shape i by (simp add: worker_move_def)
      ultimately show ?thesis by blast
    next
      case (Cons t rest)
      then have "tm_exec s (Work i busy) = Some (move_worker s i i (q_arr ?man ! i) (Run rest) [t])"
        using Run shape(3) i by (simp add: worker_thread_tm_def move_worker_def)
      moreover have "worker_move s i i (q_arr ?man ! i) (Run rest) [t]"
        using Run Cons shape i by (simp add: worker_move_def)
      ultimately show ?thesis by blast
    qed
  qed (use i in auto)
qed

lemma worker_step_ok:
  assumes inv: "tm_inv s" and en: "tm_enabled s (Work i busy)"
  shows "\<exists>s'. tm_exec s (Work i busy) = Some s' \<and> tm_inv s' \<and> tm_measure s' < tm_measure s
    \<and> tm_submitted s' = tm_submitted s"
proof -
  obtain k q' w' out where m: "tm_exec s (Work i busy) = Some (move_worker s i k q' w' out)"
    "worker_move s i k q' w' out"
    using worker_step_move[OF assms] by blast
  have shape: "length (q_arr (tm_man s)) = len_thr (tm_man s)" "length (tm_workers s) = len_thr (tm_man s)"
    using inv by (simp_all add: tm_inv_def tm_shape_def)
  have i: "i < len_thr (tm_man s)" "tm_workers s ! i \<noteq> Exited" using en shape by auto
  have "tm_inv (move_worker s i k q' w' out)"
    by (rule move_worker_inv[OF inv _ i]) (use m(2) in \<open>auto simp: worker_move_def\<close>)
  moreover have "tm_measure (move_worker s i k q' w' out) < tm_measure s"
    by (rule move_worker_measure) (use m(2) i shape in \<open>simp_all add: worker_move_def\<close>)
  ultimately show ?thesis
    using m(1) by (simp add: move_worker_def)
qed

end
