(* ===== verification/Task_Man_Steps.thy ===== *)
theory Task_Man_Steps
  imports Task_Man_Inv
begin

text \<open>
  The steps of the clients and of \<^verbatim>\<open>free_task_manager\<close> keep the invariant of \<open>Task_Man_Inv\<close> and make
  the measure smaller; from there, the runs of the pool.
\<close>

lemma tm_inv_parts:
  assumes "tm_inv s"
  shows "tm_shape s" "tm_flags s" "tm_phase s" "tm_wakers s" "tm_conserved s"
    "length (q_arr (tm_man s)) = len_thr (tm_man s)" "length (tm_workers s) = len_thr (tm_man s)"
    "\<And>k. k < len_thr (tm_man s) \<Longrightarrow> nq_inv (q_arr (tm_man s) ! k)"
  using assms by (auto simp: tm_inv_def tm_shape_def)

subsection \<open>Waking up\<close>

lemma length_wake [simp]: "length (wake k ws) = length ws"
  by (simp add: wake_def)

lemma nth_wake: "j < length ws \<Longrightarrow> wake k ws ! j = (if j = k \<and> ws ! j = Asleep then Pop_own else ws ! j)"
  by (auto simp: wake_def nth_list_update)

lemma msum_wake [simp]: "msum worker_tasks (wake k ws) = msum worker_tasks ws"
  using msum_update[of k ws worker_tasks Pop_own] by (auto simp: wake_def)

lemma weight_wake: "sum_list (map (worker_weight len) (wake k ws)) \<le> sum_list (map (worker_weight len) ws) + 1"
  using sum_list_update_add[of k ws "worker_weight len" Pop_own] by (auto simp: wake_def)

subsection \<open>The clients\<close>

lemma set_update_keeps: "x \<in> set xs \<Longrightarrow> xs ! c \<noteq> x \<Longrightarrow> x \<in> set (xs[c := y])"
  by (metis in_set_conv_nth length_list_update nth_list_update_neq)

lemma clients_open:
  assumes "tm_inv s" "c < length (tm_clients s)" "tm_clients s ! c \<noteq> Outside"
  shows "tm_closing s = Opened" "live_queues s = q_arr (tm_man s)"
  using tm_inv_parts(3)[OF assms(1)] assms(2,3) nth_mem[OF assms(2)]
  by (auto simp: tm_phase_def live_queues_def)

lemma queue_room:
  assumes inv: "tm_inv s" and c: "c < length (tm_clients s)" "tm_clients s ! c = Trying index i t"
    and k: "k < len_thr (tm_man s)" and bound: "length (tm_submitted s) < 2 ^ 31"
  shows "length (nq_tasks (q_arr (tm_man s) ! k)) < 2 ^ 31 - 1"
proof -
  have live: "live_queues s = q_arr (tm_man s)" using clients_open[OF inv c(1)] c(2) by simp
  have sz: "size (msum f xs) = sum_list (map (\<lambda>x. length (f x)) xs)" for f :: "'b \<Rightarrow> task_t list" and xs
    by (induction xs) simp_all
  have "length (tm_submitted s) = size (mset (tm_submitted s))" by simp
  also have "\<dots> \<ge> size (msum client_tasks (tm_clients s)) + size (msum nq_tasks (q_arr (tm_man s)))"
    using tm_inv_parts(5)[OF inv] by (simp add: tm_conserved_def live del: size_mset)
  finally have "sum_list (map (\<lambda>x. length (client_tasks x)) (tm_clients s))
      + sum_list (map (\<lambda>x. length (nq_tasks x)) (q_arr (tm_man s))) \<le> length (tm_submitted s)"
    by (simp only: sz)
  moreover have "1 \<le> sum_list (map (\<lambda>x. length (client_tasks x)) (tm_clients s))"
    using sum_list_elem_le[OF c(1), of "\<lambda>x. length (client_tasks x)"] c(2) by simp
  moreover have "length (nq_tasks (q_arr (tm_man s) ! k)) \<le> sum_list (map (\<lambda>x. length (nq_tasks x)) (q_arr (tm_man s)))"
    using sum_list_elem_le[of k "q_arr (tm_man s)" "\<lambda>x. length (nq_tasks x)"] k tm_inv_parts(6)[OF inv] by simp
  ultimately show ?thesis using bound by linarith
qed

definition move_client :: "tm_sys \<Rightarrow> nat \<Rightarrow> nat \<Rightarrow> not_q_t \<Rightarrow> tm_client \<Rightarrow> tm_sys" where
  "move_client s c k q' p = s\<lparr>tm_man := (tm_man s)\<lparr>q_arr := (q_arr (tm_man s))[k := q']\<rparr>,
     tm_clients := (tm_clients s)[c := p]\<rparr>"

lemma move_client_inv:
  assumes inv: "tm_inv s" and c: "c < length (tm_clients s)" "tm_clients s ! c = Trying index i t"
    and k: "k < len_thr (tm_man s)"
    and q': "nq_inv q'" "nq_done q' = nq_done (q_arr (tm_man s) ! k)"
    and p: "client_ok (tm_man s) p"
    and wakes: "nq_tasks q' \<noteq> nq_tasks (q_arr (tm_man s) ! k) \<longrightarrow> p = Signalling k"
    and tasks: "mset (nq_tasks (q_arr (tm_man s) ! k)) + {#t#} = mset (nq_tasks q') + mset (client_tasks p)"
  shows "tm_inv (move_client s c k q' p)"
proof -
  let ?s = "move_client s c k q' p"
  note parts = tm_inv_parts[OF inv]
  have opened: "tm_closing s = Opened" "live_queues s = q_arr (tm_man s)"
    using clients_open[OF inv c(1)] c(2) by simp_all
  have "tm_shape ?s"
    using parts(1) q' set_update_subset_insert[of "q_arr (tm_man s)" k q']
    by (auto simp: tm_shape_def move_client_def)
  moreover have "tm_flags ?s"
    using parts(2,6) q' k by (auto simp: tm_flags_def move_client_def nth_list_update split: if_splits)
  moreover have "tm_phase ?s" using opened by (simp add: tm_phase_def move_client_def)
  moreover have "tm_wakers ?s"
  proof -
    have "client_ok (tm_man ?s) x" if "x \<in> set (tm_clients ?s)" for x
      using that p parts(4) set_update_subset_insert[of "tm_clients s" c p]
      by (auto simp: tm_wakers_def move_client_def client_ok_def split: tm_client.splits)
    moreover have "Signalling j \<in> set ((tm_clients s)[c := p])" if "Signalling j \<in> set (tm_clients s)" for j
      using that c(2) by (intro set_update_keeps) auto
    moreover have "p \<in> set ((tm_clients s)[c := p])" using c(1) by (rule set_update_memI)
    ultimately show ?thesis
      using parts(4,6) k wakes q'(2) opened(1)
      by (auto simp: tm_wakers_def move_client_def nth_list_update)
  qed
  moreover have "tm_conserved ?s"
  proof -
    have live: "live_queues ?s = (q_arr (tm_man s))[k := q']"
      using opened by (simp add: live_queues_def move_client_def)
    note w = msum_update[OF c(1), of client_tasks p]
    note q = msum_update[of k "q_arr (tm_man s)" nq_tasks q', unfolded parts(6), OF k]
    have "msum client_tasks (tm_clients s) + msum nq_tasks (q_arr (tm_man s))
        = msum client_tasks ((tm_clients s)[c := p]) + msum nq_tasks ((q_arr (tm_man s))[k := q'])"
      using w q tasks c(2) by (smt (verit) add.assoc add.commute add_right_cancel client_tasks.simps(1) mset_single_iff mset.simps add_mset_add_single)
    with parts(5) show ?thesis
      by (simp add: tm_conserved_def live opened) (simp add: move_client_def ac_simps)
  qed
  ultimately show ?thesis by (simp add: tm_inv_def)
qed

lemma move_client_measure:
  assumes "k < length (q_arr (tm_man s))" "c < length (tm_clients s)"
    and "client_weight (len_thr (tm_man s)) p + 201 * length (nq_tasks q')
      < client_weight (len_thr (tm_man s)) (tm_clients s ! c) + 201 * length (nq_tasks (q_arr (tm_man s) ! k))"
  shows "tm_measure (move_client s c k q' p) < tm_measure s"
  using sum_list_update_add[OF assms(1), of "\<lambda>q. 201 * length (nq_tasks q)" q']
    sum_list_update_add[OF assms(2), of "client_weight (len_thr (tm_man s))" p] assms(3)
  by (simp add: tm_measure_def move_client_def del: length_nq_tasks)

lemma pushes:
  assumes "nq_inv q" "length (nq_tasks q) < 2 ^ 31 - 1" "t_func t \<noteq> 0"
  shows "\<exists>q'. push_not_q q t = Some q' \<and> (t_args t \<noteq> 0 \<longrightarrow> try_push_not_q False q t = Some (q', True))
    \<and> nq_inv q' \<and> nq_tasks q' = nq_tasks q @ [t] \<and> nq_done q' = nq_done q"
  using push_task_ok[OF assms(1,2), of t] assms(1,3)
  by (auto simp: push_not_q_def try_push_not_q_def nq_inv_def)

lemma try_push_busy: "nq_inv q \<Longrightarrow> t_func t \<noteq> 0 \<Longrightarrow> t_args t \<noteq> 0 \<Longrightarrow> try_push_not_q True q t = Some (q, False)"
  by (auto simp: try_push_not_q_def nq_inv_def)

lemma trying_step_move:
  assumes inv: "tm_inv s" and c: "c < length (tm_clients s)" "tm_clients s ! c = Trying index i t"
    and bound: "length (tm_submitted s) < 2 ^ 31"
  shows "\<exists>k q' p. tm_exec s (Client c busy) = Some (move_client s c k q' p)
    \<and> k < len_thr (tm_man s) \<and> nq_inv q' \<and> nq_done q' = nq_done (q_arr (tm_man s) ! k)
    \<and> client_ok (tm_man s) p \<and> (nq_tasks q' \<noteq> nq_tasks (q_arr (tm_man s) ! k) \<longrightarrow> p = Signalling k)
    \<and> mset (nq_tasks (q_arr (tm_man s) ! k)) + {#t#} = mset (nq_tasks q') + mset (client_tasks p)
    \<and> client_weight (len_thr (tm_man s)) p + 201 * length (nq_tasks q')
      < client_weight (len_thr (tm_man s)) (Trying index i t) + 201 * length (nq_tasks (q_arr (tm_man s) ! k))"
proof -
  let ?man = "tm_man s"
  note parts = tm_inv_parts[OF inv]
  have len: "0 < len_thr ?man" using parts(1) by (simp add: tm_shape_def)
  have ok: "t_func t \<noteq> 0" "t_args t \<noteq> 0" "i \<le> len_thr ?man"
    using parts(4) nth_mem[OF c(1)] c(2) by (auto simp: tm_wakers_def client_ok_def)
  define k where "k = (if i < len_thr ?man then async_queue ?man index i else unat index mod len_thr ?man)"
  have k: "k < len_thr ?man" using len by (simp add: k_def async_queue_def)
  let ?q = "q_arr ?man ! k"
  obtain q' where q': "push_not_q ?q t = Some q'" "try_push_not_q False ?q t = Some (q', True)"
    "nq_inv q'" "nq_tasks q' = nq_tasks ?q @ [t]" "nq_done q' = nq_done ?q"
    using pushes[OF parts(8)[OF k] queue_room[OF inv c k bound] ok(1)] ok(2) by blast
  note q = nth_list_update parts(6) k
  show ?thesis
  proof (cases "i < len_thr ?man \<and> busy")
    case True
    then have "tm_exec s (Client c busy) = Some (move_client s c k ?q (Trying index (i + 1) t))"
      using c k parts(6) try_push_busy[OF parts(8)[OF k] ok(1,2)]
      by (simp add: client_step_def async_loop_def k_def move_client_def)
    moreover have "client_ok ?man (Trying index (i + 1) t)" using True ok by (simp add: client_ok_def)
    moreover have "nq_inv ?q" by (rule parts(8)[OF k])
    moreover have "client_weight (len_thr ?man) (Trying index (i + 1) t)
        < client_weight (len_thr ?man) (Trying index i t)"
      using conjunct1[OF True] by simp
    ultimately show ?thesis
      using True k by (intro exI[of _ k] exI[of _ ?q] exI[of _ "Trying index (i + 1) t"])
        (simp del: client_weight.simps)
  next
    case False
    then have "tm_exec s (Client c busy) = Some (move_client s c k q' (Signalling k))"
      using c k parts(6) q' by (auto simp: client_step_def async_loop_def k_def move_client_def Let_def)
    moreover have "client_ok ?man (Signalling k)" using k by (simp add: client_ok_def)
    ultimately show ?thesis
      using q' k by (intro exI[of _ k] exI[of _ q'] exI[of _ "Signalling k"])
        (simp del: length_nq_tasks)
  qed
qed

lemma signalling_step:
  assumes inv: "tm_inv s" and c: "c < length (tm_clients s)" "tm_clients s ! c = Signalling k"
  defines "s' \<equiv> s\<lparr>tm_workers := wake k (tm_workers s), tm_clients := (tm_clients s)[c := Outside]\<rparr>"
  shows "tm_inv s' \<and> tm_measure s' < tm_measure s"
proof -
  note parts = tm_inv_parts[OF inv]
  have opened: "tm_closing s = Opened" using clients_open[OF inv c(1)] c(2) by simp
  have "tm_shape s'" using parts(1) by (simp add: tm_shape_def s'_def)
  moreover have "tm_flags s'" using parts(2,7) by (auto simp: tm_flags_def s'_def nth_wake split: if_splits)
  moreover have "tm_phase s'" using opened by (simp add: tm_phase_def s'_def)
  moreover have "tm_wakers s'"
  proof -
    have "client_ok (tm_man s') x" if "x \<in> set (tm_clients s')" for x
      using that parts(4) set_update_subset_insert[of "tm_clients s" c Outside]
      by (auto simp: tm_wakers_def s'_def client_ok_def)
    moreover have "Signalling j \<in> set ((tm_clients s)[c := Outside])"
      if "Signalling j \<in> set (tm_clients s)" "j \<noteq> k" for j
      using that c(2) by (intro set_update_keeps) auto
    ultimately show ?thesis
      using parts(4,7) opened
      by (auto simp: tm_wakers_def s'_def nth_wake split: if_splits)
  qed
  moreover have "tm_conserved s'"
    using parts(5) msum_update[OF c(1), of client_tasks Outside] c(2)
    by (simp add: tm_conserved_def s'_def live_queues_def opened)
  moreover have "tm_measure s' < tm_measure s"
    using weight_wake[of "len_thr (tm_man s)" k "tm_workers s"] c(2)
      sum_list_update_add[OF c(1), of "client_weight (len_thr (tm_man s))" Outside]
    by (simp add: tm_measure_def s'_def)
  ultimately show ?thesis by (simp add: tm_inv_def)
qed

lemma client_step_ok:
  assumes inv: "tm_inv s" and en: "tm_enabled s (Client c busy)" and bound: "length (tm_submitted s) < 2 ^ 31"
  shows "\<exists>s'. tm_exec s (Client c busy) = Some s' \<and> tm_inv s' \<and> tm_measure s' < tm_measure s
    \<and> tm_submitted s' = tm_submitted s"
proof -
  have c: "c < length (tm_clients s)" using en by simp
  show ?thesis
  proof (cases "tm_clients s ! c")
    case (Trying index i t)
    from trying_step_move[OF inv c Trying bound, of busy] obtain k q' p where
      m: "tm_exec s (Client c busy) = Some (move_client s c k q' p)" "k < len_thr (tm_man s)" "nq_inv q'"
      "nq_done q' = nq_done (q_arr (tm_man s) ! k)" "client_ok (tm_man s) p"
      "nq_tasks q' \<noteq> nq_tasks (q_arr (tm_man s) ! k) \<longrightarrow> p = Signalling k"
      "mset (nq_tasks (q_arr (tm_man s) ! k)) + {#t#} = mset (nq_tasks q') + mset (client_tasks p)"
      "client_weight (len_thr (tm_man s)) p + 201 * length (nq_tasks q')
        < client_weight (len_thr (tm_man s)) (Trying index i t) + 201 * length (nq_tasks (q_arr (tm_man s) ! k))"
      by blast
    have "tm_inv (move_client s c k q' p)" by (rule move_client_inv[OF inv c Trying m(2-7)])
    moreover have "tm_measure (move_client s c k q' p) < tm_measure s"
      by (rule move_client_measure) (use m(2,8) c Trying tm_inv_parts(6)[OF inv] in simp_all)
    ultimately show ?thesis using m(1) by (simp add: move_client_def)
  next
    case (Signalling k)
    then show ?thesis using signalling_step[OF inv c Signalling] by (simp add: client_step_def)
  qed (use en in simp)
qed

subsection \<open>Calls, spurious wake-ups, and closing\<close>

lemma tm_call_ok:
  assumes inv: "tm_inv s" and en: "tm_enabled s (Call c t)" and ok: "event_ok (Call c t)"
  shows "\<exists>s'. tm_exec s (Call c t) = Some s' \<and> tm_inv s' \<and> tm_submitted s' = tm_submitted s @ [t]"
proof -
  note parts = tm_inv_parts[OF inv]
  have c: "c < length (tm_clients s)" "tm_clients s ! c = Outside" "tm_closing s = Opened" using en by auto
  define p where "p = Trying (tm_index (tm_man s)) 0 t"
  define s' where "s' = s\<lparr>tm_man := (tm_man s)\<lparr>tm_index := tm_index (tm_man s) + 1\<rparr>,
    tm_clients := (tm_clients s)[c := p], tm_submitted := tm_submitted s @ [t]\<rparr>"
  have "tm_exec s (Call c t) = Some s'"
    using parts(1) ok by (simp add: async_start_def tm_shape_def s'_def p_def)
  moreover have "tm_shape s'" "tm_flags s'" "tm_phase s'"
    using parts(1-3) c(3) by (simp_all add: tm_parts s'_def)
  moreover have "tm_wakers s'"
  proof -
    have "client_ok (tm_man s') x" if "x \<in> set (tm_clients s')" for x
    proof -
      have "x = p \<or> x \<in> set (tm_clients s)"
        using that set_update_subset_insert[of "tm_clients s" c p] by (auto simp: s'_def)
      with parts(4) ok show ?thesis
        by (auto simp: tm_wakers_def s'_def p_def client_ok_def split: tm_client.splits)
    qed
    moreover have "Signalling j \<in> set ((tm_clients s)[c := p])" if "Signalling j \<in> set (tm_clients s)" for j
      using that c(2) by (intro set_update_keeps) auto
    ultimately show ?thesis
      using parts(4) c(3) by (auto simp: tm_wakers_def s'_def)
  qed
  moreover have "tm_conserved s'"
    using parts(5) msum_update[OF c(1), of client_tasks p] c(2)
    by (simp add: tm_conserved_def s'_def live_queues_def c(3) p_def)
  ultimately show ?thesis by (auto simp: tm_inv_def s'_def)
qed

lemma spurious_ok:
  assumes inv: "tm_inv s"
  shows "\<exists>s'. tm_exec s (Spurious w) = Some s' \<and> tm_inv s' \<and> tm_submitted s' = tm_submitted s"
proof -
  note parts = tm_inv_parts[OF inv]
  let ?s = "s\<lparr>tm_workers := wake w (tm_workers s)\<rparr>"
  have "tm_shape ?s" using parts(1) by (simp add: tm_shape_def)
  moreover have "tm_flags ?s" using parts(2,7) by (auto simp: tm_flags_def nth_wake split: if_splits)
  moreover have "tm_phase ?s" using parts(3,7) by (auto simp: tm_phase_def nth_wake split: closing.splits)
  moreover have "tm_wakers ?s" using parts(4,7) by (auto simp: tm_wakers_def nth_wake split: if_splits)
  moreover have "tm_conserved ?s" using parts(5) by (cases "tm_closing s") (simp_all add: tm_conserved_def live_queues_def)
  ultimately show ?thesis by (simp add: tm_inv_def)
qed

lemma close_ok:
  assumes inv: "tm_inv s" and en: "tm_enabled s (Close clean)"
  shows "\<exists>s'. tm_exec s (Close clean) = Some s' \<and> tm_inv s' \<and> tm_submitted s' = tm_submitted s"
proof -
  note parts = tm_inv_parts[OF inv]
  have c: "tm_closing s = Opened" "\<forall>c \<in> set (tm_clients s). c = Outside"
    using en by (auto simp: list_all_iff)
  let ?s = "s\<lparr>tm_closing := Done_at 0, tm_clean := clean\<rparr>"
  have "tm_shape ?s" "tm_phase ?s" "tm_flags ?s" "tm_wakers ?s"
    using parts(1-4) c by (auto simp: tm_parts raised_def client_ok_def)
  moreover have "tm_conserved ?s"
    using parts(5) c(1) by (simp add: tm_conserved_def live_queues_def)
  ultimately show ?thesis by (simp add: tm_inv_def)
qed

subsection \<open>Freeing the pool\<close>

text \<open>A step of \<^verbatim>\<open>free_task_manager\<close> that changes nothing but where it is.\<close>

lemma closer_moves:
  assumes inv: "tm_inv s" and shut: "tm_closing s \<noteq> Opened"
    and step: "tm_exec s Closer = Some (s\<lparr>tm_closing := c\<rparr>)" "c \<noteq> Opened"
    and same: "\<And>k. k < len_thr (tm_man s) \<Longrightarrow> raised c k = raised (tm_closing s) k"
      "live_queues (s\<lparr>tm_closing := c\<rparr>) = live_queues s"
    and phase: "tm_phase (s\<lparr>tm_closing := c\<rparr>)"
    and awake: "\<forall>k. tm_closing s \<noteq> Done_signal k"
    and less: "closing_weight (len_thr (tm_man s)) c < closing_weight (len_thr (tm_man s)) (tm_closing s)"
  shows "\<exists>s'. tm_exec s Closer = Some s' \<and> tm_inv s' \<and> tm_measure s' < tm_measure s
    \<and> tm_submitted s' = tm_submitted s"
proof -
  note parts = tm_inv_parts[OF inv]
  let ?s = "s\<lparr>tm_closing := c\<rparr>"
  have "tm_shape ?s" "tm_flags ?s" using parts(1,2) same by (auto simp: tm_parts)
  moreover have "tm_wakers ?s" using parts(4) awake by (auto simp: tm_wakers_def)
  moreover have "tm_conserved ?s" using parts(5) same(2) by (simp add: tm_conserved_def)
  moreover have "tm_measure ?s < tm_measure s" using less by (simp add: tm_measure_def)
  ultimately show ?thesis using phase step(1) by (simp add: tm_inv_def)
qed

lemma raise_ok:
  assumes inv: "tm_inv s" and c: "tm_closing s = Done_at i" and i: "i < len_thr (tm_man s)"
  shows "\<exists>s'. tm_exec s Closer = Some s' \<and> tm_inv s' \<and> tm_measure s' < tm_measure s
    \<and> tm_submitted s' = tm_submitted s"
proof -
  note parts = tm_inv_parts[OF inv]
  let ?q = "q_arr (tm_man s) ! i"
  let ?qs = "(q_arr (tm_man s))[i := done_not_q ?q]"
  let ?s = "s\<lparr>tm_man := (tm_man s)\<lparr>q_arr := ?qs\<rparr>, tm_closing := Done_signal i\<rparr>"
  have q: "nq_inv (done_not_q ?q)" "nq_tasks (done_not_q ?q) = nq_tasks ?q"
    using parts(8)[OF i] by (simp_all add: nq_inv_def nq_tasks_def done_not_q_def)
  have "tm_exec s Closer = Some ?s" using c i parts(6) by (simp add: free_task_manager_def Let_def)
  moreover have "tm_shape ?s"
    using parts(1) q(1) set_update_subset_insert[of "q_arr (tm_man s)" i "done_not_q ?q"]
    by (auto simp: tm_shape_def)
  moreover have "tm_flags ?s"
    using parts(2,6) c i by (auto simp: tm_flags_def raised_def nth_list_update done_not_q_def)
  moreover have "tm_phase ?s" using parts(3) c i by (simp add: tm_phase_def)
  moreover have "tm_wakers ?s"
    using parts(4,6) c i by (auto simp: tm_wakers_def nth_list_update client_ok_def split: tm_client.splits)
  moreover have "tm_conserved ?s"
    using parts(5) c msum_update[of i "q_arr (tm_man s)" nq_tasks "done_not_q ?q"] i parts(6) q(2)
    by (simp add: tm_conserved_def live_queues_def)
  moreover have "tm_measure ?s < tm_measure s"
    using c i parts(6) q(2)
      sum_list_update_add[of i "q_arr (tm_man s)" "\<lambda>q. 201 * length (nq_tasks q)" "done_not_q ?q"]
    by (simp add: tm_measure_def del: length_nq_tasks)
  ultimately show ?thesis by (simp add: tm_inv_def)
qed

lemma raised_signal_ok:
  assumes inv: "tm_inv s" and c: "tm_closing s = Done_signal i"
  shows "\<exists>s'. tm_exec s Closer = Some s' \<and> tm_inv s' \<and> tm_measure s' < tm_measure s
    \<and> tm_submitted s' = tm_submitted s"
proof -
  note parts = tm_inv_parts[OF inv]
  let ?s = "s\<lparr>tm_workers := wake i (tm_workers s), tm_closing := Done_at (i + 1)\<rparr>"
  have i: "i < len_thr (tm_man s)" using parts(3) c by (simp add: tm_phase_def)
  have "tm_exec s Closer = Some ?s" using c by (simp add: free_task_manager_def Let_def)
  moreover have "tm_shape ?s" using parts(1) by (simp add: tm_shape_def)
  moreover have "tm_flags ?s"
    using parts(2,7) c by (auto simp: tm_flags_def raised_def nth_wake less_Suc_eq_le split: if_splits)
  moreover have "tm_phase ?s" using parts(3) c i by (simp add: tm_phase_def)
  moreover have "tm_wakers ?s"
    using parts(4,7) c by (auto simp: tm_wakers_def nth_wake split: if_splits)
  moreover have "tm_conserved ?s" using parts(5) c by (simp add: tm_conserved_def live_queues_def)
  moreover have "tm_measure ?s < tm_measure s"
    using weight_wake[of "len_thr (tm_man s)" i "tm_workers s"] c i by (simp add: tm_measure_def)
  ultimately show ?thesis by (simp add: tm_inv_def)
qed

lemma free_queue_ok:
  assumes inv: "tm_inv s" and c: "tm_closing s = Free_at i" and i: "i < len_thr (tm_man s)"
  shows "\<exists>s'. tm_exec s Closer = Some s' \<and> tm_inv s' \<and> tm_measure s' < tm_measure s
    \<and> tm_submitted s' = tm_submitted s"
proof -
  note parts = tm_inv_parts[OF inv]
  let ?q = "q_arr (tm_man s) ! i"
  let ?s = "s\<lparr>tm_closing := Free_at (i + 1), tm_cleaned := tm_cleaned s @ (if tm_clean s then nq_tasks ?q else []),
    tm_left := tm_left s @ nq_tasks ?q\<rparr>"
  have up: "nq_done ?q = 1" using parts(2) c i by (simp add: tm_flags_def raised_def)
  have "tm_exec s Closer = Some ?s"
    using c i parts(6) free_not_q_ok[OF parts(8)[OF i] up]
    by (simp add: free_task_manager_def Let_def nq_tasks_def)
  moreover have "tm_shape ?s" "tm_flags ?s" "tm_phase ?s" "tm_wakers ?s"
    using parts(1-4) c i by (auto simp: tm_parts raised_def)
  moreover have "tm_conserved ?s"
  proof -
    have "drop i (q_arr (tm_man s)) = ?q # drop (Suc i) (q_arr (tm_man s))"
      using i parts(6) by (simp add: Cons_nth_drop_Suc)
    moreover have "drop (Suc i) (q_arr (tm_man s)) \<noteq> q_arr (tm_man s)"
      using i parts(6) by (metis Suc_neq_Zero diff_diff_cancel diff_self_eq_0 length_drop less_eq_Suc_le)
    ultimately show ?thesis
      using parts(5) c by (simp add: tm_conserved_def live_queues_def ac_simps)
  qed
  moreover have "tm_measure ?s < tm_measure s" using c i by (simp add: tm_measure_def)
  ultimately show ?thesis by (simp add: tm_inv_def)
qed

lemma closer_ok:
  assumes inv: "tm_inv s" and en: "tm_enabled s Closer"
  shows "\<exists>s'. tm_exec s Closer = Some s' \<and> tm_inv s' \<and> tm_measure s' < tm_measure s
    \<and> tm_submitted s' = tm_submitted s"
proof -
  note parts = tm_inv_parts[OF inv]
  let ?len = "len_thr (tm_man s)"
  show ?thesis
  proof (cases "tm_closing s")
    case (Done_at i)
    then have "i \<le> ?len" using parts(3) by (simp add: tm_phase_def)
    show ?thesis
    proof (cases "i < ?len")
      case False
      with Done_at \<open>i \<le> ?len\<close> show ?thesis
        using parts(3) by (intro closer_moves[OF inv, of "Join_at 0"])
          (auto simp: free_task_manager_def Let_def raised_def live_queues_def tm_phase_def)
    qed (use raise_ok[OF inv Done_at] in blast)
  next
    case (Done_signal i)
    then show ?thesis using raised_signal_ok[OF inv] by blast
  next
    case (Join_at i)
    show ?thesis
    proof (cases "i < ?len")
      case True
      with Join_at en have "tm_workers s ! i = Exited" using parts(7) by simp
      with Join_at True show ?thesis
        using parts(3) by (intro closer_moves[OF inv, of "Join_at (i + 1)"])
          (auto simp: free_task_manager_def Let_def raised_def live_queues_def tm_phase_def less_Suc_eq)
    next
      case False
      with Join_at show ?thesis
        using parts(3) by (intro closer_moves[OF inv, of "Free_at 0"])
          (auto simp: free_task_manager_def Let_def raised_def live_queues_def tm_phase_def)
    qed
  next
    case (Free_at i)
    show ?thesis
    proof (cases "i < ?len")
      case True
      with free_queue_ok[OF inv Free_at] show ?thesis by blast
    next
      case False
      with Free_at show ?thesis
        using parts(3,6) by (intro closer_moves[OF inv, of Freed])
          (auto simp: free_task_manager_def Let_def raised_def live_queues_def tm_phase_def)
    qed
  qed (use en in simp_all)
qed

subsection \<open>Runs\<close>

text \<open>The steps that the threads make on their own, without a call from outside or the system waking
  a thread for no reason.\<close>

fun internal :: "tm_event \<Rightarrow> bool" where
  "internal (Client c busy) = True"
| "internal (Work w busy) = True"
| "internal Closer = True"
| "internal _ = False"

fun tm_calls :: "tm_event list \<Rightarrow> task_t list" where
  "tm_calls [] = []"
| "tm_calls (Call c t # evs) = t # tm_calls evs"
| "tm_calls (_ # evs) = tm_calls evs"

lemma tm_calls_append [simp]: "tm_calls (evs @ evs') = tm_calls evs @ tm_calls evs'"
  by (induction evs rule: tm_calls.induct) simp_all

lemma step_ok:
  assumes "tm_inv s" "tm_enabled s ev" "event_ok ev" "length (tm_submitted s) < 2 ^ 31"
  shows "\<exists>s'. tm_exec s ev = Some s' \<and> tm_inv s' \<and> (internal ev \<longrightarrow> tm_measure s' < tm_measure s)
    \<and> tm_submitted s' = tm_submitted s @ tm_calls [ev]"
proof (cases ev)
  case (Call c t)
  with tm_call_ok[of s c t] assms show ?thesis by auto
next
  case (Client c busy)
  with client_step_ok[of s c busy] assms show ?thesis by auto
next
  case (Work w busy)
  with worker_step_ok[of s w busy] assms show ?thesis by auto
next
  case (Spurious w)
  with spurious_ok[of s w] assms show ?thesis by auto
next
  case (Close clean)
  with close_ok[of s clean] assms show ?thesis by auto
next
  case Closer
  with closer_ok[of s] assms show ?thesis by auto
qed

lemma run_inv:
  assumes "tm_run s evs s'" "tm_inv s" "list_all event_ok evs"
    "length (tm_submitted s) + length (tm_calls evs) < 2 ^ 31"
  shows "tm_inv s' \<and> tm_submitted s' = tm_submitted s @ tm_calls evs"
  using assms
proof (induction rule: tm_run.induct)
  case (snoc s evs s' ev s'')
  then have "tm_inv s'" "tm_submitted s' = tm_submitted s @ tm_calls evs" by simp_all
  with step_ok[of s' ev] snoc show ?case by auto
qed simp

lemma run_shrinks:
  assumes "tm_run s evs s'" "list_all internal evs" "tm_inv s" "length (tm_submitted s) < 2 ^ 31"
  shows "tm_inv s' \<and> tm_submitted s' = tm_submitted s \<and> tm_measure s' + length evs \<le> tm_measure s"
  using assms
proof (induction rule: tm_run.induct)
  case (snoc s evs s' ev s'')
  then have 1: "tm_inv s'" "tm_submitted s' = tm_submitted s" "tm_measure s' + length evs \<le> tm_measure s"
    by simp_all
  have "internal ev" "event_ok ev" "tm_calls [ev] = []"
    using snoc.prems by (cases ev; simp)+
  with step_ok[of s' ev] 1 snoc show ?case by fastforce
qed simp

end
