(* ===== verification/Task_Man_Properties.thy ===== *)
theory Task_Man_Properties
  imports Task_Man_Steps
begin

text \<open>
  What the invariant and the measure of \<open>Task_Man_Steps\<close> give for the runs of the pool: every task is
  run or cleaned up once, the pool comes to rest with nothing left behind; and what it does not
  promise: the order of the tasks, and that an idle thread takes a waiting task.
\<close>

subsection \<open>Running a list of events\<close>

fun tm_exec_all :: "tm_sys \<Rightarrow> tm_event list \<Rightarrow> tm_sys option" where
  "tm_exec_all s [] = Some s"
| "tm_exec_all s (ev # evs) = (if tm_enabled s ev then Option.bind (tm_exec s ev) (\<lambda>s. tm_exec_all s evs) else None)"

lemma exec_all_run: "tm_run s pre s' \<Longrightarrow> tm_exec_all s' evs = Some s'' \<Longrightarrow> tm_run s (pre @ evs) s''"
proof (induction evs arbitrary: pre s')
  case (Cons ev evs)
  then obtain s1 where s1: "tm_enabled s' ev" "tm_exec s' ev = Some s1" "tm_exec_all s1 evs = Some s''"
    by (auto simp: bind_Some_iff split: if_splits)
  from Cons.IH[OF tm_run.snoc[OF Cons.prems(1) s1(1,2)] s1(3)] show ?case by simp
qed simp

lemma exec_all_sound: "tm_exec_all s evs = Some s' \<Longrightarrow> tm_run s evs s'"
  using exec_all_run[OF tm_run.nil] by simp

lemma exec_all_append:
  "tm_exec_all s (evs @ evs') = Option.bind (tm_exec_all s evs) (\<lambda>s. tm_exec_all s evs')"
  by (induction evs arbitrary: s) (simp_all split: bind_splits)

subsection \<open>A pool of two threads\<close>

definition two_threads :: tm_sys where
  "two_threads = \<lparr>tm_man = \<lparr>q_arr = [init_not_q, init_not_q], len_thr = 2, tm_index = 0\<rparr>,
     tm_workers = [Scan 0, Scan 1], tm_clients = [Outside], tm_closing = Opened, tm_clean = False,
     tm_submitted = [], tm_ran = [], tm_left = [], tm_cleaned = []\<rparr>"

lemma init_two_threads: "init_tm_sys 2 1 = Some two_threads"
  by (simp add: init_tm_sys_def init_task_manager_def two_threads_def numeral_2_eq_2)

definition msg_task :: "u64 \<Rightarrow> task_t" where
  "msg_task a = \<lparr>t_args = a, t_func = 4096\<rparr>"

lemma msg_task_sel [simp]: "t_args (msg_task a) = a" "t_func (msg_task a) \<noteq> 0"
  by (simp_all add: msg_task_def)

text \<open>A client submits a task: the call, its push to a queue nobody holds, the signal.\<close>

definition submit :: "u64 \<Rightarrow> tm_event list" where
  "submit a = [Call 0 (msg_task a), Client 0 False, Client 0 False]"

lemmas tm_eval = two_threads_def submit_def client_step_def async_loop_def async_queue_def async_start_def
  worker_thread_tm_def free_task_manager_def Let_def wake_def peek_def

lemma queue_one:
  assumes "a \<noteq> 0"
  obtains q where "try_push_not_q False init_not_q (msg_task a) = Some (q, True)"
    "nq_inv q" "nq_tasks q = [msg_task a]" "nq_done q = 0"
  using pushes[of init_not_q "msg_task a"] assms by (auto simp flip: length_0_conv)

text \<open>Two messages arrive, the second is handled first; then the pool is freed before the first is.\<close>

definition overtaking :: "tm_event list" where
  "overtaking = submit 1 @ submit 2 @ [Work 1 False, Work 1 False]"

lemma overtaking_run:
  "\<exists>s. tm_exec_all two_threads overtaking = Some s \<and> tm_ran s = [msg_task 2]
    \<and> (\<exists>s'. tm_exec_all s [Work 0 False, Work 0 False] = Some s' \<and> tm_ran s' = [msg_task 2, msg_task 1])"
proof -
  obtain q1 where q1: "try_push_not_q False init_not_q (msg_task 1) = Some (q1, True)"
    "nq_inv q1" "nq_tasks q1 = [msg_task 1]" "nq_done q1 = 0" using queue_one[of 1] by auto
  obtain q2 where q2: "try_push_not_q False init_not_q (msg_task 2) = Some (q2, True)"
    "nq_inv q2" "nq_tasks q2 = [msg_task 2]" "nq_done q2 = 0" using queue_one[of 2] by auto
  obtain q1' where q1': "try_pop_not_q False q1 = Some (q1', \<lparr>rt_t = [msg_task 1], rt_success = True\<rparr>)"
    using try_pop_tasks[OF q1(2)] q1(3) length_nq_tasks[of q1] by (auto simp: batch_len_def)
  obtain q2' where q2': "try_pop_not_q False q2 = Some (q2', \<lparr>rt_t = [msg_task 2], rt_success = True\<rparr>)"
    using try_pop_tasks[OF q2(2)] q2(3) length_nq_tasks[of q2] by (auto simp: batch_len_def)
  show ?thesis
    by (simp add: overtaking_def tm_eval q1(1) q2(1) q1' q2')
qed

text \<open>The pool is freed before the first task ran: the join waits for both threads, which find every
  mutex taken on their last round.\<close>

definition shutting :: "tm_event list" where
  "shutting = overtaking @ Close True # replicate 5 Closer @ replicate 6 (Work 0 True)
     @ [Work 0 True, Work 0 True, Work 1 True] @ replicate 8 (Work 1 True) @ [Work 1 True, Work 1 True]
     @ replicate 6 Closer"

lemma shutting_run:
  "\<exists>s. tm_exec_all two_threads shutting = Some s \<and> tm_closing s = Freed \<and> tm_clean s
    \<and> tm_ran s = [msg_task 2] \<and> tm_cleaned s = [msg_task 1]"
proof -
  obtain q1 where q1: "try_push_not_q False init_not_q (msg_task 1) = Some (q1, True)"
    "nq_inv q1" "nq_tasks q1 = [msg_task 1]" "nq_done q1 = 0" using queue_one[of 1] by auto
  obtain q2 where q2: "try_push_not_q False init_not_q (msg_task 2) = Some (q2, True)"
    "nq_inv q2" "nq_tasks q2 = [msg_task 2]" "nq_done q2 = 0" using queue_one[of 2] by auto
  obtain q2' where q2': "try_pop_not_q False q2 = Some (q2', \<lparr>rt_t = [msg_task 2], rt_success = True\<rparr>)"
    "nq_inv q2'" "nq_tasks q2' = []"
    using try_pop_tasks[OF q2(2)] q2(3) length_nq_tasks[of q2] by (auto simp: batch_len_def)
  have up: "nq_done (done_not_q q) = 1" "pop_not_q (done_not_q q) = Some (done_not_q q, Pop_null)" for q
    by (simp_all add: done_not_q_def pop_done)
  have free: "free_not_q True (done_not_q q) = Some (nq_tasks q)" if "nq_inv q" for q
    using free_not_q_ok[of "done_not_q q" True] that by (simp add: done_not_q_def nq_inv_def nq_tasks_def)
  have rep: "replicate 5 x = [x, x, x, x, x]" "replicate 6 x = [x, x, x, x, x, x]"
    "replicate 8 x = [x, x, x, x, x, x, x, x]" for x :: tm_event
    by (simp_all add: numeral_eq_Suc)
  show ?thesis
    using q1(3) q2'(3)
    by (simp add: shutting_def overtaking_def tm_eval q1(1) q2(1) q2' up free[OF q1(2)] free[OF q2'(2)]
        rep)
qed

subsection \<open>Every task once\<close>

lemma msum_nil: "(\<And>x. x \<in> set xs \<Longrightarrow> f x = []) \<Longrightarrow> msum f xs = {#}"
  by (induction xs) simp_all

lemma tm_reachable_inv:
  assumes "init_tm_sys n clients = Some s" "tm_run s evs s'" "list_all event_ok evs"
    "length (tm_calls evs) < 2 ^ 31"
  shows "tm_inv s'" "tm_submitted s' = tm_calls evs"
  using run_inv[OF assms(2)] init_inv[OF assms(1)] assms(3,4) by auto

text \<open>
  C10: for every interleaving of the clients, the workers and \<^verbatim>\<open>free_task_manager\<close> (below 2^31 calls, no
  null pointers in them), every task that was submitted is accounted for exactly once: it ran, a
  worker has taken it, a client is pushing it, it is in a queue, or it was left over when its queue
  was freed; when \<^verbatim>\<open>free_task_manager\<close> has returned, each ran or was left over, and \<^verbatim>\<open>clean\<close>, if
  there is one, was called on exactly the tasks left over.
\<close>
theorem tasks_exactly_once:
  assumes "init_tm_sys n clients = Some s" and "tm_run s evs s'" and "list_all event_ok evs"
    and "length (tm_calls evs) < 2 ^ 31"
  shows "mset (tm_calls evs) = mset (tm_ran s') + mset (tm_left s')
      + sum_list (map (\<lambda>w. mset (worker_tasks w)) (tm_workers s'))
      + sum_list (map (\<lambda>c. mset (client_tasks c)) (tm_clients s'))
      + sum_list (map (\<lambda>q. mset (nq_tasks q)) (live_queues s'))
    \<and> (tm_closing s' = Freed \<longrightarrow> mset (tm_calls evs) = mset (tm_ran s') + mset (tm_left s')
        \<and> tm_cleaned s' = (if tm_clean s' then tm_left s' else []))"
proof -
  note inv = tm_reachable_inv[OF assms]
  note parts = tm_inv_parts[OF inv(1)]
  have freed: "msum worker_tasks (tm_workers s') = {#}" "msum client_tasks (tm_clients s') = {#}"
    "live_queues s' = []" if "tm_closing s' = Freed"
  proof -
    have "set (tm_workers s') \<subseteq> {Exited}"
      using parts(3,7) \<open>tm_closing s' = Freed\<close> by (auto simp: tm_phase_def in_set_conv_nth)
    then show "msum worker_tasks (tm_workers s') = {#}" by (intro msum_nil) auto
    have "set (tm_clients s') \<subseteq> {Outside}"
      using parts(3) \<open>tm_closing s' = Freed\<close> by (auto simp: tm_phase_def)
    then show "msum client_tasks (tm_clients s') = {#}" by (intro msum_nil) auto
    show "live_queues s' = []" using that by (simp add: live_queues_def)
  qed
  show ?thesis
    using parts(5) freed inv(2) by (auto simp: tm_conserved_def)
qed

theorem tasks_exactly_once_witness:
  "\<exists>s. tm_run two_threads shutting s \<and> tm_closing s = Freed \<and> tm_cleaned s = [msg_task 1]
    \<and> {#msg_task 1, msg_task 2#} = mset (tm_ran s) + mset (tm_cleaned s)"
proof -
  obtain s where s: "tm_exec_all two_threads shutting = Some s" "tm_closing s = Freed" "tm_clean s"
    "tm_cleaned s = [msg_task 1]" using shutting_run by blast
  have ok: "list_all event_ok shutting" "tm_calls shutting = [msg_task 1, msg_task 2]"
    by (simp_all add: shutting_def overtaking_def submit_def numeral_eq_Suc)
  from tasks_exactly_once[OF init_two_threads exec_all_sound[OF s(1)] ok(1)] s ok(2)
  show ?thesis using exec_all_sound[OF s(1)] by (intro exI[of _ s]) auto
qed

subsection \<open>Coming to rest\<close>

definition at_rest :: "tm_sys \<Rightarrow> bool" where
  "at_rest s \<longleftrightarrow> \<not> (\<exists>ev. internal ev \<and> tm_enabled s ev)"

lemma all_asleep:
  assumes inv: "tm_inv s" and rest: "at_rest s"
  shows "set (tm_clients s) \<subseteq> {Outside}"
    and "k < len_thr (tm_man s) \<Longrightarrow> tm_workers s ! k = Asleep \<or> tm_workers s ! k = Exited"
proof -
  have idle: "\<not> tm_enabled s (Client d False)" "\<not> tm_enabled s (Work k False)" for d k
    using rest internal.simps(1,2) unfolding at_rest_def by blast+
  show "set (tm_clients s) \<subseteq> {Outside}"
    using idle(1) by (auto simp: in_set_conv_nth)
  show "tm_workers s ! k = Asleep \<or> tm_workers s ! k = Exited" if "k < len_thr (tm_man s)"
    using idle(2)[of k] that tm_inv_parts(7)[OF inv] by auto
qed

lemma rest_opened:
  assumes inv: "tm_inv s" and rest: "at_rest s" and c: "tm_closing s = Opened"
  shows "mset (tm_ran s) = mset (tm_submitted s)"
proof -
  note parts = tm_inv_parts[OF inv]
  note asleep = all_asleep[OF inv rest]
  have k: "tm_workers s ! k = Asleep \<and> nq_tasks (q_arr (tm_man s) ! k) = []" if "k < len_thr (tm_man s)" for k
  proof -
    have "tm_workers s ! k = Asleep" using asleep(2)[OF that] parts(2) that c by (auto simp: tm_flags_def raised_def)
    moreover have "Signalling k \<notin> set (tm_clients s)" using asleep(1) by auto
    ultimately show ?thesis using parts(4) that c by (auto simp: tm_wakers_def)
  qed
  have "set (tm_workers s) \<subseteq> {Asleep}" using k parts(7) by (auto simp: in_set_conv_nth)
  then have "msum worker_tasks (tm_workers s) = {#}" by (intro msum_nil) auto
  moreover have "msum client_tasks (tm_clients s) = {#}" using asleep(1) by (intro msum_nil) auto
  moreover have "nq_tasks q = []" if "q \<in> set (q_arr (tm_man s))" for q
    using that k parts(6) by (metis in_set_conv_nth)
  then have "msum nq_tasks (q_arr (tm_man s)) = {#}" by (intro msum_nil)
  ultimately show ?thesis
    using parts(5) c by (simp add: tm_conserved_def live_queues_def)
qed

lemma rest_closed:
  assumes inv: "tm_inv s" and rest: "at_rest s" and c: "tm_closing s \<noteq> Opened"
  shows "tm_closing s = Freed"
proof (rule ccontr)
  note parts = tm_inv_parts[OF inv]
  note asleep = all_asleep[OF inv rest]
  assume nf: "tm_closing s \<noteq> Freed"
  have "\<not> tm_enabled s Closer" using rest internal.simps(3) unfolding at_rest_def by blast
  with c nf obtain i where i: "tm_closing s = Join_at i" "i < len_thr (tm_man s)" "tm_workers s ! i \<noteq> Exited"
    using parts(7) by (cases "tm_closing s") auto
  then have "tm_workers s ! i = Asleep" "nq_done (q_arr (tm_man s) ! i) = 1"
    using asleep(2)[OF i(2)] parts(2) by (auto simp: tm_flags_def raised_def)
  moreover have "Signalling i \<notin> set (tm_clients s)" using asleep(1) by auto
  ultimately show False using i parts(4) by (auto simp: tm_wakers_def)
qed

text \<open>
  C11: no step of the pool aborts, no wake-up is lost and no thread spins: in every reachable state
  each step that is due can be taken; without new calls and spurious wake-ups the threads can take
  at most \<open>tm_measure s'\<close> steps, whatever \<^verbatim>\<open>trylock\<close> answers; and when none is left to take, either
  the pool is open and every task that was submitted has run, or \<^verbatim>\<open>free_task_manager\<close> has returned.
\<close>
theorem pool_comes_to_rest:
  assumes "init_tm_sys n clients = Some s" and "tm_run s evs s'" and "list_all event_ok evs"
    and "length (tm_calls evs) < 2 ^ 31"
  shows "(tm_enabled s' ev \<and> event_ok ev \<longrightarrow> tm_exec s' ev \<noteq> None)
    \<and> (tm_run s' evs' s'' \<and> list_all internal evs' \<longrightarrow> length evs' \<le> tm_measure s')
    \<and> (at_rest s' \<longrightarrow>
         (if tm_closing s' = Opened then mset (tm_ran s') = mset (tm_calls evs) else tm_closing s' = Freed))"
proof -
  note inv = tm_reachable_inv[OF assms]
  have len: "length (tm_submitted s') < 2 ^ 31" using inv(2) assms(4) by simp
  have "tm_exec s' ev \<noteq> None" if "tm_enabled s' ev" "event_ok ev"
    using step_ok[OF inv(1) that len] by auto
  moreover have "length evs' \<le> tm_measure s'" if "tm_run s' evs' s''" "list_all internal evs'"
    using run_shrinks[OF that inv(1) len] by simp
  moreover have "if tm_closing s' = Opened then mset (tm_ran s') = mset (tm_calls evs) else tm_closing s' = Freed"
    if "at_rest s'"
    using rest_opened[OF inv(1)] rest_closed[OF inv(1)] that inv(2) by auto
  ultimately show ?thesis by blast
qed

text \<open>Two messages, and then everything comes to rest.\<close>

definition resting :: "tm_event list" where
  "resting = overtaking @ [Work 0 False, Work 0 False, Work 0 False, Work 1 False]
     @ [Work 0 True, Work 0 True, Work 0 True, Work 0 True, Work 0 True, Work 0 True]
     @ [Work 1 True, Work 1 True, Work 1 True, Work 1 True, Work 1 True, Work 1 True, Work 1 True, Work 1 True]
     @ [Work 0 True, Work 0 True, Work 1 True, Work 1 True]"

lemma resting_run:
  "\<exists>s. tm_exec_all two_threads resting = Some s \<and> tm_closing s = Opened
    \<and> tm_workers s = [Asleep, Asleep] \<and> tm_clients s = [Outside]"
proof -
  obtain q1 where q1: "try_push_not_q False init_not_q (msg_task 1) = Some (q1, True)"
    "nq_inv q1" "nq_tasks q1 = [msg_task 1]" "nq_done q1 = 0" using queue_one[of 1] by auto
  obtain q2 where q2: "try_push_not_q False init_not_q (msg_task 2) = Some (q2, True)"
    "nq_inv q2" "nq_tasks q2 = [msg_task 2]" "nq_done q2 = 0" using queue_one[of 2] by auto
  obtain q1' where q1': "try_pop_not_q False q1 = Some (q1', \<lparr>rt_t = [msg_task 1], rt_success = True\<rparr>)"
    "nq_tasks q1' = []" "nq_done q1' = 0"
    using try_pop_tasks[OF q1(2)] q1(3,4) length_nq_tasks[of q1] by (auto simp: batch_len_def)
  obtain q2' where q2': "try_pop_not_q False q2 = Some (q2', \<lparr>rt_t = [msg_task 2], rt_success = True\<rparr>)"
    "nq_tasks q2' = []" "nq_done q2' = 0"
    using try_pop_tasks[OF q2(2)] q2(3,4) length_nq_tasks[of q2] by (auto simp: batch_len_def)
  show ?thesis
    by (simp add: resting_def overtaking_def tm_eval q1(1) q2(1) q1'(1) q2'(1)
        pop_wait[OF q1'(2,3)] pop_wait[OF q2'(2,3)])
qed

theorem pool_comes_to_rest_witness:
  "\<exists>s. tm_run two_threads resting s \<and> mset (tm_ran s) = {#msg_task 1, msg_task 2#}"
proof -
  obtain s where s: "tm_exec_all two_threads resting = Some s" "tm_closing s = Opened"
    "tm_workers s = [Asleep, Asleep]" "tm_clients s = [Outside]" using resting_run by blast
  have ok: "list_all event_ok resting" "tm_calls resting = [msg_task 1, msg_task 2]"
    by (simp_all add: resting_def overtaking_def submit_def)
  have "\<not> (internal ev \<and> tm_enabled s ev)" for ev
    using s by (cases ev) (auto simp: nth_Cons split: nat.splits)
  then have "at_rest s" by (simp add: at_rest_def)
  then have "mset (tm_ran s) = mset (tm_calls resting)"
    using pool_comes_to_rest[OF init_two_threads exec_all_sound[OF s(1)] ok(1)] s(2) ok(2) by auto
  with ok(2) show ?thesis using exec_all_sound[OF s(1)] by (intro exI[of _ s]) simp
qed

subsection \<open>What the pool does not promise\<close>

text \<open>
  C35: the pool does not keep the order of the tasks: with the two threads of the default build, a
  task submitted after another runs before it, and both do run.  The event loop of the RIC submits
  the messages of an E2 node in the order in which they arrive, so the RIC can handle them in
  another order.
\<close>
theorem tasks_overtake:
  "\<exists>s evs s' evs' s''. init_tm_sys 2 1 = Some s \<and> tm_run s evs s' \<and> tm_calls evs = [msg_task 1, msg_task 2]
    \<and> tm_ran s' = [msg_task 2] \<and> tm_run s' evs' s'' \<and> tm_ran s'' = [msg_task 2, msg_task 1]"
proof -
  obtain s s' where s: "tm_exec_all two_threads overtaking = Some s" "tm_ran s = [msg_task 2]"
    "tm_exec_all s [Work 0 False, Work 0 False] = Some s'" "tm_ran s' = [msg_task 2, msg_task 1]"
    using overtaking_run by blast
  have "tm_calls overtaking = [msg_task 1, msg_task 2]" by (simp add: overtaking_def submit_def)
  with s init_two_threads exec_all_sound show ?thesis by blast
qed

text \<open>
  Only the owner of a queue is woken: while thread 0 runs a long task, a task that goes to its queue
  stays there, although thread 1 is idle.  Nothing but thread 0 can make a step.
\<close>
theorem idle_thread_does_not_steal:
  "\<exists>evs s. tm_run two_threads evs s \<and> tm_workers s = [Run [msg_task 1], Asleep]
    \<and> nq_tasks (q_arr (tm_man s) ! 0) = [msg_task 3]
    \<and> (\<forall>ev. internal ev \<and> tm_enabled s ev \<longrightarrow> (\<exists>busy. ev = Work 0 busy))"
proof -
  let ?evs = "submit 1 @ [Work 0 False] @ submit 2 @ [Work 1 False, Work 1 False, Work 1 False]
     @ [Work 1 True, Work 1 True, Work 1 True, Work 1 True, Work 1 True, Work 1 True, Work 1 True, Work 1 True]
     @ [Work 1 True, Work 1 True] @ submit 3"
  obtain q1 where q1: "try_push_not_q False init_not_q (msg_task 1) = Some (q1, True)"
    "nq_inv q1" "nq_tasks q1 = [msg_task 1]" "nq_done q1 = 0" using queue_one[of 1] by auto
  obtain q2 where q2: "try_push_not_q False init_not_q (msg_task 2) = Some (q2, True)"
    "nq_inv q2" "nq_tasks q2 = [msg_task 2]" "nq_done q2 = 0" using queue_one[of 2] by auto
  obtain q1' where q1': "try_pop_not_q False q1 = Some (q1', \<lparr>rt_t = [msg_task 1], rt_success = True\<rparr>)"
    "nq_tasks q1' = []" "nq_inv q1'"
    using try_pop_tasks[OF q1(2)] q1(3,4) length_nq_tasks[of q1] by (auto simp: batch_len_def)
  obtain q2' where q2': "try_pop_not_q False q2 = Some (q2', \<lparr>rt_t = [msg_task 2], rt_success = True\<rparr>)"
    "nq_tasks q2' = []" "nq_done q2' = 0"
    using try_pop_tasks[OF q2(2)] q2(3,4) length_nq_tasks[of q2] by (auto simp: batch_len_def)
  obtain q3 where q3: "try_push_not_q False q1' (msg_task 3) = Some (q3, True)" "nq_tasks q3 = [msg_task 3]"
    using pushes[OF q1'(3), of "msg_task 3"] q1'(2) by (auto simp flip: length_nq_tasks)
  have "\<exists>s. tm_exec_all two_threads ?evs = Some s \<and> tm_workers s = [Run [msg_task 1], Asleep]
      \<and> q_arr (tm_man s) ! 0 = q3 \<and> tm_clients s = [Outside] \<and> tm_closing s = Opened"
    by (simp add: tm_eval q1(1) q2(1) q1'(1) q2'(1) q3(1) pop_wait[OF q2'(2,3)])
  then obtain s where s: "tm_exec_all two_threads ?evs = Some s" "tm_workers s = [Run [msg_task 1], Asleep]"
      "q_arr (tm_man s) ! 0 = q3" "tm_clients s = [Outside]" "tm_closing s = Opened" by blast
  have "\<exists>busy. ev = Work 0 busy" if "internal ev" "tm_enabled s ev" for ev
    using that s by (cases ev) (auto simp: nth_Cons less_2_cases_iff split: nat.splits)
  with exec_all_sound[OF s(1)] s(2,3) q3(2) show ?thesis by blast
qed

text \<open>
  A task without argument: \<^verbatim>\<open>async_task_manager\<close> and \<^verbatim>\<open>push_not_q\<close> accept it (their assertions are
  commented out), \<^verbatim>\<open>try_push_not_q\<close>, which comes first, aborts on it.
\<close>
theorem null_argument_aborts:
  assumes "tm_inv s" and "tm_enabled s (Call c t)" and "t_args t = 0" and "t_func t \<noteq> 0"
  shows "\<exists>s'. tm_exec s (Call c t) = Some s' \<and> tm_enabled s' (Client c busy) \<and> tm_exec s' (Client c busy) = None"
proof -
  note parts = tm_inv_parts[OF assms(1)]
  have "0 < len_thr (tm_man s)" "c < length (tm_clients s)" using parts(1) assms(2) by (auto simp: tm_shape_def)
  then show ?thesis
    using parts(6) assms(3,4)
    by (simp add: async_start_def client_step_def async_loop_def async_queue_def try_push_not_q_def Let_def)
qed

end
