(* ===== verification/Spec2Isabelle.thy ===== *)
theory Spec2Isabelle
  imports Tc_Codec Slice_Copy Tsn_Queue Seq_Arr Rb_Properties Reg_Properties Ht_Properties Ric_Witnesses
    Agent_Properties Xapp_Wakeup End_To_End Task_Man_Properties
begin

text \<open>
  A verification development for FlexRIC, the near real-time RIC of this repository
  (\<^verbatim>\<open>src/src/flexric\<close>), in its default build (E2AP version 2.03).  All file names below are
  relative to \<^verbatim>\<open>src/src/flexric/src\<close>.

  \<^bold>\<open>The program.\<close>  E2 nodes (base stations) connect to the RIC (\<^verbatim>\<open>ric/\<close>) and offer RAN functions;
  xApps connect to the iApp (\<^verbatim>\<open>ric/iApp/\<close>), a part of the RIC with an event loop of its own, and
  ask for subscriptions and control actions.  The iApp gives every request a number of the RIC,
  remembers it in a bidirectional map and has the RIC forward it; the RIC starts a timer, sends
  the request to the E2 node, and hands the answers and indications of the nodes back to the
  iApp, which looks up the xApp and restores the identifier that the xApp chose.  Below them are
  generic containers (\<^verbatim>\<open>util/alg_ds\<close>), and the service models (\<^verbatim>\<open>sm/\<close>), which encode what E2 nodes
  and xApps tell each other.

  \<^bold>\<open>Conventions.\<close>  A struct is a record with the fields of the source, an enumeration or a tagged
  union a datatype, an integer of w bits a word.  A call that aborts (a failed \<^verbatim>\<open>assert\<close>, a null
  dereference or an access outside of an allocation, as far as the model sees them) is \<open>None\<close>;
  \<open>assert_c\<close> is the assertion.  State is passed explicitly.  Operations that hold a lock are one
  step.  What the operating system or generated code provides is a parameter: the descriptors of
  timers (\<open>timerfd\<close>, with \<open>timerfd_ok\<close> as its documented behaviour: positive and not open yet), the
  bytes that \<^verbatim>\<open>realloc\<close> adds, the functions of a service model that is loaded at run time.

  \<^bold>\<open>The theories.\<close>
  \<^item> \<open>Prelude\<close>: assertions, byte lists, loops over iterators, lemmas on words that all parts share.
  \<^item> \<open>Tc_Types\<close>, \<open>Tc_Enc\<close>, \<open>Tc_Dec\<close>, \<open>Tc_Ctrl_Enc\<close>, \<open>Tc_Ctrl_Dec\<close>, \<open>Tc_Codec\<close>: the traffic-control
    service model (\<^verbatim>\<open>sm/tc_sm\<close>): its messages, the plain encoder and decoder byte by byte, with the
    size functions and the assertions, and the round trips.
  \<^item> \<open>Slice_Types\<close>, \<open>Slice_Enc\<close>, \<open>Slice_Dec\<close>, \<open>Slice_Data\<close>: the slicing service model (\<^verbatim>\<open>sm/slice_sm\<close>): its data, the
    plain encoder and decoder, and the comparisons and copies with their assertions; \<open>Slice_Codec\<close>: the round
    trips; \<open>Slice_Copy\<close>: exactly when a message can be copied.
  \<^item> \<open>Seq_Iface\<close>: the contracts of a sequence container and of its iterators, as locales;
    \<open>Seq_Ring\<close>: \<^verbatim>\<open>seq_ring.c\<close>, the ring buffer with wrapping counters, as a refinement of a list;
    \<open>Tsn_Queue\<close>: \<^verbatim>\<open>tsn_queue.c\<close> and \<^verbatim>\<open>tsq.c\<close>, queues between threads, as interleavings of atomic steps;
    \<open>Seq_Arr\<close>: \<^verbatim>\<open>seq_arr.c\<close>, the growing array, with its allocations.
  \<^item> \<open>Compare\<close>: identifiers and their three-way comparisons, all instances of the locale
    \<open>comparator\<close>; \<open>Bimap\<close>: \<^verbatim>\<open>bimap.c\<close> over ordered containers, with the laws proved once in the
    locale \<open>bimap_cmps\<close> and interpreted for each map of the RIC.
  \<^item> \<open>Rb_Heap\<close>: \<^verbatim>\<open>assoc_rb_tree.c\<close>, the red-black tree over a heap of nodes; \<open>Rb_Rep\<close>: what the heap of such
    a tree holds, and the rotations; \<open>Rb_Insert\<close>, \<open>Rb_Delete\<close>, \<open>Rb_Extract\<close>: the repairs after an
    insertion and a removal, round by round; \<open>Rb_Iter\<close>: iterators, search and freeing;
    \<open>Rb_Properties\<close>: the tree refines the ordered sequence of entries that \<open>Bimap\<close> works on.
  \<^item> \<open>Assoc_Reg\<close>: \<^verbatim>\<open>assoc_reg.c\<close>, the registry that hands out its keys, with the generic \<^verbatim>\<open>copy_if\<close>,
    \<^verbatim>\<open>partition\<close>, \<^verbatim>\<open>find_reg\<close> (a binary search), \<^verbatim>\<open>remove_if_reg\<close> and \<^verbatim>\<open>for_each_reg\<close>; \<open>Reg_Laws\<close>: its invariant
    (keys rise, the live slots are counted, the capacity is a power of two) and the law of each
    operation; \<open>Reg_Properties\<close>: runs of the registry refine an association list, its search is a
    linear search, and what happens when the counter of the keys wraps.
  \<^item> \<open>Assoc_Ht\<close>: \<^verbatim>\<open>assoc_ht_open_address.c\<close>, the hash table with open addressing, and \<^verbatim>\<open>murmur_hash_32.c\<close>;
    \<open>Ht_Laws\<close>: probing, the invariant (every key is reached over dirty slots, half of the table is clean)
    and the law of each operation, in the locale \<open>hashing\<close> over the functions of the client;
    \<open>Ht_Properties\<close>: runs of the table refine an association list, for the functions that the clients use.
  \<^item> \<open>E2ap_Msg\<close>: the messages of \<^verbatim>\<open>lib/e2ap/v2_03\<close> that the RIC reads or builds.
    \<open>Reg_E2_Nodes\<close>: the registries of connected E2 nodes.  \<open>Map_Ric_Id\<close>: the map of requests and the
    map of xApp addresses.
  \<^item> \<open>Near_Ric\<close>: state of the RIC, timers, requests.  \<open>Iapp\<close>: state of the iApp, its handlers and the
    bodies of its event loop.  \<open>Msg_Handler_Ric\<close>: the handlers and the event loop of the RIC.
  \<^item> \<open>Ric_System\<close>: the two together; the invariant \<open>sys_inv\<close>; each request is forwarded, each answer
    delivered.  \<open>Ric_Run\<close>: runs as an inductive relation over the events, the history of every
    answer.  \<open>Ric_Invariant\<close>: every event keeps \<open>sys_inv\<close>.  \<open>Ric_Properties\<close>: what follows for
    reachable states, nodes and xApps that leave.  \<open>Ric_Failures\<close>: reachable situations in which the
    RIC aborts or serves the wrong peer.  \<open>Ric_Witnesses\<close>: a concrete run, evaluated by the
    simplifier, and the properties at its states.
  \<^item> \<open>E2_Agent\<close>: the agent that a base station links (\<^verbatim>\<open>agent/\<close>, \<^verbatim>\<open>lib/ind_event.c\<close>): its state, handlers and
    timers; \<open>Agent_Loop\<close>: the rounds of its event loop and the events of the base station;
    \<open>Agent_Laws\<close>: the invariant \<open>ag_inv\<close>, the law of each operation, and the pipe in step with the queue
    (\<open>in_step\<close>); \<open>Agent_Properties\<close>: the agent does not get stuck (progress and preservation), what a
    subscription gives, numbers of five digits, and an association that closes twice.
  \<^item> \<open>Xapp\<close>: the xApp library (\<^verbatim>\<open>xApp/\<close>): its state, active procedures (over \<open>Assoc_Reg\<close>), pending events
    (over \<open>Bimap\<close>), the condition variable of the user and the handlers; \<open>Xapp_Threads\<close>: the thread of the
    user, the event loop and the worker as one machine, whose steps are the pieces of the threads
    between the points where the others can see a difference; \<open>Xapp_Laws\<close>, \<open>Xapp_Calls\<close>: the invariant
    \<open>xapp_inv\<close> and the law of each operation, call and message; \<open>Xapp_Properties\<close>: an xApp whose
    environment keeps the contract does not abort; \<open>Xapp_Wakeup\<close>: the answer that comes too early.
  \<^item> \<open>Task_Man\<close>: \<^verbatim>\<open>task_manager.c\<close>, the pool of threads on which the RIC handles its messages: queues, workers
    that steal, clients, shutting down, with sleeping and signals explicit; \<open>Task_Man_Laws\<close>: the law of each
    operation of a queue; \<open>Task_Man_Inv\<close>, \<open>Task_Man_Steps\<close>: the invariant and the measure of the pool, and that
    every step of every thread keeps the one and lowers the other; \<open>Task_Man_Properties\<close>: every task once,
    the pool comes to rest with nothing left behind, and the orders it does not keep.
  \<^item> \<open>Net\<close>: an xApp, the RIC and an agent joined by ordered associations; \<open>End_To_End\<close>: a report from the
    call of the user to its callback, through all of them.

  \<^bold>\<open>Bounds.\<close>  \<open>sys_inv\<close> speaks of the numbers that the RIC hands out; its preservation and the
  theorems that rely on fresh numbers hold while fewer than 65536 were handed out, because the
  code truncates the counter to 16 bits; the theorem on number zero shows what happens then.
  \<open>env_ok\<close> states what the peers must respect (an xApp does not reuse an identifier, an address
  connects once).  Nothing in the RIC theories needs fuel.  Other bounds come from the widths that
  the code chooses, each with what happens beyond it: fewer than 256 registered E2 nodes, because
  the array of nodes that every request builds counts them in 8 bits (\<open>many_nodes_overflow\<close>); fewer
  than 2^31 buckets for the binary search of the registry, whose length is an \<^verbatim>\<open>int\<close>; strings shorter
  than 2^32 - 1 bytes for the decoder of the slicing model, which adds one in 32 bits
  (\<open>long_string_overflows\<close>); numbers of four digits for the aperiodic events of the agent, which
  reads four bytes of the pipe for each (\<open>Agent_Properties\<close>); elements of at most 32 bytes for the
  erasure of a growing array.

  \<^bold>\<open>Not modelled.\<close>  Sockets, epoll and threads (pure I/O); the ASN.1 encoders and decoders of E2AP
  (they fill structures of generated code); loading of plug-ins; logging; handlers whose body only
  fails an assertion \<^verbatim>\<open>Not implemented\<close>; the conversions to the bit strings of the ASN.1 structures;
  the other service models, whose plain codecs are memory copies of packed structs (MAC, RLC, PDCP,
  GTP) or fill generated structures (KPM, RC); the containers without a client (list, locked
  ring).  The vendored stacks beside FlexRIC (Open5GS, srsRAN,
  OCUDU) and the Python glue are left aside.
\<close>

end
